(* ===== verification/HTS_Prelude.thy ===== *)
theory HTS_Prelude
  imports Main
begin

text \<open>
  The prelude of the development: the machine integers of the Go sources, the
  iteration order of Go maps, buffered channels, calls that may fail, and the list and map lemmas that the
  component theories share.

  \<^item> \<open>int64\<close> and \<open>int\<close> values are \<^typ>\<open>int\<close>, with the two's-complement wrap-around
    of every arithmetic result written out as \<open>wrap64\<close>.
  \<^item> A Go \<open>map[K]V\<close> is a map \<open>'k \<rightharpoonup> 'v\<close>. A \<open>range\<close> loop visits the keys in an
    order the language leaves open: a definition with such a loop takes the order as a
    list of keys, and \<open>range_order\<close> says that the list is an order of that map.
  \<^item> A Go channel is a buffer with a capacity. A plain send on a full channel blocks
    (\<open>None\<close>); a send in a \<open>select\<close> with a \<open>default\<close> branch drops the value.
\<close>

named_theorems go_simps
named_theorems inv_intros

type_synonym go_time = int
type_synonym go_string = string

section \<open>Machine integers\<close>

definition in64 :: "int \<Rightarrow> bool" where
  "in64 x \<longleftrightarrow> - 9223372036854775808 \<le> x \<and> x < 9223372036854775808"

definition wrap64 :: "int \<Rightarrow> int" where
  "wrap64 x = (x + 9223372036854775808) mod 18446744073709551616 - 9223372036854775808"

text \<open>Go's integer division truncates towards zero. The divisor is not zero: the
  sources divide under a guard that excludes it.\<close>

definition quot64 :: "int \<Rightarrow> int \<Rightarrow> int" where
  "quot64 a b = wrap64 (sgn a * sgn b * (\<bar>a\<bar> div \<bar>b\<bar>))"

lemma in64_wrap64 [simp, inv_intros]: "in64 (wrap64 x)"
proof -
  have "0 \<le> (x + 9223372036854775808) mod 18446744073709551616"
    and "(x + 9223372036854775808) mod 18446744073709551616 < 18446744073709551616"
    by simp_all
  then show ?thesis unfolding in64_def wrap64_def by linarith
qed

lemma wrap64_id [simp]: "in64 x \<Longrightarrow> wrap64 x = x"
  by (simp add: in64_def wrap64_def)

lemma wrap64_idem: "wrap64 (wrap64 x) = wrap64 x"
  by simp

lemma in64_0 [simp]: "in64 0"
  by (simp add: in64_def)

lemma wrap64_mod: "wrap64 x mod 18446744073709551616 = x mod 18446744073709551616"
proof -
  have "wrap64 x mod 18446744073709551616
      = ((x + 9223372036854775808) mod 18446744073709551616 - 9223372036854775808)
          mod 18446744073709551616"
    by (simp add: wrap64_def)
  also have "\<dots> = (x + 9223372036854775808 - 9223372036854775808) mod 18446744073709551616"
    by (rule mod_diff_left_eq)
  finally show ?thesis by simp
qed

lemma wrap64_cong:
  "x mod 18446744073709551616 = y mod 18446744073709551616 \<Longrightarrow> wrap64 x = wrap64 y"
  unfolding wrap64_def by (drule mod_add_cong [OF _ refl, where b = 9223372036854775808]) (simp only:)

lemma wrap64_add_right [simp]: "wrap64 (x + wrap64 y) = wrap64 (x + y)"
  by (rule wrap64_cong, rule mod_add_cong) (simp_all only: wrap64_mod)

lemma wrap64_add_left [simp]: "wrap64 (wrap64 x + y) = wrap64 (x + y)"
  by (rule wrap64_cong, rule mod_add_cong) (simp_all only: wrap64_mod)

lemma wrap64_diff_right [simp]: "wrap64 (x - wrap64 y) = wrap64 (x - y)"
  by (rule wrap64_cong, rule mod_diff_cong) (simp_all only: wrap64_mod)

lemma wrap64_diff_left [simp]: "wrap64 (wrap64 x - y) = wrap64 (x - y)"
  by (rule wrap64_cong, rule mod_diff_cong) (simp_all only: wrap64_mod)

lemma quot64_nonneg:
  assumes "0 \<le> a" and "0 < b" and "in64 a"
  shows "quot64 a b = a div b"
proof -
  have le: "a div b \<le> a" using assms(1,2)
    by (metis div_by_1 int_one_le_iff_zero_less zdiv_mono2 zero_less_one)
  have "0 \<le> a div b" using assms(1,2) by (simp add: pos_imp_zdiv_nonneg_iff)
  with le assms(3) have "in64 (a div b)" by (simp add: in64_def)
  moreover have "sgn a * sgn b * (\<bar>a\<bar> div \<bar>b\<bar>) = a div b"
    using assms(1,2) by (cases "a = 0") simp_all
  ultimately show ?thesis by (simp add: quot64_def)
qed

lemma quot64_nonpos:
  assumes "a \<le> 0" and "0 < b" and "in64 a"
  shows "quot64 a b = - (- a div b)"
proof -
  have le: "- a div b \<le> - a" using assms(1,2)
    by (metis div_by_1 int_one_le_iff_zero_less neg_0_le_iff_le zdiv_mono2 zero_less_one)
  have "0 \<le> - a div b" using assms(1,2) by (simp add: pos_imp_zdiv_nonneg_iff)
  with le assms(1,3) have "in64 (- (- a div b))" by (auto simp: in64_def)
  moreover have "sgn a * sgn b * (\<bar>a\<bar> div \<bar>b\<bar>) = - (- a div b)"
    using assms(1,2) by (cases "a = 0") simp_all
  ultimately show ?thesis by (simp add: quot64_def)
qed

lemma zdiv_ge_iff: "0 < (b :: int) \<Longrightarrow> k \<le> a div b \<longleftrightarrow> k * b \<le> a"
proof
  assume b: "0 < b" and "k \<le> a div b"
  then have "k * b \<le> a div b * b" by simp
  also have "\<dots> \<le> a" using b pos_mod_sign [of b a] div_mult_mod_eq [of a b] by linarith
  finally show "k * b \<le> a" .
next
  assume b: "0 < b" and "k * b \<le> a"
  from zdiv_mono1 [OF this(2) b] b show "k \<le> a div b" by simp
qed

text \<open>A positive quotient by a positive divisor is the floor of the exact quotient.\<close>

lemma quot64_pos:
  assumes "0 < quot64 a b" and "0 < b" and "in64 a"
  shows "0 < a \<and> quot64 a b * b \<le> a \<and> a < (quot64 a b + 1) * b"
proof (cases "0 \<le> a")
  case True
  with assms have q: "quot64 a b = a div b" by (simp add: quot64_nonneg)
  have "a div b * b \<le> a"
    using assms(2) by (metis add_increasing2 div_mult_mod_eq order_refl pos_mod_sign)
  moreover have "a < (a div b + 1) * b"
    unfolding distrib_right mult_1
    using pos_mod_bound [OF assms(2), of a] div_mult_mod_eq [of a b] by linarith
  moreover have "0 < a" using True assms(1,2) q by (cases "a = 0") auto
  ultimately show ?thesis by (simp add: q)
next
  case False
  with assms quot64_nonpos [of a b] have "- a div b < 0" by simp
  with False assms(2) show ?thesis by (simp add: pos_imp_zdiv_neg_iff)
qed

section \<open>Go maps and the order of their iteration\<close>

definition range_order :: "'k list \<Rightarrow> ('k \<rightharpoonup> 'v) \<Rightarrow> bool" where
  "range_order ks m \<longleftrightarrow> distinct ks \<and> set ks = dom m"

lemma range_order_set: "range_order ks m \<Longrightarrow> k \<in> set ks \<longleftrightarrow> m k \<noteq> None"
  by (auto simp: range_order_def)

lemma range_order_distinct: "range_order ks m \<Longrightarrow> distinct ks"
  by (simp add: range_order_def)

lemma range_order_empty_iff: "range_order ks m \<Longrightarrow> ks = [] \<longleftrightarrow> m = Map.empty"
  unfolding range_order_def by (metis dom_eq_empty_conv set_empty)

lemma range_order_lookup:
  assumes "range_order ks m" and "k \<in> set ks"
  obtains v where "m k = Some v"
  using assms by (auto simp: range_order_def)

text \<open>A value of a map that satisfies a test, as a \<open>range\<close> loop with an early return
  finds it: the first key of the order whose value passes.\<close>

fun range_find :: "'k list \<Rightarrow> ('k \<rightharpoonup> 'v) \<Rightarrow> ('k \<Rightarrow> 'v \<Rightarrow> bool) \<Rightarrow> ('k \<times> 'v) option" where
  "range_find [] m P = None"
| "range_find (k # ks) m P =
     (case m k of
        None \<Rightarrow> range_find ks m P
      | Some v \<Rightarrow> if P k v then Some (k, v) else range_find ks m P)"

lemma range_find_Some:
  "range_find ks m P = Some (k, v) \<Longrightarrow> k \<in> set ks \<and> m k = Some v \<and> P k v"
  by (induction ks) (auto split: option.splits if_splits)

lemma range_find_None:
  "range_find ks m P = None \<longleftrightarrow> (\<forall>k\<in>set ks. \<forall>v. m k = Some v \<longrightarrow> \<not> P k v)"
  by (induction ks) (auto split: option.splits)

lemma range_find_None_order:
  assumes "range_order ks m"
  shows "range_find ks m P = None \<longleftrightarrow> (\<forall>k v. m k = Some v \<longrightarrow> \<not> P k v)"
  using assms by (auto simp: range_find_None range_order_def)

text \<open>The values of a map that a \<open>range\<close> loop visits.\<close>

lemma set_map_filter: "set (List.map_filter m ks) = {v. \<exists>k\<in>set ks. m k = Some v}"
  by (induction ks) (auto simp: List.map_filter_def)

lemma set_map_filter_order:
  assumes "range_order ks m"
  shows "set (List.map_filter m ks) = {v. \<exists>k. m k = Some v}"
  using assms by (auto simp: set_map_filter range_order_def)

text \<open>Filling a map in a loop keeps what every entry satisfies.\<close>

lemma fold_map_upd_all:
  assumes "\<And>c v. m0 c = Some v \<Longrightarrow> P c v" and "\<And>x. x \<in> set xs \<Longrightarrow> P (k x) (f x)"
    and "fold (\<lambda>x m. m(k x \<mapsto> f x)) xs m0 c = Some v"
  shows "P c v"
  using assms
proof (induction xs arbitrary: m0)
  case Nil
  then show ?case by simp
next
  case (Cons a xs)
  show ?case
  proof (rule Cons.IH [of "m0(k a \<mapsto> f a)"])
    show "P c v" if "(m0(k a \<mapsto> f a)) c = Some v" for c v
      using that Cons.prems(1,2) by (auto split: if_splits)
    show "P (k x) (f x)" if "x \<in> set xs" for x using that Cons.prems(2) by simp
    show "fold (\<lambda>x m. m(k x \<mapsto> f x)) xs (m0(k a \<mapsto> f a)) c = Some v"
      using Cons.prems(3) by (simp only: fold_Cons comp_def)
  qed
qed

section \<open>Invariants of a system of steps\<close>

text \<open>The contract of a state machine and its invariant. A component interprets it on
  its own step relation; what it gets is the invariant in every reachable state.\<close>

locale invariant_system =
  fixes init :: "'s \<Rightarrow> bool"
    and step :: "'s \<Rightarrow> 's \<Rightarrow> bool"
    and ok :: "'s \<Rightarrow> bool"
  assumes ok_init: "init s \<Longrightarrow> ok s"
    and ok_step: "ok s \<Longrightarrow> step s s' \<Longrightarrow> ok s'"
begin

lemma ok_steps: "step\<^sup>*\<^sup>* s s' \<Longrightarrow> ok s \<Longrightarrow> ok s'"
  by (induction rule: rtranclp_induct) (auto intro: ok_step)

lemma ok_reachable: "init s \<Longrightarrow> step\<^sup>*\<^sup>* s s' \<Longrightarrow> ok s'"
  using ok_steps ok_init by blast

end

section \<open>Channels\<close>

datatype 'a chan = Chan (chan_cap: nat) (chan_buf: "'a list")

definition chan_make :: "nat \<Rightarrow> 'a chan" where
  "chan_make n = Chan n []"

definition chan_full :: "'a chan \<Rightarrow> bool" where
  "chan_full c \<longleftrightarrow> chan_cap c \<le> length (chan_buf c)"

definition chan_send :: "'a chan \<Rightarrow> 'a \<Rightarrow> 'a chan option" where
  "chan_send c x =
     (if chan_full c then None else Some (Chan (chan_cap c) (chan_buf c @ [x])))"

definition chan_try_send :: "'a chan \<Rightarrow> 'a \<Rightarrow> 'a chan \<times> bool" where
  "chan_try_send c x = (case chan_send c x of None \<Rightarrow> (c, False) | Some c' \<Rightarrow> (c', True))"

definition chan_recv :: "'a chan \<Rightarrow> ('a \<times> 'a chan) option" where
  "chan_recv c = (case chan_buf c of [] \<Rightarrow> None | x # xs \<Rightarrow> Some (x, Chan (chan_cap c) xs))"

definition chan_ok :: "'a chan \<Rightarrow> bool" where
  "chan_ok c \<longleftrightarrow> length (chan_buf c) \<le> chan_cap c"

lemmas chan_defs = chan_make_def chan_full_def chan_send_def chan_try_send_def chan_recv_def
  chan_ok_def

text \<open>The contract of a bounded queue: what a client of a channel relies on.\<close>

locale bounded_fifo =
  fixes send :: "'q \<Rightarrow> 'a \<Rightarrow> 'q option"
    and recv :: "'q \<Rightarrow> ('a \<times> 'q) option"
    and items :: "'q \<Rightarrow> 'a list"
    and bound :: "'q \<Rightarrow> nat"
    and ok :: "'q \<Rightarrow> bool"
  assumes send_items: "send q x = Some q' \<Longrightarrow> items q' = items q @ [x]"
    and send_bound: "send q x = Some q' \<Longrightarrow> bound q' = bound q"
    and send_blocks: "ok q \<Longrightarrow> send q x = None \<longleftrightarrow> length (items q) = bound q"
    and send_ok: "ok q \<Longrightarrow> send q x = Some q' \<Longrightarrow> ok q'"
    and recv_items: "recv q = Some (x, q') \<Longrightarrow> items q = x # items q'"
    and recv_bound: "recv q = Some (x, q') \<Longrightarrow> bound q' = bound q"
    and recv_blocks: "recv q = None \<longleftrightarrow> items q = []"
    and recv_ok: "ok q \<Longrightarrow> recv q = Some (x, q') \<Longrightarrow> ok q'"
    and ok_length: "ok q \<Longrightarrow> length (items q) \<le> bound q"
begin

fun send_all :: "'q \<Rightarrow> 'a list \<Rightarrow> 'q option" where
  "send_all q [] = Some q"
| "send_all q (x # xs) = (case send q x of None \<Rightarrow> None | Some q' \<Rightarrow> send_all q' xs)"

fun recv_n :: "nat \<Rightarrow> 'q \<Rightarrow> ('a list \<times> 'q) option" where
  "recv_n 0 q = Some ([], q)"
| "recv_n (Suc n) q =
     (case recv q of None \<Rightarrow> None
      | Some (x, q') \<Rightarrow> map_option (\<lambda>(xs, q''). (x # xs, q'')) (recv_n n q'))"

lemma send_all_items: "send_all q xs = Some q' \<Longrightarrow> items q' = items q @ xs"
  by (induction xs arbitrary: q) (auto split: option.splits dest: send_items)

lemma send_all_room:
  "ok q \<Longrightarrow> (\<exists>q'. send_all q xs = Some q') \<longleftrightarrow> length (items q) + length xs \<le> bound q"
proof (induction xs arbitrary: q)
  case Nil
  then show ?case by (simp add: ok_length)
next
  case (Cons x xs)
  show ?case
  proof (cases "send q x")
    case None
    with send_blocks [OF Cons.prems] have "length (items q) = bound q" by blast
    with None show ?thesis by simp
  next
    case (Some q1)
    with Cons.prems have "ok q1" by (blast intro: send_ok)
    from Cons.IH [OF this] Some show ?thesis
      by (simp add: send_items [OF Some] send_bound [OF Some])
  qed
qed

lemma recv_n_items:
  "recv_n n q = Some (xs, q') \<Longrightarrow> items q = xs @ items q' \<and> length xs = n"
  by (induction n arbitrary: q xs)
     (auto split: option.splits prod.splits dest: recv_items)

lemma recv_n_total: "n \<le> length (items q) \<Longrightarrow> \<exists>r. recv_n n q = Some r"
proof (induction n arbitrary: q)
  case 0
  then show ?case by simp
next
  case (Suc n)
  then obtain x q1 where r: "recv q = Some (x, q1)"
    using recv_blocks [of q] by (cases "recv q") auto
  with Suc.prems have "n \<le> length (items q1)" by (simp add: recv_items [OF r])
  from Suc.IH [OF this] r show ?case by auto
qed

text \<open>What is sent on an empty queue comes out complete and in order.\<close>

lemma fifo_delivery:
  assumes "items q = []" and "send_all q xs = Some q'"
  shows "\<exists>q''. recv_n (length xs) q' = Some (xs, q'') \<and> items q'' = []"
proof -
  have i: "items q' = xs" using send_all_items [OF assms(2)] assms(1) by simp
  then obtain ys q'' where r: "recv_n (length xs) q' = Some (ys, q'')"
    using recv_n_total [of "length xs" q'] by (metis order_refl surj_pair)
  have e: "xs = ys @ items q''" and l: "length ys = length xs"
    using recv_n_items [OF r] i by metis+
  from arg_cong [OF e, of length] l have "items q'' = []" by simp
  moreover from e this have "ys = xs" by simp
  ultimately show ?thesis using r by blast
qed

end

interpretation go_chan: bounded_fifo chan_send chan_recv chan_buf chan_cap chan_ok
proof (unfold_locales, goal_cases)
  case (1 q x q') then show ?case by (auto simp: chan_defs split: if_splits)
next
  case (2 q x q') then show ?case by (auto simp: chan_defs split: if_splits)
next
  case (3 q x) then show ?case by (simp add: chan_defs)
next
  case (4 q x q') then show ?case by (auto simp: chan_defs split: if_splits)
next
  case (5 q x q') then show ?case by (auto simp: chan_defs split: list.splits)
next
  case (6 q x q') then show ?case by (auto simp: chan_defs split: list.splits)
next
  case (7 q) then show ?case by (simp add: chan_defs split: list.splits)
next
  case (8 q x q') then show ?case by (auto simp: chan_defs split: list.splits)
next
  case (9 q) then show ?case by (simp add: chan_defs)
qed

lemma chan_ok_make [simp, inv_intros]: "chan_ok (chan_make n)"
  by (simp add: chan_defs)

lemma chan_try_send_buf:
  "chan_buf (fst (chan_try_send c x)) = (if chan_full c then chan_buf c else chan_buf c @ [x])"
  by (simp add: chan_defs)

lemma chan_try_send_cap [simp]: "chan_cap (fst (chan_try_send c x)) = chan_cap c"
  by (simp add: chan_defs)

lemma chan_try_send_ok [inv_intros]: "chan_ok c \<Longrightarrow> chan_ok (fst (chan_try_send c x))"
  by (auto simp: chan_defs)

section \<open>Lists\<close>

text \<open>Removing the first occurrence, as the slice idiom
  \<open>append(s[:i], s[i+1:]...)\<close> in a search loop does.\<close>

fun remove_first :: "('a \<Rightarrow> bool) \<Rightarrow> 'a list \<Rightarrow> 'a list option" where
  "remove_first P [] = None"
| "remove_first P (x # xs) = (if P x then Some xs else map_option ((#) x) (remove_first P xs))"

lemma remove_first_None [simp]: "remove_first P xs = None \<longleftrightarrow> (\<forall>x\<in>set xs. \<not> P x)"
  by (induction xs) auto

lemma remove_first_Some:
  "remove_first P xs = Some ys \<Longrightarrow>
    \<exists>as x bs. xs = as @ x # bs \<and> P x \<and> (\<forall>a\<in>set as. \<not> P a) \<and> ys = as @ bs"
proof (induction xs arbitrary: ys)
  case Nil
  then show ?case by simp
next
  case (Cons z zs)
  show ?case
  proof (cases "P z")
    case True
    with Cons.prems have "ys = zs" by simp
    with True have "z # zs = [] @ z # zs \<and> P z \<and> (\<forall>a\<in>set []. \<not> P a) \<and> ys = [] @ zs" by simp
    then show ?thesis by blast
  next
    case False
    with Cons.prems obtain ys' where "remove_first P zs = Some ys'" and ys: "ys = z # ys'"
      by auto
    from Cons.IH [OF this(1)] obtain as x bs
      where s: "zs = as @ x # bs" "P x" "\<forall>a\<in>set as. \<not> P a" "ys' = as @ bs" by blast
    have "z # zs = (z # as) @ x # bs \<and> P x \<and> (\<forall>a\<in>set (z # as). \<not> P a) \<and> ys = (z # as) @ bs"
      using s False ys by simp
    then show ?thesis by blast
  qed
qed

section \<open>Calls that may fail\<close>

text \<open>\<open>if err != nil { return err }\<close> after a call.\<close>

definition bindE :: "'e + 'a \<Rightarrow> ('a \<Rightarrow> 'e + 'b) \<Rightarrow> 'e + 'b" where
  "bindE m f = (case m of Inl e \<Rightarrow> Inl e | Inr x \<Rightarrow> f x)"

lemma bindE_simps [simp]: "bindE (Inl e) f = Inl e" "bindE (Inr x) f = f x"
  by (simp_all add: bindE_def)

lemma bindE_Inr: "bindE m f = Inr y \<longleftrightarrow> (\<exists>x. m = Inr x \<and> f x = Inr y)"
  by (cases m) simp_all

end
