(* ===== verification/Trading_Types.thy ===== *)
theory Trading_Types
  imports Complex_Main HTS_Prelude
begin

text \<open>
  The data that the components exchange: the order vocabulary of
  \<open>internal/core/domain/types.go\<close> and \<open>internal/core/exchange/types.go\<close>, the events a
  broker sends to the engine, and the trade signals of a strategy.

  \<^item> \<open>Side\<close>, \<open>OrderType\<close>, \<open>OrderStatus\<close> and \<open>BrokerStatus\<close> are Go string types: any
    string is a value of them, and the named constants are abbreviations here.
  \<^item> The event structs \<open>TickEvent\<close>, \<open>ExecEvent\<close>, \<open>StatusEvent\<close>, \<open>ErrorEvent\<close> and
    \<open>TradeSignal\<close> are used throughout \<open>internal/core\<close> but not declared in the package
    \<open>domain\<close>; their records have the fields that the sources write and read.
  \<^item> \<open>float64\<close> fields hold the rational number they denote.
\<close>

section \<open>Vocabulary\<close>

type_synonym side = string
type_synonym order_type = string
type_synonym order_status = string
type_synonym broker_status = string

abbreviation Buy :: side where "Buy \<equiv> ''buy''"
abbreviation Sell :: side where "Sell \<equiv> ''sell''"
abbreviation Limit :: order_type where "Limit \<equiv> ''limit''"
abbreviation Market :: order_type where "Market \<equiv> ''market''"
abbreviation StatusPending :: order_status where "StatusPending \<equiv> ''pending''"
abbreviation StatusOpen :: order_status where "StatusOpen \<equiv> ''open''"
abbreviation StatusFilled :: order_status where "StatusFilled \<equiv> ''filled''"
abbreviation StatusPartial :: order_status where "StatusPartial \<equiv> ''partial''"
abbreviation StatusCancelled :: order_status where "StatusCancelled \<equiv> ''cancelled''"
abbreviation StatusRejected :: order_status where "StatusRejected \<equiv> ''rejected''"
abbreviation BrokerStatusCreated :: broker_status where "BrokerStatusCreated \<equiv> ''created''"
abbreviation BrokerStatusStarting :: broker_status where "BrokerStatusStarting \<equiv> ''starting''"
abbreviation BrokerStatusRunning :: broker_status where "BrokerStatusRunning \<equiv> ''running''"
abbreviation BrokerStatusStopping :: broker_status where "BrokerStatusStopping \<equiv> ''stopping''"
abbreviation BrokerStatusStopped :: broker_status where "BrokerStatusStopped \<equiv> ''stopped''"

datatype conn_status = StatusConnected | StatusDisconnected | StatusReconnecting

section \<open>Events and signals\<close>

record tick_event =
  te_AccountID :: string
  te_Broker :: string
  te_Code :: string
  te_Price :: int
  te_Volume :: int
  te_AccVolume :: int
  te_Change :: int
  te_ChangeRate :: int
  te_TradeTime :: string
  te_ReceivedAt :: go_time

record exec_event =
  xe_AccountID :: string
  xe_Broker :: string
  xe_OrderID :: string
  xe_Code :: string
  xe_Side :: side
  xe_Price :: int
  xe_Quantity :: int
  xe_RemainQty :: int
  xe_TotalQty :: int
  xe_Status :: string
  xe_ExecTime :: go_time
  xe_ReceivedAt :: go_time

record price_level =
  pl_Price :: int
  pl_Size :: int

record quote_event =
  qe_AccountID :: string
  qe_Broker :: string
  qe_Code :: string
  qe_Asks :: "price_level list"
  qe_Bids :: "price_level list"
  qe_TotalAsk :: int
  qe_TotalBid :: int
  qe_ReceivedAt :: go_time

record status_event =
  se_AccountID :: string
  se_Broker :: string
  se_Status :: conn_status
  se_Message :: string
  se_ReceivedAt :: go_time

record error_event =
  ee_AccountID :: string
  ee_Broker :: string
  ee_Source :: string
  ee_Code :: string
  ee_Message :: string
  ee_Fatal :: bool
  ee_ReceivedAt :: go_time

text \<open>The reason of a signal is a formatted message; the model keeps the arguments of the
  format call.\<close>

datatype trade_reason =
    BuyReason string "(int \<times> int) list" string int
  | ProfitReason string int rat
  | LossReason string int rat

record trade_signal =
  ts_AccountID :: string
  ts_Code :: string
  ts_Side :: side
  ts_Type :: order_type
  ts_Quantity :: int
  ts_Price :: int
  ts_Reason :: trade_reason

section \<open>Orders, holdings and balances of an exchange\<close>

record order_request =
  orq_Code :: string
  orq_Side :: side
  orq_Type :: order_type
  orq_Quantity :: int
  orq_Price :: int

record order_response =
  ors_OrderID :: string
  ors_Code :: string
  ors_Side :: side
  ors_Type :: order_type
  ors_Quantity :: int
  ors_Price :: int
  ors_Status :: order_status
  ors_CreatedAt :: go_time

record exch_order =
  eo_OrderID :: string
  eo_Code :: string
  eo_Side :: side
  eo_Type :: order_type
  eo_Quantity :: rat
  eo_FilledQty :: rat
  eo_Price :: rat
  eo_AvgFillPrice :: rat
  eo_Status :: order_status
  eo_CreatedAt :: go_time
  eo_UpdatedAt :: go_time

record exch_price =
  xp_Code :: string
  xp_Current :: int
  xp_Open :: int
  xp_High :: int
  xp_Low :: int
  xp_PrevClose :: int
  xp_Volume :: int
  xp_Change :: int
  xp_ChangePct :: int
  xp_Timestamp :: go_time

record holding =
  ho_Code :: string
  ho_Name :: string
  ho_Quantity :: int
  ho_AvgCost :: int
  ho_CurrentPrice :: int
  ho_PnL :: int
  ho_PnLPct :: int

record balance =
  ba_TotalAsset :: int
  ba_CashBalance :: int
  ba_Holdings :: "holding list"

end
