(* ===== verification/Price_Store.thy ===== *)
theory Price_Store
  imports Trading_Types
begin

text \<open>
  \<open>internal/core/pricestore/store.go\<close>: the cache of the latest price per issue code. The
  engine writes it on every tick, a strategy reads it. The theorem says what a read
  returns after any sequence of ticks.
\<close>

record snapshot =
  sn_Code :: string
  sn_Price :: int
  sn_Volume :: int
  sn_AccVolume :: int
  sn_Change :: int
  sn_ChangeRate :: int
  sn_TradeTime :: string
  sn_UpdatedAt :: go_time

type_synonym price_store = "string \<rightharpoonup> snapshot"

definition ps_New :: price_store where
  "ps_New = Map.empty"

definition snapshot_of :: "tick_event \<Rightarrow> snapshot" where
  "snapshot_of t = \<lparr>sn_Code = te_Code t, sn_Price = te_Price t, sn_Volume = te_Volume t,
     sn_AccVolume = te_AccVolume t, sn_Change = te_Change t, sn_ChangeRate = te_ChangeRate t,
     sn_TradeTime = te_TradeTime t, sn_UpdatedAt = te_ReceivedAt t\<rparr>"

definition ps_Update :: "price_store \<Rightarrow> tick_event \<Rightarrow> price_store" where
  "ps_Update s t = s(te_Code t \<mapsto> snapshot_of t)"

definition ps_Get :: "price_store \<Rightarrow> string \<Rightarrow> snapshot option" where
  "ps_Get s code = s code"

text \<open>\<open>GetAll\<close> copies every entry in a \<open>range\<close> loop over the store.\<close>

definition ps_GetAll :: "string list \<Rightarrow> price_store \<Rightarrow> price_store" where
  "ps_GetAll ks s =
     fold (\<lambda>k cp. case s k of None \<Rightarrow> cp | Some v \<Rightarrow> cp(k \<mapsto> v)) ks Map.empty"

definition ps_Has :: "price_store \<Rightarrow> string \<Rightarrow> bool" where
  "ps_Has s code \<longleftrightarrow> s code \<noteq> None"

text \<open>The well-formedness of a store: every snapshot carries the code it is filed under.\<close>

definition ps_ok :: "price_store \<Rightarrow> bool" where
  "ps_ok s \<longleftrightarrow> (\<forall>c sn. s c = Some sn \<longrightarrow> sn_Code sn = c)"

lemma ps_ok_New [inv_intros]: "ps_ok ps_New"
  by (simp add: ps_ok_def ps_New_def)

lemma ps_ok_Update [inv_intros]: "ps_ok s \<Longrightarrow> ps_ok (ps_Update s t)"
  by (simp add: ps_ok_def ps_Update_def snapshot_of_def)

lemma ps_Get_Update:
  "ps_Get (ps_Update s t) code = (if code = te_Code t then Some (snapshot_of t) else ps_Get s code)"
  by (simp add: ps_Get_def ps_Update_def)

lemma ps_GetAll_fold:
  "fold (\<lambda>k cp. case s k of None \<Rightarrow> cp | Some v \<Rightarrow> cp(k \<mapsto> v)) ks cp0 x
    = (if x \<in> set ks \<and> s x \<noteq> None then s x else cp0 x)"
  by (induction ks arbitrary: cp0) (auto split: option.splits)

text \<open>The last tick of a code in a sequence.\<close>

fun last_tick :: "string \<Rightarrow> tick_event list \<Rightarrow> tick_event option" where
  "last_tick c [] = None"
| "last_tick c (t # ts) =
     (case last_tick c ts of
        Some t' \<Rightarrow> Some t'
      | None \<Rightarrow> if te_Code t = c then Some t else None)"

lemma ps_fold_updates:
  "ps_Get (fold (\<lambda>t s. ps_Update s t) ts s) code
    = (case last_tick code ts of None \<Rightarrow> ps_Get s code | Some t \<Rightarrow> Some (snapshot_of t))"
  by (induction ts arbitrary: s) (auto simp: ps_Get_Update split: option.splits)

text \<open>A read of the price store: after any sequence of ticks, \<open>Get\<close> returns the last tick
  of the code and nothing else, \<open>Has\<close> says whether there was one, and \<open>GetAll\<close>, in
  whatever order it walks the map, returns a copy of exactly these entries.\<close>

theorem price_store_last_tick:
  assumes "s = fold (\<lambda>t s. ps_Update s t) ts ps_New" and "range_order ks s"
  shows "ps_Get s code = map_option snapshot_of (last_tick code ts) \<and>
    ps_Has s code = (\<exists>t\<in>set ts. te_Code t = code) \<and> ps_GetAll ks s = s"
proof -
  have get: "ps_Get s code = map_option snapshot_of (last_tick code ts)"
    unfolding assms(1) by (simp add: ps_fold_updates) (simp add: ps_Get_def ps_New_def split: option.splits)
  have "last_tick code ts = None \<longleftrightarrow> (\<forall>t\<in>set ts. te_Code t \<noteq> code)"
    by (induction ts) (auto split: option.splits)
  then have "ps_Has s code = (\<exists>t\<in>set ts. te_Code t = code)"
    using get by (auto simp: ps_Has_def ps_Get_def)
  moreover have "ps_GetAll ks s = s"
    using assms(2) by (auto simp: ps_GetAll_def ps_GetAll_fold range_order_def fun_eq_iff)
  ultimately show ?thesis using get by simp
qed

definition price_tick :: "string \<Rightarrow> int \<Rightarrow> tick_event" where
  "price_tick code price = \<lparr>te_AccountID = [], te_Broker = [], te_Code = code, te_Price = price,
     te_Volume = 1, te_AccVolume = 1, te_Change = 0, te_ChangeRate = 0, te_TradeTime = [], te_ReceivedAt = 0\<rparr>"

theorem price_store_last_tick_witness:
  "map_option sn_Price (ps_Get (fold (\<lambda>t s. ps_Update s t)
      [price_tick ''A'' 10, price_tick ''A'' 11] ps_New) ''A'') = Some 11"
proof -
  let ?s = "fold (\<lambda>t s. ps_Update s t) [price_tick ''A'' 10, price_tick ''A'' 11] ps_New"
  have "range_order [''A''] ?s"
    by (simp add: range_order_def ps_Update_def ps_New_def price_tick_def)
  from price_store_last_tick [OF refl this, of "''A''"] show ?thesis
    by (simp add: price_tick_def snapshot_of_def)
qed

end
