(* ===== verification/Go_Text.thy ===== *)
theory Go_Text
  imports HTS_Prelude
begin

text \<open>
  The string functions of the Go standard library that the sources call, on byte
  strings: \<open>strings.TrimSpace\<close> (for the ASCII white space), \<open>strings.Split\<close>,
  \<open>strings.SplitN\<close>, \<open>strings.Contains\<close> for one separator byte,
  \<open>strconv.ParseInt\<close>, \<open>strconv.Atoi\<close> and \<open>strconv.FormatInt\<close> in base 10 with 64
  bits. The lemmas are the round trips: joining what was split, parsing what was
  formatted.
\<close>

section \<open>White space\<close>

definition is_space :: "char \<Rightarrow> bool" where
  "is_space c \<longleftrightarrow> (of_char c :: nat) \<in> {9, 10, 11, 12, 13, 32}"

definition trim_space :: "string \<Rightarrow> string" where
  "trim_space s = rev (dropWhile is_space (rev (dropWhile is_space s)))"

lemma trim_space_Nil [simp]: "trim_space [] = []"
  by (simp add: trim_space_def)

lemma dropWhile_rev_Nil: "dropWhile P (rev xs) = [] \<longleftrightarrow> dropWhile P xs = []"
  by (simp add: dropWhile_eq_Nil_conv)

lemma trim_space_noop:
  assumes "s \<noteq> []" and "\<not> is_space (hd s)" and "\<not> is_space (last s)"
  shows "trim_space s = s"
proof -
  have "dropWhile is_space s = s" using assms(1,2) by (cases s) auto
  moreover have "dropWhile is_space (rev s) = rev s"
  proof (cases "rev s")
    case (Cons c cs)
    have "c = last s" using Cons hd_rev [of s] by simp
    with assms(3) have "\<not> is_space c" by simp
    then show ?thesis unfolding Cons by simp
  qed simp
  ultimately show ?thesis by (simp add: trim_space_def)
qed

lemma trim_space_Nil_iff: "trim_space s = [] \<longleftrightarrow> (\<forall>c\<in>set s. is_space c)"
  by (auto simp: trim_space_def dropWhile_eq_Nil_conv dest: set_dropWhileD)
     (metis dropWhile_eq_Nil_conv hd_dropWhile hd_in_set)

lemma trim_space_idem [simp]: "trim_space (trim_space s) = trim_space s"
proof (cases "trim_space s = []")
  case False
  let ?t = "dropWhile is_space s"
  let ?u = "dropWhile is_space (rev ?t)"
  have u: "?u \<noteq> []" using False by (simp add: trim_space_def)
  have split: "?t = rev ?u @ rev (takeWhile is_space (rev ?t))"
    by (metis rev_append rev_rev_ident takeWhile_dropWhile_id)
  have "?t \<noteq> []" using u by (metis append_is_Nil_conv rev_is_Nil_conv split)
  then have "\<not> is_space (hd ?t)" by (rule hd_dropWhile)
  moreover have "hd ?t = hd (rev ?u)" using u by (subst split) simp
  moreover have "\<not> is_space (last (rev ?u))" using hd_dropWhile [OF u] by (simp add: last_rev)
  ultimately have "trim_space (rev ?u) = rev ?u" using u by (intro trim_space_noop) simp_all
  then show ?thesis by (simp add: trim_space_def)
qed simp

section \<open>Splitting\<close>

fun split_on :: "char \<Rightarrow> string \<Rightarrow> string list" where
  "split_on c [] = [[]]"
| "split_on c (x # xs) =
     (if x = c then [] # split_on c xs
      else (case split_on c xs of [] \<Rightarrow> [[x]] | p # ps \<Rightarrow> (x # p) # ps))"

fun cut_at :: "char \<Rightarrow> string \<Rightarrow> (string \<times> string) option" where
  "cut_at c [] = None"
| "cut_at c (x # xs) =
     (if x = c then Some ([], xs) else map_option (\<lambda>(a, b). (x # a, b)) (cut_at c xs))"

text \<open>\<open>strings.SplitN(s, sep, n)\<close>: at most \<open>n\<close> pieces, the last one unsplit.\<close>

fun split_n :: "char \<Rightarrow> nat \<Rightarrow> string \<Rightarrow> string list" where
  "split_n c 0 s = []"
| "split_n c (Suc 0) s = [s]"
| "split_n c (Suc (Suc n)) s =
     (case cut_at c s of None \<Rightarrow> [s] | Some (a, b) \<Rightarrow> a # split_n c (Suc n) b)"

fun join_on :: "char \<Rightarrow> string list \<Rightarrow> string" where
  "join_on c [] = []"
| "join_on c [p] = p"
| "join_on c (p # q # ps) = p @ c # join_on c (q # ps)"

lemma split_on_nonempty [simp]: "split_on c s \<noteq> []"
  by (induction s) (auto split: list.splits)

lemma join_on_Cons: "ps \<noteq> [] \<Longrightarrow> join_on c (p # ps) = p @ c # join_on c ps"
  by (cases ps) auto

lemma join_split: "join_on c (split_on c s) = s"
proof (induction s)
  case Nil
  show ?case by simp
next
  case (Cons x xs)
  obtain p ps where s: "split_on c xs = p # ps"
    by (cases "split_on c xs") auto
  show ?case
  proof (cases "x = c")
    case True
    with s Cons.IH show ?thesis by simp
  next
    case False
    with s Cons.IH show ?thesis by (cases ps) auto
  qed
qed

lemma split_on_free: "c \<notin> set p \<Longrightarrow> split_on c p = [p]"
  by (induction p) auto

lemma split_on_append: "c \<notin> set p \<Longrightarrow> split_on c (p @ c # s) = p # split_on c s"
  by (induction p) auto

lemma split_join:
  "ps \<noteq> [] \<Longrightarrow> \<forall>p\<in>set ps. c \<notin> set p \<Longrightarrow> split_on c (join_on c ps) = ps"
  by (induction c ps rule: join_on.induct) (auto simp: split_on_free split_on_append)

lemma cut_at_append: "c \<notin> set p \<Longrightarrow> cut_at c (p @ c # s) = Some (p, s)"
  by (induction p) auto

lemma cut_at_None: "cut_at c s = None \<longleftrightarrow> c \<notin> set s"
  by (induction s) auto

lemma cut_at_Some: "cut_at c s = Some (a, b) \<Longrightarrow> s = a @ c # b \<and> c \<notin> set a"
  by (induction s arbitrary: a) (auto split: if_splits)

lemma length_split_n: "length (split_n c n s) \<le> n"
  by (induction c n s rule: split_n.induct) (auto split: option.splits)

lemma join_split_n: "0 < n \<Longrightarrow> join_on c (split_n c n s) = s"
proof (induction c n s rule: split_n.induct)
  case (3 c n s)
  show ?case
  proof (cases "cut_at c s")
    case None
    then show ?thesis by simp
  next
    case (Some ab)
    obtain a b where ab: "ab = (a, b)" by (cases ab)
    have ne: "split_n c (Suc n) b \<noteq> []" by (cases n) (auto split: option.splits)
    from "3.IH" [OF Some ab [symmetric]] have "join_on c (split_n c (Suc n) b) = b" by simp
    with Some ab ne cut_at_Some [of c s a b] show ?thesis by (simp add: join_on_Cons)
  qed
qed auto

section \<open>Decimal integers\<close>

datatype num_error = ErrSyntax | ErrRange

definition digit_val :: "char \<Rightarrow> nat option" where
  "digit_val c = (let n = (of_char c :: nat) in if 48 \<le> n \<and> n \<le> 57 then Some (n - 48) else None)"

definition digit_char :: "nat \<Rightarrow> char" where
  "digit_char d = char_of (48 + d)"

fun parse_uint_loop :: "nat \<Rightarrow> string \<Rightarrow> num_error + nat" where
  "parse_uint_loop n [] = Inr n"
| "parse_uint_loop n (c # cs) =
     (case digit_val c of
        None \<Rightarrow> Inl ErrSyntax
      | Some d \<Rightarrow> if 18446744073709551616 \<le> n * 10 + d then Inl ErrRange
                  else parse_uint_loop (n * 10 + d) cs)"

definition parse_uint :: "string \<Rightarrow> num_error + nat" where
  "parse_uint s = (if s = [] then Inl ErrSyntax else parse_uint_loop 0 s)"

definition parse_int :: "string \<Rightarrow> num_error + int" where
  "parse_int s =
     (case s of
        [] \<Rightarrow> Inl ErrSyntax
      | c # cs \<Rightarrow>
          (let neg = (c = CHR ''-''); body = (if c = CHR ''-'' \<or> c = CHR ''+'' then cs else s)
           in case parse_uint body of
                Inl e \<Rightarrow> Inl e
              | Inr n \<Rightarrow>
                  if \<not> neg \<and> 9223372036854775808 \<le> n then Inl ErrRange
                  else if neg \<and> 9223372036854775808 < n then Inl ErrRange
                  else Inr (if neg then - int n else int n)))"

fun show_nat :: "nat \<Rightarrow> string" where
  "show_nat n = (if n < 10 then [digit_char n] else show_nat (n div 10) @ [digit_char (n mod 10)])"

declare show_nat.simps [simp del]

definition format_int :: "int \<Rightarrow> string" where
  "format_int i = (if i < 0 then CHR ''-'' # show_nat (nat (- i)) else show_nat (nat i))"

lemma of_char_digit_char: "d < 10 \<Longrightarrow> (of_char (digit_char d) :: nat) = 48 + d"
  by (simp add: digit_char_def of_char_of)

lemma digit_val_digit_char [simp]: "d < 10 \<Longrightarrow> digit_val (digit_char d) = Some d"
  by (simp add: digit_val_def of_char_digit_char Let_def)

lemma digit_val_less: "digit_val c = Some d \<Longrightarrow> d < 10"
  by (auto simp: digit_val_def Let_def split: if_splits)

lemma show_nat_nonempty [simp]: "show_nat n \<noteq> []"
  by (subst show_nat.simps) simp

lemma set_show_nat: "c \<in> set (show_nat n) \<Longrightarrow> \<exists>d<10. c = digit_char d"
proof (induction n rule: show_nat.induct)
  case (1 n)
  show ?case
  proof (cases "n < 10")
    case True
    with "1.prems" show ?thesis by (auto simp: show_nat.simps [of n])
  next
    case False
    with "1.prems" have "c \<in> set (show_nat (n div 10)) \<or> c = digit_char (n mod 10)"
      by (auto simp: show_nat.simps [of n])
    with "1.IH" [OF False] show ?thesis by (metis mod_less_divisor zero_less_numeral)
  qed
qed

lemma digit_char_neq:
  "d < 10 \<Longrightarrow> digit_char d \<noteq> CHR ''-''" "d < 10 \<Longrightarrow> digit_char d \<noteq> CHR ''+''"
  "d < 10 \<Longrightarrow> digit_char d \<noteq> CHR ''.''" "d < 10 \<Longrightarrow> digit_char d \<noteq> CHR ''^''"
  "d < 10 \<Longrightarrow> digit_char d \<noteq> CHR ''|''" "d < 10 \<Longrightarrow> \<not> is_space (digit_char d)"
  using of_char_digit_char [of d] by (auto simp: is_space_def)

lemma show_nat_free:
  assumes "\<And>d. d < 10 \<Longrightarrow> digit_char d \<noteq> c"
  shows "c \<notin> set (show_nat n)"
  using assms set_show_nat by metis

lemma parse_uint_loop_append:
  "parse_uint_loop n xs = Inr m \<Longrightarrow> parse_uint_loop n (xs @ ys) = parse_uint_loop m ys"
  by (induction n xs rule: parse_uint_loop.induct) (auto split: option.splits if_splits)

lemma parse_uint_loop_show:
  "n < 18446744073709551616 \<Longrightarrow> parse_uint_loop 0 (show_nat n) = Inr n"
proof (induction n rule: show_nat.induct)
  case (1 n)
  show ?case
  proof (cases "n < 10")
    case True
    then show ?thesis by (simp add: show_nat.simps [of n])
  next
    case False
    with "1.IH" "1.prems" have "parse_uint_loop 0 (show_nat (n div 10)) = Inr (n div 10)"
      by simp
    with False "1.prems" show ?thesis
      by (simp add: show_nat.simps [of n] parse_uint_loop_append)
  qed
qed

lemma parse_uint_show: "n < 18446744073709551616 \<Longrightarrow> parse_uint (show_nat n) = Inr n"
  by (simp add: parse_uint_def parse_uint_loop_show)

lemma hd_show_nat: "hd (show_nat n) \<noteq> CHR ''-'' \<and> hd (show_nat n) \<noteq> CHR ''+''"
  using set_show_nat [of "hd (show_nat n)" n] digit_char_neq(1,2) by (metis hd_in_set show_nat_nonempty)

text \<open>\<open>strconv.ParseInt\<close> reads back what \<open>strconv.FormatInt\<close> writes.\<close>

lemma parse_format_int:
  assumes "in64 i"
  shows "parse_int (format_int i) = Inr i"
proof (cases "i < 0")
  case True
  then have "nat (- i) \<le> 9223372036854775808" using assms by (auto simp: in64_def)
  with True show ?thesis
    by (simp add: format_int_def parse_int_def parse_uint_show Let_def)
next
  case False
  then have n: "nat i < 9223372036854775808" using assms by (auto simp: in64_def)
  obtain c cs where s: "show_nat (nat i) = c # cs" by (cases "show_nat (nat i)") auto
  with hd_show_nat [of "nat i"] have "c \<noteq> CHR ''-''" "c \<noteq> CHR ''+''" by auto
  with n s False parse_uint_show [of "nat i"] show ?thesis
    by (simp add: format_int_def parse_int_def Let_def)
qed

lemma parse_int_in64: "parse_int s = Inr i \<Longrightarrow> in64 i"
  by (auto simp: parse_int_def in64_def Let_def split: list.splits sum.splits if_splits)

lemma trim_space_format_int [simp]: "trim_space (format_int i) = format_int i"
proof (rule trim_space_noop)
  show "format_int i \<noteq> []" by (simp add: format_int_def)
  have d: "\<not> is_space c" if "c \<in> set (show_nat n)" for c n
    using set_show_nat [OF that] digit_char_neq(6) by blast
  show "\<not> is_space (hd (format_int i))"
    using d [OF hd_in_set] by (auto simp: format_int_def is_space_def)
  show "\<not> is_space (last (format_int i))"
    using d [OF last_in_set] by (simp add: format_int_def)
qed

lemma format_int_free:
  assumes "\<And>d. d < 10 \<Longrightarrow> digit_char d \<noteq> c" and "c \<noteq> CHR ''-''"
  shows "c \<notin> set (format_int i)"
  using assms show_nat_free [OF assms(1)] by (auto simp: format_int_def)

lemma format_int_separators [simp]:
  "CHR ''.'' \<notin> set (format_int i)" "CHR ''^'' \<notin> set (format_int i)"
  "CHR ''|'' \<notin> set (format_int i)"
  by (rule format_int_free; simp add: digit_char_neq)+

lemma format_int_nonempty [simp]: "format_int i \<noteq> []"
  by (simp add: format_int_def)

end
