(* ===== verification/Go_Float.thy ===== *)
theory Go_Float
  imports Complex_Main "HOL-Library.Log_Nat" Go_Text
begin

text \<open>
  The \<open>float64\<close> arithmetic of the sources. A finite \<open>float64\<close> is the rational number it
  denotes; an operation is the exact rational operation followed by \<open>fl64\<close>, the
  rounding of IEEE 754 binary64 to the nearest value with ties to even (subnormals
  included). Overflow to an infinity is a range error of \<open>parse_float\<close>; no other
  operation of the sources reaches it from the values they handle. \<open>parse_float\<close> reads
  decimal numbers with an optional exponent; the hexadecimal, infinity and NaN
  spellings that \<open>strconv.ParseFloat\<close> also knows are syntax errors here.

  \<open>fl64_error\<close> bounds the rounding error by half a unit in the last place; the
  conversions of rates and prices to fixed point are exact because of it.
\<close>

definition two_powi :: "int \<Rightarrow> rat" where
  "two_powi e = (if 0 \<le> e then 2 ^ nat e else 1 / 2 ^ nat (- e))"

text \<open>The exponent \<open>e\<close> with \<open>2 ^ e \<le> x < 2 ^ (e + 1)\<close> of a positive rational.\<close>

definition ilog2 :: "rat \<Rightarrow> int" where
  "ilog2 x =
     (let (p, q) = quotient_of x; k = bitlen p - bitlen q
      in if two_powi k \<le> x then k else k - 1)"

definition round_even :: "rat \<Rightarrow> int" where
  "round_even y =
     (let f = \<lfloor>y\<rfloor>; d = y - of_int f
      in if d < 1 / 2 then f else if 1 / 2 < d then f + 1 else if even f then f else f + 1)"

definition ulp_exp :: "rat \<Rightarrow> int" where
  "ulp_exp x = max (- 1074) (ilog2 \<bar>x\<bar> - 52)"

definition fl64 :: "rat \<Rightarrow> rat" where
  "fl64 x =
     (if x = 0 then 0
      else of_int (round_even (x / two_powi (ulp_exp x))) * two_powi (ulp_exp x))"

definition fl_mult :: "rat \<Rightarrow> rat \<Rightarrow> rat" where
  "fl_mult a b = fl64 (a * b)"

text \<open>\<open>math.Round\<close> rounds half away from zero; \<open>int64(f)\<close> truncates towards zero. Out of
  range the conversion is implementation-specific: \<open>impl\<close> is what the platform gives.\<close>

definition go_round :: "rat \<Rightarrow> int" where
  "go_round x = (if 0 \<le> x then \<lfloor>x + 1 / 2\<rfloor> else - \<lfloor>- x + 1 / 2\<rfloor>)"

definition trunc_rat :: "rat \<Rightarrow> int" where
  "trunc_rat x = (if 0 \<le> x then \<lfloor>x\<rfloor> else - \<lfloor>- x\<rfloor>)"

definition float_to_int64 :: "(rat \<Rightarrow> int) \<Rightarrow> rat \<Rightarrow> int" where
  "float_to_int64 impl x = (if in64 (trunc_rat x) then trunc_rat x else impl x)"

section \<open>Decimal floating-point numbers\<close>

fun digits_val :: "nat \<Rightarrow> string \<Rightarrow> nat option" where
  "digits_val n [] = Some n"
| "digits_val n (c # cs) =
     (case digit_val c of None \<Rightarrow> None | Some d \<Rightarrow> digits_val (n * 10 + d) cs)"

definition strip_sign :: "string \<Rightarrow> bool \<times> string" where
  "strip_sign s =
     (case s of
        [] \<Rightarrow> (False, [])
      | c # cs \<Rightarrow> if c = CHR ''-'' then (True, cs) else if c = CHR ''+'' then (False, cs) else (False, s))"

text \<open>The mantissa: digits with at most one point and at least one digit.\<close>

definition mantissa_val :: "string \<Rightarrow> rat option" where
  "mantissa_val s =
     (case cut_at (CHR ''.'') s of
        None \<Rightarrow> if s = [] then None else map_option of_nat (digits_val 0 s)
      | Some (a, b) \<Rightarrow>
          if a = [] \<and> b = [] then None
          else map_option (\<lambda>n. of_nat n / 10 ^ length b) (digits_val 0 (a @ b)))"

definition cut_exp :: "string \<Rightarrow> (string \<times> string) option" where
  "cut_exp s = (case cut_at (CHR ''e'') s of Some r \<Rightarrow> Some r | None \<Rightarrow> cut_at (CHR ''E'') s)"

definition exp_val :: "string \<Rightarrow> int option" where
  "exp_val s =
     (let (neg, ds) = strip_sign s
      in if ds = [] then None
         else map_option (\<lambda>n. if neg then - int n else int n) (digits_val 0 ds))"

definition ten_powi :: "int \<Rightarrow> rat" where
  "ten_powi e = (if 0 \<le> e then 10 ^ nat e else 1 / 10 ^ nat (- e))"

definition decimal_val :: "string \<Rightarrow> rat option" where
  "decimal_val s =
     (let (neg, body) = strip_sign s;
          v = (case cut_exp body of
                 None \<Rightarrow> mantissa_val body
               | Some (m, e) \<Rightarrow>
                   (case (mantissa_val m, exp_val e) of
                      (Some x, Some k) \<Rightarrow> Some (x * ten_powi k)
                    | _ \<Rightarrow> None))
      in map_option (\<lambda>x. if neg then - x else x) v)"

definition parse_float :: "string \<Rightarrow> num_error + rat" where
  "parse_float s =
     (case decimal_val s of
        None \<Rightarrow> Inl ErrSyntax
      | Some x \<Rightarrow> if two_powi 1024 \<le> \<bar>fl64 x\<bar> then Inl ErrRange else Inr (fl64 x))"

section \<open>Powers and logarithms of two\<close>

lemma two_powi_pos [simp]: "0 < two_powi e"
  by (simp add: two_powi_def)

lemma two_powi_nonzero [simp]: "two_powi e \<noteq> 0"
  using two_powi_pos [of e] by linarith

lemma two_powi_powi: "two_powi e = 2 powi e"
  by (simp add: two_powi_def power_int_def divide_simps)

lemma two_powi_add: "two_powi (a + b) = two_powi a * two_powi b"
  by (simp add: two_powi_powi power_int_add)

lemma two_powi_mono: "a \<le> b \<Longrightarrow> two_powi a \<le> two_powi b"
  unfolding two_powi_powi by (rule power_int_increasing) simp_all

lemma two_powi_mono_iff: "two_powi a < two_powi b \<Longrightarrow> a < b"
  using two_powi_mono [of b a] by (meson linorder_not_le)

lemma ilog2_lower:
  assumes "0 < x"
  shows "two_powi (ilog2 x) \<le> x"
proof -
  obtain p q where pq: "quotient_of x = (p, q)" by (cases "quotient_of x")
  define k where "k = bitlen p - bitlen q"
  have x: "x = of_int p / of_int q" using pq by (rule quotient_of_div)
  have q: "0 < q" using pq by (rule quotient_of_denom_pos)
  have p: "0 < p" using assms x q by (simp add: zero_less_divide_iff)
  have lp: "two_powi (bitlen p - 1) \<le> of_int p"
  proof -
    have "2 ^ nat (bitlen p - 1) \<le> p" using bitlen_bounds [OF p] by simp
    then have "(of_int (2 ^ nat (bitlen p - 1)) :: rat) \<le> of_int p" by linarith
    moreover have "1 \<le> bitlen p" 
      using bitlen_eq_zero_iff [of p] bitlen_nonneg [of p] p by linarith
    ultimately show ?thesis by (simp add: two_powi_def)
  qed
  have uq: "of_int q < two_powi (bitlen q)"
  proof -
    have "q < 2 ^ nat (bitlen q)" using bitlen_bounds [OF q] by simp
    then have "(of_int q :: rat) < of_int (2 ^ nat (bitlen q))" by linarith
    then show ?thesis by (simp add: two_powi_def bitlen_nonneg)
  qed
  have "two_powi (k - 1) * of_int q \<le> two_powi (k - 1) * two_powi (bitlen q)"
    using uq by (intro mult_left_mono) (simp_all add: less_imp_le)
  also have "\<dots> = two_powi (bitlen p - 1)"
    by (simp add: two_powi_add [symmetric] k_def)
  also note lp
  finally have "two_powi (k - 1) \<le> x" using q x by (simp add: pos_le_divide_eq)
  then show ?thesis by (simp add: ilog2_def pq k_def [symmetric])
qed

lemma round_even_error: "\<bar>of_int (round_even y) - y\<bar> \<le> 1 / 2"
proof -
  have "of_int \<lfloor>y\<rfloor> \<le> y" and "y < of_int \<lfloor>y\<rfloor> + 1" by linarith+
  then show ?thesis by (auto simp: round_even_def Let_def)
qed

lemma round_even_int [simp]: "round_even (of_int n) = n"
  by (simp add: round_even_def)

section \<open>The rounding error\<close>

lemma fl64_0 [simp]: "fl64 0 = 0"
  by (simp add: fl64_def)

lemma fl64_ulp: "x \<noteq> 0 \<Longrightarrow> \<bar>fl64 x - x\<bar> \<le> two_powi (ulp_exp x) / 2"
proof -
  assume x: "x \<noteq> 0"
  define u where "u = two_powi (ulp_exp x)"
  have u: "0 < u" by (simp add: u_def)
  have "fl64 x - x = (of_int (round_even (x / u)) - x / u) * u"
    using x u by (simp add: fl64_def u_def [symmetric] left_diff_distrib)
  then have "\<bar>fl64 x - x\<bar> = \<bar>of_int (round_even (x / u)) - x / u\<bar> * u"
    using u by (simp add: abs_mult)
  also have "\<dots> \<le> 1 / 2 * u"
    using u by (intro mult_right_mono round_even_error) simp
  finally show ?thesis by (simp add: u_def)
qed

text \<open>The relative error of a rounding is at most \<open>2 ^ -53\<close> for a number that is not
  subnormal.\<close>

lemma fl64_error:
  assumes "two_powi (- 1022) \<le> \<bar>x\<bar> \<or> x = 0"
  shows "\<bar>fl64 x - x\<bar> \<le> \<bar>x\<bar> / 9007199254740992"
proof (cases "x = 0")
  case True
  then show ?thesis by simp
next
  case False
  with assms have n: "two_powi (- 1022) \<le> \<bar>x\<bar>" by blast
  have lo: "two_powi (ilog2 \<bar>x\<bar>) \<le> \<bar>x\<bar>" using False by (intro ilog2_lower) simp
  have "two_powi (ulp_exp x) \<le> \<bar>x\<bar> / 4503599627370496"
  proof (cases "- 1074 \<le> ilog2 \<bar>x\<bar> - 52")
    case True
    have "two_powi (ilog2 \<bar>x\<bar>) = two_powi (ulp_exp x + 52)"
      using True by (simp add: ulp_exp_def max_def)
    also have "\<dots> = two_powi (ulp_exp x) * 4503599627370496"
      unfolding two_powi_add by (simp add: two_powi_def)
    finally show ?thesis using lo by simp
  next
    case b: False
    have "two_powi (- 1022) = two_powi (- 1074 + 52)" by simp
    also have "\<dots> = two_powi (- 1074) * 4503599627370496"
      unfolding two_powi_add by (simp add: two_powi_def)
    finally show ?thesis using n b by (simp add: ulp_exp_def max_def)
  qed
  with fl64_ulp [OF False] show ?thesis by simp
qed

lemma small_not_subnormal: "1 / 1000000 \<le> \<bar>x\<bar> \<Longrightarrow> two_powi (- 1022) \<le> \<bar>x\<bar>"
proof -
  have "two_powi (- 1022) \<le> two_powi (- 20)" by (rule two_powi_mono) simp
  also have "two_powi (- 20) \<le> 1 / 1000000" by (simp add: two_powi_def)
  finally show "1 / 1000000 \<le> \<bar>x\<bar> \<Longrightarrow> two_powi (- 1022) \<le> \<bar>x\<bar>" by linarith
qed

text \<open>A number with at most 53 significant bits is a \<open>float64\<close>.\<close>

lemma fl64_exact:
  assumes "\<bar>m\<bar> < 9007199254740992" and "- 1074 \<le> e"
  shows "fl64 (of_int m * two_powi e) = of_int m * two_powi e"
proof (cases "m = 0")
  case True
  then show ?thesis by simp
next
  case False
  define x where "x = of_int m * two_powi e"
  have x: "x \<noteq> 0" using False by (simp add: x_def)
  have "two_powi (ilog2 \<bar>x\<bar>) \<le> \<bar>x\<bar>" using x by (intro ilog2_lower) simp
  also have "\<bar>x\<bar> = of_int \<bar>m\<bar> * two_powi e"
    by (simp add: x_def abs_mult less_imp_le)
  also have "\<dots> < 9007199254740992 * two_powi e"
  proof (rule mult_strict_right_mono)
    have "rat_of_int \<bar>m\<bar> < rat_of_int 9007199254740992"
      using assms(1) by (simp only: of_int_less_iff)
    then show "rat_of_int \<bar>m\<bar> < 9007199254740992" by simp
  qed simp
  also have "\<dots> = two_powi (53 + e)" unfolding two_powi_add by (simp add: two_powi_def)
  finally have "ilog2 \<bar>x\<bar> < 53 + e" by (rule two_powi_mono_iff)
  then have le: "ulp_exp x \<le> e" using assms(2) by (simp add: ulp_exp_def)
  have "x / two_powi (ulp_exp x) = of_int (m * 2 ^ nat (e - ulp_exp x))"
  proof -
    have "two_powi e = two_powi (e - ulp_exp x) * two_powi (ulp_exp x)"
      by (simp add: two_powi_add [symmetric])
    moreover have "two_powi (e - ulp_exp x) = 2 ^ nat (e - ulp_exp x)"
      using le by (simp add: two_powi_def)
    moreover have "x / two_powi (ulp_exp x) = of_int m * (two_powi e / two_powi (ulp_exp x))"
      by (simp add: x_def)
    ultimately show ?thesis by simp
  qed
  then have "of_int (round_even (x / two_powi (ulp_exp x))) = x / two_powi (ulp_exp x)"
    by (simp only: round_even_int)
  then show ?thesis using x by (simp add: fl64_def x_def [symmetric])
qed

lemma fl64_int: "\<bar>n\<bar> < 9007199254740992 \<Longrightarrow> fl64 (of_int n) = of_int n"
  using fl64_exact [of n 0] by (simp add: two_powi_def)

lemma fl64_half: "\<bar>n\<bar> < 9007199254740992 \<Longrightarrow> fl64 (of_int n / 2) = of_int n / 2"
  using fl64_exact [of n "- 1"] by (simp add: two_powi_def)

section \<open>Conversions to integers\<close>

lemma go_round_near:
  assumes "\<bar>x - of_int n\<bar> < 1 / 2"
  shows "go_round x = n"
proof (cases "0 \<le> x")
  case True
  then have "\<lfloor>x + 1 / 2\<rfloor> = n" using assms by (intro floor_unique) linarith+
  with True show ?thesis by (simp add: go_round_def)
next
  case False
  have "\<lfloor>- x + 1 / 2\<rfloor> = - n"
  proof (rule floor_unique)
    show "rat_of_int (- n) \<le> - x + 1 / 2" unfolding of_int_minus using assms by linarith
    show "- x + 1 / 2 < rat_of_int (- n) + 1" unfolding of_int_minus using assms by linarith
  qed
  with False show ?thesis by (simp add: go_round_def)
qed

lemma go_round_int [simp]: "go_round (of_int n) = n"
  by (rule go_round_near) simp

lemma trunc_rat_int [simp]: "trunc_rat (of_int n) = n"
  by (simp add: trunc_rat_def)

lemma float_to_int64_int [simp]: "in64 n \<Longrightarrow> float_to_int64 impl (of_int n) = n"
  by (simp add: float_to_int64_def)

text \<open>A decimal read as a \<open>float64\<close> and multiplied by the scale 10000 is close to the exact
  product: two roundings together move it by less than a half.\<close>

lemma scaled_error:
  fixes x :: rat
  assumes "1 / 1000000 \<le> \<bar>x\<bar> \<or> x = 0" and "\<bar>x\<bar> \<le> 100000000000"
  shows "\<bar>fl_mult (fl64 x) 10000 - 10000 * x\<bar> < 1 / 2"
proof (cases "x = 0")
  case True
  then show ?thesis by (simp add: fl_mult_def)
next
  case False
  with assms(1) have lo: "1 / 1000000 \<le> \<bar>x\<bar>" by blast
  have e1: "\<bar>fl64 x - x\<bar> \<le> \<bar>x\<bar> / 9007199254740992"
    by (rule fl64_error) (use small_not_subnormal [OF lo] in blast)
  have "\<bar>x\<bar> / 9007199254740992 \<le> \<bar>x\<bar> / 2" by simp
  then have near: "\<bar>x\<bar> / 2 \<le> \<bar>fl64 x\<bar>" "\<bar>fl64 x\<bar> \<le> 2 * \<bar>x\<bar>" using e1 by linarith+
  then have "1 / 1000000 \<le> \<bar>fl64 x * 10000\<bar>" using lo by (simp add: abs_mult)
  then have e2: "\<bar>fl64 (fl64 x * 10000) - fl64 x * 10000\<bar> \<le> \<bar>fl64 x * 10000\<bar> / 9007199254740992"
    by (intro fl64_error disjI1 small_not_subnormal)
  have "\<bar>fl64 x * 10000\<bar> / 9007199254740992 \<le> 20000 * \<bar>x\<bar> / 9007199254740992"
    using near(2) by (simp add: abs_mult)
  moreover have "\<bar>fl64 x * 10000 - 10000 * x\<bar> \<le> 10000 * \<bar>x\<bar> / 9007199254740992"
    using e1 by linarith
  ultimately have "\<bar>fl64 (fl64 x * 10000) - 10000 * x\<bar> \<le> 30000 * \<bar>x\<bar> / 9007199254740992"
    using e2 by linarith
  also have "\<dots> \<le> 30000 * 100000000000 / 9007199254740992" using assms(2) by simp
  also have "\<dots> < 1 / 2" by simp
  finally show ?thesis by (simp add: fl_mult_def)
qed

lemma trunc_rat_near:
  assumes "\<bar>x - of_int n\<bar> < 1 / 2"
  shows "trunc_rat x = n \<or> trunc_rat x = n - sgn n"
proof (cases "n = 0")
  case True
  with assms have "\<lfloor>\<bar>x\<bar>\<rfloor> = 0" by (intro floor_unique) simp_all
  with True show ?thesis by (auto simp: trunc_rat_def abs_if split: if_splits)
next
  case False
  show ?thesis
  proof (cases "0 < n")
    case True
    then have "1 \<le> rat_of_int n" by simp
    with assms have "0 \<le> x" "rat_of_int (n - 1) \<le> x" "x < rat_of_int n + 1" by (simp_all, linarith+)
    then have "\<lfloor>x\<rfloor> = n \<or> \<lfloor>x\<rfloor> = n - 1" by (simp add: floor_eq_iff) linarith
    with True \<open>0 \<le> x\<close> show ?thesis by (auto simp: trunc_rat_def)
  next
    case neg: False
    with False have "rat_of_int n \<le> - 1" by simp
    with assms have "x < 0" "rat_of_int (- n - 1) \<le> - x" "- x < rat_of_int (- n) + 1" by (simp_all, linarith+)
    then have "\<lfloor>- x\<rfloor> = - n \<or> \<lfloor>- x\<rfloor> = - n - 1" by (simp add: floor_eq_iff) linarith
    with neg False \<open>x < 0\<close> show ?thesis by (auto simp: trunc_rat_def)
  qed
qed

end
