(* ===== verification/Order_Tracker.thy ===== *)
theory Order_Tracker
  imports Trading_Types Go_Float
begin

text \<open>
  \<open>internal/core/ordertracker/traker.go\<close>: the state of every order, keyed by its ID.
  \<open>Register\<close> files a placed order, \<open>Apply\<close> is the transition on an execution notice,
  \<open>Reconcile\<close> aligns the tracked orders of an account with a REST snapshot.

  The lemmas show that a terminal status absorbs every further notice, that the filled
  and remaining quantities add up to the total of the notice, and what is tracked after
  a reconciliation.
\<close>

section \<open>State and operations\<close>

record tracked_order =
  to_OrderID :: string
  to_AccountID :: string
  to_Broker :: string
  to_Code :: string
  to_Side :: side
  to_Price :: int
  to_Quantity :: int
  to_FilledQty :: int
  to_RemainQty :: int
  to_Status :: order_status
  to_CreatedAt :: go_time
  to_UpdatedAt :: go_time

type_synonym tracker = "string \<rightharpoonup> tracked_order"

definition ot_New :: tracker where
  "ot_New = Map.empty"

definition isTerminal :: "order_status \<Rightarrow> bool" where
  "isTerminal s \<longleftrightarrow> s = StatusFilled \<or> s = StatusCancelled \<or> s = StatusRejected"

definition mapExecStatus :: "string \<Rightarrow> order_status" where
  "mapExecStatus raw =
     (if raw = ''accepted'' then StatusOpen
      else if raw = ''filled'' then StatusFilled
      else if raw = ''partial'' then StatusPartial
      else if raw = ''rejected'' then StatusRejected
      else raw)"

definition convertSide :: "side \<Rightarrow> side" where
  "convertSide s = (if s = Buy then Buy else if s = Sell then Sell else s)"

definition convertOrderStatus :: "order_status \<Rightarrow> order_status" where
  "convertOrderStatus s =
     (if s = StatusOpen then StatusOpen
      else if s = StatusFilled then StatusFilled
      else if s = StatusPartial then StatusPartial
      else if s = StatusCancelled then StatusCancelled
      else if s = StatusRejected then StatusRejected
      else s)"

definition roundToInt64 :: "(rat \<Rightarrow> int) \<Rightarrow> rat \<Rightarrow> int" where
  "roundToInt64 impl f = float_to_int64 impl (of_int (go_round f))"

definition ot_Register ::
    "go_time \<Rightarrow> tracker \<Rightarrow> string \<Rightarrow> order_response option \<Rightarrow> tracker" where
  "ot_Register now t accountID resp =
     (case resp of
        None \<Rightarrow> t
      | Some r \<Rightarrow>
          t(ors_OrderID r \<mapsto> \<lparr>to_OrderID = ors_OrderID r, to_AccountID = accountID,
             to_Broker = [], to_Code = ors_Code r, to_Side = convertSide (ors_Side r),
             to_Price = ors_Price r, to_Quantity = ors_Quantity r, to_FilledQty = 0,
             to_RemainQty = ors_Quantity r, to_Status = StatusOpen,
             to_CreatedAt = ors_CreatedAt r, to_UpdatedAt = now\<rparr>))"

text \<open>The order a notice creates when it arrives before the response to \<open>PlaceOrder\<close>.\<close>

definition order_of_exec :: "exec_event \<Rightarrow> tracked_order" where
  "order_of_exec x = \<lparr>to_OrderID = xe_OrderID x, to_AccountID = xe_AccountID x,
     to_Broker = xe_Broker x, to_Code = xe_Code x, to_Side = xe_Side x, to_Price = 0,
     to_Quantity = xe_TotalQty x, to_FilledQty = 0, to_RemainQty = 0, to_Status = [],
     to_CreatedAt = xe_ExecTime x, to_UpdatedAt = 0\<rparr>"

definition exec_transition :: "tracked_order \<Rightarrow> exec_event \<Rightarrow> tracked_order" where
  "exec_transition ord x =
     (if isTerminal (to_Status ord) then ord
      else ord\<lparr>to_Status := mapExecStatus (xe_Status x),
               to_FilledQty := wrap64 (xe_TotalQty x - xe_RemainQty x),
               to_RemainQty := xe_RemainQty x,
               to_Price := (if xe_Price x > 0 then xe_Price x else to_Price ord),
               to_UpdatedAt := xe_ReceivedAt x\<rparr>)"

definition ot_Apply :: "tracker \<Rightarrow> exec_event \<Rightarrow> tracker" where
  "ot_Apply t x =
     (let ord = (case t (xe_OrderID x) of Some ord \<Rightarrow> ord | None \<Rightarrow> order_of_exec x)
      in t(xe_OrderID x \<mapsto> exec_transition ord x))"

definition order_of_snapshot ::
    "(rat \<Rightarrow> int) \<Rightarrow> go_time \<Rightarrow> string \<Rightarrow> exch_order \<Rightarrow> tracked_order" where
  "order_of_snapshot impl now accountID ord =
     (let qty = roundToInt64 impl (eo_Quantity ord); filled = roundToInt64 impl (eo_FilledQty ord)
      in \<lparr>to_OrderID = eo_OrderID ord, to_AccountID = accountID, to_Broker = [],
          to_Code = eo_Code ord, to_Side = convertSide (eo_Side ord),
          to_Price = roundToInt64 impl (eo_Price ord), to_Quantity = qty,
          to_FilledQty = filled, to_RemainQty = wrap64 (qty - filled),
          to_Status = convertOrderStatus (eo_Status ord),
          to_CreatedAt = eo_CreatedAt ord, to_UpdatedAt = now\<rparr>)"

text \<open>\<open>Reconcile\<close>: the first loop adds what the snapshot has and the tracker lacks; the
  second, a \<open>range\<close> over the tracked orders, removes the open orders of the account that
  the snapshot lacks.\<close>

definition reconcile_add ::
    "(rat \<Rightarrow> int) \<Rightarrow> go_time \<Rightarrow> string \<Rightarrow> exch_order list \<Rightarrow> tracker \<Rightarrow> tracker" where
  "reconcile_add impl now accountID ords t =
     fold (\<lambda>ord t. if t (eo_OrderID ord) = None
                   then t(eo_OrderID ord \<mapsto> order_of_snapshot impl now accountID ord) else t) ords t"

definition reconcile_drop :: "string list \<Rightarrow> string \<Rightarrow> string set \<Rightarrow> tracker \<Rightarrow> tracker" where
  "reconcile_drop ks accountID snap t =
     fold (\<lambda>oid t. case t oid of
             None \<Rightarrow> t
           | Some ord \<Rightarrow>
               if to_AccountID ord \<noteq> accountID then t
               else if oid \<notin> snap \<and> \<not> isTerminal (to_Status ord) then t(oid := None)
               else t) ks t"

definition ot_Reconcile ::
    "(rat \<Rightarrow> int) \<Rightarrow> go_time \<Rightarrow> string list \<Rightarrow> tracker \<Rightarrow> string \<Rightarrow> exch_order list \<Rightarrow> tracker"
where
  "ot_Reconcile impl now ks t accountID ords =
     reconcile_drop ks accountID (set (map eo_OrderID ords))
       (reconcile_add impl now accountID ords t)"

definition ot_GetOrder :: "tracker \<Rightarrow> string \<Rightarrow> tracked_order option" where
  "ot_GetOrder t oid = t oid"

definition ot_GetOpenOrders :: "string list \<Rightarrow> tracker \<Rightarrow> string \<Rightarrow> tracked_order list" where
  "ot_GetOpenOrders ks t accountID =
     filter (\<lambda>ord. to_AccountID ord = accountID \<and> \<not> isTerminal (to_Status ord))
       (List.map_filter t ks)"

fun hasOpenOrder_loop :: "tracked_order list \<Rightarrow> string \<Rightarrow> string \<Rightarrow> bool" where
  "hasOpenOrder_loop [] accountID code = False"
| "hasOpenOrder_loop (ord # ords) accountID code =
     (if code \<noteq> to_Code ord \<or> isTerminal (to_Status ord) then hasOpenOrder_loop ords accountID code
      else if accountID = [] \<or> to_AccountID ord = accountID then True
      else hasOpenOrder_loop ords accountID code)"

definition ot_HasOpenOrder :: "string list \<Rightarrow> tracker \<Rightarrow> string \<Rightarrow> string \<Rightarrow> bool" where
  "ot_HasOpenOrder ks t accountID code = hasOpenOrder_loop (List.map_filter t ks) accountID code"

section \<open>The transition on a notice\<close>

lemma convertSide_id [simp]: "convertSide s = s"
  by (simp add: convertSide_def)

lemma convertOrderStatus_id [simp]: "convertOrderStatus s = s"
  by (simp add: convertOrderStatus_def)

lemma roundToInt64_int: "in64 n \<Longrightarrow> roundToInt64 impl (of_int n) = n"
  by (simp add: roundToInt64_def)

lemma exec_transition_terminal [simp]: "isTerminal (to_Status ord) \<Longrightarrow> exec_transition ord x = ord"
  by (simp add: exec_transition_def)

lemma exec_transition_frame [simp]:
  "to_OrderID (exec_transition ord x) = to_OrderID ord"
  "to_AccountID (exec_transition ord x) = to_AccountID ord"
  "to_Code (exec_transition ord x) = to_Code ord"
  "to_Side (exec_transition ord x) = to_Side ord"
  "to_Quantity (exec_transition ord x) = to_Quantity ord"
  "to_CreatedAt (exec_transition ord x) = to_CreatedAt ord"
  by (simp_all add: exec_transition_def)

lemma exec_transition_idem: "exec_transition (exec_transition ord x) x = exec_transition ord x"
  by (auto simp: exec_transition_def)

lemma ot_Apply_other: "oid \<noteq> xe_OrderID x \<Longrightarrow> ot_Apply t x oid = t oid"
  by (simp add: ot_Apply_def Let_def)

lemma ot_Apply_terminal:
  "t oid = Some ord \<Longrightarrow> isTerminal (to_Status ord) \<Longrightarrow> ot_Apply t x oid = Some ord"
  by (cases "oid = xe_OrderID x") (auto simp: ot_Apply_def Let_def)

lemma ot_Apply_idem: "ot_Apply (ot_Apply t x) x = ot_Apply t x"
  by (simp add: ot_Apply_def Let_def exec_transition_idem)

section \<open>The invariant\<close>

definition ot_ok :: "tracker \<Rightarrow> bool" where
  "ot_ok t \<longleftrightarrow> (\<forall>oid ord. t oid = Some ord \<longrightarrow> to_OrderID ord = oid)"

lemma ot_ok_New [inv_intros]: "ot_ok ot_New"
  by (simp add: ot_ok_def ot_New_def)

lemma ot_ok_Register [inv_intros]: "ot_ok t \<Longrightarrow> ot_ok (ot_Register now t a r)"
  by (auto simp: ot_ok_def ot_Register_def split: option.splits)

lemma ot_ok_Apply [inv_intros]: "ot_ok t \<Longrightarrow> ot_ok (ot_Apply t x)"
  by (auto simp: ot_ok_def ot_Apply_def order_of_exec_def Let_def split: option.splits)

section \<open>Reconciliation\<close>

lemma reconcile_add_lookup:
  "reconcile_add impl now a ords t oid =
     (case t oid of
        Some ord \<Rightarrow> Some ord
      | None \<Rightarrow> map_option (order_of_snapshot impl now a) (find (\<lambda>s. eo_OrderID s = oid) ords))"
  unfolding reconcile_add_def
  by (induction ords arbitrary: t) (auto split: option.splits)

lemma reconcile_drop_lookup:
  assumes "distinct ks"
  shows "reconcile_drop ks a snap t oid =
     (case t oid of
        None \<Rightarrow> None
      | Some ord \<Rightarrow>
          if oid \<in> set ks \<and> to_AccountID ord = a \<and> oid \<notin> snap \<and> \<not> isTerminal (to_Status ord)
          then None else Some ord)"
  using assms unfolding reconcile_drop_def
proof (induction ks arbitrary: t)
  case Nil
  then show ?case by (simp split: option.splits)
next
  case (Cons k ks)
  then show ?case
    by (cases "t k"; cases "oid = k") (auto split: option.splits)
qed

lemma order_of_snapshot_sel [simp]:
  "to_OrderID (order_of_snapshot impl now a ord) = eo_OrderID ord"
  "to_AccountID (order_of_snapshot impl now a ord) = a"
  "to_Status (order_of_snapshot impl now a ord) = eo_Status ord"
  by (simp_all add: order_of_snapshot_def Let_def)

lemma find_id: "find (\<lambda>s. eo_OrderID s = oid) ords = Some s \<Longrightarrow> eo_OrderID s = oid \<and> s \<in> set ords"
  by (induction ords) (auto split: if_splits)

lemma find_id_None: "find (\<lambda>s. eo_OrderID s = oid) ords = None \<longleftrightarrow> oid \<notin> eo_OrderID ` set ords"
  by (auto simp: find_None_iff)

lemma ot_ok_Reconcile [inv_intros]:
  assumes "ot_ok t" and "distinct ks"
  shows "ot_ok (ot_Reconcile impl now ks t a ords)"
  unfolding ot_ok_def
proof (intro allI impI)
  fix oid ord
  assume "ot_Reconcile impl now ks t a ords oid = Some ord"
  then have "reconcile_add impl now a ords t oid = Some ord"
    by (auto simp: ot_Reconcile_def reconcile_drop_lookup [OF assms(2)]
        split: option.splits if_splits)
  then show "to_OrderID ord = oid"
    using assms(1) by (auto simp: reconcile_add_lookup ot_ok_def dest: find_id split: option.splits)
qed

lemma ot_Reconcile_lookup:
  assumes "range_order ks (reconcile_add impl now a ords t)"
  shows "ot_Reconcile impl now ks t a ords oid =
     (case reconcile_add impl now a ords t oid of
        None \<Rightarrow> None
      | Some ord \<Rightarrow>
          if to_AccountID ord = a \<and> oid \<notin> eo_OrderID ` set ords \<and> \<not> isTerminal (to_Status ord)
          then None else Some ord)"
  using assms
  by (auto simp: ot_Reconcile_def reconcile_drop_lookup range_order_def split: option.splits)

section \<open>Queries\<close>

lemma hasOpenOrder_loop_iff:
  "hasOpenOrder_loop ords a c \<longleftrightarrow>
    (\<exists>ord\<in>set ords. to_Code ord = c \<and> \<not> isTerminal (to_Status ord) \<and> (a = [] \<or> to_AccountID ord = a))"
  by (induction ords) auto

lemma ot_HasOpenOrder_iff:
  assumes "range_order ks t"
  shows "ot_HasOpenOrder ks t a c \<longleftrightarrow>
    (\<exists>oid ord. t oid = Some ord \<and> to_Code ord = c \<and> \<not> isTerminal (to_Status ord) \<and>
       (a = [] \<or> to_AccountID ord = a))"
  using assms
  by (auto simp: ot_HasOpenOrder_def hasOpenOrder_loop_iff set_map_filter_order)

lemma ot_GetOpenOrders_iff:
  assumes "range_order ks t"
  shows "ord \<in> set (ot_GetOpenOrders ks t a) \<longleftrightarrow>
    (\<exists>oid. t oid = Some ord) \<and> to_AccountID ord = a \<and> \<not> isTerminal (to_Status ord)"
  using assms
  by (auto simp: ot_GetOpenOrders_def set_map_filter_order)

section \<open>Properties\<close>

text \<open>The notice that decides the state of an order: the first one with a terminal status,
  or else the last one.\<close>

fun decisive :: "exec_event list \<Rightarrow> exec_event option" where
  "decisive [] = None"
| "decisive (x # xs) =
     (if isTerminal (mapExecStatus (xe_Status x)) then Some x
      else case decisive xs of None \<Rightarrow> Some x | Some y \<Rightarrow> Some y)"

definition shows_notice :: "tracked_order \<Rightarrow> exec_event \<Rightarrow> bool" where
  "shows_notice ord x \<longleftrightarrow> to_Status ord = mapExecStatus (xe_Status x) \<and>
     to_FilledQty ord = wrap64 (xe_TotalQty x - xe_RemainQty x) \<and> to_RemainQty ord = xe_RemainQty x \<and>
     to_UpdatedAt ord = xe_ReceivedAt x"

lemma order_of_exec_open: "\<not> isTerminal (to_Status (order_of_exec x))"
  by (simp add: order_of_exec_def isTerminal_def)

lemma exec_transition_shows:
  "\<not> isTerminal (to_Status ord) \<Longrightarrow> shows_notice (exec_transition ord x) x"
  by (simp add: shows_notice_def exec_transition_def)

lemma ot_Apply_same:
  assumes "\<forall>ord. t (xe_OrderID x) = Some ord \<longrightarrow> \<not> isTerminal (to_Status ord)"
  shows "\<exists>ord. ot_Apply t x (xe_OrderID x) = Some ord \<and> shows_notice ord x"
  using assms order_of_exec_open exec_transition_shows
  by (auto simp: ot_Apply_def Let_def split: option.splits)

lemma ot_fold_terminal:
  "t oid = Some ord \<Longrightarrow> isTerminal (to_Status ord) \<Longrightarrow> fold (\<lambda>x t. ot_Apply t x) xs t oid = Some ord"
  by (induction xs arbitrary: t) (simp_all add: ot_Apply_terminal)

text \<open>C6. The state of an order after any sequence of notices for any orders: it shows the
  first terminal notice of that order, or the last notice when none is terminal. A fill
  that arrives twice, or a late notice after a terminal one, has no effect, and the
  filled and the remaining quantity add up to the total of the deciding notice.\<close>

theorem tracker_decisive_notice:
  assumes "\<forall>ord. ot_GetOrder t oid = Some ord \<longrightarrow> \<not> isTerminal (to_Status ord)"
  shows "case decisive (filter (\<lambda>x. xe_OrderID x = oid) xs) of
      None \<Rightarrow> ot_GetOrder (fold (\<lambda>x t. ot_Apply t x) xs t) oid = ot_GetOrder t oid
    | Some x \<Rightarrow> \<exists>ord. ot_GetOrder (fold (\<lambda>x t. ot_Apply t x) xs t) oid = Some ord \<and> shows_notice ord x \<and>
        wrap64 (to_FilledQty ord + to_RemainQty ord) = wrap64 (xe_TotalQty x)"
proof -
  have "case decisive (filter (\<lambda>x. xe_OrderID x = oid) xs) of
      None \<Rightarrow> fold (\<lambda>x t. ot_Apply t x) xs t oid = t oid
    | Some x \<Rightarrow> \<exists>ord. fold (\<lambda>x t. ot_Apply t x) xs t oid = Some ord \<and> shows_notice ord x"
    using assms unfolding ot_GetOrder_def
  proof (induction xs arbitrary: t)
    case Nil
    then show ?case by simp
  next
    case (Cons x xs)
    show ?case
    proof (cases "xe_OrderID x = oid")
      case False
      then have "ot_Apply t x oid = t oid" by (simp add: ot_Apply_other)
      with Cons.IH [of "ot_Apply t x"] Cons.prems False show ?thesis by (simp split: option.splits)
    next
      case True
      obtain ord where ord: "ot_Apply t x oid = Some ord" "shows_notice ord x"
        using ot_Apply_same [of t x] Cons.prems True by auto
      show ?thesis
      proof (cases "isTerminal (mapExecStatus (xe_Status x))")
        case fin: True
        with ord have "isTerminal (to_Status ord)" by (simp add: shows_notice_def)
        with ot_fold_terminal [of "ot_Apply t x" oid ord xs] ord True fin show ?thesis by simp
      next
        case False
        with ord have "\<not> isTerminal (to_Status ord)" by (simp add: shows_notice_def)
        with Cons.IH [of "ot_Apply t x"] ord True False show ?thesis by (auto split: option.splits)
      qed
    qed
  qed
  then show ?thesis by (auto simp: shows_notice_def ot_GetOrder_def split: option.splits)
qed

definition sample_notice :: "string \<Rightarrow> int \<Rightarrow> exec_event" where
  "sample_notice status remain = \<lparr>xe_AccountID = ''acct'', xe_Broker = ''kis'', xe_OrderID = ''1'',
     xe_Code = ''A'', xe_Side = Buy, xe_Price = 100, xe_Quantity = 10 - remain, xe_RemainQty = remain,
     xe_TotalQty = 10, xe_Status = status, xe_ExecTime = 0, xe_ReceivedAt = 1\<rparr>"

theorem tracker_decisive_notice_witness:
  "\<exists>ord. ot_GetOrder (fold (\<lambda>x t. ot_Apply t x)
      [sample_notice ''partial'' 4, sample_notice ''filled'' 0, sample_notice ''partial'' 4] ot_New) ''1''
      = Some ord \<and> to_Status ord = StatusFilled \<and> to_FilledQty ord = 10"
  using tracker_decisive_notice [of ot_New "''1''"
      "[sample_notice ''partial'' 4, sample_notice ''filled'' 0, sample_notice ''partial'' 4]"]
  by (auto simp: ot_GetOrder_def ot_New_def sample_notice_def mapExecStatus_def isTerminal_def
      shows_notice_def in64_def)

text \<open>C7. Reconciliation with a snapshot of an account, whatever order the map is walked in:
  every order of the snapshot is tracked afterwards; every tracked open order of the
  account is in the snapshot; an order that was tracked before is kept unchanged, unless
  it is an open order of the account that the snapshot lacks; and the orders of other
  accounts stay as they were. A finished order that the snapshot lacks is therefore kept,
  while the comments of the package and of \<^verbatim>\<open>Reconcile\<close>
  (internal/core/ordertracker/traker.go, lines 12 and 135) say that what is tracked and not
  in the snapshot is removed as finished: only what the tracker still holds open is
  removed, and nothing ever removes a finished order.\<close>

theorem tracker_reconcile:
  assumes "range_order ks (reconcile_add impl now a ords t)"
  defines "t' \<equiv> ot_Reconcile impl now ks t a ords"
  shows "(\<forall>s\<in>set ords. t' (eo_OrderID s) \<noteq> None) \<and>
    (\<forall>oid ord. t' oid = Some ord \<and> to_AccountID ord = a \<and> \<not> isTerminal (to_Status ord)
      \<longrightarrow> oid \<in> eo_OrderID ` set ords) \<and>
    (\<forall>oid ord. t oid = Some ord \<longrightarrow>
      t' oid = (if to_AccountID ord = a \<and> \<not> isTerminal (to_Status ord) \<and> oid \<notin> eo_OrderID ` set ords
                then None else Some ord)) \<and>
    (\<forall>oid. t oid = None \<longrightarrow>
      t' oid = map_option (order_of_snapshot impl now a) (find (\<lambda>s. eo_OrderID s = oid) ords))"
proof -
  note look = ot_Reconcile_lookup [OF assms(1), folded t'_def] reconcile_add_lookup
  have new: "t' oid = map_option (order_of_snapshot impl now a) (find (\<lambda>s. eo_OrderID s = oid) ords)"
    if "t oid = None" for oid
    using that find_id_None [of oid ords]
    by (cases "find (\<lambda>s. eo_OrderID s = oid) ords") (auto simp: look dest: find_id)
  have old: "t' oid = (if to_AccountID ord = a \<and> \<not> isTerminal (to_Status ord) \<and>
      oid \<notin> eo_OrderID ` set ords then None else Some ord)" if "t oid = Some ord" for oid ord
    using that by (simp add: look)
  have all: "t' (eo_OrderID s) \<noteq> None" if "s \<in> set ords" for s
    using that new [of "eo_OrderID s"] old [of "eo_OrderID s"] find_id_None [of "eo_OrderID s" ords]
    by (cases "t (eo_OrderID s)") auto
  have open_in: "oid \<in> eo_OrderID ` set ords"
    if "t' oid = Some ord" "to_AccountID ord = a" "\<not> isTerminal (to_Status ord)" for oid ord
    using that by (auto simp: look(1) split: option.splits if_splits)
  from new old all open_in show ?thesis by blast
qed

theorem tracker_reconcile_witness:
  "ot_Reconcile (\<lambda>_. 0) 5 [''1''] (ot_Apply ot_New (sample_notice ''accepted'' 10)) ''acct'' [] ''1'' = None"
proof -
  let ?t = "ot_Apply ot_New (sample_notice ''accepted'' 10)"
  obtain ord where t: "?t ''1'' = Some ord" "to_AccountID ord = ''acct''" "\<not> isTerminal (to_Status ord)"
    by (simp add: ot_Apply_def ot_New_def sample_notice_def order_of_exec_def exec_transition_def
        mapExecStatus_def isTerminal_def)
  have "range_order [''1''] (reconcile_add (\<lambda>_. 0) 5 ''acct'' [] ?t)"
    by (simp add: range_order_def reconcile_add_def ot_Apply_def ot_New_def sample_notice_def)
  from tracker_reconcile [OF this] t show ?thesis by simp
qed

text \<open>A fill that overtakes the answer to its order is lost: when the notice of a fill
  arrives before the answer of \<open>PlaceOrder\<close>, the tracker files it, and \<open>Register\<close> then puts
  the order back to open with nothing filled.\<close>

theorem tracker_register_forgets_fill:
  assumes "ot_GetOrder t (xe_OrderID x) = None" and "xe_Status x = ''filled''"
    and "ors_OrderID r = xe_OrderID x"
  shows "\<exists>ord ord'. ot_GetOrder (ot_Apply t x) (xe_OrderID x) = Some ord \<and> to_Status ord = StatusFilled \<and>
    ot_GetOrder (ot_Register now (ot_Apply t x) a (Some r)) (xe_OrderID x) = Some ord' \<and>
    to_Status ord' = StatusOpen \<and> to_FilledQty ord' = 0 \<and> to_RemainQty ord' = ors_Quantity r"
  using assms
  by (simp add: ot_GetOrder_def ot_Apply_def ot_Register_def order_of_exec_def exec_transition_def
      mapExecStatus_def isTerminal_def)

theorem tracker_register_forgets_fill_witness:
  "\<exists>ord. ot_GetOrder (ot_Register 2 (ot_Apply ot_New (sample_notice ''filled'' 0)) ''acct''
      (Some \<lparr>ors_OrderID = ''1'', ors_Code = ''A'', ors_Side = Buy, ors_Type = Limit, ors_Quantity = 10,
        ors_Price = 100, ors_Status = StatusOpen, ors_CreatedAt = 0\<rparr>)) ''1'' = Some ord \<and>
    to_Status ord = StatusOpen"
  using tracker_register_forgets_fill [of ot_New "sample_notice ''filled'' 0"
      "\<lparr>ors_OrderID = ''1'', ors_Code = ''A'', ors_Side = Buy, ors_Type = Limit, ors_Quantity = 10,
        ors_Price = 100, ors_Status = StatusOpen, ors_CreatedAt = 0\<rparr>" 2 "''acct''"]
  by (auto simp: ot_GetOrder_def ot_New_def sample_notice_def)

end
