(* ===== verification/Balance_Manager.thy ===== *)
theory Balance_Manager
  imports Trading_Types
begin

text \<open>
  \<open>internal/core/balancemgr/manager.go\<close>: the balances per account. A baseline (a REST
  snapshot) replaces an account; an execution notice changes it incrementally. All
  amounts are \<open>int64\<close>, so every sum and product wraps.

  The ledger lemmas follow the cash of an account and the quantity of a holding through
  a sequence of notices; the cost lemma bounds the average cost after a buy.
\<close>

section \<open>State and operations\<close>

record holding_state =
  hs_Code :: string
  hs_Name :: string
  hs_Quantity :: int
  hs_AvgCost :: int

record account_balance =
  ab_AccountID :: string
  ab_CashBalance :: int
  ab_TotalAsset :: int
  ab_Holdings :: "string \<rightharpoonup> holding_state"
  ab_BaselineAt :: go_time

type_synonym balance_mgr = "string \<rightharpoonup> account_balance"

definition bm_New :: balance_mgr where
  "bm_New = Map.empty"

definition baseline_holdings :: "holding list \<Rightarrow> (string \<rightharpoonup> holding_state)" where
  "baseline_holdings hs =
     fold (\<lambda>h m. m(ho_Code h \<mapsto> \<lparr>hs_Code = ho_Code h, hs_Name = ho_Name h,
        hs_Quantity = ho_Quantity h, hs_AvgCost = ho_AvgCost h\<rparr>)) hs Map.empty"

definition bm_SetBaseline ::
    "go_time \<Rightarrow> balance_mgr \<Rightarrow> string \<Rightarrow> balance option \<Rightarrow> balance_mgr" where
  "bm_SetBaseline now m accountID bal =
     (case bal of
        None \<Rightarrow> m
      | Some b \<Rightarrow>
          m(accountID \<mapsto> \<lparr>ab_AccountID = accountID, ab_CashBalance = ba_CashBalance b,
             ab_TotalAsset = ba_TotalAsset b, ab_Holdings = baseline_holdings (ba_Holdings b),
             ab_BaselineAt = now\<rparr>))"

definition isExecFill :: "string \<Rightarrow> bool" where
  "isExecFill status \<longleftrightarrow> status = ''filled'' \<or> status = ''partial''"

definition getOrCreateHolding :: "account_balance \<Rightarrow> string \<Rightarrow> holding_state" where
  "getOrCreateHolding acct code =
     (case ab_Holdings acct code of
        Some h \<Rightarrow> h
      | None \<Rightarrow> \<lparr>hs_Code = code, hs_Name = [], hs_Quantity = 0, hs_AvgCost = 0\<rparr>)"

text \<open>The two branches of \<open>Apply\<close>. \<open>amount\<close> is the value of the execution.\<close>

definition exec_amount :: "exec_event \<Rightarrow> int" where
  "exec_amount x = wrap64 (xe_Price x * xe_Quantity x)"

definition buy_holding :: "holding_state \<Rightarrow> int \<Rightarrow> int \<Rightarrow> holding_state" where
  "buy_holding h amount qty =
     (let oldTotal = wrap64 (hs_AvgCost h * hs_Quantity h);
          q = wrap64 (hs_Quantity h + qty)
      in h\<lparr>hs_Quantity := q,
           hs_AvgCost := (if q > 0 then quot64 (wrap64 (oldTotal + amount)) q else hs_AvgCost h)\<rparr>)"

definition apply_buy :: "account_balance \<Rightarrow> exec_event \<Rightarrow> account_balance" where
  "apply_buy acct x =
     acct\<lparr>ab_CashBalance := wrap64 (ab_CashBalance acct - exec_amount x),
          ab_Holdings := (ab_Holdings acct)
            (xe_Code x \<mapsto> buy_holding (getOrCreateHolding acct (xe_Code x)) (exec_amount x) (xe_Quantity x))\<rparr>"

definition apply_sell :: "account_balance \<Rightarrow> exec_event \<Rightarrow> account_balance" where
  "apply_sell acct x =
     acct\<lparr>ab_CashBalance := wrap64 (ab_CashBalance acct + exec_amount x),
          ab_Holdings :=
            (case ab_Holdings acct (xe_Code x) of
               None \<Rightarrow> ab_Holdings acct
             | Some h \<Rightarrow>
                 (let q = wrap64 (hs_Quantity h - xe_Quantity x)
                  in if q \<le> 0 then (ab_Holdings acct)(xe_Code x := None)
                     else (ab_Holdings acct)(xe_Code x \<mapsto> h\<lparr>hs_Quantity := q\<rparr>)))\<rparr>"

definition bm_Apply :: "balance_mgr \<Rightarrow> exec_event \<Rightarrow> balance_mgr" where
  "bm_Apply m x =
     (if \<not> isExecFill (xe_Status x) then m
      else case m (xe_AccountID x) of
             None \<Rightarrow> m
           | Some acct \<Rightarrow>
               if xe_Side x = Buy then m(xe_AccountID x \<mapsto> apply_buy acct x)
               else if xe_Side x = Sell then m(xe_AccountID x \<mapsto> apply_sell acct x)
               else m)"

definition bm_GetBalance :: "balance_mgr \<Rightarrow> string \<Rightarrow> account_balance option" where
  "bm_GetBalance m accountID = m accountID"

text \<open>The searches over all accounts visit them in the order \<open>ks\<close>.\<close>

definition bm_FindHoldingWithAccount ::
    "string list \<Rightarrow> balance_mgr \<Rightarrow> string \<Rightarrow> string \<times> holding_state option" where
  "bm_FindHoldingWithAccount ks m code =
     (case range_find ks m (\<lambda>_ acct. ab_Holdings acct code \<noteq> None) of
        None \<Rightarrow> ([], None)
      | Some (aid, acct) \<Rightarrow> (aid, ab_Holdings acct code))"

definition bm_GetHolding ::
    "string list \<Rightarrow> balance_mgr \<Rightarrow> string \<Rightarrow> string \<Rightarrow> holding_state option" where
  "bm_GetHolding ks m accountID code =
     (if accountID \<noteq> [] then
        (case m accountID of None \<Rightarrow> None | Some acct \<Rightarrow> ab_Holdings acct code)
      else (case range_find ks m (\<lambda>_ acct. ab_Holdings acct code \<noteq> None) of
              None \<Rightarrow> None
            | Some (_, acct) \<Rightarrow> ab_Holdings acct code))"

definition bm_GetCash :: "balance_mgr \<Rightarrow> string \<Rightarrow> int" where
  "bm_GetCash m accountID = (case m accountID of None \<Rightarrow> 0 | Some acct \<Rightarrow> ab_CashBalance acct)"

definition bm_HasBaseline :: "balance_mgr \<Rightarrow> string \<Rightarrow> bool" where
  "bm_HasBaseline m accountID \<longleftrightarrow> m accountID \<noteq> None"

section \<open>The invariant\<close>

text \<open>Every account is filed under its own ID, every holding under its own code, and
  every amount is an \<open>int64\<close>.\<close>

definition holding_ok :: "string \<Rightarrow> holding_state \<Rightarrow> bool" where
  "holding_ok c h \<longleftrightarrow> hs_Code h = c \<and> in64 (hs_Quantity h) \<and> in64 (hs_AvgCost h)"

definition account_ok :: "string \<Rightarrow> account_balance \<Rightarrow> bool" where
  "account_ok a acct \<longleftrightarrow> ab_AccountID acct = a \<and> in64 (ab_CashBalance acct) \<and>
     (\<forall>c h. ab_Holdings acct c = Some h \<longrightarrow> holding_ok c h)"

definition bm_ok :: "balance_mgr \<Rightarrow> bool" where
  "bm_ok m \<longleftrightarrow> (\<forall>a acct. m a = Some acct \<longrightarrow> account_ok a acct)"

definition balance_in64 :: "balance \<Rightarrow> bool" where
  "balance_in64 b \<longleftrightarrow> in64 (ba_CashBalance b) \<and>
     (\<forall>h\<in>set (ba_Holdings b). in64 (ho_Quantity h) \<and> in64 (ho_AvgCost h))"

lemma bm_ok_New [inv_intros]: "bm_ok bm_New"
  by (simp add: bm_ok_def bm_New_def)

lemma baseline_holdings_ok:
  assumes "\<forall>h\<in>set hs. in64 (ho_Quantity h) \<and> in64 (ho_AvgCost h)"
    and "baseline_holdings hs c = Some x"
  shows "holding_ok c x"
proof (rule fold_map_upd_all [where P = holding_ok])
  show "fold (\<lambda>h m. m(ho_Code h \<mapsto> \<lparr>hs_Code = ho_Code h, hs_Name = ho_Name h,
      hs_Quantity = ho_Quantity h, hs_AvgCost = ho_AvgCost h\<rparr>)) hs Map.empty c = Some x"
    using assms(2) unfolding baseline_holdings_def .
qed (use assms(1) in \<open>simp_all add: holding_ok_def\<close>)

lemma bm_ok_SetBaseline [inv_intros]:
  assumes "bm_ok m" and "\<And>b. bal = Some b \<Longrightarrow> balance_in64 b"
  shows "bm_ok (bm_SetBaseline now m a bal)"
proof (cases bal)
  case None
  with assms(1) show ?thesis by (simp add: bm_SetBaseline_def)
next
  case (Some b)
  with assms(2) have "balance_in64 b" by simp
  then have "holding_ok c h" if "baseline_holdings (ba_Holdings b) c = Some h" for c h
    using baseline_holdings_ok [OF _ that] by (simp add: balance_in64_def)
  with assms Some show ?thesis
    by (auto simp: bm_ok_def account_ok_def bm_SetBaseline_def balance_in64_def)
qed

lemma getOrCreateHolding_ok: "account_ok a acct \<Longrightarrow> holding_ok c (getOrCreateHolding acct c)"
  by (auto simp: getOrCreateHolding_def account_ok_def holding_ok_def split: option.splits)

lemma buy_holding_ok: "holding_ok c h \<Longrightarrow> holding_ok c (buy_holding h amount qty)"
  by (auto simp: buy_holding_def holding_ok_def Let_def quot64_def)

lemma account_ok_buy: "account_ok a acct \<Longrightarrow> account_ok a (apply_buy acct x)"
  using getOrCreateHolding_ok [of a acct "xe_Code x"]
  by (auto simp: account_ok_def apply_buy_def buy_holding_ok)

lemma account_ok_sell: "account_ok a acct \<Longrightarrow> account_ok a (apply_sell acct x)"
  by (auto simp: account_ok_def apply_sell_def holding_ok_def Let_def split: option.splits)

lemma bm_ok_Apply [inv_intros]: "bm_ok m \<Longrightarrow> bm_ok (bm_Apply m x)"
  by (auto simp: bm_ok_def bm_Apply_def account_ok_buy account_ok_sell split: option.splits)

section \<open>Ledgers\<close>

lemma bm_Apply_other: "a \<noteq> xe_AccountID x \<Longrightarrow> bm_Apply m x a = m a"
  by (auto simp: bm_Apply_def split: option.splits)

lemma bm_Apply_HasBaseline [simp]: "bm_HasBaseline (bm_Apply m x) a = bm_HasBaseline m a"
  by (auto simp: bm_HasBaseline_def bm_Apply_def split: option.splits)

text \<open>What one notice adds to the cash of an account, as an exact integer.\<close>

definition cash_delta :: "string \<Rightarrow> exec_event \<Rightarrow> int" where
  "cash_delta a x =
     (if xe_AccountID x \<noteq> a \<or> \<not> isExecFill (xe_Status x) then 0
      else if xe_Side x = Buy then - (xe_Price x * xe_Quantity x)
      else if xe_Side x = Sell then xe_Price x * xe_Quantity x
      else 0)"

lemma bm_Apply_cash:
  assumes "bm_HasBaseline m a" and "bm_ok m"
  shows "bm_GetCash (bm_Apply m x) a = wrap64 (bm_GetCash m a + cash_delta a x)"
proof -
  obtain acct where a: "m a = Some acct" using assms(1) by (auto simp: bm_HasBaseline_def)
  with assms(2) have "in64 (ab_CashBalance acct)" by (auto simp: bm_ok_def account_ok_def)
  with a show ?thesis
    by (auto simp: bm_GetCash_def bm_Apply_def cash_delta_def apply_buy_def apply_sell_def
        exec_amount_def split: option.splits)
qed

lemma bm_GetCash_in64: "bm_ok m \<Longrightarrow> bm_HasBaseline m a \<Longrightarrow> in64 (bm_GetCash m a)"
  by (auto simp: bm_ok_def account_ok_def bm_HasBaseline_def bm_GetCash_def)

lemma bm_SetBaseline_other:
  "a \<noteq> b \<or> bal = None \<Longrightarrow> bm_SetBaseline now m b bal a = m a"
  by (auto simp: bm_SetBaseline_def split: option.splits)

text \<open>The cost of a buy: as long as nothing overflows, the new average cost is the
  total cost over the new quantity, rounded down.\<close>

lemma buy_holding_cost:
  assumes "0 \<le> hs_AvgCost h" "0 \<le> hs_Quantity h" "0 \<le> amount" "0 < qty"
    and "in64 (hs_Quantity h + qty)" "in64 (hs_AvgCost h * hs_Quantity h + amount)"
  defines "h' \<equiv> buy_holding h amount qty"
  shows "hs_Quantity h' = hs_Quantity h + qty"
    and "hs_AvgCost h' = (hs_AvgCost h * hs_Quantity h + amount) div (hs_Quantity h + qty)"
proof -
  have nn: "0 \<le> hs_AvgCost h * hs_Quantity h" using assms(1,2) by simp
  with assms(3,6) have "in64 (hs_AvgCost h * hs_Quantity h)" by (simp add: in64_def)
  moreover have "quot64 (hs_AvgCost h * hs_Quantity h + amount) (hs_Quantity h + qty)
      = (hs_AvgCost h * hs_Quantity h + amount) div (hs_Quantity h + qty)"
    using nn assms(2,3,4,6) by (intro quot64_nonneg) simp_all
  ultimately show "hs_Quantity h' = hs_Quantity h + qty"
    and "hs_AvgCost h' = (hs_AvgCost h * hs_Quantity h + amount) div (hs_Quantity h + qty)"
    using assms(2,4,5,6) by (simp_all add: h'_def buy_holding_def Let_def)
qed

section \<open>Properties\<close>

lemma bm_fold_ok: "bm_ok m \<Longrightarrow> bm_ok (fold (\<lambda>x m. bm_Apply m x) xs m)"
  by (induction xs arbitrary: m) (simp_all add: bm_ok_Apply)

text \<open>The cash ledger: after any sequence of execution notices for any accounts, the
  cash of an account with a baseline is the cash before plus the proceeds of its sales
  minus the cost of its purchases, exactly, up to the wrap-around of 64 bits.\<close>

theorem balance_cash_ledger:
  assumes "bm_ok m" and "bm_HasBaseline m a"
  shows "bm_GetCash (fold (\<lambda>x m. bm_Apply m x) xs m) a =
    wrap64 (bm_GetCash m a + (\<Sum>x\<leftarrow>xs. cash_delta a x))"
  using assms
proof (induction xs arbitrary: m)
  case Nil
  then show ?case by (simp add: bm_GetCash_in64)
next
  case (Cons x xs)
  from Cons.IH [of "bm_Apply m x"] Cons.prems show ?case
    by (simp add: bm_ok_Apply bm_Apply_cash algebra_simps)
qed

definition sample_account :: balance_mgr where
  "sample_account = bm_SetBaseline 0 bm_New ''acct''
     (Some \<lparr>ba_TotalAsset = 1000, ba_CashBalance = 1000, ba_Holdings = []\<rparr>)"

definition sample_fill :: "side \<Rightarrow> int \<Rightarrow> int \<Rightarrow> exec_event" where
  "sample_fill sd price qty = \<lparr>xe_AccountID = ''acct'', xe_Broker = ''kis'', xe_OrderID = ''1'',
     xe_Code = ''A'', xe_Side = sd, xe_Price = price, xe_Quantity = qty, xe_RemainQty = 0,
     xe_TotalQty = qty, xe_Status = ''filled'', xe_ExecTime = 0, xe_ReceivedAt = 1\<rparr>"

lemma sample_account_ok: "bm_ok sample_account" "bm_HasBaseline sample_account ''acct''"
  unfolding sample_account_def
  by (rule bm_ok_SetBaseline [OF bm_ok_New]; simp add: balance_in64_def in64_def)
     (simp add: bm_HasBaseline_def bm_SetBaseline_def)

theorem balance_cash_ledger_witness:
  "bm_GetCash (fold (\<lambda>x m. bm_Apply m x) [sample_fill Buy 100 5, sample_fill Sell 120 2] sample_account) ''acct''
    = 740"
  unfolding balance_cash_ledger [OF sample_account_ok]
  by (simp add: sample_account_def sample_fill_def bm_GetCash_def bm_SetBaseline_def cash_delta_def
      isExecFill_def in64_def)

text \<open>The average cost of a purchase: as long as no product overflows, buying into a
  held position leaves an average cost between the old average and the price paid, the
  total cost over the total quantity rounded down; the first purchase of an issue has its
  price as the average.\<close>

theorem balance_average_cost:
  assumes "0 \<le> hs_Quantity h" "0 \<le> hs_AvgCost h" "0 \<le> price" "0 < qty"
    and "in64 (hs_Quantity h + qty)" "in64 (hs_AvgCost h * hs_Quantity h + price * qty)"
  defines "h' \<equiv> buy_holding h (price * qty) qty"
  shows "hs_Quantity h' = hs_Quantity h + qty \<and>
    hs_AvgCost h' * hs_Quantity h' \<le> hs_AvgCost h * hs_Quantity h + price * qty \<and>
    hs_AvgCost h * hs_Quantity h + price * qty < (hs_AvgCost h' + 1) * hs_Quantity h' \<and>
    min (hs_AvgCost h) price \<le> hs_AvgCost h' \<and> hs_AvgCost h' \<le> max (hs_AvgCost h) price \<and>
    (hs_Quantity h = 0 \<longrightarrow> hs_AvgCost h' = price)"
proof -
  let ?q = "hs_Quantity h + qty" and ?c = "hs_AvgCost h * hs_Quantity h + price * qty"
  have q: "0 < ?q" and pq: "0 \<le> price * qty" using assms(1,3,4) by auto
  note b = buy_holding_cost [OF assms(2,1) pq assms(4-6), folded h'_def]
  have lo: "min (hs_AvgCost h) price * ?q \<le> ?c"
    unfolding distrib_left using assms(1,4) by (intro add_mono mult_right_mono) auto
  have hi: "?c \<le> max (hs_AvgCost h) price * ?q"
    unfolding distrib_left using assms(1,4) by (intro add_mono mult_right_mono) auto
  have d1: "?c div ?q * ?q \<le> ?c" using zdiv_ge_iff [OF q, of "?c div ?q" ?c] by simp
  have d2: "?c < (?c div ?q + 1) * ?q"
    using zdiv_ge_iff [OF q, of "?c div ?q + 1" ?c] by linarith
  have "min (hs_AvgCost h) price \<le> ?c div ?q" using lo zdiv_ge_iff [OF q] by blast
  moreover have "?c div ?q \<le> max (hs_AvgCost h) price"
    using zdiv_mono1 [OF hi q] q by simp
  moreover have "?c div ?q = price" if "hs_Quantity h = 0" using that assms(4) by simp
  ultimately show ?thesis using b d1 d2 by simp
qed

theorem balance_average_cost_witness:
  "hs_AvgCost (buy_holding \<lparr>hs_Code = ''A'', hs_Name = [], hs_Quantity = 2, hs_AvgCost = 100\<rparr> (111 * 1) 1)
    \<in> {100..111}"
  using balance_average_cost [of "\<lparr>hs_Code = ''A'', hs_Name = [], hs_Quantity = 2, hs_AvgCost = 100\<rparr>" 111 1]
  by (simp add: in64_def)

text \<open>Buying and selling the same quantity is a round trip: the quantity held is what it
  was, an issue that was not held is not held afterwards, and the cash changes by the
  difference of the two prices.\<close>

theorem balance_buy_sell_roundtrip:
  assumes "bm_ok m" and "m (xe_AccountID x) = Some acct"
    and "isExecFill (xe_Status x)" "isExecFill (xe_Status y)" "xe_Side x = Buy" "xe_Side y = Sell"
    and "xe_AccountID y = xe_AccountID x" "xe_Code y = xe_Code x" "xe_Quantity y = xe_Quantity x"
    and "0 < xe_Quantity x"
    and "case ab_Holdings acct (xe_Code x) of None \<Rightarrow> in64 (xe_Quantity x)
         | Some h \<Rightarrow> 0 < hs_Quantity h \<and> in64 (hs_Quantity h + xe_Quantity x)"
  defines "m' \<equiv> bm_Apply (bm_Apply m x) y"
  shows "\<exists>acct'. m' (xe_AccountID x) = Some acct' \<and>
    ab_CashBalance acct' = wrap64 (ab_CashBalance acct + (xe_Price y - xe_Price x) * xe_Quantity x) \<and>
    map_option hs_Quantity (ab_Holdings acct' (xe_Code x)) =
      map_option hs_Quantity (ab_Holdings acct (xe_Code x))"
proof -
  have "in64 (ab_CashBalance acct)" using assms(1,2) by (auto simp: bm_ok_def account_ok_def)
  have s: "xe_Side x \<noteq> Sell" "xe_Side y \<noteq> Buy" using assms(5,6) by simp_all
  have m': "m' (xe_AccountID x) = Some (apply_sell (apply_buy acct x) y)"
    unfolding m'_def using assms(2-7) s by (simp add: bm_Apply_def)
  have cash: "ab_CashBalance (apply_sell (apply_buy acct x) y) =
      wrap64 (ab_CashBalance acct + (xe_Price y - xe_Price x) * xe_Quantity x)"
    using assms(9) by (simp add: apply_sell_def apply_buy_def exec_amount_def) (simp add: algebra_simps)
  let ?h = "getOrCreateHolding acct (xe_Code x)"
  have q: "0 \<le> hs_Quantity ?h" "in64 (hs_Quantity ?h + xe_Quantity x)"
    using assms(10,11) by (auto simp: getOrCreateHolding_def split: option.splits)
  have in_q: "in64 (hs_Quantity ?h)" using q assms(10) by (simp add: in64_def)
  have "map_option hs_Quantity (ab_Holdings (apply_sell (apply_buy acct x) y) (xe_Code x)) =
      (if hs_Quantity ?h \<le> 0 then None else Some (hs_Quantity ?h))"
    using assms(8,9) q in_q by (simp add: apply_sell_def apply_buy_def buy_holding_def Let_def)
  also have "\<dots> = map_option hs_Quantity (ab_Holdings acct (xe_Code x))"
    using assms(11) by (auto simp: getOrCreateHolding_def split: option.splits)
  finally show ?thesis using m' cash by blast
qed

theorem balance_buy_sell_roundtrip_witness:
  "\<exists>acct. bm_Apply (bm_Apply sample_account (sample_fill Buy 100 5)) (sample_fill Sell 120 5) ''acct'' = Some acct \<and>
    ab_CashBalance acct = 1100 \<and> ab_Holdings acct ''A'' = None"
proof -
  obtain a0 where a0: "sample_account (xe_AccountID (sample_fill Buy 100 5)) = Some a0"
    "ab_CashBalance a0 = 1000" "ab_Holdings a0 = Map.empty"
    by (simp add: sample_account_def sample_fill_def bm_SetBaseline_def baseline_holdings_def)
  from balance_buy_sell_roundtrip [OF sample_account_ok(1) a0(1), of "sample_fill Sell 120 5"] a0(2,3)
  show ?thesis by (auto simp: sample_fill_def isExecFill_def in64_def)
qed

end
