(* ===== verification/Theme_Strategy.thy ===== *)
theory Theme_Strategy
  imports Price_Store Order_Tracker Balance_Manager
begin

text \<open>
  \<open>internal/core/strategy/theme.go\<close>: the theme strategy. On a tick it looks for rules
  whose conditions all hold in the price store and proposes to buy their targets, and it
  proposes to sell a held issue whose return passes the exit thresholds. The strategy
  reads the price store, the order tracker and the balances and changes none of them.

  A method that dereferences a nil pointer would panic: \<open>buildBuyReason\<close> returns \<open>None\<close>
  there, and a theorem says that \<open>OnTick\<close> never gets that far.
\<close>

section \<open>Data\<close>

abbreviation RateScale :: int where "RateScale \<equiv> 10000"

record theme_stock =
  tk_Rank :: int
  tk_Code :: string
  tk_Name :: string

record theme_group =
  tg_Name :: string
  tg_Stocks :: "theme_stock list"

record rank_condition =
  rc_Rank :: int
  rc_MinPct :: rat

record buy_target =
  bt_Rank :: int
  bt_BuyAmount :: int

record theme_rule =
  tr_ThemeName :: string
  tr_Conditions :: "rank_condition list"
  tr_BuyTargets :: "buy_target list"
  tr_ProfitPct :: rat
  tr_LossPct :: rat

record theme_strategy =
  th_themes :: "theme_group list"
  th_rules :: "theme_rule list"

text \<open>What the strategy reads: the three stores, and the orders in which its \<open>range\<close>
  loops over their maps run (per issue code for the loops inside the buy loop).\<close>

record market_view =
  mv_prices :: price_store
  mv_orders :: tracker
  mv_balances :: balance_mgr
  mv_holdingKeys :: "string \<Rightarrow> string list"
  mv_orderKeys :: "string \<Rightarrow> string list"
  mv_findKeys :: "string list"

section \<open>Operations\<close>

definition pctToRate :: "(rat \<Rightarrow> int) \<Rightarrow> rat \<Rightarrow> int" where
  "pctToRate impl pct = float_to_int64 impl (fl_mult pct (of_int RateScale))"

fun isStockInTheme :: "theme_group list \<Rightarrow> string \<Rightarrow> string \<Rightarrow> bool" where
  "isStockInTheme [] themeName code = False"
| "isStockInTheme (theme # ts) themeName code =
     (if tg_Name theme \<noteq> themeName then isStockInTheme ts themeName code
      else if \<exists>stock\<in>set (tg_Stocks theme). tk_Code stock = code then True
      else isStockInTheme ts themeName code)"

fun findStock :: "theme_group list \<Rightarrow> string \<Rightarrow> int \<Rightarrow> theme_stock option" where
  "findStock [] themeName rank = None"
| "findStock (theme # ts) themeName rank =
     (if tg_Name theme \<noteq> themeName then findStock ts themeName rank
      else case find (\<lambda>stock. tk_Rank stock = rank) (tg_Stocks theme) of
             Some stock \<Rightarrow> Some stock
           | None \<Rightarrow> findStock ts themeName rank)"

definition findRuleForTarget :: "theme_strategy \<Rightarrow> string \<Rightarrow> theme_rule option" where
  "findRuleForTarget s code =
     find (\<lambda>rule. \<exists>target\<in>set (tr_BuyTargets rule).
             \<exists>stock\<in>set_option (findStock (th_themes s) (tr_ThemeName rule) (bt_Rank target)).
               tk_Code stock = code) (th_rules s)"

fun check_conditions ::
    "(rat \<Rightarrow> int) \<Rightarrow> theme_group list \<Rightarrow> price_store \<Rightarrow> string \<Rightarrow> rank_condition list \<Rightarrow> bool" where
  "check_conditions impl themes prices name [] = True"
| "check_conditions impl themes prices name (cond # conds) =
     (case findStock themes name (rc_Rank cond) of
        None \<Rightarrow> False
      | Some stock \<Rightarrow>
          (case ps_Get prices (tk_Code stock) of
             None \<Rightarrow> False
           | Some snap \<Rightarrow>
               if sn_ChangeRate snap < pctToRate impl (rc_MinPct cond) then False
               else check_conditions impl themes prices name conds))"

definition checkAllConditions ::
    "(rat \<Rightarrow> int) \<Rightarrow> theme_strategy \<Rightarrow> price_store \<Rightarrow> theme_rule \<Rightarrow> bool" where
  "checkAllConditions impl s prices rule =
     check_conditions impl (th_themes s) prices (tr_ThemeName rule) (tr_Conditions rule)"

fun condition_rates ::
    "theme_group list \<Rightarrow> price_store \<Rightarrow> string \<Rightarrow> rank_condition list \<Rightarrow> (int \<times> int) list option" where
  "condition_rates themes prices name [] = Some []"
| "condition_rates themes prices name (cond # conds) =
     (case findStock themes name (rc_Rank cond) of
        None \<Rightarrow> None
      | Some stock \<Rightarrow>
          (case ps_Get prices (tk_Code stock) of
             None \<Rightarrow> None
           | Some snap \<Rightarrow>
               map_option ((#) (rc_Rank cond, sn_ChangeRate snap))
                 (condition_rates themes prices name conds)))"

definition buildBuyReason ::
    "theme_strategy \<Rightarrow> price_store \<Rightarrow> theme_rule \<Rightarrow> theme_stock \<Rightarrow> int \<Rightarrow> trade_reason option" where
  "buildBuyReason s prices rule target targetRank =
     map_option (\<lambda>rates. BuyReason (tr_ThemeName rule) rates (tk_Name target) targetRank)
       (condition_rates (th_themes s) prices (tr_ThemeName rule) (tr_Conditions rule))"

text \<open>One turn of the buy loop: \<open>Some None\<close> for a \<open>continue\<close>, \<open>None\<close> for a panic.\<close>

definition buy_signal ::
    "theme_strategy \<Rightarrow> market_view \<Rightarrow> theme_rule \<Rightarrow> buy_target \<Rightarrow> trade_signal option option" where
  "buy_signal s v rule target =
     (case findStock (th_themes s) (tr_ThemeName rule) (bt_Rank target) of
        None \<Rightarrow> Some None
      | Some stock \<Rightarrow>
          if (\<exists>h\<in>set_option (bm_GetHolding (mv_holdingKeys v (tk_Code stock)) (mv_balances v) []
                (tk_Code stock)). hs_Quantity h > 0) then Some None
          else if ot_HasOpenOrder (mv_orderKeys v (tk_Code stock)) (mv_orders v) [] (tk_Code stock)
          then Some None
          else
            (case ps_Get (mv_prices v) (tk_Code stock) of
               None \<Rightarrow> Some None
             | Some snap \<Rightarrow>
                 if sn_Price snap \<le> 0 then Some None
                 else
                   (let qty = quot64 (bt_BuyAmount target) (sn_Price snap)
                    in if qty \<le> 0 then Some None
                       else map_option (\<lambda>reason. Some \<lparr>ts_AccountID = [], ts_Code = tk_Code stock,
                              ts_Side = Buy, ts_Type = Limit, ts_Quantity = qty,
                              ts_Price = sn_Price snap, ts_Reason = reason\<rparr>)
                            (buildBuyReason s (mv_prices v) rule stock (bt_Rank target)))))"

fun buy_loop ::
    "theme_strategy \<Rightarrow> market_view \<Rightarrow> theme_rule \<Rightarrow> buy_target list \<Rightarrow> trade_signal list option" where
  "buy_loop s v rule [] = Some []"
| "buy_loop s v rule (target # targets) =
     (case buy_signal s v rule target of
        None \<Rightarrow> None
      | Some None \<Rightarrow> buy_loop s v rule targets
      | Some (Some sig) \<Rightarrow> map_option ((#) sig) (buy_loop s v rule targets))"

definition generateBuySignals ::
    "theme_strategy \<Rightarrow> market_view \<Rightarrow> theme_rule \<Rightarrow> trade_signal list option" where
  "generateBuySignals s v rule = buy_loop s v rule (tr_BuyTargets rule)"

definition pnl_rate :: "int \<Rightarrow> int \<Rightarrow> int" where
  "pnl_rate price avgCost = quot64 (wrap64 (wrap64 (price - avgCost) * RateScale)) avgCost"

definition checkExitConditions ::
    "(rat \<Rightarrow> int) \<Rightarrow> theme_strategy \<Rightarrow> market_view \<Rightarrow> tick_event \<Rightarrow> trade_signal list" where
  "checkExitConditions impl s v tick =
     (case findRuleForTarget s (te_Code tick) of
        None \<Rightarrow> []
      | Some rule \<Rightarrow>
          (case bm_FindHoldingWithAccount (mv_findKeys v) (mv_balances v) (te_Code tick) of
             (_, None) \<Rightarrow> []
           | (accountID, Some h) \<Rightarrow>
               if hs_Quantity h \<le> 0 then []
               else if hs_AvgCost h \<le> 0 then []
               else
                 (let pnlRate = pnl_rate (te_Price tick) (hs_AvgCost h);
                      profitRate = pctToRate impl (tr_ProfitPct rule);
                      lossRate = pctToRate impl (tr_LossPct rule);
                      sell = (\<lambda>reason. \<lparr>ts_AccountID = accountID, ts_Code = te_Code tick,
                        ts_Side = Sell, ts_Type = Market, ts_Quantity = hs_Quantity h,
                        ts_Price = 0, ts_Reason = reason\<rparr>)
                  in if pnlRate \<ge> profitRate
                     then [sell (ProfitReason (te_Code tick) pnlRate (tr_ProfitPct rule))]
                     else if pnlRate \<le> wrap64 (- lossRate)
                     then [sell (LossReason (te_Code tick) pnlRate (tr_LossPct rule))]
                     else [])))"

fun rule_loop ::
    "(rat \<Rightarrow> int) \<Rightarrow> theme_strategy \<Rightarrow> market_view \<Rightarrow> tick_event \<Rightarrow> theme_rule list \<Rightarrow>
      trade_signal list option" where
  "rule_loop impl s v tick [] = Some []"
| "rule_loop impl s v tick (rule # rules) =
     (if \<not> isStockInTheme (th_themes s) (tr_ThemeName rule) (te_Code tick) then
        rule_loop impl s v tick rules
      else if \<not> checkAllConditions impl s (mv_prices v) rule then rule_loop impl s v tick rules
      else case generateBuySignals s v rule of
             None \<Rightarrow> None
           | Some buys \<Rightarrow> map_option ((@) buys) (rule_loop impl s v tick rules))"

definition theme_OnTick ::
    "(rat \<Rightarrow> int) \<Rightarrow> theme_strategy \<Rightarrow> market_view \<Rightarrow> tick_event \<Rightarrow> trade_signal list option" where
  "theme_OnTick impl s v tick =
     map_option (\<lambda>signals. signals @ checkExitConditions impl s v tick)
       (rule_loop impl s v tick (th_rules s))"

definition theme_OnExec :: "theme_strategy \<Rightarrow> exec_event \<Rightarrow> trade_signal list" where
  "theme_OnExec s x = []"

definition default_rule :: "string \<Rightarrow> theme_rule" where
  "default_rule name = \<lparr>tr_ThemeName = name,
     tr_Conditions = [\<lparr>rc_Rank = 1, rc_MinPct = 8\<rparr>, \<lparr>rc_Rank = 2, rc_MinPct = 5\<rparr>,
       \<lparr>rc_Rank = 3, rc_MinPct = 4\<rparr>],
     tr_BuyTargets = [\<lparr>bt_Rank = 1, bt_BuyAmount = 1000000\<rparr>],
     tr_ProfitPct = 2, tr_LossPct = 3 / 2\<rparr>"

definition buildDefaultRules :: "theme_group list \<Rightarrow> theme_rule list" where
  "buildDefaultRules themes =
     map (\<lambda>theme. default_rule (tg_Name theme)) (filter (\<lambda>theme. \<not> length (tg_Stocks theme) < 2) themes)"

text \<open>\<open>NewThemeStrategy\<close> after the file has been read and decoded (\<open>loadThemeFile\<close>):
  \<open>Inl\<close> stands for its errors.\<close>

definition loadThemeFile :: "'e + theme_group list \<Rightarrow> 'e option + theme_group list" where
  "loadThemeFile file =
     (case file of
        Inl e \<Rightarrow> Inl (Some e)
      | Inr themes \<Rightarrow> if themes = [] then Inl None else Inr themes)"

definition NewThemeStrategy :: "'e + theme_group list \<Rightarrow> 'e option + theme_strategy" where
  "NewThemeStrategy file =
     (case loadThemeFile file of
        Inl e \<Rightarrow> Inl e
      | Inr themes \<Rightarrow> Inr \<lparr>th_themes = themes, th_rules = buildDefaultRules themes\<rparr>)"

section \<open>What the loops compute\<close>

text \<open>A condition holds when its stock exists, has a price and has risen enough.\<close>

definition condition_holds ::
    "(rat \<Rightarrow> int) \<Rightarrow> theme_group list \<Rightarrow> price_store \<Rightarrow> string \<Rightarrow> rank_condition \<Rightarrow> bool" where
  "condition_holds impl themes prices name cond \<longleftrightarrow>
     (\<exists>stock snap. findStock themes name (rc_Rank cond) = Some stock \<and>
        ps_Get prices (tk_Code stock) = Some snap \<and> pctToRate impl (rc_MinPct cond) \<le> sn_ChangeRate snap)"

lemma check_conditions_iff:
  "check_conditions impl themes prices name conds \<longleftrightarrow>
    (\<forall>cond\<in>set conds. condition_holds impl themes prices name cond)"
  by (induction conds) (auto simp: condition_holds_def split: option.splits)

lemma condition_rates_total:
  "check_conditions impl themes prices name conds \<Longrightarrow>
    \<exists>rates. condition_rates themes prices name conds = Some rates"
  by (induction conds) (auto split: option.splits if_splits)

lemma buy_loop_mem:
  "buy_loop s v rule ts = Some sigs \<Longrightarrow> sig \<in> set sigs \<Longrightarrow>
    \<exists>target\<in>set ts. buy_signal s v rule target = Some (Some sig)"
  by (induction ts arbitrary: sigs) (auto split: option.splits)

lemma rule_loop_mem:
  "rule_loop impl s v tick rules = Some sigs \<Longrightarrow> sig \<in> set sigs \<Longrightarrow>
    \<exists>rule\<in>set rules. isStockInTheme (th_themes s) (tr_ThemeName rule) (te_Code tick) \<and>
      checkAllConditions impl s (mv_prices v) rule \<and>
      (\<exists>target\<in>set (tr_BuyTargets rule). buy_signal s v rule target = Some (Some sig))"
proof (induction rules arbitrary: sigs)
  case (Cons rule rules)
  show ?case
  proof (cases "isStockInTheme (th_themes s) (tr_ThemeName rule) (te_Code tick) \<and>
      checkAllConditions impl s (mv_prices v) rule")
    case True
    with Cons.prems(1) obtain buys rest
      where b: "buy_loop s v rule (tr_BuyTargets rule) = Some buys"
        and r: "rule_loop impl s v tick rules = Some rest" and sigs: "sigs = buys @ rest"
      by (auto simp: generateBuySignals_def split: option.splits)
    show ?thesis
    proof (cases "sig \<in> set buys")
      case in_buys: True
      with buy_loop_mem [OF b] True show ?thesis by auto
    next
      case False
      with Cons.prems(2) sigs have "sig \<in> set rest" by simp
      from Cons.IH [OF r this] show ?thesis by auto
    qed
  next
    case False
    with Cons.prems(1) have "rule_loop impl s v tick rules = Some sigs"
      by (auto split: if_splits)
    from Cons.IH [OF this Cons.prems(2)] show ?thesis by auto
  qed
qed simp

lemma buy_loop_total:
  assumes "checkAllConditions impl s (mv_prices v) rule"
  shows "\<exists>sigs. buy_loop s v rule ts = Some sigs"
proof -
  obtain rates where "condition_rates (th_themes s) (mv_prices v) (tr_ThemeName rule) (tr_Conditions rule)
      = Some rates"
    using condition_rates_total assms unfolding checkAllConditions_def by blast
  then have "buy_signal s v rule target \<noteq> None" for target
    by (auto simp: buy_signal_def buildBuyReason_def Let_def split: option.splits)
  then show ?thesis by (induction ts) (auto split: option.splits)
qed

lemma rule_loop_total: "\<exists>sigs. rule_loop impl s v tick rules = Some sigs"
proof (induction rules)
  case (Cons rule rules)
  then show ?case
    using buy_loop_total [of impl s v rule "tr_BuyTargets rule"]
    by (auto simp: generateBuySignals_def split: option.splits)
qed simp

lemma OnTick_total: "\<exists>sigs. theme_OnTick impl s v tick = Some sigs"
  using rule_loop_total [of impl s v tick "th_rules s"] by (auto simp: theme_OnTick_def)

lemma exit_Sell: "sig \<in> set (checkExitConditions impl s v tick) \<Longrightarrow> ts_Side sig = Sell"
  by (auto simp: checkExitConditions_def Let_def split: option.splits prod.splits if_splits)

lemma OnTick_buy:
  assumes "theme_OnTick impl s v tick = Some sigs" and "sig \<in> set sigs" and "ts_Side sig = Buy"
  obtains rule target where "rule \<in> set (th_rules s)" and "target \<in> set (tr_BuyTargets rule)"
    and "isStockInTheme (th_themes s) (tr_ThemeName rule) (te_Code tick)"
    and "checkAllConditions impl s (mv_prices v) rule"
    and "buy_signal s v rule target = Some (Some sig)"
proof -
  obtain buys where b: "rule_loop impl s v tick (th_rules s) = Some buys"
    and "sigs = buys @ checkExitConditions impl s v tick"
    using assms(1) by (auto simp: theme_OnTick_def)
  with assms(2,3) exit_Sell [of sig impl s v tick] have "sig \<in> set buys" by auto
  from rule_loop_mem [OF b this] that show thesis by blast
qed

lemma buy_signal_Some:
  assumes "buy_signal s v rule target = Some (Some sig)"
  obtains stock snap where "findStock (th_themes s) (tr_ThemeName rule) (bt_Rank target) = Some stock"
    and "\<not> (\<exists>h\<in>set_option (bm_GetHolding (mv_holdingKeys v (tk_Code stock)) (mv_balances v) []
          (tk_Code stock)). hs_Quantity h > 0)"
    and "\<not> ot_HasOpenOrder (mv_orderKeys v (tk_Code stock)) (mv_orders v) [] (tk_Code stock)"
    and "ps_Get (mv_prices v) (tk_Code stock) = Some snap" and "0 < sn_Price snap"
    and "0 < quot64 (bt_BuyAmount target) (sn_Price snap)"
    and "ts_AccountID sig = [] \<and> ts_Code sig = tk_Code stock \<and> ts_Side sig = Buy \<and> ts_Type sig = Limit \<and>
      ts_Quantity sig = quot64 (bt_BuyAmount target) (sn_Price snap) \<and> ts_Price sig = sn_Price snap"
  using assms
  by (auto simp: buy_signal_def Let_def not_le split: option.splits if_splits)

text \<open>What justifies a buy of a target of a rule.\<close>

definition no_open_order :: "tracker \<Rightarrow> string \<Rightarrow> bool" where
  "no_open_order t code \<longleftrightarrow> (\<forall>oid ord. t oid = Some ord \<and> to_Code ord = code \<longrightarrow> isTerminal (to_Status ord))"

text \<open>An account holds the issue only where the check can miss it: the check takes the first
  account that has an entry for the issue, and such an entry may have no quantity.\<close>

definition held_only_hidden :: "balance_mgr \<Rightarrow> string \<Rightarrow> bool" where
  "held_only_hidden m code \<longleftrightarrow>
     (\<forall>a acct h. m a = Some acct \<and> ab_Holdings acct code = Some h \<and> 0 < hs_Quantity h \<longrightarrow>
       (\<exists>a' acct' h'. a' \<noteq> a \<and> m a' = Some acct' \<and> ab_Holdings acct' code = Some h' \<and> hs_Quantity h' \<le> 0))"

definition buy_justified ::
    "(rat \<Rightarrow> int) \<Rightarrow> theme_strategy \<Rightarrow> market_view \<Rightarrow> tick_event \<Rightarrow> theme_rule \<Rightarrow> buy_target \<Rightarrow>
      trade_signal \<Rightarrow> bool" where
  "buy_justified impl s v tick rule target sig \<longleftrightarrow>
     isStockInTheme (th_themes s) (tr_ThemeName rule) (te_Code tick) \<and>
     (\<forall>cond\<in>set (tr_Conditions rule).
       condition_holds impl (th_themes s) (mv_prices v) (tr_ThemeName rule) cond) \<and>
     (\<exists>stock snap. findStock (th_themes s) (tr_ThemeName rule) (bt_Rank target) = Some stock \<and>
       ps_Get (mv_prices v) (tk_Code stock) = Some snap \<and>
       ts_Code sig = tk_Code stock \<and> ts_Price sig = sn_Price snap) \<and>
     ts_Type sig = Limit \<and> 0 < ts_Quantity sig \<and>
     ts_Quantity sig * ts_Price sig \<le> bt_BuyAmount target \<and>
     bt_BuyAmount target < (ts_Quantity sig + 1) * ts_Price sig \<and>
     no_open_order (mv_orders v) (ts_Code sig) \<and>
     held_only_hidden (mv_balances v) (ts_Code sig)"

lemma no_open_order_iff:
  "range_order ks t \<Longrightarrow> no_open_order t code \<longleftrightarrow> \<not> ot_HasOpenOrder ks t [] code"
  by (auto simp: no_open_order_def ot_HasOpenOrder_iff)

lemma GetHolding_hidden:
  assumes "range_order ks m"
    and "\<not> (\<exists>h\<in>set_option (bm_GetHolding ks m [] code). hs_Quantity h > 0)"
  shows "held_only_hidden m code"
proof (cases "range_find ks m (\<lambda>_ acct. ab_Holdings acct code \<noteq> None)")
  case None
  then show ?thesis by (auto simp: range_find_None_order [OF assms(1)] held_only_hidden_def)
next
  case (Some p)
  obtain a acct where p: "p = (a, acct)" by (cases p)
  with range_find_Some [of ks m] Some obtain h where h: "m a = Some acct" "ab_Holdings acct code = Some h"
    by blast
  have q: "hs_Quantity h \<le> 0" using assms(2) Some p h(2) by (simp add: bm_GetHolding_def not_less)
  have "a \<noteq> a'" if "m a' = Some acct'" "ab_Holdings acct' code = Some h'" "0 < hs_Quantity h'" for a' acct' h'
    using that h q by auto
  with h q show ?thesis unfolding held_only_hidden_def by blast
qed

lemma buy_signal_justified:
  assumes "buy_signal s v rule target = Some (Some sig)"
    and "isStockInTheme (th_themes s) (tr_ThemeName rule) (te_Code tick)"
    and "checkAllConditions impl s (mv_prices v) rule" and "in64 (bt_BuyAmount target)"
    and ord: "\<forall>c. range_order (mv_orderKeys v c) (mv_orders v)"
    and bal: "\<forall>c. range_order (mv_holdingKeys v c) (mv_balances v)"
  shows "buy_justified impl s v tick rule target sig"
  using assms(1)
proof (rule buy_signal_Some)
  fix stock snap
  assume a: "findStock (th_themes s) (tr_ThemeName rule) (bt_Rank target) = Some stock"
    "ps_Get (mv_prices v) (tk_Code stock) = Some snap" "0 < sn_Price snap"
    "0 < quot64 (bt_BuyAmount target) (sn_Price snap)"
    "ts_AccountID sig = [] \<and> ts_Code sig = tk_Code stock \<and> ts_Side sig = Buy \<and> ts_Type sig = Limit \<and>
      ts_Quantity sig = quot64 (bt_BuyAmount target) (sn_Price snap) \<and> ts_Price sig = sn_Price snap"
    and h: "\<not> (\<exists>h\<in>set_option (bm_GetHolding (mv_holdingKeys v (tk_Code stock)) (mv_balances v) []
        (tk_Code stock)). hs_Quantity h > 0)"
    and o: "\<not> ot_HasOpenOrder (mv_orderKeys v (tk_Code stock)) (mv_orders v) [] (tk_Code stock)"
  have "no_open_order (mv_orders v) (tk_Code stock)"
    using no_open_order_iff ord o by blast
  moreover have "held_only_hidden (mv_balances v) (tk_Code stock)"
    using GetHolding_hidden bal h by blast
  ultimately show ?thesis
    using a assms(2,3) quot64_pos [OF a(4,3) assms(4)]
    by (simp add: buy_justified_def checkAllConditions_def check_conditions_iff)
qed

section \<open>Exits\<close>

lemma pctToRate_int:
  assumes "\<bar>n\<bar> < 9007199254740992" and "pct * 10000 = of_int n"
  shows "pctToRate impl pct = n"
proof -
  have "fl_mult pct (of_int RateScale) = of_int n"
    using fl64_int [OF assms(1)] assms(2) by (simp add: fl_mult_def)
  moreover have "in64 n" using assms(1) by (auto simp: in64_def abs_less_iff)
  ultimately show ?thesis by (simp add: pctToRate_def)
qed

lemma pctToRate_default: "pctToRate impl 2 = 20000" "pctToRate impl (3 / 2) = 15000"
  by (rule pctToRate_int; simp)+

lemma findRule_default:
  assumes "NewThemeStrategy file = Inr s" and "findRuleForTarget s code = Some rule"
  shows "tr_ProfitPct rule = 2" and "tr_LossPct rule = 3 / 2"
proof -
  from assms(2) have "rule \<in> set (th_rules s)"
    unfolding findRuleForTarget_def by (auto simp: find_Some_iff)
  then show "tr_ProfitPct rule = 2" and "tr_LossPct rule = 3 / 2"
    using assms(1)
    by (auto simp: NewThemeStrategy_def buildDefaultRules_def default_rule_def split: sum.splits)
qed

text \<open>The return of a position as the code computes it, without overflow: the price gain over
  the cost, times 10000.\<close>

lemma pnl_rate_bounds:
  assumes "0 < avg" "avg < 562949953421312" "0 \<le> price" "price < 562949953421312"
  shows "- 10000 \<le> pnl_rate price avg" and "20000 \<le> pnl_rate price avg \<longleftrightarrow> 3 * avg \<le> price"
proof -
  have in1: "in64 (price - avg)" and in2: "in64 ((price - avg) * 10000)"
    using assms by (simp_all add: in64_def)
  then have p: "pnl_rate price avg = quot64 ((price - avg) * 10000) avg" by (simp add: pnl_rate_def)
  show "- 10000 \<le> pnl_rate price avg"
  proof (cases "avg \<le> price")
    case True
    then have "0 \<le> (price - avg) * 10000 div avg"
      using assms(1) by (simp add: pos_imp_zdiv_nonneg_iff)
    with True assms(1) in2 p show ?thesis by (simp add: quot64_nonneg)
  next
    case False
    have "- ((price - avg) * 10000) div avg \<le> 10000 * avg div avg"
      using assms(1,3) by (intro zdiv_mono1) simp_all
    also have "\<dots> = 10000" using assms(1) by simp
    finally show ?thesis using False assms(1) in2 p by (simp add: quot64_nonpos)
  qed
  show "20000 \<le> pnl_rate price avg \<longleftrightarrow> 3 * avg \<le> price"
  proof (cases "avg \<le> price")
    case True
    then have "pnl_rate price avg = (price - avg) * 10000 div avg"
      using assms(1) in2 p by (simp add: quot64_nonneg)
    moreover have "20000 \<le> (price - avg) * 10000 div avg \<longleftrightarrow> 20000 * avg \<le> (price - avg) * 10000"
      using assms(1) zdiv_ge_iff by blast
    ultimately show ?thesis by auto
  next
    case False
    then have "0 \<le> - ((price - avg) * 10000) div avg" using assms(1) by (simp add: pos_imp_zdiv_nonneg_iff)
    with False assms(1) in2 p show ?thesis by (simp add: quot64_nonpos)
  qed
qed

text \<open>Reaching a threshold of \<open>n\<close> ten-thousandths, in exact arithmetic.\<close>

lemma pnl_rate_threshold:
  assumes "0 < avg" "avg < 562949953421312" "0 \<le> price" "price < 562949953421312" "0 < n"
  shows "n \<le> pnl_rate price avg \<longleftrightarrow> n * avg \<le> (price - avg) * 10000"
    and "pnl_rate price avg \<le> - n \<longleftrightarrow> n * avg \<le> (avg - price) * 10000"
proof -
  have in1: "in64 (price - avg)" and in2: "in64 ((price - avg) * 10000)"
    using assms(1-4) by (simp_all add: in64_def)
  then have p: "pnl_rate price avg = quot64 ((price - avg) * 10000) avg" by (simp add: pnl_rate_def)
  have na: "0 < n * avg" using assms(1,5) by simp
  show "n \<le> pnl_rate price avg \<longleftrightarrow> n * avg \<le> (price - avg) * 10000"
  proof (cases "avg \<le> price")
    case True
    then have "pnl_rate price avg = (price - avg) * 10000 div avg"
      using assms(1) in2 p by (simp add: quot64_nonneg)
    with zdiv_ge_iff [OF assms(1)] show ?thesis by simp
  next
    case False
    then have "0 \<le> - ((price - avg) * 10000) div avg" using assms(1) by (simp add: pos_imp_zdiv_nonneg_iff)
    moreover have "pnl_rate price avg = - (- ((price - avg) * 10000) div avg)"
      using False assms(1) in2 p by (simp add: quot64_nonpos)
    ultimately have "\<not> n \<le> pnl_rate price avg" using assms(5) by linarith
    moreover have "(price - avg) * 10000 < 0" using False by simp
    then have "\<not> n * avg \<le> (price - avg) * 10000" using na by (meson less_le_trans not_less_iff_gr_or_eq)
    ultimately show ?thesis by blast
  qed
  show "pnl_rate price avg \<le> - n \<longleftrightarrow> n * avg \<le> (avg - price) * 10000"
  proof (cases "avg \<le> price")
    case True
    then have "0 \<le> pnl_rate price avg"
      using assms(1) in2 p by (simp add: quot64_nonneg pos_imp_zdiv_nonneg_iff)
    with assms(5) have "\<not> pnl_rate price avg \<le> - n" by linarith
    moreover have "(avg - price) * 10000 \<le> 0" using True by simp
    then have "\<not> n * avg \<le> (avg - price) * 10000" using na by (meson less_le_trans not_le)
    ultimately show ?thesis by blast
  next
    case False
    then have "pnl_rate price avg = - ((avg - price) * 10000 div avg)"
      using assms(1) in2 p by (simp add: quot64_nonpos)
    with zdiv_ge_iff [OF assms(1), of n "(avg - price) * 10000"] show ?thesis by linarith
  qed
qed

lemma exit_threshold:
  assumes "\<exists>n > 0. n < 9007199254740992 \<and> pr * 10000 = of_int n"
    and "\<exists>n > 0. n < 9007199254740992 \<and> ls * 10000 = of_int n"
    and "0 < avg" "avg < 562949953421312" "0 \<le> price" "price < 562949953421312"
    and "pctToRate impl pr \<le> pnl_rate price avg \<or> pnl_rate price avg \<le> wrap64 (- pctToRate impl ls)"
  shows "pr * of_int avg \<le> of_int (price - avg) \<or> ls * of_int avg \<le> of_int (avg - price)"
proof -
  obtain n m where n: "0 < n" "n < 9007199254740992" "pr * 10000 = of_int n"
    and m: "0 < m" "m < 9007199254740992" "ls * 10000 = of_int m" using assms(1,2) by blast
  have "pctToRate impl pr = n" "pctToRate impl ls = m"
    using n m by (auto intro: pctToRate_int)
  moreover have "wrap64 (- m) = - m" using m by (simp add: in64_def)
  ultimately have "n * avg \<le> (price - avg) * 10000 \<or> m * avg \<le> (avg - price) * 10000"
    using assms(7) pnl_rate_threshold [OF assms(3-6)] n(1) m(1) by metis
  moreover have "r * of_int avg \<le> of_int d" if "r * 10000 = of_int k" "k * avg \<le> d * 10000" for r :: rat and k d
  proof -
    have "rat_of_int (k * avg) \<le> of_int (d * 10000)" using that(2) by (simp only: of_int_le_iff)
    then have "10000 * (r * of_int avg) \<le> 10000 * of_int d" by (simp add: that(1) [symmetric] mult_ac)
    then show ?thesis by simp
  qed
  ultimately show ?thesis using n(3) m(3) by blast
qed

section \<open>A sample market\<close>

text \<open>A theme of three stocks, its default rule, and a market in which the conditions of
  the rule hold; in \<open>sample_held\<close> the leader is held at a third of its price.\<close>

definition sample_themes :: "theme_group list" where
  "sample_themes = [\<lparr>tg_Name = ''T'', tg_Stocks =
     [\<lparr>tk_Rank = 1, tk_Code = ''A'', tk_Name = ''a''\<rparr>, \<lparr>tk_Rank = 2, tk_Code = ''B'', tk_Name = ''b''\<rparr>,
      \<lparr>tk_Rank = 3, tk_Code = ''C'', tk_Name = ''c''\<rparr>]\<rparr>]"

definition sample_strategy :: theme_strategy where
  "sample_strategy = \<lparr>th_themes = sample_themes, th_rules = buildDefaultRules sample_themes\<rparr>"

definition sample_tick :: "string \<Rightarrow> int \<Rightarrow> tick_event" where
  "sample_tick code rate = \<lparr>te_AccountID = [], te_Broker = [], te_Code = code, te_Price = 3000,
     te_Volume = 1, te_AccVolume = 1, te_Change = 0, te_ChangeRate = rate, te_TradeTime = [],
     te_ReceivedAt = 0\<rparr>"

definition sample_prices :: price_store where
  "sample_prices = fold (\<lambda>t s. ps_Update s t)
     [sample_tick ''A'' 80000, sample_tick ''B'' 50000, sample_tick ''C'' 40000] ps_New"

definition sample_view :: market_view where
  "sample_view = \<lparr>mv_prices = sample_prices, mv_orders = ot_New, mv_balances = bm_New,
     mv_holdingKeys = (\<lambda>_. []), mv_orderKeys = (\<lambda>_. []), mv_findKeys = []\<rparr>"

definition sample_held :: market_view where
  "sample_held = sample_view\<lparr>mv_balances := [''acct'' \<mapsto> \<lparr>ab_AccountID = ''acct'', ab_CashBalance = 0,
     ab_TotalAsset = 0, ab_Holdings = [''A'' \<mapsto> \<lparr>hs_Code = ''A'', hs_Name = [], hs_Quantity = 5,
     hs_AvgCost = 1000\<rparr>], ab_BaselineAt = 0\<rparr>], mv_findKeys := [''acct''],
     mv_holdingKeys := (\<lambda>_. [''acct''])\<rparr>"

lemmas sample_defs = sample_themes_def sample_strategy_def sample_tick_def sample_prices_def
  sample_view_def sample_held_def buildDefaultRules_def default_rule_def

lemma pctToRate_conditions: "pctToRate impl 8 = 80000" "pctToRate impl 5 = 50000" "pctToRate impl 4 = 40000"
  by (rule pctToRate_int; simp)+

lemma sample_buys:
  "theme_OnTick impl sample_strategy sample_view (sample_tick ''B'' 50000) =
    Some [\<lparr>ts_AccountID = [], ts_Code = ''A'', ts_Side = Buy, ts_Type = Limit, ts_Quantity = 333,
      ts_Price = 3000, ts_Reason = BuyReason ''T'' [(1, 80000), (2, 50000), (3, 40000)] ''a'' 1\<rparr>]"
  by (simp add: sample_defs theme_OnTick_def generateBuySignals_def checkAllConditions_def
      buy_signal_def buildBuyReason_def checkExitConditions_def findRuleForTarget_def
      bm_GetHolding_def bm_FindHoldingWithAccount_def ot_HasOpenOrder_def
      pctToRate_conditions ps_Get_def ps_Update_def ps_New_def snapshot_of_def quot64_def in64_def
      List.map_filter_def)

section \<open>Properties\<close>

text \<open>C8. Soundness of a buy: \<open>OnTick\<close> never panics, and a buy signal it returns comes from
  a rule of a theme that contains the issue of the tick, all of whose conditions hold in
  the price store; it is a limit order at the stored price of the target stock, for the
  largest quantity the amount of the target pays for, and at least one; no tracked order of any
  account for that stock is open. Of the holdings it can only be said that an account
  holds the stock at most when another account has an entry for it without quantity: the
  check looks at one entry only, so the comment that a held issue is not bought again does
  not hold with several accounts (\<open>theme_buys_held\<close>).\<close>

theorem theme_buy_sound:
  assumes "\<forall>c. range_order (mv_orderKeys v c) (mv_orders v)"
    and "\<forall>c. range_order (mv_holdingKeys v c) (mv_balances v)"
    and "\<forall>rule\<in>set (th_rules s). \<forall>target\<in>set (tr_BuyTargets rule). in64 (bt_BuyAmount target)"
  shows "\<exists>sigs. theme_OnTick impl s v tick = Some sigs \<and>
    (\<forall>sig\<in>set sigs. ts_Side sig = Buy \<longrightarrow>
      (\<exists>rule\<in>set (th_rules s). \<exists>target\<in>set (tr_BuyTargets rule).
        buy_justified impl s v tick rule target sig))"
proof -
  obtain sigs where sigs: "theme_OnTick impl s v tick = Some sigs"
    using OnTick_total by blast
  have "\<exists>rule\<in>set (th_rules s). \<exists>target\<in>set (tr_BuyTargets rule).
      buy_justified impl s v tick rule target sig"
    if "sig \<in> set sigs" "ts_Side sig = Buy" for sig
    using sigs that
  proof (rule OnTick_buy)
    fix rule target
    assume "rule \<in> set (th_rules s)" "target \<in> set (tr_BuyTargets rule)"
      "isStockInTheme (th_themes s) (tr_ThemeName rule) (te_Code tick)"
      "checkAllConditions impl s (mv_prices v) rule" "buy_signal s v rule target = Some (Some sig)"
    with assms show ?thesis by (blast intro: buy_signal_justified)
  qed
  with sigs show ?thesis by blast
qed

text \<open>A market in which the account ''x'' has an entry for the issue without quantity, as a
  broker reports it after everything was sold, and the account ''y'' has a given quantity.\<close>

definition two_accounts :: "string list \<Rightarrow> int \<Rightarrow> market_view" where
  "two_accounts ks qty = sample_view\<lparr>mv_balances :=
     [''x'' \<mapsto> \<lparr>ab_AccountID = ''x'', ab_CashBalance = 0, ab_TotalAsset = 0, ab_Holdings =
        [''A'' \<mapsto> \<lparr>hs_Code = ''A'', hs_Name = [], hs_Quantity = 0, hs_AvgCost = 0\<rparr>], ab_BaselineAt = 0\<rparr>,
      ''y'' \<mapsto> \<lparr>ab_AccountID = ''y'', ab_CashBalance = 0, ab_TotalAsset = 0, ab_Holdings =
        [''A'' \<mapsto> \<lparr>hs_Code = ''A'', hs_Name = [], hs_Quantity = qty, hs_AvgCost = 2990\<rparr>], ab_BaselineAt = 0\<rparr>],
     mv_findKeys := ks, mv_holdingKeys := (\<lambda>_. ks)\<rparr>"

definition sample_buy :: trade_signal where
  "sample_buy = \<lparr>ts_AccountID = [], ts_Code = ''A'', ts_Side = Buy, ts_Type = Limit, ts_Quantity = 333,
     ts_Price = 3000, ts_Reason = BuyReason ''T'' [(1, 80000), (2, 50000), (3, 40000)] ''a'' 1\<rparr>"

lemma two_accounts_buys:
  "theme_OnTick impl sample_strategy (two_accounts [''x'', ''y''] qty) (sample_tick ''B'' 50000) = Some [sample_buy]"
  by (simp add: sample_defs two_accounts_def sample_buy_def theme_OnTick_def generateBuySignals_def checkAllConditions_def
      buy_signal_def buildBuyReason_def checkExitConditions_def findRuleForTarget_def
      bm_GetHolding_def bm_FindHoldingWithAccount_def ot_HasOpenOrder_def ot_New_def
      pctToRate_conditions ps_Get_def ps_Update_def ps_New_def snapshot_of_def quot64_def in64_def
      List.map_filter_def)

theorem theme_buy_sound_witness:
  "\<exists>rule\<in>set (th_rules sample_strategy). \<exists>target\<in>set (tr_BuyTargets rule).
    buy_justified (\<lambda>_. 0) sample_strategy (two_accounts [''x'', ''y''] 5) (sample_tick ''B'' 50000) rule target sample_buy"
proof -
  let ?v = "two_accounts [''x'', ''y''] 5"
  have o: "\<forall>c. range_order (mv_orderKeys ?v c) (mv_orders ?v)"
    and h: "\<forall>c. range_order (mv_holdingKeys ?v c) (mv_balances ?v)"
    by (auto simp: range_order_def two_accounts_def sample_view_def ot_New_def)
  have a: "\<forall>rule\<in>set (th_rules sample_strategy). \<forall>target\<in>set (tr_BuyTargets rule).
      in64 (bt_BuyAmount target)"
    by (simp add: sample_strategy_def sample_themes_def buildDefaultRules_def default_rule_def in64_def)
  have "ts_Side sample_buy = Buy" by (simp add: sample_buy_def)
  with theme_buy_sound [OF o h a, of "\<lambda>_. 0" "sample_tick ''B'' 50000"]
  show ?thesis unfolding two_accounts_buys by simp
qed

text \<open>A held issue is bought again: with the same balances and the same tick, the strategy
  buys or does not buy an issue that the account ''y'' holds, as the map iteration meets
  the empty entry of ''x'' or the holding of ''y'' first.\<close>

theorem theme_buys_held:
  assumes "0 < qty"
  shows "theme_OnTick impl sample_strategy (two_accounts [''x'', ''y''] qty) (sample_tick ''B'' 50000) = Some [sample_buy] \<and>
    theme_OnTick impl sample_strategy (two_accounts [''y'', ''x''] qty) (sample_tick ''B'' 50000) = Some [] \<and>
    bm_GetHolding [] (mv_balances (two_accounts [''x'', ''y''] qty)) ''y'' (ts_Code sample_buy) =
      Some \<lparr>hs_Code = ''A'', hs_Name = [], hs_Quantity = qty, hs_AvgCost = 2990\<rparr>"
  using two_accounts_buys assms
  by (simp add: sample_defs two_accounts_def sample_buy_def theme_OnTick_def generateBuySignals_def checkAllConditions_def
      buy_signal_def checkExitConditions_def findRuleForTarget_def bm_GetHolding_def
      pctToRate_conditions ps_Get_def ps_Update_def ps_New_def snapshot_of_def List.map_filter_def)

theorem theme_buys_held_witness:
  "theme_OnTick (\<lambda>_. 0) sample_strategy (two_accounts [''y'', ''x''] 5) (sample_tick ''B'' 50000) = Some []"
  using theme_buys_held [of 5 "\<lambda>_. 0"] by simp

text \<open>C9. Soundness of an exit, in exact arithmetic: a sell signal of \<open>OnTick\<close> is a market order
  for the whole quantity that the account it names holds of the issue of the tick, and the price
  has risen above the average cost by at least the profit threshold of the rule, or fallen below it
  by at least the loss threshold, both taken as a multiple of the cost. This is a hundred times
  what the comments promise, a threshold of 2 meaning 200 percent and not 2 percent; for the rules
  that \<open>NewThemeStrategy\<close> builds, a position is sold only at three times its cost and never
  to stop a loss (\<open>theme_exit_scale\<close>). Prices and costs are below \<open>2 ^ 49\<close>, thresholds have at most
  four decimals.\<close>

theorem theme_exit_sound:
  assumes "theme_OnTick impl s v tick = Some sigs" and "sig \<in> set sigs" and "ts_Side sig = Sell"
    and "\<forall>rule\<in>set (th_rules s). \<exists>n > 0. n < 9007199254740992 \<and> tr_ProfitPct rule * 10000 = of_int n"
    and "\<forall>rule\<in>set (th_rules s). \<exists>n > 0. n < 9007199254740992 \<and> tr_LossPct rule * 10000 = of_int n"
    and "\<forall>a acct h. mv_balances v a = Some acct \<and> ab_Holdings acct (te_Code tick) = Some h \<longrightarrow>
      hs_AvgCost h < 562949953421312"
    and "0 \<le> te_Price tick" and "te_Price tick < 562949953421312"
  shows "\<exists>rule acct h. findRuleForTarget s (te_Code tick) = Some rule \<and>
    mv_balances v (ts_AccountID sig) = Some acct \<and> ab_Holdings acct (te_Code tick) = Some h \<and>
    ts_Code sig = te_Code tick \<and> ts_Type sig = Market \<and> ts_Quantity sig = hs_Quantity h \<and>
    0 < hs_Quantity h \<and> 0 < hs_AvgCost h \<and>
    (tr_ProfitPct rule * of_int (hs_AvgCost h) \<le> of_int (te_Price tick - hs_AvgCost h) \<or>
     tr_LossPct rule * of_int (hs_AvgCost h) \<le> of_int (hs_AvgCost h - te_Price tick)) \<and>
    (th_rules s = buildDefaultRules (th_themes s) \<longrightarrow> 3 * hs_AvgCost h \<le> te_Price tick)"
proof -
  obtain buys where b: "rule_loop impl s v tick (th_rules s) = Some buys"
    and sigs: "sigs = buys @ checkExitConditions impl s v tick"
    using assms(1) by (auto simp: theme_OnTick_def)
  have "sig \<notin> set buys"
  proof
    assume "sig \<in> set buys"
    from rule_loop_mem [OF b this] obtain rule target where "buy_signal s v rule target = Some (Some sig)"
      by blast
    then have "ts_Side sig = Buy" by (rule buy_signal_Some) simp
    with assms(3) show False by simp
  qed
  with assms(2) sigs have sig: "sig \<in> set (checkExitConditions impl s v tick)" by simp
  then obtain rule where r: "findRuleForTarget s (te_Code tick) = Some rule"
    by (cases "findRuleForTarget s (te_Code tick)") (simp_all add: checkExitConditions_def)
  obtain a h where f: "bm_FindHoldingWithAccount (mv_findKeys v) (mv_balances v) (te_Code tick) = (a, Some h)"
    using sig r by (cases "bm_FindHoldingWithAccount (mv_findKeys v) (mv_balances v) (te_Code tick)";
        cases "snd (bm_FindHoldingWithAccount (mv_findKeys v) (mv_balances v) (te_Code tick))")
      (simp_all add: checkExitConditions_def)
  then obtain acct where "mv_balances v a = Some acct" "ab_Holdings acct (te_Code tick) = Some h"
    by (auto simp: bm_FindHoldingWithAccount_def dest: range_find_Some split: option.splits)
  moreover from sig r f have "0 < hs_Quantity h \<and> 0 < hs_AvgCost h \<and> ts_AccountID sig = a \<and> ts_Code sig = te_Code tick \<and>
      ts_Type sig = Market \<and> ts_Quantity sig = hs_Quantity h \<and>
      (pctToRate impl (tr_ProfitPct rule) \<le> pnl_rate (te_Price tick) (hs_AvgCost h) \<or>
       pnl_rate (te_Price tick) (hs_AvgCost h) \<le> wrap64 (- pctToRate impl (tr_LossPct rule)))"
    by (auto simp: checkExitConditions_def Let_def split: if_splits)
  moreover have "rule \<in> set (th_rules s)"
    using r unfolding findRuleForTarget_def by (auto simp: find_Some_iff)
  ultimately have h: "mv_balances v a = Some acct" "ab_Holdings acct (te_Code tick) = Some h"
    "rule \<in> set (th_rules s)" "0 < hs_AvgCost h" and sg: "0 < hs_Quantity h" "ts_AccountID sig = a"
    "ts_Code sig = te_Code tick" "ts_Type sig = Market" "ts_Quantity sig = hs_Quantity h"
    and th: "pctToRate impl (tr_ProfitPct rule) \<le> pnl_rate (te_Price tick) (hs_AvgCost h) \<or>
       pnl_rate (te_Price tick) (hs_AvgCost h) \<le> wrap64 (- pctToRate impl (tr_LossPct rule))" by blast+
  have avg: "hs_AvgCost h < 562949953421312" using assms(6) h(1,2) by blast
  have "tr_ProfitPct rule * of_int (hs_AvgCost h) \<le> of_int (te_Price tick - hs_AvgCost h) \<or>
      tr_LossPct rule * of_int (hs_AvgCost h) \<le> of_int (hs_AvgCost h - te_Price tick)"
    by (rule exit_threshold [OF _ _ h(4) avg assms(7,8) th]) (use assms(4,5) h(3) in auto)
  moreover have "3 * hs_AvgCost h \<le> te_Price tick" if "th_rules s = buildDefaultRules (th_themes s)"
  proof -
    have p: "tr_ProfitPct rule = 2" "tr_LossPct rule = 3 / 2"
      using h(3) that by (auto simp: buildDefaultRules_def default_rule_def)
    have "wrap64 (- 15000) = - 15000" by (simp add: in64_def)
    with th p pnl_rate_bounds [OF h(4) avg assms(7,8)] show ?thesis by (auto simp: pctToRate_default)
  qed
  ultimately show ?thesis using r h sg by blast
qed

theorem theme_exit_sound_witness:
  "\<exists>sigs sig rule. theme_OnTick (\<lambda>_. 0) sample_strategy sample_held (sample_tick ''A'' 0) = Some sigs \<and>
    sig \<in> set sigs \<and> ts_Side sig = Sell \<and> ts_Quantity sig = 5 \<and>
    findRuleForTarget sample_strategy ''A'' = Some rule"
proof -
  obtain sigs where s: "theme_OnTick (\<lambda>_. 0) sample_strategy sample_held (sample_tick ''A'' 0) = Some sigs"
    using OnTick_total by blast
  have "ProfitReason ''A'' 20000 2 \<in>
      ts_Reason ` set (checkExitConditions (\<lambda>_. 0) sample_strategy sample_held (sample_tick ''A'' 0))"
    by (simp add: sample_defs checkExitConditions_def findRuleForTarget_def pnl_rate_def quot64_def
        bm_FindHoldingWithAccount_def pctToRate_default in64_def)
  then obtain sig where "sig \<in> set (checkExitConditions (\<lambda>_. 0) sample_strategy sample_held (sample_tick ''A'' 0))"
    by blast
  then have m: "sig \<in> set sigs" "ts_Side sig = Sell"
    using s exit_Sell by (auto simp: theme_OnTick_def)
  have rules: "\<forall>rule\<in>set (th_rules sample_strategy). \<exists>n > 0. n < 9007199254740992 \<and> tr_ProfitPct rule * 10000 = of_int n"
    "\<forall>rule\<in>set (th_rules sample_strategy). \<exists>n > 0. n < 9007199254740992 \<and> tr_LossPct rule * 10000 = of_int n"
    by (auto simp: sample_defs intro: exI [of _ 20000] exI [of _ 15000])
  have small: "\<forall>a acct h. mv_balances sample_held a = Some acct \<and>
      ab_Holdings acct (te_Code (sample_tick ''A'' 0)) = Some h \<longrightarrow> hs_AvgCost h < 562949953421312"
    by (auto simp: sample_held_def split: if_splits)
  from theme_exit_sound [OF s m rules small] obtain rule acct h
    where "findRuleForTarget sample_strategy ''A'' = Some rule"
      and a: "mv_balances sample_held (ts_AccountID sig) = Some acct" "ab_Holdings acct ''A'' = Some h"
      and q: "ts_Quantity sig = hs_Quantity h"
    by (auto simp: sample_tick_def)
  moreover have "hs_Quantity h = 5" using a by (auto simp: sample_held_def split: if_splits)
  ultimately show ?thesis using s m q by metis
qed

text \<open>The exit thresholds of the default rules are off by a factor of 100: the return is
  computed with 2 percent as 200, the threshold with 2 percent as 20000. So with the
  rules of \<open>NewThemeStrategy\<close> a position is sold only once its price has reached three
  times its cost, and the stop loss never fires, whatever the price is.\<close>

theorem theme_exit_scale:
  assumes "NewThemeStrategy file = Inr s" and "findRuleForTarget s (te_Code tick) = Some rule"
    and "bm_FindHoldingWithAccount (mv_findKeys v) (mv_balances v) (te_Code tick) = (a, Some h)"
    and "0 < hs_Quantity h" and "0 < hs_AvgCost h" "hs_AvgCost h < 562949953421312"
    and "0 \<le> te_Price tick" "te_Price tick < 562949953421312"
  shows "checkExitConditions impl s v tick =
    (if 3 * hs_AvgCost h \<le> te_Price tick
     then [\<lparr>ts_AccountID = a, ts_Code = te_Code tick, ts_Side = Sell, ts_Type = Market,
       ts_Quantity = hs_Quantity h, ts_Price = 0,
       ts_Reason = ProfitReason (te_Code tick) (pnl_rate (te_Price tick) (hs_AvgCost h)) 2\<rparr>]
     else [])"
proof -
  have "wrap64 (- 15000) = - 15000" by (simp add: in64_def)
  moreover have "\<not> pnl_rate (te_Price tick) (hs_AvgCost h) \<le> - 15000"
    using pnl_rate_bounds(1) [OF assms(5-8)] by linarith
  ultimately show ?thesis
    using assms(2-5) pnl_rate_bounds(2) [OF assms(5-8)]
    by (simp add: checkExitConditions_def findRule_default [OF assms(1,2)] pctToRate_default)
qed

theorem theme_exit_scale_witness:
  "map ts_Quantity (checkExitConditions (\<lambda>_. 0) sample_strategy sample_held (sample_tick ''A'' 0)) = [5]"
proof -
  let ?h = "\<lparr>hs_Code = ''A'', hs_Name = [], hs_Quantity = 5, hs_AvgCost = 1000\<rparr>"
  have n: "NewThemeStrategy (Inr sample_themes :: unit + _) = Inr sample_strategy"
    by (simp add: NewThemeStrategy_def loadThemeFile_def sample_strategy_def) (simp add: sample_themes_def)
  have r: "findRuleForTarget sample_strategy (te_Code (sample_tick ''A'' 0)) = Some (default_rule ''T'')"
    by (simp add: sample_defs findRuleForTarget_def)
  have f: "bm_FindHoldingWithAccount (mv_findKeys sample_held) (mv_balances sample_held)
      (te_Code (sample_tick ''A'' 0)) = (''acct'', Some ?h)"
    by (simp add: sample_held_def sample_tick_def bm_FindHoldingWithAccount_def)
  from theme_exit_scale [OF n r f] show ?thesis by (simp add: sample_tick_def)
qed

end
