(* ===== verification/IO_Worker.thy ===== *)
theory IO_Worker
  imports Trading_Types
begin

text \<open>
  \<open>internal/core/ioworker\<close> and the copy of the worker in
  \<open>internal/core/engine/worker.go\<close>: the four buffered channels between the engine and
  the goroutine that does the blocking REST calls, and that goroutine's two handlers.

  A broker is a value of type \<open>'b\<close>; what its REST methods return is an argument of the
  handlers, as a pair of result and error like in Go (\<open>None\<close> for nil). \<open>'e\<close> is the type of
  the errors.
\<close>

section \<open>Messages and channels\<close>

record 'b refresh_request =
  rr_AccountID :: string
  rr_Broker :: 'b

record 'b action_request =
  ar_AccountID :: string
  ar_Broker :: 'b
  ar_Order :: order_request

record 'e baseline_result =
  br_AccountID :: string
  br_Balance :: "balance option"
  br_Orders :: "exch_order list option"
  br_Err :: "'e option"

record 'e action_result =
  at_AccountID :: string
  at_Response :: "order_response option"
  at_Err :: "'e option"

abbreviation defaultBuf :: nat where "defaultBuf \<equiv> 64"

record ('b, 'e) io_channels =
  io_refresh :: "'b refresh_request chan"
  io_action :: "'b action_request chan"
  io_baseline :: "'e baseline_result chan"
  io_result :: "'e action_result chan"

definition NewChannels :: "('b, 'e) io_channels" where
  "NewChannels = \<lparr>io_refresh = chan_make defaultBuf, io_action = chan_make defaultBuf,
     io_baseline = chan_make defaultBuf, io_result = chan_make defaultBuf\<rparr>"

text \<open>The sends block on a full channel: \<open>None\<close>.\<close>

definition SendRefresh ::
    "('b, 'e) io_channels \<Rightarrow> 'b refresh_request \<Rightarrow> ('b, 'e) io_channels option" where
  "SendRefresh c r = map_option (\<lambda>q. c\<lparr>io_refresh := q\<rparr>) (chan_send (io_refresh c) r)"

definition SendAction ::
    "('b, 'e) io_channels \<Rightarrow> 'b action_request \<Rightarrow> ('b, 'e) io_channels option" where
  "SendAction c a = map_option (\<lambda>q. c\<lparr>io_action := q\<rparr>) (chan_send (io_action c) a)"

definition SendBaseline ::
    "('b, 'e) io_channels \<Rightarrow> 'e baseline_result \<Rightarrow> ('b, 'e) io_channels option" where
  "SendBaseline c b = map_option (\<lambda>q. c\<lparr>io_baseline := q\<rparr>) (chan_send (io_baseline c) b)"

definition SendResult ::
    "('b, 'e) io_channels \<Rightarrow> 'e action_result \<Rightarrow> ('b, 'e) io_channels option" where
  "SendResult c r = map_option (\<lambda>q. c\<lparr>io_result := q\<rparr>) (chan_send (io_result c) r)"

definition recv_Refreshes ::
    "('b, 'e) io_channels \<Rightarrow> ('b refresh_request \<times> ('b, 'e) io_channels) option" where
  "recv_Refreshes c = map_option (\<lambda>(r, q). (r, c\<lparr>io_refresh := q\<rparr>)) (chan_recv (io_refresh c))"

definition recv_Actions ::
    "('b, 'e) io_channels \<Rightarrow> ('b action_request \<times> ('b, 'e) io_channels) option" where
  "recv_Actions c = map_option (\<lambda>(a, q). (a, c\<lparr>io_action := q\<rparr>)) (chan_recv (io_action c))"

definition recv_Baselines ::
    "('b, 'e) io_channels \<Rightarrow> ('e baseline_result \<times> ('b, 'e) io_channels) option" where
  "recv_Baselines c = map_option (\<lambda>(b, q). (b, c\<lparr>io_baseline := q\<rparr>)) (chan_recv (io_baseline c))"

definition recv_Results ::
    "('b, 'e) io_channels \<Rightarrow> ('e action_result \<times> ('b, 'e) io_channels) option" where
  "recv_Results c = map_option (\<lambda>(r, q). (r, c\<lparr>io_result := q\<rparr>)) (chan_recv (io_result c))"

lemmas io_ops_defs = SendRefresh_def SendAction_def SendBaseline_def SendResult_def
  recv_Refreshes_def recv_Actions_def recv_Baselines_def recv_Results_def

section \<open>The worker\<close>

text \<open>\<open>handleRefresh\<close>: the result it sends, and whether the debug line after the send
  dereferences a nil balance. The open orders are only asked for when the balance came.\<close>

definition handleRefresh ::
    "'b refresh_request \<Rightarrow> balance option \<times> 'e option \<Rightarrow> exch_order list option \<times> 'e option \<Rightarrow>
      'e baseline_result \<times> bool" where
  "handleRefresh req getBalance getOpenOrders =
     (let result = \<lparr>br_AccountID = rr_AccountID req, br_Balance = None, br_Orders = None, br_Err = None\<rparr>
      in case getBalance of
           (_, Some err) \<Rightarrow> (result\<lparr>br_Err := Some err\<rparr>, False)
         | (balance, None) \<Rightarrow>
             (result\<lparr>br_Balance := balance, br_Orders := fst getOpenOrders\<rparr>, balance = None))"

definition handleAction ::
    "'b action_request \<Rightarrow> order_response option \<times> 'e option \<Rightarrow> 'e action_result" where
  "handleAction req placeOrder =
     \<lparr>at_AccountID = ar_AccountID req, at_Response = fst placeOrder, at_Err = snd placeOrder\<rparr>"

section \<open>Well-formed channels\<close>

definition io_ok :: "('b, 'e) io_channels \<Rightarrow> bool" where
  "io_ok c \<longleftrightarrow> chan_ok (io_refresh c) \<and> chan_ok (io_action c) \<and> chan_ok (io_baseline c) \<and>
     chan_ok (io_result c) \<and> chan_cap (io_refresh c) = defaultBuf \<and> chan_cap (io_action c) = defaultBuf \<and>
     chan_cap (io_baseline c) = defaultBuf \<and> chan_cap (io_result c) = defaultBuf"

lemma io_ok_New [inv_intros]: "io_ok NewChannels"
  by (simp add: io_ok_def NewChannels_def) (simp add: chan_make_def)

lemma io_ok_send [inv_intros]:
  "io_ok c \<Longrightarrow> SendRefresh c r = Some c' \<Longrightarrow> io_ok c'"
  "io_ok c \<Longrightarrow> SendAction c a = Some c' \<Longrightarrow> io_ok c'"
  "io_ok c \<Longrightarrow> SendBaseline c b = Some c' \<Longrightarrow> io_ok c'"
  "io_ok c \<Longrightarrow> SendResult c s = Some c' \<Longrightarrow> io_ok c'"
  by (auto simp: io_ok_def io_ops_defs dest: go_chan.send_ok go_chan.send_bound)

lemma io_ok_recv [inv_intros]:
  "io_ok c \<Longrightarrow> recv_Refreshes c = Some (r, c') \<Longrightarrow> io_ok c'"
  "io_ok c \<Longrightarrow> recv_Actions c = Some (a, c') \<Longrightarrow> io_ok c'"
  "io_ok c \<Longrightarrow> recv_Baselines c = Some (b, c') \<Longrightarrow> io_ok c'"
  "io_ok c \<Longrightarrow> recv_Results c = Some (s, c') \<Longrightarrow> io_ok c'"
  by (auto simp: io_ok_def io_ops_defs dest: go_chan.recv_ok go_chan.recv_bound)

text \<open>Each channel operation changes the buffer of its own channel only.\<close>

lemma io_send_bufs:
  "SendRefresh c r = Some c' \<Longrightarrow> chan_buf (io_refresh c') = chan_buf (io_refresh c) @ [r] \<and>
     io_action c' = io_action c \<and> io_baseline c' = io_baseline c \<and> io_result c' = io_result c"
  "SendAction c a = Some c' \<Longrightarrow> chan_buf (io_action c') = chan_buf (io_action c) @ [a] \<and>
     io_refresh c' = io_refresh c \<and> io_baseline c' = io_baseline c \<and> io_result c' = io_result c"
  "SendBaseline c b = Some c' \<Longrightarrow> chan_buf (io_baseline c') = chan_buf (io_baseline c) @ [b] \<and>
     io_refresh c' = io_refresh c \<and> io_action c' = io_action c \<and> io_result c' = io_result c"
  "SendResult c s = Some c' \<Longrightarrow> chan_buf (io_result c') = chan_buf (io_result c) @ [s] \<and>
     io_refresh c' = io_refresh c \<and> io_action c' = io_action c \<and> io_baseline c' = io_baseline c"
  by (auto simp: io_ops_defs dest: go_chan.send_items)

lemma io_recv_bufs:
  "recv_Refreshes c = Some (r, c') \<Longrightarrow> chan_buf (io_refresh c) = r # chan_buf (io_refresh c') \<and>
     io_action c' = io_action c \<and> io_baseline c' = io_baseline c \<and> io_result c' = io_result c"
  "recv_Actions c = Some (a, c') \<Longrightarrow> chan_buf (io_action c) = a # chan_buf (io_action c') \<and>
     io_refresh c' = io_refresh c \<and> io_baseline c' = io_baseline c \<and> io_result c' = io_result c"
  "recv_Baselines c = Some (b, c') \<Longrightarrow> chan_buf (io_baseline c) = b # chan_buf (io_baseline c') \<and>
     io_refresh c' = io_refresh c \<and> io_action c' = io_action c \<and> io_result c' = io_result c"
  "recv_Results c = Some (s, c') \<Longrightarrow> chan_buf (io_result c) = s # chan_buf (io_result c') \<and>
     io_refresh c' = io_refresh c \<and> io_action c' = io_action c \<and> io_baseline c' = io_baseline c"
  by (auto simp: io_ops_defs dest: go_chan.recv_items)

lemma io_send_blocks:
  assumes "io_ok c"
  shows "SendRefresh c r = None \<longleftrightarrow> length (chan_buf (io_refresh c)) = 64"
    and "SendAction c a = None \<longleftrightarrow> length (chan_buf (io_action c)) = 64"
    and "SendBaseline c b = None \<longleftrightarrow> length (chan_buf (io_baseline c)) = 64"
    and "SendResult c s = None \<longleftrightarrow> length (chan_buf (io_result c)) = 64"
  using assms by (auto simp: io_ok_def io_ops_defs go_chan.send_blocks)

lemma io_recv_blocks:
  "recv_Refreshes c = None \<longleftrightarrow> chan_buf (io_refresh c) = []"
  "recv_Actions c = None \<longleftrightarrow> chan_buf (io_action c) = []"
  "recv_Baselines c = None \<longleftrightarrow> chan_buf (io_baseline c) = []"
  "recv_Results c = None \<longleftrightarrow> chan_buf (io_result c) = []"
  by (auto simp: io_ops_defs go_chan.recv_blocks)

end
