(* ===== verification/Engine.thy ===== *)
theory Engine
  imports Theme_Strategy IO_Worker
begin

text \<open>
  \<open>internal/core/engine/engine.go\<close>: the handlers of the single event loop. A handler
  updates the stores and returns the requests it sends to the worker, in order; the
  theory \<open>Engine_System\<close> runs them over the channels.

  A strategy is a pair of callbacks that read the stores (\<open>strategy.go\<close>); a signal may be
  a nil pointer. The logger has no effect on the state.
\<close>

section \<open>State\<close>

record strategy =
  st_OnTick :: "market_view \<Rightarrow> tick_event \<Rightarrow> trade_signal option list"
  st_OnExec :: "market_view \<Rightarrow> exec_event \<Rightarrow> trade_signal option list"

definition NoopStrategy :: strategy where
  "NoopStrategy = \<lparr>st_OnTick = (\<lambda>_ _. []), st_OnExec = (\<lambda>_ _. [])\<rparr>"

definition theme_callbacks :: "(rat \<Rightarrow> int) \<Rightarrow> theme_strategy \<Rightarrow> strategy" where
  "theme_callbacks impl s =
     \<lparr>st_OnTick = (\<lambda>v tick. case theme_OnTick impl s v tick of None \<Rightarrow> [] | Some sigs \<Rightarrow> map Some sigs),
      st_OnExec = (\<lambda>v x. map Some (theme_OnExec s x))\<rparr>"

record 'b engine =
  eg_prices :: price_store
  eg_orders :: tracker
  eg_balances :: balance_mgr
  eg_strategy :: strategy
  eg_accounts :: "string \<rightharpoonup> 'b"
  eg_pollInterval :: int
  eg_dryRun :: bool

text \<open>The orders of the \<open>range\<close> loops that the handling of one event runs: those of the
  strategy, of \<open>Reconcile\<close>, of the poll, and of the search for a default account (one per
  signal).\<close>

record iteration =
  it_holdingKeys :: "string \<Rightarrow> string list"
  it_orderKeys :: "string \<Rightarrow> string list"
  it_findKeys :: "string list"
  it_reconcileKeys :: "string list"
  it_pollKeys :: "string list"
  it_accountKeys :: "nat \<Rightarrow> string list"

definition engine_view :: "iteration \<Rightarrow> 'b engine \<Rightarrow> market_view" where
  "engine_view it e = \<lparr>mv_prices = eg_prices e, mv_orders = eg_orders e, mv_balances = eg_balances e,
     mv_holdingKeys = it_holdingKeys it, mv_orderKeys = it_orderKeys it, mv_findKeys = it_findKeys it\<rparr>"

datatype 'b io_request = Refresh "'b refresh_request" | Action "'b action_request"

section \<open>Handlers\<close>

definition engine_New :: "strategy \<Rightarrow> int \<Rightarrow> bool \<Rightarrow> 'b engine" where
  "engine_New strat pollInterval dryRun = \<lparr>eg_prices = ps_New, eg_orders = ot_New, eg_balances = bm_New,
     eg_strategy = strat, eg_accounts = Map.empty, eg_pollInterval = pollInterval, eg_dryRun = dryRun\<rparr>"

definition RegisterAccount :: "'b engine \<Rightarrow> string \<Rightarrow> 'b \<Rightarrow> 'b engine" where
  "RegisterAccount e accountID broker = e\<lparr>eg_accounts := (eg_accounts e)(accountID \<mapsto> broker)\<rparr>"

definition SetStrategy :: "'b engine \<Rightarrow> strategy \<Rightarrow> 'b engine" where
  "SetStrategy e s = e\<lparr>eg_strategy := s\<rparr>"

definition resolveAccount :: "string list \<Rightarrow> 'b engine \<Rightarrow> string \<Rightarrow> string \<times> 'b option" where
  "resolveAccount ks e accountID =
     (if accountID \<noteq> [] then (accountID, eg_accounts e accountID)
      else case range_find ks (eg_accounts e) (\<lambda>_ _. True) of
             Some (aid, broker) \<Rightarrow> (aid, Some broker)
           | None \<Rightarrow> ([], None))"

definition order_of_signal :: "trade_signal \<Rightarrow> order_request" where
  "order_of_signal sig = \<lparr>orq_Code = ts_Code sig, orq_Side = ts_Side sig, orq_Type = ts_Type sig,
     orq_Quantity = ts_Quantity sig, orq_Price = ts_Price sig\<rparr>"

definition dispatchSignal ::
    "string list \<Rightarrow> 'b engine \<Rightarrow> trade_signal option \<Rightarrow> 'b io_request list" where
  "dispatchSignal ks e sig =
     (case sig of
        None \<Rightarrow> []
      | Some sg \<Rightarrow>
          (case resolveAccount ks e (ts_AccountID sg) of
             (_, None) \<Rightarrow> []
           | (accountID, Some broker) \<Rightarrow>
               if eg_dryRun e then []
               else [Action \<lparr>ar_AccountID = accountID, ar_Broker = broker, ar_Order = order_of_signal sg\<rparr>]))"

definition dispatch_all :: "iteration \<Rightarrow> 'b engine \<Rightarrow> trade_signal option list \<Rightarrow> 'b io_request list" where
  "dispatch_all it e sigs =
     concat (map (\<lambda>(i, sig). dispatchSignal (it_accountKeys it i) e sig) (enumerate 0 sigs))"

definition handleTick :: "iteration \<Rightarrow> 'b engine \<Rightarrow> tick_event \<Rightarrow> 'b engine \<times> 'b io_request list" where
  "handleTick it e tick =
     (let e1 = e\<lparr>eg_prices := ps_Update (eg_prices e) tick\<rparr>
      in (e1, dispatch_all it e1 (st_OnTick (eg_strategy e1) (engine_view it e1) tick)))"

definition handleExec :: "iteration \<Rightarrow> 'b engine \<Rightarrow> exec_event \<Rightarrow> 'b engine \<times> 'b io_request list" where
  "handleExec it e x =
     (let e1 = e\<lparr>eg_orders := ot_Apply (eg_orders e) x\<rparr>;
          e2 = e1\<lparr>eg_balances := bm_Apply (eg_balances e1) x\<rparr>
      in (e2, dispatch_all it e2 (st_OnExec (eg_strategy e2) (engine_view it e2) x)))"

definition handleStatus :: "'b engine \<Rightarrow> status_event \<Rightarrow> 'b engine \<times> 'b io_request list" where
  "handleStatus e status =
     (if se_Status status = StatusConnected then
        (case eg_accounts e (se_AccountID status) of
           None \<Rightarrow> (e, [])
         | Some broker \<Rightarrow>
             (e, [Refresh \<lparr>rr_AccountID = se_AccountID status, rr_Broker = broker\<rparr>]))
      else (e, []))"

definition handleError :: "'b engine \<Rightarrow> error_event \<Rightarrow> 'b engine \<times> 'b io_request list" where
  "handleError e err = (e, [])"

definition handleBaseline ::
    "(rat \<Rightarrow> int) \<Rightarrow> go_time \<Rightarrow> iteration \<Rightarrow> 'b engine \<Rightarrow> 'err baseline_result \<Rightarrow>
      'b engine \<times> 'b io_request list" where
  "handleBaseline impl now it e bl =
     (if br_Err bl \<noteq> None then (e, [])
      else
        let e1 = (if br_Balance bl \<noteq> None
                  then e\<lparr>eg_balances := bm_SetBaseline now (eg_balances e) (br_AccountID bl) (br_Balance bl)\<rparr>
                  else e);
            e2 = (case br_Orders bl of
                    None \<Rightarrow> e1
                  | Some ords \<Rightarrow>
                      e1\<lparr>eg_orders := ot_Reconcile impl now (it_reconcileKeys it) (eg_orders e1)
                                         (br_AccountID bl) ords\<rparr>)
        in (e2, []))"

definition handleResult ::
    "go_time \<Rightarrow> 'b engine \<Rightarrow> 'err action_result \<Rightarrow> 'b engine \<times> 'b io_request list" where
  "handleResult now e r =
     (if at_Err r \<noteq> None then (e, [])
      else (e\<lparr>eg_orders := ot_Register now (eg_orders e) (at_AccountID r) (at_Response r)\<rparr>, []))"

definition handlePoll :: "iteration \<Rightarrow> 'b engine \<Rightarrow> 'b engine \<times> 'b io_request list" where
  "handlePoll it e =
     (e, concat (map (\<lambda>aid. case eg_accounts e aid of
            None \<Rightarrow> []
          | Some broker \<Rightarrow> [Refresh \<lparr>rr_AccountID = aid, rr_Broker = broker\<rparr>]) (it_pollKeys it)))"

section \<open>Events\<close>

datatype 'err engine_event =
    EvTick tick_event | EvExec exec_event | EvStatus status_event | EvError error_event
  | EvBaseline "'err baseline_result" | EvResult "'err action_result" | EvPoll

text \<open>One turn of the loop of \<open>Run\<close>.\<close>

fun engine_handle ::
    "(rat \<Rightarrow> int) \<Rightarrow> go_time \<Rightarrow> iteration \<Rightarrow> 'b engine \<Rightarrow> 'err engine_event \<Rightarrow>
      'b engine \<times> 'b io_request list" where
  "engine_handle impl now it e (EvTick t) = handleTick it e t"
| "engine_handle impl now it e (EvExec x) = handleExec it e x"
| "engine_handle impl now it e (EvStatus s) = handleStatus e s"
| "engine_handle impl now it e (EvError r) = handleError e r"
| "engine_handle impl now it e (EvBaseline b) = handleBaseline impl now it e b"
| "engine_handle impl now it e (EvResult r) = handleResult now e r"
| "engine_handle impl now it e EvPoll = handlePoll it e"

text \<open>The iteration orders fit the maps that the handling of an event walks over.\<close>

definition iteration_ok :: "(rat \<Rightarrow> int) \<Rightarrow> go_time \<Rightarrow> iteration \<Rightarrow> 'b engine \<Rightarrow> 'err engine_event \<Rightarrow> bool" where
  "iteration_ok impl now it e ev \<longleftrightarrow>
     range_order (it_pollKeys it) (eg_accounts e) \<and>
     (\<forall>i. range_order (it_accountKeys it i) (eg_accounts e)) \<and>
     (case ev of
        EvBaseline b \<Rightarrow>
          (\<forall>ords. br_Orders b = Some ords \<longrightarrow>
             range_order (it_reconcileKeys it)
               (reconcile_add impl now (br_AccountID b) ords (eg_orders e)))
      | _ \<Rightarrow> True)"

section \<open>The invariant of the engine\<close>

definition engine_ok :: "'b engine \<Rightarrow> bool" where
  "engine_ok e \<longleftrightarrow> ps_ok (eg_prices e) \<and> ot_ok (eg_orders e) \<and> bm_ok (eg_balances e)"

fun event_in64 :: "'err engine_event \<Rightarrow> bool" where
  "event_in64 (EvBaseline b) = (\<forall>bal. br_Balance b = Some bal \<longrightarrow> balance_in64 bal)"
| "event_in64 _ = True"

lemma engine_ok_New [inv_intros]: "engine_ok (engine_New st p d)"
  by (simp add: engine_ok_def engine_New_def inv_intros)

lemma engine_ok_handle [inv_intros]:
  assumes "engine_ok e" and "event_in64 ev" and "iteration_ok impl now it e ev"
  shows "engine_ok (fst (engine_handle impl now it e ev))"
proof (cases ev)
  case (EvBaseline b)
  have b: "bm_ok (bm_SetBaseline now (eg_balances e) (br_AccountID b) (br_Balance b))"
    using assms(1,2) EvBaseline by (intro bm_ok_SetBaseline) (auto simp: engine_ok_def)
  have o: "ot_ok (ot_Reconcile impl now (it_reconcileKeys it) (eg_orders e) (br_AccountID b) ords)"
    if "br_Orders b = Some ords" for ords
    using assms(1,3) EvBaseline that
    by (intro ot_ok_Reconcile) (auto simp: engine_ok_def iteration_ok_def range_order_def)
  from assms(1) EvBaseline b o show ?thesis
    by (auto simp: engine_ok_def handleBaseline_def Let_def split: option.splits)
next
  case (EvStatus st)
  with assms(1) show ?thesis by (auto simp: handleStatus_def split: option.splits)
qed (use assms(1) in \<open>auto simp: engine_ok_def handleTick_def handleExec_def handleError_def
    handleResult_def handlePoll_def Let_def intro: inv_intros\<close>)

section \<open>Runs\<close>

text \<open>A run of the loop: the events in the order the \<open>select\<close> takes them, each with the
  time and the iteration orders of its handling. The result has all requests sent.\<close>

type_synonym 'err turn = "go_time \<times> iteration \<times> 'err engine_event"

fun engine_run ::
    "(rat \<Rightarrow> int) \<Rightarrow> 'b engine \<Rightarrow> 'err turn list \<Rightarrow> 'b engine \<times> 'b io_request list" where
  "engine_run impl e [] = (e, [])"
| "engine_run impl e ((now, it, ev) # evs) =
     (let (e1, out1) = engine_handle impl now it e ev; (e2, out2) = engine_run impl e1 evs
      in (e2, out1 @ out2))"

fun turns_ok :: "(rat \<Rightarrow> int) \<Rightarrow> 'b engine \<Rightarrow> 'err turn list \<Rightarrow> bool" where
  "turns_ok impl e [] = True"
| "turns_ok impl e ((now, it, ev) # evs) \<longleftrightarrow> event_in64 ev \<and> iteration_ok impl now it e ev \<and>
     turns_ok impl (fst (engine_handle impl now it e ev)) evs"

lemma engine_run_Cons:
  "engine_run impl e ((now, it, ev) # evs) =
    (fst (engine_run impl (fst (engine_handle impl now it e ev)) evs),
     snd (engine_handle impl now it e ev) @ snd (engine_run impl (fst (engine_handle impl now it e ev)) evs))"
  by (simp add: Let_def split: prod.splits)

lemma engine_ok_run: "engine_ok e \<Longrightarrow> turns_ok impl e evs \<Longrightarrow> engine_ok (fst (engine_run impl e evs))"
  by (induction evs arbitrary: e) (auto simp: engine_run_Cons engine_ok_handle simp del: engine_run.simps(2))

text \<open>What the handlers leave alone.\<close>

lemma handle_frame [simp]:
  "eg_accounts (fst (engine_handle impl now it e ev)) = eg_accounts e"
  "eg_dryRun (fst (engine_handle impl now it e ev)) = eg_dryRun e"
  "eg_strategy (fst (engine_handle impl now it e ev)) = eg_strategy e"
  by (cases ev; auto simp: handleTick_def handleExec_def handleStatus_def handleError_def handleBaseline_def
      handleResult_def handlePoll_def Let_def split: option.splits)+

lemma handle_prices:
  "eg_prices (fst (engine_handle impl now it e ev)) =
    (case ev of EvTick t \<Rightarrow> ps_Update (eg_prices e) t | _ \<Rightarrow> eg_prices e)"
  by (cases ev) (auto simp: handleTick_def handleExec_def handleStatus_def handleError_def handleBaseline_def
      handleResult_def handlePoll_def Let_def split: option.splits)

lemma handle_balances:
  "eg_balances (fst (engine_handle impl now it e ev)) =
    (case ev of
       EvExec x \<Rightarrow> bm_Apply (eg_balances e) x
     | EvBaseline b \<Rightarrow> (if br_Err b = None then bm_SetBaseline now (eg_balances e) (br_AccountID b) (br_Balance b)
                        else eg_balances e)
     | _ \<Rightarrow> eg_balances e)"
  by (cases ev) (auto simp: handleTick_def handleExec_def handleStatus_def handleError_def handleBaseline_def
      handleResult_def handlePoll_def bm_SetBaseline_def Let_def split: option.splits)

lemma handle_orders:
  "eg_orders (fst (engine_handle impl now it e ev)) =
    (case ev of
       EvExec x \<Rightarrow> ot_Apply (eg_orders e) x
     | EvBaseline b \<Rightarrow>
         (case br_Orders b of
            Some ords \<Rightarrow> if br_Err b = None
              then ot_Reconcile impl now (it_reconcileKeys it) (eg_orders e) (br_AccountID b) ords
              else eg_orders e
          | None \<Rightarrow> eg_orders e)
     | EvResult r \<Rightarrow> (if at_Err r = None then ot_Register now (eg_orders e) (at_AccountID r) (at_Response r)
                      else eg_orders e)
     | _ \<Rightarrow> eg_orders e)"
  by (cases ev) (auto simp: handleTick_def handleExec_def handleStatus_def handleError_def handleBaseline_def
      handleResult_def handlePoll_def Let_def split: option.splits)

lemma run_frame [simp]:
  "eg_accounts (fst (engine_run impl e evs)) = eg_accounts e"
  "eg_dryRun (fst (engine_run impl e evs)) = eg_dryRun e"
  by (induction evs arbitrary: e) (auto simp: engine_run_Cons simp del: engine_run.simps(2) engine_handle.simps)

text \<open>A request goes to a registered account, with that account's broker.\<close>

fun request_registered :: "'b engine \<Rightarrow> 'b io_request \<Rightarrow> bool" where
  "request_registered e (Refresh r) = (eg_accounts e (rr_AccountID r) = Some (rr_Broker r))"
| "request_registered e (Action a) = (\<not> eg_dryRun e \<and> eg_accounts e (ar_AccountID a) = Some (ar_Broker a))"

lemma resolveAccount_registered:
  "resolveAccount ks e aid = (a, Some b) \<Longrightarrow> eg_accounts e a = Some b"
  by (auto simp: resolveAccount_def dest: range_find_Some split: if_splits option.splits)

lemma dispatch_registered: "q \<in> set (dispatchSignal ks e sig) \<Longrightarrow> request_registered e q"
  by (auto simp: dispatchSignal_def dest: resolveAccount_registered resolveAccount_registered [OF sym]
      split: option.splits prod.splits if_splits)

lemma dispatch_all_registered: "q \<in> set (dispatch_all it e sigs) \<Longrightarrow> request_registered e q"
  by (auto simp: dispatch_all_def intro: dispatch_registered)

lemma request_registered_frame:
  "eg_accounts e' = eg_accounts e \<Longrightarrow> eg_dryRun e' = eg_dryRun e \<Longrightarrow>
    request_registered e' q = request_registered e q"
  by (cases q) simp_all

lemma handle_registered:
  assumes "q \<in> set (snd (engine_handle impl now it e ev))"
  shows "request_registered e q"
proof (cases ev)
  case (EvTick t)
  let ?e = "fst (handleTick it e t)"
  have "request_registered ?e q"
    using assms EvTick by (auto simp: handleTick_def Let_def intro: dispatch_all_registered)
  then show ?thesis using request_registered_frame [of ?e e q] by (simp add: handleTick_def Let_def)
next
  case (EvExec x)
  let ?e = "fst (handleExec it e x)"
  have "request_registered ?e q"
    using assms EvExec by (auto simp: handleExec_def Let_def intro: dispatch_all_registered)
  then show ?thesis using request_registered_frame [of ?e e q] by (simp add: handleExec_def Let_def)
qed (use assms in \<open>auto simp: handleStatus_def handleError_def handleBaseline_def handleResult_def
    handlePoll_def Let_def split: option.splits if_splits\<close>)

end
