(* ===== verification/Engine_System.thy ===== *)
theory Engine_System
  imports Engine
begin

text \<open>
  The engine and the worker as two goroutines over the channels of \<open>ioworker/ch.go\<close>: the
  loops of \<open>Engine.Run\<close> and \<open>Worker.Run\<close> as a step relation. A handler of the engine
  runs to its end before the next event, but each of its sends may block: the requests it
  still has to send are \<open>sy_pend\<close>. \<open>sy_work\<close> is the answer the worker still has to send.
  The remaining components record history: what the handlers asked for, the orders placed
  at the brokers, and the answers the engine has handled.
\<close>

section \<open>The step relation\<close>

datatype 'e worker_out = OutBaseline "'e baseline_result" | OutResult "'e action_result"

record ('b, 'e) hts =
  sy_eng :: "'b engine"
  sy_pend :: "'b io_request list"
  sy_io :: "('b, 'e) io_channels"
  sy_work :: "'e worker_out option"
  sy_sent :: "'b io_request list"
  sy_placed :: "'b action_request list"
  sy_handled :: "'e action_result list"

definition hts_init :: "'b engine \<Rightarrow> ('b, 'e) hts" where
  "hts_init e = \<lparr>sy_eng = e, sy_pend = [], sy_io = NewChannels, sy_work = None, sy_sent = [],
     sy_placed = [], sy_handled = []\<rparr>"

fun external :: "'e engine_event \<Rightarrow> bool" where
  "external (EvBaseline _) = False"
| "external (EvResult _) = False"
| "external _ = True"

definition run_handler :: "('b, 'e) hts \<Rightarrow> 'b engine \<times> 'b io_request list \<Rightarrow> ('b, 'e) hts" where
  "run_handler s r = s\<lparr>sy_eng := fst r, sy_pend := snd r, sy_sent := sy_sent s @ snd r\<rparr>"

text \<open>The steps on the channels; \<open>GetBalance\<close> does not return a nil balance without an
  error.\<close>

inductive io_step :: "(rat \<Rightarrow> int) \<Rightarrow> ('b, 'e) hts \<Rightarrow> ('b, 'e) hts \<Rightarrow> bool" for impl where
  send_refresh: "sy_pend s = Refresh r # rest \<Longrightarrow> SendRefresh (sy_io s) r = Some io' \<Longrightarrow>
    io_step impl s (s\<lparr>sy_pend := rest, sy_io := io'\<rparr>)"
| send_action: "sy_pend s = Action a # rest \<Longrightarrow> SendAction (sy_io s) a = Some io' \<Longrightarrow>
    io_step impl s (s\<lparr>sy_pend := rest, sy_io := io'\<rparr>)"
| take_baseline: "sy_pend s = [] \<Longrightarrow> recv_Baselines (sy_io s) = Some (b, io') \<Longrightarrow>
    iteration_ok impl now it (sy_eng s) (EvBaseline b) \<Longrightarrow>
    io_step impl s (run_handler (s\<lparr>sy_io := io'\<rparr>) (engine_handle impl now it (sy_eng s) (EvBaseline b)))"
| take_result: "sy_pend s = [] \<Longrightarrow> recv_Results (sy_io s) = Some (r, io') \<Longrightarrow>
    iteration_ok impl now it (sy_eng s) (EvResult r) \<Longrightarrow>
    io_step impl s (run_handler (s\<lparr>sy_io := io', sy_handled := sy_handled s @ [r]\<rparr>)
      (engine_handle impl now it (sy_eng s) (EvResult r)))"
| work_refresh: "sy_work s = None \<Longrightarrow> recv_Refreshes (sy_io s) = Some (r, io') \<Longrightarrow>
    handleRefresh r gb go = (res, False) \<Longrightarrow>
    io_step impl s (s\<lparr>sy_io := io', sy_work := Some (OutBaseline res)\<rparr>)"
| work_action: "sy_work s = None \<Longrightarrow> recv_Actions (sy_io s) = Some (a, io') \<Longrightarrow>
    io_step impl s (s\<lparr>sy_io := io', sy_work := Some (OutResult (handleAction a po)),
      sy_placed := sy_placed s @ [a]\<rparr>)"
| reply_baseline: "sy_work s = Some (OutBaseline b) \<Longrightarrow> SendBaseline (sy_io s) b = Some io' \<Longrightarrow>
    io_step impl s (s\<lparr>sy_io := io', sy_work := None\<rparr>)"
| reply_result: "sy_work s = Some (OutResult r) \<Longrightarrow> SendResult (sy_io s) r = Some io' \<Longrightarrow>
    io_step impl s (s\<lparr>sy_io := io', sy_work := None\<rparr>)"

inductive hts_step :: "(rat \<Rightarrow> int) \<Rightarrow> ('b, 'e) hts \<Rightarrow> ('b, 'e) hts \<Rightarrow> bool" for impl where
  hts_io: "io_step impl s s' \<Longrightarrow> hts_step impl s s'"
| hts_event: "sy_pend s = [] \<Longrightarrow> external ev \<Longrightarrow> iteration_ok impl now it (sy_eng s) (ev :: 'e engine_event) \<Longrightarrow>
    hts_step impl s (run_handler s (engine_handle impl now it (sy_eng s) ev))"

inductive hts_reach :: "(rat \<Rightarrow> int) \<Rightarrow> 'b engine \<Rightarrow> ('b, 'e) hts \<Rightarrow> bool" for impl e0 where
  reach_init: "hts_reach impl e0 (hts_init e0)"
| reach_step: "hts_reach impl e0 s \<Longrightarrow> hts_step impl s s' \<Longrightarrow> hts_reach impl e0 s'"

inductive_cases hts_step_cases: "hts_step impl s s'"

section \<open>Orders are placed once and in order\<close>

fun actions_of :: "'b io_request list \<Rightarrow> 'b action_request list" where
  "actions_of [] = []"
| "actions_of (Action a # rs) = a # actions_of rs"
| "actions_of (Refresh r # rs) = actions_of rs"

lemma actions_of_append [simp]: "actions_of (xs @ ys) = actions_of xs @ actions_of ys"
  by (induction xs rule: actions_of.induct) simp_all

fun work_result :: "'e worker_out option \<Rightarrow> 'e action_result list" where
  "work_result (Some (OutResult r)) = [r]"
| "work_result _ = []"

text \<open>The path of an action: asked for by a handler, still to be sent, in the channel,
  placed; and the path back of its result.\<close>

definition hts_inv :: "('b, 'e) hts \<Rightarrow> bool" where
  "hts_inv s \<longleftrightarrow> io_ok (sy_io s) \<and>
     actions_of (sy_sent s) = sy_placed s @ chan_buf (io_action (sy_io s)) @ actions_of (sy_pend s) \<and>
     map ar_AccountID (sy_placed s) =
       map at_AccountID (sy_handled s @ chan_buf (io_result (sy_io s)) @ work_result (sy_work s))"

lemma hts_inv_init: "hts_inv (hts_init e)"
  by (simp add: hts_inv_def hts_init_def inv_intros) (simp add: NewChannels_def chan_make_def)

lemma engine_reply_silent:
  "snd (engine_handle impl now it e (EvBaseline b)) = []"
  "snd (engine_handle impl now it e (EvResult r)) = []"
  by (simp_all add: handleBaseline_def handleResult_def Let_def split: option.splits)

lemma hts_inv_io:
  assumes "io_step impl s s'" and inv: "hts_inv s"
  shows "hts_inv s'"
  using assms(1)
proof cases
  case (send_refresh r rest io')
  with inv io_send_bufs(1) [OF send_refresh(3)] io_ok_send(1) [OF _ send_refresh(3)] show ?thesis by (simp add: hts_inv_def)
next
  case (send_action a rest io')
  with inv io_send_bufs(2) [OF send_action(3)] io_ok_send(2) [OF _ send_action(3)] show ?thesis by (simp add: hts_inv_def)
next
  case (take_baseline b io' now it)
  with inv io_recv_bufs(3) [OF take_baseline(3)] io_ok_recv(3) [OF _ take_baseline(3)] show ?thesis
    by (simp add: hts_inv_def run_handler_def engine_reply_silent del: engine_handle.simps)
next
  case (take_result r io' now it)
  with inv io_recv_bufs(4) [OF take_result(3)] io_ok_recv(4) [OF _ take_result(3)] show ?thesis
    by (simp add: hts_inv_def run_handler_def engine_reply_silent del: engine_handle.simps)
next
  case (work_refresh r io' gb go res)
  with inv io_recv_bufs(1) [OF work_refresh(3)] io_ok_recv(1) [OF _ work_refresh(3)] show ?thesis by (simp add: hts_inv_def)
next
  case (work_action a io' po)
  with inv io_recv_bufs(2) [OF work_action(3)] io_ok_recv(2) [OF _ work_action(3)] show ?thesis
    by (simp add: hts_inv_def handleAction_def)
next
  case (reply_baseline b io')
  with inv io_send_bufs(3) [OF reply_baseline(3)] io_ok_send(3) [OF _ reply_baseline(3)] show ?thesis by (simp add: hts_inv_def)
next
  case (reply_result r io')
  with inv io_send_bufs(4) [OF reply_result(3)] io_ok_send(4) [OF _ reply_result(3)] show ?thesis by (simp add: hts_inv_def)
qed

lemma hts_inv_step: "hts_step impl s s' \<Longrightarrow> hts_inv s \<Longrightarrow> hts_inv s'"
proof (erule hts_step_cases)
  show "io_step impl s s' \<Longrightarrow> hts_inv s \<Longrightarrow> hts_inv s'" by (rule hts_inv_io)
qed (simp add: hts_inv_def run_handler_def)

lemma hts_reach_inv: "hts_reach impl e s \<Longrightarrow> hts_inv s"
  by (induction rule: hts_reach.induct) (auto intro: hts_inv_init hts_inv_step)

text \<open>C4. Exactly once and in order: at every moment of every run, the orders placed at the
  brokers are, in order, an initial part of the actions the handlers of the engine have
  asked for; what is missing is in the channel or about to be sent. The results come
  back one for each placed order, in the same order.\<close>

theorem orders_placed_once_in_order:
  assumes "hts_reach impl e0 s"
  shows "actions_of (sy_sent s) =
      sy_placed s @ chan_buf (io_action (sy_io s)) @ actions_of (sy_pend s) \<and>
    map ar_AccountID (sy_placed s) =
      map at_AccountID (sy_handled s @ chan_buf (io_result (sy_io s)) @ work_result (sy_work s))"
  using hts_reach_inv [OF assms] by (simp add: hts_inv_def)

section \<open>Progress\<close>

definition outstanding :: "('b, 'e) hts \<Rightarrow> nat" where
  "outstanding s = length (chan_buf (io_refresh (sy_io s))) + length (chan_buf (io_action (sy_io s))) +
     length (chan_buf (io_baseline (sy_io s))) + length (chan_buf (io_result (sy_io s))) +
     (if sy_work s = None then 0 else 1)"

definition quiescent :: "('b, 'e) hts \<Rightarrow> bool" where
  "quiescent s \<longleftrightarrow> sy_pend s = [] \<and> outstanding s = 0"

lemma progress_worker_idle:
  assumes "sy_work s = None" and "chan_buf (io_refresh (sy_io s)) \<noteq> [] \<or> chan_buf (io_action (sy_io s)) \<noteq> []"
  shows "\<exists>s'. io_step impl s s'"
proof (cases "chan_buf (io_refresh (sy_io s)) = []")
  case True
  with assms(2) obtain a io' where "recv_Actions (sy_io s) = Some (a, io')"
    using io_recv_blocks(2) [of "sy_io s"] by (cases "recv_Actions (sy_io s)") auto
  from work_action [OF assms(1) this] show ?thesis by blast
next
  case False
  then obtain r io' where r: "recv_Refreshes (sy_io s) = Some (r, io')"
    using io_recv_blocks(1) [of "sy_io s"] by (cases "recv_Refreshes (sy_io s)") auto
  have "handleRefresh r (None, Some undefined) undefined = (fst (handleRefresh r (None, Some undefined) undefined), False)"
    by (simp add: handleRefresh_def Let_def)
  from work_refresh [OF assms(1) r this] show ?thesis by blast
qed

lemma progress_worker_busy:
  assumes "io_ok (sy_io s)" and "sy_work s \<noteq> None" and "length (chan_buf (io_baseline (sy_io s))) < 64"
    and "length (chan_buf (io_result (sy_io s))) < 64"
  shows "\<exists>s'. io_step impl s s'"
proof -
  obtain w where w: "sy_work s = Some w" using assms(2) by blast
  show ?thesis
  proof (cases w)
    case (OutBaseline b)
    obtain io' where "SendBaseline (sy_io s) b = Some io'"
      using io_send_blocks(3) [OF assms(1), of b] assms(3) by (cases "SendBaseline (sy_io s) b") auto
    with w OutBaseline reply_baseline show ?thesis by blast
  next
    case (OutResult r)
    obtain io' where "SendResult (sy_io s) r = Some io'"
      using io_send_blocks(4) [OF assms(1), of r] assms(4) by (cases "SendResult (sy_io s) r") auto
    with w OutResult reply_result show ?thesis by blast
  qed
qed

text \<open>Every map of the engine is finite, so it has an iteration order.\<close>

definition eng_finite :: "'b engine \<Rightarrow> bool" where
  "eng_finite e \<longleftrightarrow> finite (dom (eg_accounts e)) \<and> finite (dom (eg_orders e))"

lemma finite_order: "finite (dom m) \<Longrightarrow> \<exists>ks. range_order ks m"
  using finite_distinct_list [of "dom m"] by (auto simp: range_order_def)

lemma finite_reconcile_add: "finite (dom t) \<Longrightarrow> finite (dom (reconcile_add impl now a ords t))"
  unfolding reconcile_add_def by (induction ords arbitrary: t) simp_all

lemma finite_reconcile_drop: "finite (dom t) \<Longrightarrow> finite (dom (reconcile_drop ks a snap t))"
  unfolding reconcile_drop_def
  by (induction ks arbitrary: t) (auto split: option.splits)

lemma eng_finite_handle: "eng_finite e \<Longrightarrow> eng_finite (fst (engine_handle impl now it e ev))"
  by (cases ev) (auto simp: eng_finite_def handleTick_def handleExec_def handleStatus_def handleError_def
      handleBaseline_def handleResult_def handlePoll_def ot_Apply_def ot_Register_def ot_Reconcile_def
      finite_reconcile_add finite_reconcile_drop Let_def split: option.splits)

lemma iteration_exists:
  assumes "eng_finite e"
  shows "\<exists>it. iteration_ok impl now it e ev"
proof -
  obtain ks where ks: "range_order ks (eg_accounts e)" using assms finite_order eng_finite_def by blast
  obtain rs where rs: "\<forall>b ords. ev = EvBaseline b \<longrightarrow> br_Orders b = Some ords \<longrightarrow>
      range_order rs (reconcile_add impl now (br_AccountID b) ords (eg_orders e))"
    using finite_order [OF finite_reconcile_add] assms eng_finite_def
    by (metis engine_event.inject(5) option.inject)
  from ks rs have "iteration_ok impl now \<lparr>it_holdingKeys = undefined, it_orderKeys = undefined,
      it_findKeys = undefined, it_reconcileKeys = rs, it_pollKeys = ks, it_accountKeys = (\<lambda>_. ks)\<rparr> e ev"
    by (auto simp: iteration_ok_def split: engine_event.splits)
  then show ?thesis by blast
qed

lemma run_handler_eng [simp]: "sy_eng (run_handler s r) = fst r"
  by (simp add: run_handler_def)

lemma eng_finite_io:
  assumes "io_step impl s s'" and "eng_finite (sy_eng s)"
  shows "eng_finite (sy_eng s')"
  using assms(1) by cases (use assms(2) in \<open>simp_all add: eng_finite_handle del: engine_handle.simps\<close>)

lemma hts_reach_finite: "hts_reach impl e0 s \<Longrightarrow> eng_finite e0 \<Longrightarrow> eng_finite (sy_eng s)"
proof (induction rule: hts_reach.induct)
  case (reach_step s s')
  then have f: "eng_finite (sy_eng s)" by blast
  from reach_step.hyps(2) show ?case
    by (cases rule: hts_step.cases) (auto simp: f eng_finite_handle intro: eng_finite_io)
qed (simp add: hts_init_def)

lemma progress_engine_idle:
  assumes "eng_finite (sy_eng s)" and "sy_pend s = []"
    and "chan_buf (io_baseline (sy_io s)) \<noteq> [] \<or> chan_buf (io_result (sy_io s)) \<noteq> []"
  shows "\<exists>s'. io_step impl s s'"
proof (cases "chan_buf (io_baseline (sy_io s)) = []")
  case True
  with assms(3) obtain r io' where r: "recv_Results (sy_io s) = Some (r, io')"
    using io_recv_blocks(4) [of "sy_io s"] by (cases "recv_Results (sy_io s)") auto
  obtain it where "iteration_ok impl 0 it (sy_eng s) (EvResult r)" using iteration_exists assms(1) by blast
  from take_result [OF assms(2) r this] show ?thesis by blast
next
  case False
  then obtain b io' where b: "recv_Baselines (sy_io s) = Some (b, io')"
    using io_recv_blocks(3) [of "sy_io s"] by (cases "recv_Baselines (sy_io s)") auto
  obtain it where "iteration_ok impl 0 it (sy_eng s) (EvBaseline b)" using iteration_exists assms(1) by blast
  from take_baseline [OF assms(2) b this] show ?thesis by blast
qed

lemma progress_engine_busy:
  assumes "io_ok (sy_io s)" and "sy_pend s \<noteq> []" and "length (chan_buf (io_refresh (sy_io s))) < 64"
    and "length (chan_buf (io_action (sy_io s))) < 64"
  shows "\<exists>s'. io_step impl s s'"
proof -
  obtain q rest where p: "sy_pend s = q # rest" using assms(2) by (cases "sy_pend s") auto
  show ?thesis
  proof (cases q)
    case (Refresh r)
    obtain io' where "SendRefresh (sy_io s) r = Some io'"
      using io_send_blocks(1) [OF assms(1), of r] assms(3) by (cases "SendRefresh (sy_io s) r") auto
    with p Refresh send_refresh show ?thesis by blast
  next
    case (Action a)
    obtain io' where "SendAction (sy_io s) a = Some io'"
      using io_send_blocks(2) [OF assms(1), of a] assms(4) by (cases "SendAction (sy_io s) a") auto
    with p Action send_action show ?thesis by blast
  qed
qed

lemma io_ok_lengths:
  assumes "io_ok c"
  shows "length (chan_buf (io_refresh c)) \<le> 64" "length (chan_buf (io_action c)) \<le> 64"
    "length (chan_buf (io_baseline c)) \<le> 64" "length (chan_buf (io_result c)) \<le> 64"
  using assms by (auto simp: io_ok_def chan_ok_def)

text \<open>C5. Freedom from deadlock below 129: as long as fewer than 129 requests and answers are
  on their way between the engine and the worker, the two never block each other: in
  every reachable state that is not at rest, one of them can send or receive.\<close>

theorem engine_worker_progress:
  assumes "hts_reach impl e0 s" and "finite (dom (eg_accounts e0))" and "finite (dom (eg_orders e0))"
    and "outstanding s < 129" and "\<not> quiescent s"
  shows "\<exists>s'. io_step impl s s'"
proof (rule ccontr)
  assume stuck: "\<nexists>s'. io_step impl s s'"
  let ?io = "sy_io s"
  have fin: "eng_finite (sy_eng s)" using hts_reach_finite [OF assms(1)] assms(2,3) by (simp add: eng_finite_def)
  have ok: "io_ok ?io" using hts_reach_inv [OF assms(1)] by (simp add: hts_inv_def)
  note le = io_ok_lengths [OF ok]
  have idle: "sy_work s = None \<Longrightarrow> chan_buf (io_refresh ?io) = [] \<and> chan_buf (io_action ?io) = []"
    using progress_worker_idle stuck by blast
  have busy: "sy_work s \<noteq> None \<Longrightarrow>
      length (chan_buf (io_baseline ?io)) = 64 \<or> length (chan_buf (io_result ?io)) = 64"
    using progress_worker_busy [OF ok] stuck le(3,4) by (meson le_neq_implies_less)
  have rest: "sy_pend s = [] \<Longrightarrow> chan_buf (io_baseline ?io) = [] \<and> chan_buf (io_result ?io) = []"
    using progress_engine_idle [OF fin] stuck by blast
  have full: "sy_pend s \<noteq> [] \<Longrightarrow>
      length (chan_buf (io_refresh ?io)) = 64 \<or> length (chan_buf (io_action ?io)) = 64"
    using progress_engine_busy [OF ok] stuck le(1,2) by (meson le_neq_implies_less)
  show False
  proof (cases "sy_work s = None")
    case True
    with idle full have "sy_pend s = []" by fastforce
    with True idle rest assms(5) show False by (simp add: quiescent_def outstanding_def)
  next
    case False
    with busy rest have "sy_pend s \<noteq> []" by fastforce
    with full busy False assms(4) show False by (auto simp: outstanding_def)
  qed
qed

section \<open>A sample run\<close>

text \<open>An engine with one account and the sample theme strategy, in the sample market: a tick
  of the second stock makes it buy the first one.\<close>

definition sample_engine :: "nat engine" where
  "sample_engine = (RegisterAccount (engine_New (theme_callbacks (\<lambda>_. 0) sample_strategy) 0 False) ''acct'' 7)
     \<lparr>eg_prices := sample_prices\<rparr>"

definition sample_iteration :: iteration where
  "sample_iteration = \<lparr>it_holdingKeys = (\<lambda>_. []), it_orderKeys = (\<lambda>_. []), it_findKeys = [],
     it_reconcileKeys = [], it_pollKeys = [''acct''], it_accountKeys = (\<lambda>_. [''acct''])\<rparr>"

definition sample_action :: "nat action_request" where
  "sample_action = \<lparr>ar_AccountID = ''acct'', ar_Broker = 7, ar_Order = \<lparr>orq_Code = ''A'', orq_Side = Buy,
     orq_Type = Limit, orq_Quantity = 333, orq_Price = 3000\<rparr>\<rparr>"

lemma sample_engine_sel [simp]:
  "eg_prices sample_engine = sample_prices" "eg_orders sample_engine = ot_New"
  "eg_balances sample_engine = bm_New" "eg_accounts sample_engine = [''acct'' \<mapsto> 7]"
  "eg_strategy sample_engine = theme_callbacks (\<lambda>_. 0) sample_strategy" "\<not> eg_dryRun sample_engine"
  by (simp_all add: sample_engine_def RegisterAccount_def engine_New_def)

lemma sample_handle:
  "handleTick sample_iteration sample_engine (sample_tick ''B'' 50000) = (sample_engine, [Action sample_action])"
proof -
  have p: "ps_Update sample_prices (sample_tick ''B'' 50000) = sample_prices"
    by (auto simp: sample_prices_def ps_Update_def sample_tick_def snapshot_of_def fun_eq_iff)
  have e: "sample_engine\<lparr>eg_prices := sample_prices\<rparr> = sample_engine" by (simp add: sample_engine_def)
  have v: "engine_view sample_iteration sample_engine = sample_view"
    by (simp add: engine_view_def sample_iteration_def sample_view_def)
  have o: "st_OnTick (eg_strategy sample_engine) sample_view (sample_tick ''B'' 50000) =
      map Some (the (theme_OnTick (\<lambda>_. 0) sample_strategy sample_view (sample_tick ''B'' 50000)))"
    by (simp add: theme_callbacks_def sample_buys)
  show ?thesis
    unfolding handleTick_def Let_def sample_engine_sel(1) p e v o sample_buys
    by (simp add: dispatch_all_def dispatchSignal_def resolveAccount_def sample_action_def
        order_of_signal_def sample_iteration_def)
qed

lemma sample_tick_reach:
  "hts_reach (\<lambda>_. 0) sample_engine
    (run_handler (hts_init sample_engine :: (nat, unit) hts) (sample_engine, [Action sample_action]))"
proof -
  let ?s = "hts_init sample_engine :: (nat, unit) hts"
  have "iteration_ok (\<lambda>_. 0) 0 sample_iteration (sy_eng ?s) (EvTick (sample_tick ''B'' 50000) :: unit engine_event)"
    by (simp add: iteration_ok_def range_order_def hts_init_def sample_iteration_def)
  from hts_event [OF _ _ this] have "hts_step (\<lambda>_. 0) ?s (run_handler ?s (sample_engine, [Action sample_action]))"
    by (simp add: hts_init_def sample_handle)
  then show ?thesis by (rule reach_step [OF reach_init])
qed

theorem orders_placed_once_in_order_witness:
  "\<exists>s :: (nat, unit) hts. hts_reach (\<lambda>_. 0) sample_engine s \<and> sy_placed s = [sample_action] \<and>
    actions_of (sy_sent s) = [sample_action]"
proof -
  let ?s1 = "run_handler (hts_init sample_engine :: (nat, unit) hts) (sample_engine, [Action sample_action])"
  have p: "sy_pend ?s1 = Action sample_action # []" and i: "sy_io ?s1 = NewChannels" and w: "sy_work ?s1 = None"
    by (simp_all add: run_handler_def hts_init_def)
  obtain io2 where io2: "SendAction (NewChannels :: (nat, unit) io_channels) sample_action = Some io2"
    by (simp add: SendAction_def NewChannels_def chan_defs)
  let ?s2 = "?s1\<lparr>sy_pend := [], sy_io := io2\<rparr>"
  have r2: "hts_reach (\<lambda>_. 0) sample_engine ?s2"
    by (rule reach_step [OF sample_tick_reach hts_io [OF send_action [OF p]]]) (simp add: i io2)
  have b2: "chan_buf (io_action io2) = [sample_action]"
    using io_send_bufs(2) [OF io2] by (simp add: NewChannels_def chan_make_def)
  then obtain a io3 where rcv: "recv_Actions io2 = Some (a, io3)"
    using io_recv_blocks(2) [of io2] by (cases "recv_Actions io2") auto
  with io_recv_bufs(2) [OF rcv] b2 have a: "a = sample_action" and b3: "chan_buf (io_action io3) = []" by auto
  let ?s3 = "?s2\<lparr>sy_io := io3, sy_work := Some (OutResult (handleAction a (None, Some ()))),
      sy_placed := sy_placed ?s2 @ [a]\<rparr>"
  have r3: "hts_reach (\<lambda>_. 0) sample_engine ?s3"
    by (rule reach_step [OF r2 hts_io [OF work_action]]) (simp_all add: w rcv)
  have "sy_placed ?s3 = [sample_action]" by (simp add: run_handler_def hts_init_def a)
  moreover have "actions_of (sy_sent ?s3) = [sample_action]"
    using orders_placed_once_in_order [OF r3] by (simp add: b3 a run_handler_def hts_init_def)
  ultimately show ?thesis using r3 by blast
qed

theorem engine_worker_progress_witness:
  "\<exists>s'. io_step (\<lambda>_. 0)
    (run_handler (hts_init sample_engine :: (nat, unit) hts) (sample_engine, [Action sample_action])) s'"
proof (rule engine_worker_progress [OF sample_tick_reach])
  show "outstanding (run_handler (hts_init sample_engine :: (nat, unit) hts) (sample_engine, [Action sample_action])) < 129"
    by (simp add: outstanding_def run_handler_def hts_init_def NewChannels_def chan_make_def)
qed (simp_all add: quiescent_def run_handler_def ot_New_def)

end
