(* ===== verification/Ring_Buffer.thy ===== *)
theory Ring_Buffer
  imports Complex_Main HTS_Prelude "HOL-Library.Word"
begin

unbundle bit_operations_syntax

text \<open>
  \<open>internal/core/pkg/ringbuffer/ringbuffer.go\<close>: a ring of 65536 slots between producers
  and consumers, with \<open>uint64\<close> sequence numbers that start at the wrapped value -1, a
  flag per slot that holds the sequence last committed to it, and a gate that keeps a
  producer from running more than one turn ahead of the slowest consumer.

  The atomic actions of \<open>Publish\<close> are definitions of their own. \<open>ring_step\<close> interleaves them
  for any number of producers with the loops of the consumers; \<open>rb_Publish\<close> is their
  composition in a call that no other producer interrupts, whose gating loop reads the
  cursors given as an argument, turn by turn, and spins on (\<open>None\<close>) when none lets it pass.
  The write of a slot, several fields in Go, is one step: under the invariant no other
  goroutine touches the slot meanwhile.
\<close>

section \<open>State and operations\<close>

abbreviation RingSize :: "64 word" where "RingSize \<equiv> 65536"
abbreviation RingMask :: "64 word" where "RingMask \<equiv> 65535"

record market_tick =
  mt_SymbolID :: int
  mt_Volume :: int
  mt_Price :: rat
  mt_Timestamp :: int

record ring_buffer =
  rb_producerCursor :: "64 word"
  rb_gatingSequenceCache :: "64 word"
  rb_consumerCursors :: "64 word list"
  rb_flags :: "64 word \<Rightarrow> 64 word"
  rb_data :: "64 word \<Rightarrow> market_tick"

definition NewRingBuffer :: ring_buffer where
  "NewRingBuffer = \<lparr>rb_producerCursor = NOT 0, rb_gatingSequenceCache = 0,
     rb_consumerCursors = [], rb_flags = (\<lambda>_. NOT 0),
     rb_data = (\<lambda>_. \<lparr>mt_SymbolID = 0, mt_Volume = 0, mt_Price = 0, mt_Timestamp = 0\<rparr>)\<rparr>"

definition AddConsumer :: "ring_buffer \<Rightarrow> nat \<times> ring_buffer" where
  "AddConsumer rb = (length (rb_consumerCursors rb),
     rb\<lparr>rb_consumerCursors := rb_consumerCursors rb @ [NOT 0]\<rparr>)"

fun min_cursor :: "64 word \<Rightarrow> 64 word list \<Rightarrow> 64 word" where
  "min_cursor m [] = m"
| "min_cursor m (v # vs) = min_cursor (if v < m then v else m) vs"

fun gate_loop :: "64 word \<Rightarrow> 64 word list list \<Rightarrow> 64 word option" where
  "gate_loop sq [] = None"
| "gate_loop sq (vals # scans) =
     (let m = min_cursor (NOT 0) vals in if sq - m \<le> RingSize then Some m else gate_loop sq scans)"

definition publish_gate :: "64 word \<Rightarrow> 64 word \<Rightarrow> 64 word list list \<Rightarrow> 64 word option" where
  "publish_gate sq cached scans =
     (if sq - cached > RingSize then gate_loop sq scans else Some cached)"

text \<open>The atomic actions of \<open>Publish\<close>: the addition that reserves a sequence number, the load
  of the cache with its comparison, the write of the slot and the store of its flag.\<close>

definition rb_reserve :: "ring_buffer \<Rightarrow> 64 word \<times> ring_buffer" where
  "rb_reserve rb = (rb_producerCursor rb + 1, rb\<lparr>rb_producerCursor := rb_producerCursor rb + 1\<rparr>)"

definition rb_room :: "ring_buffer \<Rightarrow> 64 word \<Rightarrow> bool" where
  "rb_room rb sq \<longleftrightarrow> \<not> sq - rb_gatingSequenceCache rb > RingSize"

definition rb_write :: "int \<Rightarrow> ring_buffer \<Rightarrow> 64 word \<Rightarrow> int \<Rightarrow> rat \<Rightarrow> ring_buffer" where
  "rb_write now rb sq symbolID price =
     rb\<lparr>rb_data := (rb_data rb)(sq AND RingMask := \<lparr>mt_SymbolID = symbolID, mt_Volume = 0,
       mt_Price = price, mt_Timestamp = now\<rparr>)\<rparr>"

definition rb_commit :: "ring_buffer \<Rightarrow> 64 word \<Rightarrow> ring_buffer" where
  "rb_commit rb sq = rb\<lparr>rb_flags := (rb_flags rb)(sq AND RingMask := sq)\<rparr>"

text \<open>A call of \<open>Publish\<close> that no other producer interrupts.\<close>

definition rb_Publish ::
    "int \<Rightarrow> 64 word list list \<Rightarrow> ring_buffer \<Rightarrow> int \<Rightarrow> rat \<Rightarrow> ring_buffer option" where
  "rb_Publish now scans rb symbolID price =
     (let (sq, rb1) = rb_reserve rb
      in case publish_gate sq (rb_gatingSequenceCache rb1) scans of
           None \<Rightarrow> None
         | Some g \<Rightarrow>
             Some (rb_commit (rb_write now (rb1\<lparr>rb_gatingSequenceCache := g\<rparr>) sq symbolID price) sq))"

lemmas publish_actions = rb_reserve_def rb_write_def rb_commit_def

text \<open>\<open>WaitForBusy\<close> and \<open>WaitForLazy\<close> load the flag of one slot until it has the next
  sequence; the loaded values are an argument. The two differ in how they pause.\<close>

fun wait_loop :: "64 word list \<Rightarrow> 64 word \<Rightarrow> 64 word option" where
  "wait_loop [] nxt = None"
| "wait_loop (f # fs) nxt = (if f = nxt then Some nxt else wait_loop fs nxt)"

definition WaitForBusy :: "64 word list \<Rightarrow> 64 word \<Rightarrow> 64 word option" where
  "WaitForBusy loads readerCursor = wait_loop loads (readerCursor + 1)"

definition WaitForLazy :: "64 word list \<Rightarrow> 64 word \<Rightarrow> 64 word option" where
  "WaitForLazy loads readerCursor = wait_loop loads (readerCursor + 1)"

definition wait_index :: "64 word \<Rightarrow> 64 word" where
  "wait_index readerCursor = (readerCursor + 1) AND RingMask"

definition rb_Get :: "ring_buffer \<Rightarrow> 64 word \<Rightarrow> market_tick" where
  "rb_Get rb sq = rb_data rb (sq AND RingMask)"

section \<open>Slots\<close>

lemma slot_of_nat: "word_of_nat n AND RingMask = word_of_nat (n mod 65536)"
proof -
  have "word_of_nat n AND RingMask = take_bit 16 (word_of_nat n :: 64 word)"
    by (simp add: take_bit_eq_mask mask_eq_exp_minus_1)
  also have "\<dots> = word_of_nat (take_bit 16 n)"
    by (simp add: take_bit_of_nat)
  finally show ?thesis by (simp add: take_bit_eq_mod)
qed

lemma unat_nat64: "n < 18446744073709551616 \<Longrightarrow> unat (word_of_nat n :: 64 word) = n"
  by (simp add: unat_of_nat)

lemma word_of_nat_inj64:
  "m < 18446744073709551616 \<Longrightarrow> n < 18446744073709551616 \<Longrightarrow>
    (word_of_nat m :: 64 word) = word_of_nat n \<longleftrightarrow> m = n"
  by (metis unat_nat64)

lemma unat_max64 [simp]: "unat (- 1 :: 64 word) = 18446744073709551615"
  by (simp add: unsigned_minus_1_eq_mask mask_eq_exp_minus_1)

lemma word_of_nat_not_max: "n < 18446744073709551615 \<Longrightarrow> (word_of_nat n :: 64 word) \<noteq> NOT 0"
  using unat_nat64 [of n] unat_max64 by auto

section \<open>The buffer as a log\<close>

text \<open>\<open>rb_rel rb hist\<close>: the buffer has published exactly \<open>hist\<close>, and the last 65536 entries of
  the log are in their slots with their flags set. The bound keeps the sequence numbers
  from wrapping.\<close>

definition rb_rel :: "ring_buffer \<Rightarrow> market_tick list \<Rightarrow> bool" where
  "rb_rel rb hist \<longleftrightarrow>
     length hist < 9223372036854775808 \<and>
     rb_producerCursor rb + 1 = word_of_nat (length hist) \<and>
     (\<forall>s < length hist. length hist \<le> s + 65536 \<longrightarrow>
        rb_flags rb (word_of_nat (s mod 65536)) = word_of_nat s \<and>
        rb_data rb (word_of_nat (s mod 65536)) = hist ! s) \<and>
     (\<forall>i < 65536. length hist \<le> i \<longrightarrow> rb_flags rb (word_of_nat i) = NOT 0)"

definition published :: "int \<Rightarrow> int \<Rightarrow> rat \<Rightarrow> market_tick" where
  "published now symbolID price =
     \<lparr>mt_SymbolID = symbolID, mt_Volume = 0, mt_Price = price, mt_Timestamp = now\<rparr>"

definition next_read :: "64 word \<Rightarrow> nat" where
  "next_read c = unat (c + 1)"

lemma rb_rel_New: "rb_rel NewRingBuffer []"
  by (simp add: rb_rel_def NewRingBuffer_def)

lemma rb_rel_AddConsumer: "rb_rel rb hist \<Longrightarrow> rb_rel (snd (AddConsumer rb)) hist"
  by (simp add: rb_rel_def AddConsumer_def)

lemma rb_Publish_cases:
  assumes "rb_Publish now scans rb sm price = Some rb'"
  obtains g where "publish_gate (rb_producerCursor rb + 1) (rb_gatingSequenceCache rb) scans = Some g"
    and "rb' = rb\<lparr>rb_producerCursor := rb_producerCursor rb + 1, rb_gatingSequenceCache := g,
      rb_data := (rb_data rb)((rb_producerCursor rb + 1) AND RingMask := published now sm price),
      rb_flags := (rb_flags rb)((rb_producerCursor rb + 1) AND RingMask := rb_producerCursor rb + 1)\<rparr>"
  using assms by (auto simp: rb_Publish_def publish_actions Let_def published_def split: option.splits)

lemma slot_distinct:
  fixes s n :: nat
  assumes "s < n" and "n < s + 65536"
  shows "(word_of_nat (s mod 65536) :: 64 word) \<noteq> word_of_nat (n mod 65536)"
proof -
  have "s mod 65536 \<noteq> n mod 65536"
  proof
    assume "s mod 65536 = n mod 65536"
    then have "65536 dvd n - s" using assms(1) by (metis mod_eq_dvd_iff_nat less_imp_le)
    with assms show False by (auto dest: dvd_imp_le)
  qed
  moreover have "s mod 65536 < 18446744073709551616" "n mod 65536 < 18446744073709551616"
    using mod_less_divisor [of 65536 s] mod_less_divisor [of 65536 n] by linarith+
  ultimately show ?thesis by (simp add: word_of_nat_inj64)
qed

lemma rb_rel_Publish:
  assumes rel: "rb_rel rb hist" and room: "length hist + 1 < 9223372036854775808"
    and pub: "rb_Publish now scans rb sm price = Some rb'"
  shows "rb_rel rb' (hist @ [published now sm price])"
proof -
  let ?n = "length hist"
  have sq: "rb_producerCursor rb + 1 = word_of_nat ?n" using rel by (simp add: rb_rel_def)
  from pub obtain g where rb': "rb' = rb\<lparr>rb_producerCursor := word_of_nat ?n, rb_gatingSequenceCache := g,
      rb_data := (rb_data rb)(word_of_nat (?n mod 65536) := published now sm price),
      rb_flags := (rb_flags rb)(word_of_nat (?n mod 65536) := word_of_nat ?n)\<rparr>"
    by (rule rb_Publish_cases) (simp add: sq slot_of_nat)
  have slots: "rb_flags rb' (word_of_nat (s mod 65536)) = word_of_nat s \<and>
      rb_data rb' (word_of_nat (s mod 65536)) = (hist @ [published now sm price]) ! s"
    if "s < ?n + 1" "?n + 1 \<le> s + 65536" for s
  proof (cases "s = ?n")
    case True
    then show ?thesis by (simp add: rb')
  next
    case False
    with that have s: "s < ?n" "?n < s + 65536" by simp_all
    with rel have "rb_flags rb (word_of_nat (s mod 65536)) = word_of_nat s"
      "rb_data rb (word_of_nat (s mod 65536)) = hist ! s" by (simp_all add: rb_rel_def)
    with slot_distinct [OF s] s show ?thesis by (simp add: rb' nth_append)
  qed
  have fresh: "rb_flags rb' (word_of_nat i) = NOT 0" if "i < 65536" "?n + 1 \<le> i" for i
  proof -
    have "(word_of_nat i :: 64 word) \<noteq> word_of_nat (?n mod 65536)"
      using that by (simp add: word_of_nat_inj64)
    with rel that show ?thesis by (simp add: rb_rel_def rb')
  qed
  show ?thesis unfolding rb_rel_def
  proof (intro conjI allI impI)
    show "rb_producerCursor rb' + 1 = word_of_nat (length (hist @ [published now sm price]))"
      by (simp add: rb')
  qed (use room slots fresh in auto)
qed

section \<open>Reading\<close>

lemma next_read_max [simp]: "next_read (- 1) = 0"
  by (simp add: next_read_def)

lemma next_read_Suc: "c \<noteq> NOT 0 \<Longrightarrow> next_read c = unat c + 1"
  unfolding next_read_def using unatSuc [of c] by (simp add: ac_simps eq_neg_iff_add_eq_0)

lemma next_read_word: "c + 1 = word_of_nat (next_read c)"
  by (simp add: next_read_def)

lemma wait_index_slot: "wait_index c = word_of_nat (next_read c mod 65536)"
  using slot_of_nat [of "next_read c"] by (simp only: wait_index_def next_read_word)

text \<open>A consumer whose next sequence is published and not yet overwritten finds its flag
  and its entry; one that has read everything finds another flag and waits.\<close>

lemma rb_read:
  assumes "rb_rel rb hist" and "next_read c < length hist" and "length hist \<le> next_read c + 65536"
  shows "rb_flags rb (wait_index c) = c + 1" and "rb_Get rb (c + 1) = hist ! next_read c"
  using assms slot_of_nat [of "next_read c"]
  unfolding rb_rel_def rb_Get_def wait_index_slot next_read_word by simp_all

lemma rb_read_blocks:
  assumes "rb_rel rb hist" and "next_read c = length hist"
  shows "rb_flags rb (wait_index c) \<noteq> c + 1"
proof (cases "length hist < 65536")
  case True
  with assms have "rb_flags rb (wait_index c) = NOT 0" by (simp add: rb_rel_def wait_index_slot)
  moreover have "c + 1 \<noteq> NOT 0"
    unfolding next_read_word using assms(2) True by (intro word_of_nat_not_max) simp
  ultimately show ?thesis by simp
next
  case False
  let ?s = "length hist - 65536"
  from False have "?s < length hist" "length hist \<le> ?s + 65536" by simp_all
  with assms(1) have "rb_flags rb (word_of_nat (?s mod 65536)) = word_of_nat ?s"
    by (simp only: rb_rel_def)
  moreover have "?s mod 65536 = length hist mod 65536" using False by (simp add: mod_if)
  ultimately have "rb_flags rb (wait_index c) = word_of_nat ?s" by (simp add: wait_index_slot assms(2))
  moreover have "word_of_nat ?s \<noteq> (word_of_nat (length hist) :: 64 word)"
    using assms(1) False by (simp add: word_of_nat_inj64 rb_rel_def)
  ultimately show ?thesis by (simp add: next_read_word assms(2))
qed

section \<open>Gating\<close>

lemma min_cursor_le: "min_cursor m vs \<le> m \<and> (\<forall>v\<in>set vs. min_cursor m vs \<le> v)"
proof (induction vs arbitrary: m)
  case Nil
  then show ?case by simp
next
  case (Cons v vs)
  from Cons.IH [of "if v < m then v else m"] show ?case by (auto split: if_splits)
qed

lemma publish_gate_early:
  "n \<le> 65536 \<Longrightarrow> publish_gate (word_of_nat n) 0 scans = Some 0"
  using unat_nat64 [of n] by (simp add: publish_gate_def word_less_nat_alt)

lemma gate_room:
  assumes "word_of_nat n - g \<le> RingSize" and "g \<le> c" and "unat c < n" and "n < 9223372036854775808"
  shows "n \<le> unat c + 65536"
proof -
  have g: "unat g \<le> unat c" using assms(2) by (simp add: word_le_nat_alt)
  have n: "unat (word_of_nat n :: 64 word) = n" using assms(4) by (simp add: unat_nat64)
  have "g \<le> word_of_nat n" using g n assms(3) by (simp add: word_le_nat_alt)
  then have "unat (word_of_nat n - g) = n - unat g" by (simp add: unat_sub n)
  moreover have "unat (word_of_nat n - g) \<le> 65536" using assms(1) by (simp add: word_le_nat_alt)
  ultimately show ?thesis using g by linarith
qed

section \<open>Producers and consumers as goroutines\<close>

text \<open>Any number of producers call \<open>Publish\<close> concurrently, and every consumer runs the loop of
  the worker: wait for the next sequence, read the entry, store the own cursor. A phase
  says where a goroutine stands; every access to shared memory is one step. The loop over
  the cursors keeps its index and the minimum so far. \<open>rs_calls\<close> lists the arguments
  of the calls in the order of their sequence numbers, \<open>rs_log\<close> the entries they have
  written, \<open>rs_received\<close> what each consumer has read. \<open>rs_late\<close> records that the 65537th
  or a later number was taken while some consumer had not read anything.\<close>

datatype producer =
    PIdle
  | PReserved "64 word" int rat
  | PScanning "64 word" int rat nat "64 word"
  | PPassed "64 word" int rat
  | PWritten "64 word"

datatype consumer = CWaiting | CFound "64 word" | CRead "64 word"

record ring_sys =
  rs_rb :: ring_buffer
  rs_producers :: "nat \<Rightarrow> producer"
  rs_consumers :: "consumer list"
  rs_received :: "market_tick list list"
  rs_calls :: "(int \<times> rat) list"
  rs_log :: "nat \<Rightarrow> market_tick option"
  rs_late :: bool

definition ring_start :: ring_sys where
  "ring_start = \<lparr>rs_rb = NewRingBuffer, rs_producers = (\<lambda>_. PIdle), rs_consumers = [],
     rs_received = [], rs_calls = [], rs_log = (\<lambda>_. None), rs_late = False\<rparr>"

abbreviation rs_cursors :: "ring_sys \<Rightarrow> 64 word list" where
  "rs_cursors S \<equiv> rb_consumerCursors (rs_rb S)"

definition rs_load :: "ring_sys \<Rightarrow> nat \<Rightarrow> 64 word \<Rightarrow> int \<Rightarrow> rat \<Rightarrow> ring_sys" where
  "rs_load S p sq sm price = S\<lparr>rs_producers := (rs_producers S)(p :=
     if rb_room (rs_rb S) sq then PPassed sq sm price else PScanning sq sm price 0 (NOT 0))\<rparr>"

definition rs_scan :: "ring_sys \<Rightarrow> nat \<Rightarrow> 64 word \<Rightarrow> int \<Rightarrow> rat \<Rightarrow> nat \<Rightarrow> 64 word \<Rightarrow> ring_sys" where
  "rs_scan S p sq sm price j m =
     (if j < length (rs_cursors S)
      then S\<lparr>rs_producers := (rs_producers S)(p :=
        PScanning sq sm price (Suc j) (min_cursor m [rs_cursors S ! j]))\<rparr>
      else if sq - m \<le> RingSize
      then S\<lparr>rs_rb := (rs_rb S)\<lparr>rb_gatingSequenceCache := m\<rparr>,
        rs_producers := (rs_producers S)(p := PPassed sq sm price)\<rparr>
      else S\<lparr>rs_producers := (rs_producers S)(p := PScanning sq sm price 0 (NOT 0))\<rparr>)"

text \<open>The consumers are added before the first call, as the comment of \<open>AddConsumer\<close> demands;
  the bound on the calls keeps the sequence numbers from wrapping.\<close>

inductive ring_step :: "ring_sys \<Rightarrow> ring_sys \<Rightarrow> bool" where
  ring_add: "rs_calls S = [] \<Longrightarrow>
    ring_step S (S\<lparr>rs_rb := snd (AddConsumer (rs_rb S)), rs_consumers := rs_consumers S @ [CWaiting],
      rs_received := rs_received S @ [[]]\<rparr>)"
| ring_reserve: "rs_producers S p = PIdle \<Longrightarrow> length (rs_calls S) + 1 < 9223372036854775808 \<Longrightarrow>
    rb_reserve (rs_rb S) = (sq, rb') \<Longrightarrow>
    ring_step S (S\<lparr>rs_rb := rb', rs_producers := (rs_producers S)(p := PReserved sq sm price),
      rs_calls := rs_calls S @ [(sm, price)],
      rs_late := (rs_late S \<or> 65536 \<le> length (rs_calls S) \<and> NOT 0 \<in> set (rs_cursors S))\<rparr>)"
| ring_load: "rs_producers S p = PReserved sq sm price \<Longrightarrow> ring_step S (rs_load S p sq sm price)"
| ring_scan: "rs_producers S p = PScanning sq sm price j m \<Longrightarrow> ring_step S (rs_scan S p sq sm price j m)"
| ring_write: "rs_producers S p = PPassed sq sm price \<Longrightarrow>
    ring_step S (S\<lparr>rs_rb := rb_write now (rs_rb S) sq sm price,
      rs_producers := (rs_producers S)(p := PWritten sq),
      rs_log := (rs_log S)(unat sq \<mapsto> published now sm price)\<rparr>)"
| ring_commit: "rs_producers S p = PWritten sq \<Longrightarrow>
    ring_step S (S\<lparr>rs_rb := rb_commit (rs_rb S) sq, rs_producers := (rs_producers S)(p := PIdle)\<rparr>)"
| ring_wait: "i < length (rs_cursors S) \<Longrightarrow> rs_consumers S ! i = CWaiting \<Longrightarrow>
    c = rs_cursors S ! i \<Longrightarrow> WaitForBusy [rb_flags (rs_rb S) (wait_index c)] c = Some nxt \<Longrightarrow>
    ring_step S (S\<lparr>rs_consumers := (rs_consumers S)[i := CFound nxt]\<rparr>)"
| ring_get: "i < length (rs_cursors S) \<Longrightarrow> rs_consumers S ! i = CFound nxt \<Longrightarrow>
    ring_step S (S\<lparr>rs_consumers := (rs_consumers S)[i := CRead nxt],
      rs_received := (rs_received S)[i := rs_received S ! i @ [rb_Get (rs_rb S) nxt]]\<rparr>)"
| ring_store: "i < length (rs_cursors S) \<Longrightarrow> rs_consumers S ! i = CRead nxt \<Longrightarrow>
    ring_step S (S\<lparr>rs_rb := (rs_rb S)\<lparr>rb_consumerCursors := (rs_cursors S)[i := nxt]\<rparr>,
      rs_consumers := (rs_consumers S)[i := CWaiting]\<rparr>)"

section \<open>Sequence numbers\<close>

text \<open>The number a call in progress holds, and how far it has come.\<close>

fun pr_held :: "producer \<Rightarrow> nat option" where
  "pr_held PIdle = None"
| "pr_held (PReserved sq sm price) = Some (unat sq)"
| "pr_held (PScanning sq sm price j m) = Some (unat sq)"
| "pr_held (PPassed sq sm price) = Some (unat sq)"
| "pr_held (PWritten sq) = Some (unat sq)"

fun pr_args :: "producer \<Rightarrow> (int \<times> rat) option" where
  "pr_args (PReserved sq sm price) = Some (sm, price)"
| "pr_args (PScanning sq sm price j m) = Some (sm, price)"
| "pr_args (PPassed sq sm price) = Some (sm, price)"
| "pr_args _ = None"

fun pr_passed :: "producer \<Rightarrow> bool" where
  "pr_passed (PPassed sq sm price) = True"
| "pr_passed (PWritten sq) = True"
| "pr_passed _ = False"

fun pr_written :: "producer \<Rightarrow> bool" where
  "pr_written (PWritten sq) = True"
| "pr_written _ = False"

text \<open>A number is open once its call has passed the gate, stored once it has written its
  entry, committed once it has returned.\<close>

definition seq_at :: "(producer \<Rightarrow> bool) \<Rightarrow> nat \<Rightarrow> (nat \<Rightarrow> producer) \<Rightarrow> nat \<Rightarrow> bool" where
  "seq_at P n pr k \<longleftrightarrow> k < n \<and> (\<forall>p. pr_held (pr p) = Some k \<longrightarrow> P (pr p))"

abbreviation seq_open :: "nat \<Rightarrow> (nat \<Rightarrow> producer) \<Rightarrow> nat \<Rightarrow> bool" where "seq_open \<equiv> seq_at pr_passed"
abbreviation seq_stored :: "nat \<Rightarrow> (nat \<Rightarrow> producer) \<Rightarrow> nat \<Rightarrow> bool" where "seq_stored \<equiv> seq_at pr_written"
abbreviation committed :: "nat \<Rightarrow> (nat \<Rightarrow> producer) \<Rightarrow> nat \<Rightarrow> bool" where "committed \<equiv> seq_at (\<lambda>_. False)"

abbreviation rs_committed :: "ring_sys \<Rightarrow> nat \<Rightarrow> bool" where
  "rs_committed S \<equiv> committed (length (rs_calls S)) (rs_producers S)"

definition holders_ok :: "nat \<Rightarrow> (nat \<Rightarrow> producer) \<Rightarrow> bool" where
  "holders_ok n pr \<longleftrightarrow> (\<forall>p k. pr_held (pr p) = Some k \<longrightarrow> k < n) \<and>
     (\<forall>p q k. pr_held (pr p) = Some k \<longrightarrow> pr_held (pr q) = Some k \<longrightarrow> p = q)"

lemma seq_at_mono: "seq_at P n pr k \<Longrightarrow> (\<And>ph. P ph \<Longrightarrow> Q ph) \<Longrightarrow> seq_at Q n pr k"
  by (auto simp: seq_at_def)

lemma pr_written_passed: "pr_written ph \<Longrightarrow> pr_passed ph"
  by (cases ph) simp_all

lemma committed_stored: "committed n pr k \<Longrightarrow> seq_stored n pr k"
  by (erule seq_at_mono) simp

lemma stored_open: "seq_stored n pr k \<Longrightarrow> seq_open n pr k"
  by (erule seq_at_mono) (rule pr_written_passed)

lemma seq_at_move:
  assumes "holders_ok n pr" and "pr_held (pr p) = Some h" and "pr_held ph = Some h"
  shows "seq_at P n (pr(p := ph)) k \<longleftrightarrow> (if k = h then P ph else seq_at P n pr k)"
  using assms unfolding seq_at_def holders_ok_def
  by (cases "k = h"; simp; metis option.inject)

lemma seq_at_leave:
  assumes "holders_ok n pr" and "pr_held (pr p) = Some h" and "pr_held ph = None"
  shows "seq_at P n (pr(p := ph)) k \<longleftrightarrow> k = h \<or> seq_at P n pr k"
  using assms unfolding seq_at_def holders_ok_def
  by (cases "k = h"; simp; metis option.inject)

lemma seq_at_take:
  assumes "holders_ok n pr" and "pr_held (pr p) = None" and "pr_held ph = Some n" and "\<not> P ph"
  shows "seq_at P (Suc n) (pr(p := ph)) k \<longleftrightarrow> seq_at P n pr k"
  using assms by (auto simp: seq_at_def holders_ok_def less_Suc_eq)

lemma holders_move:
  assumes "holders_ok n pr" and "pr_held (pr p) = Some h" and "pr_held ph = Some h \<or> pr_held ph = None"
  shows "holders_ok n (pr(p := ph))"
  using assms by (auto simp: holders_ok_def)

lemma holders_take:
  assumes "holders_ok n pr" and "pr_held ph = Some n"
  shows "holders_ok (Suc n) (pr(p := ph))"
  using assms by (fastforce simp: holders_ok_def)

lemma seq_at_holder:
  assumes "holders_ok n pr" and "pr_held (pr p) = Some h" and "P (pr p)"
  shows "seq_at P n pr h"
  using assms unfolding seq_at_def holders_ok_def by metis

lemma seq_at_held: "pr_held (pr p) = Some h \<Longrightarrow> seq_at P n pr h \<Longrightarrow> P (pr p)"
  by (simp add: seq_at_def)

section \<open>The invariant\<close>

text \<open>\<open>ring_base\<close> holds in every run: the numbers handed out, their holders, the log, and that a
  flag names a committed number.\<close>

definition ring_base :: "ring_sys \<Rightarrow> bool" where
  "ring_base S \<longleftrightarrow>
     length (rs_calls S) < 9223372036854775808 \<and>
     rb_producerCursor (rs_rb S) + 1 = word_of_nat (length (rs_calls S)) \<and>
     holders_ok (length (rs_calls S)) (rs_producers S) \<and>
     (\<forall>p k a. pr_held (rs_producers S p) = Some k \<longrightarrow> pr_args (rs_producers S p) = Some a \<longrightarrow>
        a = rs_calls S ! k) \<and>
     (\<forall>k. seq_stored (length (rs_calls S)) (rs_producers S) k \<longrightarrow>
        (\<exists>now. rs_log S k = Some (published now (fst (rs_calls S ! k)) (snd (rs_calls S ! k))))) \<and>
     (\<forall>x. rb_flags (rs_rb S) x = NOT 0 \<or> (\<exists>k. rs_committed S k \<and> rb_flags (rs_rb S) x = word_of_nat k)) \<and>
     (rs_late S \<longrightarrow> 65536 < length (rs_calls S)) \<and>
     length (rs_consumers S) = length (rs_cursors S) \<and> length (rs_received S) = length (rs_cursors S)"

text \<open>One consumer: everything below its next number \<open>r\<close> is committed, no call more than a turn
  ahead of it has passed the gate, and the slots from \<open>r\<close> on hold what the log has.\<close>

definition slots_ok :: "ring_buffer \<Rightarrow> nat \<Rightarrow> (nat \<Rightarrow> producer) \<Rightarrow> (nat \<Rightarrow> market_tick option) \<Rightarrow> nat \<Rightarrow> bool" where
  "slots_ok rb n pr lg r \<longleftrightarrow> (\<forall>k < r. committed n pr k) \<and>
     (\<forall>k. seq_open n pr k \<longrightarrow> k < r + 65536) \<and>
     (\<forall>k \<ge> r. seq_stored n pr k \<longrightarrow> rb_data rb (word_of_nat (k mod 65536)) = the (lg k)) \<and>
     (\<forall>k \<ge> r. committed n pr k \<longrightarrow> rb_flags rb (word_of_nat (k mod 65536)) = word_of_nat k)"

fun phase_ok :: "(nat \<Rightarrow> bool) \<Rightarrow> 64 word \<Rightarrow> consumer \<Rightarrow> bool" where
  "phase_ok Q c CWaiting = True"
| "phase_ok Q c (CFound x) = (x = c + 1 \<and> Q (next_read c))"
| "phase_ok Q c (CRead x) = (x = c + 1 \<and> Q (next_read c))"

fun read_upto :: "64 word \<Rightarrow> consumer \<Rightarrow> nat" where
  "read_upto c (CRead x) = Suc (next_read c)"
| "read_upto c _ = next_read c"

definition cons_ok :: "ring_sys \<Rightarrow> nat \<Rightarrow> bool" where
  "cons_ok S i \<longleftrightarrow>
     slots_ok (rs_rb S) (length (rs_calls S)) (rs_producers S) (rs_log S) (next_read (rs_cursors S ! i)) \<and>
     phase_ok (rs_committed S) (rs_cursors S ! i) (rs_consumers S ! i) \<and>
     rs_received S ! i = map (the \<circ> rs_log S) [0..<read_upto (rs_cursors S ! i) (rs_consumers S ! i)]"

definition gate_ok :: "ring_sys \<Rightarrow> bool" where
  "gate_ok S \<longleftrightarrow> (65536 < length (rs_calls S) \<longrightarrow> NOT 0 \<notin> set (rs_cursors S)) \<and>
     (rs_calls S = [] \<longrightarrow> rb_gatingSequenceCache (rs_rb S) = 0) \<and>
     (rb_gatingSequenceCache (rs_rb S) = 0 \<or>
      (\<forall>c \<in> set (rs_cursors S). c \<noteq> NOT 0 \<and> rb_gatingSequenceCache (rs_rb S) \<le> c)) \<and>
     (\<forall>p sq sm price j m. rs_producers S p = PScanning sq sm price j m \<longrightarrow>
        NOT 0 \<notin> set (rs_cursors S) \<and> (\<forall>i < j. i < length (rs_cursors S) \<longrightarrow> m \<le> rs_cursors S ! i))"

definition ring_ok :: "ring_sys \<Rightarrow> bool" where
  "ring_ok S \<longleftrightarrow> ring_base S \<and>
     (\<not> rs_late S \<longrightarrow> gate_ok S \<and> (\<forall>i < length (rs_cursors S). cons_ok S i))"

lemma slot_distinct2:
  fixes j k :: nat
  assumes "j \<noteq> k" and "j < k + 65536" and "k < j + 65536"
  shows "(word_of_nat (j mod 65536) :: 64 word) \<noteq> word_of_nat (k mod 65536)"
  using assms slot_distinct [of j k] slot_distinct [of k j] by (cases "j < k") auto

lemma flag_committed:
  assumes "ring_base S" and "rb_flags (rs_rb S) x = word_of_nat k" and "k < 9223372036854775808"
  shows "rs_committed S k"
proof -
  from assms(1) have "rb_flags (rs_rb S) x = NOT 0 \<or>
      (\<exists>k. rs_committed S k \<and> rb_flags (rs_rb S) x = word_of_nat k)" by (simp add: ring_base_def)
  moreover have "(word_of_nat k :: 64 word) \<noteq> NOT 0" using assms(3) by (intro word_of_nat_not_max) simp
  ultimately obtain k' where k': "rs_committed S k'" "(word_of_nat k :: 64 word) = word_of_nat k'"
    using assms(2) by auto
  then have "k' < 9223372036854775808" using assms(1) by (simp add: seq_at_def ring_base_def)
  with k' assms(3) show ?thesis by (simp add: word_of_nat_inj64)
qed

lemma ring_ok_start: "ring_ok ring_start"
  by (simp add: ring_ok_def ring_base_def gate_ok_def ring_start_def NewRingBuffer_def holders_ok_def seq_at_def)

lemma ring_ok_add:
  assumes ok: "ring_ok S" and nil: "rs_calls S = []"
  shows "ring_ok (S\<lparr>rs_rb := snd (AddConsumer (rs_rb S)), rs_consumers := rs_consumers S @ [CWaiting],
      rs_received := rs_received S @ [[]]\<rparr>)" (is "ring_ok ?S")
proof -
  have "pr_held (rs_producers S p) = None" for p
    using ok nil by (simp add: ring_ok_def ring_base_def holders_ok_def)
  then have none: "rs_producers S p = PIdle" for p
    by (metis option.distinct(1) pr_held.elims)
  have "cons_ok ?S i" if i: "i < length (rs_cursors ?S)" "\<not> rs_late S" for i
    using ok i nil by (auto simp: ring_ok_def ring_base_def cons_ok_def AddConsumer_def nth_append
        slots_ok_def seq_at_def less_Suc_eq)
  moreover have "gate_ok ?S" if "\<not> rs_late S"
    using ok that nil by (auto simp: ring_ok_def gate_ok_def AddConsumer_def none)
  moreover have "ring_base ?S"
    using ok nil by (simp add: ring_ok_def ring_base_def AddConsumer_def)
  ultimately show ?thesis by (simp add: ring_ok_def)
qed

lemma ring_ok_reserve:
  assumes ok: "ring_ok S" and pr: "rs_producers S p = PIdle"
    and room: "length (rs_calls S) + 1 < 9223372036854775808"
    and res: "rb_reserve (rs_rb S) = (sq, rb')"
  shows "ring_ok (S\<lparr>rs_rb := rb', rs_producers := (rs_producers S)(p := PReserved sq sm price),
      rs_calls := rs_calls S @ [(sm, price)],
      rs_late := (rs_late S \<or> 65536 \<le> length (rs_calls S) \<and> NOT 0 \<in> set (rs_cursors S))\<rparr>)" (is "ring_ok ?S")
proof -
  let ?n = "length (rs_calls S)" and ?ph = "PReserved sq sm price"
  have base: "ring_base S" using ok by (simp add: ring_ok_def)
  have sq: "sq = word_of_nat ?n" and rb': "rb' = (rs_rb S)\<lparr>rb_producerCursor := word_of_nat ?n\<rparr>"
    using base res by (auto simp: rb_reserve_def ring_base_def)
  have h: "pr_held ?ph = Some ?n" using room by (simp add: sq unat_nat64)
  have ho: "holders_ok ?n (rs_producers S)" using base by (simp add: ring_base_def)
  have at: "seq_at P (Suc ?n) ((rs_producers S)(p := ?ph)) = seq_at P ?n (rs_producers S)"
    if "\<not> P ?ph" for P
    by (rule ext) (use seq_at_take [of ?n "rs_producers S" p ?ph P] ho h pr that in simp)
  have lt: "k < ?n" if "seq_at P ?n (rs_producers S) k" for P k using that by (simp add: seq_at_def)
  have cons: "cons_ok ?S i" if "i < length (rs_cursors S)" "\<not> rs_late S" for i
    using ok that by (simp add: ring_ok_def cons_ok_def slots_ok_def rb' at)
  have gate: "gate_ok ?S" if "\<not> rs_late ?S"
    using ok that by (auto simp: ring_ok_def gate_ok_def rb' split: if_splits)
  have "ring_base ?S"
    unfolding ring_base_def
  proof (intro conjI)
    show "holders_ok (length (rs_calls ?S)) (rs_producers ?S)"
      using holders_take [OF ho h] by simp
    have "k < ?n" if "pr_held (rs_producers S q) = Some k" for q k
      using ho that by (simp add: holders_ok_def)
    with base h show "\<forall>q k a. pr_held (rs_producers ?S q) = Some k \<longrightarrow> pr_args (rs_producers ?S q) = Some a \<longrightarrow>
        a = rs_calls ?S ! k" by (simp add: ring_base_def nth_append)
    show "\<forall>k. seq_stored (length (rs_calls ?S)) (rs_producers ?S) k \<longrightarrow>
        (\<exists>now. rs_log ?S k = Some (published now (fst (rs_calls ?S ! k)) (snd (rs_calls ?S ! k))))"
      using base lt by (simp add: ring_base_def at nth_append)
    show "rs_late ?S \<longrightarrow> 65536 < length (rs_calls ?S)" using base by (auto simp: ring_base_def)
  qed (use base room in \<open>simp_all add: ring_base_def rb' at\<close>)
  with cons gate show ?thesis by (simp add: ring_ok_def rb')
qed

lemma held_lt: "ring_ok S \<Longrightarrow> pr_held (rs_producers S p) = Some h \<Longrightarrow> h < length (rs_calls S)"
  by (simp add: ring_ok_def ring_base_def holders_ok_def)

lemma held_ahead:
  assumes "cons_ok S i" and "pr_held (rs_producers S p) = Some h"
  shows "next_read (rs_cursors S ! i) \<le> h"
proof (rule ccontr)
  assume "\<not> ?thesis"
  with assms(1) have "rs_committed S h" by (simp add: cons_ok_def slots_ok_def)
  with assms(2) show False by (simp add: seq_at_def)
qed

text \<open>A call that stays on the same side of the gate.\<close>

lemma ring_ok_turn:
  assumes ok: "ring_ok S" and h: "pr_held (rs_producers S p) = Some h" "pr_held ph = Some h"
    and side: "\<not> pr_passed (rs_producers S p)" "\<not> pr_passed ph"
    and args: "pr_args ph = pr_args (rs_producers S p)"
    and scan: "\<And>sq sm price j m. \<not> rs_late S \<Longrightarrow> ph = PScanning sq sm price j m \<Longrightarrow>
      NOT 0 \<notin> set (rs_cursors S) \<and> (\<forall>i < j. i < length (rs_cursors S) \<longrightarrow> m \<le> rs_cursors S ! i)"
  shows "ring_ok (S\<lparr>rs_producers := (rs_producers S)(p := ph)\<rparr>)" (is "ring_ok ?S")
proof -
  let ?n = "length (rs_calls S)"
  have base: "ring_base S" using ok by (simp add: ring_ok_def)
  have ho: "holders_ok ?n (rs_producers S)" using base by (simp add: ring_base_def)
  have at: "seq_at P ?n ((rs_producers S)(p := ph)) = seq_at P ?n (rs_producers S)"
    if "\<And>x. P x \<Longrightarrow> pr_passed x" for P
    by (rule ext) (use seq_at_move [OF ho h] seq_at_held [of "rs_producers S" p h P ?n] h(1) side that in auto)
  note ats = at [of pr_passed] at [of pr_written, OF pr_written_passed] at [of "\<lambda>_. False"]
  have "cons_ok ?S i" if "i < length (rs_cursors S)" "\<not> rs_late S" for i
    using ok that by (simp add: ring_ok_def cons_ok_def slots_ok_def ats)
  moreover have "gate_ok ?S" if "\<not> rs_late S"
    using ok that scan by (simp add: ring_ok_def gate_ok_def)
  moreover have "ring_base ?S"
    using base holders_move [OF ho h(1)] h args by (simp add: ring_base_def ats)
  ultimately show ?thesis by (simp add: ring_ok_def)
qed

text \<open>A call that passes the gate.\<close>

lemma ring_ok_pass:
  assumes ok: "ring_ok S" and h: "pr_held (rs_producers S p) = Some (unat sq)"
    and side: "\<not> pr_passed (rs_producers S p)"
    and args: "pr_args (rs_producers S p) = Some (sm, price)"
    and room: "\<And>i. \<not> rs_late S \<Longrightarrow> i < length (rs_cursors S) \<Longrightarrow> unat sq < next_read (rs_cursors S ! i) + 65536"
    and cache: "\<not> rs_late S \<Longrightarrow> g = 0 \<or> (\<forall>c \<in> set (rs_cursors S). c \<noteq> NOT 0 \<and> g \<le> c)"
  shows "ring_ok (S\<lparr>rs_rb := (rs_rb S)\<lparr>rb_gatingSequenceCache := g\<rparr>,
    rs_producers := (rs_producers S)(p := PPassed sq sm price)\<rparr>)" (is "ring_ok ?S")
proof -
  let ?n = "length (rs_calls S)" and ?ph = "PPassed sq sm price"
  have base: "ring_base S" using ok by (simp add: ring_ok_def)
  have ho: "holders_ok ?n (rs_producers S)" using base by (simp add: ring_base_def)
  have h': "pr_held ?ph = Some (unat sq)" by simp
  have at: "seq_at P ?n ((rs_producers S)(p := ?ph)) = seq_at P ?n (rs_producers S)"
    if "\<not> P ?ph" "\<not> P (rs_producers S p)" for P
    by (rule ext) (use seq_at_move [OF ho h h'] seq_at_held [of "rs_producers S" p _ P ?n] h that in auto)
  have nw: "\<not> pr_written (rs_producers S p)" using side pr_written_passed by blast
  have op: "seq_open ?n ((rs_producers S)(p := ?ph)) k \<longleftrightarrow> k = unat sq \<or> seq_open ?n (rs_producers S) k" for k
    using seq_at_move [OF ho h h', of pr_passed k] by simp
  note ats = at [of pr_written] at [of "\<lambda>_. False"] nw
  have "cons_ok ?S i" if "i < length (rs_cursors S)" "\<not> rs_late S" for i
    using ok that room [OF that(2,1)] by (auto simp: ring_ok_def cons_ok_def slots_ok_def ats op)
  moreover have "gate_ok ?S" if "\<not> rs_late S"
    using ok that cache h by (auto simp: ring_ok_def gate_ok_def ring_base_def holders_ok_def)
  moreover have "ring_base ?S"
    using base holders_move [OF ho h, of ?ph] h args by (simp add: ring_base_def ats)
  ultimately show ?thesis by (simp add: ring_ok_def)
qed

lemma ring_ok_load:
  assumes ok: "ring_ok S" and pr: "rs_producers S p = PReserved sq sm price"
  shows "ring_ok (rs_load S p sq sm price)"
proof (cases "rb_room (rs_rb S) sq")
  case True
  let ?g = "rb_gatingSequenceCache (rs_rb S)"
  have lt: "unat sq < length (rs_calls S)"
    by (rule held_lt [OF ok, of p]) (simp add: pr)
  have n: "length (rs_calls S) < 9223372036854775808" using ok by (simp add: ring_ok_def ring_base_def)
  have "unat sq < next_read (rs_cursors S ! i) + 65536" if late: "\<not> rs_late S" and i: "i < length (rs_cursors S)" for i
  proof (cases "?g = 0")
    case True
    with \<open>rb_room (rs_rb S) sq\<close> have "unat sq \<le> 65536" by (simp add: rb_room_def word_less_nat_alt not_less)
    moreover have "next_read (rs_cursors S ! i) = unat (rs_cursors S ! i) + 1" if "unat sq = 65536"
    proof (rule next_read_Suc)
      have "NOT 0 \<notin> set (rs_cursors S)" using ok late lt that by (simp add: ring_ok_def gate_ok_def)
      then show "rs_cursors S ! i \<noteq> NOT 0" using i nth_mem by metis
    qed
    ultimately show ?thesis by (cases "unat sq = 65536") auto
  next
    case False
    have "rs_cursors S ! i \<noteq> NOT 0" "?g \<le> rs_cursors S ! i"
      using ok late False i by (auto simp: ring_ok_def gate_ok_def)
    moreover have "next_read (rs_cursors S ! i) \<le> unat sq"
      using held_ahead [of S i p] ok late i pr by (simp add: ring_ok_def)
    moreover have "word_of_nat (unat sq) - ?g \<le> RingSize"
      using \<open>rb_room (rs_rb S) sq\<close> by (simp add: rb_room_def not_less)
    ultimately show ?thesis
      using gate_room [of "unat sq" ?g "rs_cursors S ! i"] lt n by (simp add: next_read_Suc)
  qed
  then have "ring_ok (S\<lparr>rs_rb := (rs_rb S)\<lparr>rb_gatingSequenceCache := ?g\<rparr>,
      rs_producers := (rs_producers S)(p := PPassed sq sm price)\<rparr>)"
  proof (intro ring_ok_pass [OF ok])
    show "?g = 0 \<or> (\<forall>c \<in> set (rs_cursors S). c \<noteq> NOT 0 \<and> ?g \<le> c)" if "\<not> rs_late S"
      using ok that by (simp add: ring_ok_def gate_ok_def)
  qed (simp_all add: pr)
  with True show ?thesis by (simp add: rs_load_def)
next
  case False
  have "NOT 0 \<notin> set (rs_cursors S)" if late: "\<not> rs_late S"
  proof (cases "rb_gatingSequenceCache (rs_rb S) = 0")
    case True
    with False have "65536 < unat sq" by (simp add: rb_room_def word_less_nat_alt)
    moreover have "unat sq < length (rs_calls S)"
      by (rule held_lt [OF ok, of p]) (simp add: pr)
    ultimately show ?thesis using ok late by (simp add: ring_ok_def gate_ok_def)
  next
    case False
    with ok late show ?thesis by (auto simp: ring_ok_def gate_ok_def)
  qed
  then have "ring_ok (S\<lparr>rs_producers := (rs_producers S)(p := PScanning sq sm price 0 (NOT 0))\<rparr>)"
    using pr ok by (intro ring_ok_turn) auto
  with False show ?thesis by (simp add: rs_load_def)
qed

lemma ring_ok_scan:
  assumes ok: "ring_ok S" and pr: "rs_producers S p = PScanning sq sm price j m"
  shows "ring_ok (rs_scan S p sq sm price j m)"
proof -
  have started: "NOT 0 \<notin> set (rs_cursors S)" and below: "\<And>i. i < j \<Longrightarrow> i < length (rs_cursors S) \<Longrightarrow> m \<le> rs_cursors S ! i"
    if "\<not> rs_late S" using ok pr that by (auto simp: ring_ok_def gate_ok_def)
  have lt: "unat sq < length (rs_calls S)"
    by (rule held_lt [OF ok, of p]) (simp add: pr)
  have n: "length (rs_calls S) < 9223372036854775808" using ok by (simp add: ring_ok_def ring_base_def)
  have room: "unat sq < next_read (rs_cursors S ! i) + 65536"
    if late: "\<not> rs_late S" and i: "i < length (rs_cursors S)" and fin: "\<not> j < length (rs_cursors S)"
      and sc: "sq - m \<le> RingSize" for i
  proof -
    have "rs_cursors S ! i \<noteq> NOT 0" using started [OF late] i nth_mem by metis
    moreover have "m \<le> rs_cursors S ! i" using below [OF late, of i] i fin by simp
    moreover have "next_read (rs_cursors S ! i) \<le> unat sq"
      using held_ahead [of S i p] ok late i pr by (simp add: ring_ok_def)
    ultimately show ?thesis
      using gate_room [of "unat sq" m "rs_cursors S ! i"] lt n sc by (simp add: next_read_Suc)
  qed
  have "ring_ok (S\<lparr>rs_producers := (rs_producers S)(p := PScanning sq sm price (Suc j)
      (min_cursor m [rs_cursors S ! j]))\<rparr>)"
  proof (intro ring_ok_turn [OF ok])
    show "NOT 0 \<notin> set (rs_cursors S) \<and> (\<forall>i < j'. i < length (rs_cursors S) \<longrightarrow> m' \<le> rs_cursors S ! i)"
      if "\<not> rs_late S" "PScanning sq sm price (Suc j) (min_cursor m [rs_cursors S ! j]) =
        PScanning sq' sm' price' j' m'" for sq' sm' price' j' m'
      using started [OF that(1)] below [OF that(1)] that(2)
      by (auto simp: less_Suc_eq) (meson order_trans not_less order_less_imp_le)+
  qed (simp_all add: pr)
  moreover have "ring_ok (S\<lparr>rs_producers := (rs_producers S)(p := PScanning sq sm price 0 (NOT 0))\<rparr>)"
    using ok pr started by (intro ring_ok_turn) auto
  moreover have "ring_ok (S\<lparr>rs_rb := (rs_rb S)\<lparr>rb_gatingSequenceCache := m\<rparr>,
      rs_producers := (rs_producers S)(p := PPassed sq sm price)\<rparr>)"
    if "\<not> j < length (rs_cursors S)" "sq - m \<le> RingSize"
  proof (intro ring_ok_pass [OF ok])
    show "m = 0 \<or> (\<forall>c \<in> set (rs_cursors S). c \<noteq> NOT 0 \<and> m \<le> c)" if "\<not> rs_late S"
      using started [OF that] below [OF that] \<open>\<not> j < length (rs_cursors S)\<close> by (auto simp: in_set_conv_nth)
    show "unat sq < next_read (rs_cursors S ! i) + 65536" if "\<not> rs_late S" "i < length (rs_cursors S)" for i
      using room that \<open>\<not> j < length (rs_cursors S)\<close> \<open>sq - m \<le> RingSize\<close> by blast
  qed (simp_all add: pr)
  ultimately show ?thesis by (simp add: rs_scan_def)
qed


lemma ring_ok_write:
  assumes ok: "ring_ok S" and pr: "rs_producers S p = PPassed sq sm price"
  shows "ring_ok (S\<lparr>rs_rb := rb_write now (rs_rb S) sq sm price,
      rs_producers := (rs_producers S)(p := PWritten sq),
      rs_log := (rs_log S)(unat sq \<mapsto> published now sm price)\<rparr>)" (is "ring_ok ?S")
proof -
  let ?n = "length (rs_calls S)" and ?h = "unat sq" and ?ph = "PWritten sq"
  have base: "ring_base S" using ok by (simp add: ring_ok_def)
  have ho: "holders_ok ?n (rs_producers S)" using base by (simp add: ring_base_def)
  have h: "pr_held (rs_producers S p) = Some ?h" "pr_held ?ph = Some ?h" by (simp_all add: pr)
  have lt: "?h < ?n" by (rule held_lt [OF ok h(1)])
  have at: "seq_at P ?n ((rs_producers S)(p := ?ph)) = seq_at P ?n (rs_producers S)"
    if "P ?ph \<longleftrightarrow> seq_at P ?n (rs_producers S) ?h" for P
    by (rule ext) (use seq_at_move [OF ho h] that in auto)
  have op: "seq_open ?n (rs_producers S) ?h"
    by (rule seq_at_holder [OF ho h(1)]) (simp add: pr)
  have nc: "\<not> rs_committed S ?h" using h(1) by (auto simp: seq_at_def)
  have st: "seq_stored ?n ((rs_producers S)(p := ?ph)) k \<longleftrightarrow> k = ?h \<or> seq_stored ?n (rs_producers S) k" for k
    using seq_at_move [OF ho h, of pr_written k] by simp
  have slot: "sq AND RingMask = word_of_nat (?h mod 65536)" using slot_of_nat [of ?h] by simp
  note ats = at [of pr_passed] at [of "\<lambda>_. False"] op nc
  have "\<forall>p k a. pr_held (rs_producers S p) = Some k \<longrightarrow> pr_args (rs_producers S p) = Some a \<longrightarrow>
      a = rs_calls S ! k" using base by (simp add: ring_base_def)
  from this [rule_format, OF h(1), of "(sm, price)"] have args: "rs_calls S ! ?h = (sm, price)" by (simp add: pr)
  have "cons_ok ?S i" if i: "i < length (rs_cursors S)" and late: "\<not> rs_late S" for i
  proof -
    let ?c = "rs_cursors S ! i" and ?r = "next_read (rs_cursors S ! i)"
    have c: "cons_ok S i" using ok i late by (simp add: ring_ok_def)
    have r: "?r \<le> ?h" by (rule held_ahead [OF c h(1)])
    have far: "(word_of_nat (k mod 65536) :: 64 word) \<noteq> word_of_nat (?h mod 65536)"
      if "?r \<le> k" "seq_stored ?n (rs_producers S) k" "k \<noteq> ?h" for k
    proof (rule slot_distinct2 [OF that(3)])
      have "k < ?r + 65536" "?h < ?r + 65536"
        using c op stored_open [OF that(2)] by (simp_all add: cons_ok_def slots_ok_def)
      with r that(1) show "k < ?h + 65536" "?h < k + 65536" by linarith+
    qed
    have "slots_ok (rs_rb ?S) ?n (rs_producers ?S) (rs_log ?S) ?r"
      using c far by (auto simp: cons_ok_def slots_ok_def ats st slot rb_write_def published_def)
    moreover have "k \<noteq> ?h" if "k < read_upto ?c (rs_consumers S ! i)" for k
    proof -
      have "rs_committed S k"
        using c that by (cases "rs_consumers S ! i") (auto simp: cons_ok_def slots_ok_def less_Suc_eq)
      with nc show ?thesis by auto
    qed
    ultimately show ?thesis using c by (auto simp: cons_ok_def ats rb_write_def)
  qed
  moreover have "gate_ok ?S" if "\<not> rs_late S"
    using ok that by (auto simp: ring_ok_def gate_ok_def rb_write_def)
  moreover have "ring_base ?S"
    unfolding ring_base_def
  proof (intro conjI)
    show "holders_ok (length (rs_calls ?S)) (rs_producers ?S)" using holders_move [OF ho h(1)] h(2) by simp
    show "\<forall>k. seq_stored (length (rs_calls ?S)) (rs_producers ?S) k \<longrightarrow>
        (\<exists>now. rs_log ?S k = Some (published now (fst (rs_calls ?S ! k)) (snd (rs_calls ?S ! k))))"
      using base by (auto simp: ring_base_def st args)
  qed (use base in \<open>simp_all add: ring_base_def rb_write_def ats\<close>)
  ultimately show ?thesis by (simp add: ring_ok_def rb_write_def)
qed

lemma ring_ok_commit:
  assumes ok: "ring_ok S" and pr: "rs_producers S p = PWritten sq"
  shows "ring_ok (S\<lparr>rs_rb := rb_commit (rs_rb S) sq, rs_producers := (rs_producers S)(p := PIdle)\<rparr>)"
    (is "ring_ok ?S")
proof -
  let ?n = "length (rs_calls S)" and ?h = "unat sq"
  have base: "ring_base S" using ok by (simp add: ring_ok_def)
  have ho: "holders_ok ?n (rs_producers S)" using base by (simp add: ring_base_def)
  have h: "pr_held (rs_producers S p) = Some ?h" "pr_held PIdle = None" by (simp_all add: pr)
  have lt: "?h < ?n" by (rule held_lt [OF ok h(1)])
  have one: "seq_at P ?n (rs_producers S) ?h" if "P (PWritten sq)" for P
    by (rule seq_at_holder [OF ho h(1)]) (simp add: pr that)
  have at: "seq_at P ?n ((rs_producers S)(p := PIdle)) = seq_at P ?n (rs_producers S)" if "P (PWritten sq)" for P
    by (rule ext) (use seq_at_leave [OF ho h] one that in auto)
  have co: "committed ?n ((rs_producers S)(p := PIdle)) k \<longleftrightarrow> k = ?h \<or> rs_committed S k" for k
    using seq_at_leave [OF ho h, of "\<lambda>_. False" k] by simp
  have slot: "sq AND RingMask = word_of_nat (?h mod 65536)" using slot_of_nat [of ?h] by simp
  have "cons_ok ?S i" if i: "i < length (rs_cursors S)" and late: "\<not> rs_late S" for i
  proof -
    let ?c = "rs_cursors S ! i" and ?r = "next_read (rs_cursors S ! i)"
    have c: "cons_ok S i" using ok i late by (simp add: ring_ok_def)
    have r: "?r \<le> ?h" by (rule held_ahead [OF c h(1)])
    have far: "(word_of_nat (k mod 65536) :: 64 word) \<noteq> word_of_nat (?h mod 65536)"
      if "?r \<le> k" "rs_committed S k" "k \<noteq> ?h" for k
    proof (rule slot_distinct2 [OF that(3)])
      have "k < ?r + 65536" "?h < ?r + 65536"
        using c one [of pr_passed] stored_open [OF committed_stored [OF that(2)]]
        by (simp_all add: cons_ok_def slots_ok_def)
      with r that(1) show "k < ?h + 65536" "?h < k + 65536" by linarith+
    qed
    have far: "sq = word_of_nat k"
      if "?r \<le> k" "rs_committed S k" "word_of_nat (k mod 65536) = (word_of_nat (?h mod 65536) :: 64 word)" for k
      using far [OF that(1,2)] that(3) by (cases "k = ?h") simp_all
    have "slots_ok (rs_rb ?S) ?n (rs_producers ?S) (rs_log ?S) ?r"
      using c far by (auto simp: cons_ok_def slots_ok_def at co slot rb_commit_def)
    moreover have "phase_ok (committed ?n ((rs_producers S)(p := PIdle))) ?c (rs_consumers S ! i)"
      using c by (cases "rs_consumers S ! i") (auto simp: cons_ok_def co)
    ultimately show ?thesis using c by (simp add: cons_ok_def rb_commit_def)
  qed
  moreover have "gate_ok ?S" if "\<not> rs_late S"
    using ok that by (auto simp: ring_ok_def gate_ok_def rb_commit_def)
  moreover have "ring_base ?S"
    unfolding ring_base_def
  proof (intro conjI)
    show "holders_ok (length (rs_calls ?S)) (rs_producers ?S)" using holders_move [OF ho h(1)] by simp
    show "\<forall>x. rb_flags (rs_rb ?S) x = NOT 0 \<or> (\<exists>k. rs_committed ?S k \<and> rb_flags (rs_rb ?S) x = word_of_nat k)"
    proof (rule allI)
      fix x
      show "rb_flags (rs_rb ?S) x = NOT 0 \<or> (\<exists>k. rs_committed ?S k \<and> rb_flags (rs_rb ?S) x = word_of_nat k)"
      proof (cases "x = sq AND RingMask")
        case True
        then show ?thesis by (intro disjI2 exI [of _ ?h]) (simp add: rb_commit_def co)
      next
        case False
        with base show ?thesis by (auto simp: ring_base_def rb_commit_def co)
      qed
    qed
  qed (use base in \<open>simp_all add: ring_base_def rb_commit_def at\<close>)
  ultimately show ?thesis by (simp add: ring_ok_def rb_commit_def)
qed


lemma ring_ok_wait:
  assumes ok: "ring_ok S" and i: "i < length (rs_cursors S)" and ph: "rs_consumers S ! i = CWaiting"
    and c: "c = rs_cursors S ! i"
    and wait: "WaitForBusy [rb_flags (rs_rb S) (wait_index c)] c = Some nxt"
  shows "ring_ok (S\<lparr>rs_consumers := (rs_consumers S)[i := CFound nxt]\<rparr>)" (is "ring_ok ?S")
proof -
  have base: "ring_base S" using ok by (simp add: ring_ok_def)
  have nxt: "nxt = c + 1" and flag: "rb_flags (rs_rb S) (wait_index c) = word_of_nat (next_read c)"
    using wait by (auto simp: WaitForBusy_def next_read_word split: if_splits)
  have com: "rs_committed S (next_read c)" if "\<not> rs_late S"
  proof (rule flag_committed [OF base flag])
    have "cons_ok S i" using ok i that by (simp add: ring_ok_def)
    then have "\<forall>k < next_read c. k < length (rs_calls S)" by (simp add: cons_ok_def slots_ok_def seq_at_def c)
    then have "next_read c \<le> length (rs_calls S)" by (meson leI less_irrefl)
    then show "next_read c < 9223372036854775808" using base by (simp add: ring_base_def)
  qed
  have len: "length (rs_consumers S) = length (rs_cursors S)" using base by (simp add: ring_base_def)
  have "cons_ok ?S j" if "j < length (rs_cursors S)" "\<not> rs_late S" for j
    using ok that com ph len by (cases "j = i") (auto simp: ring_ok_def cons_ok_def nxt c)
  moreover have "gate_ok ?S" if "\<not> rs_late S" using ok that by (simp add: ring_ok_def gate_ok_def)
  ultimately show ?thesis using base by (simp add: ring_ok_def ring_base_def)
qed

lemma ring_ok_get:
  assumes ok: "ring_ok S" and i: "i < length (rs_cursors S)" and ph: "rs_consumers S ! i = CFound nxt"
  shows "ring_ok (S\<lparr>rs_consumers := (rs_consumers S)[i := CRead nxt],
      rs_received := (rs_received S)[i := rs_received S ! i @ [rb_Get (rs_rb S) nxt]]\<rparr>)" (is "ring_ok ?S")
proof -
  have base: "ring_base S" using ok by (simp add: ring_ok_def)
  let ?c = "rs_cursors S ! i" and ?r = "next_read (rs_cursors S ! i)"
  have len: "length (rs_consumers S) = length (rs_cursors S)" "length (rs_received S) = length (rs_cursors S)"
    using base by (simp_all add: ring_base_def)
  have "cons_ok ?S j" if j: "j < length (rs_cursors S)" and late: "\<not> rs_late S" for j
  proof (cases "j = i")
    case True
    have c: "cons_ok S i" using ok i late by (simp add: ring_ok_def)
    then have nxt: "nxt = ?c + 1" and com: "rs_committed S ?r" by (simp_all add: cons_ok_def ph)
    have "rb_Get (rs_rb S) nxt = rb_data (rs_rb S) (word_of_nat (?r mod 65536))"
      using slot_of_nat [of ?r] by (simp add: rb_Get_def nxt next_read_word)
    also have "\<dots> = the (rs_log S ?r)"
      using c committed_stored [OF com] by (simp add: cons_ok_def slots_ok_def)
    finally show ?thesis using c True i len com by (simp add: cons_ok_def ph nxt)
  next
    case False
    with ok j late show ?thesis by (simp add: ring_ok_def cons_ok_def)
  qed
  moreover have "gate_ok ?S" if "\<not> rs_late S" using ok that by (simp add: ring_ok_def gate_ok_def)
  ultimately show ?thesis using base by (simp add: ring_ok_def ring_base_def)
qed

lemma gate_ok_scan:
  assumes "gate_ok S" and "rs_producers S p = PScanning sq sm price j m"
  shows "NOT 0 \<notin> set (rs_cursors S) \<and> (\<forall>i < j. i < length (rs_cursors S) \<longrightarrow> m \<le> rs_cursors S ! i)"
proof -
  from assms(1) have "\<forall>p sq sm price j m. rs_producers S p = PScanning sq sm price j m \<longrightarrow>
      NOT 0 \<notin> set (rs_cursors S) \<and> (\<forall>i < j. i < length (rs_cursors S) \<longrightarrow> m \<le> rs_cursors S ! i)"
    unfolding gate_ok_def by (elim conjE)
  from this [rule_format, OF assms(2)] show ?thesis by simp
qed

lemma ring_ok_store:
  assumes ok: "ring_ok S" and i: "i < length (rs_cursors S)" and ph: "rs_consumers S ! i = CRead nxt"
  shows "ring_ok (S\<lparr>rs_rb := (rs_rb S)\<lparr>rb_consumerCursors := (rs_cursors S)[i := nxt]\<rparr>,
      rs_consumers := (rs_consumers S)[i := CWaiting]\<rparr>)" (is "ring_ok ?S")
proof -
  have base: "ring_base S" using ok by (simp add: ring_ok_def)
  let ?c = "rs_cursors S ! i" and ?r = "next_read (rs_cursors S ! i)"
  have len: "length (rs_consumers S) = length (rs_cursors S)" using base by (simp add: ring_base_def)
  have *: "next_read nxt = Suc ?r \<and> nxt \<noteq> NOT 0 \<and> (?c \<noteq> NOT 0 \<longrightarrow> ?c \<le> nxt) \<and> rs_committed S ?r"
    if late: "\<not> rs_late S"
  proof -
    have c: "cons_ok S i" using ok i late by (simp add: ring_ok_def)
    then have nxt: "nxt = ?c + 1" and com: "rs_committed S ?r" by (simp_all add: cons_ok_def ph)
    have r: "?r < 9223372036854775808" using com base by (simp add: seq_at_def ring_base_def)
    have nx: "nxt \<noteq> NOT 0" unfolding nxt next_read_word using r by (intro word_of_nat_not_max) simp
    have nr: "next_read nxt = Suc ?r"
      using next_read_Suc [OF nx] r by (simp add: nxt next_read_word unat_nat64)
    have "?c \<le> nxt" if "?c \<noteq> NOT 0"
      using next_read_Suc [OF that] next_read_Suc [OF nx] nr by (simp add: word_le_nat_alt)
    with nr nx com show ?thesis by blast
  qed
  have "cons_ok ?S j" if j: "j < length (rs_cursors S)" and late: "\<not> rs_late S" for j
  proof (cases "j = i")
    case True
    have "cons_ok S i" using ok i late by (simp add: ring_ok_def)
    with * [OF late] True i len ph show ?thesis
      by (auto simp: cons_ok_def slots_ok_def less_Suc_eq trans_less_add1)
  next
    case False
    with ok j late show ?thesis by (simp add: ring_ok_def cons_ok_def slots_ok_def)
  qed
  moreover have "gate_ok ?S" if late: "\<not> rs_late S"
  proof -
    have g: "gate_ok S" using ok late by (simp add: ring_ok_def)
    have sub: "set ((rs_cursors S)[i := nxt]) \<subseteq> insert nxt (set (rs_cursors S))"
      by (rule set_update_subset_insert)
    have ge: "x \<le> nxt" if "?c \<noteq> NOT 0" "x \<le> ?c" for x
      using * [OF late] that by (meson order_trans)
    have ci: "?c \<in> set (rs_cursors S)" using i by simp
    have st: "NOT 0 \<notin> set ((rs_cursors S)[i := nxt])" if "NOT 0 \<notin> set (rs_cursors S)"
      using that sub * [OF late] by auto
    have sc: "m \<le> (rs_cursors S)[i := nxt] ! k"
      if "NOT 0 \<notin> set (rs_cursors S)" "k < length (rs_cursors S)" "m \<le> rs_cursors S ! k" for m k
    proof (cases "k = i")
      case True
      have "?c \<noteq> NOT 0" using that(1) ci by metis
      with ge [of m] that(3) True i show ?thesis by simp
    qed (use that in simp)
    have ca: "\<forall>d \<in> set ((rs_cursors S)[i := nxt]). d \<noteq> NOT 0 \<and> x \<le> d"
      if "\<forall>d \<in> set (rs_cursors S). d \<noteq> NOT 0 \<and> x \<le> d" for x
      using that sub ge [of x] ci * [OF late] by blast
    show ?thesis
      unfolding gate_ok_def
    proof (intro conjI)
      show "rb_gatingSequenceCache (rs_rb ?S) = 0 \<or>
          (\<forall>c \<in> set (rs_cursors ?S). c \<noteq> NOT 0 \<and> rb_gatingSequenceCache (rs_rb ?S) \<le> c)"
      proof -
        from g have "rb_gatingSequenceCache (rs_rb S) = 0 \<or>
            (\<forall>c \<in> set (rs_cursors S). c \<noteq> NOT 0 \<and> rb_gatingSequenceCache (rs_rb S) \<le> c)"
          unfolding gate_ok_def by blast
        then show ?thesis
        proof
          assume "\<forall>c \<in> set (rs_cursors S). c \<noteq> NOT 0 \<and> rb_gatingSequenceCache (rs_rb S) \<le> c"
          from ca [OF this] show ?thesis by simp
        qed simp
      qed
      show "\<forall>p sq sm price j m. rs_producers ?S p = PScanning sq sm price j m \<longrightarrow>
          NOT 0 \<notin> set (rs_cursors ?S) \<and> (\<forall>k < j. k < length (rs_cursors ?S) \<longrightarrow> m \<le> rs_cursors ?S ! k)"
      proof (intro allI impI)
        fix p sq sm price j m
        assume "rs_producers ?S p = PScanning sq sm price j m"
        then have a: "rs_producers S p = PScanning sq sm price j m" by simp
        have "NOT 0 \<notin> set (rs_cursors S) \<and> (\<forall>i < j. i < length (rs_cursors S) \<longrightarrow> m \<le> rs_cursors S ! i)"
          using g a by (rule gate_ok_scan)
        then show "NOT 0 \<notin> set (rs_cursors ?S) \<and> (\<forall>k < j. k < length (rs_cursors ?S) \<longrightarrow> m \<le> rs_cursors ?S ! k)"
          using st sc [of _ m] by simp
      qed
    qed (use g st in \<open>simp_all add: gate_ok_def\<close>)
  qed
  ultimately show ?thesis using base by (simp add: ring_ok_def ring_base_def)
qed

lemma ring_ok_step: "ring_ok S \<Longrightarrow> ring_step S S' \<Longrightarrow> ring_ok S'"
  by (erule ring_step.cases)
     (blast intro: ring_ok_add ring_ok_reserve ring_ok_load ring_ok_scan ring_ok_write ring_ok_commit
       ring_ok_wait ring_ok_get ring_ok_store)+

interpretation ring: invariant_system "\<lambda>S. S = ring_start" ring_step ring_ok
  by unfold_locales (auto intro: ring_ok_start ring_ok_step)


section \<open>Properties\<close>

lemma read_upto_received:
  "cons_ok S i \<Longrightarrow> length (rs_received S ! i) = read_upto (rs_cursors S ! i) (rs_consumers S ! i)"
  by (simp add: cons_ok_def)

lemma read_committed:
  assumes "cons_ok S i" and "k < read_upto (rs_cursors S ! i) (rs_consumers S ! i)"
  shows "rs_committed S k"
  using assms by (cases "rs_consumers S ! i") (auto simp: cons_ok_def slots_ok_def less_Suc_eq)

text \<open>C35. Several producers and several consumers: in every interleaving of the steps of any
  number of \<open>Publish\<close> calls and consumer loops, every consumer has received exactly the
  entries of the first calls, by sequence number, without a gap, a repetition or a torn or
  overwritten entry; when it waits, the wait ends exactly when the call with its next
  number has returned, and the slot then holds that call's entry. The ring needs one thing
  of its user that the code does not enforce: from the 65537th call on, every consumer must
  have read an entry before the call begins (\<open>ring_overwrites_unread\<close> shows what happens
  otherwise); up to 65536 calls nothing is needed.\<close>

theorem ring_delivers_log:
  assumes "ring_step\<^sup>*\<^sup>* ring_start S" and "length (rs_calls S) \<le> 65536 \<or> \<not> rs_late S"
    and "i < length (rs_cursors S)"
  shows "length (rs_received S ! i) \<le> length (rs_calls S) \<and>
    (\<forall>k < length (rs_received S ! i). rs_log S k = Some (rs_received S ! i ! k) \<and>
      (\<exists>now. rs_received S ! i ! k = published now (fst (rs_calls S ! k)) (snd (rs_calls S ! k)))) \<and>
    (rs_consumers S ! i = CWaiting \<longrightarrow>
      (let c = rs_cursors S ! i; k = length (rs_received S ! i)
       in WaitForBusy [rb_flags (rs_rb S) (wait_index c)] c =
            (if k < length (rs_calls S) \<and> (\<forall>p. pr_held (rs_producers S p) \<noteq> Some k) then Some (c + 1) else None) \<and>
          (k < length (rs_calls S) \<and> (\<forall>p. pr_held (rs_producers S p) \<noteq> Some k) \<longrightarrow>
            rs_log S k = Some (rb_Get (rs_rb S) (c + 1)))))"
proof -
  let ?c = "rs_cursors S ! i" and ?k = "length (rs_received S ! i)"
  have ok: "ring_ok S" using ring.ok_reachable [OF refl assms(1)] .
  then have base: "ring_base S" by (simp add: ring_ok_def)
  with assms(2) have "\<not> rs_late S" by (auto simp: ring_base_def)
  with ok assms(3) have c: "cons_ok S i" by (simp add: ring_ok_def)
  have logged: "\<exists>now. rs_log S k = Some (published now (fst (rs_calls S ! k)) (snd (rs_calls S ! k)))"
    if "rs_committed S k" for k
    using base committed_stored [OF that] by (simp add: ring_base_def)
  have got: "rs_committed S k \<and> rs_received S ! i ! k = the (rs_log S k)" if "k < ?k" for k
    using read_committed [OF c] that c by (simp add: read_upto_received [OF c]) (simp add: cons_ok_def)
  have le: "?k \<le> length (rs_calls S)"
    using got by (meson leI less_irrefl seq_at_def)
  have wait: "WaitForBusy [rb_flags (rs_rb S) (wait_index ?c)] ?c =
        (if rs_committed S ?k then Some (?c + 1) else None) \<and>
      (rs_committed S ?k \<longrightarrow> rs_log S ?k = Some (rb_Get (rs_rb S) (?c + 1)))"
    if "rs_consumers S ! i = CWaiting"
  proof -
    have k: "?k = next_read ?c" using read_upto_received [OF c] that by simp
    have n: "?k < 9223372036854775808" using le base by (simp add: ring_base_def)
    have "rb_flags (rs_rb S) (wait_index ?c) = ?c + 1 \<longleftrightarrow> rs_committed S ?k"
      using c flag_committed [OF base, of "wait_index ?c" ?k] n
      by (auto simp: cons_ok_def slots_ok_def wait_index_slot next_read_word simp flip: k)
    moreover have "rs_log S ?k = Some (rb_Get (rs_rb S) (?c + 1))" if "rs_committed S ?k"
    proof -
      have "rb_Get (rs_rb S) (?c + 1) = rb_data (rs_rb S) (word_of_nat (?k mod 65536))"
        using slot_of_nat [of ?k] by (simp add: rb_Get_def next_read_word k)
      also have "\<dots> = the (rs_log S ?k)"
        using c committed_stored [OF that] unfolding cons_ok_def slots_ok_def k by blast
      finally show ?thesis using logged [OF that] by auto
    qed
    ultimately show ?thesis by (simp add: WaitForBusy_def)
  qed
  have com: "rs_committed S k \<longleftrightarrow> k < length (rs_calls S) \<and> (\<forall>p. pr_held (rs_producers S p) \<noteq> Some k)" for k
    by (auto simp: seq_at_def)
  have log: "rs_log S k = Some (rs_received S ! i ! k) \<and>
      (\<exists>now. rs_received S ! i ! k = published now (fst (rs_calls S ! k)) (snd (rs_calls S ! k)))"
    if "k < ?k" for k using got [OF that] logged [of k] by auto
  show ?thesis
    unfolding Let_def com [symmetric]
  proof (intro conjI allI impI)
    fix k assume "k < ?k"
    from log [OF this] show "rs_log S k = Some (rs_received S ! i ! k)"
      "\<exists>now. rs_received S ! i ! k = published now (fst (rs_calls S ! k)) (snd (rs_calls S ! k))" by blast+
  qed (use le wait in blast)+
qed


text \<open>Two calls overlap: the second one returns first, so the consumer still waits for the first.
  \<open>publish_steps\<close> is what a call does to the state from its load to its return.\<close>

definition publish_steps :: "int \<Rightarrow> nat \<Rightarrow> 64 word \<Rightarrow> int \<Rightarrow> rat \<Rightarrow> ring_sys \<Rightarrow> ring_sys" where
  "publish_steps now p sq sm price S =
     (let S1 = rs_load S p sq sm price;
          S2 = S1\<lparr>rs_rb := rb_write now (rs_rb S1) sq sm price,
            rs_producers := (rs_producers S1)(p := PWritten sq),
            rs_log := (rs_log S1)(unat sq \<mapsto> published now sm price)\<rparr>
      in S2\<lparr>rs_rb := rb_commit (rs_rb S2) sq, rs_producers := (rs_producers S2)(p := PIdle)\<rparr>)"

lemma publish_steps_run:
  assumes "rs_producers S p = PReserved sq sm price" and "rb_room (rs_rb S) sq"
  shows "ring_step\<^sup>*\<^sup>* S (publish_steps now p sq sm price S)"
proof -
  let ?S1 = "rs_load S p sq sm price"
  have p: "rs_producers ?S1 p = PPassed sq sm price" by (simp add: rs_load_def assms(2))
  let ?S2 = "?S1\<lparr>rs_rb := rb_write now (rs_rb ?S1) sq sm price,
    rs_producers := (rs_producers ?S1)(p := PWritten sq),
    rs_log := (rs_log ?S1)(unat sq \<mapsto> published now sm price)\<rparr>"
  have "ring_step S ?S1" by (rule ring_load [OF assms(1)])
  moreover have "ring_step ?S1 ?S2" by (rule ring_write [OF p])
  moreover have "ring_step ?S2 (publish_steps now p sq sm price S)"
    using ring_commit [of ?S2 p sq] by (simp add: publish_steps_def Let_def)
  ultimately show ?thesis by (meson r_into_rtranclp rtranclp_trans)
qed

definition two_calls :: ring_sys where
  "two_calls = ring_start\<lparr>rs_rb := (snd (AddConsumer NewRingBuffer))\<lparr>rb_producerCursor := 1\<rparr>,
     rs_consumers := [CWaiting], rs_received := [[]], rs_calls := [(7, 100), (8, 200)],
     rs_producers := (\<lambda>_. PIdle)(0 := PReserved 0 7 100, 1 := PReserved 1 8 200)\<rparr>"

lemma two_calls_run: "ring_step\<^sup>*\<^sup>* ring_start two_calls"
proof -
  let ?a = "ring_start\<lparr>rs_rb := snd (AddConsumer NewRingBuffer), rs_consumers := [CWaiting], rs_received := [[]]\<rparr>"
  let ?b = "?a\<lparr>rs_rb := (rs_rb ?a)\<lparr>rb_producerCursor := 0\<rparr>, rs_calls := [(7, 100)],
    rs_producers := (\<lambda>_. PIdle)(0 := PReserved 0 7 100)\<rparr>"
  have "ring_step ring_start ?a"
    using ring_add [of ring_start] by (simp add: ring_start_def)
  moreover have "ring_step ?a ?b"
    using ring_reserve [of ?a 0 0 "(rs_rb ?a)\<lparr>rb_producerCursor := 0\<rparr>" 7 100]
    by (simp add: ring_start_def rb_reserve_def AddConsumer_def NewRingBuffer_def)
  moreover have "ring_step ?b two_calls"
    using ring_reserve [of ?b 1 1 "(rs_rb ?b)\<lparr>rb_producerCursor := 1\<rparr>" 8 200]
    by (simp add: ring_start_def rb_reserve_def AddConsumer_def NewRingBuffer_def two_calls_def)
  ultimately show ?thesis by (meson r_into_rtranclp rtranclp_trans)
qed


theorem ring_delivers_log_witness:
  "(let S1 = publish_steps 5 1 1 8 200 two_calls; S2 = publish_steps 6 0 0 7 100 S1
    in WaitForBusy [rb_flags (rs_rb S1) (wait_index (NOT 0))] (NOT 0) = None \<and>
       WaitForBusy [rb_flags (rs_rb S2) (wait_index (NOT 0))] (NOT 0) = Some 0 \<and>
       rb_Get (rs_rb S2) 0 = published 6 7 100)"
proof -
  let ?S1 = "publish_steps 5 1 1 8 200 two_calls"
  let ?S2 = "publish_steps 6 0 0 7 100 ?S1"
  have "ring_step\<^sup>*\<^sup>* two_calls ?S1"
    by (rule publish_steps_run)
       (simp_all add: two_calls_def rb_room_def AddConsumer_def NewRingBuffer_def)
  with two_calls_run have r1: "ring_step\<^sup>*\<^sup>* ring_start ?S1" by (rule rtranclp_trans)
  have "ring_step\<^sup>*\<^sup>* ?S1 ?S2"
    by (rule publish_steps_run)
       (simp_all add: two_calls_def rb_room_def AddConsumer_def NewRingBuffer_def publish_steps_def Let_def
          rs_load_def rb_write_def rb_commit_def)
  with r1 have r2: "ring_step\<^sup>*\<^sup>* ring_start ?S2" by (rule rtranclp_trans)
  have facts: "rs_cursors ?S1 = [NOT 0]" "rs_consumers ?S1 = [CWaiting]" "rs_received ?S1 = [[]]"
    "rs_calls ?S1 = [(7, 100), (8, 200)]" "pr_held (rs_producers ?S1 0) = Some 0"
    by (simp_all add: publish_steps_def Let_def rs_load_def two_calls_def ring_start_def rb_room_def
        AddConsumer_def NewRingBuffer_def rb_write_def rb_commit_def)
  have facts2: "rs_cursors ?S2 = [NOT 0]" "rs_consumers ?S2 = [CWaiting]" "rs_received ?S2 = [[]]"
    "rs_calls ?S2 = [(7, 100), (8, 200)]" "\<forall>p. pr_held (rs_producers ?S2 p) \<noteq> Some 0"
    "rs_log ?S2 0 = Some (published 6 7 100)"
    by (simp_all add: publish_steps_def Let_def rs_load_def two_calls_def ring_start_def rb_room_def
        AddConsumer_def NewRingBuffer_def rb_write_def rb_commit_def)
  have "WaitForBusy [rb_flags (rs_rb ?S1) (wait_index (NOT 0))] (NOT 0) = None"
    using ring_delivers_log [OF r1, of 0] facts by (auto simp: Let_def)
  moreover have "WaitForBusy [rb_flags (rs_rb ?S2) (wait_index (NOT 0))] (NOT 0) = Some 0"
    "rb_Get (rs_rb ?S2) 0 = published 6 7 100"
    using ring_delivers_log [OF r2, of 0] facts2 by (simp_all add: Let_def)
  ultimately show ?thesis by (simp add: Let_def)
qed


fun publish_all :: "ring_buffer \<Rightarrow> (int \<times> int \<times> rat) list \<Rightarrow> ring_buffer option" where
  "publish_all rb [] = Some rb"
| "publish_all rb ((now, sm, price) # ts) =
     (case rb_Publish now [] rb sm price of None \<Rightarrow> None | Some rb' \<Rightarrow> publish_all rb' ts)"

lemma publish_all_early:
  assumes "rb_rel rb hist" and "rb_gatingSequenceCache rb = 0" and "length hist + length ts \<le> 65537"
  shows "\<exists>rb'. publish_all rb ts = Some rb' \<and>
    rb_rel rb' (hist @ map (\<lambda>(now, sm, price). published now sm price) ts)"
  using assms
proof (induction ts arbitrary: rb hist)
  case Nil
  then show ?case by simp
next
  case (Cons t ts)
  obtain now sm price where t: "t = (now, sm, price)" by (cases t)
  have "rb_producerCursor rb + 1 = word_of_nat (length hist)" using Cons.prems(1) by (simp add: rb_rel_def)
  with Cons.prems(2,3) publish_gate_early [of "length hist" "[]"]
  obtain rb1 where p: "rb_Publish now [] rb sm price = Some rb1" and g: "rb_gatingSequenceCache rb1 = 0"
    by (simp add: rb_Publish_def publish_actions Let_def)
  have "rb_rel rb1 (hist @ [published now sm price])"
    by (rule rb_rel_Publish [OF Cons.prems(1) _ p]) (use Cons.prems(3) in simp)
  from Cons.IH [OF this g] Cons.prems(3) p t show ?case by simp
qed

text \<open>The gate misses a consumer that has not read yet: with one registered consumer
  that reads nothing, 65537 publications all return without waiting, and the last one
  overwrites the first entry, so that the flag the consumer waits for is gone.\<close>

theorem ring_overwrites_unread:
  assumes "length ts = 65537"
  shows "\<exists>rb. publish_all (snd (AddConsumer NewRingBuffer)) ts = Some rb \<and>
    WaitForBusy [rb_flags rb (wait_index (NOT 0))] (NOT 0) = None"
proof -
  let ?rb0 = "snd (AddConsumer NewRingBuffer)"
  have "rb_rel ?rb0 []" by (rule rb_rel_AddConsumer [OF rb_rel_New])
  moreover have "rb_gatingSequenceCache ?rb0 = 0" by (simp add: AddConsumer_def NewRingBuffer_def)
  ultimately obtain rb where p: "publish_all ?rb0 ts = Some rb"
    and r: "rb_rel rb (map (\<lambda>(now, sm, price). published now sm price) ts)"
    using publish_all_early [of ?rb0 "[]" ts] assms by auto
  from r assms have "rb_flags rb (word_of_nat (65536 mod 65536)) = word_of_nat 65536"
    by (simp only: rb_rel_def length_map)
  then show ?thesis using p by (simp add: WaitForBusy_def wait_index_slot)
qed

theorem ring_overwrites_unread_witness:
  "\<exists>rb. publish_all (snd (AddConsumer NewRingBuffer)) (replicate 65537 (0, 1, 2)) = Some rb \<and>
    WaitForBusy [rb_flags rb (wait_index (NOT 0))] (NOT 0) = None"
  by (rule ring_overwrites_unread) (rule length_replicate)

end
