(* ===== verification/LS_Types.thy ===== *)
theory LS_Types
  imports Trading_Types
begin

text \<open>
  The native messages of the LS websocket: \<open>internal/adapter/broker/ls/api/ws/types.go\<close>.
  The ten numbered fields \<open>AskPrice1\<close> to \<open>AskPrice10\<close> of a quote are one list here (level
  \<open>i\<close> at index \<open>i - 1\<close>), and likewise the bid prices and the sizes.
\<close>

abbreviation RealtimeTRTrade :: string where "RealtimeTRTrade \<equiv> ''US3''"
abbreviation RealtimeTRQuote :: string where "RealtimeTRQuote \<equiv> ''UH1''"
abbreviation RealtimeTRExecution :: string where "RealtimeTRExecution \<equiv> ''SC1''"

record realtime_header =
  rh_TRType :: string
  rh_TRCode :: string
  rh_TRKey :: string

record trade_body =
  tb_ShCode :: string
  tb_Price :: int
  tb_Change :: int
  tb_ChangeRate :: rat
  tb_TradeVolume :: int
  tb_Volume :: int
  tb_TradeTime :: string
  tb_Sign :: string
  tb_Open :: int
  tb_High :: int
  tb_Low :: int
  tb_AskPrice :: int
  tb_BidPrice :: int

record quote_body =
  qb_ShCode :: string
  qb_QuoteTime :: string
  qb_AskPrices :: "int list"
  qb_BidPrices :: "int list"
  qb_AskSizes :: "int list"
  qb_BidSizes :: "int list"
  qb_TotalAskSize :: int
  qb_TotalBidSize :: int

record execution_body =
  eb_AccountNo :: string
  eb_OrderNo :: string
  eb_ShCode :: string
  eb_IssueCode :: string
  eb_SideCode :: string
  eb_OrderSideCode :: string
  eb_Price :: int
  eb_Quantity :: int
  eb_RemainQty :: int
  eb_OrderQty :: int
  eb_Status :: string
  eb_ExecTime :: string

text \<open>\<open>TradeMessage\<close>, \<open>QuoteMessage\<close> and \<open>ExecutionMessage\<close> are one shape over their bodies.\<close>

record 'b native_message =
  nm_Header :: realtime_header
  nm_Body :: 'b
  nm_ConnID :: string
  nm_ReceivedAt :: go_time

type_synonym trade_message = "trade_body native_message"
type_synonym quote_message = "quote_body native_message"
type_synonym execution_message = "execution_body native_message"

definition quote_ok :: "quote_body \<Rightarrow> bool" where
  "quote_ok q \<longleftrightarrow> length (qb_AskPrices q) = 10 \<and> length (qb_BidPrices q) = 10 \<and>
     length (qb_AskSizes q) = 10 \<and> length (qb_BidSizes q) = 10"

end
