(* ===== verification/Gateway.thy ===== *)
theory Gateway
  imports LS_Types Go_Float Go_Text "HOL-Library.Sublist"
begin

text \<open>
  \<open>internal/core/gateway\<close>: the lifecycle of the managed brokers (\<open>gateway.go\<close>), the
  conversion of the native LS messages to the domain messages (\<open>ls_convert.go\<close>), the
  streams that do the conversion (\<open>ls_domain.go\<close>) and the handles they are returned
  with (\<open>subscription.go\<close>).

  \<open>Register\<close> and \<open>Start\<close> release the lock while they call the factory or the broker, so
  each is two critical sections here; \<open>gw_step\<close> interleaves the sections of any number of
  callers. A \<open>*ManagedBroker\<close> is a record with an identity, so that comparing pointers is
  comparing identities. A context is a number; \<open>gw_started\<close> and \<open>gw_cancelled\<close> record the
  contexts given to \<open>broker.Start\<close> and those cancelled, \<open>gw_log\<close> every lifecycle event
  published, whether the channel of the observers had room for it or not.
\<close>

section \<open>Lifecycle\<close>

record broker_spec =
  bs_BrokerID :: string
  bs_AccountID :: string
  bs_BrokerType :: string
  bs_HasFactory :: bool

record 'b managed_broker =
  mb_ident :: nat
  mb_spec :: broker_spec
  mb_broker :: 'b
  mb_status :: broker_status
  mb_cancel :: "nat option"

record lifecycle_msg =
  lm_BrokerID :: string
  lm_AccountID :: string
  lm_Status :: broker_status
  lm_Message :: string

record 'b gateway =
  gw_brokers :: "string \<rightharpoonup> 'b managed_broker"
  gw_events :: "lifecycle_msg chan"
  gw_fresh :: nat
  gw_ctx :: nat
  gw_started :: "(nat \<times> nat) list"
  gw_cancelled :: "nat list"
  gw_log :: "lifecycle_msg list"

datatype 'e gw_error =
  ErrBrokerNotFound | ErrSpec string | ErrAlreadyRegistered string | ErrCreate string 'e

definition gw_New :: "'b gateway" where
  "gw_New = \<lparr>gw_brokers = Map.empty, gw_events = chan_make 64, gw_fresh = 0, gw_ctx = 0,
     gw_started = [], gw_cancelled = [], gw_log = []\<rparr>"

definition validateBrokerSpec :: "broker_spec \<Rightarrow> 'e gw_error option" where
  "validateBrokerSpec spec =
     (if bs_BrokerID spec = [] then Some (ErrSpec ''broker id is required'')
      else if bs_BrokerType spec = [] then Some (ErrSpec ''broker type is required'')
      else if \<not> bs_HasFactory spec then Some (ErrSpec ''broker factory is required'')
      else None)"

definition publishLifecycleLocked ::
    "'b gateway \<Rightarrow> string \<Rightarrow> string \<Rightarrow> broker_status \<Rightarrow> string \<Rightarrow> 'b gateway" where
  "publishLifecycleLocked g brokerID accountID status message =
     (let event = \<lparr>lm_BrokerID = brokerID, lm_AccountID = accountID, lm_Status = status, lm_Message = message\<rparr>
      in g\<lparr>gw_events := fst (chan_try_send (gw_events g) event), gw_log := gw_log g @ [event]\<rparr>)"

text \<open>\<open>Register\<close>: the check before the factory runs, and the section after it.\<close>

definition register_check :: "'b gateway \<Rightarrow> broker_spec \<Rightarrow> 'e gw_error option" where
  "register_check g spec =
     (case validateBrokerSpec spec of
        Some e \<Rightarrow> Some e
      | None \<Rightarrow> if gw_brokers g (bs_BrokerID spec) \<noteq> None
                then Some (ErrAlreadyRegistered (bs_BrokerID spec)) else None)"

definition register_insert ::
    "'b gateway \<Rightarrow> broker_spec \<Rightarrow> 'e + 'b \<Rightarrow> 'b gateway \<times> 'e gw_error option" where
  "register_insert g spec made =
     (case made of
        Inl e \<Rightarrow> (g, Some (ErrCreate (bs_BrokerID spec) e))
      | Inr b \<Rightarrow>
          if gw_brokers g (bs_BrokerID spec) \<noteq> None
          then (g, Some (ErrAlreadyRegistered (bs_BrokerID spec)))
          else (publishLifecycleLocked
                  (g\<lparr>gw_brokers := (gw_brokers g)(bs_BrokerID spec \<mapsto>
                       \<lparr>mb_ident = gw_fresh g, mb_spec = spec, mb_broker = b,
                        mb_status = BrokerStatusCreated, mb_cancel = None\<rparr>),
                     gw_fresh := gw_fresh g + 1\<rparr>)
                  (bs_BrokerID spec) (bs_AccountID spec) BrokerStatusCreated ''broker registered'', None))"

definition gw_Register ::
    "'b gateway \<Rightarrow> broker_spec \<Rightarrow> 'e + 'b \<Rightarrow> 'b gateway \<times> 'e gw_error option" where
  "gw_Register g spec made =
     (case register_check g spec of Some e \<Rightarrow> (g, Some e) | None \<Rightarrow> register_insert g spec made)"

text \<open>\<open>Start\<close>: the section before \<open>broker.Start\<close> gives the broker and its new context, or
  the result when there is nothing to start; the section after it.\<close>

definition start_begin ::
    "'b gateway \<Rightarrow> string \<Rightarrow> 'b gateway \<times> ('e gw_error option + 'b managed_broker \<times> nat)" where
  "start_begin g brokerID =
     (case gw_brokers g brokerID of
        None \<Rightarrow> (g, Inl (Some ErrBrokerNotFound))
      | Some managed \<Rightarrow>
          if mb_status managed = BrokerStatusRunning then (g, Inl None)
          else
            (let c = gw_ctx g;
                 managed1 = managed\<lparr>mb_cancel := Some c, mb_status := BrokerStatusStarting\<rparr>
             in (publishLifecycleLocked
                   (g\<lparr>gw_brokers := (gw_brokers g)(brokerID \<mapsto> managed1), gw_ctx := c + 1\<rparr>)
                   brokerID (bs_AccountID (mb_spec managed1)) BrokerStatusStarting ''broker starting'',
                 Inr (managed1, c))))"

definition broker_start :: "'b gateway \<Rightarrow> 'b managed_broker \<Rightarrow> nat \<Rightarrow> 'b gateway" where
  "broker_start g managed c = g\<lparr>gw_started := gw_started g @ [(mb_ident managed, c)]\<rparr>"

definition start_end :: "'b gateway \<Rightarrow> string \<Rightarrow> 'b managed_broker \<Rightarrow> 'b gateway" where
  "start_end g brokerID managed =
     (case gw_brokers g brokerID of
        None \<Rightarrow> g
      | Some current \<Rightarrow>
          if mb_ident current = mb_ident managed then
            publishLifecycleLocked
              (g\<lparr>gw_brokers := (gw_brokers g)(brokerID \<mapsto> current\<lparr>mb_status := BrokerStatusRunning\<rparr>)\<rparr>)
              brokerID (bs_AccountID (mb_spec managed)) BrokerStatusRunning ''broker running''
          else g)"

definition gw_Start :: "'b gateway \<Rightarrow> string \<Rightarrow> 'b gateway \<times> 'e gw_error option" where
  "gw_Start g brokerID =
     (case start_begin g brokerID of
        (g1, Inl r) \<Rightarrow> (g1, r)
      | (g1, Inr (managed, c)) \<Rightarrow> (start_end (broker_start g1 managed c) brokerID managed, None))"

definition gw_Remove :: "'b gateway \<Rightarrow> string \<Rightarrow> 'b gateway \<times> 'e gw_error option" where
  "gw_Remove g brokerID =
     (case gw_brokers g brokerID of
        None \<Rightarrow> (g, Some ErrBrokerNotFound)
      | Some managed \<Rightarrow>
          (let acct = bs_AccountID (mb_spec managed);
               g1 = publishLifecycleLocked
                      (g\<lparr>gw_brokers := (gw_brokers g)(brokerID \<mapsto> managed\<lparr>mb_status := BrokerStatusStopping\<rparr>)\<rparr>)
                      brokerID acct BrokerStatusStopping ''broker stopping'';
               g2 = (case mb_cancel managed of
                       None \<Rightarrow> g1
                     | Some c \<Rightarrow> g1\<lparr>gw_cancelled := gw_cancelled g1 @ [c]\<rparr>)
           in (publishLifecycleLocked (g2\<lparr>gw_brokers := (gw_brokers g2)(brokerID := None)\<rparr>)
                 brokerID acct BrokerStatusStopped ''broker removed'', None)))"

definition gw_Replace ::
    "'b gateway \<Rightarrow> broker_spec \<Rightarrow> 'e + 'b \<Rightarrow> 'b gateway \<times> 'e gw_error option" where
  "gw_Replace g spec made =
     (case gw_Remove g (bs_BrokerID spec) of
        (g1, err) \<Rightarrow> if err \<noteq> None \<and> err \<noteq> Some ErrBrokerNotFound then (g1, err)
                     else gw_Register g1 spec made)"

definition gw_Status :: "'b gateway \<Rightarrow> string \<Rightarrow> broker_status option" where
  "gw_Status g brokerID = map_option mb_status (gw_brokers g brokerID)"

definition lookupBroker :: "'b gateway \<Rightarrow> string \<Rightarrow> 'e gw_error + 'b" where
  "lookupBroker g brokerID =
     (case gw_brokers g brokerID of None \<Rightarrow> Inl ErrBrokerNotFound | Some managed \<Rightarrow> Inr (mb_broker managed))"

text \<open>\<open>SubscribeTick\<close>, \<open>SubscribeQuote\<close> and \<open>SubscribeExec\<close> delegate to the broker found.\<close>

definition gw_Subscribe :: "('b \<Rightarrow> string \<Rightarrow> 'e gw_error + 's) \<Rightarrow> 'b gateway \<Rightarrow> string \<Rightarrow> string \<Rightarrow> 'e gw_error + 's" where
  "gw_Subscribe subscribe g brokerID code =
     (case lookupBroker g brokerID of Inl e \<Rightarrow> Inl e | Inr b \<Rightarrow> subscribe b code)"

section \<open>Conversion of native messages\<close>

record ls_domain_broker =
  ld_brokerID :: string
  ld_accountID :: string

record tick_msg =
  tm_BrokerID :: string
  tm_AccountID :: string
  tm_Code :: string
  tm_Price :: int
  tm_Volume :: int
  tm_AccVolume :: int
  tm_Change :: int
  tm_ChangeRate :: int
  tm_TradeTime :: string
  tm_ReceivedAt :: go_time

record exec_msg =
  xm_BrokerID :: string
  xm_AccountID :: string
  xm_OrderID :: string
  xm_Code :: string
  xm_Side :: side
  xm_Price :: int
  xm_Quantity :: int
  xm_RemainQty :: int
  xm_TotalQty :: int
  xm_Status :: string
  xm_ReceivedAt :: go_time

record quote_msg =
  qm_BrokerID :: string
  qm_AccountID :: string
  qm_Code :: string
  qm_Asks :: "price_level list"
  qm_Bids :: "price_level list"
  qm_TotalAsk :: int
  qm_TotalBid :: int
  qm_ReceivedAt :: go_time

definition to_lower_char :: "char \<Rightarrow> char" where
  "to_lower_char c = (let n = (of_char c :: nat) in if 65 \<le> n \<and> n \<le> 90 then char_of (n + 32) else c)"

definition to_lower :: "string \<Rightarrow> string" where
  "to_lower s = map to_lower_char s"

fun firstNonEmpty :: "string list \<Rightarrow> string" where
  "firstNonEmpty [] = []"
| "firstNonEmpty (v # vs) = (if trim_space v \<noteq> [] then v else firstNonEmpty vs)"

definition parseSide :: "string \<Rightarrow> side" where
  "parseSide raw =
     (let s = to_lower (trim_space raw)
      in if s \<in> {''buy'', ''b'', ''2'', ''02''} then Buy
         else if s \<in> {''sell'', ''s'', ''1'', ''01''} then Sell
         else [])"

definition convertLSTick :: "(rat \<Rightarrow> int) \<Rightarrow> ls_domain_broker \<Rightarrow> trade_message \<Rightarrow> tick_msg" where
  "convertLSTick impl b msg =
     (let body = nm_Body msg
      in \<lparr>tm_BrokerID = ld_brokerID b, tm_AccountID = ld_accountID b, tm_Code = tb_ShCode body,
          tm_Price = tb_Price body, tm_Volume = tb_TradeVolume body, tm_AccVolume = tb_Volume body,
          tm_Change = tb_Change body,
          tm_ChangeRate = float_to_int64 impl (fl_mult (tb_ChangeRate body) 10000),
          tm_TradeTime = tb_TradeTime body, tm_ReceivedAt = nm_ReceivedAt msg\<rparr>)"

text \<open>The loop that fills the ten levels of each side.\<close>

definition quote_levels :: "int list \<Rightarrow> int list \<Rightarrow> price_level list" where
  "quote_levels prices sizes = map (\<lambda>idx. \<lparr>pl_Price = prices ! idx, pl_Size = sizes ! idx\<rparr>) [0..<10]"

definition convertLSQuote :: "ls_domain_broker \<Rightarrow> quote_message \<Rightarrow> quote_msg" where
  "convertLSQuote b msg =
     (let body = nm_Body msg
      in \<lparr>qm_BrokerID = ld_brokerID b, qm_AccountID = ld_accountID b, qm_Code = qb_ShCode body,
          qm_Asks = quote_levels (qb_AskPrices body) (qb_AskSizes body),
          qm_Bids = quote_levels (qb_BidPrices body) (qb_BidSizes body),
          qm_TotalAsk = qb_TotalAskSize body, qm_TotalBid = qb_TotalBidSize body,
          qm_ReceivedAt = nm_ReceivedAt msg\<rparr>)"

definition convertLSExec :: "ls_domain_broker \<Rightarrow> execution_message \<Rightarrow> exec_msg" where
  "convertLSExec b msg =
     (let body = nm_Body msg
      in \<lparr>xm_BrokerID = ld_brokerID b,
          xm_AccountID = firstNonEmpty [eb_AccountNo body, ld_accountID b],
          xm_OrderID = eb_OrderNo body, xm_Code = firstNonEmpty [eb_ShCode body, eb_IssueCode body],
          xm_Side = parseSide (firstNonEmpty [eb_SideCode body, eb_OrderSideCode body]),
          xm_Price = eb_Price body, xm_Quantity = eb_Quantity body, xm_RemainQty = eb_RemainQty body,
          xm_TotalQty = eb_OrderQty body, xm_Status = eb_Status body, xm_ReceivedAt = nm_ReceivedAt msg\<rparr>)"

section \<open>Streams and handles\<close>

text \<open>One of the three \<open>runLS*Stream\<close> goroutines: it takes a message from the native
  channel, converts it and sends it on, until \<open>done\<close> is closed or the native channel is.
  \<open>rs_hold\<close> is the converted message that waits for room; \<open>rs_taken\<close> and \<open>rs_read\<close> record
  what was taken from the native channel and what the caller has read.\<close>

record ('n, 'm) ls_stream =
  rs_in :: "'n list"
  rs_inClosed :: bool
  rs_hold :: "'m option"
  rs_out :: "'m chan"
  rs_outClosed :: bool
  rs_done :: bool
  rs_taken :: "'n list"
  rs_read :: "'m list"

definition stream_init :: "('n, 'm) ls_stream" where
  "stream_init = \<lparr>rs_in = [], rs_inClosed = False, rs_hold = None, rs_out = chan_make 64,
     rs_outClosed = False, rs_done = False, rs_taken = [], rs_read = []\<rparr>"

inductive stream_step :: "('n \<Rightarrow> 'm) \<Rightarrow> ('n, 'm) ls_stream \<Rightarrow> ('n, 'm) ls_stream \<Rightarrow> bool" for convert where
  native_send: "\<not> rs_inClosed s \<Longrightarrow> stream_step convert s (s\<lparr>rs_in := rs_in s @ [n]\<rparr>)"
| native_close: "stream_step convert s (s\<lparr>rs_inClosed := True\<rparr>)"
| handle_close: "stream_step convert s (s\<lparr>rs_done := True\<rparr>)"
| stream_take: "\<not> rs_outClosed s \<Longrightarrow> rs_hold s = None \<Longrightarrow> rs_in s = n # ns \<Longrightarrow>
    stream_step convert s (s\<lparr>rs_in := ns, rs_hold := Some (convert n), rs_taken := rs_taken s @ [n]\<rparr>)"
| stream_send: "\<not> rs_outClosed s \<Longrightarrow> rs_hold s = Some m \<Longrightarrow> chan_send (rs_out s) m = Some q \<Longrightarrow>
    stream_step convert s (s\<lparr>rs_hold := None, rs_out := q\<rparr>)"
| stream_done: "\<not> rs_outClosed s \<Longrightarrow> rs_done s \<Longrightarrow> stream_step convert s (s\<lparr>rs_outClosed := True\<rparr>)"
| stream_end: "\<not> rs_outClosed s \<Longrightarrow> rs_hold s = None \<Longrightarrow> rs_in s = [] \<Longrightarrow> rs_inClosed s \<Longrightarrow>
    stream_step convert s (s\<lparr>rs_outClosed := True\<rparr>)"
| caller_read: "chan_recv (rs_out s) = Some (m, q) \<Longrightarrow>
    stream_step convert s (s\<lparr>rs_out := q, rs_read := rs_read s @ [m]\<rparr>)"

inductive stream_reach :: "('n \<Rightarrow> 'm) \<Rightarrow> ('n, 'm) ls_stream \<Rightarrow> bool" for convert where
  "stream_reach convert stream_init"
| "stream_reach convert s \<Longrightarrow> stream_step convert s s' \<Longrightarrow> stream_reach convert s'"

text \<open>\<open>Subscription.Close\<close>: \<open>sync.Once\<close> runs the close function at most once. The function
  and whether it is nil are arguments; \<open>hd_calls\<close> counts its runs.\<close>

record 'e handle =
  hd_once :: bool
  hd_closeErr :: "'e option"
  hd_calls :: nat

definition NewSubscription :: "'e handle" where
  "NewSubscription = \<lparr>hd_once = False, hd_closeErr = None, hd_calls = 0\<rparr>"

definition sub_Close :: "bool \<Rightarrow> 'e option \<Rightarrow> 'e handle \<Rightarrow> 'e handle \<times> 'e option" where
  "sub_Close hasFn closeResult h =
     (if \<not> hasFn then (h, None)
      else if hd_once h then (h, hd_closeErr h)
      else (h\<lparr>hd_once := True, hd_closeErr := closeResult, hd_calls := hd_calls h + 1\<rparr>, closeResult))"

section \<open>Concurrent callers\<close>

datatype 'b gw_pc =
    GwIdle | GwRegister broker_spec | GwStart string "'b managed_broker" nat
  | GwStarted string "'b managed_broker"

record 'b gw_system =
  gs_gw :: "'b gateway"
  gs_pc :: "nat \<Rightarrow> 'b gw_pc"
  gs_seen :: "lifecycle_msg list"

definition gw_at :: "'b gateway \<Rightarrow> 'b gw_system \<Rightarrow> nat \<Rightarrow> 'b gw_pc \<Rightarrow> 'b gw_system" where
  "gw_at g s t p = s\<lparr>gs_gw := g, gs_pc := (gs_pc s)(t := p)\<rparr>"

text \<open>The errors are of type \<open>unit\<close>: the steps do not depend on them. \<open>Replace\<close> is a \<open>Remove\<close>
  followed by a \<open>Register\<close> of the same goroutine. An observer reads \<open>Events\<close>; \<open>gs_seen\<close> is what
  it has read.\<close>

inductive gw_step :: "'b gw_system \<Rightarrow> 'b gw_system \<Rightarrow> bool" where
  gw_register_check: "gs_pc s t = GwIdle \<Longrightarrow> register_check (gs_gw s) spec = (None :: unit gw_error option) \<Longrightarrow>
    gw_step s (gw_at (gs_gw s) s t (GwRegister spec))"
| gw_register_insert: "gs_pc s t = GwRegister spec \<Longrightarrow>
    register_insert (gs_gw s) spec (made :: unit + 'b) = (g, r) \<Longrightarrow> gw_step s (gw_at g s t GwIdle)"
| gw_start_begin: "gs_pc s t = GwIdle \<Longrightarrow>
    start_begin (gs_gw s) bid = (g, Inr (m, c) :: unit gw_error option + 'b managed_broker \<times> nat) \<Longrightarrow>
    gw_step s (gw_at g s t (GwStart bid m c))"
| gw_broker_start: "gs_pc s t = GwStart bid m c \<Longrightarrow>
    gw_step s (gw_at (broker_start (gs_gw s) m c) s t (GwStarted bid m))"
| gw_start_end: "gs_pc s t = GwStarted bid m \<Longrightarrow> gw_step s (gw_at (start_end (gs_gw s) bid m) s t GwIdle)"
| gw_remove: "gs_pc s t = GwIdle \<Longrightarrow> gw_Remove (gs_gw s) bid = (g, r :: unit gw_error option) \<Longrightarrow>
    gw_step s (gw_at g s t GwIdle)"
| gw_observe: "chan_recv (gw_events (gs_gw s)) = Some (e, q) \<Longrightarrow>
    gw_step s (s\<lparr>gs_gw := (gs_gw s)\<lparr>gw_events := q\<rparr>, gs_seen := gs_seen s @ [e]\<rparr>)"

inductive gw_reach :: "'b gw_system \<Rightarrow> bool" where
  gw_reach_init: "gw_reach \<lparr>gs_gw = gw_New, gs_pc = (\<lambda>_. GwIdle), gs_seen = []\<rparr>"
| gw_reach_step: "gw_reach s \<Longrightarrow> gw_step s s' \<Longrightarrow> gw_reach s'"

definition managed_ok :: "'b gateway \<Rightarrow> string \<Rightarrow> 'b managed_broker \<Rightarrow> bool" where
  "managed_ok g bid m \<longleftrightarrow> bs_BrokerID (mb_spec m) = bid \<and> mb_ident m < gw_fresh g \<and>
     (if mb_status m = BrokerStatusCreated then mb_cancel m = None
      else mb_status m \<in> {BrokerStatusStarting, BrokerStatusRunning} \<and> mb_cancel m \<noteq> None)"

definition gw_ok :: "'b gateway \<Rightarrow> bool" where
  "gw_ok g \<longleftrightarrow> chan_ok (gw_events g) \<and> (\<forall>bid m. gw_brokers g bid = Some m \<longrightarrow> managed_ok g bid m) \<and>
     (\<forall>bid bid' m m'. gw_brokers g bid = Some m \<and> gw_brokers g bid' = Some m' \<and> mb_ident m = mb_ident m'
       \<longrightarrow> bid = bid')"

definition idents :: "'b gateway \<Rightarrow> nat set" where
  "idents g = {n. \<exists>bid m. gw_brokers g bid = Some m \<and> mb_ident m = n}"

text \<open>What a call in flight relies on: the broker it started has a context if it is still
  there.\<close>

definition inflight :: "'b gateway \<Rightarrow> string \<Rightarrow> nat \<Rightarrow> bool" where
  "inflight g bid n \<longleftrightarrow> n < gw_fresh g \<and>
     (\<forall>m'. gw_brokers g bid = Some m' \<longrightarrow> mb_ident m' = n \<longrightarrow> mb_cancel m' \<noteq> None)"

fun pc_ok :: "'b gateway \<Rightarrow> 'b gw_pc \<Rightarrow> bool" where
  "pc_ok g GwIdle = True"
| "pc_ok g (GwRegister spec) = True"
| "pc_ok g (GwStart bid m c) = inflight g bid (mb_ident m)"
| "pc_ok g (GwStarted bid m) = inflight g bid (mb_ident m)"

lemma publish_sel [simp]:
  "gw_brokers (publishLifecycleLocked g b a st msg) = gw_brokers g"
  "gw_fresh (publishLifecycleLocked g b a st msg) = gw_fresh g"
  "gw_ctx (publishLifecycleLocked g b a st msg) = gw_ctx g"
  "gw_started (publishLifecycleLocked g b a st msg) = gw_started g"
  "gw_cancelled (publishLifecycleLocked g b a st msg) = gw_cancelled g"
  "chan_ok (gw_events g) \<Longrightarrow> chan_ok (gw_events (publishLifecycleLocked g b a st msg))"
  by (simp_all add: publishLifecycleLocked_def chan_try_send_ok Let_def)

text \<open>The effect of each section on the map of brokers.\<close>

lemma register_insert_brokers:
  assumes "register_insert g spec made = (g', r)"
  shows "g' = g \<or> (\<exists>b. gw_brokers g (bs_BrokerID spec) = None \<and> gw_fresh g' = gw_fresh g + 1 \<and>
    gw_brokers g' = (gw_brokers g)(bs_BrokerID spec \<mapsto> \<lparr>mb_ident = gw_fresh g, mb_spec = spec,
      mb_broker = b, mb_status = BrokerStatusCreated, mb_cancel = None\<rparr>) \<and>
    (chan_ok (gw_events g) \<longrightarrow> chan_ok (gw_events g')))"
  using assms by (auto simp: register_insert_def split: sum.splits if_splits)

lemma start_begin_brokers:
  assumes "start_begin g bid = (g', Inr (m, c))"
  shows "\<exists>m0. gw_brokers g bid = Some m0 \<and> mb_status m0 \<noteq> BrokerStatusRunning \<and> c = gw_ctx g \<and>
    m = m0\<lparr>mb_cancel := Some c, mb_status := BrokerStatusStarting\<rparr> \<and> gw_fresh g' = gw_fresh g \<and>
    gw_brokers g' = (gw_brokers g)(bid \<mapsto> m) \<and> (chan_ok (gw_events g) \<longrightarrow> chan_ok (gw_events g'))"
  using assms by (auto simp: start_begin_def Let_def split: option.splits if_splits)

lemma start_end_brokers:
  "gw_fresh (start_end g bid m) = gw_fresh g \<and>
    (chan_ok (gw_events g) \<longrightarrow> chan_ok (gw_events (start_end g bid m))) \<and>
    (gw_brokers (start_end g bid m) = gw_brokers g \<or>
     (\<exists>m'. gw_brokers g bid = Some m' \<and> mb_ident m' = mb_ident m \<and>
       gw_brokers (start_end g bid m) = (gw_brokers g)(bid \<mapsto> m'\<lparr>mb_status := BrokerStatusRunning\<rparr>)))"
  by (auto simp: start_end_def split: option.splits)

lemma gw_Remove_brokers:
  assumes "gw_Remove g bid = (g', r)"
  shows "gw_fresh g' = gw_fresh g \<and> gw_brokers g' = (gw_brokers g)(bid := None) \<and>
    (chan_ok (gw_events g) \<longrightarrow> chan_ok (gw_events g'))"
  using assms
  by (auto simp: gw_Remove_def Let_def fun_upd_idem split: option.splits)

text \<open>A step changes one entry of the map: it adds one with a fresh identity, updates one
  without changing its identity, its spec or the fact that it has a context, or removes
  one.\<close>

definition brokers_step :: "'b gateway \<Rightarrow> 'b gateway \<Rightarrow> bool" where
  "brokers_step g g' \<longleftrightarrow> gw_fresh g \<le> gw_fresh g' \<and>
     (\<forall>bid m'. gw_brokers g' bid = Some m' \<longrightarrow>
       (mb_ident m' = gw_fresh g \<and> gw_fresh g' = gw_fresh g + 1) \<or>
       (\<exists>m. gw_brokers g bid = Some m \<and> mb_ident m' = mb_ident m \<and>
         (mb_cancel m \<noteq> None \<longrightarrow> mb_cancel m' \<noteq> None)))"

lemma inflight_step:
  assumes "brokers_step g g'" and "inflight g bid n"
  shows "inflight g' bid n"
  unfolding inflight_def
proof (intro conjI allI impI)
  show "n < gw_fresh g'" using assms by (simp add: brokers_step_def inflight_def)
  fix m' assume m': "gw_brokers g' bid = Some m'" "mb_ident m' = n"
  have "n \<noteq> gw_fresh g" using assms(2) by (simp add: inflight_def)
  with assms(1) m' obtain m where "gw_brokers g bid = Some m" "mb_ident m = n"
    and c: "mb_cancel m \<noteq> None \<longrightarrow> mb_cancel m' \<noteq> None"
    unfolding brokers_step_def by metis
  with assms(2) show "mb_cancel m' \<noteq> None" by (simp add: inflight_def)
qed

lemma pc_ok_step: "brokers_step g g' \<Longrightarrow> pc_ok g p \<Longrightarrow> pc_ok g' p"
  by (cases p) (simp_all add: inflight_step)

lemma idents_step:
  assumes "brokers_step g g'" and "n < gw_fresh g" and "n \<notin> idents g"
  shows "n \<notin> idents g' \<and> n < gw_fresh g'"
proof -
  have "mb_ident m' \<noteq> n" if "gw_brokers g' bid = Some m'" for bid m'
  proof
    assume "mb_ident m' = n"
    with assms(1,2) that obtain m where "gw_brokers g bid = Some m" "mb_ident m = n"
      unfolding brokers_step_def by (metis less_irrefl)
    with assms(3) show False by (auto simp: idents_def)
  qed
  then show ?thesis using assms(1,2) by (auto simp: idents_def brokers_step_def)
qed

definition gw_sys_ok :: "'b gw_system \<Rightarrow> bool" where
  "gw_sys_ok s \<longleftrightarrow> gw_ok (gs_gw s) \<and> (\<forall>t. pc_ok (gs_gw s) (gs_pc s t))"

lemma gw_ok_lookup: "gw_ok g \<Longrightarrow> gw_brokers g bid = Some m \<Longrightarrow> managed_ok g bid m"
  by (simp add: gw_ok_def)

lemma gw_ok_sub:
  assumes "gw_ok g" and "chan_ok (gw_events g')" and "gw_fresh g' = gw_fresh g"
    and sub: "\<And>b x. gw_brokers g' b = Some x \<Longrightarrow> gw_brokers g b = Some x"
  shows "gw_ok g' \<and> brokers_step g g'"
proof -
  have "managed_ok g' b x" if "gw_brokers g' b = Some x" for b x
    using gw_ok_lookup [OF assms(1) sub [OF that]] assms(3) unfolding managed_ok_def by metis
  moreover have "b = b'" if "gw_brokers g' b = Some x" "gw_brokers g' b' = Some y" "mb_ident x = mb_ident y" for b b' x y
    using assms(1) sub [OF that(1)] sub [OF that(2)] that(3) unfolding gw_ok_def by blast
  ultimately have "gw_ok g'" using assms(2) unfolding gw_ok_def by blast
  moreover have "brokers_step g g'" using assms(3) sub unfolding brokers_step_def by force
  ultimately show ?thesis by blast
qed

text \<open>Replacing one entry by an acceptable one with a new identity or its old one.\<close>

lemma gw_ok_update:
  assumes "gw_ok g" and "chan_ok (gw_events g')" and "gw_brokers g' = (gw_brokers g)(bid \<mapsto> m)"
    and "gw_fresh g \<le> gw_fresh g'" and "managed_ok g' bid m"
    and "\<And>bid' m'. gw_brokers g bid' = Some m' \<Longrightarrow> mb_ident m' = mb_ident m \<Longrightarrow> bid' = bid"
  shows "gw_ok g'"
  unfolding gw_ok_def
proof (intro conjI allI impI)
  show "chan_ok (gw_events g')" by (rule assms(2))
  show "managed_ok g' b x" if "gw_brokers g' b = Some x" for b x
    using that assms(3,4,5) gw_ok_lookup [OF assms(1), of b x]
    by (auto simp: managed_ok_def split: if_splits)
  show "b = b'" if "gw_brokers g' b = Some x \<and> gw_brokers g' b' = Some y \<and> mb_ident x = mb_ident y" for b b' x y
    using that assms(1,3) assms(6) [of b x] assms(6) [of b' y] unfolding gw_ok_def
    by (auto split: if_splits)
qed

lemma gw_ok_insert:
  assumes "gw_ok g" and "register_insert g spec made = (g', r)"
  shows "gw_ok g' \<and> brokers_step g g'"
proof (cases "g' = g")
  case True
  with assms(1) show ?thesis by (auto simp: brokers_step_def)
next
  case False
  with register_insert_brokers [OF assms(2)] obtain b
    where f: "gw_fresh g' = gw_fresh g + 1"
      and br: "gw_brokers g' = (gw_brokers g)(bs_BrokerID spec \<mapsto> \<lparr>mb_ident = gw_fresh g, mb_spec = spec,
        mb_broker = b, mb_status = BrokerStatusCreated, mb_cancel = None\<rparr>)"
      and ch: "chan_ok (gw_events g) \<longrightarrow> chan_ok (gw_events g')" by blast
  have old: "mb_ident m < gw_fresh g" if "gw_brokers g bid = Some m" for bid m
    using gw_ok_lookup [OF assms(1) that] by (simp add: managed_ok_def)
  have "gw_ok g'"
  proof (rule gw_ok_update [OF assms(1) _ br])
    show "chan_ok (gw_events g')" using assms(1) ch by (simp add: gw_ok_def)
  qed (use f old in \<open>auto simp: managed_ok_def dest: less_imp_neq\<close>)
  then show ?thesis using br f by (auto simp: brokers_step_def)
qed

lemma gw_ok_begin:
  assumes "gw_ok g" and "start_begin g bid = (g', Inr (m, c))"
  shows "gw_ok g' \<and> brokers_step g g' \<and> inflight g' bid (mb_ident m)"
proof -
  obtain m0 where m0: "gw_brokers g bid = Some m0"
    and m: "m = m0\<lparr>mb_cancel := Some c, mb_status := BrokerStatusStarting\<rparr>" and f: "gw_fresh g' = gw_fresh g"
    and b: "gw_brokers g' = (gw_brokers g)(bid \<mapsto> m)" and ch: "chan_ok (gw_events g) \<longrightarrow> chan_ok (gw_events g')"
    using start_begin_brokers [OF assms(2)] by blast
  have "managed_ok g bid m0" using gw_ok_lookup [OF assms(1) m0] .
  then have mo: "managed_ok g' bid m" using f by (simp add: managed_ok_def m)
  have "gw_ok g'"
    by (rule gw_ok_update [OF assms(1) _ b _ mo]) (use assms(1) ch f m m0 in \<open>auto simp: gw_ok_def\<close>)
  moreover have "brokers_step g g'" using b m m0 f by (auto simp: brokers_step_def)
  moreover have "inflight g' bid (mb_ident m)" using mo b m by (simp add: inflight_def managed_ok_def)
  ultimately show ?thesis by blast
qed

lemma gw_ok_end:
  assumes "gw_ok g" and "inflight g bid (mb_ident m)"
  shows "gw_ok (start_end g bid m) \<and> brokers_step g (start_end g bid m)"
proof (cases "gw_brokers (start_end g bid m) = gw_brokers g")
  case True
  with start_end_brokers [of g bid m] assms(1) show ?thesis
    by (intro gw_ok_sub) (simp_all add: gw_ok_def)
next
  case False
  let ?g = "start_end g bid m"
  from False start_end_brokers [of g bid m] obtain m' where m': "gw_brokers g bid = Some m'" "mb_ident m' = mb_ident m"
    and b: "gw_brokers ?g = (gw_brokers g)(bid \<mapsto> m'\<lparr>mb_status := BrokerStatusRunning\<rparr>)"
    and f: "gw_fresh ?g = gw_fresh g" and ch: "chan_ok (gw_events g) \<longrightarrow> chan_ok (gw_events ?g)" by blast
  have "mb_cancel m' \<noteq> None" using assms(2) m' by (simp add: inflight_def)
  with gw_ok_lookup [OF assms(1) m'(1)] f have mo: "managed_ok ?g bid (m'\<lparr>mb_status := BrokerStatusRunning\<rparr>)"
    by (simp add: managed_ok_def)
  have "gw_ok ?g"
    by (rule gw_ok_update [OF assms(1) _ b _ mo]) (use assms(1) ch f m' in \<open>auto simp: gw_ok_def\<close>)
  moreover have "brokers_step g ?g" using b m' f by (auto simp: brokers_step_def)
  ultimately show ?thesis by blast
qed

lemma gw_ok_remove:
  assumes "gw_ok g" and "gw_Remove g bid = (g', r)"
  shows "gw_ok g' \<and> brokers_step g g'"
  using gw_Remove_brokers [OF assms(2)] assms(1)
  by (intro gw_ok_sub) (auto simp: gw_ok_def [of g] split: if_splits)

lemma gw_sys_step:
  assumes "gw_step s s'" and ok: "gw_sys_ok s"
  shows "gw_sys_ok s' \<and> brokers_step (gs_gw s) (gs_gw s')"
proof -
  have at: "gw_sys_ok (gw_at g s t p) \<and> brokers_step (gs_gw s) (gs_gw (gw_at g s t p))"
    if "gw_ok g" "brokers_step (gs_gw s) g" "pc_ok g p" for g t p
    using that ok pc_ok_step by (auto simp: gw_sys_ok_def gw_at_def)
  have refl: "brokers_step g g" for g :: "'a gateway" by (auto simp: brokers_step_def)
  have g: "gw_ok (gs_gw s)" and pc: "\<And>t. pc_ok (gs_gw s) (gs_pc s t)" using ok by (auto simp: gw_sys_ok_def)
  from assms(1) show ?thesis
  proof cases
    case (gw_register_check t spec)
    then show ?thesis using at [OF g refl] by simp
  next
    case (gw_register_insert t spec made g' r)
    then show ?thesis using at gw_ok_insert [OF g gw_register_insert(3)] by simp
  next
    case (gw_start_begin t bid g' m c)
    then show ?thesis using at gw_ok_begin [OF g gw_start_begin(3)] by simp
  next
    case (gw_broker_start t bid m c)
    have "gw_ok (broker_start (gs_gw s) m c) \<and> brokers_step (gs_gw s) (broker_start (gs_gw s) m c)"
      using g by (intro gw_ok_sub) (simp_all add: broker_start_def gw_ok_def)
    moreover have "pc_ok (broker_start (gs_gw s) m c) (GwStarted bid m)"
      using pc [of t] gw_broker_start(2) by (simp add: broker_start_def inflight_def)
    ultimately show ?thesis using gw_broker_start(1) at by simp
  next
    case (gw_start_end t bid m)
    then show ?thesis using at gw_ok_end [OF g] pc [of t] by simp
  next
    case (gw_remove t bid g' r)
    then show ?thesis using at gw_ok_remove [OF g gw_remove(3)] by simp
  next
    case (gw_observe e q)
    let ?g = "(gs_gw s)\<lparr>gw_events := q\<rparr>"
    have "gw_ok ?g \<and> brokers_step (gs_gw s) ?g"
      using g go_chan.recv_ok [OF _ gw_observe(2)] by (intro gw_ok_sub) (simp_all add: gw_ok_def)
    then show ?thesis using gw_observe(1) pc pc_ok_step by (auto simp: gw_sys_ok_def)
  qed
qed

lemma gw_reach_ok: "gw_reach s \<Longrightarrow> gw_sys_ok s"
proof (induction rule: gw_reach.induct)
  case gw_reach_init
  show ?case by (simp add: gw_sys_ok_def gw_ok_def gw_New_def)
qed (simp add: gw_sys_step)

lemma gw_steps_gone:
  assumes "gw_step\<^sup>*\<^sup>* s s'" and "gw_sys_ok s" and "n < gw_fresh (gs_gw s)" and "n \<notin> idents (gs_gw s)"
  shows "gw_sys_ok s' \<and> n < gw_fresh (gs_gw s') \<and> n \<notin> idents (gs_gw s')"
  using assms
proof (induction rule: rtranclp_induct)
  case (step s' s'')
  then have "gw_sys_ok s'" "n < gw_fresh (gs_gw s')" "n \<notin> idents (gs_gw s')" by blast+
  with gw_sys_step [OF step.hyps(2)] idents_step show ?case by blast
qed simp

section \<open>Lifecycle events\<close>

text \<open>The status of a broker according to the events published so far, and the order in which
  the events of one broker may follow each other: a broker is created when there is none, and
  everything it goes through ends with stopping and stopped.\<close>

definition status_after :: "string \<Rightarrow> lifecycle_msg list \<Rightarrow> broker_status option" where
  "status_after bid lg = foldl (\<lambda>st e. if lm_BrokerID e = bid then Some (lm_Status e) else st) None lg"

definition legal_next :: "broker_status option \<Rightarrow> broker_status \<Rightarrow> bool" where
  "legal_next old new \<longleftrightarrow>
     old \<in> {None, Some BrokerStatusStopped} \<and> new = BrokerStatusCreated \<or>
     old \<in> {Some BrokerStatusCreated, Some BrokerStatusStarting} \<and> new = BrokerStatusStarting \<or>
     old \<in> {Some BrokerStatusStarting, Some BrokerStatusRunning} \<and> new = BrokerStatusRunning \<or>
     old \<in> {Some BrokerStatusCreated, Some BrokerStatusStarting, Some BrokerStatusRunning} \<and>
       new = BrokerStatusStopping \<or>
     old = Some BrokerStatusStopping \<and> new = BrokerStatusStopped"

definition legal_log :: "lifecycle_msg list \<Rightarrow> bool" where
  "legal_log lg \<longleftrightarrow> (\<forall>n < length lg.
     legal_next (status_after (lm_BrokerID (lg ! n)) (take n lg)) (lm_Status (lg ! n)))"

definition log_shows :: "lifecycle_msg list \<Rightarrow> (string \<rightharpoonup> 'b managed_broker) \<Rightarrow> bool" where
  "log_shows lg brokers \<longleftrightarrow>
     (\<forall>bid m. brokers bid = Some m \<longrightarrow> status_after bid lg = Some (mb_status m)) \<and>
     (\<forall>bid. brokers bid = None \<longrightarrow> status_after bid lg \<in> {None, Some BrokerStatusStopped})"

definition delivered :: "lifecycle_msg list \<Rightarrow> 'b gateway \<Rightarrow> bool" where
  "delivered seen g \<longleftrightarrow> chan_cap (gw_events g) = 64 \<and> subseq (seen @ chan_buf (gw_events g)) (gw_log g) \<and>
     (length (gw_log g) \<le> 64 \<longrightarrow> seen @ chan_buf (gw_events g) = gw_log g)"

lemma status_after_snoc [simp]:
  "status_after bid (lg @ [e]) = (if lm_BrokerID e = bid then Some (lm_Status e) else status_after bid lg)"
  by (simp add: status_after_def)

lemma status_after_Nil [simp]: "status_after bid [] = None"
  by (simp add: status_after_def)

lemma legal_log_snoc [simp]:
  "legal_log (lg @ [e]) \<longleftrightarrow> legal_log lg \<and> legal_next (status_after (lm_BrokerID e) lg) (lm_Status e)"
  by (auto simp: legal_log_def less_Suc_eq nth_append)

lemma publish_log [simp]:
  "gw_log (publishLifecycleLocked g b a st msg) =
    gw_log g @ [\<lparr>lm_BrokerID = b, lm_AccountID = a, lm_Status = st, lm_Message = msg\<rparr>]"
  by (simp add: publishLifecycleLocked_def Let_def)

lemma delivered_publish [simp]:
  assumes "delivered seen g"
  shows "delivered seen (publishLifecycleLocked g b a st msg)"
proof (cases "chan_full (gw_events g)")
  case True
  then have "64 \<le> length (chan_buf (gw_events g))" using assms by (simp add: chan_full_def delivered_def)
  then have "64 \<le> length (gw_log g)"
    using assms list_emb_length [of "(=)" "seen @ chan_buf (gw_events g)" "gw_log g"] by (simp add: delivered_def)
  with True assms show ?thesis
    by (auto simp: delivered_def publishLifecycleLocked_def Let_def chan_try_send_buf intro: list_emb_append2 subseq_order.order_trans)
next
  case False
  with assms show ?thesis
    by (simp add: delivered_def publishLifecycleLocked_def Let_def chan_try_send_buf flip: append_assoc)
qed

lemma delivered_frame [simp]:
  "delivered seen (g\<lparr>gw_brokers := x\<rparr>) = delivered seen g" "delivered seen (g\<lparr>gw_fresh := n\<rparr>) = delivered seen g"
  "delivered seen (g\<lparr>gw_ctx := n\<rparr>) = delivered seen g" "delivered seen (g\<lparr>gw_started := st\<rparr>) = delivered seen g"
  "delivered seen (g\<lparr>gw_cancelled := l\<rparr>) = delivered seen g"
  by (simp_all add: delivered_def)

definition gw_events_ok :: "lifecycle_msg list \<Rightarrow> 'b gateway \<Rightarrow> bool" where
  "gw_events_ok seen g \<longleftrightarrow> legal_log (gw_log g) \<and> log_shows (gw_log g) (gw_brokers g) \<and> delivered seen g"

lemma log_shows_Some: "log_shows lg br \<Longrightarrow> br bid = Some m \<Longrightarrow> status_after bid lg = Some (mb_status m)"
  by (simp add: log_shows_def)

lemma log_shows_None: "log_shows lg br \<Longrightarrow> br bid = None \<Longrightarrow> status_after bid lg \<in> {None, Some BrokerStatusStopped}"
  by (simp add: log_shows_def)

lemma log_shows_upd:
  "log_shows lg br \<Longrightarrow> lm_BrokerID e = bid \<Longrightarrow> lm_Status e = mb_status m \<Longrightarrow> log_shows (lg @ [e]) (br(bid \<mapsto> m))"
  by (simp add: log_shows_def)

lemma log_shows_del:
  "log_shows lg br \<Longrightarrow> lm_BrokerID e = bid \<Longrightarrow> lm_Status e = BrokerStatusStopped \<Longrightarrow> log_shows (lg @ [e]) (br(bid := None))"
  by (simp add: log_shows_def)

lemma events_insert:
  assumes "gw_events_ok seen g" and "register_insert g spec made = (g', r)"
  shows "gw_events_ok seen g'"
proof (cases made)
  case (Inr b)
  show ?thesis
  proof (cases "gw_brokers g (bs_BrokerID spec)")
    case None
    with assms Inr log_shows_None [of "gw_log g" "gw_brokers g" "bs_BrokerID spec"] show ?thesis
      by (auto simp: register_insert_def gw_events_ok_def legal_next_def intro!: log_shows_upd)
  qed (use assms Inr in \<open>auto simp: register_insert_def\<close>)
qed (use assms in \<open>auto simp: register_insert_def\<close>)

lemma events_begin:
  assumes "gw_events_ok seen g" and "gw_ok g" and "start_begin g bid = (g', Inr (m, c))"
  shows "gw_events_ok seen g'"
proof -
  obtain m0 where m0: "gw_brokers g bid = Some m0" "mb_status m0 \<noteq> BrokerStatusRunning"
    using start_begin_brokers [OF assms(3)] by blast
  have "mb_status m0 \<in> {BrokerStatusCreated, BrokerStatusStarting}"
    using gw_ok_lookup [OF assms(2) m0(1)] m0(2) by (auto simp: managed_ok_def split: if_splits)
  with assms(1,3) m0 log_shows_Some [of "gw_log g" "gw_brokers g" bid m0] show ?thesis
    by (auto simp: start_begin_def Let_def gw_events_ok_def legal_next_def intro!: log_shows_upd)
qed

lemma events_end:
  assumes "gw_events_ok seen g" and "gw_ok g" and "inflight g bid (mb_ident m)"
  shows "gw_events_ok seen (start_end g bid m)"
proof (cases "\<exists>m'. gw_brokers g bid = Some m' \<and> mb_ident m' = mb_ident m")
  case True
  then obtain m' where m': "gw_brokers g bid = Some m'" "mb_ident m' = mb_ident m" by blast
  have "mb_status m' \<in> {BrokerStatusStarting, BrokerStatusRunning}"
    using gw_ok_lookup [OF assms(2) m'(1)] assms(3) m' by (auto simp: managed_ok_def inflight_def split: if_splits)
  with assms(1) m' log_shows_Some [of "gw_log g" "gw_brokers g" bid m'] show ?thesis
    by (auto simp: start_end_def gw_events_ok_def legal_next_def intro!: log_shows_upd)
qed (use assms(1) in \<open>auto simp: start_end_def split: option.splits\<close>)

lemma events_remove:
  assumes "gw_events_ok seen g" and "gw_ok g" and "gw_Remove g bid = (g', r)"
  shows "gw_events_ok seen g'"
proof (cases "gw_brokers g bid")
  case (Some m)
  let ?e = "\<lambda>st msg. \<lparr>lm_BrokerID = bid, lm_AccountID = bs_AccountID (mb_spec m), lm_Status = st, lm_Message = msg\<rparr>"
  have sa: "status_after bid (gw_log g) = Some (mb_status m)"
    using assms(1) Some log_shows_Some by (auto simp: gw_events_ok_def)
  have st: "mb_status m \<in> {BrokerStatusCreated, BrokerStatusStarting, BrokerStatusRunning}"
    using gw_ok_lookup [OF assms(2) Some] by (auto simp: managed_ok_def split: if_splits)
  have g': "gw_log g' = (gw_log g @ [?e BrokerStatusStopping ''broker stopping'']) @ [?e BrokerStatusStopped ''broker removed'']"
    "gw_brokers g' = (gw_brokers g)(bid := None)" "delivered seen g'"
    using assms(1,3) Some by (auto simp: gw_Remove_def Let_def gw_events_ok_def split: option.splits)
  have "log_shows (gw_log g @ [?e BrokerStatusStopping ''broker stopping''])
      ((gw_brokers g)(bid \<mapsto> m\<lparr>mb_status := BrokerStatusStopping\<rparr>))"
    using assms(1) by (intro log_shows_upd) (simp_all add: gw_events_ok_def)
  from log_shows_del [OF this, of "?e BrokerStatusStopped ''broker removed''" bid]
  have "log_shows (gw_log g') (gw_brokers g')" by (simp only: g') simp
  moreover have "legal_log (gw_log g')" unfolding g'(1) legal_log_snoc
    using assms(1) st by (auto simp: sa gw_events_ok_def legal_next_def)
  ultimately show ?thesis using g'(3) by (simp add: gw_events_ok_def)
qed (use assms in \<open>simp add: gw_Remove_def\<close>)

lemma events_step:
  assumes "gw_step s s'" and "gw_sys_ok s" and "gw_events_ok (gs_seen s) (gs_gw s)"
  shows "gw_events_ok (gs_seen s') (gs_gw s')"
  using assms(1)
proof cases
  case (gw_observe e q)
  with assms(3) go_chan.recv_items [OF gw_observe(2)] go_chan.recv_bound [OF gw_observe(2)] show ?thesis
    by (simp add: gw_events_ok_def delivered_def)
next
  case (gw_broker_start t bid m c)
  with assms(3) show ?thesis by (simp add: gw_at_def broker_start_def gw_events_ok_def)
next
  case (gw_start_end t bid m)
  have "inflight (gs_gw s) bid (mb_ident m)"
    using assms(2) gw_start_end(2) unfolding gw_sys_ok_def by (metis pc_ok.simps(4))
  with assms(2,3) gw_start_end(1) show ?thesis by (simp add: gw_at_def gw_sys_ok_def events_end)
next
  case (gw_register_check t spec)
  with assms(3) show ?thesis by (simp add: gw_at_def)
next
  case (gw_register_insert t spec made g r)
  from events_insert [OF assms(3) gw_register_insert(3)] gw_register_insert(1) show ?thesis by (simp add: gw_at_def)
next
  case (gw_start_begin t bid g m c)
  from events_begin [OF assms(3) _ gw_start_begin(3)] gw_start_begin(1) assms(2) show ?thesis
    by (simp add: gw_at_def gw_sys_ok_def)
next
  case (gw_remove t bid g r)
  from events_remove [OF assms(3) _ gw_remove(3)] gw_remove(1) assms(2) show ?thesis
    by (simp add: gw_at_def gw_sys_ok_def)
qed

lemma gw_reach_events: "gw_reach s \<Longrightarrow> gw_events_ok (gs_seen s) (gs_gw s)"
proof (induction rule: gw_reach.induct)
  case gw_reach_init
  show ?case
    by (simp add: gw_events_ok_def legal_log_def log_shows_def delivered_def gw_New_def) (simp add: chan_make_def)
qed (blast intro: events_step gw_reach_ok)

section \<open>Properties\<close>

text \<open>C38. A removed broker never returns: whatever calls are in flight when it is removed and
  whatever they do afterwards, its object is not in the map again.\<close>

theorem gateway_removed_stays_away:
  assumes "gw_reach s" and "gw_Remove (gs_gw s) bid = (g, None :: unit gw_error option)"
    and "gw_brokers (gs_gw s) bid = Some m" and "gw_step\<^sup>*\<^sup>* (s\<lparr>gs_gw := g\<rparr>) s'"
  shows "managed_ok (gs_gw s) bid m \<and>
    (\<forall>bid' m'. gw_brokers (gs_gw s') bid' = Some m' \<longrightarrow> managed_ok (gs_gw s') bid' m' \<and> mb_ident m' \<noteq> mb_ident m)"
proof -
  have ok: "gw_sys_ok s" by (rule gw_reach_ok [OF assms(1)])
  then have g: "gw_ok (gs_gw s)" by (simp add: gw_sys_ok_def)
  have m: "managed_ok (gs_gw s) bid m" by (rule gw_ok_lookup [OF g assms(3)])
  have rm: "gw_fresh g = gw_fresh (gs_gw s)" "gw_brokers g = (gw_brokers (gs_gw s))(bid := None)"
    using gw_Remove_brokers [OF assms(2)] by simp_all
  have "mb_ident m \<notin> idents g"
  proof
    assume "mb_ident m \<in> idents g"
    then obtain b x where "gw_brokers g b = Some x" "mb_ident x = mb_ident m" by (auto simp: idents_def)
    with rm(2) have "b \<noteq> bid" "gw_brokers (gs_gw s) b = Some x" by (auto split: if_splits)
    with g assms(3) \<open>mb_ident x = mb_ident m\<close> show False unfolding gw_ok_def by metis
  qed
  moreover have "gw_sys_ok (s\<lparr>gs_gw := g\<rparr>)"
    using gw_ok_remove [OF g assms(2)] ok pc_ok_step by (auto simp: gw_sys_ok_def)
  moreover have "mb_ident m < gw_fresh g" using m rm(1) by (simp add: managed_ok_def)
  ultimately have "gw_sys_ok s'" "mb_ident m \<notin> idents (gs_gw s')"
    using gw_steps_gone [OF assms(4), of "mb_ident m"] by simp_all
  then show ?thesis using m by (auto simp: gw_sys_ok_def gw_ok_def idents_def)
qed

definition sample_spec :: broker_spec where
  "sample_spec = \<lparr>bs_BrokerID = ''ls-1'', bs_AccountID = ''acct'', bs_BrokerType = ''ls'', bs_HasFactory = True\<rparr>"

theorem gateway_removed_stays_away_witness:
  "\<exists>s m g. gw_reach s \<and> gw_brokers (gs_gw s) ''ls-1'' = Some (m :: nat managed_broker) \<and>
    managed_ok (gs_gw s) ''ls-1'' m \<and> gw_Remove (gs_gw s) ''ls-1'' = (g, None :: unit gw_error option)"
proof -
  let ?s0 = "\<lparr>gs_gw = gw_New, gs_pc = (\<lambda>_. GwIdle), gs_seen = []\<rparr> :: nat gw_system"
  let ?s1 = "gw_at gw_New ?s0 0 (GwRegister sample_spec)"
  obtain g r where ins: "register_insert gw_New sample_spec (Inr 7 :: unit + nat) = (g, r)"
    by (rule prod.exhaust)
  let ?s2 = "gw_at g ?s1 0 GwIdle"
  have "gw_reach ?s1"
    using gw_reach_step [OF gw_reach_init gw_register_check [of ?s0 0 sample_spec]]
    by (simp add: register_check_def validateBrokerSpec_def sample_spec_def gw_New_def)
  then have r2: "gw_reach ?s2"
    by (rule gw_reach_step) (rule gw_register_insert [of ?s1 0 sample_spec "Inr 7" g r], simp_all add: gw_at_def ins)
  obtain m where m: "gw_brokers g ''ls-1'' = Some m"
    using ins by (auto simp: register_insert_def gw_New_def sample_spec_def)
  obtain g' where rm: "gw_Remove g ''ls-1'' = (g', None :: unit gw_error option)"
    using m by (simp add: gw_Remove_def Let_def)
  have "gs_gw ?s2 = g" by (simp add: gw_at_def)
  with gateway_removed_stays_away [OF r2, of "''ls-1''" g' m, OF _ _ rtranclp.rtrancl_refl] rm m r2
  show ?thesis by metis
qed

text \<open>C37. The lifecycle events tell the truth under concurrent callers: however \<open>Register\<close>,
  \<open>Start\<close> and \<open>Remove\<close> calls interleave between their critical sections, the last event
  published for a broker is its status in the map, and a broker without an entry is one never
  seen or one whose last event is stopped; the events of each broker follow the order
  created, starting, running, stopping, stopped (starting and running may repeat, when
  \<open>Start\<close> calls overlap); an observer reads a subsequence of what was published, in order,
  and all of it as long as no more than 64 events have been published. Every broker in the
  map is filed under its ID and has a cancel function exactly when it was started. (That
  overlapping starts lose the first cancel function is \<open>gateway_double_start_leaks\<close>.)\<close>

theorem gateway_concurrent_lifecycle:
  assumes "gw_reach s"
  shows "(\<forall>bid. case gw_brokers (gs_gw s) bid of
      Some m \<Rightarrow> status_after bid (gw_log (gs_gw s)) = Some (mb_status m) \<and> bs_BrokerID (mb_spec m) = bid \<and>
        mb_status m \<in> {BrokerStatusCreated, BrokerStatusStarting, BrokerStatusRunning} \<and>
        (mb_cancel m = None \<longleftrightarrow> mb_status m = BrokerStatusCreated)
    | None \<Rightarrow> status_after bid (gw_log (gs_gw s)) \<in> {None, Some BrokerStatusStopped}) \<and>
    (\<forall>pre e post. gw_log (gs_gw s) = pre @ e # post \<longrightarrow>
      legal_next (status_after (lm_BrokerID e) pre) (lm_Status e)) \<and>
    subseq (gs_seen s @ chan_buf (gw_events (gs_gw s))) (gw_log (gs_gw s)) \<and>
    (length (gw_log (gs_gw s)) \<le> 64 \<longrightarrow>
      gs_seen s @ chan_buf (gw_events (gs_gw s)) = gw_log (gs_gw s))"
proof -
  have ev: "gw_events_ok (gs_seen s) (gs_gw s)" by (rule gw_reach_events [OF assms])
  have ok: "gw_ok (gs_gw s)" using gw_reach_ok [OF assms] by (simp add: gw_sys_ok_def)
  have "case gw_brokers (gs_gw s) bid of
      Some m \<Rightarrow> status_after bid (gw_log (gs_gw s)) = Some (mb_status m) \<and> bs_BrokerID (mb_spec m) = bid \<and>
        mb_status m \<in> {BrokerStatusCreated, BrokerStatusStarting, BrokerStatusRunning} \<and>
        (mb_cancel m = None \<longleftrightarrow> mb_status m = BrokerStatusCreated)
    | None \<Rightarrow> status_after bid (gw_log (gs_gw s)) \<in> {None, Some BrokerStatusStopped}" for bid
  proof (cases "gw_brokers (gs_gw s) bid")
    case None
    with ev show ?thesis by (simp add: gw_events_ok_def log_shows_def)
  next
    case (Some m)
    with ev gw_ok_lookup [OF ok Some] show ?thesis
      by (auto simp: gw_events_ok_def log_shows_def managed_ok_def split: if_splits)
  qed
  moreover have "legal_next (status_after (lm_BrokerID e) pre) (lm_Status e)"
    if "gw_log (gs_gw s) = pre @ e # post" for pre e post
  proof -
    have "legal_log (pre @ e # post)" using ev that by (simp add: gw_events_ok_def)
    then show ?thesis unfolding legal_log_def by (metis add.right_neutral append_eq_conv_conj length_append
        length_Cons less_add_Suc1 nth_append_length add_Suc_right)
  qed
  ultimately show ?thesis using ev by (simp add: gw_events_ok_def delivered_def)
qed

theorem gateway_concurrent_lifecycle_witness:
  "\<exists>s :: nat gw_system. gw_reach s \<and> map lm_Status (gs_seen s @ chan_buf (gw_events (gs_gw s))) = [BrokerStatusCreated]"
proof -
  let ?s0 = "\<lparr>gs_gw = gw_New, gs_pc = (\<lambda>_. GwIdle), gs_seen = []\<rparr> :: nat gw_system"
  let ?s1 = "gw_at gw_New ?s0 0 (GwRegister sample_spec)"
  obtain g r where ins: "register_insert gw_New sample_spec (Inr 7 :: unit + nat) = (g, r)"
    by (rule prod.exhaust)
  let ?s2 = "gw_at g ?s1 0 GwIdle"
  have "gw_reach ?s1"
    using gw_reach_step [OF gw_reach_init gw_register_check [of ?s0 0 sample_spec]]
    by (simp add: register_check_def validateBrokerSpec_def sample_spec_def gw_New_def)
  then have r2: "gw_reach ?s2"
    by (rule gw_reach_step) (rule gw_register_insert [of ?s1 0 sample_spec "Inr 7" g r], simp_all add: gw_at_def ins)
  have "map lm_Status (gw_log g) = [BrokerStatusCreated]"
    using ins by (auto simp: register_insert_def gw_New_def sample_spec_def)
  moreover from this have "length (gw_log g) = 1" by (metis length_map length_Cons list.size(3) One_nat_def)
  ultimately show ?thesis
    using gateway_concurrent_lifecycle [OF r2] r2 by (intro exI [of _ ?s2]) (simp add: gw_at_def)
qed

text \<open>The life of one broker, without other callers: registering, starting and removing
  a broker with a valid spec all succeed; its status is created, then running, then
  unknown; the events are created, starting, running, stopping and stopped, in this
  order; it was started once, and its context is cancelled.\<close>

theorem gateway_lifecycle:
  assumes "validateBrokerSpec spec = (None :: 'e gw_error option)" and "gw_brokers g (bs_BrokerID spec) = None"
    and "length (chan_buf (gw_events g)) + 5 \<le> chan_cap (gw_events g)"
    and "gw_Register g spec (Inr b) = (g1, r1 :: 'e gw_error option)"
    and "gw_Start g1 (bs_BrokerID spec) = (g2, r2 :: 'e gw_error option)"
    and "gw_Remove g2 (bs_BrokerID spec) = (g3, r3 :: 'e gw_error option)"
  shows "r1 = None \<and> r2 = None \<and> r3 = None \<and>
    gw_Status g1 (bs_BrokerID spec) = Some BrokerStatusCreated \<and>
    gw_Status g2 (bs_BrokerID spec) = Some BrokerStatusRunning \<and> gw_brokers g3 = gw_brokers g \<and>
    map lm_Status (chan_buf (gw_events g3)) = map lm_Status (chan_buf (gw_events g)) @
      [BrokerStatusCreated, BrokerStatusStarting, BrokerStatusRunning, BrokerStatusStopping, BrokerStatusStopped] \<and>
    gw_started g3 = gw_started g @ [(gw_fresh g, gw_ctx g)] \<and> gw_cancelled g3 = gw_cancelled g @ [gw_ctx g]"
proof -
  note sends = publishLifecycleLocked_def chan_defs Let_def
  have g1: "r1 = None \<and> g1 = fst (register_insert g spec (Inr b :: 'e + 'a))"
    using assms(1,2,4) by (auto simp: gw_Register_def register_check_def register_insert_def)
  have g2: "r2 = None \<and> gw_brokers g2 = (gw_brokers g)(bs_BrokerID spec \<mapsto> \<lparr>mb_ident = gw_fresh g, mb_spec = spec,
      mb_broker = b, mb_status = BrokerStatusRunning, mb_cancel = Some (gw_ctx g)\<rparr>) \<and>
    gw_started g2 = gw_started g @ [(gw_fresh g, gw_ctx g)] \<and> gw_cancelled g2 = gw_cancelled g"
    using assms(2,5) g1
    by (auto simp: gw_Start_def start_begin_def start_end_def broker_start_def register_insert_def Let_def)
  have e2: "map lm_Status (chan_buf (gw_events g2)) = map lm_Status (chan_buf (gw_events g)) @
      [BrokerStatusCreated, BrokerStatusStarting, BrokerStatusRunning]" "chan_cap (gw_events g2) = chan_cap (gw_events g)"
    using assms(2,3,5) g1
    by (auto simp: gw_Start_def start_begin_def start_end_def broker_start_def register_insert_def Let_def sends)
  have l2: "length (chan_buf (gw_events g2)) = length (chan_buf (gw_events g)) + 3"
    using arg_cong [OF e2(1), of length] by simp
  have g3: "r3 = None \<and> gw_brokers g3 = gw_brokers g \<and> gw_started g3 = gw_started g2 \<and>
      gw_cancelled g3 = gw_cancelled g2 @ [gw_ctx g]"
    using assms(2,6) g2 by (auto simp: gw_Remove_def Let_def fun_upd_idem)
  have "map lm_Status (chan_buf (gw_events g3)) = map lm_Status (chan_buf (gw_events g2)) @
      [BrokerStatusStopping, BrokerStatusStopped]"
    using assms(3,6) g2 e2(2) l2 by (auto simp: gw_Remove_def Let_def sends)
  moreover have "gw_Status g1 (bs_BrokerID spec) = Some BrokerStatusCreated"
    using g1 assms(2) by (simp add: gw_Status_def register_insert_def)
  moreover have "gw_Status g2 (bs_BrokerID spec) = Some BrokerStatusRunning" using g2 by (simp add: gw_Status_def)
  ultimately show ?thesis using g1 g2 g3 e2 by simp
qed

theorem gateway_lifecycle_witness:
  "\<exists>g1 g2 g3 :: nat gateway. gw_Register gw_New sample_spec (Inr 7) = (g1, None :: unit gw_error option) \<and>
    gw_Start g1 ''ls-1'' = (g2, None :: unit gw_error option) \<and>
    gw_Remove g2 ''ls-1'' = (g3, None :: unit gw_error option) \<and> gw_cancelled g3 = [0]"
proof -
  obtain g1 r1 where 1: "gw_Register gw_New sample_spec (Inr (7 :: nat)) = (g1, r1 :: unit gw_error option)"
    by (rule prod.exhaust)
  obtain g2 r2 where 2: "gw_Start g1 (bs_BrokerID sample_spec) = (g2, r2 :: unit gw_error option)" by (rule prod.exhaust)
  obtain g3 r3 where 3: "gw_Remove g2 (bs_BrokerID sample_spec) = (g3, r3 :: unit gw_error option)" by (rule prod.exhaust)
  have id: "bs_BrokerID sample_spec = ''ls-1''" by (simp add: sample_spec_def)
  have "r1 = None \<and> r2 = None \<and> r3 = None \<and> gw_cancelled g3 = gw_cancelled gw_New @ [gw_ctx (gw_New :: nat gateway)]"
    using gateway_lifecycle [OF _ _ _ 1 2 3]
    by (simp add: validateBrokerSpec_def sample_spec_def gw_New_def chan_make_def)
  with 1 2 3 show ?thesis unfolding id by (simp add: gw_New_def)
qed

text \<open>Two overlapping starts leak a context: when a second \<open>Start\<close> arrives while the
  first is still inside \<open>broker.Start\<close>, both go on, the broker is started twice, and the
  cancel function of the first context is overwritten, so that removing the broker
  cancels only the second one.\<close>

theorem gateway_double_start_leaks:
  assumes "gw_brokers g bid = Some m" and "mb_status m \<noteq> BrokerStatusRunning"
    and "start_begin g bid = (g1, Inr (m1, c1) :: 'e gw_error option + _)"
    and "start_begin g1 bid = (g2, Inr (m2, c2) :: 'e gw_error option + _)"
    and "gw_Remove (broker_start (broker_start g2 m1 c1) m2 c2) bid = (g3, r :: 'e gw_error option)"
  shows "gw_started g3 = gw_started g @ [(mb_ident m, c1), (mb_ident m, c2)] \<and> c1 \<noteq> c2 \<and>
    gw_cancelled g3 = gw_cancelled g @ [c2]"
  using assms by (auto simp: start_begin_def gw_Remove_def broker_start_def Let_def split: if_splits)

theorem gateway_double_start_leaks_witness:
  "\<exists>g1 m1 g2 m2 g3. start_begin (fst (gw_Register gw_New sample_spec (Inr (7 :: nat) :: unit + nat))) ''ls-1''
      = (g1, Inr (m1, 0) :: unit gw_error option + _) \<and>
    start_begin g1 ''ls-1'' = (g2, Inr (m2, 1) :: unit gw_error option + _) \<and>
    gw_Remove (broker_start (broker_start g2 m1 0) m2 1) ''ls-1'' = (g3, None :: unit gw_error option) \<and>
    gw_cancelled g3 = [1]"
proof -
  let ?g = "fst (gw_Register gw_New sample_spec (Inr (7 :: nat) :: unit + nat))"
  obtain m where m: "gw_brokers ?g ''ls-1'' = Some m" "mb_status m \<noteq> BrokerStatusRunning" "gw_ctx ?g = 0"
    "gw_cancelled ?g = []"
    by (simp add: gw_Register_def register_check_def validateBrokerSpec_def register_insert_def sample_spec_def gw_New_def)
  obtain g1 m1 where 1: "start_begin ?g ''ls-1'' = (g1, Inr (m1, 0) :: unit gw_error option + _)"
    using m by (simp add: start_begin_def Let_def)
  obtain g2 m2 where 2: "start_begin g1 ''ls-1'' = (g2, Inr (m2, 1) :: unit gw_error option + _)"
    using 1 m by (auto simp: start_begin_def Let_def)
  obtain g3 where 3: "gw_Remove (broker_start (broker_start g2 m1 0) m2 1) ''ls-1'' = (g3, None :: unit gw_error option)"
    using 1 2 m by (auto simp: start_begin_def gw_Remove_def broker_start_def Let_def)
  from gateway_double_start_leaks [OF m(1,2) 1 2 3] m(4) 1 2 3 show ?thesis by auto
qed

section \<open>Properties of the streams\<close>

definition stream_inv :: "('n \<Rightarrow> 'm) \<Rightarrow> ('n, 'm) ls_stream \<Rightarrow> bool" where
  "stream_inv convert s \<longleftrightarrow> chan_ok (rs_out s) \<and> chan_cap (rs_out s) = 64 \<and>
     map convert (rs_taken s) = rs_read s @ chan_buf (rs_out s) @ (case rs_hold s of None \<Rightarrow> [] | Some m \<Rightarrow> [m])"

lemma stream_inv_step: "stream_step convert s s' \<Longrightarrow> stream_inv convert s \<Longrightarrow> stream_inv convert s'"
proof (induction rule: stream_step.induct)
  case (stream_send s m q)
  then show ?case
    using go_chan.send_items [of "rs_out s" m q] go_chan.send_ok [of "rs_out s" m q]
      go_chan.send_bound [of "rs_out s" m q]
    by (simp add: stream_inv_def)
next
  case (caller_read s m q)
  then show ?case
    using go_chan.recv_items [of "rs_out s" m q] go_chan.recv_ok [of "rs_out s" m q]
      go_chan.recv_bound [of "rs_out s" m q]
    by (simp add: stream_inv_def)
qed (simp_all add: stream_inv_def)

text \<open>A converted stream is faithful: whatever the interleaving of the native feed, the
  stream goroutine, the closing of the handle and the reader, what the reader has
  received is the conversion of an initial part of the native messages taken, in order
  and without loss; what is missing waits in the channel of 64 or in the goroutine.\<close>

theorem ls_stream_faithful:
  assumes "stream_reach convert s"
  shows "map convert (rs_taken s) =
      rs_read s @ chan_buf (rs_out s) @ (case rs_hold s of None \<Rightarrow> [] | Some m \<Rightarrow> [m]) \<and>
    length (chan_buf (rs_out s)) \<le> 64"
proof -
  from assms have "stream_inv convert s"
  proof (induction rule: stream_reach.induct)
    case 1
    show ?case by (simp add: stream_inv_def stream_init_def) (simp add: chan_make_def)
  qed (blast intro: stream_inv_step)
  then show ?thesis by (simp add: stream_inv_def chan_ok_def)
qed

definition sample_trade :: "rat \<Rightarrow> trade_message" where
  "sample_trade rate = \<lparr>nm_Header = \<lparr>rh_TRType = ''3'', rh_TRCode = RealtimeTRTrade, rh_TRKey = ''A''\<rparr>,
     nm_Body = \<lparr>tb_ShCode = ''A'', tb_Price = 100, tb_Change = 1, tb_ChangeRate = rate, tb_TradeVolume = 5,
       tb_Volume = 9, tb_TradeTime = ''090000'', tb_Sign = ''2'', tb_Open = 99, tb_High = 101, tb_Low = 98,
       tb_AskPrice = 101, tb_BidPrice = 100\<rparr>,
     nm_ConnID = ''c'', nm_ReceivedAt = 1\<rparr>"

definition sample_ls :: ls_domain_broker where
  "sample_ls = \<lparr>ld_brokerID = ''ls-1'', ld_accountID = ''acct''\<rparr>"

theorem ls_stream_faithful_witness:
  "\<exists>s. stream_reach (convertLSTick (\<lambda>_. 0) sample_ls) s \<and> rs_taken s = [sample_trade 1] \<and>
    rs_read s @ chan_buf (rs_out s) @ (case rs_hold s of None \<Rightarrow> [] | Some m \<Rightarrow> [m]) =
      [convertLSTick (\<lambda>_. 0) sample_ls (sample_trade 1)]"
proof -
  let ?c = "convertLSTick (\<lambda>_. 0) sample_ls"
  let ?s0 = "stream_init :: (trade_message, tick_msg) ls_stream"
  let ?s1 = "?s0\<lparr>rs_in := rs_in ?s0 @ [sample_trade 1]\<rparr>"
  let ?s2 = "?s1\<lparr>rs_in := [], rs_hold := Some (?c (sample_trade 1)), rs_taken := rs_taken ?s1 @ [sample_trade 1]\<rparr>"
  have "stream_reach ?c ?s1"
    by (rule stream_reach.intros(2) [OF stream_reach.intros(1) native_send]) (simp add: stream_init_def)
  then have r: "stream_reach ?c ?s2"
    by (rule stream_reach.intros(2)) (rule stream_take, simp_all add: stream_init_def)
  moreover have "rs_taken ?s2 = [sample_trade 1]" by (simp add: stream_init_def)
  ultimately show ?thesis using ls_stream_faithful [OF r] by (intro exI [of _ ?s2]) (simp add: stream_init_def)
qed

text \<open>The fixed-point rate of an LS tick: for a change rate of \<open>n\<close> hundredths of a
  percent, as the feed sends it, the rate of the domain message is either exact or one
  unit closer to zero, never further off; and it is not always exact, because the
  product is truncated: 0.57 percent becomes 5699 instead of 5700.\<close>

theorem ls_tick_rate:
  assumes "tb_ChangeRate (nm_Body msg) = fl64 (of_int n / 100)" and "\<bar>n\<bar> \<le> 1000000000000"
  shows "tm_ChangeRate (convertLSTick impl b msg) \<in> {100 * n, 100 * n - sgn n} \<and>
    (n = 57 \<longrightarrow> tm_ChangeRate (convertLSTick impl b msg) = 5699)"
proof -
  let ?x = "fl_mult (fl64 (of_int n / 100)) 10000"
  have "n \<noteq> 0 \<Longrightarrow> 1 \<le> \<bar>rat_of_int n\<bar>" by (cases "0 < n") auto
  then have lo: "1 / 1000000 \<le> \<bar>rat_of_int n / 100\<bar> \<or> rat_of_int n / 100 = 0" by auto
  have "rat_of_int \<bar>n\<bar> \<le> rat_of_int 1000000000000" using assms(2) by (simp only: of_int_le_iff)
  then have hi: "\<bar>rat_of_int n / 100\<bar> \<le> 100000000000" by simp
  from scaled_error [OF lo hi] have "\<bar>?x - of_int (100 * n)\<bar> < 1 / 2" by simp
  from trunc_rat_near [OF this] have t: "trunc_rat ?x = 100 * n \<or> trunc_rat ?x = 100 * n - sgn n"
    by (simp add: sgn_mult)
  moreover have "in64 (100 * n)" "in64 (100 * n - sgn n)"
    using assms(2) by (auto simp: in64_def sgn_if)
  ultimately have "float_to_int64 impl ?x = trunc_rat ?x" by (auto simp: float_to_int64_def)
  moreover have "trunc_rat (fl_mult (fl64 (57 / 100)) 10000) = 5699" by code_simp
  ultimately show ?thesis using t assms(1) by (auto simp: convertLSTick_def Let_def)
qed

theorem ls_tick_rate_witness:
  "tm_ChangeRate (convertLSTick (\<lambda>_. 0) sample_ls (sample_trade (fl64 (of_int 57 / 100)))) = 5699"
  using ls_tick_rate [of "sample_trade (fl64 (of_int 57 / 100))" 57 "\<lambda>_. 0" sample_ls]
  by (simp add: sample_trade_def)

text \<open>Closing a handle: whoever closes it, and however often, the close function of a
  subscription runs at most once, so the channel it closes is closed once, and every
  call returns the result of that first run.\<close>

fun close_all :: "'e option list \<Rightarrow> 'e handle \<Rightarrow> 'e handle \<times> 'e option list" where
  "close_all [] h = (h, [])"
| "close_all (r # rs) h =
     (let (h1, e) = sub_Close True r h; (h2, es) = close_all rs h1 in (h2, e # es))"

theorem subscription_closed_once:
  "hd_calls (fst (close_all (r0 # rs) NewSubscription)) = 1 \<and>
    set (snd (close_all (r0 # rs) NewSubscription)) = {r0}"
proof -
  have "hd_once h \<Longrightarrow> hd_calls (fst (close_all rs h)) = hd_calls h \<and>
      set (snd (close_all rs h)) \<subseteq> {hd_closeErr h}" for h :: "'a handle"
    by (induction rs) (auto simp: sub_Close_def Let_def split: prod.splits)
  from this [of "\<lparr>hd_once = True, hd_closeErr = r0, hd_calls = 1\<rparr>"] show ?thesis
    by (auto simp: NewSubscription_def sub_Close_def Let_def split: prod.splits)
qed

end
