(* ===== verification/Config_Service.thy ===== *)
theory Config_Service
  imports Base64
begin

text \<open>
  \<open>internal/core/service/config\<close>: the configuration with its accounts (\<open>config.go\<close>), the
  encryption of the credentials (\<open>crypto.go\<close>) and the validation (\<open>validator.go\<close>).

  AES-GCM and scrypt are parameters: \<open>seal\<close> and \<open>gopen\<close> of a \<open>cipher\<close> for a key, and a key
  derivation. What the code relies on is the law that opening what was sealed with the
  same key and nonce gives the plaintext. The nonce of each encryption is an argument
  (\<open>None\<close> when the random source fails). A saved file is the value that is marshalled:
  reading it back is taken to give this value, which \<open>encoding/json\<close> keeps to for text in
  UTF-8 (other bytes come back as replacement characters).
\<close>

section \<open>Data\<close>

type_synonym broker_type = string

abbreviation BrokerKIS :: broker_type where "BrokerKIS \<equiv> ''kis''"
abbreviation BrokerEBest :: broker_type where "BrokerEBest \<equiv> ''ebest''"
abbreviation BrokerBinance :: broker_type where "BrokerBinance \<equiv> ''binance''"
abbreviation BrokerUpbit :: broker_type where "BrokerUpbit \<equiv> ''upbit''"
abbreviation BrokerBithumb :: broker_type where "BrokerBithumb \<equiv> ''bithumb''"
abbreviation AssetStock :: string where "AssetStock \<equiv> ''stock''"
abbreviation AssetCrypto :: string where "AssetCrypto \<equiv> ''crypto''"

definition AssetTypeOf :: "broker_type \<Rightarrow> string" where
  "AssetTypeOf b =
     (if b = BrokerKIS \<or> b = BrokerEBest then AssetStock
      else if b = BrokerBinance \<or> b = BrokerUpbit \<or> b = BrokerBithumb then AssetCrypto
      else [])"

record credential =
  cr_APIKey :: string
  cr_APISecret :: string
  cr_AccountNo :: string
  cr_Encrypted :: bool

record account_config =
  ac_ID :: string
  ac_Broker :: broker_type
  ac_Enabled :: bool
  ac_Credentials :: credential
  ac_BaseURL :: string
  ac_IsPaper :: bool

record server_config =
  sv_Host :: string
  sv_Port :: int

record debug_config =
  dc_Verbose :: bool
  dc_LogLevel :: string
  dc_LogDir :: string

record config =
  cf_KeySalt :: string
  cf_Accounts :: "account_config list"
  cf_Server :: server_config
  cf_DataDir :: string
  cf_Debug :: debug_config
  cf_configPath :: string

record cipher =
  ci_seal :: "string \<Rightarrow> string \<Rightarrow> string \<Rightarrow> string"
  ci_open :: "string \<Rightarrow> string \<Rightarrow> string \<Rightarrow> string option"

datatype cfg_error =
    ErrKeyLength nat | ErrNonce | ErrBase64 | ErrTooShort | ErrOpen
  | ErrEncrypting string string cfg_error | ErrDecrypting string string cfg_error
  | ErrMissingKeySalt | ErrAccountNotFound string | ErrDuplicateAccount string
  | ErrKeySaltNotSet | ErrKeySaltBase64

section \<open>Encryption\<close>

definition Encrypt :: "cipher \<Rightarrow> string option \<Rightarrow> string \<Rightarrow> string \<Rightarrow> cfg_error + string" where
  "Encrypt ci nonce plaintext key =
     (if length key \<noteq> 32 then Inl (ErrKeyLength (length key))
      else case nonce of
             None \<Rightarrow> Inl ErrNonce
           | Some n \<Rightarrow> Inr (b64_encode (n @ ci_seal ci key n plaintext)))"

definition Decrypt :: "cipher \<Rightarrow> string \<Rightarrow> string \<Rightarrow> cfg_error + string" where
  "Decrypt ci encoded key =
     (if length key \<noteq> 32 then Inl (ErrKeyLength (length key))
      else case b64_decode encoded of
             None \<Rightarrow> Inl ErrBase64
           | Some data \<Rightarrow>
               if length data < 12 then Inl ErrTooShort
               else case ci_open ci key (take 12 data) (drop 12 data) of
                      None \<Rightarrow> Inl ErrOpen
                    | Some plaintext \<Rightarrow> Inr plaintext)"

definition DeriveKeyFromConfig ::
    "(string \<Rightarrow> string \<Rightarrow> cfg_error + string) \<Rightarrow> string \<Rightarrow> config \<Rightarrow> cfg_error + string" where
  "DeriveKeyFromConfig DeriveKey password cfg =
     (if cf_KeySalt cfg = [] then Inl ErrKeySaltNotSet
      else case b64_decode (cf_KeySalt cfg) of
             None \<Rightarrow> Inl ErrKeySaltBase64
           | Some salt \<Rightarrow> DeriveKey password salt)"

definition SetupKeySalt :: "cfg_error + string \<Rightarrow> config \<Rightarrow> config \<times> (cfg_error + string)" where
  "SetupKeySalt newSalt c =
     (case newSalt of
        Inl e \<Rightarrow> (c, Inl e)
      | Inr salt \<Rightarrow> (c\<lparr>cf_KeySalt := b64_encode salt\<rparr>, Inr salt))"

section \<open>The configuration\<close>

definition Default :: config where
  "Default = \<lparr>cf_KeySalt = [], cf_Accounts = [], cf_Server = \<lparr>sv_Host = ''127.0.0.1'', sv_Port = 8080\<rparr>,
     cf_DataDir = [], cf_Debug = \<lparr>dc_Verbose = False, dc_LogLevel = ''info'', dc_LogDir = []\<rparr>,
     cf_configPath = []\<rparr>"

text \<open>\<open>DecryptCredentials\<close> works in place and stops at the first error: the result has the
  accounts as they are then. A failed \<open>Decrypt\<close> returns the empty string, and the
  assignment stores it before the error is looked at.\<close>

definition decrypt_account :: "cipher \<Rightarrow> string \<Rightarrow> account_config \<Rightarrow> account_config \<times> cfg_error option" where
  "decrypt_account ci key acc =
     (let cred = ac_Credentials acc
      in if \<not> cr_Encrypted cred then (acc, None)
         else case Decrypt ci (cr_APIKey cred) key of
                Inl e \<Rightarrow> (acc\<lparr>ac_Credentials := cred\<lparr>cr_APIKey := []\<rparr>\<rparr>, Some (ErrDecrypting ''api_key'' (ac_ID acc) e))
              | Inr k \<Rightarrow>
                  (let cred1 = cred\<lparr>cr_APIKey := k\<rparr>
                   in case Decrypt ci (cr_APISecret cred1) key of
                        Inl e \<Rightarrow> (acc\<lparr>ac_Credentials := cred1\<lparr>cr_APISecret := []\<rparr>\<rparr>,
                          Some (ErrDecrypting ''api_secret'' (ac_ID acc) e))
                      | Inr sec \<Rightarrow>
                          (acc\<lparr>ac_Credentials := cred1\<lparr>cr_APISecret := sec, cr_Encrypted := False\<rparr>\<rparr>, None)))"

fun decrypt_loop :: "cipher \<Rightarrow> string \<Rightarrow> account_config list \<Rightarrow> account_config list \<times> cfg_error option" where
  "decrypt_loop ci key [] = ([], None)"
| "decrypt_loop ci key (acc # accs) =
     (case decrypt_account ci key acc of
        (acc', Some e) \<Rightarrow> (acc' # accs, Some e)
      | (acc', None) \<Rightarrow> (let (accs', r) = decrypt_loop ci key accs in (acc' # accs', r)))"

definition DecryptCredentials :: "cipher \<Rightarrow> config \<Rightarrow> string \<Rightarrow> config \<times> cfg_error option" where
  "DecryptCredentials ci c key =
     (let (accs, r) = decrypt_loop ci key (cf_Accounts c) in (c\<lparr>cf_Accounts := accs\<rparr>, r))"

text \<open>\<open>Save\<close> encrypts a clone. \<open>nonces i\<close> are the nonces drawn for account \<open>i\<close>.\<close>

definition encrypt_account ::
    "cipher \<Rightarrow> string option \<times> string option \<Rightarrow> string \<Rightarrow> account_config \<Rightarrow> cfg_error + account_config" where
  "encrypt_account ci ns key acc =
     (let cred = ac_Credentials acc
      in if cr_Encrypted cred \<or> (cr_APIKey cred = [] \<and> cr_APISecret cred = []) then Inr acc
         else
           case (if cr_APIKey cred \<noteq> [] then Encrypt ci (fst ns) (cr_APIKey cred) key else Inr []) of
             Inl e \<Rightarrow> Inl (ErrEncrypting ''api_key'' (ac_ID acc) e)
           | Inr k \<Rightarrow>
               (case (if cr_APISecret cred \<noteq> [] then Encrypt ci (snd ns) (cr_APISecret cred) key else Inr []) of
                  Inl e \<Rightarrow> Inl (ErrEncrypting ''api_secret'' (ac_ID acc) e)
                | Inr sec \<Rightarrow>
                    Inr (acc\<lparr>ac_Credentials := cred\<lparr>cr_APIKey := k, cr_APISecret := sec, cr_Encrypted := True\<rparr>\<rparr>)))"

fun encrypt_loop ::
    "cipher \<Rightarrow> (nat \<Rightarrow> string option \<times> string option) \<Rightarrow> string \<Rightarrow> nat \<Rightarrow> account_config list \<Rightarrow>
      cfg_error + account_config list" where
  "encrypt_loop ci nonces key i [] = Inr []"
| "encrypt_loop ci nonces key i (acc # accs) =
     (case encrypt_account ci (nonces i) key acc of
        Inl e \<Rightarrow> Inl e
      | Inr acc' \<Rightarrow>
          (case encrypt_loop ci nonces key (i + 1) accs of
             Inl e \<Rightarrow> Inl e
           | Inr accs' \<Rightarrow> Inr (acc' # accs')))"

definition Save ::
    "cipher \<Rightarrow> (nat \<Rightarrow> string option \<times> string option) \<Rightarrow> config \<Rightarrow> string \<Rightarrow> cfg_error + config" where
  "Save ci nonces c key =
     (if cf_KeySalt c = [] \<and>
         (\<exists>acc\<in>set (cf_Accounts c). cr_APIKey (ac_Credentials acc) \<noteq> [] \<or> cr_APISecret (ac_Credentials acc) \<noteq> [])
      then Inl ErrMissingKeySalt
      else case encrypt_loop ci nonces key 0 (cf_Accounts c) of
             Inl e \<Rightarrow> Inl e
           | Inr accs \<Rightarrow> Inr (c\<lparr>cf_Accounts := accs\<rparr>))"

text \<open>\<open>Load\<close> of a file that exists and parses to \<open>stored\<close>; the path is not stored.\<close>

definition Load :: "config \<Rightarrow> string \<Rightarrow> config" where
  "Load stored path = stored\<lparr>cf_configPath := path\<rparr>"

definition LoadAndDecrypt :: "cipher \<Rightarrow> config \<Rightarrow> string \<Rightarrow> string \<Rightarrow> cfg_error + config" where
  "LoadAndDecrypt ci stored path key =
     (case DecryptCredentials ci (Load stored path) key of
        (_, Some e) \<Rightarrow> Inl e
      | (cfg, None) \<Rightarrow> Inr cfg)"

definition GetAccount :: "config \<Rightarrow> string \<Rightarrow> cfg_error + account_config" where
  "GetAccount c aid =
     (case find (\<lambda>acc. ac_ID acc = aid) (cf_Accounts c) of
        Some acc \<Rightarrow> Inr acc
      | None \<Rightarrow> Inl (ErrAccountNotFound aid))"

definition AddAccount :: "config \<Rightarrow> account_config \<Rightarrow> config \<times> cfg_error option" where
  "AddAccount c acc =
     (if \<exists>existing\<in>set (cf_Accounts c). ac_ID existing = ac_ID acc
      then (c, Some (ErrDuplicateAccount (ac_ID acc)))
      else (c\<lparr>cf_Accounts := cf_Accounts c @ [acc]\<rparr>, None))"

definition RemoveAccount :: "config \<Rightarrow> string \<Rightarrow> config \<times> cfg_error option" where
  "RemoveAccount c aid =
     (case remove_first (\<lambda>acc. ac_ID acc = aid) (cf_Accounts c) of
        Some accs \<Rightarrow> (c\<lparr>cf_Accounts := accs\<rparr>, None)
      | None \<Rightarrow> (c, Some (ErrAccountNotFound aid)))"

definition EnabledAccounts :: "config \<Rightarrow> account_config list" where
  "EnabledAccounts c = filter ac_Enabled (cf_Accounts c)"

section \<open>Validation\<close>

datatype val_error =
    PortRange int | IdRequired nat | DuplicateID nat string | InvalidBroker nat string broker_type
  | KeyRequired nat string | SecretRequired nat string | AccountNoRequired nat string

definition isValidBroker :: "broker_type \<Rightarrow> bool" where
  "isValidBroker b \<longleftrightarrow> b \<in> {BrokerKIS, BrokerEBest, BrokerBinance, BrokerUpbit, BrokerBithumb}"

definition validateServer :: "server_config \<Rightarrow> val_error list" where
  "validateServer s = (if sv_Port s < 0 \<or> sv_Port s > 65535 then [PortRange (sv_Port s)] else [])"

definition validateCredentials :: "nat \<Rightarrow> account_config \<Rightarrow> val_error list" where
  "validateCredentials i acc =
     (let cred = ac_Credentials acc
      in (if cr_APIKey cred = [] then [KeyRequired i (ac_ID acc)] else []) @
         (if cr_APISecret cred = [] then [SecretRequired i (ac_ID acc)] else []) @
         (if AssetTypeOf (ac_Broker acc) = AssetStock \<and> cr_AccountNo cred = []
          then [AccountNoRequired i (ac_ID acc)] else []))"

fun validateAccounts :: "nat \<Rightarrow> string set \<Rightarrow> account_config list \<Rightarrow> val_error list" where
  "validateAccounts i seen [] = []"
| "validateAccounts i seen (acc # accs) =
     (if ac_ID acc = [] then IdRequired i # validateAccounts (i + 1) seen accs
      else
        (if ac_ID acc \<in> seen then [DuplicateID i (ac_ID acc)] else []) @
        (if \<not> isValidBroker (ac_Broker acc) then [InvalidBroker i (ac_ID acc) (ac_Broker acc)] else []) @
        (if \<not> ac_Enabled acc then [] else validateCredentials i acc) @
        validateAccounts (i + 1) (insert (ac_ID acc) seen) accs)"

definition Validate :: "config \<Rightarrow> val_error list option" where
  "Validate cfg =
     (let errors = validateServer (cf_Server cfg) @ validateAccounts 0 {} (cf_Accounts cfg)
      in if errors \<noteq> [] then Some errors else None)"

section \<open>Validation accepts exactly the usable configurations\<close>

definition credentials_complete :: "account_config \<Rightarrow> bool" where
  "credentials_complete acc \<longleftrightarrow> cr_APIKey (ac_Credentials acc) \<noteq> [] \<and> cr_APISecret (ac_Credentials acc) \<noteq> [] \<and>
     (ac_Broker acc \<in> {BrokerKIS, BrokerEBest} \<longrightarrow> cr_AccountNo (ac_Credentials acc) \<noteq> [])"

lemma validateCredentials_Nil: "validateCredentials i acc = [] \<longleftrightarrow> credentials_complete acc"
  by (auto simp: validateCredentials_def credentials_complete_def AssetTypeOf_def Let_def)

lemma validateAccounts_Nil:
  "validateAccounts i seen accs = [] \<longleftrightarrow>
    (\<forall>acc\<in>set accs. ac_ID acc \<noteq> [] \<and> ac_ID acc \<notin> seen \<and> isValidBroker (ac_Broker acc) \<and>
      (ac_Enabled acc \<longrightarrow> credentials_complete acc)) \<and> distinct (map ac_ID accs)"
proof (induction accs arbitrary: i seen)
  case Nil
  then show ?case by simp
next
  case (Cons acc accs)
  show ?case by (auto simp: Cons.IH validateCredentials_Nil image_iff)
qed

text \<open>Validation: \<open>Validate\<close> returns no error exactly when the port is in range, the
  account IDs are present and distinct, every broker is a known one, and every enabled
  account has a key and a secret, and an account number if its broker trades stocks.\<close>

theorem config_validate_iff:
  "Validate cfg = None \<longleftrightarrow>
    0 \<le> sv_Port (cf_Server cfg) \<and> sv_Port (cf_Server cfg) \<le> 65535 \<and>
    distinct (map ac_ID (cf_Accounts cfg)) \<and> list_all (\<lambda>acc. ac_ID acc \<noteq> []) (cf_Accounts cfg) \<and>
    list_all (\<lambda>acc. isValidBroker (ac_Broker acc)) (cf_Accounts cfg) \<and>
    list_all credentials_complete (EnabledAccounts cfg)"
  by (auto simp: Validate_def validateServer_def validateAccounts_Nil EnabledAccounts_def list_all_iff Let_def)

section \<open>The accounts as a map\<close>

definition accounts_of :: "config \<Rightarrow> (string \<rightharpoonup> account_config)" where
  "accounts_of c = (\<lambda>aid. find (\<lambda>acc. ac_ID acc = aid) (cf_Accounts c))"

definition config_ok :: "config \<Rightarrow> bool" where
  "config_ok c \<longleftrightarrow> distinct (map ac_ID (cf_Accounts c))"

lemma find_ID_append:
  "find P (xs @ ys) = (case find P xs of Some x \<Rightarrow> Some x | None \<Rightarrow> find P ys)"
  by (induction xs) auto

lemma find_ID_None: "find (\<lambda>acc. ac_ID acc = aid) accs = None \<longleftrightarrow> aid \<notin> ac_ID ` set accs"
  by (auto simp: find_None_iff)

lemma remove_ID:
  assumes "distinct (map ac_ID accs)" and "remove_first (\<lambda>acc. ac_ID acc = aid) accs = Some accs'"
  shows "distinct (map ac_ID accs') \<and>
    find (\<lambda>acc. ac_ID acc = x) accs' = (if x = aid then None else find (\<lambda>acc. ac_ID acc = x) accs)"
proof -
  from remove_first_Some [OF assms(2)] obtain as a bs
    where s: "accs = as @ a # bs" "ac_ID a = aid" "accs' = as @ bs" by blast
  with assms(1) have "aid \<notin> ac_ID ` set (as @ bs)" by auto
  then have "find (\<lambda>acc. ac_ID acc = aid) (as @ bs) = None" by (simp add: find_ID_None)
  with s assms(1) show ?thesis by (auto simp: find_ID_append split: option.splits)
qed

text \<open>The account list refines a map from IDs to accounts: with distinct IDs, adding
  an account succeeds exactly when its ID is free and then extends the map, removing one
  succeeds exactly when it is there and deletes it, and \<open>GetAccount\<close> is lookup; a failed
  operation changes nothing, and the IDs stay distinct.\<close>

theorem config_accounts_refine:
  assumes "config_ok c"
  shows "config_ok (fst (AddAccount c acc)) \<and> config_ok (fst (RemoveAccount c aid)) \<and>
    accounts_of (fst (AddAccount c acc)) =
      (if accounts_of c (ac_ID acc) = None then (accounts_of c)(ac_ID acc \<mapsto> acc) else accounts_of c) \<and>
    (snd (AddAccount c acc) = None \<longleftrightarrow> accounts_of c (ac_ID acc) = None) \<and>
    accounts_of (fst (RemoveAccount c aid)) = (accounts_of c)(aid := None) \<and>
    (snd (RemoveAccount c aid) = None \<longleftrightarrow> accounts_of c aid \<noteq> None) \<and>
    GetAccount c aid = (case accounts_of c aid of Some acc \<Rightarrow> Inr acc | None \<Rightarrow> Inl (ErrAccountNotFound aid))"
proof -
  have add: "config_ok (fst (AddAccount c acc)) \<and> accounts_of (fst (AddAccount c acc)) =
      (if accounts_of c (ac_ID acc) = None then (accounts_of c)(ac_ID acc \<mapsto> acc) else accounts_of c) \<and>
    (snd (AddAccount c acc) = None \<longleftrightarrow> accounts_of c (ac_ID acc) = None)"
  proof (cases "\<exists>existing\<in>set (cf_Accounts c). ac_ID existing = ac_ID acc")
    case True
    then have "accounts_of c (ac_ID acc) \<noteq> None" by (auto simp: accounts_of_def find_None_iff)
    with True assms show ?thesis by (auto simp: AddAccount_def)
  next
    case False
    then have free: "ac_ID acc \<notin> ac_ID ` set (cf_Accounts c)" by force
    then have "accounts_of c (ac_ID acc) = None" by (simp add: accounts_of_def find_ID_None)
    moreover have "accounts_of (c\<lparr>cf_Accounts := cf_Accounts c @ [acc]\<rparr>) = (accounts_of c)(ac_ID acc \<mapsto> acc)"
    proof
      fix x
      show "accounts_of (c\<lparr>cf_Accounts := cf_Accounts c @ [acc]\<rparr>) x = ((accounts_of c)(ac_ID acc \<mapsto> acc)) x"
        using \<open>accounts_of c (ac_ID acc) = None\<close>
        by (auto simp: accounts_of_def find_ID_append split: option.splits)
    qed
    ultimately show ?thesis using False free assms by (simp add: AddAccount_def config_ok_def)
  qed
  have rem: "config_ok (fst (RemoveAccount c aid)) \<and>
      accounts_of (fst (RemoveAccount c aid)) = (accounts_of c)(aid := None) \<and>
    (snd (RemoveAccount c aid) = None \<longleftrightarrow> accounts_of c aid \<noteq> None)"
  proof (cases "remove_first (\<lambda>acc. ac_ID acc = aid) (cf_Accounts c)")
    case None
    then have "accounts_of c aid = None" by (auto simp: accounts_of_def find_None_iff)
    moreover from None have "RemoveAccount c aid = (c, Some (ErrAccountNotFound aid))"
      by (simp only: RemoveAccount_def option.case)
    ultimately show ?thesis using assms by (simp add: fun_upd_idem)
  next
    case (Some accs)
    then have "accounts_of c aid \<noteq> None"
      using remove_first_None [of "\<lambda>acc. ac_ID acc = aid" "cf_Accounts c"]
      by (auto simp: accounts_of_def find_None_iff)
    with Some assms remove_ID [OF _ Some] show ?thesis
      by (auto simp: RemoveAccount_def accounts_of_def config_ok_def fun_eq_iff)
  qed
  from add rem show ?thesis by (simp add: GetAccount_def accounts_of_def)
qed

definition sample_cred :: credential where
  "sample_cred = \<lparr>cr_APIKey = ''key'', cr_APISecret = ''secret'', cr_AccountNo = ''123'', cr_Encrypted = False\<rparr>"

definition sample_acc :: account_config where
  "sample_acc = \<lparr>ac_ID = ''a'', ac_Broker = BrokerKIS, ac_Enabled = True, ac_Credentials = sample_cred,
     ac_BaseURL = [], ac_IsPaper = True\<rparr>"

theorem config_accounts_refine_witness:
  "accounts_of (fst (AddAccount Default sample_acc)) ''a'' = Some sample_acc"
  using config_accounts_refine [of Default sample_acc "''a''"]
  by (simp add: config_ok_def Default_def accounts_of_def sample_acc_def)

section \<open>Saving and loading\<close>

lemma Decrypt_Encrypt:
  assumes "\<And>n p. length n = 12 \<Longrightarrow> ci_open ci key n (ci_seal ci key n p) = Some p"
    and "Encrypt ci nonce p key = Inr s" and "\<And>n. nonce = Some n \<Longrightarrow> length n = 12"
  shows "Decrypt ci s key = Inr p"
  using assms by (auto simp: Encrypt_def Decrypt_def split: if_splits option.splits)

text \<open>A plain credential as \<open>Save\<close> expects it: both parts present or both absent.\<close>

definition cred_plain :: "account_config \<Rightarrow> bool" where
  "cred_plain acc \<longleftrightarrow> \<not> cr_Encrypted (ac_Credentials acc) \<and>
     (cr_APIKey (ac_Credentials acc) = [] \<longleftrightarrow> cr_APISecret (ac_Credentials acc) = [])"

lemma decrypt_encrypt_account:
  assumes "\<And>n p. length n = 12 \<Longrightarrow> ci_open ci key n (ci_seal ci key n p) = Some p"
    and "\<And>n. fst ns = Some n \<or> snd ns = Some n \<Longrightarrow> length n = 12"
    and "cred_plain acc" and "encrypt_account ci ns key acc = Inr acc'"
  shows "decrypt_account ci key acc' = (acc, None)"
proof (cases "cr_APIKey (ac_Credentials acc) = []")
  case True
  with assms(3,4) show ?thesis by (auto simp: cred_plain_def encrypt_account_def decrypt_account_def Let_def)
next
  case False
  with assms(3,4) obtain k sec where k: "Encrypt ci (fst ns) (cr_APIKey (ac_Credentials acc)) key = Inr k"
    and sec: "Encrypt ci (snd ns) (cr_APISecret (ac_Credentials acc)) key = Inr sec"
    and acc': "acc' = acc\<lparr>ac_Credentials := (ac_Credentials acc)
        \<lparr>cr_APIKey := k, cr_APISecret := sec, cr_Encrypted := True\<rparr>\<rparr>"
    by (auto simp: cred_plain_def encrypt_account_def Let_def split: sum.splits)
  have "Decrypt ci k key = Inr (cr_APIKey (ac_Credentials acc))"
    by (rule Decrypt_Encrypt [OF assms(1) k]) (use assms(2) in auto)
  moreover have "Decrypt ci sec key = Inr (cr_APISecret (ac_Credentials acc))"
    by (rule Decrypt_Encrypt [OF assms(1) sec]) (use assms(2) in auto)
  ultimately show ?thesis using assms(3) by (simp add: acc' decrypt_account_def cred_plain_def Let_def)
qed

lemma decrypt_encrypt_loop:
  assumes "\<And>n p. length n = 12 \<Longrightarrow> ci_open ci key n (ci_seal ci key n p) = Some p"
    and "\<And>i n. fst (nonces i) = Some n \<or> snd (nonces i) = Some n \<Longrightarrow> length n = 12"
    and "list_all cred_plain accs" and "encrypt_loop ci nonces key i accs = Inr accs'"
  shows "decrypt_loop ci key accs' = (accs, None)"
  using assms(3,4)
proof (induction accs arbitrary: i accs')
  case Nil
  then show ?case by simp
next
  case (Cons acc accs)
  then obtain acc' accs1 where e: "encrypt_account ci (nonces i) key acc = Inr acc'"
    and l: "encrypt_loop ci nonces key (i + 1) accs = Inr accs1" and accs': "accs' = acc' # accs1"
    by (auto split: sum.splits)
  have "decrypt_account ci key acc' = (acc, None)"
    by (rule decrypt_encrypt_account [OF assms(1,2) _ e]) (use Cons.prems in auto)
  with Cons.IH [OF _ l] Cons.prems(1) accs' show ?case by simp
qed

text \<open>C40. Saving and loading is a round trip: when \<open>Save\<close> succeeds on a configuration whose
  credentials are plain and have both a key and a secret or neither, loading the stored
  value with the same key gives the configuration back, credentials included, with the
  path of the file; the cipher only has to open what it sealed.\<close>

theorem config_save_load_roundtrip:
  assumes "\<And>n p. length n = 12 \<Longrightarrow> ci_open ci key n (ci_seal ci key n p) = Some p"
    and "\<And>i n. fst (nonces i) = Some n \<or> snd (nonces i) = Some n \<Longrightarrow> length n = 12"
    and "list_all cred_plain (cf_Accounts c)" and "Save ci nonces c key = Inr stored"
  shows "LoadAndDecrypt ci stored path key = Inr (c\<lparr>cf_configPath := path\<rparr>)"
proof -
  from assms(4) obtain accs where e: "encrypt_loop ci nonces key 0 (cf_Accounts c) = Inr accs"
    and s: "stored = c\<lparr>cf_Accounts := accs\<rparr>" by (auto simp: Save_def split: if_splits sum.splits)
  have "decrypt_loop ci key accs = (cf_Accounts c, None)"
    by (rule decrypt_encrypt_loop [OF assms(1,2,3) e])
  then show ?thesis by (simp add: s LoadAndDecrypt_def Load_def DecryptCredentials_def)
qed

text \<open>A concrete cipher for the witnesses: it appends the key as a tag.\<close>

definition tag_cipher :: cipher where
  "tag_cipher = \<lparr>ci_seal = (\<lambda>key n p. key @ p),
     ci_open = (\<lambda>key n s. if take (length key) s = key then Some (drop (length key) s) else None)\<rparr>"

theorem config_save_load_roundtrip_witness:
  "\<exists>stored. Save tag_cipher (\<lambda>_. (Some (replicate 12 CHR ''n''), Some (replicate 12 CHR ''m'')))
      (Default\<lparr>cf_KeySalt := ''c2FsdA=='', cf_Accounts := [sample_acc]\<rparr>) (replicate 32 CHR ''k'') = Inr stored \<and>
    LoadAndDecrypt tag_cipher stored ''p'' (replicate 32 CHR ''k'') =
      Inr (Default\<lparr>cf_KeySalt := ''c2FsdA=='', cf_Accounts := [sample_acc], cf_configPath := ''p''\<rparr>)"
proof -
  let ?n = "\<lambda>_ :: nat. (Some (replicate 12 CHR ''n''), Some (replicate 12 CHR ''m''))"
  let ?c = "Default\<lparr>cf_KeySalt := ''c2FsdA=='', cf_Accounts := [sample_acc]\<rparr>"
  obtain stored where s: "Save tag_cipher ?n ?c (replicate 32 CHR ''k'') = Inr stored"
    by (simp add: Save_def encrypt_account_def sample_acc_def sample_cred_def Encrypt_def Let_def)
  have "LoadAndDecrypt tag_cipher stored ''p'' (replicate 32 CHR ''k'') = Inr (?c\<lparr>cf_configPath := ''p''\<rparr>)"
    by (rule config_save_load_roundtrip [OF _ _ _ s])
       (auto simp: tag_cipher_def cred_plain_def sample_acc_def sample_cred_def)
  with s show ?thesis by simp
qed

text \<open>A key without a secret is saved but cannot be loaded: \<open>Save\<close> leaves an empty part of
  a credential empty and marks the credential encrypted, and decrypting the empty string
  fails, whatever the cipher.\<close>

theorem config_half_credential_unloadable:
  assumes "cf_Accounts c = [acc]" and "\<not> cr_Encrypted (ac_Credentials acc)"
    and "cr_APIKey (ac_Credentials acc) \<noteq> []" and "cr_APISecret (ac_Credentials acc) = []"
    and "Save ci nonces c key = Inr stored"
  shows "\<exists>e. LoadAndDecrypt ci stored path key = Inl e"
proof -
  from assms obtain k where "stored = c\<lparr>cf_Accounts := [acc\<lparr>ac_Credentials := (ac_Credentials acc)
      \<lparr>cr_APIKey := k, cr_APISecret := [], cr_Encrypted := True\<rparr>\<rparr>]\<rparr>"
    by (auto simp: Save_def encrypt_account_def Let_def split: if_splits sum.splits)
  moreover have "\<exists>e. Decrypt ci [] key = Inl e" by (auto simp: Decrypt_def)
  ultimately show ?thesis
    by (auto simp: LoadAndDecrypt_def Load_def DecryptCredentials_def decrypt_account_def Let_def
        split: sum.splits)
qed

theorem config_half_credential_unloadable_witness:
  "\<exists>stored e. Save tag_cipher (\<lambda>_. (Some (replicate 12 CHR ''n''), None))
      (Default\<lparr>cf_KeySalt := ''c2FsdA=='',
        cf_Accounts := [sample_acc\<lparr>ac_Credentials := sample_cred\<lparr>cr_APISecret := []\<rparr>\<rparr>]\<rparr>)
      (replicate 32 CHR ''k'') = Inr stored \<and>
    LoadAndDecrypt tag_cipher stored ''p'' (replicate 32 CHR ''k'') = Inl e"
proof -
  let ?acc = "sample_acc\<lparr>ac_Credentials := sample_cred\<lparr>cr_APISecret := []\<rparr>\<rparr>"
  let ?c = "Default\<lparr>cf_KeySalt := ''c2FsdA=='', cf_Accounts := [?acc]\<rparr>"
  obtain stored where s: "Save tag_cipher (\<lambda>_. (Some (replicate 12 CHR ''n''), None)) ?c (replicate 32 CHR ''k'') = Inr stored"
    by (simp add: Save_def encrypt_account_def sample_acc_def sample_cred_def Encrypt_def Let_def)
  have "\<exists>e. LoadAndDecrypt tag_cipher stored ''p'' (replicate 32 CHR ''k'') = Inl e"
    by (rule config_half_credential_unloadable [OF _ _ _ _ s, of ?acc]) (simp_all add: sample_cred_def)
  with s show ?thesis by blast
qed

text \<open>A wrong password destroys a credential in memory: when decrypting the key of the
  first account fails, the encrypted key has been replaced by the empty string, so that a
  second attempt fails as well, with every key.\<close>

theorem config_wrong_key_destroys:
  assumes "cf_Accounts c = acc # accs" and "cr_Encrypted (ac_Credentials acc)"
    and "Decrypt ci (cr_APIKey (ac_Credentials acc)) bad = Inl e"
  shows "\<exists>c1 e1. DecryptCredentials ci c bad = (c1, Some e1) \<and>
    cr_APIKey (ac_Credentials (hd (cf_Accounts c1))) = [] \<and>
    snd (DecryptCredentials ci c1 good) \<noteq> None"
proof -
  have "\<exists>e. Decrypt ci [] good = Inl e" by (auto simp: Decrypt_def)
  with assms show ?thesis
    by (auto simp: DecryptCredentials_def decrypt_account_def Let_def split: sum.splits)
qed

theorem config_wrong_key_destroys_witness:
  "\<exists>c1 e1. DecryptCredentials tag_cipher
      (Default\<lparr>cf_Accounts := [sample_acc\<lparr>ac_Credentials := sample_cred\<lparr>cr_Encrypted := True\<rparr>\<rparr>]\<rparr>)
      ''bad'' = (c1, Some e1) \<and>
    cr_APIKey (ac_Credentials (hd (cf_Accounts c1))) = [] \<and>
    snd (DecryptCredentials tag_cipher c1 (replicate 32 CHR ''k'')) \<noteq> None"
  by (rule config_wrong_key_destroys
      [where acc = "sample_acc\<lparr>ac_Credentials := sample_cred\<lparr>cr_Encrypted := True\<rparr>\<rparr>" and accs = "[]"])
     (simp_all add: Decrypt_def)

end
