(* ===== verification/KIS_Parser.thy ===== *)
theory KIS_Parser
  imports Trading_Types Go_Float Base64
begin

text \<open>
  \<open>internal/adapter/broker/kis/ws_parser.go\<close> and \<open>ws_types.go\<close> with the number parsers of
  \<open>rest.go\<close>: the wire format of the KIS feed, the decryption of execution notices and the
  conversion of decimal text to the fixed-point integers of the program.

  An error is a value of \<open>kis_error\<close>: \<open>FieldError\<close> names the struct field whose text did
  not parse. AES is not part of the repository: \<open>cbc key iv\<close> is the block-mode decryption,
  an argument. The zone of \<open>time.Local\<close> is the argument \<open>local\<close>, which gives the instant of a
  time of day in it.
\<close>

section \<open>Numbers\<close>

abbreviation kis_RateScale :: int where "kis_RateScale \<equiv> 10000"

definition parseKRWInt :: "(rat \<Rightarrow> int) \<Rightarrow> string \<Rightarrow> num_error + int" where
  "parseKRWInt impl s0 =
     (let s = trim_space s0
      in if s = [] then Inr 0
         else if CHR ''.'' \<in> set s then
           (case parse_float s of
              Inl e \<Rightarrow> Inl e
            | Inr f \<Rightarrow> Inr (float_to_int64 impl (of_int (go_round f))))
         else parse_int s)"

definition parseRate :: "(rat \<Rightarrow> int) \<Rightarrow> string \<Rightarrow> num_error + int" where
  "parseRate impl s0 =
     (let s = trim_space s0
      in if s = [] then Inr 0
         else case parse_float s of
                Inl e \<Rightarrow> Inl e
              | Inr f \<Rightarrow> Inr (float_to_int64 impl (of_int (go_round (fl_mult f (of_int kis_RateScale))))))"

definition parseInt64 :: "string \<Rightarrow> num_error + int" where
  "parseInt64 s0 = (let s = trim_space s0 in if s = [] then Inr 0 else parse_int s)"

section \<open>Messages\<close>

abbreviation trIDStockTrade :: string where "trIDStockTrade \<equiv> ''H0STCNT0''"
abbreviation trIDStockQuote :: string where "trIDStockQuote \<equiv> ''H0STASP0''"
abbreviation trIDStockExec :: string where "trIDStockExec \<equiv> ''H0STCNI0''"
abbreviation pipeSeparator :: char where "pipeSeparator \<equiv> CHR ''|''"
abbreviation fieldSeparator :: char where "fieldSeparator \<equiv> CHR ''^''"
abbreviation encryptedFlag :: string where "encryptedFlag \<equiv> ''1''"

record pipe_msg =
  pm_Encrypted :: bool
  pm_TrID :: string
  pm_Count :: int
  pm_Body :: string

record stock_trade_msg =
  st_Code :: string
  st_ExecTime :: string
  st_Price :: int
  st_Change :: int
  st_ChangeRate :: int
  st_Open :: int
  st_High :: int
  st_Low :: int
  st_AskPrice :: int
  st_BidPrice :: int
  st_Volume :: int
  st_AccVolume :: int

record depth_entry =
  de_Price :: int
  de_Size :: int

record stock_quote_msg =
  sq_Code :: string
  sq_ExecTime :: string
  sq_Asks :: "depth_entry list"
  sq_Bids :: "depth_entry list"
  sq_TotalAsk :: int
  sq_TotalBid :: int

record stock_exec_notify =
  sx_AccountNo :: string
  sx_OrderNo :: string
  sx_Code :: string
  sx_Side :: side
  sx_Price :: int
  sx_Quantity :: int
  sx_TotalQty :: int
  sx_RemainQty :: int
  sx_Status :: string
  sx_ExecTime :: go_time

datatype kis_error =
    FieldsMissing nat
  | FieldError string num_error
  | TimeError
  | UnknownSide string
  | Base64Error
  | AESKeyError nat
  | CipherTooShort nat
  | CipherNotAligned nat
  | EmptyData
  | BadPadLength nat
  | BadPadByte

definition field :: "string \<Rightarrow> num_error + 'a \<Rightarrow> kis_error + 'a" where
  "field name r = map_sum (FieldError name) (\<lambda>x. x) r"

lemma field_simps [simp]:
  "field name (Inr x) = Inr x" "field name (Inl e) = Inl (FieldError name e)"
  by (simp_all add: field_def)

lemma field_Inr [simp]: "field name r = Inr x \<longleftrightarrow> r = Inr x"
  by (cases r) simp_all

section \<open>The parsers\<close>

definition parseRawMessage :: "string \<Rightarrow> kis_error + pipe_msg" where
  "parseRawMessage data =
     (let parts = split_n pipeSeparator 4 data
      in if length parts < 4 then Inl (FieldsMissing (length parts))
         else bindE (field ''Count'' (parse_int (parts ! 2))) (\<lambda>count.
           Inr \<lparr>pm_Encrypted = (parts ! 0 = encryptedFlag), pm_TrID = parts ! 1,
                pm_Count = count, pm_Body = parts ! 3\<rparr>))"

definition pkcs7Unpad :: "string \<Rightarrow> kis_error + string" where
  "pkcs7Unpad data =
     (if length data = 0 then Inl EmptyData
      else let padLen = (of_char (data ! (length data - 1)) :: nat)
           in if padLen = 0 \<or> padLen > 16 \<or> padLen > length data then Inl (BadPadLength padLen)
              else if list_all (\<lambda>i. (of_char (data ! i) :: nat) = padLen)
                        [length data - padLen ..< length data]
              then Inr (take (length data - padLen) data)
              else Inl BadPadByte)"

text \<open>\<open>aes.NewCipher\<close> wants a key of 16, 24 or 32 bytes, and \<open>cipher.NewCBCDecrypter\<close> panics
  on an initialisation vector that is not one block long: the outcome \<open>None\<close>.\<close>

definition decryptAES256CBC ::
    "(string \<Rightarrow> string \<Rightarrow> string \<Rightarrow> string) \<Rightarrow> string \<Rightarrow> string \<Rightarrow> string \<Rightarrow> (kis_error + string) option" where
  "decryptAES256CBC cbc encrypted key iv =
     (case b64_decode encrypted of
        None \<Rightarrow> Some (Inl Base64Error)
      | Some ciphertext \<Rightarrow>
          if length key \<notin> {16, 24, 32} then Some (Inl (AESKeyError (length key)))
          else if length ciphertext < 16 then Some (Inl (CipherTooShort (length ciphertext)))
          else if length ciphertext mod 16 \<noteq> 0 then Some (Inl (CipherNotAligned (length ciphertext)))
          else if length iv \<noteq> 16 then None
          else Some (pkcs7Unpad (cbc key iv ciphertext)))"

definition is_fall :: "string \<Rightarrow> bool" where
  "is_fall s \<longleftrightarrow> s = ''4'' \<or> s = ''5''"

definition parseStockTrade :: "(rat \<Rightarrow> int) \<Rightarrow> string \<Rightarrow> kis_error + stock_trade_msg list" where
  "parseStockTrade impl rawData =
     (let fields = split_on fieldSeparator rawData
      in if length fields < 14 then Inl (FieldsMissing (length fields))
         else
           bindE (field ''Price'' (parseKRWInt impl (fields ! 2))) (\<lambda>price.
           bindE (field ''Change'' (parseKRWInt impl (fields ! 4))) (\<lambda>change0.
           bindE (field ''ChangeRate'' (parseRate impl (fields ! 5))) (\<lambda>rate0.
           let change = (if is_fall (fields ! 3) then wrap64 (- change0) else change0);
               rate = (if is_fall (fields ! 3) then wrap64 (- rate0) else rate0)
           in
           bindE (field ''Open'' (parseKRWInt impl (fields ! 7))) (\<lambda>open.
           bindE (field ''High'' (parseKRWInt impl (fields ! 8))) (\<lambda>high.
           bindE (field ''Low'' (parseKRWInt impl (fields ! 9))) (\<lambda>low.
           bindE (field ''AskPrice'' (parseKRWInt impl (fields ! 10))) (\<lambda>ask.
           bindE (field ''BidPrice'' (parseKRWInt impl (fields ! 11))) (\<lambda>bid.
           bindE (field ''Volume'' (parseInt64 (fields ! 12))) (\<lambda>vol.
           bindE (field ''AccVolume'' (parseInt64 (fields ! 13))) (\<lambda>acc.
           Inr [\<lparr>st_Code = fields ! 0, st_ExecTime = fields ! 1, st_Price = price, st_Change = change,
                 st_ChangeRate = rate, st_Open = open, st_High = high, st_Low = low, st_AskPrice = ask,
                 st_BidPrice = bid, st_Volume = vol, st_AccVolume = acc\<rparr>])))))))))))"

text \<open>The four loops of the quote parser: the entries of one column from an offset.\<close>

fun parse_column ::
    "string \<Rightarrow> (string \<Rightarrow> num_error + int) \<Rightarrow> string list \<Rightarrow> nat list \<Rightarrow> kis_error + int list" where
  "parse_column name p fs [] = Inr []"
| "parse_column name p fs (i # rest) =
     bindE (field name (p (fs ! i))) (\<lambda>v.
     bindE (parse_column name p fs rest) (\<lambda>vs. Inr (v # vs)))"

definition parseStockQuote :: "(rat \<Rightarrow> int) \<Rightarrow> string \<Rightarrow> kis_error + stock_quote_msg" where
  "parseStockQuote impl rawData =
     (let fields = split_on fieldSeparator rawData
      in if length fields < 45 then Inl (FieldsMissing (length fields))
         else
           bindE (parse_column ''AskPrice'' (parseKRWInt impl) fields [3 ..< 13]) (\<lambda>askP.
           bindE (parse_column ''BidPrice'' (parseKRWInt impl) fields [13 ..< 23]) (\<lambda>bidP.
           bindE (parse_column ''AskSize'' parseInt64 fields [23 ..< 33]) (\<lambda>askS.
           bindE (parse_column ''BidSize'' parseInt64 fields [33 ..< 43]) (\<lambda>bidS.
           bindE (field ''TotalAsk'' (parseInt64 (fields ! 43))) (\<lambda>totalAsk.
           bindE (field ''TotalBid'' (parseInt64 (fields ! 44))) (\<lambda>totalBid.
           Inr \<lparr>sq_Code = fields ! 0, sq_ExecTime = fields ! 1,
                sq_Asks = map2 (\<lambda>p s. \<lparr>de_Price = p, de_Size = s\<rparr>) askP askS,
                sq_Bids = map2 (\<lambda>p s. \<lparr>de_Price = p, de_Size = s\<rparr>) bidP bidS,
                sq_TotalAsk = totalAsk, sq_TotalBid = totalBid\<rparr>)))))))"

text \<open>\<open>time.ParseInLocation\<close> with the layout \<open>150405\<close>: two digits each for hour, minute and
  second, in range. The function also accepts a fraction of a second after them.\<close>

definition two_digits :: "char \<Rightarrow> char \<Rightarrow> nat option" where
  "two_digits a b = (case (digit_val a, digit_val b) of
      (Some x, Some y) \<Rightarrow> Some (10 * x + y) | _ \<Rightarrow> None)"

definition fraction_ns :: "string \<Rightarrow> int option" where
  "fraction_ns s = (case s of
      [] \<Rightarrow> Some 0
    | c # ds \<Rightarrow>
        if (c = CHR ''.'' \<or> c = CHR '','') \<and> ds \<noteq> [] \<and> list_all (\<lambda>d. digit_val d \<noteq> None) ds
        then map_option (\<lambda>n. int (n * 10 ^ (9 - length (take 9 ds)))) (digits_val 0 (take 9 ds))
        else None)"

definition parseTime :: "(nat \<Rightarrow> nat \<Rightarrow> nat \<Rightarrow> int \<Rightarrow> go_time) \<Rightarrow> string \<Rightarrow> kis_error + go_time" where
  "parseTime local raw = (case raw of
      h1 # h2 # m1 # m2 # s1 # s2 # rest \<Rightarrow>
        (case (two_digits h1 h2, two_digits m1 m2, two_digits s1 s2, fraction_ns rest) of
           (Some h, Some m, Some s, Some ns) \<Rightarrow>
             if h < 24 \<and> m < 60 \<and> s < 60 then Inr (local h m s ns) else Inl TimeError
         | _ \<Rightarrow> Inl TimeError)
    | _ \<Rightarrow> Inl TimeError)"

definition kis_parseSide :: "string \<Rightarrow> kis_error + side" where
  "kis_parseSide raw =
     (if raw = ''01'' then Inr Sell else if raw = ''02'' then Inr Buy else Inl (UnknownSide raw))"

definition exec_status :: "string \<Rightarrow> string" where
  "exec_status s =
     (if s = ''01'' then ''accepted'' else if s = ''02'' then ''filled''
      else if s = ''03'' then ''partial'' else if s = ''04'' then ''rejected'' else s)"

definition parseStockExecNotify ::
    "(rat \<Rightarrow> int) \<Rightarrow> (nat \<Rightarrow> nat \<Rightarrow> nat \<Rightarrow> int \<Rightarrow> go_time) \<Rightarrow> string \<Rightarrow> kis_error + stock_exec_notify" where
  "parseStockExecNotify impl local rawData =
     (let fields = split_on fieldSeparator rawData
      in if length fields < 12 then Inl (FieldsMissing (length fields))
         else
           bindE (parseTime local (fields ! 11)) (\<lambda>t.
           bindE (kis_parseSide (fields ! 4)) (\<lambda>sd.
           bindE (field ''Price'' (parseKRWInt impl (fields ! 7))) (\<lambda>price.
           bindE (field ''Quantity'' (parseInt64 (fields ! 8))) (\<lambda>qty.
           bindE (field ''TotalQty'' (parseInt64 (fields ! 9))) (\<lambda>total.
           bindE (field ''RemainQty'' (parseInt64 (fields ! 10))) (\<lambda>remain.
           Inr \<lparr>sx_AccountNo = fields ! 1, sx_OrderNo = fields ! 2, sx_Code = fields ! 3, sx_Side = sd,
                sx_Price = price, sx_Quantity = qty, sx_TotalQty = total, sx_RemainQty = remain,
                sx_Status = exec_status (fields ! 6), sx_ExecTime = t\<rparr>)))))))"

section \<open>Numbers are read exactly\<close>

lemma go_round_dist: "\<bar>x - of_int (go_round x)\<bar> \<le> 1 / 2"
proof (cases "0 \<le> x")
  case True
  then have "go_round x = \<lfloor>x + 1 / 2\<rfloor>" by (simp add: go_round_def)
  then show ?thesis by linarith
next
  case False
  then have "rat_of_int (go_round x) = - of_int \<lfloor>- x + 1 / 2\<rfloor>" by (simp add: go_round_def)
  then show ?thesis by linarith
qed

text \<open>A number with four decimals keeps its rounding when it is first rounded to a
  \<open>float64\<close>.\<close>

lemma decimal_bounds:
  fixes n :: int
  assumes "\<bar>n\<bar> \<le> 1000000000000000"
  defines "x \<equiv> rat_of_int n / 10000"
  shows "1 / 1000000 \<le> \<bar>x\<bar> \<or> x = 0" and "\<bar>x\<bar> \<le> 100000000000"
    and "\<bar>fl64 x - x\<bar> < 1 / 20000" and "\<bar>fl64 x\<bar> < two_powi 1024"
proof -
  have hi: "\<bar>rat_of_int n\<bar> \<le> 1000000000000000"
    using assms(1) by (metis of_int_abs of_int_le_iff of_int_numeral)
  show b: "1 / 1000000 \<le> \<bar>x\<bar> \<or> x = 0"
  proof (cases "n = 0")
    case False
    then have "1 \<le> \<bar>n\<bar>" by linarith
    then have "1 \<le> \<bar>rat_of_int n\<bar>" by (metis of_int_1_le_iff of_int_abs)
    then show ?thesis by (simp add: x_def)
  qed (simp add: x_def)
  show c: "\<bar>x\<bar> \<le> 100000000000" using hi by (simp add: x_def)
  have "\<bar>fl64 x - x\<bar> \<le> \<bar>x\<bar> / 9007199254740992"
    by (rule fl64_error) (use b small_not_subnormal in blast)
  also have "\<dots> \<le> 100000000000 / 9007199254740992" using c by simp
  also have "\<dots> < 1 / 20000" by simp
  finally show e: "\<bar>fl64 x - x\<bar> < 1 / 20000" .
  have "two_powi 40 \<le> two_powi 1024" by (rule two_powi_mono) simp
  moreover have "two_powi 40 = 1099511627776" by (simp add: two_powi_def)
  ultimately show "\<bar>fl64 x\<bar> < two_powi 1024" using e c by linarith
qed

lemma go_round_decimal:
  fixes n :: int
  assumes "\<bar>n\<bar> \<le> 1000000000000000"
  shows "go_round (fl64 (rat_of_int n / 10000)) = go_round (rat_of_int n / 10000)"
proof -
  define x where "x = rat_of_int n / 10000"
  define k where "k = go_round x"
  define d where "d = n - 10000 * k"
  have d: "x - of_int k = rat_of_int d / 10000" by (simp add: d_def x_def field_simps)
  have xk: "\<bar>x - of_int k\<bar> \<le> 1 / 2" using go_round_dist [of x] by (simp add: k_def)
  then have "\<bar>rat_of_int d\<bar> \<le> 5000" unfolding d by (simp add: abs_divide)
  then have d5: "\<bar>d\<bar> \<le> 5000" by (metis of_int_abs of_int_le_iff of_int_numeral)
  have e: "\<bar>fl64 x - x\<bar> < 1 / 20000" using decimal_bounds(3) [OF assms] by (simp add: x_def)
  show ?thesis
  proof (cases "\<bar>d\<bar> = 5000")
    case True
    then have "n = 10000 * k + 5000 \<or> n = 10000 * k - 5000" by (auto simp: d_def abs_if split: if_splits)
    then have "n = 5000 * (2 * k + 1) \<or> n = 5000 * (2 * k - 1)" by auto
    then obtain j where j: "n = 5000 * j" by blast
    have "\<bar>j\<bar> < 9007199254740992" using assms j by (simp add: abs_mult)
    moreover have "x = rat_of_int j / 2" by (simp add: x_def j)
    ultimately have "fl64 x = x" using fl64_half [of j] by metis
    then show ?thesis unfolding x_def by (simp only:)
  next
    case False
    with d5 have "\<bar>d\<bar> \<le> 4999" by linarith
    then have "\<bar>rat_of_int d\<bar> \<le> 4999" by (metis of_int_abs of_int_le_iff of_int_numeral)
    then have "\<bar>x - of_int k\<bar> \<le> 4999 / 10000" unfolding d by (simp add: abs_divide)
    with e have "\<bar>fl64 x - of_int k\<bar> < 1 / 2" by linarith
    then show ?thesis using go_round_near [of "fl64 x" k] by (simp add: x_def k_def)
  qed
qed

lemma parse_float_decimal:
  assumes "decimal_val s = Some (rat_of_int n / 10000)" and "\<bar>n\<bar> \<le> 1000000000000000"
  shows "parse_float s = Inr (fl64 (rat_of_int n / 10000))"
  using assms decimal_bounds(4) [OF assms(2)] by (simp add: parse_float_def)

lemma parseRate_decimal:
  assumes "decimal_val (trim_space s) = Some (rat_of_int n / 10000)" and "\<bar>n\<bar> \<le> 1000000000000000"
  shows "parseRate impl s = Inr n"
proof -
  have ne: "trim_space s \<noteq> []"
    using assms(1) by (auto simp: decimal_val_def strip_sign_def cut_exp_def mantissa_val_def)
  have "\<bar>fl_mult (fl64 (rat_of_int n / 10000)) 10000 - 10000 * (rat_of_int n / 10000)\<bar> < 1 / 2"
    by (rule scaled_error) (use decimal_bounds [OF assms(2)] in auto)
  then have "go_round (fl_mult (fl64 (rat_of_int n / 10000)) 10000) = n"
    by (intro go_round_near) simp
  moreover have "in64 n" using assms(2) by (simp add: in64_def abs_le_iff)
  ultimately show ?thesis
    using ne parse_float_decimal [OF assms] by (simp add: parseRate_def Let_def)
qed

text \<open>Decimal text becomes fixed point without loss. A rate with at most four decimals,
  up to a hundred billion percent, is read as exactly ten thousand times its value, although
  it passes through a \<open>float64\<close> and a \<open>float64\<close> product; a price written with a decimal point
  and at most four decimals is read as that number rounded half away from zero.\<close>

theorem kis_decimals_exact:
  assumes "decimal_val (trim_space s) = Some (rat_of_int n / 10000)"
    and "\<bar>n\<bar> \<le> 1000000000000000"
  shows "parseRate impl s = Inr n \<and>
    (CHR ''.'' \<in> set (trim_space s) \<longrightarrow> parseKRWInt impl s = Inr (go_round (rat_of_int n / 10000)))"
proof (intro conjI impI)
  show "parseRate impl s = Inr n" by (rule parseRate_decimal) (fact assms)+
  assume dot: "CHR ''.'' \<in> set (trim_space s)"
  let ?r = "go_round (rat_of_int n / 10000)"
  have "\<bar>rat_of_int ?r\<bar> \<le> 100000000001"
    using go_round_dist [of "rat_of_int n / 10000"] decimal_bounds(2) [OF assms(2)] by linarith
  then have "\<bar>?r\<bar> \<le> 100000000001" by (metis of_int_abs of_int_le_iff of_int_numeral)
  then have "in64 ?r" by (simp add: in64_def abs_le_iff)
  then show "parseKRWInt impl s = Inr ?r"
    using dot go_round_decimal [OF assms(2)] parse_float_decimal [OF assms]
    by (auto simp: parseKRWInt_def Let_def)
qed

theorem kis_decimals_exact_witness:
  "parseRate (\<lambda>_. 0) '' -0.57 '' = Inr (- 5700) \<and> parseKRWInt (\<lambda>_. 0) ''71523.50'' = Inr 71524"
proof
  have "trim_space '' -0.57 '' = ''-0.57''" by code_simp
  moreover have "decimal_val ''-0.57'' = Some (- 57 / 100)" by code_simp
  ultimately show "parseRate (\<lambda>_. 0) '' -0.57 '' = Inr (- 5700)"
    using kis_decimals_exact [of "'' -0.57 ''" "- 5700" "\<lambda>_. 0"] by simp
  have "trim_space ''71523.50'' = ''71523.50''" by code_simp
  moreover have "decimal_val ''71523.50'' = Some (715235000 / 10000)"
    by (simp add: decimal_val_def strip_sign_def cut_exp_def mantissa_val_def digit_val_def)
  moreover have "go_round (715235000 / 10000) = 71524" by (simp add: go_round_def)
  ultimately show "parseKRWInt (\<lambda>_. 0) ''71523.50'' = Inr 71524"
    using kis_decimals_exact [of "''71523.50''" "715235000" "\<lambda>_. 0"] by simp
qed

section \<open>Decryption\<close>

definition pkcs7_pad :: "string \<Rightarrow> string" where
  "pkcs7_pad s = (let p = 16 - length s mod 16 in s @ replicate p (char_of p))"

lemma pkcs7Unpad_iff:
  "pkcs7Unpad data = Inr body \<longleftrightarrow>
     (\<exists>p. 0 < p \<and> p \<le> 16 \<and> data = body @ replicate p (char_of p))"
proof
  assume u: "pkcs7Unpad data = Inr body"
  define p where "p = (of_char (data ! (length data - 1)) :: nat)"
  have ne: "data \<noteq> []" and p: "0 < p" "p \<le> 16" "p \<le> length data"
    and all: "\<forall>i\<in>{length data - p ..< length data}. (of_char (data ! i) :: nat) = p"
    and b: "body = take (length data - p) data"
    using u unfolding pkcs7Unpad_def Let_def p_def [symmetric] list_all_iff set_upt
    by (simp_all split: if_splits)
  have "drop (length data - p) data = replicate p (char_of p)"
  proof (rule nth_equalityI)
    show "length (drop (length data - p) data) = length (replicate p (char_of p))" using p by simp
    fix i assume "i < length (drop (length data - p) data)"
    then have i: "i < p" using p by simp
    then have "length data - p + i \<in> {length data - p ..< length data}" using p by auto
    with all have "(of_char (data ! (length data - p + i)) :: nat) = p" by blast
    then have "data ! (length data - p + i) = char_of p" by (metis char_of_char)
    then show "drop (length data - p) data ! i = replicate p (char_of p) ! i" using i p by simp
  qed
  with p b show "\<exists>p. 0 < p \<and> p \<le> 16 \<and> data = body @ replicate p (char_of p)"
    by (metis append_take_drop_id)
next
  assume "\<exists>p. 0 < p \<and> p \<le> 16 \<and> data = body @ replicate p (char_of p)"
  then obtain p where p: "0 < p" "p \<le> 16" and d: "data = body @ replicate p (char_of p)" by blast
  have v: "(of_char (char_of p :: char) :: nat) = p" using p by (simp add: of_char_of)
  have l: "data ! i = char_of p" if "length data - p \<le> i" "i < length data" for i
    using that d by (simp add: nth_append)
  have last: "data ! (length data - 1) = char_of p" using l [of "length data - 1"] p d by simp
  show "pkcs7Unpad data = Inr body"
    using p d l v last by (simp add: pkcs7Unpad_def Let_def list_all_iff)
qed

lemma pkcs7_unpad_pad [simp]: "pkcs7Unpad (pkcs7_pad s) = Inr s"
  unfolding pkcs7Unpad_iff pkcs7_pad_def Let_def
  by (rule exI [of _ "16 - length s mod 16"]) (simp add: less_imp_le)

lemma length_pkcs7_pad: "16 \<le> length (pkcs7_pad s)" "length (pkcs7_pad s) mod 16 = 0"
proof -
  have eq: "length (pkcs7_pad s) = 16 * (length s div 16 + 1)"
    by (simp add: pkcs7_pad_def Let_def) (metis add_diff_inverse_nat diff_add_inverse
      div_mult_mod_eq group_cancel.add2 mod_less_divisor mult.commute not_less_iff_gr_or_eq
      zero_less_numeral add.commute)
  then show "16 \<le> length (pkcs7_pad s)" by simp
  show "length (pkcs7_pad s) mod 16 = 0" unfolding eq by (rule mod_mult_self1_is_0)
qed

end
