(* ===== verification/Exchange_Base.thy ===== *)
theory Exchange_Base
  imports Trading_Types Go_Text
begin

text \<open>
  \<open>internal/core/exchange\<close>: the channels on which the brokers send events to the engine
  (\<open>brokerch.go\<close>), the common part of a broker (\<open>base.go\<close>) and its errors
  (\<open>errors.go\<close>).

  A Go channel is the bounded queue of the prelude; \<open>None\<close> as the result of a send says
  that the send blocks. The pointer \<open>Base.Channels\<close> may be nil: \<open>bc_emit\<close> gives the
  outcome of a send through it.
\<close>

section \<open>The broker channels\<close>

abbreviation defaultBrokerChBuf :: nat where "defaultBrokerChBuf \<equiv> 256"

record broker_channels =
  bc_tick :: "tick_event chan"
  bc_exec :: "exec_event chan"
  bc_quote :: "quote_event chan option"
  bc_status :: "status_event chan"
  bc_err :: "error_event chan"

definition NewBrokerChannels :: broker_channels where
  "NewBrokerChannels = \<lparr>bc_tick = chan_make defaultBrokerChBuf, bc_exec = chan_make defaultBrokerChBuf,
     bc_quote = None, bc_status = chan_make 16, bc_err = chan_make 16\<rparr>"

definition EnableQuote :: "broker_channels \<Rightarrow> broker_channels" where
  "EnableQuote bc = (case bc_quote bc of
      None \<Rightarrow> bc\<lparr>bc_quote := Some (chan_make defaultBrokerChBuf)\<rparr>
    | Some _ \<Rightarrow> bc)"

definition SendTick :: "broker_channels \<Rightarrow> tick_event \<Rightarrow> broker_channels option" where
  "SendTick bc e = map_option (\<lambda>c. bc\<lparr>bc_tick := c\<rparr>) (chan_send (bc_tick bc) e)"

definition SendExec :: "broker_channels \<Rightarrow> exec_event \<Rightarrow> broker_channels option" where
  "SendExec bc e = map_option (\<lambda>c. bc\<lparr>bc_exec := c\<rparr>) (chan_send (bc_exec bc) e)"

definition SendQuote :: "broker_channels \<Rightarrow> quote_event \<Rightarrow> broker_channels option" where
  "SendQuote bc e = (case bc_quote bc of
      None \<Rightarrow> Some bc
    | Some q \<Rightarrow> map_option (\<lambda>c. bc\<lparr>bc_quote := Some c\<rparr>) (chan_send q e))"

definition SendStatus :: "broker_channels \<Rightarrow> status_event \<Rightarrow> broker_channels option" where
  "SendStatus bc e = map_option (\<lambda>c. bc\<lparr>bc_status := c\<rparr>) (chan_send (bc_status bc) e)"

definition SendError :: "broker_channels \<Rightarrow> error_event \<Rightarrow> broker_channels option" where
  "SendError bc e = map_option (\<lambda>c. bc\<lparr>bc_err := c\<rparr>) (chan_send (bc_err bc) e)"

text \<open>The receives of the engine's \<open>select\<close>; a nil channel is never ready.\<close>

definition recv_Ticks :: "broker_channels \<Rightarrow> (tick_event \<times> broker_channels) option" where
  "recv_Ticks bc = map_option (\<lambda>(e, c). (e, bc\<lparr>bc_tick := c\<rparr>)) (chan_recv (bc_tick bc))"

definition recv_Execs :: "broker_channels \<Rightarrow> (exec_event \<times> broker_channels) option" where
  "recv_Execs bc = map_option (\<lambda>(e, c). (e, bc\<lparr>bc_exec := c\<rparr>)) (chan_recv (bc_exec bc))"

definition recv_Quotes :: "broker_channels \<Rightarrow> (quote_event \<times> broker_channels) option" where
  "recv_Quotes bc = (case bc_quote bc of
      None \<Rightarrow> None
    | Some q \<Rightarrow> map_option (\<lambda>(e, c). (e, bc\<lparr>bc_quote := Some c\<rparr>)) (chan_recv q))"

definition recv_Statuses :: "broker_channels \<Rightarrow> (status_event \<times> broker_channels) option" where
  "recv_Statuses bc = map_option (\<lambda>(e, c). (e, bc\<lparr>bc_status := c\<rparr>)) (chan_recv (bc_status bc))"

definition recv_Errors :: "broker_channels \<Rightarrow> (error_event \<times> broker_channels) option" where
  "recv_Errors bc = map_option (\<lambda>(e, c). (e, bc\<lparr>bc_err := c\<rparr>)) (chan_recv (bc_err bc))"

text \<open>A broker's sends as data, and the outcome of one of them through a pointer that may
  be nil: every \<open>Send\<close> method reads a field of its receiver, so a nil pointer panics.\<close>

datatype bc_event = BcTick tick_event | BcExec exec_event | BcQuote quote_event
  | BcStatus status_event | BcError error_event

fun bc_send :: "broker_channels \<Rightarrow> bc_event \<Rightarrow> broker_channels option" where
  "bc_send bc (BcTick e) = SendTick bc e"
| "bc_send bc (BcExec e) = SendExec bc e"
| "bc_send bc (BcQuote e) = SendQuote bc e"
| "bc_send bc (BcStatus e) = SendStatus bc e"
| "bc_send bc (BcError e) = SendError bc e"

datatype 'a send_outcome = Sent 'a | Blocked | NilPanic

fun bc_emit :: "broker_channels option \<Rightarrow> bc_event list \<Rightarrow> broker_channels option send_outcome" where
  "bc_emit ch [] = Sent ch"
| "bc_emit None (e # es) = NilPanic"
| "bc_emit (Some bc) (e # es) =
     (case bc_send bc e of None \<Rightarrow> Blocked | Some bc' \<Rightarrow> bc_emit (Some bc') es)"

section \<open>The common broker\<close>

record exchange_base =
  xb_AccountID :: string
  xb_Broker :: string
  xb_BaseURL :: string
  xb_IsPaper :: bool
  xb_AssetType :: string
  xb_Channels :: "broker_channels option"

definition GetName :: "exchange_base \<Rightarrow> string" where
  "GetName b = xb_Broker b"

definition GetAssetType :: "exchange_base \<Rightarrow> string" where
  "GetAssetType b = xb_AssetType b"

text \<open>The callbacks of the connection, as the event they send. An error is the text that
  its \<open>Error\<close> method gives; the \<open>Err\<close> field of the error event is not modelled.\<close>

definition OnConnect :: "go_time \<Rightarrow> exchange_base \<Rightarrow> bc_event" where
  "OnConnect now b = BcStatus \<lparr>se_AccountID = xb_AccountID b, se_Broker = xb_Broker b,
     se_Status = StatusConnected, se_Message = ''websocket connected'', se_ReceivedAt = now\<rparr>"

definition OnDisconnect :: "go_time \<Rightarrow> exchange_base \<Rightarrow> string option \<Rightarrow> bc_event" where
  "OnDisconnect now b err =
     (let msg = (case err of None \<Rightarrow> ''normal shutdown'' | Some e \<Rightarrow> e)
      in BcStatus \<lparr>se_AccountID = xb_AccountID b, se_Broker = xb_Broker b,
           se_Status = StatusDisconnected, se_Message = msg, se_ReceivedAt = now\<rparr>)"

definition OnReconnecting :: "go_time \<Rightarrow> exchange_base \<Rightarrow> int \<Rightarrow> bc_event" where
  "OnReconnecting now b attempt = BcStatus \<lparr>se_AccountID = xb_AccountID b, se_Broker = xb_Broker b,
     se_Status = StatusReconnecting, se_Message = ''attempt '' @ format_int attempt,
     se_ReceivedAt = now\<rparr>"

definition OnFatal :: "go_time \<Rightarrow> exchange_base \<Rightarrow> bc_event" where
  "OnFatal now b = BcError \<lparr>ee_AccountID = xb_AccountID b, ee_Broker = xb_Broker b,
     ee_Source = xb_Broker b @ ''_ws'', ee_Code = ''FATAL'', ee_Message = ''connection destroyed'',
     ee_Fatal = True, ee_ReceivedAt = now\<rparr>"

section \<open>Errors\<close>

record unsupported_error =
  ue_Broker :: string
  ue_Op :: string

definition NewUnsupportedError :: "string \<Rightarrow> string \<Rightarrow> unsupported_error" where
  "NewUnsupportedError broker op = \<lparr>ue_Broker = broker, ue_Op = op\<rparr>"

definition unsupported_Error :: "unsupported_error option \<Rightarrow> string" where
  "unsupported_Error e = (case e of
      None \<Rightarrow> []
    | Some u \<Rightarrow> if ue_Broker u = [] then ue_Op u @ '' not supported''
                else ue_Broker u @ '': '' @ ue_Op u @ '' not supported'')"

datatype op_error = ErrText string | OpError string "op_error option"

fun op_error_Error :: "op_error option \<Rightarrow> string" where
  "op_error_Error None = []"
| "op_error_Error (Some (ErrText s)) = s"
| "op_error_Error (Some (OpError op None)) = op"
| "op_error_Error (Some (OpError op (Some e))) =
     (if op = [] then op_error_Error (Some e) else op @ '': '' @ op_error_Error (Some e))"

fun op_error_Unwrap :: "op_error option \<Rightarrow> op_error option" where
  "op_error_Unwrap (Some (OpError op e)) = e"
| "op_error_Unwrap _ = None"

definition WrapOp :: "string \<Rightarrow> op_error option \<Rightarrow> op_error option" where
  "WrapOp op err = (case err of None \<Rightarrow> None | Some e \<Rightarrow> Some (OpError op (Some e)))"

section \<open>Laws\<close>

definition bc_ok :: "broker_channels \<Rightarrow> bool" where
  "bc_ok bc \<longleftrightarrow> chan_ok (bc_tick bc) \<and> chan_ok (bc_exec bc) \<and> chan_ok (bc_status bc) \<and>
     chan_ok (bc_err bc) \<and> (case bc_quote bc of None \<Rightarrow> True | Some q \<Rightarrow> chan_ok q)"

lemma bc_ok_New [simp]: "bc_ok NewBrokerChannels"
  by (simp add: bc_ok_def NewBrokerChannels_def chan_ok_def chan_make_def)

lemma chan_send_ok: "chan_send c x = Some c' \<Longrightarrow> chan_ok c \<Longrightarrow> chan_ok c'"
  by (cases c) (auto simp: chan_send_def chan_ok_def chan_full_def split: if_splits)

lemma bc_send_ok: "bc_send bc e = Some bc' \<Longrightarrow> bc_ok bc \<Longrightarrow> bc_ok bc'"
  by (cases e)
     (auto simp: bc_ok_def SendTick_def SendExec_def SendQuote_def SendStatus_def SendError_def
       dest: chan_send_ok split: option.splits)

lemma quote_dropped: "bc_quote bc = None \<Longrightarrow> bc_send bc (BcQuote q) = Some bc"
  by (simp add: SendQuote_def)

lemma bc_emit_append:
  "bc_emit ch (es @ fs) = (case bc_emit ch es of Sent ch' \<Rightarrow> bc_emit ch' fs | r \<Rightarrow> r)"
  by (induction ch es rule: bc_emit.induct) (auto split: option.splits send_outcome.splits)

text \<open>Ticks pass through in order: a batch that fits is sent without blocking.\<close>

lemma bc_emit_ticks:
  assumes "length (chan_buf (bc_tick bc)) + length ts \<le> chan_cap (bc_tick bc)"
  shows "bc_emit (Some bc) (map BcTick ts) =
    Sent (Some (bc\<lparr>bc_tick := Chan (chan_cap (bc_tick bc)) (chan_buf (bc_tick bc) @ ts)\<rparr>))"
  using assms
proof (induction ts arbitrary: bc)
  case Nil
  then show ?case by (cases "bc_tick bc") simp
next
  case (Cons t ts)
  let ?bc = "bc\<lparr>bc_tick := Chan (chan_cap (bc_tick bc)) (chan_buf (bc_tick bc) @ [t])\<rparr>"
  have "bc_send bc (BcTick t) = Some ?bc"
    using Cons.prems by (cases "bc_tick bc") (simp add: SendTick_def chan_send_def chan_full_def)
  moreover have "bc_emit (Some ?bc) (map BcTick ts) =
    Sent (Some (?bc\<lparr>bc_tick := Chan (chan_cap (bc_tick ?bc)) (chan_buf (bc_tick ?bc) @ ts)\<rparr>))"
    by (rule Cons.IH) (use Cons.prems in simp)
  ultimately show ?case by simp
qed

end
