(* ===== verification/Circuit_Breaker.thy ===== *)
theory Circuit_Breaker
  imports HTS_Prelude
begin

text \<open>
  \<open>internal/core/pkg/circuitbreaker/circuitbreaker.go\<close>: a counter of consecutive failures
  with an open flag, both atomics. \<open>br_Fail\<close> and \<open>br_Success\<close> are the calls run to
  their end; \<open>br_step\<close> runs the same calls of any number of goroutines interleaved at
  the granularity of the atomic operations and the callbacks.
\<close>

section \<open>State and operations\<close>

record breaker =
  br_threshold :: int
  br_count :: int
  br_opened :: bool

datatype br_event = OnOpen int | OnClose

definition br_New :: "int \<Rightarrow> breaker" where
  "br_New threshold = \<lparr>br_threshold = threshold, br_count = 0, br_opened = False\<rparr>"

text \<open>A call returns the new state and the callbacks it made. \<open>closeSet\<close> says that
  \<open>onClose\<close> is not nil.\<close>

definition br_Fail :: "breaker \<Rightarrow> breaker \<times> br_event list" where
  "br_Fail b =
     (if br_opened b then (b, [])
      else let count = wrap64 (br_count b + 1); b1 = b\<lparr>br_count := count\<rparr>
           in if count \<ge> br_threshold b1 then
                (if \<not> br_opened b1 then (b1\<lparr>br_opened := True\<rparr>, [OnOpen count]) else (b1, []))
              else (b1, []))"

definition br_Success :: "bool \<Rightarrow> breaker \<Rightarrow> breaker \<times> br_event list" where
  "br_Success closeSet b =
     (let b1 = b\<lparr>br_count := 0\<rparr>
      in if br_opened b1
         then (b1\<lparr>br_opened := False\<rparr>, if closeSet then [OnClose] else [])
         else (b1, []))"

definition br_IsOpen :: "breaker \<Rightarrow> bool" where
  "br_IsOpen b = br_opened b"

definition br_Count :: "breaker \<Rightarrow> int" where
  "br_Count b = br_count b"

fun br_fails :: "nat \<Rightarrow> breaker \<Rightarrow> breaker \<times> br_event list" where
  "br_fails 0 b = (b, [])"
| "br_fails (Suc n) b =
     (let (b1, e1) = br_Fail b; (b2, e2) = br_fails n b1 in (b2, e1 @ e2))"

section \<open>One goroutine\<close>

lemma br_fails_open: "br_opened b \<Longrightarrow> br_fails n b = (b, [])"
  by (induction n) (simp_all add: br_Fail_def)

lemma br_fails_closed:
  assumes "\<not> br_opened b" and "0 \<le> br_count b" and "br_count b < br_threshold b"
    and "br_threshold b < 9223372036854775808"
  shows "br_fails n b =
    (if br_count b + int n < br_threshold b then (b\<lparr>br_count := br_count b + int n\<rparr>, [])
     else (b\<lparr>br_count := br_threshold b, br_opened := True\<rparr>, [OnOpen (br_threshold b)]))"
  using assms
proof (induction n arbitrary: b)
  case 0
  then show ?case by simp
next
  case (Suc n)
  have w: "wrap64 (br_count b + 1) = br_count b + 1" using Suc.prems by (simp add: in64_def)
  show ?case
  proof (cases "br_count b + 1 < br_threshold b")
    case True
    let ?b = "b\<lparr>br_count := br_count b + 1\<rparr>"
    have "br_fails n ?b = (if br_count ?b + int n < br_threshold ?b
      then (?b\<lparr>br_count := br_count ?b + int n\<rparr>, [])
      else (?b\<lparr>br_count := br_threshold ?b, br_opened := True\<rparr>, [OnOpen (br_threshold ?b)]))"
      by (rule Suc.IH) (use True Suc.prems in simp_all)
    with True Suc.prems w show ?thesis by (simp add: br_Fail_def Let_def algebra_simps)
  next
    case False
    then have "br_threshold b = br_count b + 1" using Suc.prems by simp
    with Suc.prems w show ?thesis by (simp add: br_Fail_def br_fails_open Let_def)
  qed
qed

text \<open>A breaker with a positive threshold trips exactly at its threshold: after a
  success or at the start, \<open>n\<close> consecutive failures leave it open if and only if \<open>n\<close>
  reaches the threshold; \<open>onOpen\<close> was then called exactly once, with the threshold as
  the count, and the counter stands still while the breaker is open; a success after
  them closes it, resets the counter and calls \<open>onClose\<close> exactly if it was open.\<close>

theorem breaker_trips_at_threshold:
  assumes "0 < t" and "t < 9223372036854775808"
  shows "br_fails n (br_New t) =
      (br_New t\<lparr>br_count := min (int n) t, br_opened := (t \<le> int n)\<rparr>,
       if t \<le> int n then [OnOpen t] else []) \<and>
    br_Success True (fst (br_fails n (br_New t))) = (br_New t, if t \<le> int n then [OnClose] else [])"
  using br_fails_closed [of "br_New t" n] assms
  by (auto simp: br_New_def br_Success_def Let_def min_def)

theorem breaker_trips_at_threshold_witness:
  "br_fails 5 (br_New 3) = (br_New 3\<lparr>br_count := 3, br_opened := True\<rparr>, [OnOpen 3])"
  using breaker_trips_at_threshold [of 3 5] by simp

section \<open>Many goroutines\<close>

text \<open>The points of a call between two atomic operations. \<open>FailLoaded\<close> has read the
  flag as closed, \<open>FailCounted\<close> has incremented, \<open>FailWon\<close> has swapped the flag and has
  \<open>onOpen\<close> to call; \<open>SuccStored\<close> has reset the counter, \<open>SuccWon\<close> has swapped the flag
  and has \<open>onClose\<close> to call.\<close>

datatype br_pc = Idle | FailLoaded | FailCounted int | FailWon int | SuccStored | SuccWon

record br_system =
  sys_b :: breaker
  sys_pc :: "nat \<Rightarrow> br_pc"
  sys_opens :: nat
  sys_closes :: nat
  sys_log :: "br_event list"

definition br_init :: "int \<Rightarrow> br_system" where
  "br_init t = \<lparr>sys_b = br_New t, sys_pc = (\<lambda>_. Idle), sys_opens = 0, sys_closes = 0, sys_log = []\<rparr>"

definition goto :: "br_system \<Rightarrow> nat \<Rightarrow> br_pc \<Rightarrow> br_system" where
  "goto s g p = s\<lparr>sys_pc := (sys_pc s)(g := p)\<rparr>"

inductive br_step :: "br_system \<Rightarrow> br_system \<Rightarrow> bool" where
  fail_load_open: "sys_pc s g = Idle \<Longrightarrow> br_opened (sys_b s) \<Longrightarrow> br_step s s"
| fail_load: "sys_pc s g = Idle \<Longrightarrow> \<not> br_opened (sys_b s) \<Longrightarrow> br_step s (goto s g FailLoaded)"
| fail_add: "sys_pc s g = FailLoaded \<Longrightarrow> c = wrap64 (br_count (sys_b s) + 1) \<Longrightarrow>
    br_step s (goto (s\<lparr>sys_b := (sys_b s)\<lparr>br_count := c\<rparr>\<rparr>) g
      (if c \<ge> br_threshold (sys_b s) then FailCounted c else Idle))"
| fail_cas: "sys_pc s g = FailCounted c \<Longrightarrow> \<not> br_opened (sys_b s) \<Longrightarrow>
    br_step s (goto (s\<lparr>sys_b := (sys_b s)\<lparr>br_opened := True\<rparr>, sys_opens := sys_opens s + 1\<rparr>) g (FailWon c))"
| fail_cas_lost: "sys_pc s g = FailCounted c \<Longrightarrow> br_opened (sys_b s) \<Longrightarrow> br_step s (goto s g Idle)"
| fail_call: "sys_pc s g = FailWon c \<Longrightarrow>
    br_step s (goto (s\<lparr>sys_log := sys_log s @ [OnOpen c]\<rparr>) g Idle)"
| succ_store: "sys_pc s g = Idle \<Longrightarrow>
    br_step s (goto (s\<lparr>sys_b := (sys_b s)\<lparr>br_count := 0\<rparr>\<rparr>) g SuccStored)"
| succ_cas: "sys_pc s g = SuccStored \<Longrightarrow> br_opened (sys_b s) \<Longrightarrow>
    br_step s (goto (s\<lparr>sys_b := (sys_b s)\<lparr>br_opened := False\<rparr>, sys_closes := sys_closes s + 1\<rparr>) g SuccWon)"
| succ_cas_lost: "sys_pc s g = SuccStored \<Longrightarrow> \<not> br_opened (sys_b s) \<Longrightarrow> br_step s (goto s g Idle)"
| succ_call: "sys_pc s g = SuccWon \<Longrightarrow>
    br_step s (goto (s\<lparr>sys_log := sys_log s @ [OnClose]\<rparr>) g Idle)"

inductive br_reach :: "int \<Rightarrow> br_system \<Rightarrow> bool" for t where
  br_reach_init: "br_reach t (br_init t)"
| br_reach_step: "br_reach t s \<Longrightarrow> br_step s s' \<Longrightarrow> br_reach t s'"

definition opens_logged :: "br_event list \<Rightarrow> nat" where
  "opens_logged es = length (filter (\<lambda>e. e \<noteq> OnClose) es)"

definition closes_logged :: "br_event list \<Rightarrow> nat" where
  "closes_logged es = length (filter (\<lambda>e. e = OnClose) es)"

definition won_open :: "br_system \<Rightarrow> nat set" where
  "won_open s = {g. \<exists>c. sys_pc s g = FailWon c}"

definition won_close :: "br_system \<Rightarrow> nat set" where
  "won_close s = {g. sys_pc s g = SuccWon}"

text \<open>The flag counts its swaps; every swap is followed by its one callback.\<close>

definition br_inv :: "int \<Rightarrow> br_system \<Rightarrow> bool" where
  "br_inv t s \<longleftrightarrow> br_threshold (sys_b s) = t \<and>
     sys_opens s = sys_closes s + (if br_opened (sys_b s) then 1 else 0) \<and>
     finite (won_open s) \<and> finite (won_close s) \<and>
     sys_opens s = opens_logged (sys_log s) + card (won_open s) \<and>
     sys_closes s = closes_logged (sys_log s) + card (won_close s) \<and>
     (\<forall>c. OnOpen c \<in> set (sys_log s) \<longrightarrow> t \<le> c) \<and>
     (\<forall>g c. sys_pc s g = FailCounted c \<or> sys_pc s g = FailWon c \<longrightarrow> t \<le> c)"

lemma goto_sel [simp]:
  "sys_b (goto s g p) = sys_b s" "sys_opens (goto s g p) = sys_opens s"
  "sys_closes (goto s g p) = sys_closes s" "sys_log (goto s g p) = sys_log s"
  "sys_pc (goto s g p) = (sys_pc s)(g := p)"
  by (simp_all add: goto_def)

lemma won_goto [simp]:
  "won_open (goto s g p) = (if \<exists>c. p = FailWon c then insert g (won_open s) else won_open s - {g})"
  "won_close (goto s g p) = (if p = SuccWon then insert g (won_close s) else won_close s - {g})"
  by (auto simp: won_open_def won_close_def)

lemma won_frame [simp]:
  "won_open (s\<lparr>sys_b := b\<rparr>) = won_open s" "won_close (s\<lparr>sys_b := b\<rparr>) = won_close s"
  "won_open (s\<lparr>sys_opens := n\<rparr>) = won_open s" "won_close (s\<lparr>sys_opens := n\<rparr>) = won_close s"
  "won_open (s\<lparr>sys_closes := n\<rparr>) = won_open s" "won_close (s\<lparr>sys_closes := n\<rparr>) = won_close s"
  "won_open (s\<lparr>sys_log := l\<rparr>) = won_open s" "won_close (s\<lparr>sys_log := l\<rparr>) = won_close s"
  by (simp_all add: won_open_def won_close_def)

lemma won_not [simp]:
  "sys_pc s g = p \<Longrightarrow> \<forall>c. p \<noteq> FailWon c \<Longrightarrow> won_open s - {g} = won_open s"
  "sys_pc s g = p \<Longrightarrow> p \<noteq> SuccWon \<Longrightarrow> won_close s - {g} = won_close s"
  by (auto simp: won_open_def won_close_def)

lemma logged_snoc [simp]:
  "opens_logged (es @ [e]) = opens_logged es + (if e = OnClose then 0 else 1)"
  "closes_logged (es @ [e]) = closes_logged es + (if e = OnClose then 1 else 0)"
  by (simp_all add: opens_logged_def closes_logged_def)

lemma br_inv_step:
  assumes "br_step s s'" and inv: "br_inv t s"
  shows "br_inv t s'"
  using assms(1)
proof cases
  case (fail_call g c)
  then have g: "g \<in> won_open s" by (auto simp: won_open_def)
  with inv have "card (won_open s) = Suc (card (won_open s - {g}))"
    by (metis br_inv_def card_Suc_Diff1)
  with fail_call inv show ?thesis by (auto simp: br_inv_def)
next
  case (succ_call g)
  then have g: "g \<in> won_close s" by (auto simp: won_close_def)
  with inv have "card (won_close s) = Suc (card (won_close s - {g}))"
    by (metis br_inv_def card_Suc_Diff1)
  with succ_call inv show ?thesis by (auto simp: br_inv_def)
next
  case (fail_cas g c)
  then have "g \<notin> won_open s" by (auto simp: won_open_def)
  with fail_cas inv show ?thesis by (auto simp: br_inv_def)
next
  case (succ_cas g)
  then have "g \<notin> won_close s" by (auto simp: won_close_def)
  with succ_cas inv show ?thesis by (auto simp: br_inv_def)
qed (use inv in \<open>auto simp: br_inv_def\<close>)

lemma br_reach_inv: "br_reach t s \<Longrightarrow> br_inv t s"
proof (induction rule: br_reach.induct)
  case br_reach_init
  show ?case by (simp add: br_inv_def br_init_def br_New_def won_open_def won_close_def
      opens_logged_def closes_logged_def)
qed (rule br_inv_step)



end
