(* ===== verification/Subscription_Manager.thy ===== *)
theory Subscription_Manager
  imports HTS_Prelude
begin

text \<open>
  \<open>internal/core/pkg/subscription\<close>: reference counts for subscriptions. The first
  subscriber of a code selects a broker and subscribes there, the last one to release
  unsubscribes; \<open>Swap\<close> moves a subscription to another broker. Every operation holds the
  mutex from its first to its last line, so it is one step.

  The brokers and the selection callback are outside of the package: their answers are
  arguments of the operations, and the calls made to the brokers are part of the result.
\<close>

section \<open>State and operations\<close>

record sub =
  sub_Code :: string
  sub_Tr :: string

abbreviation SubTypeTrade :: string where "SubTypeTrade \<equiv> ''trade''"
abbreviation SubTypeQuote :: string where "SubTypeQuote \<equiv> ''quote''"
abbreviation SubTypeExec :: string where "SubTypeExec \<equiv> ''exec''"

definition sub_String :: "sub \<Rightarrow> string" where
  "sub_String s = sub_Tr s @ '':'' @ sub_Code s"

record 'b sub_info =
  si_count :: int
  si_broker :: 'b

type_synonym 'b sub_mgr = "sub \<rightharpoonup> 'b sub_info"

datatype 'e sub_error =
  SelectFailed sub 'e | ErrNoBroker sub | SubscribeFailed sub 'e | UnsubscribeFailed sub 'e |
  ErrSubNotFound | SwapSubscribeFailed sub 'e

datatype 'b broker_call = CallSubscribe 'b sub bool | CallUnsubscribe 'b sub bool

definition NewManager :: "'b sub_mgr" where
  "NewManager = Map.empty"

text \<open>\<open>sel\<close> is the answer of \<open>selectFn\<close>, \<open>subR\<close> and \<open>unsubR\<close> the answers of the broker
  (\<open>None\<close> for a nil error).\<close>

definition sm_Subscribe ::
    "(sub \<Rightarrow> 'e + 'b option) \<Rightarrow> ('b \<Rightarrow> sub \<Rightarrow> 'e option) \<Rightarrow> 'b sub_mgr \<Rightarrow> sub \<Rightarrow>
      'b sub_mgr \<times> 'e sub_error option \<times> 'b broker_call list" where
  "sm_Subscribe sel subR m s =
     (case m s of
        Some e \<Rightarrow> (m(s \<mapsto> e\<lparr>si_count := wrap64 (si_count e + 1)\<rparr>), None, [])
      | None \<Rightarrow>
          (case sel s of
             Inl err \<Rightarrow> (m, Some (SelectFailed s err), [])
           | Inr None \<Rightarrow> (m, Some (ErrNoBroker s), [])
           | Inr (Some b) \<Rightarrow>
               (case subR b s of
                  Some err \<Rightarrow> (m, Some (SubscribeFailed s err), [CallSubscribe b s False])
                | None \<Rightarrow> (m(s \<mapsto> \<lparr>si_count = 1, si_broker = b\<rparr>), None, [CallSubscribe b s True]))))"

definition sm_Release ::
    "('b \<Rightarrow> sub \<Rightarrow> 'e option) \<Rightarrow> 'b sub_mgr \<Rightarrow> sub \<Rightarrow>
      'b sub_mgr \<times> 'e sub_error option \<times> 'b broker_call list" where
  "sm_Release unsubR m s =
     (case m s of
        None \<Rightarrow> (m, None, [])
      | Some e \<Rightarrow>
          (let e1 = e\<lparr>si_count := wrap64 (si_count e - 1)\<rparr>
           in if si_count e1 > 0 then (m(s \<mapsto> e1), None, [])
              else case unsubR (si_broker e1) s of
                     Some err \<Rightarrow> (m(s \<mapsto> e1\<lparr>si_count := wrap64 (si_count e1 + 1)\<rparr>),
                       Some (UnsubscribeFailed s err), [CallUnsubscribe (si_broker e1) s False])
                   | None \<Rightarrow> (m(s := None), None, [CallUnsubscribe (si_broker e1) s True])))"

definition sm_Swap ::
    "('b \<Rightarrow> sub \<Rightarrow> 'e option) \<Rightarrow> ('b \<Rightarrow> sub \<Rightarrow> 'e option) \<Rightarrow> 'b sub_mgr \<Rightarrow> sub \<Rightarrow> 'b \<Rightarrow>
      'b sub_mgr \<times> 'e sub_error option \<times> 'b broker_call list" where
  "sm_Swap subR unsubR m s newBroker =
     (case m s of
        None \<Rightarrow> (m, Some ErrSubNotFound, [])
      | Some e \<Rightarrow>
          if si_broker e = newBroker then (m, None, [])
          else case subR newBroker s of
                 Some err \<Rightarrow> (m, Some (SwapSubscribeFailed s err), [CallSubscribe newBroker s False])
               | None \<Rightarrow> (m(s \<mapsto> e\<lparr>si_broker := newBroker\<rparr>), None,
                   [CallSubscribe newBroker s True,
                    CallUnsubscribe (si_broker e) s (unsubR (si_broker e) s = None)]))"

text \<open>The queries visit the entries in the order \<open>ks\<close>.\<close>

definition sm_SubsByBroker :: "sub list \<Rightarrow> 'b sub_mgr \<Rightarrow> 'b \<Rightarrow> sub list" where
  "sm_SubsByBroker ks m b = filter (\<lambda>s. \<exists>e\<in>set_option (m s). si_broker e = b) ks"

definition sm_Count :: "'b sub_mgr \<Rightarrow> sub \<Rightarrow> int" where
  "sm_Count m s = (case m s of Some e \<Rightarrow> si_count e | None \<Rightarrow> 0)"

definition sm_Has :: "'b sub_mgr \<Rightarrow> sub \<Rightarrow> bool" where
  "sm_Has m s \<longleftrightarrow> m s \<noteq> None"

definition sm_Keys :: "sub list \<Rightarrow> 'b sub_mgr \<Rightarrow> sub list" where
  "sm_Keys ks m = filter (\<lambda>s. m s \<noteq> None) ks"

section \<open>Sequences of operations\<close>

text \<open>An operation with the answers of the outside: the selection, and one error per
  broker call.\<close>

datatype ('b, 'e) sm_op =
    OpSubscribe sub "'e + 'b option" "'e option"
  | OpRelease sub "'e option"
  | OpSwap sub 'b "'e option" "'e option"

fun sm_do :: "('b, 'e) sm_op \<Rightarrow> 'b sub_mgr \<Rightarrow> 'b sub_mgr \<times> 'e sub_error option \<times> 'b broker_call list"
where
  "sm_do (OpSubscribe s sel r) m = sm_Subscribe (\<lambda>_. sel) (\<lambda>_ _. r) m s"
| "sm_do (OpRelease s r) m = sm_Release (\<lambda>_ _. r) m s"
| "sm_do (OpSwap s b r u) m = sm_Swap (\<lambda>_ _. r) (\<lambda>_ _. u) m s b"

fun sm_run :: "('b, 'e) sm_op list \<Rightarrow> 'b sub_mgr \<Rightarrow>
    'b sub_mgr \<times> 'e sub_error option list \<times> 'b broker_call list" where
  "sm_run [] m = (m, [], [])"
| "sm_run (p # ps) m =
     (let (m1, r, cs) = sm_do p m; (m2, rs, ds) = sm_run ps m1 in (m2, r # rs, cs @ ds))"

text \<open>The abstract specification: a bag of references. A subscribe that returns nil adds
  one, a release that returns nil takes one away if there is one, and nothing else
  changes the bag.\<close>

fun ref_step :: "('b, 'e) sm_op \<Rightarrow> 'e sub_error option \<Rightarrow> (sub \<Rightarrow> nat) \<Rightarrow> (sub \<Rightarrow> nat)" where
  "ref_step (OpSubscribe s _ _) None f = f(s := f s + 1)"
| "ref_step (OpRelease s _) None f = f(s := f s - 1)"
| "ref_step _ _ f = f"

fun ref_run :: "('b, 'e) sm_op list \<Rightarrow> 'e sub_error option list \<Rightarrow> (sub \<Rightarrow> nat) \<Rightarrow> (sub \<Rightarrow> nat)" where
  "ref_run (p # ps) (r # rs) f = ref_run ps rs (ref_step p r f)"
| "ref_run _ _ f = f"

text \<open>The subscriptions that are live at the brokers after a sequence of calls.\<close>

fun live_step :: "'b broker_call \<Rightarrow> ('b \<times> sub) set \<Rightarrow> ('b \<times> sub) set" where
  "live_step (CallSubscribe b s True) L = insert (b, s) L"
| "live_step (CallUnsubscribe b s True) L = L - {(b, s)}"
| "live_step _ L = L"

definition live_run :: "'b broker_call list \<Rightarrow> ('b \<times> sub) set \<Rightarrow> ('b \<times> sub) set" where
  "live_run cs L = fold live_step cs L"

section \<open>The invariant\<close>

definition sm_ok :: "nat \<Rightarrow> 'b sub_mgr \<Rightarrow> bool" where
  "sm_ok k m \<longleftrightarrow> (\<forall>s e. m s = Some e \<longrightarrow> 0 < si_count e \<and> si_count e \<le> int k)"

lemma sm_ok_New [inv_intros]: "sm_ok k NewManager"
  by (simp add: sm_ok_def NewManager_def)

lemma sm_ok_lookup: "sm_ok k m \<Longrightarrow> m s = Some e \<Longrightarrow> 0 < si_count e \<and> si_count e \<le> int k"
  by (simp add: sm_ok_def)

lemma sm_do_count:
  assumes "sm_ok k m" and "k < 9223372036854775807" and "sm_do p m = (m', r, cs)"
  shows "sm_ok (Suc k) m'"
    and "(\<lambda>s. nat (sm_Count m' s)) = ref_step p r (\<lambda>s. nat (sm_Count m s))"
proof -
  have w: "wrap64 (si_count e + 1) = si_count e + 1" "wrap64 (si_count e - 1) = si_count e - 1"
    "0 < si_count e" "0 \<le> si_count e" "si_count e \<le> int k" "si_count e \<le> 1 + int k"
    "si_count e \<le> 2 + int k" "wrap64 (si_count e) = si_count e" if "m s = Some e" for s e
    using sm_ok_lookup [OF assms(1) that] assms(2) by (simp_all add: in64_def)
  have mono: "sm_ok (Suc k) m" using assms(1) by (fastforce simp: sm_ok_def)
  show "sm_ok (Suc k) m'"
    using assms(3) mono w
    by (cases p) (auto simp: sm_ok_def sm_Subscribe_def sm_Release_def sm_Swap_def Let_def
        split: option.splits sum.splits if_splits)
  show "(\<lambda>s. nat (sm_Count m' s)) = ref_step p r (\<lambda>s. nat (sm_Count m s))"
  proof
    fix s
    have n: "nat (i + 1) = Suc (nat i)" if "0 \<le> i" for i using that by linarith
    show "nat (sm_Count m' s) = ref_step p r (\<lambda>s. nat (sm_Count m s)) s"
      using assms(3) w
      by (cases p; cases r) (auto simp: sm_Count_def sm_Subscribe_def sm_Release_def sm_Swap_def Let_def
          n nat_diff_distrib split: option.splits sum.splits if_splits)
  qed
qed

lemma live_step_unsub: "live_step (CallUnsubscribe b s k) L = (if k then L - {(b, s)} else L)"
  by (cases k) simp_all

lemma sm_do_live:
  assumes "\<And>s e. m s = Some e \<Longrightarrow> (si_broker e, s) \<in> L" and "sm_do p m = (m', r, cs)"
    and "m' s = Some e"
  shows "(si_broker e, s) \<in> live_run cs L"
  using assms
  by (cases p) (auto simp: live_run_def live_step_unsub sm_Subscribe_def sm_Release_def sm_Swap_def Let_def
      split: option.splits sum.splits if_splits)

lemma sm_run_count:
  assumes "sm_ok k m" and "k + length ps < 9223372036854775808" and "sm_run ps m = (m', rs, cs)"
  shows "(\<lambda>s. nat (sm_Count m' s)) = ref_run ps rs (\<lambda>s. nat (sm_Count m s)) \<and> sm_ok (k + length ps) m'"
  using assms
proof (induction ps arbitrary: k m rs cs)
  case Nil
  then show ?case by simp
next
  case (Cons p ps)
  obtain m1 r1 c1 where d: "sm_do p m = (m1, r1, c1)" by (cases "sm_do p m")
  obtain rs2 c2 where r: "sm_run ps m1 = (m', rs2, c2)" and rs: "rs = r1 # rs2"
    using Cons.prems(3) d by (auto simp: Let_def split: prod.splits)
  note 1 = sm_do_count [OF Cons.prems(1) _ d]
  from Cons.IH [OF 1(1) _ r] 1(2) Cons.prems(2) rs show ?case by simp
qed

lemma sm_run_live:
  assumes "\<And>s e. m s = Some e \<Longrightarrow> (si_broker e, s) \<in> L" and "sm_run ps m = (m', rs, cs)"
    and "m' s = Some e"
  shows "(si_broker e, s) \<in> live_run cs L"
  using assms
proof (induction ps arbitrary: m L rs cs)
  case Nil
  then show ?case by (simp add: live_run_def)
next
  case (Cons p ps)
  obtain m1 r1 c1 where d: "sm_do p m = (m1, r1, c1)" by (cases "sm_do p m")
  obtain rs2 c2 where r: "sm_run ps m1 = (m', rs2, c2)" and cs: "cs = c1 @ c2"
    using Cons.prems(2) d by (auto simp: Let_def split: prod.splits)
  have "(si_broker e, s) \<in> live_run c2 (live_run c1 L)"
    by (rule Cons.IH [OF sm_do_live [OF Cons.prems(1) d] r Cons.prems(3)])
  then show ?case by (simp add: live_run_def cs)
qed

text \<open>C36. The reference counts refine a bag: after any sequence of subscribes, releases and
  swaps, with any answers of the selection and of the brokers, the count of a
  subscription is the number of references that the successful operations have added and
  not yet taken away, an error leaves the counts as they were, and an entry exists
  exactly for a positive count.\<close>

theorem subscription_counts_refine:
  assumes "sm_run ps NewManager = (m, rs, cs)" and "length ps < 9223372036854775808"
  shows "(\<lambda>s. nat (sm_Count m s)) = ref_run ps rs (\<lambda>_. 0) \<and>
    (\<forall>s. sm_Has m s = (0 < sm_Count m s))"
proof -
  have z: "(\<lambda>s. nat (sm_Count (NewManager :: 'a sub_mgr) s)) = (\<lambda>_. 0)"
    by (simp add: NewManager_def sm_Count_def)
  from sm_run_count [OF sm_ok_New [of 0] _ assms(1)] assms(2)
  have "(\<lambda>s. nat (sm_Count m s)) = ref_run ps rs (\<lambda>_. 0)" and ok: "sm_ok (length ps) m"
    by (simp_all add: z)
  moreover have "sm_Has m s = (0 < sm_Count m s)" for s
    using sm_ok_lookup [OF ok, of s] by (cases "m s") (auto simp: sm_Has_def sm_Count_def)
  ultimately show ?thesis by blast
qed

text \<open>No subscriber without a live feed: after any such sequence, the broker recorded
  for a subscription with subscribers has accepted the subscription and has not been
  successfully told to drop it, whatever failed on the way.\<close>

theorem subscription_live_at_broker:
  assumes "sm_run ps NewManager = (m, rs, cs)" and "m s = Some e"
  shows "(si_broker e, s) \<in> live_run cs {}"
  by (rule sm_run_live [OF _ assms]) (simp add: NewManager_def)

definition demo_ops :: "(nat, unit) sm_op list" where
  "demo_ops =
     (let s = \<lparr>sub_Code = ''005930'', sub_Tr = SubTypeTrade\<rparr>
      in [OpSubscribe s (Inr (Some 1)) None, OpSubscribe s (Inr None) None,
          OpSwap s 2 None (Some ()), OpRelease s None])"

lemma demo_ops_run:
  "sm_run demo_ops NewManager =
    ([\<lparr>sub_Code = ''005930'', sub_Tr = SubTypeTrade\<rparr> \<mapsto> \<lparr>si_count = 1, si_broker = 2\<rparr>],
     [None, None, None, None],
     [CallSubscribe 1 \<lparr>sub_Code = ''005930'', sub_Tr = SubTypeTrade\<rparr> True,
      CallSubscribe 2 \<lparr>sub_Code = ''005930'', sub_Tr = SubTypeTrade\<rparr> True,
      CallUnsubscribe 1 \<lparr>sub_Code = ''005930'', sub_Tr = SubTypeTrade\<rparr> False])"
  by (simp add: demo_ops_def NewManager_def sm_Subscribe_def sm_Release_def sm_Swap_def Let_def in64_def)

theorem subscription_counts_refine_witness:
  "sm_Has (fst (sm_run demo_ops NewManager)) \<lparr>sub_Code = ''005930'', sub_Tr = SubTypeTrade\<rparr>"
proof -
  have "length demo_ops < 9223372036854775808" by (simp add: demo_ops_def Let_def)
  from subscription_counts_refine [OF demo_ops_run this] show ?thesis
    by (simp add: demo_ops_run sm_Count_def)
qed

theorem subscription_live_at_broker_witness:
  "(2, \<lparr>sub_Code = ''005930'', sub_Tr = SubTypeTrade\<rparr>)
    \<in> live_run (snd (snd (sm_run demo_ops NewManager))) {}"
  using subscription_live_at_broker [OF demo_ops_run, of "\<lparr>sub_Code = ''005930'', sub_Tr = SubTypeTrade\<rparr>"]
  by (simp add: demo_ops_run)

end
