(* ===== verification/KIS_Broker.thy ===== *)
theory KIS_Broker
  imports KIS_Parser Exchange_Base Circuit_Breaker Subscription_Manager
begin

text \<open>
  The streaming side of the KIS broker: \<open>internal/adapter/broker/kis/broker.go\<close> and
  \<open>ws.go\<close>. A handler takes the broker's state and one message and returns the new state and
  what it sends, in order: events for the engine (\<open>Emit\<close>) and frames back to the server
  (\<open>Echo\<close>); \<open>None\<close> says that it panics. \<open>kis_deliver\<close> puts the emitted events on the
  broker's channels.

  Parameters: \<open>impl\<close>, the platform's conversion of an out-of-range \<open>float64\<close>; \<open>local\<close>, the zone
  of \<open>time.Local\<close>; \<open>cbc\<close>, the AES block-mode decryption; \<open>unmarshal\<close>, the JSON decoder into
  \<open>wsRawMessage\<close>; the constructors of the requester and of the connection, which may fail.
\<close>

section \<open>Construction\<close>

abbreviation BaseURLReal :: string where "BaseURLReal \<equiv> ''https://openapi.koreainvestment.com:9443''"
abbreviation BaseURLPaper :: string where "BaseURLPaper \<equiv> ''https://openapivts.koreainvestment.com:29443''"
abbreviation wsURLReal :: string where "wsURLReal \<equiv> ''ws://ops.koreainvestment.com:21000''"
abbreviation wsURLPaper :: string where "wsURLPaper \<equiv> ''ws://ops.koreainvestment.com:31000''"

record setup_params =
  sp_ID :: string
  sp_Broker :: string
  sp_IsPaper :: bool
  sp_APIKey :: string
  sp_APISecret :: string
  sp_AccountNo :: string
  sp_BaseURL :: string
  sp_Channels :: "broker_channels option"

record kis_broker =
  kb_base :: exchange_base
  kb_appKey :: string
  kb_appSecret :: string
  kb_accountNo :: string
  kb_accountSub :: string
  kb_encKey :: string
  kb_encIV :: string
  kb_tradeBreaker :: breaker
  kb_quoteBreaker :: breaker
  kb_execBreaker :: breaker
  kb_decryptBreaker :: breaker

datatype 'e kis_new_error = InvalidAccountNo string | RequesterError 'e | ConnectionError 'e

definition resolveBaseURL :: "bool \<Rightarrow> string \<Rightarrow> string" where
  "resolveBaseURL isPaper cfgBaseURL =
     (if cfgBaseURL \<noteq> [] then cfgBaseURL else if isPaper then BaseURLPaper else BaseURLReal)"

definition parseAccountNo :: "string \<Rightarrow> (string \<times> string) option" where
  "parseAccountNo accountNo =
     (let parts = split_n (CHR ''-'') 2 accountNo
      in if length parts \<noteq> 2 then None else Some (parts ! 0, parts ! 1))"

definition kis_New ::
    "'e option \<Rightarrow> (string \<Rightarrow> 'e option) \<Rightarrow> setup_params \<Rightarrow> 'e kis_new_error + kis_broker" where
  "kis_New requester connection p =
     (case parseAccountNo (sp_AccountNo p) of
        None \<Rightarrow> Inl (InvalidAccountNo (sp_AccountNo p))
      | Some (no, sb) \<Rightarrow>
          (case requester of
             Some e \<Rightarrow> Inl (RequesterError e)
           | None \<Rightarrow>
               (case connection (if sp_IsPaper p then wsURLPaper else wsURLReal) of
                  Some e \<Rightarrow> Inl (ConnectionError e)
                | None \<Rightarrow>
                    Inr \<lparr>kb_base = \<lparr>xb_AccountID = sp_ID p, xb_Broker = sp_Broker p,
                           xb_BaseURL = resolveBaseURL (sp_IsPaper p) (sp_BaseURL p),
                           xb_IsPaper = sp_IsPaper p, xb_AssetType = ''stock'', xb_Channels = None\<rparr>,
                         kb_appKey = sp_APIKey p, kb_appSecret = sp_APISecret p,
                         kb_accountNo = no, kb_accountSub = sb, kb_encKey = [], kb_encIV = [],
                         kb_tradeBreaker = br_New 10, kb_quoteBreaker = br_New 10,
                         kb_execBreaker = br_New 10, kb_decryptBreaker = br_New 3\<rparr>)))"

section \<open>The circuit breakers\<close>

text \<open>The messages of \<open>initBreakers\<close>, as the bytes of their UTF-8 encoding.\<close>

definition tradeFailText :: string where
  "tradeFailText = map (char_of :: nat \<Rightarrow> char)
    [236, 178, 180, 234, 178, 176, 32, 235, 141, 176, 236, 157, 180, 237, 132, 176, 32, 236,
     151, 176, 236, 134, 141, 32, 237, 140, 140, 236, 139, 177, 32, 236, 139, 164, 237, 140,
     168]"

definition quoteFailText :: string where
  "quoteFailText = map (char_of :: nat \<Rightarrow> char)
    [237, 152, 184, 234, 176, 128, 32, 235, 141, 176, 236, 157, 180, 237, 132, 176, 32, 236,
     151, 176, 236, 134, 141, 32, 237, 140, 140, 236, 139, 177, 32, 236, 139, 164, 237, 140,
     168]"

definition execFailText :: string where
  "execFailText = map (char_of :: nat \<Rightarrow> char)
    [236, 178, 180, 234, 178, 176, 237, 134, 181, 235, 179, 180, 32, 237, 140, 140, 236,
     139, 177, 32, 236, 151, 176, 236, 134, 141, 32, 236, 139, 164, 237, 140, 168]"

definition decryptFailText :: string where
  "decryptFailText = map (char_of :: nat \<Rightarrow> char)
    [236, 178, 180, 234, 178, 176, 237, 134, 181, 235, 179, 180, 32, 235, 179, 181, 237,
     152, 184, 237, 153, 148, 32, 236, 151, 176, 236, 134, 141, 32, 236, 139, 164, 237, 140,
     168]"

datatype kis_out = Emit bc_event | Echo string

text \<open>\<open>makeOnOpen\<close> sends an error event; \<open>makeOnClose\<close> only writes a log line.\<close>

definition makeOnOpen :: "go_time \<Rightarrow> kis_broker \<Rightarrow> string \<Rightarrow> string \<Rightarrow> error_event" where
  "makeOnOpen now b code msg = \<lparr>ee_AccountID = xb_AccountID (kb_base b), ee_Broker = xb_Broker (kb_base b),
     ee_Source = ''kis_ws'', ee_Code = code, ee_Message = msg, ee_Fatal = False, ee_ReceivedAt = now\<rparr>"

fun breaker_outs :: "error_event \<Rightarrow> br_event list \<Rightarrow> kis_out list" where
  "breaker_outs e [] = []"
| "breaker_outs e (OnOpen count # evs) = Emit (BcError e) # breaker_outs e evs"
| "breaker_outs e (OnClose # evs) = breaker_outs e evs"

section \<open>Message handlers\<close>

definition tick_of_trade :: "go_time \<Rightarrow> exchange_base \<Rightarrow> stock_trade_msg \<Rightarrow> tick_event" where
  "tick_of_trade now b t = \<lparr>te_AccountID = xb_AccountID b, te_Broker = xb_Broker b, te_Code = st_Code t,
     te_Price = st_Price t, te_Volume = st_Volume t, te_AccVolume = st_AccVolume t,
     te_Change = st_Change t, te_ChangeRate = st_ChangeRate t, te_TradeTime = st_ExecTime t,
     te_ReceivedAt = now\<rparr>"

definition levels_of :: "depth_entry list \<Rightarrow> price_level list" where
  "levels_of ds = map (\<lambda>d. \<lparr>pl_Price = de_Price d, pl_Size = de_Size d\<rparr>) ds"

definition quote_of_depth :: "go_time \<Rightarrow> exchange_base \<Rightarrow> stock_quote_msg \<Rightarrow> quote_event" where
  "quote_of_depth now b q = \<lparr>qe_AccountID = xb_AccountID b, qe_Broker = xb_Broker b, qe_Code = sq_Code q,
     qe_Asks = levels_of (sq_Asks q), qe_Bids = levels_of (sq_Bids q), qe_TotalAsk = sq_TotalAsk q,
     qe_TotalBid = sq_TotalBid q, qe_ReceivedAt = now\<rparr>"

definition exec_of_notify :: "go_time \<Rightarrow> exchange_base \<Rightarrow> stock_exec_notify \<Rightarrow> exec_event" where
  "exec_of_notify now b n = \<lparr>xe_AccountID = xb_AccountID b, xe_Broker = xb_Broker b, xe_OrderID = sx_OrderNo n,
     xe_Code = sx_Code n, xe_Side = sx_Side n, xe_Price = sx_Price n, xe_Quantity = sx_Quantity n,
     xe_RemainQty = sx_RemainQty n, xe_TotalQty = sx_TotalQty n, xe_Status = sx_Status n,
     xe_ExecTime = sx_ExecTime n, xe_ReceivedAt = now\<rparr>"

definition handle_trade :: "(rat \<Rightarrow> int) \<Rightarrow> go_time \<Rightarrow> kis_broker \<Rightarrow> string \<Rightarrow> kis_broker \<times> kis_out list" where
  "handle_trade impl now b body =
     (case parseStockTrade impl body of
        Inl err \<Rightarrow>
          (let (br, evs) = br_Fail (kb_tradeBreaker b)
           in (b\<lparr>kb_tradeBreaker := br\<rparr>,
               breaker_outs (makeOnOpen now b ''TRADE_PARSE_FAIL'' tradeFailText) evs))
      | Inr trades \<Rightarrow>
          (let (br, evs) = br_Success True (kb_tradeBreaker b)
           in (b\<lparr>kb_tradeBreaker := br\<rparr>,
               breaker_outs (makeOnOpen now b ''TRADE_PARSE_FAIL'' tradeFailText) evs @
               map (\<lambda>t. Emit (BcTick (tick_of_trade now (kb_base b) t))) trades)))"

definition handle_quote :: "(rat \<Rightarrow> int) \<Rightarrow> go_time \<Rightarrow> kis_broker \<Rightarrow> string \<Rightarrow> kis_broker \<times> kis_out list" where
  "handle_quote impl now b body =
     (case parseStockQuote impl body of
        Inl err \<Rightarrow>
          (let (br, evs) = br_Fail (kb_quoteBreaker b)
           in (b\<lparr>kb_quoteBreaker := br\<rparr>,
               breaker_outs (makeOnOpen now b ''QUOTE_PARSE_FAIL'' quoteFailText) evs))
      | Inr q \<Rightarrow>
          (let (br, evs) = br_Success True (kb_quoteBreaker b)
           in (b\<lparr>kb_quoteBreaker := br\<rparr>,
               breaker_outs (makeOnOpen now b ''QUOTE_PARSE_FAIL'' quoteFailText) evs @
               [Emit (BcQuote (quote_of_depth now (kb_base b) q))])))"

definition handle_notify ::
    "(rat \<Rightarrow> int) \<Rightarrow> (nat \<Rightarrow> nat \<Rightarrow> nat \<Rightarrow> int \<Rightarrow> go_time) \<Rightarrow> go_time \<Rightarrow> kis_broker \<Rightarrow> string \<Rightarrow> kis_broker \<times> kis_out list" where
  "handle_notify impl local now b body =
     (case parseStockExecNotify impl local body of
        Inl err \<Rightarrow>
          (let (br, evs) = br_Fail (kb_execBreaker b)
           in (b\<lparr>kb_execBreaker := br\<rparr>,
               breaker_outs (makeOnOpen now b ''EXEC_PARSE_FAIL'' execFailText) evs))
      | Inr n \<Rightarrow>
          (let (br, evs) = br_Success True (kb_execBreaker b)
           in (b\<lparr>kb_execBreaker := br\<rparr>,
               breaker_outs (makeOnOpen now b ''EXEC_PARSE_FAIL'' execFailText) evs @
               [Emit (BcExec (exec_of_notify now (kb_base b) n))])))"

definition handle_exec ::
    "(rat \<Rightarrow> int) \<Rightarrow> (nat \<Rightarrow> nat \<Rightarrow> nat \<Rightarrow> int \<Rightarrow> go_time) \<Rightarrow>
     (string \<Rightarrow> string \<Rightarrow> string \<Rightarrow> string) \<Rightarrow> go_time \<Rightarrow> kis_broker \<Rightarrow> pipe_msg \<Rightarrow> (kis_broker \<times> kis_out list) option" where
  "handle_exec impl local cbc now b parsed =
     (if pm_Encrypted parsed then
        (case decryptAES256CBC cbc (pm_Body parsed) (kb_encKey b) (kb_encIV b) of
           None \<Rightarrow> None
         | Some (Inl err) \<Rightarrow>
             (let (br, evs) = br_Fail (kb_decryptBreaker b)
              in Some (b\<lparr>kb_decryptBreaker := br\<rparr>,
                       breaker_outs (makeOnOpen now b ''EXEC_DECRYPT_FAIL'' decryptFailText) evs))
         | Some (Inr body) \<Rightarrow>
             (let (br, evs) = br_Success True (kb_decryptBreaker b);
                  (b', outs) = handle_notify impl local now (b\<lparr>kb_decryptBreaker := br\<rparr>) body
              in Some (b', breaker_outs (makeOnOpen now b ''EXEC_DECRYPT_FAIL'' decryptFailText) evs @ outs)))
      else Some (handle_notify impl local now b (pm_Body parsed)))"

definition handlePipeMessage ::
    "(rat \<Rightarrow> int) \<Rightarrow> (nat \<Rightarrow> nat \<Rightarrow> nat \<Rightarrow> int \<Rightarrow> go_time) \<Rightarrow>
     (string \<Rightarrow> string \<Rightarrow> string \<Rightarrow> string) \<Rightarrow> go_time \<Rightarrow> kis_broker \<Rightarrow> string \<Rightarrow> (kis_broker \<times> kis_out list) option" where
  "handlePipeMessage impl local cbc now b msg =
     (case parseRawMessage msg of
        Inl err \<Rightarrow> Some (b, [])
      | Inr parsed \<Rightarrow>
          if pm_TrID parsed = trIDStockTrade then Some (handle_trade impl now b (pm_Body parsed))
          else if pm_TrID parsed = trIDStockQuote then Some (handle_quote impl now b (pm_Body parsed))
          else if pm_TrID parsed = trIDStockExec then handle_exec impl local cbc now b parsed
          else Some (b, []))"

record ws_raw_message =
  wr_TrID :: string
  wr_MsgCode :: string
  wr_Msg1 :: string
  wr_Key :: string
  wr_IV :: string

definition isApprovalKeyError :: "string \<Rightarrow> bool" where
  "isApprovalKeyError msgCode \<longleftrightarrow> msgCode = ''EGW00123'' \<or> msgCode = ''EGW00201''"

text \<open>The branches for an approval-key error and for other server messages only log.\<close>

definition handleJSONMessage ::
    "(string \<Rightarrow> ws_raw_message option) \<Rightarrow> kis_broker \<Rightarrow> string \<Rightarrow> kis_broker \<times> kis_out list" where
  "handleJSONMessage unmarshal b data =
     (case unmarshal data of
        None \<Rightarrow> (b, [])
      | Some resp \<Rightarrow>
          if wr_TrID resp = ''PINGPONG'' then (b, [Echo data])
          else if wr_Key resp \<noteq> [] then (b\<lparr>kb_encKey := wr_Key resp, kb_encIV := wr_IV resp\<rparr>, [])
          else if isApprovalKeyError (wr_MsgCode resp) then (b, [])
          else (b, []))"

definition OnMessage ::
    "(rat \<Rightarrow> int) \<Rightarrow> (nat \<Rightarrow> nat \<Rightarrow> nat \<Rightarrow> int \<Rightarrow> go_time) \<Rightarrow>
     (string \<Rightarrow> string \<Rightarrow> string \<Rightarrow> string) \<Rightarrow> (string \<Rightarrow> ws_raw_message option) \<Rightarrow>
     go_time \<Rightarrow> kis_broker \<Rightarrow> string \<Rightarrow> (kis_broker \<times> kis_out list) option" where
  "OnMessage impl local cbc unmarshal now b msg =
     (if msg \<noteq> [] \<and> hd msg = CHR ''{'' then Some (handleJSONMessage unmarshal b msg)
      else if CHR ''|'' \<in> set msg then handlePipeMessage impl local cbc now b msg
      else Some (b, []))"

text \<open>\<open>runTransportMessages\<close>: the messages of the connection, one after the other.\<close>

fun runTransportMessages ::
    "(rat \<Rightarrow> int) \<Rightarrow> (nat \<Rightarrow> nat \<Rightarrow> nat \<Rightarrow> int \<Rightarrow> go_time) \<Rightarrow>
     (string \<Rightarrow> string \<Rightarrow> string \<Rightarrow> string) \<Rightarrow> (string \<Rightarrow> ws_raw_message option) \<Rightarrow>
     (go_time \<times> string) list \<Rightarrow> kis_broker \<Rightarrow> (kis_broker \<times> kis_out list) option" where
  "runTransportMessages impl local cbc unmarshal [] b = Some (b, [])"
| "runTransportMessages impl local cbc unmarshal ((now, msg) # ms) b =
     (case OnMessage impl local cbc unmarshal now b msg of
        None \<Rightarrow> None
      | Some (b1, o1) \<Rightarrow>
          (case runTransportMessages impl local cbc unmarshal ms b1 of
             None \<Rightarrow> None
           | Some (b2, o2) \<Rightarrow> Some (b2, o1 @ o2)))"

text \<open>\<open>runTransportStatus\<close>: the connection's status events.\<close>

datatype ws_status = WsConnected | WsDisconnected "string option" | WsReconnecting int | WsFatal

fun runTransportStatus :: "go_time \<Rightarrow> exchange_base \<Rightarrow> ws_status \<Rightarrow> bc_event" where
  "runTransportStatus now b WsConnected = OnConnect now b"
| "runTransportStatus now b (WsDisconnected err) = OnDisconnect now b err"
| "runTransportStatus now b (WsReconnecting attempt) = OnReconnecting now b attempt"
| "runTransportStatus now b WsFatal = OnFatal now b"

fun emits :: "kis_out list \<Rightarrow> bc_event list" where
  "emits [] = []"
| "emits (Emit e # outs) = e # emits outs"
| "emits (Echo d # outs) = emits outs"

definition kis_deliver :: "kis_broker \<Rightarrow> kis_out list \<Rightarrow> broker_channels option send_outcome" where
  "kis_deliver b outs = bc_emit (xb_Channels (kb_base b)) (emits outs)"

section \<open>Subscriptions\<close>

abbreviation wsTypeRegister :: string where "wsTypeRegister \<equiv> ''1''"
abbreviation wsTypeUnregister :: string where "wsTypeUnregister \<equiv> ''2''"

record ws_request =
  wq_ApprovalKey :: string
  wq_CustType :: string
  wq_TrType :: string
  wq_ContentType :: string
  wq_TrID :: string
  wq_TrKey :: string

definition buildSubPayload :: "string \<Rightarrow> string \<Rightarrow> string \<Rightarrow> string \<Rightarrow> ws_request" where
  "buildSubPayload trID code approvalKey trType = \<lparr>wq_ApprovalKey = approvalKey, wq_CustType = ''P'',
     wq_TrType = trType, wq_ContentType = ''utf-8'', wq_TrID = trID, wq_TrKey = code\<rparr>"

datatype 'e kis_sub_error = UnknownSubType string | SubscribeError string string 'e

text \<open>\<open>conn key gen\<close> is the call on the connection: the key of the subscription and the
  generator of its payload, which asks the approval store first.\<close>

definition kis_subscribe ::
    "(string \<Rightarrow> ('k \<Rightarrow> 'e + ws_request) \<Rightarrow> 'e option) \<Rightarrow> ('k \<Rightarrow> 'e + string) \<Rightarrow> string \<Rightarrow> string \<Rightarrow> string \<Rightarrow> 'e kis_sub_error option" where
  "kis_subscribe conn approval trType trID code =
     (case conn (trID @ '':'' @ code) (\<lambda>ctx.
              case approval ctx of Inl e \<Rightarrow> Inl e | Inr k \<Rightarrow> Inr (buildSubPayload trID code k trType)) of
        None \<Rightarrow> None
      | Some e \<Rightarrow> Some (SubscribeError trID code e))"

definition sub_tr_id :: "string \<Rightarrow> string option" where
  "sub_tr_id tr =
     (if tr = SubTypeTrade then Some trIDStockTrade else if tr = SubTypeQuote then Some trIDStockQuote
      else if tr = SubTypeExec then Some trIDStockExec else None)"

definition kis_Subscribe ::
    "(string \<Rightarrow> ('k \<Rightarrow> 'e + ws_request) \<Rightarrow> 'e option) \<Rightarrow> ('k \<Rightarrow> 'e + string) \<Rightarrow> sub \<Rightarrow> 'e kis_sub_error option" where
  "kis_Subscribe conn approval s =
     (case sub_tr_id (sub_Tr s) of
        None \<Rightarrow> Some (UnknownSubType (sub_Tr s))
      | Some trID \<Rightarrow> kis_subscribe conn approval wsTypeRegister trID (sub_Code s))"

definition kis_Unsubscribe ::
    "(string \<Rightarrow> ('k \<Rightarrow> 'e + ws_request) \<Rightarrow> 'e option) \<Rightarrow> ('k \<Rightarrow> 'e + string) \<Rightarrow> sub \<Rightarrow> 'e kis_sub_error option" where
  "kis_Unsubscribe conn approval s =
     (case sub_tr_id (sub_Tr s) of
        None \<Rightarrow> Some (UnknownSubType (sub_Tr s))
      | Some trID \<Rightarrow> kis_subscribe conn approval wsTypeUnregister trID (sub_Code s))"

section \<open>The wire format\<close>

text \<open>What the server sends: four pieces joined by the pipe, the last one the fields joined
  by the caret.\<close>

definition wire :: "string \<Rightarrow> string \<Rightarrow> string \<Rightarrow> string \<Rightarrow> string" where
  "wire flag trID count body = join_on pipeSeparator [flag, trID, count, body]"

definition pipe_free :: "string \<Rightarrow> bool" where
  "pipe_free s \<longleftrightarrow> pipeSeparator \<notin> set s"

definition caret_free :: "string list \<Rightarrow> bool" where
  "caret_free fs \<longleftrightarrow> list_all (\<lambda>f. fieldSeparator \<notin> set f) fs"

lemma parseRawMessage_wire:
  assumes "pipe_free flag" and "pipe_free trID" and "pipe_free count"
  shows "parseRawMessage (wire flag trID count body) =
    bindE (field ''Count'' (parse_int count)) (\<lambda>n.
      Inr \<lparr>pm_Encrypted = (flag = encryptedFlag), pm_TrID = trID, pm_Count = n, pm_Body = body\<rparr>)"
  using assms
  by (simp add: parseRawMessage_def wire_def pipe_free_def numeral_eq_Suc cut_at_append)

lemma tr_ids_pipe_free [simp]:
  "pipe_free trIDStockTrade" "pipe_free trIDStockQuote" "pipe_free trIDStockExec"
  by (simp_all add: pipe_free_def)

lemma split_wire_fields:
  "fs \<noteq> [] \<Longrightarrow> caret_free fs \<Longrightarrow> split_on fieldSeparator (join_on fieldSeparator fs) = fs"
  by (rule split_join) (auto simp: caret_free_def list_all_iff)

lemma OnMessage_wire:
  "hd flag \<noteq> CHR ''{'' \<Longrightarrow> flag \<noteq> [] \<Longrightarrow>
   OnMessage impl local cbc unmarshal now b (wire flag trID count body) =
   handlePipeMessage impl local cbc now b (wire flag trID count body)"
  by (cases flag) (simp_all add: OnMessage_def wire_def)

lemma parseKRWInt_format [simp]: "in64 i \<Longrightarrow> parseKRWInt impl (format_int i) = Inr i"
  by (simp add: parseKRWInt_def parse_format_int Let_def)

lemma parseInt64_format [simp]: "in64 i \<Longrightarrow> parseInt64 (format_int i) = Inr i"
  by (simp add: parseInt64_def parse_format_int Let_def)

text \<open>The fields of a trade record up to the accumulated volume; \<open>dirn\<close> is the direction
  of the change, \<open>rate\<close> the text of its rate, \<open>avg\<close> an unread field.\<close>

definition trade_fields :: "string \<Rightarrow> string \<Rightarrow> string \<Rightarrow> stock_trade_msg \<Rightarrow> string list" where
  "trade_fields dirn rate avg t =
     [st_Code t, st_ExecTime t, format_int (st_Price t), dirn, format_int (st_Change t), rate, avg,
      format_int (st_Open t), format_int (st_High t), format_int (st_Low t),
      format_int (st_AskPrice t), format_int (st_BidPrice t), format_int (st_Volume t),
      format_int (st_AccVolume t)]"

definition trade_in64 :: "stock_trade_msg \<Rightarrow> bool" where
  "trade_in64 t \<longleftrightarrow> in64 (st_Price t) \<and> in64 (st_Change t) \<and> in64 (st_Open t) \<and> in64 (st_High t) \<and>
     in64 (st_Low t) \<and> in64 (st_AskPrice t) \<and> in64 (st_BidPrice t) \<and> in64 (st_Volume t) \<and>
     in64 (st_AccVolume t)"

lemma parseStockTrade_wire:
  assumes "caret_free (trade_fields dirn rate avg t @ extra)" and "trade_in64 t"
    and "decimal_val (trim_space rate) = Some (rat_of_int (st_ChangeRate t) / 10000)"
    and "\<bar>st_ChangeRate t\<bar> \<le> 1000000000000000"
  shows "parseStockTrade impl (join_on fieldSeparator (trade_fields dirn rate avg t @ extra)) =
    Inr [t\<lparr>st_Change := (if is_fall dirn then wrap64 (- st_Change t) else st_Change t),
           st_ChangeRate := (if is_fall dirn then - st_ChangeRate t else st_ChangeRate t)\<rparr>]"
proof -
  let ?fs = "trade_fields dirn rate avg t @ extra"
  have s: "split_on fieldSeparator (join_on fieldSeparator ?fs) = ?fs"
    by (rule split_wire_fields) (use assms(1) in \<open>simp_all add: trade_fields_def\<close>)
  have r: "parseRate impl rate = Inr (st_ChangeRate t)" by (rule parseRate_decimal) (fact assms)+
  have "in64 (- st_ChangeRate t)" using assms(4) by (simp add: in64_def abs_le_iff)
  then show ?thesis
    unfolding parseStockTrade_def s Let_def
    using assms(2) r by (cases t) (simp add: trade_fields_def trade_in64_def)
qed

text \<open>A trade message: whatever its count says, only the first record of the body is read.\<close>

lemma OnMessage_trade:
  assumes "pipe_free flag" and "flag \<noteq> []" and "hd flag \<noteq> CHR ''{''" and "pipe_free count"
    and "parse_int count = Inr n"
    and "caret_free (trade_fields dirn rate avg t @ extra)" and "trade_in64 t"
    and "decimal_val (trim_space rate) = Some (rat_of_int (st_ChangeRate t) / 10000)"
    and "\<bar>st_ChangeRate t\<bar> \<le> 1000000000000000"
  shows "OnMessage impl local cbc unmarshal now b
      (wire flag trIDStockTrade count (join_on fieldSeparator (trade_fields dirn rate avg t @ extra))) =
    Some (b\<lparr>kb_tradeBreaker := (kb_tradeBreaker b)\<lparr>br_count := 0, br_opened := False\<rparr>\<rparr>,
      [Emit (BcTick \<lparr>te_AccountID = xb_AccountID (kb_base b), te_Broker = xb_Broker (kb_base b),
         te_Code = st_Code t, te_Price = st_Price t, te_Volume = st_Volume t,
         te_AccVolume = st_AccVolume t,
         te_Change = (if is_fall dirn then wrap64 (- st_Change t) else st_Change t),
         te_ChangeRate = (if is_fall dirn then - st_ChangeRate t else st_ChangeRate t),
         te_TradeTime = st_ExecTime t, te_ReceivedAt = now\<rparr>)])"
  unfolding OnMessage_wire [OF assms(3,2)]
  using assms(5) parseStockTrade_wire [OF assms(6-9)]
    parseRawMessage_wire [OF assms(1) tr_ids_pipe_free(1) assms(4)]
  by (simp add: handlePipeMessage_def handle_trade_def br_Success_def tick_of_trade_def Let_def)

text \<open>C10. A trade on the wire reaches the engine as it was sent. For every message with one
  trade record written in the KIS format -- whole 64-bit numbers, a rate with at most four
  decimals, any further fields after the fourteenth -- the broker emits exactly one tick, with the
  code, price, volumes and time of the record and the change and rate negated exactly when the
  direction field is a fall or a lower limit, and its trade breaker has no failure left. The count
  of the message is one: of a message with several records, which the comment on
  \<open>parseStockTrade\<close> wants to be read, all but the first are lost (\<open>kis_trade_records_lost\<close>).\<close>

theorem kis_trade_to_tick:
  assumes "pipe_free flag" and "flag \<noteq> []" and "hd flag \<noteq> CHR ''{''" and "pipe_free count"
    and "parse_int count = Inr 1"
    and "caret_free (trade_fields dirn rate avg t @ extra)" and "trade_in64 t"
    and "decimal_val (trim_space rate) = Some (rat_of_int (st_ChangeRate t) / 10000)"
    and "\<bar>st_ChangeRate t\<bar> \<le> 1000000000000000"
  shows "OnMessage impl local cbc unmarshal now b
      (wire flag trIDStockTrade count (join_on fieldSeparator (trade_fields dirn rate avg t @ extra))) =
    Some (b\<lparr>kb_tradeBreaker := (kb_tradeBreaker b)\<lparr>br_count := 0, br_opened := False\<rparr>\<rparr>,
      [Emit (BcTick \<lparr>te_AccountID = xb_AccountID (kb_base b), te_Broker = xb_Broker (kb_base b),
         te_Code = st_Code t, te_Price = st_Price t, te_Volume = st_Volume t,
         te_AccVolume = st_AccVolume t,
         te_Change = (if is_fall dirn then wrap64 (- st_Change t) else st_Change t),
         te_ChangeRate = (if is_fall dirn then - st_ChangeRate t else st_ChangeRate t),
         te_TradeTime = st_ExecTime t, te_ReceivedAt = now\<rparr>)])"
  by (rule OnMessage_trade [OF assms])

definition sample_kis :: kis_broker where
  "sample_kis = \<lparr>kb_base = \<lparr>xb_AccountID = ''acct'', xb_Broker = ''kis'', xb_BaseURL = BaseURLReal,
     xb_IsPaper = False, xb_AssetType = ''stock'', xb_Channels = Some NewBrokerChannels\<rparr>,
     kb_appKey = ''k'', kb_appSecret = ''s'', kb_accountNo = ''50071022'', kb_accountSub = ''01'',
     kb_encKey = ''0123456789abcdef'', kb_encIV = ''fedcba9876543210'',
     kb_tradeBreaker = br_New 10, kb_quoteBreaker = br_New 10,
     kb_execBreaker = br_New 10, kb_decryptBreaker = br_New 3\<rparr>"

definition sample_stock_trade :: stock_trade_msg where
  "sample_stock_trade = \<lparr>st_Code = ''005930'', st_ExecTime = ''093015'', st_Price = 72000, st_Change = 900,
     st_ChangeRate = 12300, st_Open = 73000, st_High = 73100, st_Low = 71900, st_AskPrice = 72100,
     st_BidPrice = 72000, st_Volume = 15, st_AccVolume = 123456\<rparr>"

lemma caret_free_format [simp]:
  "caret_free (format_int i # fs) \<longleftrightarrow> caret_free fs"
  by (simp add: caret_free_def)

theorem kis_trade_to_tick_witness:
  "\<exists>b tick. OnMessage (\<lambda>_. 0) (\<lambda>_ _ _ _. 0) (\<lambda>_ _ d. d) (\<lambda>_. None) 7 sample_kis
     (wire ''0'' trIDStockTrade ''001''
       (join_on fieldSeparator (trade_fields ''5'' ''1.23'' ''72000.5'' sample_stock_trade @ [''x'']))) =
     Some (b, [Emit (BcTick tick)]) \<and> te_Price tick = 72000 \<and> te_Change tick = - 900 \<and>
     te_ChangeRate tick = - 12300"
proof -
  have "trim_space ''1.23'' = ''1.23''" "decimal_val ''1.23'' = Some (123 / 100)" by code_simp+
  then have d: "decimal_val (trim_space ''1.23'') = Some (rat_of_int (st_ChangeRate sample_stock_trade) / 10000)"
    by (simp add: sample_stock_trade_def)
  have c: "parse_int ''001'' = Inr 1"
    by (simp add: parse_int_def parse_uint_def digit_val_def Let_def)
  have f: "caret_free (trade_fields ''5'' ''1.23'' ''72000.5'' sample_stock_trade @ [''x''])"
    by (simp add: caret_free_def trade_fields_def sample_stock_trade_def)
  have i: "trade_in64 sample_stock_trade" by (simp add: trade_in64_def sample_stock_trade_def in64_def)
  have b: "\<bar>st_ChangeRate sample_stock_trade\<bar> \<le> 1000000000000000" by (simp add: sample_stock_trade_def)
  have fl: "pipe_free ''0''" "''0'' \<noteq> []" "hd ''0'' \<noteq> CHR ''{''" "pipe_free ''001''"
    by (simp_all add: pipe_free_def)
  note tick = kis_trade_to_tick [OF fl c f i d b, of "\<lambda>_. 0" "\<lambda>_ _ _ _. 0" "\<lambda>_ _ d. d"
    "\<lambda>_. None" 7 sample_kis]
  show ?thesis unfolding tick by (simp add: is_fall_def sample_stock_trade_def in64_def)
qed

text \<open>Records are lost: of a message with the count 2 and two complete records, the fields of the
  second after those of the first, the tick of the second is never sent.\<close>

theorem kis_trade_records_lost:
  assumes "rest = trade_fields dirn2 rate2 avg2 t2 @ pad2"
    and "caret_free (trade_fields dirn rate avg t @ pad @ rest)" and "trade_in64 t"
    and "decimal_val (trim_space rate) = Some (rat_of_int (st_ChangeRate t) / 10000)"
    and "\<bar>st_ChangeRate t\<bar> \<le> 1000000000000000" and "st_Code t2 \<noteq> st_Code t"
  shows "\<exists>b' tick. OnMessage impl local cbc unmarshal now b
      (wire ''0'' trIDStockTrade ''002'' (join_on fieldSeparator (trade_fields dirn rate avg t @ pad @ rest))) =
    Some (b', [Emit (BcTick tick)]) \<and> te_Code tick = st_Code t \<and> te_Code tick \<noteq> st_Code t2"
proof -
  have c: "parse_int ''002'' = Inr 2"
    by (simp add: parse_int_def parse_uint_def digit_val_def Let_def)
  have fl: "pipe_free ''0''" "''0'' \<noteq> []" "hd ''0'' \<noteq> CHR ''{''" "pipe_free ''002''"
    by (simp_all add: pipe_free_def)
  from OnMessage_trade [OF fl c assms(2-5)] assms(6) show ?thesis by simp
qed

theorem kis_trade_records_lost_witness:
  "\<exists>b' tick. OnMessage (\<lambda>_. 0) (\<lambda>_ _ _ _. 0) (\<lambda>_ _ d. d) (\<lambda>_. None) 7 sample_kis
      (wire ''0'' trIDStockTrade ''002'' (join_on fieldSeparator
        (trade_fields ''5'' ''1.23'' ''72000.5'' sample_stock_trade @ [''x''] @
         trade_fields ''2'' ''0.1'' ''1'' (sample_stock_trade\<lparr>st_Code := ''000660''\<rparr>) @ []))) =
    Some (b', [Emit (BcTick tick)]) \<and> te_Code tick = ''005930''"
proof -
  have "trim_space ''1.23'' = ''1.23''" "decimal_val ''1.23'' = Some (123 / 100)" by code_simp+
  then have d: "decimal_val (trim_space ''1.23'') = Some (rat_of_int (st_ChangeRate sample_stock_trade) / 10000)"
    by (simp add: sample_stock_trade_def)
  have f: "caret_free (trade_fields ''5'' ''1.23'' ''72000.5'' sample_stock_trade @ [''x''] @
      trade_fields ''2'' ''0.1'' ''1'' (sample_stock_trade\<lparr>st_Code := ''000660''\<rparr>) @ [])"
    by (simp add: caret_free_def trade_fields_def sample_stock_trade_def)
  have i: "trade_in64 sample_stock_trade" by (simp add: trade_in64_def sample_stock_trade_def in64_def)
  have b: "\<bar>st_ChangeRate sample_stock_trade\<bar> \<le> 1000000000000000"
    "st_Code (sample_stock_trade\<lparr>st_Code := ''000660''\<rparr>) \<noteq> st_Code sample_stock_trade"
    "st_Code sample_stock_trade = ''005930''" by (simp_all add: sample_stock_trade_def)
  from kis_trade_records_lost [OF refl f i d b(1,2)] b(3) show ?thesis by metis
qed

section \<open>Encrypted execution notices\<close>

text \<open>The fields of an execution notice: the customer code and the order type are not read.\<close>

definition notify_fields ::
    "string \<Rightarrow> string \<Rightarrow> string \<Rightarrow> string \<Rightarrow> string \<Rightarrow> stock_exec_notify \<Rightarrow> string list" where
  "notify_fields cust sideCode ordType statusCode tm n =
     [cust, sx_AccountNo n, sx_OrderNo n, sx_Code n, sideCode, ordType, statusCode,
      format_int (sx_Price n), format_int (sx_Quantity n), format_int (sx_TotalQty n),
      format_int (sx_RemainQty n), tm]"

definition notify_in64 :: "stock_exec_notify \<Rightarrow> bool" where
  "notify_in64 n \<longleftrightarrow> in64 (sx_Price n) \<and> in64 (sx_Quantity n) \<and> in64 (sx_TotalQty n) \<and> in64 (sx_RemainQty n)"

lemma parseStockExecNotify_wire:
  assumes "caret_free (notify_fields cust sideCode ordType statusCode tm n @ extra)" and "notify_in64 n"
    and "parseTime local tm = Inr (sx_ExecTime n)" and "kis_parseSide sideCode = Inr (sx_Side n)"
    and "exec_status statusCode = sx_Status n"
  shows "parseStockExecNotify impl local
     (join_on fieldSeparator (notify_fields cust sideCode ordType statusCode tm n @ extra)) = Inr n"
proof -
  let ?fs = "notify_fields cust sideCode ordType statusCode tm n @ extra"
  have s: "split_on fieldSeparator (join_on fieldSeparator ?fs) = ?fs"
    by (rule split_wire_fields) (use assms(1) in \<open>simp_all add: notify_fields_def\<close>)
  show ?thesis
    unfolding parseStockExecNotify_def s Let_def
    using assms(2-5) by (cases n) (simp add: notify_fields_def notify_in64_def)
qed

lemma decrypt_padded:
  assumes "\<And>d. length d mod 16 = 0 \<Longrightarrow> cbc key iv (enc d) = d"
    and "\<And>d. length d mod 16 = 0 \<Longrightarrow> length (enc d) = length d"
    and "length key \<in> {16, 24, 32}" and "length iv = 16"
  shows "decryptAES256CBC cbc (b64_encode (enc (pkcs7_pad body))) key iv = Some (Inr body)"
  using assms length_pkcs7_pad [of body] by (simp add: decryptAES256CBC_def b64_roundtrip)

lemma OnMessage_notice:
  assumes "\<And>d. length d mod 16 = 0 \<Longrightarrow> cbc (kb_encKey b) (kb_encIV b) (enc d) = d"
    and "\<And>d. length d mod 16 = 0 \<Longrightarrow> length (enc d) = length d"
    and "length (kb_encKey b) \<in> {16, 24, 32}" and "length (kb_encIV b) = 16"
    and "pipe_free count" and "parse_int count = Inr k"
    and "body = join_on fieldSeparator (notify_fields cust sideCode ordType statusCode tm n @ extra)"
    and "caret_free (notify_fields cust sideCode ordType statusCode tm n @ extra)" and "notify_in64 n"
    and "parseTime local tm = Inr (sx_ExecTime n)" and "kis_parseSide sideCode = Inr (sx_Side n)"
    and "exec_status statusCode = sx_Status n"
  shows "OnMessage impl local cbc unmarshal now b
      (wire ''1'' trIDStockExec count (b64_encode (enc (pkcs7_pad body)))) =
    Some (b\<lparr>kb_decryptBreaker := (kb_decryptBreaker b)\<lparr>br_count := 0, br_opened := False\<rparr>,
            kb_execBreaker := (kb_execBreaker b)\<lparr>br_count := 0, br_opened := False\<rparr>\<rparr>,
      [Emit (BcExec \<lparr>xe_AccountID = xb_AccountID (kb_base b), xe_Broker = xb_Broker (kb_base b),
         xe_OrderID = sx_OrderNo n, xe_Code = sx_Code n, xe_Side = sx_Side n, xe_Price = sx_Price n,
         xe_Quantity = sx_Quantity n, xe_RemainQty = sx_RemainQty n, xe_TotalQty = sx_TotalQty n,
         xe_Status = sx_Status n, xe_ExecTime = sx_ExecTime n, xe_ReceivedAt = now\<rparr>)])"
proof -
  have one: "hd ''1'' \<noteq> CHR ''{''" "''1'' \<noteq> []" "pipe_free ''1''" by (simp_all add: pipe_free_def)
  note p = parseStockExecNotify_wire [OF assms(8-12), of impl]
  note d = decrypt_padded [of cbc "kb_encKey b" "kb_encIV b" enc body, OF assms(1-4)]
  note r = parseRawMessage_wire [OF one(3) tr_ids_pipe_free(3) assms(5)]
  show ?thesis
    unfolding OnMessage_wire [OF one(1,2)] handlePipeMessage_def r
    using p d assms(6)
    by (simp add: assms(7) handle_exec_def handle_notify_def br_Success_def exec_of_notify_def Let_def)
qed

text \<open>C11. An encrypted execution notice reaches the engine as it was sent. Let \<open>enc\<close> be the
  server's encryption under the key and vector that the broker holds, which the decryption
  inverts on whole blocks and which keeps the length. Then the notice -- padded,
  encrypted, encoded in Base64 and framed -- makes the broker emit exactly one execution
  event, with the order number, code, side, price, quantities, status and time of the
  notice, and neither the decryption nor the notice breaker has a failure left.\<close>

theorem kis_notice_to_exec:
  assumes "\<And>d. length d mod 16 = 0 \<Longrightarrow> cbc (kb_encKey b) (kb_encIV b) (enc d) = d"
    and "\<And>d. length d mod 16 = 0 \<Longrightarrow> length (enc d) = length d"
    and "length (kb_encKey b) \<in> {16, 24, 32}" and "length (kb_encIV b) = 16"
    and "pipe_free count" and "parse_int count = Inr k"
    and "body = join_on fieldSeparator (notify_fields cust sideCode ordType statusCode tm n @ extra)"
    and "caret_free (notify_fields cust sideCode ordType statusCode tm n @ extra)" and "notify_in64 n"
    and "parseTime local tm = Inr (sx_ExecTime n)" and "kis_parseSide sideCode = Inr (sx_Side n)"
    and "exec_status statusCode = sx_Status n"
  shows "OnMessage impl local cbc unmarshal now b
      (wire ''1'' trIDStockExec count (b64_encode (enc (pkcs7_pad body)))) =
    Some (b\<lparr>kb_decryptBreaker := (kb_decryptBreaker b)\<lparr>br_count := 0, br_opened := False\<rparr>,
            kb_execBreaker := (kb_execBreaker b)\<lparr>br_count := 0, br_opened := False\<rparr>\<rparr>,
      [Emit (BcExec \<lparr>xe_AccountID = xb_AccountID (kb_base b), xe_Broker = xb_Broker (kb_base b),
         xe_OrderID = sx_OrderNo n, xe_Code = sx_Code n, xe_Side = sx_Side n, xe_Price = sx_Price n,
         xe_Quantity = sx_Quantity n, xe_RemainQty = sx_RemainQty n, xe_TotalQty = sx_TotalQty n,
         xe_Status = sx_Status n, xe_ExecTime = sx_ExecTime n, xe_ReceivedAt = now\<rparr>)])"
  by (rule OnMessage_notice) (fact assms)+

definition sample_notify :: stock_exec_notify where
  "sample_notify = \<lparr>sx_AccountNo = ''5007102201'', sx_OrderNo = ''0001234'', sx_Code = ''005930'',
     sx_Side = Buy, sx_Price = 72000, sx_Quantity = 3, sx_TotalQty = 10, sx_RemainQty = 7,
     sx_Status = ''partial'', sx_ExecTime = 34215\<rparr>"

text \<open>The identity stands in for the cipher.\<close>

theorem kis_notice_to_exec_witness:
  "\<exists>b ev. OnMessage (\<lambda>_. 0) (\<lambda>h m s _. int (3600 * h + 60 * m + s)) (\<lambda>_ _ d. d) (\<lambda>_. None) 7 sample_kis
     (wire ''1'' trIDStockExec ''001'' (b64_encode (pkcs7_pad (join_on fieldSeparator
        (notify_fields ''P'' ''02'' ''00'' ''03'' ''093015'' sample_notify @ []))))) =
     Some (b, [Emit (BcExec ev)]) \<and> xe_OrderID ev = ''0001234'' \<and> xe_Side ev = Buy \<and>
     xe_Quantity ev = 3 \<and> xe_Status ev = StatusPartial"
proof -
  have c: "parse_int ''001'' = Inr 1" "pipe_free ''001''"
    by (simp_all add: parse_int_def parse_uint_def digit_val_def Let_def pipe_free_def)
  have f: "caret_free (notify_fields ''P'' ''02'' ''00'' ''03'' ''093015'' sample_notify @ [])"
    by (simp add: caret_free_def notify_fields_def sample_notify_def)
  have i: "notify_in64 sample_notify" by (simp add: notify_in64_def sample_notify_def in64_def)
  have t: "parseTime (\<lambda>h m s _. int (3600 * h + 60 * m + s)) ''093015'' = Inr (sx_ExecTime sample_notify)"
    by (simp add: parseTime_def two_digits_def digit_val_def fraction_ns_def sample_notify_def)
  have s: "kis_parseSide ''02'' = Inr (sx_Side sample_notify)" "exec_status ''03'' = sx_Status sample_notify"
    by (simp_all add: kis_parseSide_def exec_status_def sample_notify_def)
  have k: "length (kb_encKey sample_kis) \<in> {16, 24, 32}" "length (kb_encIV sample_kis) = 16"
    by (simp_all add: sample_kis_def)
  note ev = kis_notice_to_exec [where enc = "\<lambda>d. d" and cbc = "\<lambda>_ _ d. d", OF refl refl k c(2,1) refl f i t s,
    of "\<lambda>_. 0" "\<lambda>_. None" 7]
  show ?thesis unfolding ev by (simp add: sample_notify_def)
qed

section \<open>Repeated parse failures\<close>

definition bad_trade :: "(rat \<Rightarrow> int) \<Rightarrow> string \<Rightarrow> bool" where
  "bad_trade impl msg \<longleftrightarrow> msg \<noteq> [] \<and> hd msg \<noteq> CHR ''{'' \<and> CHR ''|'' \<in> set msg \<and>
     (case parseRawMessage msg of
        Inl _ \<Rightarrow> False
      | Inr parsed \<Rightarrow> pm_TrID parsed = trIDStockTrade \<and>
          (case parseStockTrade impl (pm_Body parsed) of Inl _ \<Rightarrow> True | Inr _ \<Rightarrow> False))"

lemma OnMessage_bad_trade:
  assumes "bad_trade impl msg"
  shows "OnMessage impl local cbc unmarshal now b msg =
    Some (b\<lparr>kb_tradeBreaker := fst (br_Fail (kb_tradeBreaker b))\<rparr>,
      breaker_outs (makeOnOpen now b ''TRADE_PARSE_FAIL'' tradeFailText) (snd (br_Fail (kb_tradeBreaker b))))"
proof -
  from assms obtain parsed err where "hd msg \<noteq> CHR ''{''" "CHR ''|'' \<in> set msg"
    and "parseRawMessage msg = Inr parsed" and "pm_TrID parsed = trIDStockTrade"
    and "parseStockTrade impl (pm_Body parsed) = Inl err"
    unfolding bad_trade_def by (auto split: sum.splits)
  then show ?thesis
    by (simp add: OnMessage_def handlePipeMessage_def handle_trade_def case_prod_beta Let_def)
qed

lemma bad_trades_open:
  assumes "\<forall>m\<in>set ms. bad_trade impl (snd m)" and "br_opened (kb_tradeBreaker b)"
  shows "runTransportMessages impl local cbc unmarshal ms b = Some (b, [])"
  using assms
proof (induction ms arbitrary: b)
  case (Cons m ms)
  obtain now msg where m: "m = (now, msg)" by (cases m)
  have "OnMessage impl local cbc unmarshal now b msg = Some (b, [])"
    using OnMessage_bad_trade [of impl msg local cbc unmarshal now b] Cons.prems m
    by (simp add: br_Fail_def)
  with Cons m show ?case by simp
qed simp

lemma bad_trades_closed:
  assumes "\<forall>m\<in>set ms. bad_trade impl (snd m)"
    and "kb_tradeBreaker b = \<lparr>br_threshold = 10, br_count = c, br_opened = False\<rparr>"
    and "0 \<le> c" and "c < 10"
  shows "runTransportMessages impl local cbc unmarshal ms b =
    Some (b\<lparr>kb_tradeBreaker := \<lparr>br_threshold = 10, br_count = min 10 (c + int (length ms)),
             br_opened = (10 \<le> c + int (length ms))\<rparr>\<rparr>,
      if 10 \<le> c + int (length ms)
      then [Emit (BcError (makeOnOpen (fst (ms ! nat (9 - c))) b ''TRADE_PARSE_FAIL'' tradeFailText))]
      else [])"
  using assms
proof (induction ms arbitrary: b c)
  case Nil
  then show ?case by simp
next
  case (Cons m ms)
  obtain now msg where m: "m = (now, msg)" by (cases m)
  have w: "wrap64 (c + 1) = c + 1" using Cons.prems(3,4) by (simp add: in64_def)
  let ?b = "b\<lparr>kb_tradeBreaker := \<lparr>br_threshold = 10, br_count = c + 1, br_opened = (c = 9)\<rparr>\<rparr>"
  let ?e = "makeOnOpen now b ''TRADE_PARSE_FAIL'' tradeFailText"
  have step: "OnMessage impl local cbc unmarshal now b msg =
      Some (?b, if c = 9 then [Emit (BcError ?e)] else [])"
    using OnMessage_bad_trade [of impl msg local cbc unmarshal now b] Cons.prems m w
    by (simp add: br_Fail_def Let_def)
  show ?case
  proof (cases "c = 9")
    case True
    have "runTransportMessages impl local cbc unmarshal ms ?b = Some (?b, [])"
      by (rule bad_trades_open) (use Cons.prems True in simp_all)
    with step True m show ?thesis by simp
  next
    case False
    have e: "makeOnOpen x ?b cd tx = makeOnOpen x b cd tx" for x cd tx
      by (simp add: makeOnOpen_def)
    have ih: "runTransportMessages impl local cbc unmarshal ms ?b =
      Some (?b\<lparr>kb_tradeBreaker := \<lparr>br_threshold = 10, br_count = min 10 (c + 1 + int (length ms)),
               br_opened = (10 \<le> c + 1 + int (length ms))\<rparr>\<rparr>,
        if 10 \<le> c + 1 + int (length ms)
        then [Emit (BcError (makeOnOpen (fst (ms ! nat (9 - (c + 1)))) ?b ''TRADE_PARSE_FAIL'' tradeFailText))]
        else [])"
      by (rule Cons.IH) (use Cons.prems False in simp_all)
    have "nat (9 - c) = Suc (nat (9 - (c + 1)))" using Cons.prems(4) False by linarith
    then show ?thesis using ih [unfolded e] step False m by (simp add: algebra_simps)
  qed
qed

text \<open>Ten trade messages in a row that do not parse are reported once. From a broker whose
  trade breaker is fresh, any number of such messages yields no tick and exactly one error
  event if there are at least ten of them -- stamped with the tenth -- and none otherwise;
  the breaker is then open exactly in the first case.\<close>

theorem kis_bad_trades_reported_once:
  assumes "list_all (\<lambda>m. bad_trade impl (snd m)) ms" and "kb_tradeBreaker b = br_New 10"
  shows "\<exists>b'. runTransportMessages impl local cbc unmarshal ms b =
      Some (b', if 10 \<le> length ms
                then [Emit (BcError (makeOnOpen (fst (ms ! 9)) b ''TRADE_PARSE_FAIL'' tradeFailText))]
                else []) \<and>
    (br_IsOpen (kb_tradeBreaker b') \<longleftrightarrow> 10 \<le> length ms)"
  using assms bad_trades_closed [of ms impl b 0 local cbc unmarshal]
  by (simp add: list_all_iff br_New_def br_IsOpen_def)

theorem kis_bad_trades_reported_once_witness:
  "\<exists>b'. runTransportMessages (\<lambda>_. 0) (\<lambda>_ _ _ _. 0) (\<lambda>_ _ d. d) (\<lambda>_. None)
     (replicate 12 (5, ''0|H0STCNT0|1|x'')) sample_kis =
     Some (b', [Emit (BcError (makeOnOpen 5 sample_kis ''TRADE_PARSE_FAIL'' tradeFailText))])"
proof -
  have "parseRawMessage (wire ''0'' ''H0STCNT0'' ''1'' ''x'') = 
      Inr \<lparr>pm_Encrypted = False, pm_TrID = ''H0STCNT0'', pm_Count = 1, pm_Body = ''x''\<rparr>"
    by (subst parseRawMessage_wire)
       (simp_all add: pipe_free_def parse_int_def parse_uint_def digit_val_def Let_def)
  then have "bad_trade (\<lambda>_. 0) ''0|H0STCNT0|1|x''"
    by (simp add: wire_def bad_trade_def parseStockTrade_def)
  then have "list_all (\<lambda>m. bad_trade (\<lambda>_. 0) (snd m)) (replicate 12 (5::int, ''0|H0STCNT0|1|x''))"
    by (simp add: list_all_iff)
  moreover have "kb_tradeBreaker sample_kis = br_New 10" by (simp add: sample_kis_def)
  ultimately show ?thesis
    using kis_bad_trades_reported_once [of "\<lambda>_. 0" "replicate 12 (5, ''0|H0STCNT0|1|x'')" sample_kis
      "\<lambda>_ _ _ _. 0" "\<lambda>_ _ d. d" "\<lambda>_. None"] by auto
qed

section \<open>A broker from the constructor\<close>

text \<open>The constructor drops the channels it is given: whatever channels the parameters
  hold, the new broker has none, so that the first trade message that parses makes it
  dereference a nil pointer instead of sending the tick.\<close>

theorem kis_new_drops_channels:
  assumes "kis_New requester connection p = Inr b" and "sp_Channels p = Some bc"
    and "parseStockTrade impl body = Inr [t]"
  shows "kis_deliver b (snd (handle_trade impl now b body)) = NilPanic \<and>
    bc_emit (sp_Channels p) (emits (snd (handle_trade impl now b body))) \<noteq> NilPanic"
proof -
  have n: "xb_Channels (kb_base b) = None" and br: "kb_tradeBreaker b = br_New 10"
    using assms(1) by (auto simp: kis_New_def split: option.splits prod.splits)
  have "emits (snd (handle_trade impl now b body)) = [BcTick (tick_of_trade now (kb_base b) t)]"
    using assms(3) br by (simp add: handle_trade_def br_Success_def br_New_def)
  then show ?thesis using n assms(2) by (simp add: kis_deliver_def split: option.splits)
qed

definition sample_params :: setup_params where
  "sample_params = \<lparr>sp_ID = ''acct'', sp_Broker = ''kis'', sp_IsPaper = True, sp_APIKey = ''k'',
     sp_APISecret = ''s'', sp_AccountNo = ''50071022-01'', sp_BaseURL = [],
     sp_Channels = Some NewBrokerChannels\<rparr>"

theorem kis_new_drops_channels_witness:
  "\<exists>b. kis_New None (\<lambda>_. None :: unit option) sample_params = Inr b \<and>
     kis_deliver b (snd (handle_trade (\<lambda>_. 0) 7 b ''A^090000^0^2^0^^^^^^^^^'')) = NilPanic"
proof -
  obtain b :: kis_broker where b: "kis_New None (\<lambda>_. None :: unit option) sample_params = Inr b"
    by (simp add: kis_New_def parseAccountNo_def sample_params_def numeral_eq_Suc)
  obtain t where t: "parseStockTrade (\<lambda>_. 0) ''A^090000^0^2^0^^^^^^^^^'' = Inr [t]"
    by (simp add: parseStockTrade_def parseKRWInt_def parseRate_def parseInt64_def is_fall_def
      trim_space_def is_space_def parse_int_def parse_uint_def digit_val_def Let_def)
  show ?thesis
    using b kis_new_drops_channels [OF b _ t, of NewBrokerChannels 7] by (simp add: sample_params_def)
qed

section \<open>Whose events\<close>

lemma breaker_outs_no_exec: "Emit (BcExec x) \<notin> set (breaker_outs e evs)"
  by (induction e evs rule: breaker_outs.induct) simp_all

lemma OnMessage_exec_account:
  assumes "OnMessage impl local cbc unmarshal now b msg = Some (b', outs)" and "Emit (BcExec x) \<in> set outs"
  shows "xe_AccountID x = xb_AccountID (kb_base b) \<and> xe_ReceivedAt x = now"
proof -
  have n: "xe_AccountID x = xb_AccountID (kb_base c) \<and> xe_ReceivedAt x = now"
    if "handle_notify impl local now c body = (c', os)" "Emit (BcExec x) \<in> set os" for c c' body os
    using that breaker_outs_no_exec
    by (auto simp: handle_notify_def exec_of_notify_def split: sum.splits prod.splits)
  have t: "Emit (BcExec x) \<notin> set (snd (handle_trade impl now b body))"
    "Emit (BcExec x) \<notin> set (snd (handle_quote impl now b body))" for body
    using breaker_outs_no_exec
    by (auto simp: handle_trade_def handle_quote_def split: sum.splits prod.splits)
  have j: "Emit (BcExec x) \<notin> set (snd (handleJSONMessage unmarshal b msg))"
    by (auto simp: handleJSONMessage_def split: option.splits)
  have e: "xe_AccountID x = xb_AccountID (kb_base b) \<and> xe_ReceivedAt x = now"
    if "handle_exec impl local cbc now b parsed = Some (b', outs)" for parsed
    using that assms(2) breaker_outs_no_exec
    by (auto simp: handle_exec_def split: if_splits option.splits sum.splits prod.splits dest!: n)
  show ?thesis
    using assms e unfolding OnMessage_def handlePipeMessage_def
    by (auto split: if_splits sum.splits) (metis t j snd_conv)+
qed

end
