(* ===== verification/KIS_Rest.thy ===== *)
theory KIS_Rest
  imports KIS_Broker
begin

text \<open>
  The REST side of the KIS broker: \<open>internal/adapter/broker/kis/rest.go\<close>, \<open>rest_types.go\<close>,
  \<open>auth.go\<close> and \<open>chart.go\<close>.

  The requester, the key store and the rate limiters are not part of the repository, and
  the JSON codec and the URL library work on text that the model keeps as structs. So
  \<open>send\<close>, an argument, is \<open>Requester.SendPayload\<close> together with the decoding of the answer:
  it gets what the payload generator returns, an item or the generator's error, and returns
  an error or the decoded response. \<open>mkURL\<close> is \<open>buildURL\<close> on the parameters, \<open>token\<close> what
  \<open>tokenStore.Get\<close> returns.
\<close>

section \<open>Requests and responses\<close>

abbreviation PathTokenIssue :: string where "PathTokenIssue \<equiv> ''/oauth2/tokenP''"
abbreviation PathApprovalKey :: string where "PathApprovalKey \<equiv> ''/oauth2/Approval''"
abbreviation PathPrice :: string where "PathPrice \<equiv> ''/uapi/domestic-stock/v1/quotations/inquire-price''"
abbreviation PathOrderCash :: string where "PathOrderCash \<equiv> ''/uapi/domestic-stock/v1/trading/order-cash''"
abbreviation PathBalance :: string where "PathBalance \<equiv> ''/uapi/domestic-stock/v1/trading/inquire-balance''"
abbreviation PathMinuteChart :: string where
  "PathMinuteChart \<equiv> ''/uapi/domestic-stock/v1/quotations/inquire-time-itemchartprice''"

abbreviation TrIDPrice :: string where "TrIDPrice \<equiv> ''FHKST01010100''"
abbreviation TrIDBuyReal :: string where "TrIDBuyReal \<equiv> ''TTTC0802U''"
abbreviation TrIDBuyPaper :: string where "TrIDBuyPaper \<equiv> ''VTTC0802U''"
abbreviation TrIDSellReal :: string where "TrIDSellReal \<equiv> ''TTTC0801U''"
abbreviation TrIDSellPaper :: string where "TrIDSellPaper \<equiv> ''VTTC0801U''"
abbreviation TrIDBalanceReal :: string where "TrIDBalanceReal \<equiv> ''TTTC8434R''"
abbreviation TrIDBalancePaper :: string where "TrIDBalancePaper \<equiv> ''VTTC8434R''"
abbreviation TrIDMinuteChart :: string where "TrIDMinuteChart \<equiv> ''FHKST03010230''"

record kis_response =
  kr_RtCd :: string
  kr_MsgCd :: string
  kr_Msg1 :: string

record price_response = kis_response +
  pr_StckPrpr :: string
  pr_StckOprc :: string
  pr_StckHgpr :: string
  pr_StckLwpr :: string
  pr_StckSdpr :: string
  pr_AcmlVol :: string
  pr_PrdyVrss :: string
  pr_PrdyCtrt :: string

record kis_order_request =
  ko_CANO :: string
  ko_ACNT :: string
  ko_PDNO :: string
  ko_OrdDvSn :: string
  ko_OrdQty :: string
  ko_OrdUnpr :: string

record kis_order_response = kis_response +
  kor_OrdNo :: string
  kor_OrdTmd :: string

record balance_holding =
  bh_Pdno :: string
  bh_PrdtNm :: string
  bh_HldgQty :: string
  bh_PchsAvgPric :: string
  bh_Prpr :: string
  bh_EvluPflsAmt :: string
  bh_EvluPflsRt :: string

record balance_summary =
  bs_TotEvluAmt :: string
  bs_DncaTotAmt :: string

record balance_response = kis_response +
  brs_Output1 :: "balance_holding list"
  brs_Output2 :: "balance_summary list"

record token_request =
  tq_GrantType :: string
  tq_AppKey :: string
  tq_AppSecret :: string

datatype rest_body = OrderBody kis_order_request | TokenBody token_request | ApprovalBody token_request

record rest_request =
  rq_method :: string
  rq_path :: string
  rq_trID :: string
  rq_bodyReq :: "rest_body option"

record rest_item =
  ri_Method :: string
  ri_Path :: string
  ri_Headers :: "(string \<times> string) list"
  ri_Body :: "rest_body option"

record kis_api_error =
  ke_RtCd :: string
  ke_MsgCd :: string
  ke_Msg :: string

datatype 'e rest_error =
    RequestError 'e
  | ApiError kis_api_error
  | ParsingError string num_error
  | HoldingError string string num_error
  | NotImplemented string
  | EmptyKey

definition isSuccess :: "'a kis_response_scheme \<Rightarrow> bool" where
  "isSuccess r \<longleftrightarrow> kr_RtCd r = ''0''"

definition CheckError :: "'a kis_response_scheme \<Rightarrow> kis_api_error option" where
  "CheckError r = (if isSuccess r then None
     else Some \<lparr>ke_RtCd = kr_RtCd r, ke_MsgCd = kr_MsgCd r, ke_Msg = kr_Msg1 r\<rparr>)"

definition sendREST ::
    "('e + rest_item \<Rightarrow> 'e + 'a kis_response_scheme) \<Rightarrow> 'e + string \<Rightarrow> kis_broker \<Rightarrow> rest_request \<Rightarrow>
      'e rest_error + 'a kis_response_scheme" where
  "sendREST send token b req =
     (let gen = (case token of
          Inl e \<Rightarrow> Inl e
        | Inr tok \<Rightarrow> Inr \<lparr>ri_Method = rq_method req, ri_Path = rq_path req,
            ri_Headers = [(''authorization'', ''Bearer '' @ tok), (''appkey'', kb_appKey b),
              (''appsecret'', kb_appSecret b), (''tr_id'', rq_trID req),
              (''Content-Type'', ''application/json; charset=utf-8'')],
            ri_Body = rq_bodyReq req\<rparr>)
      in case send gen of
           Inl e \<Rightarrow> Inl (RequestError e)
         | Inr resp \<Rightarrow> (case CheckError resp of Some err \<Rightarrow> Inl (ApiError err) | None \<Rightarrow> Inr resp))"

section \<open>Prices, orders and balances\<close>

definition parsing :: "string \<Rightarrow> num_error + 'a \<Rightarrow> 'e rest_error + 'a" where
  "parsing what r = (case r of Inl e \<Rightarrow> Inl (ParsingError what e) | Inr x \<Rightarrow> Inr x)"

definition parsePrice :: "(rat \<Rightarrow> int) \<Rightarrow> go_time \<Rightarrow> string \<Rightarrow> price_response \<Rightarrow> 'e rest_error + exch_price" where
  "parsePrice impl now code resp =
     bindE (parsing ''current price'' (parseKRWInt impl (pr_StckPrpr resp))) (\<lambda>current.
     bindE (parsing ''open'' (parseKRWInt impl (pr_StckOprc resp))) (\<lambda>opn.
     bindE (parsing ''high'' (parseKRWInt impl (pr_StckHgpr resp))) (\<lambda>high.
     bindE (parsing ''low'' (parseKRWInt impl (pr_StckLwpr resp))) (\<lambda>low.
     bindE (parsing ''prev close'' (parseKRWInt impl (pr_StckSdpr resp))) (\<lambda>prevClose.
     bindE (parsing ''volume'' (parseInt64 (pr_AcmlVol resp))) (\<lambda>volume.
     bindE (parsing ''change'' (parseKRWInt impl (pr_PrdyVrss resp))) (\<lambda>change.
     bindE (parsing ''change pct'' (parseRate impl (pr_PrdyCtrt resp))) (\<lambda>changePct.
     Inr \<lparr>xp_Code = code, xp_Current = current, xp_Open = opn, xp_High = high, xp_Low = low,
          xp_PrevClose = prevClose, xp_Volume = volume, xp_Change = change, xp_ChangePct = changePct,
          xp_Timestamp = now\<rparr>))))))))"

definition kis_GetPrice ::
    "(rat \<Rightarrow> int) \<Rightarrow> go_time \<Rightarrow> ('e + rest_item \<Rightarrow> 'e + price_response) \<Rightarrow>
     (string \<Rightarrow> string \<Rightarrow> (string \<times> string) list \<Rightarrow> 'e + string) \<Rightarrow> 'e + string \<Rightarrow> kis_broker \<Rightarrow> string \<Rightarrow> 'e rest_error + exch_price" where
  "kis_GetPrice impl now send mkURL token b code =
     (case mkURL (xb_BaseURL (kb_base b)) PathPrice
             [(''FID_COND_MRKT_DIV_CODE'', ''J''), (''FID_INPUT_ISCD'', code)] of
        Inl e \<Rightarrow> Inl (RequestError e)
      | Inr reqURL \<Rightarrow>
          bindE (sendREST send token b \<lparr>rq_method = ''GET'', rq_path = reqURL, rq_trID = TrIDPrice, rq_bodyReq = None\<rparr>)
            (\<lambda>resp. parsePrice impl now code resp))"

definition orderTrID :: "kis_broker \<Rightarrow> side \<Rightarrow> string" where
  "orderTrID b sd =
     (if xb_IsPaper (kb_base b) then (if sd = Buy then TrIDBuyPaper else TrIDSellPaper)
      else if sd = Buy then TrIDBuyReal else TrIDSellReal)"

definition order_body :: "kis_broker \<Rightarrow> order_request \<Rightarrow> kis_order_request" where
  "order_body b req =
     (let market = (orq_Type req = Market)
      in \<lparr>ko_CANO = kb_accountNo b, ko_ACNT = kb_accountSub b, ko_PDNO = orq_Code req,
          ko_OrdDvSn = (if market then ''01'' else ''00''), ko_OrdQty = format_int (orq_Quantity req),
          ko_OrdUnpr = (if market then ''0'' else format_int (orq_Price req))\<rparr>)"

definition kis_PlaceOrder ::
    "go_time \<Rightarrow> ('e + rest_item \<Rightarrow> 'e + kis_order_response) \<Rightarrow> 'e + string \<Rightarrow> kis_broker \<Rightarrow> order_request \<Rightarrow>
      'e rest_error + order_response" where
  "kis_PlaceOrder now send token b req =
     bindE (sendREST send token b \<lparr>rq_method = ''POST'', rq_path = xb_BaseURL (kb_base b) @ PathOrderCash,
         rq_trID = orderTrID b (orq_Side req), rq_bodyReq = Some (OrderBody (order_body b req))\<rparr>)
       (\<lambda>resp. Inr \<lparr>ors_OrderID = kor_OrdNo resp, ors_Code = orq_Code req, ors_Side = orq_Side req,
          ors_Type = orq_Type req, ors_Quantity = orq_Quantity req, ors_Price = orq_Price req,
          ors_Status = StatusOpen, ors_CreatedAt = now\<rparr>)"

definition kis_GetOrderbook :: "'e rest_error" where "kis_GetOrderbook = NotImplemented ''GetOrderbook''"
definition kis_GetCandles :: "'e rest_error" where "kis_GetCandles = NotImplemented ''GetCandles''"
definition kis_CancelOrder :: "'e rest_error" where "kis_CancelOrder = NotImplemented ''CancelOrder''"
definition kis_GetOpenOrders :: "'e rest_error" where "kis_GetOpenOrders = NotImplemented ''GetOpenOrders''"
definition kis_GetOrderHistory :: "'e rest_error" where "kis_GetOrderHistory = NotImplemented ''GetOrderHistory''"

definition in_holding :: "balance_holding \<Rightarrow> string \<Rightarrow> num_error + 'a \<Rightarrow> 'e rest_error + 'a" where
  "in_holding h what r = (case r of Inl e \<Rightarrow> Inl (HoldingError (bh_Pdno h) what e) | Inr x \<Rightarrow> Inr x)"

definition parseHolding :: "(rat \<Rightarrow> int) \<Rightarrow> balance_holding \<Rightarrow> 'e rest_error + holding" where
  "parseHolding impl h =
     bindE (in_holding h ''quantity'' (parseInt64 (bh_HldgQty h))) (\<lambda>qty.
     bindE (in_holding h ''avg cost'' (parseKRWInt impl (bh_PchsAvgPric h))) (\<lambda>avgCost.
     bindE (in_holding h ''current price'' (parseKRWInt impl (bh_Prpr h))) (\<lambda>curPrice.
     bindE (in_holding h ''pnl'' (parseKRWInt impl (bh_EvluPflsAmt h))) (\<lambda>pnl.
     bindE (in_holding h ''pnl pct'' (parseRate impl (bh_EvluPflsRt h))) (\<lambda>pnlPct.
     Inr \<lparr>ho_Code = bh_Pdno h, ho_Name = bh_PrdtNm h, ho_Quantity = qty, ho_AvgCost = avgCost,
          ho_CurrentPrice = curPrice, ho_PnL = pnl, ho_PnLPct = pnlPct\<rparr>)))))"

fun parse_holdings :: "(rat \<Rightarrow> int) \<Rightarrow> balance_holding list \<Rightarrow> 'e rest_error + holding list" where
  "parse_holdings impl [] = Inr []"
| "parse_holdings impl (h # hs) =
     bindE (parseHolding impl h) (\<lambda>x. bindE (parse_holdings impl hs) (\<lambda>xs. Inr (x # xs)))"

definition kis_GetBalance ::
    "(rat \<Rightarrow> int) \<Rightarrow> ('e + rest_item \<Rightarrow> 'e + balance_response) \<Rightarrow>
     (string \<Rightarrow> string \<Rightarrow> (string \<times> string) list \<Rightarrow> 'e + string) \<Rightarrow> 'e + string \<Rightarrow> kis_broker \<Rightarrow> 'e rest_error + balance" where
  "kis_GetBalance impl send mkURL token b =
     (let trID = (if xb_IsPaper (kb_base b) then TrIDBalancePaper else TrIDBalanceReal)
      in case mkURL (xb_BaseURL (kb_base b)) PathBalance
                [(''CANO'', kb_accountNo b), (''ACNT_PRDT_CD'', kb_accountSub b), (''AFHR_FLPR_YN'', ''N''),
                 (''OFL_YN'', []), (''INQR_DVSN'', ''02''), (''UNPR_DVSN'', ''01''),
                 (''FUND_STTL_ICLD_YN'', ''N''), (''FNCG_AMT_AUTO_RDPT_YN'', ''N''), (''PRCS_DVSN'', ''01''),
                 (''CTX_AREA_FK100'', []), (''CTX_AREA_NK100'', [])] of
           Inl e \<Rightarrow> Inl (RequestError e)
         | Inr reqURL \<Rightarrow>
             bindE (sendREST send token b \<lparr>rq_method = ''GET'', rq_path = reqURL, rq_trID = trID, rq_bodyReq = None\<rparr>) (\<lambda>resp.
             bindE (parse_holdings impl (brs_Output1 resp)) (\<lambda>hs.
             case brs_Output2 resp of
               [] \<Rightarrow> Inr \<lparr>ba_TotalAsset = 0, ba_CashBalance = 0, ba_Holdings = hs\<rparr>
             | s # _ \<Rightarrow>
                 bindE (parsing ''total asset'' (parseKRWInt impl (bs_TotEvluAmt s))) (\<lambda>ta.
                 bindE (parsing ''cash balance'' (parseKRWInt impl (bs_DncaTotAmt s))) (\<lambda>cb.
                 Inr \<lparr>ba_TotalAsset = ta, ba_CashBalance = cb, ba_Holdings = hs\<rparr>)))))"

section \<open>Tokens\<close>

record key_info =
  ki_Value :: string
  ki_ExpiresAt :: go_time

record token_response =
  tr_AccessToken :: string
  tr_ExpiresIn :: int

abbreviation second :: int where "second \<equiv> 1000000000"
abbreviation tokenExpiryMargin :: int where "tokenExpiryMargin \<equiv> 600000000000"
abbreviation ApprovalKeyValidity :: int where "ApprovalKeyValidity \<equiv> 86400000000000"

definition issueToken ::
    "go_time \<Rightarrow> (rest_item \<Rightarrow> 'e + token_response) \<Rightarrow> kis_broker \<Rightarrow> 'e rest_error + key_info" where
  "issueToken now send b =
     (case send \<lparr>ri_Method = ''POST'', ri_Path = xb_BaseURL (kb_base b) @ PathTokenIssue,
              ri_Headers = [(''Content-Type'', ''application/json'')],
              ri_Body = Some (TokenBody \<lparr>tq_GrantType = ''client_credentials'', tq_AppKey = kb_appKey b,
                tq_AppSecret = kb_appSecret b\<rparr>)\<rparr> of
        Inl e \<Rightarrow> Inl (RequestError e)
      | Inr resp \<Rightarrow>
          if tr_AccessToken resp = [] then Inl EmptyKey
          else Inr \<lparr>ki_Value = tr_AccessToken resp,
                 ki_ExpiresAt = now + wrap64 (wrap64 (tr_ExpiresIn resp * second) - tokenExpiryMargin)\<rparr>)"

definition issueApprovalKey ::
    "go_time \<Rightarrow> (rest_item \<Rightarrow> 'e + string) \<Rightarrow> kis_broker \<Rightarrow> 'e rest_error + key_info" where
  "issueApprovalKey now send b =
     (case send \<lparr>ri_Method = ''POST'', ri_Path = xb_BaseURL (kb_base b) @ PathApprovalKey,
              ri_Headers = [(''Content-Type'', ''application/json; utf-8'')],
              ri_Body = Some (ApprovalBody \<lparr>tq_GrantType = ''client_credentials'', tq_AppKey = kb_appKey b,
                tq_AppSecret = kb_appSecret b\<rparr>)\<rparr> of
        Inl e \<Rightarrow> Inl (RequestError e)
      | Inr approvalKey \<Rightarrow>
          if approvalKey = [] then Inl EmptyKey
          else Inr \<lparr>ki_Value = approvalKey,
                 ki_ExpiresAt = now + (ApprovalKeyValidity - tokenExpiryMargin)\<rparr>)"

section \<open>Orders on the wire\<close>

lemma sendREST_Inr:
  "sendREST send token b req = Inr resp \<Longrightarrow> kr_RtCd resp = ''0''"
  by (auto simp: sendREST_def CheckError_def isSuccess_def Let_def split: sum.splits if_splits)

lemma kis_PlaceOrder_Inr:
  assumes "kis_PlaceOrder now send token b req = Inr r"
  shows "ors_Code r = orq_Code req \<and> ors_Side r = orq_Side req \<and> ors_Quantity r = orq_Quantity req \<and>
    ors_Price r = orq_Price req \<and> ors_Status r = StatusOpen \<and> ors_CreatedAt r = now"
  using assms by (auto simp: kis_PlaceOrder_def bindE_Inr)

text \<open>The one request that placing an order sends.\<close>

definition order_item :: "string \<Rightarrow> kis_broker \<Rightarrow> order_request \<Rightarrow> rest_item" where
  "order_item tok b req = \<lparr>ri_Method = ''POST'', ri_Path = xb_BaseURL (kb_base b) @ PathOrderCash,
    ri_Headers = [(''authorization'', ''Bearer '' @ tok), (''appkey'', kb_appKey b),
      (''appsecret'', kb_appSecret b), (''tr_id'', orderTrID b (orq_Side req)),
      (''Content-Type'', ''application/json; charset=utf-8'')],
    ri_Body = Some (OrderBody (order_body b req))\<rparr>"

text \<open>How the exchange reads a request: the transaction ID gives the side and the
  environment, the division code the type of the order (\<open>rest_types.go\<close>).\<close>

record exchange_order =
  xo_Account :: "string \<times> string"
  xo_Paper :: bool
  xo_Order :: order_request

definition read_order :: "rest_item \<Rightarrow> exchange_order option" where
  "read_order it =
     (case ri_Body it of
        Some (OrderBody body) \<Rightarrow>
          (case (Option.bind (map_of (ri_Headers it) ''tr_id'')
                   (map_of [(TrIDBuyReal, False, Buy), (TrIDSellReal, False, Sell),
                            (TrIDBuyPaper, True, Buy), (TrIDSellPaper, True, Sell)]),
                 map_of [(''00'', Limit), (''01'', Market)] (ko_OrdDvSn body),
                 parse_int (ko_OrdQty body), parse_int (ko_OrdUnpr body)) of
             (Some (paper, sd), Some ty, Inr qty, Inr price) \<Rightarrow>
               Some \<lparr>xo_Account = (ko_CANO body, ko_ACNT body), xo_Paper = paper,
                 xo_Order = \<lparr>orq_Code = ko_PDNO body, orq_Side = sd, orq_Type = ty, orq_Quantity = qty,
                   orq_Price = price\<rparr>\<rparr>
           | _ \<Rightarrow> None)
      | _ \<Rightarrow> None)"

text \<open>C13. What the exchange gets for an order. With a token at hand, placing a limit or market
  order to buy or sell sends one request, to the order address of the environment with the
  credentials of the broker, and the exchange reads it as the order that was placed: the two parts
  of the account, the environment, issue, side, type and quantity, and the price, which is zero
  for a market order. The outcome is the exchange's order number with the order's own
  data when the answer code is zero, and an error in every other case.\<close>

theorem kis_order_on_the_wire:
  assumes "in64 (orq_Quantity req)" and "in64 (orq_Price req)" and "orq_Side req = Buy \<or> orq_Side req = Sell"
    and "orq_Type req = Limit \<or> orq_Type req = Market"
  shows "\<exists>item. ri_Method item = ''POST'' \<and> ri_Path item = xb_BaseURL (kb_base b) @ PathOrderCash \<and>
    map_of (ri_Headers item) ''authorization'' = Some (''Bearer '' @ tok) \<and>
    map_of (ri_Headers item) ''appkey'' = Some (kb_appKey b) \<and>
    map_of (ri_Headers item) ''appsecret'' = Some (kb_appSecret b) \<and>
    read_order item = Some \<lparr>xo_Account = (kb_accountNo b, kb_accountSub b), xo_Paper = xb_IsPaper (kb_base b),
      xo_Order = req\<lparr>orq_Price := (if orq_Type req = Market then 0 else orq_Price req)\<rparr>\<rparr> \<and>
    (\<forall>now send. kis_PlaceOrder now send (Inr tok) b req =
      (case send (Inr item) of
         Inl e \<Rightarrow> Inl (RequestError e)
       | Inr resp \<Rightarrow>
           if kr_RtCd resp = ''0'' then
             Inr \<lparr>ors_OrderID = kor_OrdNo resp, ors_Code = orq_Code req, ors_Side = orq_Side req,
                  ors_Type = orq_Type req, ors_Quantity = orq_Quantity req, ors_Price = orq_Price req,
                  ors_Status = StatusOpen, ors_CreatedAt = now\<rparr>
           else Inl (ApiError \<lparr>ke_RtCd = kr_RtCd resp, ke_MsgCd = kr_MsgCd resp, ke_Msg = kr_Msg1 resp\<rparr>)))"
proof (intro exI [of _ "order_item tok b req"] conjI allI)
  have zero: "parse_int ''0'' = Inr 0" by (simp add: parse_int_def parse_uint_def digit_val_def Let_def)
  show "read_order (order_item tok b req) = Some \<lparr>xo_Account = (kb_accountNo b, kb_accountSub b),
      xo_Paper = xb_IsPaper (kb_base b),
      xo_Order = req\<lparr>orq_Price := (if orq_Type req = Market then 0 else orq_Price req)\<rparr>\<rparr>"
    using assms zero
    by (cases req) (auto simp: read_order_def order_item_def order_body_def Let_def parse_format_int orderTrID_def)
qed (auto simp: kis_PlaceOrder_def sendREST_def order_item_def CheckError_def isSuccess_def Let_def
  split: sum.splits)

definition sample_limit_order :: order_request where
  "sample_limit_order = \<lparr>orq_Code = ''005930'', orq_Side = Buy, orq_Type = Limit, orq_Quantity = 10, orq_Price = 72000\<rparr>"

lemma sample_limit_order_simps [simp]:
  "orq_Code sample_limit_order = ''005930''" "orq_Side sample_limit_order = Buy"
  "orq_Type sample_limit_order = Limit" "orq_Quantity sample_limit_order = 10"
  "orq_Price sample_limit_order = 72000"
  by (simp_all add: sample_limit_order_def)

theorem kis_order_on_the_wire_witness:
  "\<exists>item. read_order item = Some \<lparr>xo_Account = (''50071022'', ''01''), xo_Paper = False, xo_Order = sample_limit_order\<rparr> \<and>
    kis_PlaceOrder 5 (\<lambda>g. if g = Inr item
       then Inr \<lparr>kr_RtCd = ''0'', kr_MsgCd = [], kr_Msg1 = [], kor_OrdNo = ''0001234'', kor_OrdTmd = []\<rparr> else Inl ())
       (Inr ''tok'') sample_kis sample_limit_order =
     Inr \<lparr>ors_OrderID = ''0001234'', ors_Code = ''005930'', ors_Side = Buy, ors_Type = Limit, ors_Quantity = 10,
       ors_Price = 72000, ors_Status = StatusOpen, ors_CreatedAt = 5\<rparr>"
proof -
  have "in64 (orq_Quantity sample_limit_order)" "in64 (orq_Price sample_limit_order)"
    "orq_Side sample_limit_order = Buy \<or> orq_Side sample_limit_order = Sell"
    "orq_Type sample_limit_order = Limit \<or> orq_Type sample_limit_order = Market"
    by (simp_all add: in64_def)
  from kis_order_on_the_wire [where ?'a = unit, OF this, of sample_kis "''tok''"] obtain item
    where r: "read_order item = Some \<lparr>xo_Account = (kb_accountNo sample_kis, kb_accountSub sample_kis),
        xo_Paper = xb_IsPaper (kb_base sample_kis), xo_Order = sample_limit_order\<lparr>orq_Price :=
          (if orq_Type sample_limit_order = Market then 0 else orq_Price sample_limit_order)\<rparr>\<rparr>"
      and p: "\<And>now (send :: unit + rest_item \<Rightarrow> unit + kis_order_response). kis_PlaceOrder now send (Inr ''tok'') sample_kis sample_limit_order =
        (case send (Inr item) of
           Inl e \<Rightarrow> Inl (RequestError e)
         | Inr resp \<Rightarrow>
             if kr_RtCd resp = ''0'' then
               Inr \<lparr>ors_OrderID = kor_OrdNo resp, ors_Code = orq_Code sample_limit_order, ors_Side = orq_Side sample_limit_order,
                    ors_Type = orq_Type sample_limit_order, ors_Quantity = orq_Quantity sample_limit_order,
                    ors_Price = orq_Price sample_limit_order, ors_Status = StatusOpen, ors_CreatedAt = now\<rparr>
             else Inl (ApiError \<lparr>ke_RtCd = kr_RtCd resp, ke_MsgCd = kr_MsgCd resp, ke_Msg = kr_Msg1 resp\<rparr>))"
    by blast
  have "kb_accountNo sample_kis = ''50071022''" "kb_accountSub sample_kis = ''01''" "\<not> xb_IsPaper (kb_base sample_kis)"
    by (simp_all add: sample_kis_def)
  moreover have "sample_limit_order\<lparr>orq_Price := orq_Price sample_limit_order\<rparr> = sample_limit_order" by simp
  ultimately have "read_order item = Some \<lparr>xo_Account = (''50071022'', ''01''), xo_Paper = False, xo_Order = sample_limit_order\<rparr>"
    using r by (simp del: sample_limit_order_simps(5))
  then show ?thesis by (intro exI [of _ item]) (simp add: p)
qed

end
