(* ===== verification/KIS_Chart.thy ===== *)
theory KIS_Chart
  imports KIS_Rest
begin

text \<open>
  \<open>internal/adapter/broker/kis/chart.go\<close>: the minute candles of a day, collected page by
  page backwards in time. The loop has no bound in the code; \<open>chart_loop\<close> takes fuel and
  returns \<open>None\<close> when it runs out. \<open>page k t\<close> is the answer to the request for the time \<open>t\<close>
  in round \<open>k\<close>.

  Strings are compared bytewise (\<open>str_less\<close>), as Go does. \<open>mc_ChgRate\<close> is a \<open>float64\<close> that
  a range error of the parser makes infinite: \<open>go_float\<close>.
\<close>

section \<open>String order\<close>

fun str_less :: "string \<Rightarrow> string \<Rightarrow> bool" where
  "str_less _ [] = False"
| "str_less [] (_ # _) = True"
| "str_less (a # as) (b # bs) =
     ((of_char a :: nat) < of_char b \<or> (a = b \<and> str_less as bs))"

lemma str_less_irrefl [simp]: "\<not> str_less s s"
  by (induction s) simp_all

lemma str_less_trans: "str_less a b \<Longrightarrow> str_less b c \<Longrightarrow> str_less a c"
proof (induction a c arbitrary: b rule: str_less.induct)
  case (3 x xs y ys)
  then show ?case by (cases b) auto
qed (auto elim: str_less.elims)

lemma str_less_linear: "str_less a b \<or> a = b \<or> str_less b a"
proof (induction a b rule: str_less.induct)
  case (1 s)
  then show ?case by (cases s) simp_all
next
  case (3 a as b bs)
  then show ?case by (auto simp: linorder_neq_iff)
qed simp

section \<open>Candles\<close>

datatype go_float = Fin rat | Infinite bool

record minute_candle =
  mc_Date :: string
  mc_Time :: string
  mc_Close :: int
  mc_Open :: int
  mc_High :: int
  mc_Low :: int
  mc_Volume :: int
  mc_ChgRate :: go_float

record minute_chart_item =
  mi_StckBsopDate :: string
  mi_StckCntgHour :: string
  mi_StckPrpr :: string
  mi_StckOprc :: string
  mi_StckHgpr :: string
  mi_StckLwpr :: string
  mi_CntgVol :: string
  mi_PrdyCtrt :: string

record minute_chart_response = kis_response +
  mr_StckPrdyClpr :: string
  mr_Output2 :: "minute_chart_item list"

text \<open>The value that \<open>strconv.ParseFloat\<close> returns beside its error.\<close>

definition float_value :: "string \<Rightarrow> go_float" where
  "float_value s = (case parse_float s of
      Inr f \<Rightarrow> Fin f
    | Inl ErrSyntax \<Rightarrow> Fin 0
    | Inl ErrRange \<Rightarrow> Infinite (fst (strip_sign s)))"

text \<open>The value that \<open>parseKRWInt\<close> returns beside its error: \<open>strconv.ParseInt\<close> returns the
  nearest representable number with a range error.\<close>

definition krw_value :: "(rat \<Rightarrow> int) \<Rightarrow> string \<Rightarrow> int" where
  "krw_value impl s = (case parseKRWInt impl s of
      Inr v \<Rightarrow> v
    | Inl ErrSyntax \<Rightarrow> 0
    | Inl ErrRange \<Rightarrow>
        if CHR ''.'' \<in> set (trim_space s) then 0
        else if fst (strip_sign (trim_space s)) then - 9223372036854775808 else 9223372036854775807)"

definition parseMinuteCandle :: "(rat \<Rightarrow> int) \<Rightarrow> minute_chart_item \<Rightarrow> 'e rest_error + minute_candle" where
  "parseMinuteCandle impl item =
     bindE (parsing ''close'' (parseKRWInt impl (mi_StckPrpr item))) (\<lambda>cl.
     bindE (parsing ''open'' (parseKRWInt impl (mi_StckOprc item))) (\<lambda>op.
     bindE (parsing ''high'' (parseKRWInt impl (mi_StckHgpr item))) (\<lambda>hi.
     bindE (parsing ''low'' (parseKRWInt impl (mi_StckLwpr item))) (\<lambda>lo.
     bindE (parsing ''volume'' (parseInt64 (mi_CntgVol item))) (\<lambda>vol.
     Inr \<lparr>mc_Date = mi_StckBsopDate item, mc_Time = mi_StckCntgHour item, mc_Close = cl, mc_Open = op,
          mc_High = hi, mc_Low = lo, mc_Volume = vol,
          mc_ChgRate = float_value (trim_space (mi_PrdyCtrt item))\<rparr>)))))"

section \<open>The page loop\<close>

fun collect_page ::
    "(rat \<Rightarrow> int) \<Rightarrow> string \<Rightarrow> minute_chart_item list \<Rightarrow> string set \<Rightarrow> 'e rest_error + minute_candle list \<times> string set" where
  "collect_page impl date [] seen = Inr ([], seen)"
| "collect_page impl date (item # items) seen =
     (if mi_StckBsopDate item \<noteq> date then collect_page impl date items seen
      else if mi_StckCntgHour item \<in> seen then collect_page impl date items seen
      else bindE (parseMinuteCandle impl item) (\<lambda>candle.
           bindE (collect_page impl date items (insert (mi_StckCntgHour item) seen)) (\<lambda>(cs, seen').
           Inr (candle # cs, seen'))))"

fun chart_loop ::
    "nat \<Rightarrow> (nat \<Rightarrow> string \<Rightarrow> 'e rest_error + minute_chart_response) \<Rightarrow> (rat \<Rightarrow> int) \<Rightarrow> string \<Rightarrow>
     nat \<Rightarrow> int \<Rightarrow> string \<Rightarrow> string set \<Rightarrow> minute_candle list \<Rightarrow> ('e rest_error + int \<times> minute_candle list) option" where
  "chart_loop 0 page impl date k prevClose curTime seen all = None"
| "chart_loop (Suc fuel) page impl date k prevClose curTime seen all =
     (case page k curTime of
        Inl e \<Rightarrow> Some (Inl e)
      | Inr resp \<Rightarrow>
          if mr_Output2 resp = [] then Some (Inr (prevClose, all))
          else
            let pc = (if prevClose = 0 \<and> mr_StckPrdyClpr resp \<noteq> []
                      then krw_value impl (mr_StckPrdyClpr resp) else prevClose)
            in if mi_StckBsopDate (hd (mr_Output2 resp)) \<noteq> date then Some (Inr (pc, all))
               else case collect_page impl date (mr_Output2 resp) seen of
                 Inl e \<Rightarrow> Some (Inl e)
               | Inr (cs, seen') \<Rightarrow>
                   (let all' = all @ cs; lst = mi_StckCntgHour (last (mr_Output2 resp))
                    in if length (mr_Output2 resp) < 120 then Some (Inr (pc, all'))
                       else if cs = [] then Some (Inr (pc, all'))
                       else if \<not> str_less ''090000'' lst \<or> \<not> str_less lst curTime
                       then Some (Inr (pc, all'))
                       else chart_loop fuel page impl date (Suc k) pc lst seen' all'))"

text \<open>\<open>reverseCandles\<close> swaps from both ends.\<close>

function reverse_loop :: "nat \<Rightarrow> nat \<Rightarrow> 'a list \<Rightarrow> 'a list" where
  "reverse_loop i j s = (if i < j then reverse_loop (i + 1) (j - 1) (s[i := s ! j, j := s ! i]) else s)"
  by pat_completeness auto
termination by (relation "measure (\<lambda>(i, j, s). j - i)") auto

declare reverse_loop.simps [simp del]

definition reverseCandles :: "'a list \<Rightarrow> 'a list" where
  "reverseCandles s = reverse_loop 0 (length s - 1) s"

definition fl_div :: "rat \<Rightarrow> rat \<Rightarrow> rat" where
  "fl_div a b = fl64 (a / b)"

definition chg_rate :: "int \<Rightarrow> int \<Rightarrow> rat" where
  "chg_rate prevClose close =
     fl_mult (fl_div (fl64 (of_int (wrap64 (close - prevClose)))) (fl64 (of_int prevClose))) 100"

definition chart_page ::
    "('e + rest_item \<Rightarrow> nat \<Rightarrow> 'e + minute_chart_response) \<Rightarrow> (string \<Rightarrow> string \<Rightarrow> (string \<times> string) list \<Rightarrow> 'e + string) \<Rightarrow>
     'e + string \<Rightarrow> kis_broker \<Rightarrow> string \<Rightarrow> string \<Rightarrow> nat \<Rightarrow> string \<Rightarrow> 'e rest_error + minute_chart_response" where
  "chart_page send mkURL token b code date k curTime =
     (case mkURL (xb_BaseURL (kb_base b)) PathMinuteChart
             [(''FID_COND_MRKT_DIV_CODE'', ''J''), (''FID_INPUT_ISCD'', code), (''FID_INPUT_DATE_1'', date),
              (''FID_INPUT_HOUR_1'', curTime), (''FID_PW_DATA_INCU_YN'', ''N''), (''FID_FAKE_TICK_INCU_YN'', '' '')] of
        Inl e \<Rightarrow> Inl (RequestError e)
      | Inr reqURL \<Rightarrow>
          sendREST (\<lambda>g. send g k) token b
            \<lparr>rq_method = ''GET'', rq_path = reqURL, rq_trID = TrIDMinuteChart, rq_bodyReq = None\<rparr>)"

definition GetMinuteChart ::
    "nat \<Rightarrow> (nat \<Rightarrow> string \<Rightarrow> 'e rest_error + minute_chart_response) \<Rightarrow> (rat \<Rightarrow> int) \<Rightarrow> string \<Rightarrow>
     ('e rest_error + minute_candle list) option" where
  "GetMinuteChart fuel page impl date =
     (case chart_loop fuel page impl date 0 0 ''153000'' {} [] of
        None \<Rightarrow> None
      | Some (Inl e) \<Rightarrow> Some (Inl e)
      | Some (Inr (prevClose, all)) \<Rightarrow>
          (let cs = reverseCandles all
           in Some (Inr (if prevClose > 0
                         then map (\<lambda>c. c\<lparr>mc_ChgRate := Fin (chg_rate prevClose (mc_Close c))\<rparr>) cs
                         else cs))))"

section \<open>Reversal\<close>

lemma reverse_loop_nth:
  assumes "i + j + 1 = length s"
  shows "length (reverse_loop i j s) = length s \<and>
    (\<forall>n<length s. reverse_loop i j s ! n = (if i \<le> n \<and> n \<le> j then s ! (length s - 1 - n) else s ! n))"
  using assms
proof (induction i j s rule: reverse_loop.induct)
  case (1 i j s)
  show ?case
  proof (cases "i < j")
    case True
    let ?s = "s[i := s ! j, j := s ! i]"
    have l: "length (reverse_loop (i + 1) (j - 1) ?s) = length s" and
      ih: "\<And>n. n < length s \<Longrightarrow> reverse_loop (i + 1) (j - 1) ?s ! n =
        (if i + 1 \<le> n \<and> n \<le> j - 1 then ?s ! (length s - 1 - n) else ?s ! n)"
      using "1.IH" [OF True] "1.prems" True by simp_all
    have e: "reverse_loop i j s = reverse_loop (i + 1) (j - 1) ?s"
      using True by (simp add: reverse_loop.simps [of i j s])
    have "reverse_loop i j s ! n = (if i \<le> n \<and> n \<le> j then s ! (length s - 1 - n) else s ! n)"
      if n: "n < length s" for n
    proof -
      consider "n = i" | "n = j" | "i < n" "n < j" | "n < i \<or> j < n" by linarith
      then show ?thesis
      proof cases
        case 1
        then have "length s - 1 - n = j" using "1.prems" by simp
        with 1 True n ih [OF n] show ?thesis unfolding e by simp
      next
        case 2
        then have "length s - 1 - n = i" using "1.prems" by simp
        moreover have "\<not> n \<le> j - 1" using 2 True by simp
        ultimately show ?thesis using 2 True n ih [OF n] unfolding e by simp
      next
        case 3
        then have "length s - 1 - n \<noteq> i" "length s - 1 - n \<noteq> j" using "1.prems" by simp_all
        moreover have "n \<le> j - 1" using 3 by simp
        ultimately show ?thesis using 3 ih [OF n] unfolding e by simp
      next
        case 4
        with ih [OF n] True show ?thesis unfolding e by auto
      qed
    qed
    with l e show ?thesis by simp
  next
    case False
    have "length s - Suc n = n" if "i \<le> n" "n \<le> j" for n using that False "1.prems" by linarith
    with False show ?thesis by (simp add: reverse_loop.simps [of i j s])
  qed
qed

lemma reverseCandles_rev [simp]: "reverseCandles s = rev s"
proof (cases "s = []")
  case True
  then show ?thesis by (simp add: reverseCandles_def reverse_loop.simps)
next
  case False
  then show ?thesis
    using reverse_loop_nth [of 0 "length s - 1" s]
    by (intro nth_equalityI) (auto simp: reverseCandles_def rev_nth)
qed

section \<open>Termination\<close>

definition six_digits :: "string \<Rightarrow> bool" where
  "six_digits t \<longleftrightarrow> length t = 6 \<and> list_all (\<lambda>c. digit_val c \<noteq> None) t"

fun num_of :: "nat \<Rightarrow> string \<Rightarrow> nat" where
  "num_of n [] = n"
| "num_of n (c # cs) = num_of (n * 10 + (of_char c - 48)) cs"

lemma num_of_less:
  assumes "length a = length b" and "list_all (\<lambda>c. digit_val c \<noteq> None) a"
    and "list_all (\<lambda>c. digit_val c \<noteq> None) b" and "m < n"
  shows "num_of m a < num_of n b"
  using assms
proof (induction a b arbitrary: m n rule: list_induct2)
  case (Cons x xs y ys)
  have "(of_char x :: nat) - 48 < 10" "(of_char y :: nat) - 48 < 10"
    using Cons.prems by (auto simp: digit_val_def Let_def split: if_splits)
  then have "m * 10 + (of_char x - 48) < n * 10 + (of_char y - 48)" using Cons.prems(3) by linarith
  with Cons show ?case by simp
qed simp

lemma str_less_num:
  assumes "length a = length b" and "list_all (\<lambda>c. digit_val c \<noteq> None) a"
    and "list_all (\<lambda>c. digit_val c \<noteq> None) b" and "str_less a b"
  shows "num_of n a < num_of n b"
  using assms
proof (induction a b arbitrary: n rule: list_induct2)
  case (Cons x xs y ys)
  show ?case
  proof (cases "x = y")
    case True
    with Cons show ?thesis by simp
  next
    case False
    with Cons.prems have "(of_char x :: nat) < of_char y" by simp
    moreover have "48 \<le> (of_char x :: nat)"
      using Cons.prems(1) by (auto simp: digit_val_def Let_def split: if_splits)
    ultimately have "n * 10 + (of_char x - 48) < n * 10 + ((of_char y :: nat) - 48)" by linarith
    with Cons show ?thesis by (simp add: num_of_less)
  qed
qed simp

lemma chart_loop_returns:
  assumes "\<And>k t resp. page k t = Inr resp \<Longrightarrow> \<forall>i\<in>set (mr_Output2 resp). six_digits (mi_StckCntgHour i)"
    and "six_digits curTime" and "num_of 0 curTime < fuel"
  shows "\<exists>r. chart_loop fuel page impl date k prevClose curTime seen all = Some r"
  using assms(2,3)
proof (induction fuel arbitrary: k prevClose curTime seen all)
  case (Suc fuel)
  show ?case
  proof (cases "page k curTime")
    case (Inr resp)
    let ?lst = "mi_StckCntgHour (last (mr_Output2 resp))"
    have "\<exists>r. chart_loop fuel page impl date (Suc k) pc ?lst seen' all' = Some r"
      if "mr_Output2 resp \<noteq> []" "str_less ?lst curTime" for pc seen' all'
    proof (rule Suc.IH)
      show six: "six_digits ?lst" using assms(1) [OF Inr] that(1) by simp
      have "num_of 0 ?lst < num_of 0 curTime"
        using six Suc.prems(1) that(2) by (intro str_less_num) (simp_all add: six_digits_def)
      then show "num_of 0 ?lst < fuel" using Suc.prems(2) by simp
    qed
    then show ?thesis using Inr by (auto simp: Let_def split: sum.splits)
  qed simp
qed simp

text \<open>The page loop ends: whatever pages the server sends, as long as their times are six
  digits, collecting a day's candles returns -- a list or an error -- after at most 153000
  further pages, since every round continues strictly earlier than the one before.\<close>

theorem kis_chart_terminates:
  assumes "\<And>k t resp. page k t = Inr resp \<Longrightarrow>
    list_all (\<lambda>i. six_digits (mi_StckCntgHour i)) (mr_Output2 resp)"
  shows "\<exists>r. GetMinuteChart 153001 page impl date = Some r"
proof -
  have "\<exists>r. chart_loop 153001 page impl date 0 0 ''153000'' {} [] = Some r"
    by (rule chart_loop_returns)
       (use assms in \<open>auto simp: list_all_iff six_digits_def digit_val_def\<close>)
  then show ?thesis by (auto simp: GetMinuteChart_def Let_def split: sum.splits)
qed

theorem kis_chart_terminates_witness:
  "\<exists>r. GetMinuteChart 153001 (\<lambda>k t. Inr \<lparr>kr_RtCd = ''0'', kr_MsgCd = [], kr_Msg1 = [], mr_StckPrdyClpr = [],
      mr_Output2 = replicate 120 \<lparr>mi_StckBsopDate = ''20260403'', mi_StckCntgHour = ''152900'', mi_StckPrpr = [],
        mi_StckOprc = [], mi_StckHgpr = [], mi_StckLwpr = [], mi_CntgVol = [], mi_PrdyCtrt = []\<rparr>\<rparr>)
      (\<lambda>_. 0) ''20260403'' = Some r"
  by (rule kis_chart_terminates) (auto simp: list_all_iff six_digits_def digit_val_def)

section \<open>A complete day\<close>

text \<open>The documented behaviour of the service: for a day with the candles \<open>day\<close>, latest
  first, a request for a time returns the first 120 that are not later.\<close>

definition not_later :: "string \<Rightarrow> minute_chart_item \<Rightarrow> bool" where
  "not_later t i \<longleftrightarrow> \<not> str_less t (mi_StckCntgHour i)"

definition day_page :: "string \<Rightarrow> minute_chart_item list \<Rightarrow> nat \<Rightarrow> string \<Rightarrow> 'e rest_error + minute_chart_response" where
  "day_page close day k t = Inr \<lparr>kr_RtCd = ''0'', kr_MsgCd = [], kr_Msg1 = [], mr_StckPrdyClpr = close,
     mr_Output2 = take 120 (filter (not_later t) day)\<rparr>"

definition day_ok :: "string \<Rightarrow> minute_chart_item list \<Rightarrow> bool" where
  "day_ok date day \<longleftrightarrow> sorted_wrt (\<lambda>i j. str_less (mi_StckCntgHour j) (mi_StckCntgHour i)) day \<and>
     list_all (\<lambda>i. mi_StckBsopDate i = date \<and> six_digits (mi_StckCntgHour i) \<and>
       not_later ''153000'' i \<and> \<not> str_less (mi_StckCntgHour i) ''090000'') day"

lemma collect_page_new:
  assumes "list_all (\<lambda>i. mi_StckBsopDate i = date \<and> mi_StckCntgHour i \<notin> seen \<and>
      (parseMinuteCandle impl i :: 'e rest_error + minute_candle) = Inr (cand i)) items"
    and "distinct (map mi_StckCntgHour items)"
  shows "(collect_page impl date items seen :: 'e rest_error + _) =
    Inr (map cand items, seen \<union> mi_StckCntgHour ` set items)"
  using assms
proof (induction items arbitrary: seen)
  case (Cons i items)
  have "mi_StckCntgHour i \<notin> mi_StckCntgHour ` set items" using Cons.prems(2) by simp
  then have "\<forall>j\<in>set items. mi_StckCntgHour j \<noteq> mi_StckCntgHour i" by (metis imageI)
  with Cons.IH [of "insert (mi_StckCntgHour i) seen"] Cons.prems show ?case
    by (simp add: list_all_iff)
qed simp

lemma descending_distinct: "sorted_wrt (\<lambda>a b. str_less b a) ts \<Longrightarrow> distinct ts"
  by (induction ts) auto

lemma day_distinct: "day_ok date day \<Longrightarrow> distinct (map mi_StckCntgHour day)"
  by (rule descending_distinct) (simp add: day_ok_def sorted_wrt_map)

text \<open>What a request at the time of the last candle read so far returns: that candle and
  the ones after it.\<close>

lemma filter_not_later:
  assumes "day_ok date (pre @ l # suf)"
  shows "filter (not_later (mi_StckCntgHour l)) (pre @ l # suf) = l # suf"
proof -
  have "\<not> not_later (mi_StckCntgHour l) i" if "i \<in> set pre" for i
    using assms that by (auto simp: day_ok_def sorted_wrt_append not_later_def)
  moreover have "not_later (mi_StckCntgHour l) i" if "i \<in> set suf" for i
  proof -
    have "str_less (mi_StckCntgHour i) (mi_StckCntgHour l)"
      using assms that by (auto simp: day_ok_def sorted_wrt_append)
    then show ?thesis
      using str_less_trans [of "mi_StckCntgHour i" "mi_StckCntgHour l" "mi_StckCntgHour i"]
      by (auto simp: not_later_def)
  qed
  moreover have "not_later (mi_StckCntgHour l) l" by (simp add: not_later_def)
  ultimately show ?thesis by (simp add: filter_empty_conv)
qed

definition after :: "minute_chart_item list \<Rightarrow> string" where
  "after pre = (if pre = [] then ''153000'' else mi_StckCntgHour (last pre))"

lemma day_page_after:
  assumes "day_ok date (pre @ suf)"
  obtains h m where "filter (not_later (after pre)) (pre @ suf) = h @ suf"
    and "h = [] \<and> pre = [] \<or> pre \<noteq> [] \<and> h = [last pre]" and "0 < m" and "length h + m = 120"
proof (cases "pre = []")
  case True
  have "filter (not_later (after pre)) (pre @ suf) = [] @ suf"
    using assms True by (auto simp: day_ok_def list_all_iff after_def intro: filter_True)
  with True that [of "[]" 120] show thesis by simp
next
  case False
  have e: "butlast pre @ last pre # suf = pre @ suf"
    using False by (metis append_Cons append_Nil append_assoc append_butlast_last_id)
  have "filter (not_later (after pre)) (pre @ suf) = [last pre] @ suf"
    using False assms filter_not_later [of date "butlast pre" "last pre" suf] unfolding e after_def
    by (simp only: if_False append_Cons append_Nil)
  with False that [of "[last pre]" 119] show thesis by simp
qed

lemma later_earlier:
  assumes "day_ok date (pre @ new @ rest)" and "new \<noteq> []" and "pre \<noteq> [] \<or> 2 \<le> length new"
  shows "str_less (mi_StckCntgHour (last new)) (after pre)"
proof (cases "pre = []")
  case False
  then have "last pre \<in> set pre" "last new \<in> set new" using assms(2) by simp_all
  with False assms(1) show ?thesis by (auto simp: day_ok_def sorted_wrt_append after_def)
next
  case True
  with assms obtain a b cs where new: "new = a # b # cs" by (cases new rule: list.exhaust; cases "tl new") auto
  then have "last new \<in> set (b # cs)" by simp
  then have "str_less (mi_StckCntgHour (last new)) (mi_StckCntgHour a)"
    using assms(1) new True by (auto simp: day_ok_def sorted_wrt_append)
  moreover have "\<not> str_less ''153000'' (mi_StckCntgHour a)"
    using assms(1) new True by (simp add: day_ok_def not_later_def)
  ultimately show ?thesis
    using True str_less_linear [of "mi_StckCntgHour a" "''153000''"] by (auto simp: after_def intro: str_less_trans)
qed

lemma nothing_before_opening:
  assumes "day_ok date (pre @ new @ rest)" and "new \<noteq> []"
    and "\<not> str_less ''090000'' (mi_StckCntgHour (last new))"
  shows "rest = []"
proof (rule ccontr)
  assume "rest \<noteq> []"
  then have r: "hd rest \<in> set rest" by simp
  have "str_less (mi_StckCntgHour (hd rest)) (mi_StckCntgHour (last new))"
    using assms(1,2) r last_in_set [of new] by (auto simp: day_ok_def sorted_wrt_append)
  moreover have "\<not> str_less (mi_StckCntgHour (hd rest)) ''090000''"
    using assms(1) r by (auto simp: day_ok_def list_all_iff)
  ultimately show False
    using assms(3) str_less_linear [of "mi_StckCntgHour (last new)" "''090000''"]
      str_less_trans [of "mi_StckCntgHour (hd rest)" "mi_StckCntgHour (last new)" "''090000''"] by metis
qed

lemma collect_after:
  assumes "day_ok date (pre @ suf)" and "list_all (\<lambda>i. (parseMinuteCandle impl i :: 'e rest_error + minute_candle) = Inr (cand i)) (pre @ suf)"
    and "h = [] \<and> pre = [] \<or> pre \<noteq> [] \<and> h = [last pre]"
  shows "(collect_page impl date (h @ take m suf) (mi_StckCntgHour ` set pre) :: 'e rest_error + _) =
    Inr (map cand (take m suf), mi_StckCntgHour ` set (pre @ take m suf))"
proof -
  have d: "distinct (map mi_StckCntgHour (pre @ suf))" using assms(1) by (rule day_distinct)
  have t: "i \<in> set suf" if "i \<in> set (take m suf)" for i using that by (rule in_set_takeD)
  have "(collect_page impl date (take m suf) (mi_StckCntgHour ` set pre) :: 'e rest_error + _) =
      Inr (map cand (take m suf), mi_StckCntgHour ` set pre \<union> mi_StckCntgHour ` set (take m suf))"
  proof (rule collect_page_new)
    show "distinct (map mi_StckCntgHour (take m suf))" using d by (simp add: take_map [symmetric])
    have "mi_StckCntgHour i \<notin> mi_StckCntgHour ` set pre" if "i \<in> set suf" for i using d that by auto
    then show "list_all (\<lambda>i. mi_StckBsopDate i = date \<and> mi_StckCntgHour i \<notin> mi_StckCntgHour ` set pre \<and>
        (parseMinuteCandle impl i :: 'e rest_error + minute_candle) = Inr (cand i)) (take m suf)"
      using assms(1,2) t by (simp add: list_all_iff day_ok_def)
  qed
  moreover have "(collect_page impl date (h @ take m suf) (mi_StckCntgHour ` set pre) :: 'e rest_error + _) =
      collect_page impl date (take m suf) (mi_StckCntgHour ` set pre)"
    using assms(3) by auto
  ultimately show ?thesis by (simp add: image_Un)
qed

definition prev_close :: "(rat \<Rightarrow> int) \<Rightarrow> string \<Rightarrow> minute_chart_item list \<Rightarrow> int" where
  "prev_close impl close day = (if day = [] \<or> close = [] then 0 else krw_value impl close)"

lemma chart_loop_step:
  fixes page :: "nat \<Rightarrow> string \<Rightarrow> 'e rest_error + minute_chart_response"
  assumes "page k t = Inr resp" and "mr_Output2 resp = items" and "items \<noteq> []"
    and "(if pc = 0 \<and> mr_StckPrdyClpr resp \<noteq> [] then krw_value impl (mr_StckPrdyClpr resp) else pc) = pv"
    and "mi_StckBsopDate (hd items) = date" 
    and "(collect_page impl date items seen :: 'e rest_error + _) = Inr (cs, seen')"
  shows "chart_loop (Suc fuel) page impl date k pc t seen all =
    (if length items < 120 \<or> cs = [] \<or> \<not> str_less ''090000'' (mi_StckCntgHour (last items)) \<or>
        \<not> str_less (mi_StckCntgHour (last items)) t
     then Some (Inr (pv, all @ cs))
     else chart_loop fuel page impl date (Suc k) pv (mi_StckCntgHour (last items)) seen' (all @ cs))"
  using assms by (simp add: Let_def)

lemma chart_loop_day:
  assumes "day_ok date (pre @ suf)" and "length suf < fuel"
    and "list_all (\<lambda>i. (parseMinuteCandle impl i :: 'e rest_error + minute_candle) = Inr (cand i)) (pre @ suf)"
    and "pc = (if pre = [] then 0 else prev_close impl close (pre @ suf))"
  shows "(chart_loop fuel (day_page close (pre @ suf)) impl date k pc (after pre)
      (mi_StckCntgHour ` set pre) (map cand pre) :: ('e rest_error + _) option) =
    Some (Inr (prev_close impl close (pre @ suf), map cand (pre @ suf)))"
  using assms
proof (induction fuel arbitrary: pre suf k pc)
  case (Suc fuel)
  let ?day = "pre @ suf"
  obtain h m where page: "filter (not_later (after pre)) ?day = h @ suf"
    and h: "h = [] \<and> pre = [] \<or> pre \<noteq> [] \<and> h = [last pre]" and m: "0 < m" "length h + m = 120"
    by (rule day_page_after [OF Suc.prems(1)])
  let ?new = "take m suf" and ?rest = "drop m suf"
  have out: "take 120 (filter (not_later (after pre)) ?day) = h @ ?new"
    unfolding page using m(2) h by (auto simp: take_Cons')
  note collect = collect_after [OF Suc.prems(1,3) h, of m]
  show ?case
  proof (cases "h @ ?new = []")
    case True
    then have "pre = []" "suf = []" using h m(1) by auto
    with out Suc.prems(4) show ?thesis by (simp add: day_page_def prev_close_def)
  next
    case False
    then have "?day \<noteq> []" and "h @ ?new \<noteq> []" using h by auto
    then have pv: "(if pc = 0 \<and> close \<noteq> [] then krw_value impl close else pc) = prev_close impl close ?day"
      using Suc.prems(4) by (simp add: prev_close_def)
    have "set (h @ ?new) \<subseteq> set ?day" using h by (auto dest: in_set_takeD)
    then have date: "mi_StckBsopDate (hd (h @ ?new)) = date"
      using Suc.prems(1) hd_in_set [OF False] unfolding day_ok_def list_all_iff by blast
    have step: "(chart_loop (Suc fuel) (day_page close ?day) impl date k pc (after pre)
        (mi_StckCntgHour ` set pre) (map cand pre) :: ('e rest_error + _) option) =
      (if length (h @ ?new) < 120 \<or> map cand ?new = [] \<or>
          \<not> str_less ''090000'' (mi_StckCntgHour (last (h @ ?new))) \<or>
          \<not> str_less (mi_StckCntgHour (last (h @ ?new))) (after pre)
       then Some (Inr (prev_close impl close ?day, map cand pre @ map cand ?new))
       else chart_loop fuel (day_page close ?day) impl date (Suc k) (prev_close impl close ?day)
         (mi_StckCntgHour (last (h @ ?new))) (mi_StckCntgHour ` set (pre @ ?new)) (map cand pre @ map cand ?new))"
      by (rule chart_loop_step [OF day_page_def _ False _ date collect])
         (simp_all only: minute_chart_response.simps out pv)
    show ?thesis
    proof (cases "length (h @ ?new) < 120")
      case True
      then have "?new = suf" using m(2) by auto
      with True show ?thesis unfolding step by simp
    next
      case long: False
      then have ne: "?new \<noteq> []" and two: "pre \<noteq> [] \<or> 2 \<le> length ?new" using m h by auto
      have day: "day_ok date (pre @ ?new @ ?rest)" using Suc.prems(1) by simp
      have less: "str_less (mi_StckCntgHour (last ?new)) (after pre)"
        by (rule later_earlier [OF day ne two])
      have lst: "last (h @ ?new) = last ?new" using ne by simp
      show ?thesis
      proof (cases "str_less ''090000'' (mi_StckCntgHour (last ?new))")
        case True
        have "chart_loop fuel (day_page close ((pre @ ?new) @ ?rest)) impl date (Suc k) (prev_close impl close ?day)
            (after (pre @ ?new)) (mi_StckCntgHour ` set (pre @ ?new)) (map cand (pre @ ?new)) =
          (Some (Inr (prev_close impl close ((pre @ ?new) @ ?rest), map cand ((pre @ ?new) @ ?rest)))
            :: ('e rest_error + _) option)"
        proof (rule Suc.IH)
          have "0 < length suf" using ne by simp
          with Suc.prems(2) m(1) show "length ?rest < fuel" unfolding length_drop by linarith
        qed (use Suc.prems ne in simp_all)
        moreover have "after (pre @ ?new) = mi_StckCntgHour (last ?new)" using ne by (simp add: after_def)
        ultimately show ?thesis unfolding step lst using long less True ne by simp
      next
        case False
        then have "?rest = []" by (rule nothing_before_opening [OF day ne])
        then have "?new = suf" by simp
        with False show ?thesis unfolding step lst by simp
      qed
    qed
  qed
qed simp

text \<open>C14. A day is collected completely: when the service answers every request with the first
  120 candles of the day that are not later than the requested time, the result has every
  candle of the day exactly once, earliest first, whatever their number -- although the
  pages overlap -- and the change rate of each is computed from the previous close
  whenever that is positive.\<close>

theorem kis_chart_complete:
  assumes "day_ok date day" and "length day < fuel"
    and "list_all (\<lambda>i. (parseMinuteCandle impl i :: 'e rest_error + minute_candle) = Inr (cand i)) day"
  shows "(GetMinuteChart fuel (day_page close day) impl date :: ('e rest_error + _) option) =
    Some (Inr (if 0 < prev_close impl close day
      then map (\<lambda>i. (cand i)\<lparr>mc_ChgRate := Fin (chg_rate (prev_close impl close day) (mc_Close (cand i)))\<rparr>) (rev day)
      else map cand (rev day)))"
proof -
  note loop = chart_loop_day [where 'e = 'e and pre = "[]" and suf = day, simplified, OF assms(1,2,3) refl]
  have start: "after [] = ''153000''" by (simp add: after_def)
  show ?thesis by (simp add: GetMinuteChart_def loop [unfolded start] rev_map)
qed

definition sample_item :: "string \<Rightarrow> minute_chart_item" where
  "sample_item t = \<lparr>mi_StckBsopDate = ''20260403'', mi_StckCntgHour = t, mi_StckPrpr = [], mi_StckOprc = [],
     mi_StckHgpr = [], mi_StckLwpr = [], mi_CntgVol = [], mi_PrdyCtrt = []\<rparr>"

definition sample_candle :: "minute_chart_item \<Rightarrow> minute_candle" where
  "sample_candle i = \<lparr>mc_Date = mi_StckBsopDate i, mc_Time = mi_StckCntgHour i, mc_Close = 0, mc_Open = 0,
     mc_High = 0, mc_Low = 0, mc_Volume = 0, mc_ChgRate = Fin 0\<rparr>"

theorem kis_chart_complete_witness:
  "map_option (map_sum (\<lambda>_. ()) (map mc_Time))
     (GetMinuteChart 10 (day_page [] (map sample_item [''152900'', ''090100'', ''090000''])
        :: nat \<Rightarrow> string \<Rightarrow> unit rest_error + _) (\<lambda>_. 0) ''20260403'') =
   Some (Inr [''090000'', ''090100'', ''152900''])"
proof -
  let ?day = "map sample_item [''152900'', ''090100'', ''090000'']"
  have d: "day_ok ''20260403'' ?day"
    by (simp add: day_ok_def sample_item_def six_digits_def digit_val_def not_later_def)
  have p: "list_all (\<lambda>i. (parseMinuteCandle (\<lambda>_. 0) i :: unit rest_error + _) = Inr (sample_candle i)) ?day"
    by (simp add: parseMinuteCandle_def sample_item_def sample_candle_def parseKRWInt_def parseInt64_def
      parsing_def float_value_def parse_float_def decimal_val_def strip_sign_def cut_exp_def mantissa_val_def)
  have l: "length ?day < 10" by simp
  show ?thesis
    unfolding kis_chart_complete [OF d l p] by (simp add: prev_close_def sample_candle_def sample_item_def)
qed

end
