(* ===== verification/LS_Registry.thy ===== *)
theory LS_Registry
  imports LS_Types Go_Text
begin

text \<open>
  The placement of realtime routes on websocket connections:
  \<open>internal/adapter/broker/ls/api/ws/registry.go\<close>, the route bookkeeping of \<open>slot.go\<close>, the
  slot identifiers of \<open>factory.go\<close>, the settings of \<open>ws.go\<close> and \<open>subscribeTransport\<close> of
  \<open>transport.go\<close>.

  A slot is a pointer in the code and an address here: the sequence number under which
  the factory made it. \<open>rg_heap\<close> holds the slots ever made, \<open>rg_slots\<close> the managed ones. Every
  operation runs under the registry's mutex. The client of a slot is an argument: \<open>mk n\<close> says
  whether the factory can build slot \<open>n\<close>, \<open>subR\<close> and \<open>unsubR\<close> are the results of the commands.
  The search for a slot is a loop that the code does not bound; \<open>select_loop\<close> is a partial
  function, and a call that does not return is \<open>None\<close>.
\<close>

section \<open>Settings\<close>

record ls_dependencies =
  ld_MaxConnSlots :: int
  ld_MaxRoutesPerSlot :: int
  ld_RouteFillStep :: int
  ld_IdleSlotTTL :: int

abbreviation defaultMaxConnSlots :: int where "defaultMaxConnSlots \<equiv> 20"
abbreviation defaultMaxRoutesPerSlot :: int where "defaultMaxRoutesPerSlot \<equiv> 200"
abbreviation defaultRouteFillStep :: int where "defaultRouteFillStep \<equiv> 50"
abbreviation defaultIdleSlotTTL :: int where "defaultIdleSlotTTL \<equiv> 60000000000"

definition normalizeDependencies :: "ls_dependencies \<Rightarrow> ls_dependencies" where
  "normalizeDependencies d =
     (let slots = (if ld_MaxConnSlots d \<le> 0 then defaultMaxConnSlots else ld_MaxConnSlots d);
          routes = (if ld_MaxRoutesPerSlot d \<le> 0 then defaultMaxRoutesPerSlot else ld_MaxRoutesPerSlot d);
          step = (if ld_RouteFillStep d \<le> 0 then defaultRouteFillStep else ld_RouteFillStep d);
          step' = (if step > routes then routes else step);
          ttl = (if ld_IdleSlotTTL d = 0 then defaultIdleSlotTTL else ld_IdleSlotTTL d)
      in \<lparr>ld_MaxConnSlots = slots, ld_MaxRoutesPerSlot = routes, ld_RouteFillStep = step', ld_IdleSlotTTL = ttl\<rparr>)"

definition pad3 :: "nat \<Rightarrow> string" where
  "pad3 n = replicate (3 - length (show_nat n)) (CHR ''0'') @ show_nat n"

definition formatConnSlotID :: "nat \<Rightarrow> string" where
  "formatConnSlotID sq = (if sq \<le> 1 then ''primary'' else ''conn-'' @ pad3 sq)"

section \<open>Slots\<close>

record conn_slot =
  cs_id :: string
  cs_routes :: "string set"
  cs_started :: bool
  cs_stopping :: bool
  cs_idleTimer :: "nat option"

definition newConnSlot :: "string \<Rightarrow> conn_slot" where
  "newConnSlot sid = \<lparr>cs_id = sid, cs_routes = {}, cs_started = False, cs_stopping = False, cs_idleTimer = None\<rparr>"

definition slot_stop :: "conn_slot \<Rightarrow> conn_slot" where
  "slot_stop s = s\<lparr>cs_stopping := True, cs_started := False, cs_idleTimer := None\<rparr>"

definition addRoute :: "string \<Rightarrow> conn_slot \<Rightarrow> conn_slot" where
  "addRoute key s = s\<lparr>cs_routes := insert key (cs_routes s)\<rparr>"

definition removeRoute :: "string \<Rightarrow> conn_slot \<Rightarrow> conn_slot" where
  "removeRoute key s = s\<lparr>cs_routes := cs_routes s - {key}\<rparr>"

definition routeCount :: "conn_slot \<Rightarrow> int" where
  "routeCount s = int (card (cs_routes s))"

definition cancelIdleTimer :: "conn_slot \<Rightarrow> conn_slot" where
  "cancelIdleTimer s = s\<lparr>cs_idleTimer := None\<rparr>"

section \<open>The registry\<close>

record conn_registry =
  rg_started :: bool
  rg_closed :: bool
  rg_nextID :: nat
  rg_nextTimer :: nat
  rg_heap :: "nat \<Rightarrow> conn_slot"
  rg_slots :: "nat list"
  rg_owners :: "string \<rightharpoonup> nat"
  rg_maxConnSlots :: int
  rg_maxRoutesPerSlot :: int
  rg_routeFillStep :: int
  rg_idleSlotTTL :: int

datatype 'e ls_ws_error = ErrRealtimeClosed | ErrWSConnectionLimit | CreateError | CommandError 'e

definition newConnRegistry :: "ls_dependencies \<Rightarrow> conn_registry" where
  "newConnRegistry d = \<lparr>rg_started = False, rg_closed = False, rg_nextID = 1, rg_nextTimer = 0,
     rg_heap = (\<lambda>_. newConnSlot []), rg_slots = [], rg_owners = Map.empty,
     rg_maxConnSlots = ld_MaxConnSlots d, rg_maxRoutesPerSlot = ld_MaxRoutesPerSlot d,
     rg_routeFillStep = ld_RouteFillStep d, rg_idleSlotTTL = ld_IdleSlotTTL d\<rparr>"

definition upd_slot :: "nat \<Rightarrow> (conn_slot \<Rightarrow> conn_slot) \<Rightarrow> conn_registry \<Rightarrow> conn_registry" where
  "upd_slot a f r = r\<lparr>rg_heap := (rg_heap r)(a := f (rg_heap r a))\<rparr>"

definition createSlotLocked :: "(nat \<Rightarrow> bool) \<Rightarrow> conn_registry \<Rightarrow> conn_registry \<times> nat option" where
  "createSlotLocked mk r =
     (let a = rg_nextID r; r1 = r\<lparr>rg_nextID := Suc a\<rparr>
      in if mk a then
           (r1\<lparr>rg_heap := (rg_heap r1)(a := newConnSlot (formatConnSlotID a)), rg_slots := rg_slots r1 @ [a]\<rparr>, Some a)
         else (r1, None))"

datatype slot_choice = Reuse nat | Create | Full

partial_function (option) select_loop :: "conn_registry \<Rightarrow> int \<Rightarrow> slot_choice option" where
  "select_loop r ceil =
     (if ceil < rg_maxRoutesPerSlot r then
        (case List.find (\<lambda>a. routeCount (rg_heap r a) < ceil \<and>
                 routeCount (rg_heap r a) < rg_maxRoutesPerSlot r) (rg_slots r) of
           Some a \<Rightarrow> Some (Reuse a)
         | None \<Rightarrow> if int (length (rg_slots r)) < rg_maxConnSlots r then Some Create
                   else select_loop r (ceil + rg_routeFillStep r))
      else
        (case List.find (\<lambda>a. routeCount (rg_heap r a) < rg_maxRoutesPerSlot r) (rg_slots r) of
           Some a \<Rightarrow> Some (Reuse a)
         | None \<Rightarrow> if int (length (rg_slots r)) < rg_maxConnSlots r then Some Create else Some Full))"

definition selectSlotLocked ::
    "(nat \<Rightarrow> bool) \<Rightarrow> conn_registry \<Rightarrow> (conn_registry \<times> ('e ls_ws_error + nat \<times> bool)) option" where
  "selectSlotLocked mk r =
     (case select_loop r (rg_routeFillStep r) of
        None \<Rightarrow> None
      | Some (Reuse a) \<Rightarrow> Some (r, Inr (a, False))
      | Some Create \<Rightarrow>
          (case createSlotLocked mk r of
             (r', Some a) \<Rightarrow> Some (r', Inr (a, True))
           | (r', None) \<Rightarrow> Some (r', Inl CreateError))
      | Some Full \<Rightarrow> Some (r, Inl ErrWSConnectionLimit))"

text \<open>\<open>prepareSlotStartLocked\<close> gives the slot its context; the launched goroutine runs the
  client.\<close>

definition prepareSlotStartLocked :: "nat \<Rightarrow> conn_registry \<Rightarrow> conn_registry \<times> bool" where
  "prepareSlotStartLocked a r =
     (if \<not> rg_started r \<or> rg_closed r \<or> cs_started (rg_heap r a) then (r, False)
      else (upd_slot a (\<lambda>s. s\<lparr>cs_started := True\<rparr>) r, True))"

definition registry_start :: "(nat \<Rightarrow> bool) \<Rightarrow> conn_registry \<Rightarrow> conn_registry" where
  "registry_start mk r =
     (if rg_started r \<or> rg_closed r then r
      else let r1 = r\<lparr>rg_started := True\<rparr>;
               r2 = (if rg_slots r1 = [] then fst (createSlotLocked mk r1) else r1)
           in fold (\<lambda>a r. fst (prepareSlotStartLocked a r)) (rg_slots r2) r2)"

definition registry_acquire ::
    "(nat \<Rightarrow> bool) \<Rightarrow> string \<Rightarrow> conn_registry \<Rightarrow> (conn_registry \<times> ('e ls_ws_error + nat \<times> bool)) option" where
  "registry_acquire mk key r =
     (if rg_closed r then Some (r, Inl ErrRealtimeClosed)
      else case rg_owners r key of
             Some a \<Rightarrow> Some (r, Inr (a, True))
           | None \<Rightarrow>
               (case selectSlotLocked mk r of
                  None \<Rightarrow> None
                | Some (r1, Inl e) \<Rightarrow> Some (r1, Inl e)
                | Some (r1, Inr (a, created)) \<Rightarrow>
                    (let r2 = upd_slot a (\<lambda>s. addRoute key (cancelIdleTimer s)) r1;
                         r3 = r2\<lparr>rg_owners := (rg_owners r2)(key \<mapsto> a)\<rparr>;
                         r4 = (if created then fst (prepareSlotStartLocked a r3) else r3)
                     in Some (r4, Inr (a, False)))))"

definition removeSlotLocked :: "nat \<Rightarrow> conn_registry \<Rightarrow> conn_registry" where
  "removeSlotLocked a r = r\<lparr>rg_slots := remove1 a (rg_slots r)\<rparr>"

definition markSlotIdleLocked :: "nat \<Rightarrow> conn_registry \<Rightarrow> conn_registry" where
  "markSlotIdleLocked a r =
     (if routeCount (rg_heap r a) > 0 then r
      else if rg_closed r then upd_slot a slot_stop r
      else let r1 = upd_slot a cancelIdleTimer r
           in if rg_idleSlotTTL r1 \<le> 0 then upd_slot a slot_stop (removeSlotLocked a r1)
              else (upd_slot a (\<lambda>s. s\<lparr>cs_idleTimer := Some (rg_nextTimer r1)\<rparr>) r1)
                     \<lparr>rg_nextTimer := Suc (rg_nextTimer r1)\<rparr>)"

text \<open>\<open>rollback\<close> and \<open>release\<close> have the same body.\<close>

definition registry_release :: "string \<Rightarrow> nat \<Rightarrow> conn_registry \<Rightarrow> conn_registry" where
  "registry_release key a r =
     (if rg_owners r key \<noteq> Some a then r
      else markSlotIdleLocked a (upd_slot a (removeRoute key) (r\<lparr>rg_owners := (rg_owners r)(key := None)\<rparr>)))"

definition registry_owner :: "string \<Rightarrow> conn_registry \<Rightarrow> 'e ls_ws_error + nat option" where
  "registry_owner key r = (if rg_closed r then Inl ErrRealtimeClosed else Inr (rg_owners r key))"

definition firstConn :: "conn_registry \<Rightarrow> nat option" where
  "firstConn r = (case rg_slots r of [] \<Rightarrow> None | a # _ \<Rightarrow> Some a)"

definition registry_shutdown :: "conn_registry \<Rightarrow> conn_registry" where
  "registry_shutdown r =
     (if rg_closed r then r
      else fold (\<lambda>a. upd_slot a slot_stop) (rg_slots r)
             (r\<lparr>rg_closed := True, rg_slots := [], rg_owners := Map.empty\<rparr>))"

text \<open>The callback of an idle timer.\<close>

definition closeIdleSlot :: "nat \<Rightarrow> nat \<Rightarrow> conn_registry \<Rightarrow> conn_registry" where
  "closeIdleSlot a timer r =
     (if rg_closed r \<or> cs_idleTimer (rg_heap r a) \<noteq> Some timer \<or> routeCount (rg_heap r a) > 0 then r
      else upd_slot a slot_stop (removeSlotLocked a (upd_slot a (\<lambda>s. s\<lparr>cs_idleTimer := None\<rparr>) r)))"

definition subscribeTransport ::
    "(nat \<Rightarrow> bool) \<Rightarrow> (nat \<Rightarrow> string \<Rightarrow> 'e option) \<Rightarrow> string \<Rightarrow> conn_registry \<Rightarrow> (conn_registry \<times> 'e ls_ws_error option) option" where
  "subscribeTransport mk subR key r =
     (case registry_acquire mk key r of
        None \<Rightarrow> None
      | Some (r1, Inl e) \<Rightarrow> Some (r1, Some e)
      | Some (r1, Inr (a, existed)) \<Rightarrow>
          (case subR a key of
             None \<Rightarrow> Some (r1, None)
           | Some e \<Rightarrow> Some (if existed then r1 else registry_release key a r1, Some (CommandError e))))"

definition unsubscribeTransport ::
    "(nat \<Rightarrow> string \<Rightarrow> 'e option) \<Rightarrow> string \<Rightarrow> conn_registry \<Rightarrow> conn_registry \<times> 'e ls_ws_error option" where
  "unsubscribeTransport unsubR key r =
     (case registry_owner key r of
        Inl e \<Rightarrow> (r, Some e)
      | Inr None \<Rightarrow> (r, None)
      | Inr (Some a) \<Rightarrow>
          (case unsubR a key of
             Some e \<Rightarrow> (r, Some (CommandError e))
           | None \<Rightarrow> (registry_release key a r, None)))"

section \<open>The search for a slot ends\<close>

lemma find_SomeD: "List.find P xs = Some x \<Longrightarrow> x \<in> set xs \<and> P x"
  by (auto simp: find_Some_iff)

lemma select_loop_result:
  assumes "0 < rg_routeFillStep r"
  obtains (reuse) a where "select_loop r c = Some (Reuse a)" "a \<in> set (rg_slots r)"
      "routeCount (rg_heap r a) < rg_maxRoutesPerSlot r"
  | (create) "select_loop r c = Some Create" "int (length (rg_slots r)) < rg_maxConnSlots r"
  | (full) "select_loop r c = Some Full" "rg_maxConnSlots r \<le> int (length (rg_slots r))"
      "\<forall>a\<in>set (rg_slots r). rg_maxRoutesPerSlot r \<le> routeCount (rg_heap r a)"
proof -
  let ?P = "\<lambda>c. (\<exists>a\<in>set (rg_slots r). routeCount (rg_heap r a) < rg_maxRoutesPerSlot r \<and>
        select_loop r c = Some (Reuse a)) \<or>
      (select_loop r c = Some Create \<and> int (length (rg_slots r)) < rg_maxConnSlots r) \<or>
      (select_loop r c = Some Full \<and> rg_maxConnSlots r \<le> int (length (rg_slots r)) \<and>
        (\<forall>a\<in>set (rg_slots r). rg_maxRoutesPerSlot r \<le> routeCount (rg_heap r a)))"
  have "?P c"
  proof (induction "nat (rg_maxRoutesPerSlot r - c)" arbitrary: c rule: less_induct)
    case less
    show ?case
    proof (cases "c < rg_maxRoutesPerSlot r")
      case True
      then have "?P (c + rg_routeFillStep r)" using assms by (intro less) simp
      then show ?thesis
        using True by (subst (1 2 3) select_loop.simps)
          (auto split: option.splits dest: find_SomeD)
    next
      case False
      then show ?thesis
        by (subst (1 2 3) select_loop.simps)
           (auto split: option.splits simp: find_None_iff not_less dest: find_SomeD)
    qed
  qed
  then show thesis using that by blast
qed

section \<open>The invariant\<close>

definition slot_ok :: "conn_registry \<Rightarrow> nat \<Rightarrow> bool" where
  "slot_ok r a \<longleftrightarrow> a < rg_nextID r \<and> finite (cs_routes (rg_heap r a)) \<and>
     routeCount (rg_heap r a) \<le> rg_maxRoutesPerSlot r \<and> \<not> cs_stopping (rg_heap r a) \<and>
     (cs_routes (rg_heap r a) \<noteq> {} \<longrightarrow> cs_idleTimer (rg_heap r a) = None)"

definition settings_ok :: "conn_registry \<Rightarrow> bool" where
  "settings_ok r \<longleftrightarrow> 0 < rg_maxConnSlots r \<and> 0 < rg_maxRoutesPerSlot r \<and> 0 < rg_routeFillStep r"

definition reg_ok :: "conn_registry \<Rightarrow> bool" where
  "reg_ok r \<longleftrightarrow> settings_ok r \<and> distinct (rg_slots r) \<and> int (length (rg_slots r)) \<le> rg_maxConnSlots r \<and>
     (\<forall>a\<in>set (rg_slots r). slot_ok r a) \<and>
     (\<forall>k a. rg_owners r k = Some a \<longleftrightarrow> a \<in> set (rg_slots r) \<and> k \<in> cs_routes (rg_heap r a)) \<and>
     (rg_closed r \<longrightarrow> rg_slots r = [])"

definition settings_of :: "conn_registry \<Rightarrow> int \<times> int \<times> int \<times> int" where
  "settings_of r = (rg_maxConnSlots r, rg_maxRoutesPerSlot r, rg_routeFillStep r, rg_idleSlotTTL r)"

lemmas slot_defs = addRoute_def removeRoute_def cancelIdleTimer_def slot_stop_def upd_slot_def routeCount_def

lemma reg_ok_new: "reg_ok (newConnRegistry (normalizeDependencies d))"
  by (simp add: reg_ok_def settings_ok_def newConnRegistry_def normalizeDependencies_def Let_def)

lemma reg_ok_create:
  assumes "reg_ok r" and "\<not> rg_closed r" and "int (length (rg_slots r)) < rg_maxConnSlots r"
  shows "reg_ok (fst (createSlotLocked mk r))"
proof (cases "mk (rg_nextID r)")
  case False
  with assms show ?thesis
    by (auto simp: createSlotLocked_def reg_ok_def settings_ok_def slot_ok_def Let_def less_Suc_eq)
next
  case True
  have "rg_nextID r \<notin> set (rg_slots r)" using assms(1) by (auto simp: reg_ok_def slot_ok_def)
  with True assms show ?thesis
    by (auto simp: createSlotLocked_def reg_ok_def settings_ok_def slot_ok_def newConnSlot_def routeCount_def
      Let_def less_Suc_eq)
qed

lemma createSlotLocked_Some:
  assumes "createSlotLocked mk r = (r', Some a)"
  shows "a = rg_nextID r \<and> rg_slots r' = rg_slots r @ [a] \<and> cs_routes (rg_heap r' a) = {} \<and>
    rg_owners r' = rg_owners r \<and> rg_closed r' = rg_closed r \<and>
    rg_maxRoutesPerSlot r' = rg_maxRoutesPerSlot r"
  using assms by (auto simp: createSlotLocked_def newConnSlot_def Let_def split: if_splits)

lemma reg_ok_add_route:
  assumes "reg_ok r" and "\<not> rg_closed r" and "a \<in> set (rg_slots r)"
    and "routeCount (rg_heap r a) < rg_maxRoutesPerSlot r" and "rg_owners r key = None"
  shows "reg_ok ((upd_slot a (\<lambda>s. addRoute key (cancelIdleTimer s)) r)\<lparr>rg_owners := (rg_owners r)(key \<mapsto> a)\<rparr>)"
proof -
  have k: "key \<notin> cs_routes (rg_heap r b)" if "b \<in> set (rg_slots r)" for b
    using assms(1,5) that unfolding reg_ok_def by (metis option.distinct(1))
  have f: "finite (cs_routes (rg_heap r a))" using assms(1,3) by (simp add: reg_ok_def slot_ok_def)
  show ?thesis
    using assms k f by (auto simp: reg_ok_def settings_ok_def slot_ok_def slot_defs)
qed

lemma reg_ok_prepare: "reg_ok r \<Longrightarrow> reg_ok (fst (prepareSlotStartLocked a r))"
  by (auto simp: prepareSlotStartLocked_def reg_ok_def settings_ok_def slot_ok_def slot_defs)

lemma prepare_frame [simp]:
  "rg_slots (fst (prepareSlotStartLocked a r)) = rg_slots r"
  "rg_owners (fst (prepareSlotStartLocked a r)) = rg_owners r"
  "cs_routes (rg_heap (fst (prepareSlotStartLocked a r)) b) = cs_routes (rg_heap r b)"
  "rg_closed (fst (prepareSlotStartLocked a r)) = rg_closed r"
  by (auto simp: prepareSlotStartLocked_def upd_slot_def)

lemma reg_ok_start: "reg_ok r \<Longrightarrow> reg_ok (registry_start mk r)"
proof -
  assume ok: "reg_ok r"
  have fold: "reg_ok (fold (\<lambda>a r. fst (prepareSlotStartLocked a r)) as q)" if "reg_ok q" for as q
    using that by (induction as arbitrary: q) (simp_all add: reg_ok_prepare)
  have s: "reg_ok (r\<lparr>rg_started := True\<rparr>)"
    using ok by (simp add: reg_ok_def settings_ok_def slot_ok_def)
  show ?thesis
  proof (cases "rg_started r \<or> rg_closed r")
    case False
    have "reg_ok (fst (createSlotLocked mk (r\<lparr>rg_started := True\<rparr>)))" if "rg_slots r = []"
      using reg_ok_create [OF s] False that s by (simp add: reg_ok_def settings_ok_def)
    with s False show ?thesis by (auto simp: registry_start_def Let_def intro!: fold)
  qed (use ok in \<open>auto simp: registry_start_def\<close>)
qed

lemma selectSlotLocked_ok:
  assumes "reg_ok r" and "\<not> rg_closed r"
  obtains (placed) r1 a created where
      "selectSlotLocked mk r = Some (r1, Inr (a, created) :: 'e ls_ws_error + nat \<times> bool)" "reg_ok r1"
      "\<not> rg_closed r1" "a \<in> set (rg_slots r1)" "routeCount (rg_heap r1 a) < rg_maxRoutesPerSlot r1"
      "rg_owners r1 = rg_owners r" "rg_closed r1 = rg_closed r"
  | (failed) r1 where
      "selectSlotLocked mk r = Some (r1, Inl CreateError :: 'e ls_ws_error + nat \<times> bool)" "reg_ok r1" "rg_owners r1 = rg_owners r" "rg_closed r1 = rg_closed r"
      "int (length (rg_slots r)) < rg_maxConnSlots r" "\<not> mk (rg_nextID r)"
  | (full) "selectSlotLocked mk r = Some (r, Inl ErrWSConnectionLimit :: 'e ls_ws_error + nat \<times> bool)"
      "rg_maxConnSlots r \<le> int (length (rg_slots r))"
      "\<forall>a\<in>set (rg_slots r). rg_maxRoutesPerSlot r \<le> routeCount (rg_heap r a)"
proof -
  have step: "0 < rg_routeFillStep r" and max: "0 < rg_maxRoutesPerSlot r"
    using assms(1) by (simp_all add: reg_ok_def settings_ok_def)
  show thesis
  proof (cases rule: select_loop_result [OF step, of "rg_routeFillStep r"])
    case (1 a)
    with assms show thesis by (intro placed [of r a False]) (simp_all add: selectSlotLocked_def)
  next
    case 2
    note ok = reg_ok_create [OF assms 2(2), of mk]
    show thesis
    proof (cases "createSlotLocked mk r")
      case (Pair r' x)
      show thesis
      proof (cases x)
        case None
        with Pair 2 ok show thesis
          by (intro failed [of r']) (auto simp: selectSlotLocked_def createSlotLocked_def Let_def split: if_splits)
      next
        case (Some a)
        with Pair createSlotLocked_Some [of mk r r' a] 2 ok assms max show thesis
          by (intro placed [of r' a True]) (auto simp: selectSlotLocked_def routeCount_def)
      qed
    qed
  next
    case 3
    then show thesis by (intro full) (simp_all add: selectSlotLocked_def)
  qed
qed

lemma registry_acquire_ok:
  assumes "reg_ok r"
  obtains r' and res :: "'e ls_ws_error + nat \<times> bool"
  where "registry_acquire mk key r = Some (r', res)" and "reg_ok r'"
    and "\<And>a existed. res = Inr (a, existed) \<Longrightarrow> rg_owners r' = (rg_owners r)(key \<mapsto> a) \<and>
      rg_owners r key = (if existed then Some a else None)"
    and "\<And>e. res = Inl e \<Longrightarrow> rg_owners r' = rg_owners r" and "rg_closed r' = rg_closed r"
proof (cases "rg_closed r \<or> rg_owners r key \<noteq> None")
  case True
  then consider "rg_closed r" | y where "\<not> rg_closed r" "rg_owners r key = Some y" by auto
  then show thesis
  proof cases
    case 1
    with assms that [of r "Inl ErrRealtimeClosed"] show thesis by (simp add: registry_acquire_def)
  next
    case (2 y)
    with assms that [of r "Inr (y, True)"] show thesis
      by (simp add: registry_acquire_def fun_upd_idem)
  qed
next
  case False
  then have open': "\<not> rg_closed r" and none: "rg_owners r key = None" by auto
  show thesis
  proof (cases rule: selectSlotLocked_ok [where ?'e = 'e, OF assms open', of mk])
    case (1 r1 a created)
    let ?r3 = "(upd_slot a (\<lambda>s. addRoute key (cancelIdleTimer s)) r1)\<lparr>rg_owners := (rg_owners r1)(key \<mapsto> a)\<rparr>"
    have "reg_ok ?r3" using 1 none by (intro reg_ok_add_route) simp_all
    then show thesis
      using that [of "if created then fst (prepareSlotStartLocked a ?r3) else ?r3" "Inr (a, False)"] 1 False
      by (simp add: registry_acquire_def reg_ok_prepare upd_slot_def Let_def)
  next
    case (2 r1)
    with False that [of r1 "Inl CreateError"] show thesis by (simp add: registry_acquire_def)
  next
    case 3
    with False assms that [of r "Inl ErrWSConnectionLimit"] show thesis by (simp add: registry_acquire_def)
  qed
qed

lemma reg_ok_drop_slot:
  assumes "reg_ok r" and "cs_routes (rg_heap r a) = {}"
  shows "reg_ok (upd_slot a slot_stop (removeSlotLocked a r))"
proof -
  have d: "distinct (rg_slots r)" using assms(1) by (simp add: reg_ok_def)
  have "length (remove1 a (rg_slots r)) \<le> length (rg_slots r)" by (simp add: length_remove1)
  with d assms show ?thesis
    unfolding reg_ok_def removeSlotLocked_def
    by (auto simp: settings_ok_def slot_ok_def slot_defs)
qed

lemma reg_ok_release:
  assumes "reg_ok r"
  shows "reg_ok (registry_release key a r)"
proof (cases "rg_owners r key = Some a")
  case False
  with assms show ?thesis by (simp add: registry_release_def)
next
  case True
  let ?r = "upd_slot a (removeRoute key) (r\<lparr>rg_owners := (rg_owners r)(key := None)\<rparr>)"
  have a: "a \<in> set (rg_slots r)" "\<not> rg_closed r" using True assms by (auto simp: reg_ok_def)
  have other: "key \<notin> cs_routes (rg_heap r b)" if "b \<in> set (rg_slots r)" "b \<noteq> a" for b
    using assms True that unfolding reg_ok_def by (metis option.inject)
  have "card (cs_routes (rg_heap r a) - {key}) \<le> card (cs_routes (rg_heap r a))"
    using assms a by (intro card_mono) (auto simp: reg_ok_def slot_ok_def)
  then have ok: "reg_ok ?r"
    using assms a other by (auto simp: reg_ok_def settings_ok_def slot_ok_def slot_defs)
  have idle: "reg_ok (upd_slot a (\<lambda>s. s\<lparr>cs_idleTimer := t\<rparr>) ?r)" if "cs_routes (rg_heap ?r a) = {}" for t
    using ok that by (auto simp: reg_ok_def settings_ok_def slot_ok_def slot_defs)
  have fin: "finite (cs_routes (rg_heap ?r a))" using ok a by (auto simp: reg_ok_def slot_ok_def upd_slot_def)
  show ?thesis
  proof (cases "routeCount (rg_heap ?r a) > 0")
    case True
    then show ?thesis using \<open>rg_owners r key = Some a\<close> ok by (simp add: registry_release_def markSlotIdleLocked_def)
  next
    case False
    then have e: "cs_routes (rg_heap ?r a) = {}" using fin by (simp add: routeCount_def)
    have i: "reg_ok (upd_slot a cancelIdleTimer ?r)"
      using idle [OF e, of None] by (simp add: cancelIdleTimer_def [abs_def])
    have "cs_routes (rg_heap (upd_slot a cancelIdleTimer ?r) a) = {}" using e by (simp add: slot_defs)
    note drop = reg_ok_drop_slot [OF i this]
    have timer: "reg_ok ((upd_slot a (\<lambda>s. s\<lparr>cs_idleTimer := Some n\<rparr>) (upd_slot a cancelIdleTimer ?r))\<lparr>rg_nextTimer := m\<rparr>)" for n m
      using i e by (auto simp: reg_ok_def settings_ok_def slot_ok_def slot_defs)
    show ?thesis
      using False \<open>rg_owners r key = Some a\<close> drop timer a
      by (simp add: registry_release_def markSlotIdleLocked_def Let_def upd_slot_def)
  qed
qed

lemma reg_ok_shutdown: "reg_ok r \<Longrightarrow> reg_ok (registry_shutdown r)"
proof -
  assume ok: "reg_ok r"
  have "rg_slots (fold (\<lambda>a. upd_slot a slot_stop) as q) = rg_slots q \<and>
      rg_owners (fold (\<lambda>a. upd_slot a slot_stop) as q) = rg_owners q \<and>
      rg_closed (fold (\<lambda>a. upd_slot a slot_stop) as q) = rg_closed q \<and>
      settings_of (fold (\<lambda>a. upd_slot a slot_stop) as q) = settings_of q" for as q
    by (induction as arbitrary: q) (simp_all add: upd_slot_def settings_of_def)
  with ok show ?thesis
    by (auto simp: registry_shutdown_def reg_ok_def settings_ok_def settings_of_def)
qed

lemma reg_ok_closeIdle: "reg_ok r \<Longrightarrow> reg_ok (closeIdleSlot a t r)"
proof -
  assume ok: "reg_ok r"
  let ?r = "upd_slot a (\<lambda>s. s\<lparr>cs_idleTimer := None\<rparr>) r"
  have "reg_ok ?r" using ok by (auto simp: reg_ok_def settings_ok_def slot_ok_def slot_defs)
  moreover have "reg_ok (upd_slot a slot_stop (removeSlotLocked a ?r))"
    if "\<not> routeCount (rg_heap r a) > 0" "a \<in> set (rg_slots r)"
    using that ok reg_ok_drop_slot [OF \<open>reg_ok ?r\<close>, of a]
    by (auto simp: reg_ok_def slot_ok_def routeCount_def upd_slot_def)
  moreover have "reg_ok (upd_slot a slot_stop (removeSlotLocked a ?r))" if "a \<notin> set (rg_slots r)"
    using that \<open>reg_ok ?r\<close>
    by (auto simp: remove1_idem removeSlotLocked_def reg_ok_def settings_ok_def slot_ok_def slot_defs)
  ultimately show ?thesis using ok by (auto simp: closeIdleSlot_def)
qed

lemma registry_release_owners:
  "rg_owners (registry_release key a r) =
     (if rg_owners r key = Some a then (rg_owners r)(key := None) else rg_owners r)"
  "rg_closed (registry_release key a r) = rg_closed r"
  by (simp_all add: registry_release_def markSlotIdleLocked_def removeSlotLocked_def upd_slot_def Let_def)

text \<open>A subscribe call always returns; it owns the route if it succeeds and changes no
  ownership if it fails.\<close>

lemma subscribeTransport_ok:
  assumes "reg_ok r"
  obtains r' and res :: "'e ls_ws_error option"
  where "subscribeTransport mk subR key r = Some (r', res)" and "reg_ok r'" and "rg_closed r' = rg_closed r"
    and "dom (rg_owners r') = (if res = None then insert key (dom (rg_owners r)) else dom (rg_owners r))"
proof (cases rule: registry_acquire_ok [where ?'e = 'e, OF assms, of mk key])
  case (1 r1 res)
  show thesis
  proof (cases res)
    case (Inl e)
    with 1 that [of r1 "Some e"] show thesis by (simp add: subscribeTransport_def)
  next
    case (Inr p)
    obtain a existed where p: "p = (a, existed)" by (cases p)
    have o: "rg_owners r1 = (rg_owners r)(key \<mapsto> a)" "rg_owners r key = (if existed then Some a else None)"
      using 1(3) Inr p by blast+
    show thesis
    proof (cases "subR a key")
      case None
      with 1 Inr p o that [of r1 None] show thesis by (simp add: subscribeTransport_def)
    next
      case (Some e)
      let ?r = "if existed then r1 else registry_release key a r1"
      have "subscribeTransport mk subR key r = Some (?r, Some (CommandError e))"
        using 1 Inr p Some by (simp add: subscribeTransport_def)
      moreover have "dom (rg_owners ?r) = dom (rg_owners r)"
        using o by (auto simp: registry_release_owners split: if_splits)
      ultimately show thesis
        using 1 that [of ?r "Some (CommandError e)"] by (simp add: registry_release_owners reg_ok_release)
    qed
  qed
qed

lemma unsubscribeTransport_ok:
  assumes "reg_ok r" and "unsubscribeTransport unsubR key r = (r', res)"
  shows "reg_ok r' \<and> rg_closed r' = rg_closed r \<and>
    dom (rg_owners r') = (if res = None then dom (rg_owners r) - {key} else dom (rg_owners r))"
  using assms
  by (auto simp: unsubscribeTransport_def registry_owner_def registry_release_owners reg_ok_release
      split: if_splits option.splits)

section \<open>Reachable registries\<close>

text \<open>One step is one critical section: any goroutine may start or shut down the registry,
  place or drop a route, or be the callback of an idle timer. \<open>subscribeTransport\<close> and
  \<open>unsubscribeTransport\<close> are two such steps with other steps in between.\<close>

inductive rg_step :: "(nat \<Rightarrow> bool) \<Rightarrow> conn_registry \<Rightarrow> conn_registry \<Rightarrow> bool" for mk where
  rg_start: "rg_step mk r (registry_start mk r)"
| rg_acquire: "registry_acquire mk key r = Some (r', res :: unit ls_ws_error + nat \<times> bool) \<Longrightarrow> rg_step mk r r'"
| rg_release: "rg_step mk r (registry_release key a r)"
| rg_shutdown: "rg_step mk r (registry_shutdown r)"
| rg_idle: "rg_step mk r (closeIdleSlot a t r)"

inductive_cases rg_step_cases: "rg_step mk r r'"

definition reg_state :: "ls_dependencies \<Rightarrow> conn_registry \<Rightarrow> bool" where
  "reg_state d r \<longleftrightarrow> reg_ok r \<and> settings_of r = settings_of (newConnRegistry (normalizeDependencies d))"

lemma settings_frame [simp]:
  "settings_of (upd_slot a f r) = settings_of r"
  "settings_of (removeSlotLocked a r) = settings_of r"
  "settings_of (fst (createSlotLocked mk r)) = settings_of r"
  "settings_of (fst (prepareSlotStartLocked a r)) = settings_of r"
  "settings_of (r\<lparr>rg_owners := m\<rparr>) = settings_of r"
  "settings_of (r\<lparr>rg_started := b\<rparr>) = settings_of r"
  "settings_of (r\<lparr>rg_nextTimer := n\<rparr>) = settings_of r"
  "settings_of (r\<lparr>rg_closed := b\<rparr>) = settings_of r"
  "settings_of (r\<lparr>rg_slots := sl\<rparr>) = settings_of r"
  by (auto simp: settings_of_def upd_slot_def removeSlotLocked_def createSlotLocked_def
      prepareSlotStartLocked_def Let_def)

lemma settings_fold:
  assumes "\<And>a r. settings_of (f a r) = settings_of r"
  shows "settings_of (fold f as r) = settings_of r"
  by (induction as arbitrary: r) (simp_all add: assms)

lemma settings_acquire:
  assumes "registry_acquire mk key r = Some (r', res)"
  shows "settings_of r' = settings_of r"
proof -
  have "settings_of r1 = settings_of r" if "createSlotLocked mk r = (r1, x)" for r1 x
    using settings_frame(3) [of mk r] that by simp
  with assms show ?thesis
    by (auto simp: registry_acquire_def selectSlotLocked_def Let_def
        split: if_splits option.splits sum.splits prod.splits slot_choice.splits)
qed

lemma settings_step: "rg_step mk r r' \<Longrightarrow> settings_of r' = settings_of r"
  by (cases rule: rg_step.cases, assumption)
     (auto simp: registry_start_def registry_release_def markSlotIdleLocked_def registry_shutdown_def
       closeIdleSlot_def Let_def settings_fold settings_acquire)

lemma reg_ok_step: "reg_ok r \<Longrightarrow> rg_step mk r r' \<Longrightarrow> reg_ok r'"
proof (elim rg_step_cases)
  fix key and res :: "unit ls_ws_error + nat \<times> bool"
  assume "reg_ok r" and a: "registry_acquire mk key r = Some (r', res)"
  then show "reg_ok r'"
    by (cases rule: registry_acquire_ok [where ?'e = unit, of r mk key]) simp_all
qed (simp_all add: reg_ok_start reg_ok_release reg_ok_shutdown reg_ok_closeIdle)

interpretation ls_reg: invariant_system "\<lambda>r. r = newConnRegistry (normalizeDependencies d)" "rg_step mk" "reg_state d"
  for d mk
  by unfold_locales (auto simp: reg_state_def reg_ok_new settings_step intro: reg_ok_step)

text \<open>The routes of the managed slots add up to the owned routes.\<close>

lemma reg_ok_card_owners:
  assumes "reg_ok r"
  shows "int (card (dom (rg_owners r))) = (\<Sum>a\<in>set (rg_slots r). routeCount (rg_heap r a))"
proof -
  have own: "rg_owners r k = Some a \<longleftrightarrow> a \<in> set (rg_slots r) \<and> k \<in> cs_routes (rg_heap r a)" for k a
    using assms unfolding reg_ok_def by blast
  have "dom (rg_owners r) = (\<Union>a\<in>set (rg_slots r). cs_routes (rg_heap r a))"
    using own by (auto simp: dom_def)
  also have "card \<dots> = (\<Sum>a\<in>set (rg_slots r). card (cs_routes (rg_heap r a)))"
  proof (intro card_UN_disjoint ballI impI)
    fix a b assume "a \<in> set (rg_slots r)" "b \<in> set (rg_slots r)" "a \<noteq> b"
    then show "cs_routes (rg_heap r a) \<inter> cs_routes (rg_heap r b) = {}"
      using own by (metis disjoint_iff option.inject)
  qed (use assms in \<open>auto simp: reg_ok_def slot_ok_def\<close>)
  finally show ?thesis by (simp add: routeCount_def)
qed

lemma reg_ok_full_iff:
  assumes "reg_ok r"
  shows "int (card (dom (rg_owners r))) = rg_maxConnSlots r * rg_maxRoutesPerSlot r \<longleftrightarrow>
    int (length (rg_slots r)) = rg_maxConnSlots r \<and>
    (\<forall>a\<in>set (rg_slots r). rg_maxRoutesPerSlot r \<le> routeCount (rg_heap r a))"
proof -
  let ?m = "rg_maxRoutesPerSlot r" and ?n = "rg_maxConnSlots r" and ?c = "\<lambda>a. routeCount (rg_heap r a)"
  have le: "?c a \<le> ?m" if "a \<in> set (rg_slots r)" for a using assms that by (simp add: reg_ok_def slot_ok_def)
  have m: "0 < ?m" and n: "int (length (rg_slots r)) \<le> ?n" and d: "distinct (rg_slots r)"
    using assms by (simp_all add: reg_ok_def settings_ok_def)
  have len: "(\<Sum>a\<in>set (rg_slots r). ?m) = int (length (rg_slots r)) * ?m"
    by (simp add: distinct_card [OF d])
  have up: "(\<Sum>a\<in>set (rg_slots r). ?c a) \<le> int (length (rg_slots r)) * ?m"
    unfolding len [symmetric] by (intro sum_mono le)
  have up2: "int (length (rg_slots r)) * ?m \<le> ?n * ?m" using n m by simp
  show ?thesis
  proof
    assume "int (card (dom (rg_owners r))) = ?n * ?m"
    then have e: "(\<Sum>a\<in>set (rg_slots r). ?c a) = ?n * ?m" by (simp add: reg_ok_card_owners [OF assms])
    with up up2 have l: "int (length (rg_slots r)) * ?m = ?n * ?m" by linarith
    with e len have s: "(\<Sum>a\<in>set (rg_slots r). ?m - ?c a) = 0" by (simp add: sum_subtractf)
    then have "\<forall>a\<in>set (rg_slots r). ?m - ?c a = 0"
      using sum_nonneg_eq_0_iff [of "set (rg_slots r)" "\<lambda>a. ?m - ?c a"] le by simp
    with l m show "int (length (rg_slots r)) = ?n \<and> (\<forall>a\<in>set (rg_slots r). ?m \<le> ?c a)" by auto
  next
    assume f: "int (length (rg_slots r)) = ?n \<and> (\<forall>a\<in>set (rg_slots r). ?m \<le> ?c a)"
    then have "(\<Sum>a\<in>set (rg_slots r). ?c a) = (\<Sum>a\<in>set (rg_slots r). ?m)"
      using le by (intro sum.cong) (auto intro: antisym)
    with f len show "int (card (dom (rg_owners r))) = ?n * ?m" by (simp add: reg_ok_card_owners [OF assms])
  qed
qed

lemma selected_not_full:
  assumes "reg_ok r" and "selectSlotLocked mk r = Some (r1, Inr p)"
  shows "\<not> (int (length (rg_slots r)) = rg_maxConnSlots r \<and>
    (\<forall>a\<in>set (rg_slots r). rg_maxRoutesPerSlot r \<le> routeCount (rg_heap r a)))"
proof -
  have "0 < rg_routeFillStep r" using assms(1) by (simp add: reg_ok_def settings_ok_def)
  then show ?thesis
    using assms(2) by (cases rule: select_loop_result [of r "rg_routeFillStep r"])
      (auto simp: selectSlotLocked_def not_le)
qed

text \<open>C18. Whatever the order in which goroutines start, place, drop, time out and shut down,
  the registry keeps to its limits: no more connections than \<open>MaxConnSlots\<close>, no more
  routes on a connection than \<open>MaxRoutesPerSlot\<close>, where a missing limit is the default;
  a route is owned by a slot exactly when the slot is managed and carries the route, no
  two slots carry the same route, no managed slot has been stopped or has an idle timer
  running while it carries routes, and a closed registry owns nothing.\<close>

theorem ls_registry_invariant:
  assumes "(rg_step mk)\<^sup>*\<^sup>* (newConnRegistry (normalizeDependencies d)) r"
  shows "int (length (rg_slots r)) \<le> ld_MaxConnSlots (normalizeDependencies d) \<and>
    (\<forall>a\<in>set (rg_slots r). routeCount (rg_heap r a) \<le> ld_MaxRoutesPerSlot (normalizeDependencies d) \<and>
      \<not> cs_stopping (rg_heap r a) \<and>
      (cs_routes (rg_heap r a) \<noteq> {} \<longrightarrow> cs_idleTimer (rg_heap r a) = None)) \<and>
    (\<forall>k a. rg_owners r k = Some a \<longleftrightarrow> a \<in> set (rg_slots r) \<and> k \<in> cs_routes (rg_heap r a)) \<and>
    (\<forall>a\<in>set (rg_slots r). \<forall>b\<in>set (rg_slots r). a \<noteq> b \<longrightarrow>
      cs_routes (rg_heap r a) \<inter> cs_routes (rg_heap r b) = {}) \<and>
    (rg_closed r \<longrightarrow> rg_slots r = [] \<and> rg_owners r = Map.empty)"
proof -
  from ls_reg.ok_reachable [OF refl assms] have ok: "reg_ok r"
    and s: "settings_of r = settings_of (newConnRegistry (normalizeDependencies d))"
    by (simp_all add: reg_state_def)
  have own: "rg_owners r k = Some a \<longleftrightarrow> a \<in> set (rg_slots r) \<and> k \<in> cs_routes (rg_heap r a)" for k a
    using ok by (simp add: reg_ok_def)
  have disjoint: "cs_routes (rg_heap r a) \<inter> cs_routes (rg_heap r b) = {}"
    if "a \<in> set (rg_slots r)" "b \<in> set (rg_slots r)" "a \<noteq> b" for a b
    using own that by (metis disjoint_iff option.inject)
  have empty: "rg_owners r = Map.empty" if "rg_slots r = []"
  proof
    fix k show "rg_owners r k = None" using own that by (cases "rg_owners r k") auto
  qed
  show ?thesis
    using ok s disjoint empty by (auto simp: reg_ok_def slot_ok_def settings_of_def newConnRegistry_def)
qed

text \<open>C19. Placement always ends and is complete: on any reachable open registry, a new route
  gets a managed slot, unless the transport of a new connection cannot be built or
  every one of the \<open>MaxConnSlots * MaxRoutesPerSlot\<close> places is taken, and then exactly
  the limit error is returned and no route has moved.\<close>

theorem ls_registry_places:
  fixes mk :: "nat \<Rightarrow> bool"
  assumes "(rg_step mk)\<^sup>*\<^sup>* (newConnRegistry (normalizeDependencies d)) r"
    and "\<not> rg_closed r" and "rg_owners r key = None" and "mk (rg_nextID r)"
  shows "\<exists>r' res. registry_acquire mk key r = Some (r', res :: 'e ls_ws_error + nat \<times> bool) \<and>
    (if int (card (dom (rg_owners r))) =
        ld_MaxConnSlots (normalizeDependencies d) * ld_MaxRoutesPerSlot (normalizeDependencies d)
     then res = Inl ErrWSConnectionLimit \<and> r' = r
     else \<exists>a. res = Inr (a, False) \<and> a \<in> set (rg_slots r') \<and> rg_owners r' = (rg_owners r)(key \<mapsto> a))"
proof -
  from ls_reg.ok_reachable [OF refl assms(1)] have ok: "reg_ok r"
    and "settings_of r = settings_of (newConnRegistry (normalizeDependencies d))"
    by (simp_all add: reg_state_def)
  then have s: "ld_MaxConnSlots (normalizeDependencies d) = rg_maxConnSlots r"
      "ld_MaxRoutesPerSlot (normalizeDependencies d) = rg_maxRoutesPerSlot r"
    by (simp_all add: settings_of_def newConnRegistry_def)
  note full = reg_ok_full_iff [OF ok]
  show ?thesis
  proof (cases rule: selectSlotLocked_ok [where ?'e = 'e, OF ok assms(2), of mk])
    case (1 r1 a created)
    have "\<not> (int (length (rg_slots r)) = rg_maxConnSlots r \<and>
        (\<forall>a\<in>set (rg_slots r). rg_maxRoutesPerSlot r \<le> routeCount (rg_heap r a)))"
      using selected_not_full [OF ok 1(1)] .
    with 1 full assms show ?thesis by (auto simp: s registry_acquire_def Let_def upd_slot_def)
  next
    case (2 r1)
    with assms(4) show ?thesis by simp
  next
    case 3
    have "int (length (rg_slots r)) = rg_maxConnSlots r" using ok 3 by (simp add: reg_ok_def)
    with 3 full assms show ?thesis by (auto simp: s registry_acquire_def)
  qed
qed

definition demo_deps :: ls_dependencies where
  "demo_deps = \<lparr>ld_MaxConnSlots = 1, ld_MaxRoutesPerSlot = 1, ld_RouteFillStep = 0, ld_IdleSlotTTL = 0\<rparr>"

definition demo_reg :: conn_registry where
  "demo_reg = registry_start (\<lambda>_. True) (newConnRegistry (normalizeDependencies demo_deps))"

definition demo_reg_full :: conn_registry where
  "demo_reg_full = demo_reg\<lparr>rg_heap := (rg_heap demo_reg)(1 := addRoute ''rt:S3_:005930'' (rg_heap demo_reg 1)),
     rg_owners := [''rt:S3_:005930'' \<mapsto> 1]\<rparr>"

lemmas demo_reg_defs = demo_reg_def demo_deps_def newConnRegistry_def normalizeDependencies_def
  registry_start_def createSlotLocked_def prepareSlotStartLocked_def newConnSlot_def upd_slot_def
  addRoute_def cancelIdleTimer_def Let_def

lemma demo_reg_acquire:
  "registry_acquire (\<lambda>_. True) ''rt:S3_:005930'' demo_reg = Some (demo_reg_full, Inr (1, False))"
  by (simp add: registry_acquire_def selectSlotLocked_def select_loop.simps routeCount_def
      demo_reg_full_def demo_reg_defs)

lemma demo_reg_steps:
  "(rg_step (\<lambda>_. True))\<^sup>*\<^sup>* (newConnRegistry (normalizeDependencies demo_deps)) demo_reg"
  "(rg_step (\<lambda>_. True))\<^sup>*\<^sup>* (newConnRegistry (normalizeDependencies demo_deps)) demo_reg_full"
proof -
  show *: "(rg_step (\<lambda>_. True))\<^sup>*\<^sup>* (newConnRegistry (normalizeDependencies demo_deps)) demo_reg"
    unfolding demo_reg_def by (intro r_into_rtranclp rg_start)
  show "(rg_step (\<lambda>_. True))\<^sup>*\<^sup>* (newConnRegistry (normalizeDependencies demo_deps)) demo_reg_full"
    using * rg_acquire [OF demo_reg_acquire] by (rule rtranclp.rtrancl_into_rtrancl)
qed

theorem ls_registry_invariant_witness:
  "rg_owners demo_reg_full ''rt:S3_:005930'' = Some 1 \<and> rg_slots demo_reg_full = [1] \<and>
    routeCount (rg_heap demo_reg_full 1) \<le> 1"
proof -
  have "rg_slots demo_reg_full = [1]" and "ld_MaxRoutesPerSlot (normalizeDependencies demo_deps) = 1"
    by (simp_all add: demo_reg_full_def demo_reg_defs)
  moreover have "rg_owners demo_reg_full ''rt:S3_:005930'' = Some 1" by (simp add: demo_reg_full_def)
  ultimately show ?thesis using ls_registry_invariant [OF demo_reg_steps(2)] by simp
qed

theorem ls_registry_places_witness:
  "registry_acquire (\<lambda>_. True) ''rt:H1_:005930'' demo_reg_full =
    Some (demo_reg_full, Inl ErrWSConnectionLimit :: unit ls_ws_error + nat \<times> bool)"
proof -
  have "\<not> rg_closed demo_reg_full" and "rg_owners demo_reg_full ''rt:H1_:005930'' = None"
    and "dom (rg_owners demo_reg_full) = {''rt:S3_:005930''}"
    and "ld_MaxConnSlots (normalizeDependencies demo_deps) * ld_MaxRoutesPerSlot (normalizeDependencies demo_deps) = 1"
    by (simp_all add: demo_reg_full_def demo_reg_defs)
  with ls_registry_places [OF demo_reg_steps(2), where ?'e = unit] show ?thesis by auto
qed

end
