(* ===== verification/WS_Mux.thy ===== *)
theory WS_Mux
  imports HTS_Prelude
begin

text \<open>
  The reconnecting websocket multiplexer: \<open>internal/core/pkg/wsrefact_v6\<close> (\<open>types.go\<close>,
  \<open>errors.go\<close>, \<open>mux.go\<close>, \<open>ioworker.go\<close>, \<open>client.go\<close>): the state of the mux, of its io workers
  and of the client, and every handler as a function. \<open>WS_Mux_System\<close> runs them concurrently.

  A completion handle (\<open>Subscription\<close>) is a number, its order of submission; \<open>mx_resolved\<close> is
  the log of all calls of \<open>resolve\<close>. A dial context is a number, and \<open>mx_cancelled\<close> holds the
  cancelled ones. A send on a worker mailbox without a \<open>default\<close> branch may block: a handler
  queues such sends in \<open>mx_sending\<close>, and the mux does nothing else before they are done.
  Likewise \<open>iw_todo\<close> holds what a worker still has to publish. The mailbox of worker \<open>i\<close> is
  \<open>mw_CommandCh\<close> of the \<open>i\<close>th worker runtime.

  The encoder, the dialer and the connections are arguments: each handler takes their answers.
\<close>

section \<open>Commands, events and errors\<close>

datatype 'e ws_error =
    ErrWorkersRequired | ErrInvalidQueueSize | ErrInvalidWriteTimeout
  | ErrEncoderRequired | ErrDialerRequired | ErrURLRequired
  | ErrMuxStopped | ErrNotConnected | ErrReconnecting | ErrQueueFull
  | ErrSubscriptionExists | ErrSubscriptionNotFound | ErrMuxCapacityReached | ErrPlacementRejected
  | EncodeWriteError 'e | OperationError string 'e

datatype write_action = ActionSubscribe | ActionUnsubscribe | ActionPing

record write_intent =
  wi_Key :: string
  wi_Action :: write_action

datatype user_kind = UserSubscribe | UserUnsubscribe

record user_command =
  uc_Kind :: user_kind
  uc_Key :: string
  uc_Sub :: nat

datatype io_command =
    IoConnect nat
  | IoReconnect nat
  | IoWrite write_intent nat
  | IoReplayWrite write_intent
  | IoPing write_intent

datatype 'e io_event =
    WkConnected nat
  | WkConnectFailed nat "'e ws_error"
  | WkReconnected nat
  | WkWriteFailed nat write_intent "'e ws_error"
  | WkDisconnected nat 'e
  | WkPingTick nat nat

section \<open>The state of the mux\<close>

datatype worker_state = WorkerConnecting | WorkerReconnecting | WorkerConnected | WorkerStopped

record mux_worker =
  mw_CommandCh :: "io_command chan"
  mw_Open :: bool
  mw_State :: worker_state
  mw_DesiredKeys :: "string list"
  mw_DialCtx :: "nat option"
  mw_PingInterval :: int
  mw_PingOn :: bool
  mw_HeartbeatEpoch :: nat

record mux_subscription =
  ms_WorkerIndex :: nat
  ms_Intent :: write_intent

datatype mux_run_state = MuxReady | MuxRunning | MuxStopping | MuxStopped

record 'e mux =
  mx_events :: "'e io_event chan"
  mx_commands :: "user_command chan"
  mx_closed :: bool
  mx_workers :: "mux_worker list"
  mx_subscriptions :: "string \<rightharpoonup> mux_subscription"
  mx_state :: mux_run_state
  mx_shutdownErr :: "'e ws_error"
  mx_fatal :: "'e ws_error list"
  mx_resolved :: "(nat \<times> 'e ws_error option) list"
  mx_sending :: "(nat \<times> io_command) list"
  mx_nextDial :: nat
  mx_cancelled :: "nat set"

record worker_snapshot =
  ss_Index :: nat
  ss_State :: worker_state
  ss_SubscriptionCount :: nat

type_synonym 'e placement_policy = "string \<Rightarrow> worker_snapshot list \<Rightarrow> 'e ws_error + int"

section \<open>Placement\<close>

text \<open>The loop carries the least loaded connected worker and the least loaded worker that is
  not stopped, each with its load; \<open>None\<close> is the index -1.\<close>

fun placement_loop ::
    "worker_snapshot list \<Rightarrow> (nat \<times> nat) option \<Rightarrow> (nat \<times> nat) option \<Rightarrow> (nat \<times> nat) option \<times> (nat \<times> nat) option" where
  "placement_loop [] con fall = (con, fall)"
| "placement_loop (w # ws) con fall =
     (if ss_State w = WorkerStopped then placement_loop ws con fall
      else let better = (\<lambda>best. case best of None \<Rightarrow> True | Some (_, n) \<Rightarrow> ss_SubscriptionCount w < n);
               fall' = (if better fall then Some (ss_Index w, ss_SubscriptionCount w) else fall)
           in if ss_State w \<noteq> WorkerConnected then placement_loop ws con fall'
              else placement_loop ws (if better con then Some (ss_Index w, ss_SubscriptionCount w) else con) fall')"

definition defaultPlacementPolicy :: "'e placement_policy" where
  "defaultPlacementPolicy key ws =
     (case placement_loop ws None None of
        (Some (i, _), _) \<Rightarrow> Inr (int i)
      | (None, Some (i, _)) \<Rightarrow> Inr (int i)
      | (None, None) \<Rightarrow> Inl ErrMuxCapacityReached)"

definition snapshots :: "mux_worker list \<Rightarrow> worker_snapshot list" where
  "snapshots ws = map (\<lambda>i. \<lparr>ss_Index = i, ss_State = mw_State (ws ! i),
     ss_SubscriptionCount = length (mw_DesiredKeys (ws ! i))\<rparr>) [0..<length ws]"

definition pickWorker :: "'e placement_policy \<Rightarrow> string \<Rightarrow> 'e mux \<Rightarrow> 'e ws_error + nat" where
  "pickWorker policy key m =
     (case policy key (snapshots (mx_workers m)) of
        Inl e \<Rightarrow> Inl e
      | Inr i \<Rightarrow>
          if i < 0 \<or> i \<ge> int (length (mx_workers m)) then Inl ErrPlacementRejected
          else if mw_State (mx_workers m ! nat i) = WorkerStopped then Inl ErrPlacementRejected
          else Inr (nat i))"

section \<open>Handlers of the mux\<close>

definition upd_worker :: "nat \<Rightarrow> (mux_worker \<Rightarrow> mux_worker) \<Rightarrow> 'e mux \<Rightarrow> 'e mux" where
  "upd_worker i f m = m\<lparr>mx_workers := (mx_workers m)[i := f (mx_workers m ! i)]\<rparr>"

definition resolve :: "nat \<Rightarrow> 'e ws_error option \<Rightarrow> 'e mux \<Rightarrow> 'e mux" where
  "resolve s r m = m\<lparr>mx_resolved := mx_resolved m @ [(s, r)]\<rparr>"

definition result_of :: "'e mux \<Rightarrow> nat \<Rightarrow> 'e ws_error option option" where
  "result_of m s = map_of (mx_resolved m) s"

fun index_of :: "string \<Rightarrow> string list \<Rightarrow> nat option" where
  "index_of k [] = None"
| "index_of k (x # xs) = (if x = k then Some 0 else map_option Suc (index_of k xs))"

definition removeDesiredKey :: "nat \<Rightarrow> string \<Rightarrow> 'e mux \<Rightarrow> 'e mux \<times> int" where
  "removeDesiredKey i key m =
     (case index_of key (mw_DesiredKeys (mx_workers m ! i)) of
        None \<Rightarrow> (m, -1)
      | Some j \<Rightarrow> (upd_worker i (\<lambda>w. w\<lparr>mw_DesiredKeys := take j (mw_DesiredKeys w) @ drop (Suc j) (mw_DesiredKeys w)\<rparr>) m, int j))"

definition insertDesiredKey :: "nat \<Rightarrow> string \<Rightarrow> int \<Rightarrow> 'e mux \<Rightarrow> 'e mux" where
  "insertDesiredKey i key j m =
     upd_worker i (\<lambda>w. w\<lparr>mw_DesiredKeys :=
       (if j < 0 \<or> j \<ge> int (length (mw_DesiredKeys w)) then mw_DesiredKeys w @ [key]
        else take (nat j) (mw_DesiredKeys w) @ key # drop (nat j) (mw_DesiredKeys w))\<rparr>) m"

definition dispatchLiveWrite :: "nat \<Rightarrow> write_intent \<Rightarrow> nat \<Rightarrow> 'e mux \<Rightarrow> 'e mux \<times> 'e ws_error option" where
  "dispatchLiveWrite i intent s m =
     (case chan_send (mw_CommandCh (mx_workers m ! i)) (IoWrite intent s) of
        Some ch \<Rightarrow> (upd_worker i (\<lambda>w. w\<lparr>mw_CommandCh := ch\<rparr>) m, None)
      | None \<Rightarrow> (m, Some ErrQueueFull))"

text \<open>\<open>handleSubscribe\<close> appends the key to a local copy of \<open>DesiredKeys\<close>, which it does not store
  back: the worker keeps the list it had.\<close>

definition handleSubscribe :: "'e placement_policy \<Rightarrow> user_command \<Rightarrow> 'e mux \<Rightarrow> 'e mux" where
  "handleSubscribe policy c m =
     (if mx_subscriptions m (uc_Key c) \<noteq> None then resolve (uc_Sub c) (Some ErrSubscriptionExists) m
      else case pickWorker policy (uc_Key c) m of
             Inl e \<Rightarrow> resolve (uc_Sub c) (Some e) m
           | Inr i \<Rightarrow>
               (let intent = \<lparr>wi_Key = uc_Key c, wi_Action = ActionSubscribe\<rparr>;
                    m1 = m\<lparr>mx_subscriptions := (mx_subscriptions m)(uc_Key c \<mapsto> \<lparr>ms_WorkerIndex = i, ms_Intent = intent\<rparr>)\<rparr>
                in if mw_State (mx_workers m1 ! i) \<noteq> WorkerConnected then resolve (uc_Sub c) None m1
                   else case dispatchLiveWrite i intent (uc_Sub c) m1 of
                          (m2, None) \<Rightarrow> m2
                        | (m2, Some e) \<Rightarrow>
                            resolve (uc_Sub c) (Some e) (fst (removeDesiredKey i (uc_Key c)
                              (m2\<lparr>mx_subscriptions := (mx_subscriptions m2)(uc_Key c := None)\<rparr>)))))"

definition handleUnsubscribe :: "user_command \<Rightarrow> 'e mux \<Rightarrow> 'e mux" where
  "handleUnsubscribe c m =
     (case mx_subscriptions m (uc_Key c) of
        None \<Rightarrow> resolve (uc_Sub c) (Some ErrSubscriptionNotFound) m
      | Some entry \<Rightarrow>
          (let i = ms_WorkerIndex entry
           in case removeDesiredKey i (uc_Key c) (m\<lparr>mx_subscriptions := (mx_subscriptions m)(uc_Key c := None)\<rparr>) of
                (m1, j) \<Rightarrow>
                  if mw_State (mx_workers m1 ! i) \<noteq> WorkerConnected then resolve (uc_Sub c) None m1
                  else case dispatchLiveWrite i ((ms_Intent entry)\<lparr>wi_Action := ActionUnsubscribe\<rparr>) (uc_Sub c) m1 of
                         (m2, None) \<Rightarrow> m2
                       | (m2, Some e) \<Rightarrow>
                           resolve (uc_Sub c) (Some e) (insertDesiredKey i (uc_Key c) j
                             (m2\<lparr>mx_subscriptions := (mx_subscriptions m2)(uc_Key c \<mapsto> entry)\<rparr>))))"

definition handleCommand :: "'e placement_policy \<Rightarrow> user_command \<Rightarrow> 'e mux \<Rightarrow> 'e mux" where
  "handleCommand policy c m =
     (case uc_Kind c of UserSubscribe \<Rightarrow> handleSubscribe policy c m | UserUnsubscribe \<Rightarrow> handleUnsubscribe c m)"

definition handlePingTick :: "nat \<Rightarrow> nat \<Rightarrow> 'e mux \<Rightarrow> 'e mux" where
  "handlePingTick i epoch m =
     (let w = mx_workers m ! i
      in if mw_State w \<noteq> WorkerConnected then m
         else if epoch \<noteq> mw_HeartbeatEpoch w then m
         else upd_worker i (\<lambda>w. w\<lparr>mw_CommandCh :=
                fst (chan_try_send (mw_CommandCh w) (IoPing \<lparr>wi_Key = [], wi_Action = ActionPing\<rparr>))\<rparr>) m)"

definition cancel_dial :: "nat \<Rightarrow> 'e mux \<Rightarrow> 'e mux" where
  "cancel_dial i m =
     (case mw_DialCtx (mx_workers m ! i) of None \<Rightarrow> m | Some d \<Rightarrow> m\<lparr>mx_cancelled := insert d (mx_cancelled m)\<rparr>)"

definition clearDialCancel :: "nat \<Rightarrow> 'e mux \<Rightarrow> 'e mux" where
  "clearDialCancel i m = upd_worker i (\<lambda>w. w\<lparr>mw_DialCtx := None\<rparr>) (cancel_dial i m)"

definition send_blocking :: "nat \<Rightarrow> io_command \<Rightarrow> 'e mux \<Rightarrow> 'e mux" where
  "send_blocking i c m = m\<lparr>mx_sending := mx_sending m @ [(i, c)]\<rparr>"

definition runReplay :: "nat \<Rightarrow> 'e mux \<Rightarrow> 'e mux" where
  "runReplay i m =
     (let w = mx_workers m ! i
      in if mw_State w = WorkerStopped then m
         else let m1 = fold (\<lambda>key m. case mx_subscriptions m key of
                          None \<Rightarrow> m
                        | Some entry \<Rightarrow> send_blocking i (IoReplayWrite (ms_Intent entry)) m) (mw_DesiredKeys w) m
              in upd_worker i (\<lambda>w. w\<lparr>mw_State := WorkerConnected\<rparr>) m1)"

definition startPingTicker :: "nat \<Rightarrow> 'e mux \<Rightarrow> 'e mux" where
  "startPingTicker i m =
     (let w = mx_workers m ! i
      in if mw_PingInterval w \<le> 0 then m
         else if mw_State w \<noteq> WorkerConnected then m
         else upd_worker i (\<lambda>w. w\<lparr>mw_HeartbeatEpoch := (mw_HeartbeatEpoch w + 1) mod 18446744073709551616,
                mw_PingOn := True\<rparr>) m)"

definition stopPingTicker :: "nat \<Rightarrow> 'e mux \<Rightarrow> 'e mux" where
  "stopPingTicker i m = upd_worker i (\<lambda>w. w\<lparr>mw_PingOn := False\<rparr>) m"

definition handleWorkerReady :: "nat \<Rightarrow> 'e mux \<Rightarrow> 'e mux" where
  "handleWorkerReady i m = startPingTicker i (runReplay i (clearDialCancel i m))"

definition new_dial :: "nat \<Rightarrow> 'e mux \<Rightarrow> 'e mux" where
  "new_dial i m = (upd_worker i (\<lambda>w. w\<lparr>mw_DialCtx := Some (mx_nextDial m)\<rparr>) m)\<lparr>mx_nextDial := Suc (mx_nextDial m)\<rparr>"

definition startConnect :: "nat \<Rightarrow> 'e mux \<Rightarrow> 'e mux" where
  "startConnect i m =
     (let m1 = cancel_dial i (upd_worker i (\<lambda>w. w\<lparr>mw_State := WorkerConnecting\<rparr>) m)
      in send_blocking i (IoConnect (mx_nextDial m1)) (new_dial i m1))"

definition startReconnect :: "nat \<Rightarrow> 'e mux \<Rightarrow> 'e mux" where
  "startReconnect i m =
     (let w = mx_workers m ! i
      in if mw_State w = WorkerReconnecting \<or> mw_State w = WorkerStopped then m
         else let m1 = cancel_dial i (stopPingTicker i (upd_worker i (\<lambda>w. w\<lparr>mw_State := WorkerReconnecting\<rparr>) m))
              in send_blocking i (IoReconnect (mx_nextDial m1)) (new_dial i m1))"

fun handleIOWorkerEvent :: "'e io_event \<Rightarrow> 'e mux \<Rightarrow> 'e mux \<times> 'e ws_error option" where
  "handleIOWorkerEvent (WkConnected i) m = (handleWorkerReady i m, None)"
| "handleIOWorkerEvent (WkReconnected i) m = (handleWorkerReady i m, None)"
| "handleIOWorkerEvent (WkConnectFailed i _) m = (startReconnect i m, None)"
| "handleIOWorkerEvent (WkDisconnected i _) m = (startReconnect i m, None)"
| "handleIOWorkerEvent (WkPingTick i epoch) m = (handlePingTick i epoch m, None)"
| "handleIOWorkerEvent (WkWriteFailed i _ err) m =
     (m, case err of EncodeWriteError e \<Rightarrow> Some err | _ \<Rightarrow> None)"

definition beginFatalShutdown :: "'e ws_error option \<Rightarrow> 'e mux \<Rightarrow> 'e mux" where
  "beginFatalShutdown fatal m =
     (case fatal of
        None \<Rightarrow> m
      | Some e \<Rightarrow>
          if mx_state m \<noteq> MuxRunning then m
          else m\<lparr>mx_state := MuxStopping, mx_shutdownErr := e,
                 mx_fatal := (if mx_fatal m = [] then [e] else mx_fatal m)\<rparr>)"

text \<open>The worker part of \<open>handleShutdown\<close>; the loop then waits for the workers and tickers and
  drains their events.\<close>

definition handleShutdown :: "'e mux \<Rightarrow> 'e mux" where
  "handleShutdown m =
     (fold (\<lambda>i m. upd_worker i (\<lambda>w. w\<lparr>mw_Open := False\<rparr>)
              (clearDialCancel i (upd_worker i (\<lambda>w. w\<lparr>mw_State := WorkerStopped\<rparr>) (stopPingTicker i m))))
        [0..<length (mx_workers m)] m)\<lparr>mx_state := MuxStopped\<rparr>"

text \<open>The start of \<open>Run\<close>, and the two branches of its loop.\<close>

definition mux_run :: "'e mux \<Rightarrow> 'e mux" where
  "mux_run m =
     (if mx_state m \<noteq> MuxReady then m
      else fold startConnect [0..<length (mx_workers m)] (m\<lparr>mx_state := MuxRunning\<rparr>))"

definition mux_command_turn :: "'e placement_policy \<Rightarrow> user_command \<Rightarrow> 'e mux \<Rightarrow> 'e mux" where
  "mux_command_turn policy c m =
     (if mx_state m \<noteq> MuxRunning then resolve (uc_Sub c) (Some (mx_shutdownErr m)) m
      else handleCommand policy c m)"

definition mux_event_turn :: "'e io_event \<Rightarrow> 'e mux \<Rightarrow> 'e mux" where
  "mux_event_turn e m = (case handleIOWorkerEvent e m of (m', fatal) \<Rightarrow> beginFatalShutdown fatal m')"

section \<open>Construction\<close>

record mux_worker_config =
  mc_QueueSize :: int
  mc_WriteTimeout :: int
  mc_HasEncoder :: bool
  mc_HasDialer :: bool
  mc_URL :: string
  mc_PingInterval :: int

record 'e mux_config =
  mc_Workers :: "mux_worker_config list"
  mc_MuxQueueSize :: int
  mc_Policy :: "'e placement_policy option"

fun check_workers :: "mux_worker_config list \<Rightarrow> 'e ws_error option" where
  "check_workers [] = None"
| "check_workers (c # cs) =
     (if mc_QueueSize c \<le> 0 then Some ErrInvalidQueueSize
      else if mc_WriteTimeout c \<le> 0 then Some ErrInvalidWriteTimeout
      else if \<not> mc_HasEncoder c then Some ErrEncoderRequired
      else if \<not> mc_HasDialer c then Some ErrDialerRequired
      else if mc_URL c = [] then Some ErrURLRequired
      else check_workers cs)"

definition new_worker :: "mux_worker_config \<Rightarrow> mux_worker" where
  "new_worker c = \<lparr>mw_CommandCh = chan_make (nat (mc_QueueSize c)), mw_Open = True, mw_State = WorkerConnecting,
     mw_DesiredKeys = [], mw_DialCtx = None, mw_PingInterval = mc_PingInterval c, mw_PingOn = False,
     mw_HeartbeatEpoch = 0\<rparr>"

definition NewMux :: "'e mux_config \<Rightarrow> 'e ws_error + 'e mux \<times> 'e placement_policy" where
  "NewMux cfg =
     (if mc_Workers cfg = [] then Inl ErrWorkersRequired
      else if mc_MuxQueueSize cfg \<le> 0 then Inl ErrInvalidQueueSize
      else case check_workers (mc_Workers cfg) of
             Some e \<Rightarrow> Inl e
           | None \<Rightarrow> Inr (\<lparr>mx_events = chan_make (nat (mc_MuxQueueSize cfg)), mx_commands = chan_make (nat (mc_MuxQueueSize cfg)),
                mx_closed = False, mx_workers = map new_worker (mc_Workers cfg), mx_subscriptions = Map.empty,
                mx_state = MuxReady, mx_shutdownErr = ErrMuxStopped, mx_fatal = [], mx_resolved = [],
                mx_sending = [], mx_nextDial = 0, mx_cancelled = {}\<rparr>,
              case mc_Policy cfg of None \<Rightarrow> defaultPlacementPolicy | Some p \<Rightarrow> p))"

end
