(* ===== verification/WS_Common.thy ===== *)
theory WS_Common
  imports HTS_Prelude
begin

text \<open>
  The vocabulary of the websocket transport: \<open>internal/core/pkg/websocket/common\<close>, connection
  states, lifecycle events and errors.
\<close>

datatype conn_state = ConnStateStopped | ConnStateReconnecting | ConnStateConnected

fun conn_state_String :: "conn_state \<Rightarrow> string" where
  "conn_state_String ConnStateStopped = ''Stopped''"
| "conn_state_String ConnStateReconnecting = ''Reconnecting''"
| "conn_state_String ConnStateConnected = ''Connected''"

datatype conn_event_type = Connected | Reconnected | Disconnected | Reconnecting | Fatal | OtherConnEvent

record 'e conn_event =
  ce_Type :: conn_event_type
  ce_Err :: "'e option"
  ce_Attempt :: int
  ce_At :: go_time

datatype 'e transport_error =
    TransportURLRequired | TransportNotConnected | TransportAlreadyRunning
  | TransportResponseTimeout | TransportQueueFull | TransportOp string 'e | TransportCause 'e

fun transport_Error :: "('e \<Rightarrow> string) \<Rightarrow> 'e transport_error \<Rightarrow> string" where
  "transport_Error msg TransportURLRequired = ''websocket: URL is required''"
| "transport_Error msg TransportNotConnected = ''websocket: connection not running''"
| "transport_Error msg TransportAlreadyRunning = ''websocket: already running''"
| "transport_Error msg TransportResponseTimeout = ''websocket: response timeout''"
| "transport_Error msg TransportQueueFull = ''websocket: send queue full''"
| "transport_Error msg (TransportOp operation err) =
     ''websocket'' @ (if operation = [] then [] else '': '' @ operation) @ '': '' @ msg err"
| "transport_Error msg (TransportCause err) = msg err"

fun transport_Unwrap :: "'e transport_error \<Rightarrow> 'e option" where
  "transport_Unwrap (TransportOp _ err) = Some err"
| "transport_Unwrap _ = None"

end
