(* ===== verification/LS_Realtime.thy ===== *)
theory LS_Realtime
  imports LS_Registry WS_Mux WS_Common "HOL-Library.Sublist"
begin

text \<open>
  The low-level LS realtime service: \<open>internal/adapter/broker/ls/api/ws\<close>, the files
  \<open>transport.go\<close> (routes and control frames), \<open>parser.go\<close> (incoming packets), \<open>ws.go\<close> and
  \<open>events.go\<close> (streams and events), and the control frames and lifecycle events of
  \<open>slot.go\<close>. The placement of routes is in \<open>LS_Registry\<close>.

  The JSON decoders are arguments: \<open>dec\<close> holds one for the envelope and one per body, each with
  the error or the decoded struct. The payload of a control frame is the request struct that
  \<open>json.Marshal\<close> renders. Times are arguments.
\<close>

section \<open>Route keys and control frames\<close>

datatype 'e ls_call_error =
    InvalidIssueCodeError string string
  | MissingValueError string
  | RealtimeError "'e ls_ws_error"

definition isDecimalDigits :: "string \<Rightarrow> bool" where
  "isDecimalDigits v \<longleftrightarrow> v \<noteq> [] \<and> list_all (\<lambda>c. digit_val c \<noteq> None) v"

definition cut_prefix_A :: "string \<Rightarrow> string" where
  "cut_prefix_A s = (case s of c # rest \<Rightarrow> if c = CHR ''A'' then rest else s | [] \<Rightarrow> s)"

definition normalizeWSIssueCode :: "string \<Rightarrow> string option" where
  "normalizeWSIssueCode code =
     (let t = trim_space code
      in if t = [] then None
         else let c = cut_prefix_A t
              in if length c \<noteq> 6 then None
                 else if list_all (\<lambda>ch. digit_val ch \<noteq> None) c then Some c else None)"

definition normalizeRealtimeCode :: "string \<Rightarrow> string \<Rightarrow> 'e ls_call_error + string" where
  "normalizeRealtimeCode trCode code =
     (case normalizeWSIssueCode code of
        None \<Rightarrow> Inl (InvalidIssueCodeError trCode code)
      | Some n \<Rightarrow> Inr n)"

definition normalizeExecutionKey :: "string \<Rightarrow> 'e ls_call_error + string" where
  "normalizeExecutionKey htsID =
     (let key = trim_space htsID in if key = [] then Inl (MissingValueError ''hts_id'') else Inr key)"

definition buildTransportKey :: "string \<Rightarrow> string \<Rightarrow> string \<Rightarrow> string" where
  "buildTransportKey scope trCode trKey = scope @ '':'' @ trCode @ '':'' @ trKey"

record transport_route_key =
  rk_scope :: string
  rk_trCode :: string
  rk_trKey :: string

definition parseTransportKey :: "string \<Rightarrow> transport_route_key option" where
  "parseTransportKey key =
     (case cut_at (CHR '':'') key of
        None \<Rightarrow> None
      | Some (scope, rest) \<Rightarrow>
          if scope = [] then None
          else case cut_at (CHR '':'') rest of
                 None \<Rightarrow> None
               | Some (code, trKey) \<Rightarrow>
                   if scope = [] \<or> code = [] \<or> trKey = [] then None
                   else Some \<lparr>rk_scope = scope, rk_trCode = code, rk_trKey = trKey\<rparr>)"

definition resolveTRType :: "string \<Rightarrow> write_action \<Rightarrow> string option" where
  "resolveTRType scope action =
     (if scope = ''rt'' \<and> action = ActionSubscribe then Some ''3''
      else if scope = ''rt'' \<and> action = ActionUnsubscribe then Some ''4''
      else if scope = ''acct'' \<and> action = ActionSubscribe then Some ''1''
      else if scope = ''acct'' \<and> action = ActionUnsubscribe then Some ''2''
      else None)"

record ls_ws_request =
  lwr_Token :: string
  lwr_TRType :: string
  lwr_TRCd :: string
  lwr_TRKey :: string

definition buildWSPayload :: "string \<Rightarrow> string \<Rightarrow> string \<Rightarrow> string \<Rightarrow> ls_ws_request" where
  "buildWSPayload token trType trCode trKey =
     \<lparr>lwr_Token = token, lwr_TRType = trType, lwr_TRCd = trCode, lwr_TRKey = trKey\<rparr>"

datatype encoded_write = PingFrame | TextFrame ls_ws_request

datatype 'e encode_error = ErrNilAuth | InvalidRouteKey string | UnsupportedPair string write_action | TokenError 'e

text \<open>\<open>auth\<close> is the token source of the slot, \<open>None\<close> when the slot has none.\<close>

definition EncodeWrite ::
    "('e + string) option \<Rightarrow> write_action \<Rightarrow> string \<Rightarrow> 'e encode_error + encoded_write" where
  "EncodeWrite auth action key =
     (if action = ActionPing then Inr PingFrame
      else case auth of
             None \<Rightarrow> Inl ErrNilAuth
           | Some getToken \<Rightarrow>
               (case parseTransportKey key of
                  None \<Rightarrow> Inl (InvalidRouteKey key)
                | Some route \<Rightarrow>
                    (case resolveTRType (rk_scope route) action of
                       None \<Rightarrow> Inl (UnsupportedPair (rk_scope route) action)
                     | Some trType \<Rightarrow>
                         (case getToken of
                            Inl e \<Rightarrow> Inl (TokenError e)
                          | Inr token \<Rightarrow>
                              Inr (TextFrame (buildWSPayload token trType (rk_trCode route) (rk_trKey route)))))))"

section \<open>Calls on the service\<close>

datatype ls_kind = KTrade | KQuote | KExecution

text \<open>The scope and the TR code under which the three streams are registered, and the
  normalization of the key in \<open>SubscribeTrade\<close>, \<open>SubscribeQuote\<close> and \<open>SubscribeExecution\<close>.\<close>

fun kind_scope :: "ls_kind \<Rightarrow> string" where
  "kind_scope KExecution = ''acct''"
| "kind_scope _ = ''rt''"

fun kind_code :: "ls_kind \<Rightarrow> string" where
  "kind_code KTrade = RealtimeTRTrade"
| "kind_code KQuote = RealtimeTRQuote"
| "kind_code KExecution = RealtimeTRExecution"

fun kind_normalize :: "ls_kind \<Rightarrow> string \<Rightarrow> 'e ls_call_error + string" where
  "kind_normalize KTrade code = normalizeRealtimeCode RealtimeTRTrade code"
| "kind_normalize KQuote code = normalizeRealtimeCode RealtimeTRQuote code"
| "kind_normalize KExecution htsID = normalizeExecutionKey htsID"

definition route_of :: "ls_kind \<Rightarrow> string \<Rightarrow> string" where
  "route_of kd trKey = buildTransportKey (kind_scope kd) (kind_code kd) trKey"

text \<open>What the connection layer answers during a call: whether a slot can be built, and the
  result of the subscribe or unsubscribe command of a slot.\<close>

type_synonym 'e conn_answer = "(nat \<Rightarrow> bool) \<times> (nat \<Rightarrow> string \<Rightarrow> 'e option)"

definition ws_Subscribe ::
    "'e conn_answer \<Rightarrow> ls_kind \<Rightarrow> string \<Rightarrow> conn_registry \<Rightarrow> (conn_registry \<times> 'e ls_call_error option) option" where
  "ws_Subscribe ans kd code r =
     (case kind_normalize kd code of
        Inl e \<Rightarrow> Some (r, Some e)
      | Inr trKey \<Rightarrow>
          map_option (\<lambda>(r', e). (r', map_option RealtimeError e))
            (subscribeTransport (fst ans) (snd ans) (route_of kd trKey) r))"

definition ws_Unsubscribe ::
    "'e conn_answer \<Rightarrow> ls_kind \<Rightarrow> string \<Rightarrow> conn_registry \<Rightarrow> (conn_registry \<times> 'e ls_call_error option) option" where
  "ws_Unsubscribe ans kd code r =
     (case kind_normalize kd code of
        Inl e \<Rightarrow> Some (r, Some e)
      | Inr trKey \<Rightarrow>
          (case unsubscribeTransport (snd ans) (route_of kd trKey) r of
             (r', e) \<Rightarrow> Some (r', map_option RealtimeError e)))"

section \<open>Streams and events\<close>

datatype ls_event_kind =
    EventWSConnected | EventWSReconnected | EventWSDisconnected | EventWSReconnecting | EventWSFatal
  | EventControlResponse | EventJSONDecodeFailed | EventRealtimeBodyDecodeFailed
  | EventMissingRealtimeTR | EventUnknownRealtimeTR | EventWSChannelFull | EventRawRealtimeIgnored
  | EventSubscriberChannelFull

datatype 'e ls_event_err = LSError string string | DecodePathError string 'e | ConnError 'e

record 'e ls_event =
  le_Kind :: ls_event_kind
  le_Layer :: string
  le_ConnID :: string
  le_Stream :: string
  le_TRType :: string
  le_TRCode :: string
  le_TRKey :: string
  le_RspCd :: string
  le_RspMsg :: string
  le_MsgCd :: string
  le_Msg :: string
  le_Success :: bool
  le_Attempt :: int
  le_Err :: "'e ls_event_err option"
  le_Size :: nat
  le_Payload :: string
  le_ReceivedAt :: "go_time option"
  le_At :: "go_time option"

text \<open>The zero \<open>Event\<close>; a zero \<open>time.Time\<close> is \<open>None\<close>.\<close>

definition event0 :: "ls_event_kind \<Rightarrow> string \<Rightarrow> 'e ls_event" where
  "event0 k connID = \<lparr>le_Kind = k, le_Layer = [], le_ConnID = connID, le_Stream = [], le_TRType = [],
     le_TRCode = [], le_TRKey = [], le_RspCd = [], le_RspMsg = [], le_MsgCd = [], le_Msg = [],
     le_Success = False, le_Attempt = 0, le_Err = None, le_Size = 0, le_Payload = [],
     le_ReceivedAt = None, le_At = None\<rparr>"

record 'e realtime =
  rl_tradeCh :: "trade_message chan"
  rl_quoteCh :: "quote_message chan"
  rl_executionCh :: "execution_message chan"
  rl_eventCh :: "'e ls_event chan"

definition realtime_New :: "'e realtime" where
  "realtime_New = \<lparr>rl_tradeCh = chan_make 256, rl_quoteCh = chan_make 256,
     rl_executionCh = chan_make 256, rl_eventCh = chan_make 256\<rparr>"

definition stamp_event :: "string \<Rightarrow> go_time \<Rightarrow> 'e ls_event \<Rightarrow> 'e ls_event" where
  "stamp_event layer now e =
     (let e1 = (if le_Layer e = [] then e\<lparr>le_Layer := layer\<rparr> else e)
      in if le_At e1 = None then e1\<lparr>le_At := Some now\<rparr> else e1)"

definition ws_emitEvent :: "go_time \<Rightarrow> 'e ls_event \<Rightarrow> 'e realtime \<Rightarrow> 'e realtime" where
  "ws_emitEvent now e svc = svc\<lparr>rl_eventCh := fst (chan_try_send (rl_eventCh svc) (stamp_event ''ws'' now e))\<rparr>"

fun status_kind :: "conn_event_type \<Rightarrow> ls_event_kind option" where
  "status_kind Connected = Some EventWSConnected"
| "status_kind Reconnected = Some EventWSReconnected"
| "status_kind Disconnected = Some EventWSDisconnected"
| "status_kind Reconnecting = Some EventWSReconnecting"
| "status_kind Fatal = Some EventWSFatal"
| "status_kind OtherConnEvent = None"

definition emitTransportStatusEvent :: "go_time \<Rightarrow> string \<Rightarrow> 'e conn_event \<Rightarrow> 'e realtime \<Rightarrow> 'e realtime" where
  "emitTransportStatusEvent now connID st svc =
     (case status_kind (ce_Type st) of
        None \<Rightarrow> svc
      | Some k \<Rightarrow> ws_emitEvent now ((event0 k connID)\<lparr>le_Attempt := ce_Attempt st,
            le_Err := map_option ConnError (ce_Err st), le_At := Some (ce_At st)\<rparr>) svc)"

section \<open>Incoming packets\<close>

record ws_envelope =
  we_TRType :: string
  we_TRCode :: string
  we_TRKey :: string
  we_RspCd :: string
  we_RspMsg :: string
  we_MsgCd :: string
  we_Msg :: string
  we_Body :: string

record 'e ls_decoders =
  dec_envelope :: "string \<Rightarrow> 'e + ws_envelope"
  dec_trade :: "string \<Rightarrow> 'e + trade_body"
  dec_quote :: "string \<Rightarrow> 'e + quote_body"
  dec_execution :: "string \<Rightarrow> 'e + execution_body"

definition isWSControlMessage :: "ws_envelope \<Rightarrow> bool" where
  "isWSControlMessage m \<longleftrightarrow> we_RspCd m \<noteq> [] \<or> we_RspMsg m \<noteq> [] \<or> we_MsgCd m \<noteq> [] \<or> we_Msg m \<noteq> []"

definition header_of :: "ws_envelope \<Rightarrow> realtime_header" where
  "header_of m = \<lparr>rh_TRType = we_TRType m, rh_TRCode = we_TRCode m, rh_TRKey = we_TRKey m\<rparr>"

definition handleRawRealtimeMessage :: "go_time \<Rightarrow> string \<Rightarrow> string \<Rightarrow> 'e realtime \<Rightarrow> 'e realtime" where
  "handleRawRealtimeMessage now connID data svc =
     ws_emitEvent now ((event0 EventRawRealtimeIgnored connID)\<lparr>le_Size := length data,
       le_ReceivedAt := Some now\<rparr>) svc"

definition control_event :: "go_time \<Rightarrow> string \<Rightarrow> ws_envelope \<Rightarrow> nat \<Rightarrow> 'e ls_event" where
  "control_event now connID m sz =
     (let success = (we_RspCd m = ''00000'' \<or> we_RspCd m = ''0000'');
          e = (event0 EventControlResponse connID)\<lparr>le_TRType := we_TRType m, le_TRCode := we_TRCode m,
            le_TRKey := we_TRKey m, le_RspCd := we_RspCd m, le_RspMsg := we_RspMsg m, le_MsgCd := we_MsgCd m,
            le_Msg := we_Msg m, le_Success := success, le_Size := sz, le_Payload := we_Body m,
            le_ReceivedAt := Some now\<rparr>
      in if success then e else e\<lparr>le_Err := Some (LSError (we_RspCd m) (we_RspMsg m))\<rparr>)"

definition handleWSControlMessage :: "go_time \<Rightarrow> string \<Rightarrow> ws_envelope \<Rightarrow> nat \<Rightarrow> 'e realtime \<Rightarrow> 'e realtime" where
  "handleWSControlMessage now connID m sz svc = ws_emitEvent now (control_event now connID m sz) svc"

definition packet_event ::
    "ls_event_kind \<Rightarrow> go_time \<Rightarrow> string \<Rightarrow> string \<Rightarrow> realtime_header \<Rightarrow> string \<Rightarrow> nat \<Rightarrow> 'e ls_event" where
  "packet_event k now connID stream h payload sz =
     (event0 k connID)\<lparr>le_Stream := stream, le_TRType := rh_TRType h, le_TRCode := rh_TRCode h,
       le_TRKey := rh_TRKey h, le_Size := sz, le_Payload := payload, le_ReceivedAt := Some now\<rparr>"

definition emitRealtimeBodyDecodeFailed ::
    "go_time \<Rightarrow> string \<Rightarrow> string \<Rightarrow> realtime_header \<Rightarrow> 'e \<Rightarrow> string \<Rightarrow> nat \<Rightarrow> 'e realtime \<Rightarrow> 'e realtime" where
  "emitRealtimeBodyDecodeFailed now connID stream h err payload sz svc =
     ws_emitEvent now ((packet_event EventRealtimeBodyDecodeFailed now connID stream h payload sz)
       \<lparr>le_Err := Some (DecodePathError ''body'' err)\<rparr>) svc"

definition emitWSChannelFull ::
    "go_time \<Rightarrow> string \<Rightarrow> string \<Rightarrow> realtime_header \<Rightarrow> string \<Rightarrow> nat \<Rightarrow> 'e realtime \<Rightarrow> 'e realtime" where
  "emitWSChannelFull now connID stream h payload sz svc =
     ws_emitEvent now (packet_event EventWSChannelFull now connID stream h payload sz) svc"

text \<open>One branch of \<open>publishRealtime\<close>: decode the body, then send on the stream or report that it
  is full. The three branches differ in the stream.\<close>

definition publish_body ::
    "string \<Rightarrow> (string \<Rightarrow> 'e + 'b) \<Rightarrow> ('e realtime \<Rightarrow> 'b native_message chan) \<Rightarrow>
     ('b native_message chan \<Rightarrow> 'e realtime \<Rightarrow> 'e realtime) \<Rightarrow>
     go_time \<Rightarrow> string \<Rightarrow> realtime_header \<Rightarrow> string \<Rightarrow> nat \<Rightarrow> 'e realtime \<Rightarrow> 'e realtime" where
  "publish_body stream decode get put now connID h body sz svc =
     (case decode body of
        Inl err \<Rightarrow> emitRealtimeBodyDecodeFailed now connID stream h err body sz svc
      | Inr b \<Rightarrow>
          (case chan_send (get svc) \<lparr>nm_Header = h, nm_Body = b, nm_ConnID = connID, nm_ReceivedAt = now\<rparr> of
             Some ch \<Rightarrow> put ch svc
           | None \<Rightarrow> emitWSChannelFull now connID stream h body sz svc))"

definition publishRealtime ::
    "'e ls_decoders \<Rightarrow> go_time \<Rightarrow> string \<Rightarrow> ws_envelope \<Rightarrow> nat \<Rightarrow> 'e realtime \<Rightarrow> 'e realtime option" where
  "publishRealtime dec now connID m sz svc =
     (let h = header_of m; body = we_Body m
      in if body = [] then None
         else if rh_TRCode h = RealtimeTRTrade then
           Some (publish_body ''trade'' (dec_trade dec) rl_tradeCh (\<lambda>c s. s\<lparr>rl_tradeCh := c\<rparr>) now connID h body sz svc)
         else if rh_TRCode h = RealtimeTRQuote then
           Some (publish_body ''quote'' (dec_quote dec) rl_quoteCh (\<lambda>c s. s\<lparr>rl_quoteCh := c\<rparr>) now connID h body sz svc)
         else if rh_TRCode h = RealtimeTRExecution then
           Some (publish_body ''execution'' (dec_execution dec) rl_executionCh (\<lambda>c s. s\<lparr>rl_executionCh := c\<rparr>) now connID h body sz svc)
         else None)"

definition handleRealtimeJSONMessage ::
    "'e ls_decoders \<Rightarrow> go_time \<Rightarrow> string \<Rightarrow> ws_envelope \<Rightarrow> nat \<Rightarrow> 'e realtime \<Rightarrow> 'e realtime" where
  "handleRealtimeJSONMessage dec now connID m sz svc =
     (let h = header_of m
      in if rh_TRCode h = [] then
           ws_emitEvent now (packet_event EventMissingRealtimeTR now connID [] h (we_Body m) sz) svc
         else case publishRealtime dec now connID m sz svc of
                Some svc' \<Rightarrow> svc'
              | None \<Rightarrow> ws_emitEvent now (packet_event EventUnknownRealtimeTR now connID [] h (we_Body m) sz) svc)"

definition ls_handleJSONMessage ::
    "'e ls_decoders \<Rightarrow> go_time \<Rightarrow> string \<Rightarrow> string \<Rightarrow> 'e realtime \<Rightarrow> 'e realtime" where
  "ls_handleJSONMessage dec now connID data svc =
     (case dec_envelope dec data of
        Inl err \<Rightarrow> ws_emitEvent now ((event0 EventJSONDecodeFailed connID)
          \<lparr>le_Err := Some (DecodePathError ''websocket'' err), le_Size := length data, le_Payload := data,
           le_ReceivedAt := Some now\<rparr>) svc
      | Inr m \<Rightarrow>
          if isWSControlMessage m then handleWSControlMessage now connID m (length data) svc
          else handleRealtimeJSONMessage dec now connID m (length data) svc)"

definition handleTransportMessage ::
    "'e ls_decoders \<Rightarrow> go_time \<Rightarrow> string \<Rightarrow> string \<Rightarrow> 'e realtime \<Rightarrow> 'e realtime" where
  "handleTransportMessage dec now connID data svc =
     (case data of
        [] \<Rightarrow> svc
      | c # _ \<Rightarrow> if c \<noteq> CHR ''{'' then handleRawRealtimeMessage now connID data svc
                 else ls_handleJSONMessage dec now connID data svc)"

section \<open>The connections of a slot\<close>

text \<open>What a slot knows of its connections. \<open>handleConnected\<close> runs when the connection layer
  reports a live connection, \<open>handleReadFailure\<close> when the read loop of generation \<open>gen\<close> ends;
  each returns the lifecycle events that the slot forwards.\<close>

record slot_conn =
  sc_connectCount :: int
  sc_stopping :: bool

definition handleConnected :: "go_time \<Rightarrow> slot_conn \<Rightarrow> slot_conn \<times> 'e conn_event list" where
  "handleConnected now s =
     (if sc_stopping s then (s, [])
      else let g = sc_connectCount s + 1
           in (s\<lparr>sc_connectCount := g\<rparr>,
               [\<lparr>ce_Type = (if g = 1 then Connected else Reconnected), ce_Err = None, ce_Attempt = g - 1, ce_At = now\<rparr>]))"

definition handleReadFailure :: "go_time \<Rightarrow> int \<Rightarrow> 'e \<Rightarrow> slot_conn \<Rightarrow> 'e conn_event list" where
  "handleReadFailure now gen err s =
     (if sc_stopping s \<or> gen \<noteq> sc_connectCount s then []
      else [\<lparr>ce_Type = Disconnected, ce_Err = Some err, ce_Attempt = gen - 1, ce_At = now\<rparr>,
            \<lparr>ce_Type = Reconnecting, ce_Err = Some err, ce_Attempt = gen, ce_At = now\<rparr>])"

section \<open>Keys and frames are inverse to each other\<close>

lemma cut_prefix_A_digits:
  assumes "list_all (\<lambda>c. digit_val c \<noteq> None) s"
  shows "cut_prefix_A s = s"
proof -
  have "digit_val (CHR ''A'') = None" by (simp add: digit_val_def)
  with assms show ?thesis by (cases s) (auto simp: cut_prefix_A_def)
qed

lemma digit_not_space: "digit_val c \<noteq> None \<Longrightarrow> \<not> is_space c"
  by (auto simp: is_space_def digit_val_def)

lemma normalizeWSIssueCode_result:
  assumes "normalizeWSIssueCode code = Some k"
  shows "length k = 6 \<and> list_all (\<lambda>c. digit_val c \<noteq> None) k \<and> trim_space k = k"
proof -
  have k: "length k = 6" "list_all (\<lambda>c. digit_val c \<noteq> None) k"
    using assms by (auto simp: normalizeWSIssueCode_def Let_def split: if_splits)
  have "k \<noteq> []" using k(1) by auto
  with k(2) have "trim_space k = k"
    by (intro trim_space_noop) (simp_all add: digit_not_space list_all_iff)
  with k show ?thesis by simp
qed

lemma normalizeWSIssueCode_idem:
  "normalizeWSIssueCode code = Some k \<Longrightarrow> normalizeWSIssueCode k = Some k"
  by (drule normalizeWSIssueCode_result) (auto simp: normalizeWSIssueCode_def cut_prefix_A_digits Let_def)

lemma kind_normalize_idem: "kind_normalize kd code = Inr k \<Longrightarrow> kind_normalize kd k = Inr k"
  by (cases kd) (auto simp: normalizeRealtimeCode_def normalizeExecutionKey_def normalizeWSIssueCode_idem Let_def
      split: option.splits if_splits)

lemma kind_normalize_nonempty: "kind_normalize kd code = Inr k \<Longrightarrow> k \<noteq> []"
  by (cases kd) (auto simp: normalizeRealtimeCode_def normalizeExecutionKey_def normalizeWSIssueCode_def Let_def
      split: option.splits if_splits)

lemma route_of_inject [simp]: "route_of kd k = route_of kd' k' \<longleftrightarrow> kd = kd' \<and> k = k'"
  by (cases kd; cases kd') (simp_all add: route_of_def buildTransportKey_def)

lemma parseTransportKey_build:
  assumes "scope \<noteq> []" "CHR '':'' \<notin> set scope" "code \<noteq> []" "CHR '':'' \<notin> set code" "k \<noteq> []"
  shows "parseTransportKey (buildTransportKey scope code k) = Some \<lparr>rk_scope = scope, rk_trCode = code, rk_trKey = k\<rparr>"
  using assms by (simp add: parseTransportKey_def buildTransportKey_def cut_at_append)

lemma parse_route_of:
  "k \<noteq> [] \<Longrightarrow> parseTransportKey (route_of kd k) = Some \<lparr>rk_scope = kind_scope kd, rk_trCode = kind_code kd, rk_trKey = k\<rparr>"
  unfolding route_of_def by (rule parseTransportKey_build) (cases kd; simp)+

section \<open>The contract with the client\<close>

definition normal_key :: "ls_kind \<Rightarrow> string \<Rightarrow> bool" where
  "normal_key kd k \<longleftrightarrow> kind_normalize kd k = (Inr k :: unit ls_call_error + string)"

text \<open>What the subscription layer relies on: a call returns; a successful subscribe makes a
  route live and a successful unsubscribe ends it; a failed call changes nothing; on its own
  the service only loses routes by going down for good. An answer \<open>a\<close> stands for what the
  connections report during the call.\<close>

locale realtime_feed =
  fixes sub unsub :: "'a \<Rightarrow> ls_kind \<Rightarrow> string \<Rightarrow> 'w \<Rightarrow> ('w \<times> 'e option) option"
    and env :: "'w \<Rightarrow> 'w \<Rightarrow> bool"
    and live :: "'w \<Rightarrow> (ls_kind \<times> string) set"
    and up ok :: "'w \<Rightarrow> bool"
  assumes sub_returns: "ok w \<Longrightarrow> \<exists>w' e. sub a kd k w = Some (w', e) \<and> ok w' \<and> up w' = up w"
    and sub_live: "ok w \<Longrightarrow> normal_key kd k \<Longrightarrow> sub a kd k w = Some (w', e) \<Longrightarrow>
      live w' = (if e = None then insert (kd, k) (live w) else live w)"
    and unsub_returns: "ok w \<Longrightarrow> \<exists>w' e. unsub a kd k w = Some (w', e) \<and> ok w' \<and> up w' = up w"
    and unsub_live: "ok w \<Longrightarrow> normal_key kd k \<Longrightarrow> unsub a kd k w = Some (w', e) \<Longrightarrow>
      live w' = (if e = None then live w - {(kd, k)} else live w)"
    and env_ok: "ok w \<Longrightarrow> env w w' \<Longrightarrow> ok w'"
    and env_live: "ok w \<Longrightarrow> env w w' \<Longrightarrow> up w' \<Longrightarrow> up w \<and> live w' = live w"

inductive rg_env :: "conn_registry \<Rightarrow> conn_registry \<Rightarrow> bool" where
  env_start: "rg_env r (registry_start mk r)"
| env_shutdown: "rg_env r (registry_shutdown r)"
| env_idle: "rg_env r (closeIdleSlot a t r)"

definition live_routes :: "conn_registry \<Rightarrow> (ls_kind \<times> string) set" where
  "live_routes r = {(kd, k). rg_owners r (route_of kd k) \<noteq> None}"

lemma kind_normalize_unit:
  "kind_normalize kd code = (Inr k :: 'e ls_call_error + string) \<longleftrightarrow>
    kind_normalize kd code = (Inr k :: unit ls_call_error + string)"
  by (cases kd) (auto simp: normalizeRealtimeCode_def normalizeExecutionKey_def Let_def split: option.splits)

lemma live_routes_dom:
  "dom (rg_owners r') = insert (route_of kd k) (dom (rg_owners r)) \<Longrightarrow> live_routes r' = insert (kd, k) (live_routes r)"
  "dom (rg_owners r') = dom (rg_owners r) - {route_of kd k} \<Longrightarrow> live_routes r' = live_routes r - {(kd, k)}"
  "dom (rg_owners r') = dom (rg_owners r) \<Longrightarrow> live_routes r' = live_routes r"
  unfolding live_routes_def domIff [symmetric] by auto

lemma start_owners:
  "rg_owners (registry_start mk r) = rg_owners r" "rg_closed (registry_start mk r) = rg_closed r"
proof -
  have "rg_owners (fold (\<lambda>a r. fst (prepareSlotStartLocked a r)) as q) = rg_owners q \<and>
    rg_closed (fold (\<lambda>a r. fst (prepareSlotStartLocked a r)) as q) = rg_closed q" for as q
    by (induction as arbitrary: q) simp_all
  then show "rg_owners (registry_start mk r) = rg_owners r" "rg_closed (registry_start mk r) = rg_closed r"
    by (auto simp: registry_start_def createSlotLocked_def Let_def)
qed

lemma shutdown_closed: "rg_closed (registry_shutdown r)"
proof -
  have "rg_closed (fold (\<lambda>a. upd_slot a slot_stop) as q) = rg_closed q" for as q
    by (induction as arbitrary: q) (simp_all add: upd_slot_def)
  then show ?thesis by (simp add: registry_shutdown_def)
qed

lemma ws_Subscribe_returns:
  assumes "reg_ok r"
  shows "\<exists>r' e. ws_Subscribe ans kd k r = Some (r', e :: 'e ls_call_error option) \<and> reg_ok r' \<and>
    (\<not> rg_closed r') = (\<not> rg_closed r)"
proof (cases "kind_normalize kd k :: 'e ls_call_error + string")
  case (Inl e)
  with assms show ?thesis by (simp add: ws_Subscribe_def)
next
  case (Inr trKey)
  show ?thesis
  proof (cases rule: subscribeTransport_ok [where ?'e = 'e, OF assms, of "fst ans" "snd ans" "route_of kd trKey"])
    case (1 r' res)
    with Inr show ?thesis by (simp add: ws_Subscribe_def)
  qed
qed

lemma ws_Unsubscribe_returns:
  assumes "reg_ok r"
  shows "\<exists>r' e. ws_Unsubscribe ans kd k r = Some (r', e :: 'e ls_call_error option) \<and> reg_ok r' \<and>
    (\<not> rg_closed r') = (\<not> rg_closed r)"
proof (cases "kind_normalize kd k :: 'e ls_call_error + string")
  case (Inl e)
  with assms show ?thesis by (simp add: ws_Unsubscribe_def)
next
  case (Inr trKey)
  obtain r' res where u: "unsubscribeTransport (snd ans) (route_of kd trKey) r = (r', res)" by fastforce
  with unsubscribeTransport_ok [OF assms u] Inr show ?thesis by (simp add: ws_Unsubscribe_def)
qed

lemma ws_Subscribe_live:
  fixes e :: "'e ls_call_error option"
  assumes "reg_ok r" and "normal_key kd k" and "ws_Subscribe ans kd k r = Some (r', e)"
  shows "live_routes r' = (if e = None then insert (kd, k) (live_routes r) else live_routes r)"
proof (cases rule: subscribeTransport_ok [where ?'e = 'e, OF assms(1), of "fst ans" "snd ans" "route_of kd k"])
  case (1 r1 res)
  have "kind_normalize kd k = (Inr k :: 'e ls_call_error + string)"
    using assms(2) unfolding normal_key_def by (rule kind_normalize_unit [THEN iffD2])
  with assms(3) 1(1) have "r' = r1" "e = map_option RealtimeError res" by (simp_all add: ws_Subscribe_def)
  with 1(4) show ?thesis 
    using live_routes_dom(1) [of r1 kd k r] live_routes_dom(3) [of r1 r] by (cases res) simp_all
qed

lemma ws_Unsubscribe_live:
  fixes e :: "'e ls_call_error option"
  assumes "reg_ok r" and "normal_key kd k" and "ws_Unsubscribe ans kd k r = Some (r', e)"
  shows "live_routes r' = (if e = None then live_routes r - {(kd, k)} else live_routes r)"
proof -
  have "kind_normalize kd k = (Inr k :: 'e ls_call_error + string)"
    using assms(2) unfolding normal_key_def by (rule kind_normalize_unit [THEN iffD2])
  moreover obtain r1 res where u: "unsubscribeTransport (snd ans) (route_of kd k) r = (r1, res)" by fastforce
  ultimately have "r' = r1" "e = map_option RealtimeError res" using assms(3) by (simp_all add: ws_Unsubscribe_def)
  with unsubscribeTransport_ok [OF assms(1) u] show ?thesis
    using live_routes_dom(2) [of r1 r kd k] live_routes_dom(3) [of r1 r] by (cases res) simp_all
qed

interpretation ls_feed: realtime_feed ws_Subscribe ws_Unsubscribe rg_env live_routes
    "\<lambda>r. \<not> rg_closed r" reg_ok
proof (unfold_locales, goal_cases)
  case (1 r a kd k)
  then show ?case by (rule ws_Subscribe_returns)
next
  case (2 r kd k a r' e)
  then show ?case by (rule ws_Subscribe_live)
next
  case (3 r a kd k)
  then show ?case by (rule ws_Unsubscribe_returns)
next
  case (4 r kd k a r' e)
  then show ?case by (rule ws_Unsubscribe_live)
next
  case (5 r r')
  then show ?case by (auto elim!: rg_env.cases simp: reg_ok_start reg_ok_shutdown reg_ok_closeIdle)
next
  case (6 r r')
  then show ?case
    by (auto elim!: rg_env.cases simp: start_owners shutdown_closed closeIdleSlot_def removeSlotLocked_def
        upd_slot_def live_routes_def split: if_splits)
qed

text \<open>The route of a stream survives the way to the wire: a code that the service accepts is
  normalized to a key that it accepts unchanged, and the control frame that the slot encodes
  for the stored route carries the token, the TR code of the stream, exactly this key, and the
  action code of the vendor: 3 and 4 to register and unregister market data, 1 and 2 for the
  account stream.\<close>

theorem ls_control_frame:
  fixes code :: string
  assumes "kind_normalize kd code = (Inr k :: unit ls_call_error + string)" and "action \<noteq> ActionPing"
  shows "kind_normalize kd k = (Inr k :: unit ls_call_error + string) \<and>
    EncodeWrite (Some (Inr token)) action (route_of kd k) =
      (Inr (TextFrame \<lparr>lwr_Token = token,
         lwr_TRType = (if kd = KExecution then if action = ActionSubscribe then ''1'' else ''2''
                      else if action = ActionSubscribe then ''3'' else ''4''),
         lwr_TRCd = kind_code kd, lwr_TRKey = k\<rparr>) :: 'e encode_error + encoded_write)"
proof -
  have "k \<noteq> []" using kind_normalize_nonempty [OF assms(1)] .
  with assms show ?thesis
    by (cases kd; cases action)
       (simp_all add: EncodeWrite_def parse_route_of resolveTRType_def buildWSPayload_def
         kind_normalize_idem [of KTrade, simplified] kind_normalize_idem [of KQuote, simplified]
         kind_normalize_idem [of KExecution, simplified])
qed

theorem ls_control_frame_witness:
  "EncodeWrite (Some (Inr ''tok'')) ActionSubscribe ''rt:US3:005930'' =
    (Inr (TextFrame \<lparr>lwr_Token = ''tok'', lwr_TRType = ''3'', lwr_TRCd = ''US3'', lwr_TRKey = ''005930''\<rparr>)
      :: unit encode_error + encoded_write)"
proof -
  have "kind_normalize KTrade '' A005930'' = (Inr ''005930'' :: unit ls_call_error + string)"
    by (simp add: normalizeRealtimeCode_def normalizeWSIssueCode_def trim_space_def is_space_def
        cut_prefix_A_def digit_val_def)
  from ls_control_frame [where ?'e = unit, OF this, of ActionSubscribe "''tok''"] show ?thesis
    by (simp add: route_of_def buildTransportKey_def)
qed

section \<open>Every packet is accounted for\<close>

definition traffic :: "'e realtime \<Rightarrow> nat" where
  "traffic svc = length (chan_buf (rl_tradeCh svc)) + length (chan_buf (rl_quoteCh svc)) +
     length (chan_buf (rl_executionCh svc)) + length (chan_buf (rl_eventCh svc))"

definition extends :: "'e realtime \<Rightarrow> 'e realtime \<Rightarrow> bool" where
  "extends svc svc' \<longleftrightarrow> prefix (chan_buf (rl_tradeCh svc)) (chan_buf (rl_tradeCh svc')) \<and>
     prefix (chan_buf (rl_quoteCh svc)) (chan_buf (rl_quoteCh svc')) \<and>
     prefix (chan_buf (rl_executionCh svc)) (chan_buf (rl_executionCh svc')) \<and>
     prefix (chan_buf (rl_eventCh svc)) (chan_buf (rl_eventCh svc'))"

definition event_room :: "'e realtime \<Rightarrow> bool" where
  "event_room svc \<longleftrightarrow> length (chan_buf (rl_eventCh svc)) < chan_cap (rl_eventCh svc)"

definition one_more :: "'e realtime \<Rightarrow> 'e realtime \<Rightarrow> bool" where
  "one_more svc svc' \<longleftrightarrow> extends svc svc' \<and> traffic svc' = Suc (traffic svc)"

lemma one_more_emit: "event_room svc \<Longrightarrow> one_more svc (ws_emitEvent now e svc)"
  by (simp add: one_more_def extends_def traffic_def event_room_def ws_emitEvent_def chan_defs)

lemma one_more_publish:
  assumes "event_room svc"
    and "\<And>ch x. chan_send (get svc) x = Some ch \<Longrightarrow> one_more svc (put ch svc)"
  shows "one_more svc (publish_body stream decode get put now connID h body sz svc)"
  using assms by (auto simp: publish_body_def emitRealtimeBodyDecodeFailed_def emitWSChannelFull_def
      one_more_emit split: sum.splits option.splits)

lemma one_more_streams:
  "chan_send (rl_tradeCh svc) t = Some c1 \<Longrightarrow> one_more svc (svc\<lparr>rl_tradeCh := c1\<rparr>)"
  "chan_send (rl_quoteCh svc) q = Some c2 \<Longrightarrow> one_more svc (svc\<lparr>rl_quoteCh := c2\<rparr>)"
  "chan_send (rl_executionCh svc) x = Some c3 \<Longrightarrow> one_more svc (svc\<lparr>rl_executionCh := c3\<rparr>)"
  by (auto simp: one_more_def extends_def traffic_def dest: go_chan.send_items)

lemma one_more_packet:
  assumes "data \<noteq> []" and "event_room svc"
  shows "one_more svc (handleTransportMessage dec now connID data svc)"
  using assms
  by (auto simp: handleTransportMessage_def handleRawRealtimeMessage_def ls_handleJSONMessage_def
      handleWSControlMessage_def handleRealtimeJSONMessage_def publishRealtime_def Let_def
      intro!: one_more_emit one_more_publish dest: one_more_streams split: list.splits sum.splits option.splits)

definition native :: "go_time \<Rightarrow> string \<Rightarrow> ws_envelope \<Rightarrow> 'b \<Rightarrow> 'b native_message" where
  "native now connID m b = \<lparr>nm_Header = header_of m, nm_Body = b, nm_ConnID = connID, nm_ReceivedAt = now\<rparr>"

text \<open>No packet disappears without a trace: while the event channel has room, a nonempty
  payload of a connection adds exactly one item to exactly one of the three streams and the
  event channel and disturbs nothing that is queued. A data packet of a known TR code whose
  body decodes goes to its stream with its header, body, connection and time, when that
  stream has room.\<close>

theorem ls_packet_accounted:
  assumes "event_room svc" and "data \<noteq> []"
  shows "one_more svc (handleTransportMessage dec now connID data svc) \<and>
    (hd data = CHR ''{'' \<longrightarrow> dec_envelope dec data = Inr m \<longrightarrow> \<not> isWSControlMessage m \<longrightarrow> we_Body m \<noteq> [] \<longrightarrow>
      (we_TRCode m = RealtimeTRTrade \<longrightarrow> dec_trade dec (we_Body m) = Inr t \<longrightarrow>
        chan_send (rl_tradeCh svc) (native now connID m t) = Some tc \<longrightarrow>
        handleTransportMessage dec now connID data svc = svc\<lparr>rl_tradeCh := tc\<rparr>) \<and>
      (we_TRCode m = RealtimeTRQuote \<longrightarrow> dec_quote dec (we_Body m) = Inr q \<longrightarrow>
        chan_send (rl_quoteCh svc) (native now connID m q) = Some qc \<longrightarrow>
        handleTransportMessage dec now connID data svc = svc\<lparr>rl_quoteCh := qc\<rparr>) \<and>
      (we_TRCode m = RealtimeTRExecution \<longrightarrow> dec_execution dec (we_Body m) = Inr x \<longrightarrow>
        chan_send (rl_executionCh svc) (native now connID m x) = Some xc \<longrightarrow>
        handleTransportMessage dec now connID data svc = svc\<lparr>rl_executionCh := xc\<rparr>))"
proof
  show "one_more svc (handleTransportMessage dec now connID data svc)"
    using assms by (intro one_more_packet)
qed (use assms in \<open>auto simp: native_def handleTransportMessage_def ls_handleJSONMessage_def
    handleRealtimeJSONMessage_def publishRealtime_def publish_body_def header_of_def Let_def
    split: list.splits\<close>)

definition demo_trade :: trade_body where
  "demo_trade = \<lparr>tb_ShCode = ''005930'', tb_Price = 70000, tb_Change = 100, tb_ChangeRate = 0, tb_TradeVolume = 3,
     tb_Volume = 10, tb_TradeTime = ''090001'', tb_Sign = ''2'', tb_Open = 1, tb_High = 1, tb_Low = 1,
     tb_AskPrice = 1, tb_BidPrice = 1\<rparr>"

definition demo_envelope :: ws_envelope where
  "demo_envelope = \<lparr>we_TRType = ''3'', we_TRCode = RealtimeTRTrade, we_TRKey = ''005930'', we_RspCd = [],
     we_RspMsg = [], we_MsgCd = [], we_Msg = [], we_Body = ''body''\<rparr>"

definition demo_decoders :: "unit ls_decoders" where
  "demo_decoders = \<lparr>dec_envelope = (\<lambda>d. if d = ''{}'' then Inr demo_envelope else Inl ()),
     dec_trade = (\<lambda>d. if d = ''body'' then Inr demo_trade else Inl ()),
     dec_quote = (\<lambda>_. Inl ()), dec_execution = (\<lambda>_. Inl ())\<rparr>"

theorem ls_packet_accounted_witness:
  "chan_buf (rl_tradeCh (handleTransportMessage demo_decoders 5 ''primary'' ''{}'' realtime_New)) =
     [native 5 ''primary'' demo_envelope demo_trade]"
proof -
  have "event_room (realtime_New :: unit realtime)" by (simp add: event_room_def realtime_New_def chan_defs)
  from ls_packet_accounted [OF this, of "''{}''" demo_decoders 5 "''primary''" demo_envelope demo_trade
      "Chan 256 [native 5 ''primary'' demo_envelope demo_trade]"]
  show ?thesis
    by (simp add: demo_decoders_def demo_envelope_def isWSControlMessage_def realtime_New_def chan_defs)
qed

end
