(* ===== verification/LS_Client.thy ===== *)
theory LS_Client
  imports LS_Realtime "HOL-Library.AList"
begin

text \<open>
  The LS client and its local subscriptions: \<open>internal/adapter/broker/ls/client\<close>
  (\<open>subscription.go\<close>, \<open>ws.go\<close>, \<open>broker.go\<close>, \<open>events.go\<close>, \<open>errors.go\<close>, \<open>helpers.go\<close>).

  The code has the same route table three times, for trades, quotes and executions;
  here it is one table over the type of the messages, used three times. A channel is a
  pointer in the code and an address of the table's heap here; \<open>sub_chan\<close> also says whether it
  has been closed, and a send on a closed channel or a second close, which panics in Go, gives
  no result. The subscribers of a route are an association list in the order of insertion:
  the loops of the code over them send to one channel each and report equal events, so that
  the order of the iteration does not matter.

  The service below the client is an argument: \<open>call trKey w\<close> is the call \<open>onFirst\<close>,
  \<open>onLast\<close> or \<open>onClose\<close> on the state \<open>w\<close> of the service, and \<open>None\<close> when it does not return. It runs
  under the lock of the table. Subscriber identifiers are 64-bit counters.
\<close>

section \<open>Route tables\<close>

record 'm sub_chan =
  sc_chan :: "'m chan"
  sc_closed :: bool

record sub_route =
  ro_trCode :: string
  ro_trKey :: string
  ro_subscribers :: "(nat \<times> nat) list"

record 'm route_table =
  rt_routes :: "string \<rightharpoonup> sub_route"
  rt_heap :: "nat \<rightharpoonup> 'm sub_chan"
  rt_alloc :: nat

datatype 'e client_error =
    SubscriptionNotFound string string string
  | CallFailed 'e

definition routeKey :: "string \<Rightarrow> string \<Rightarrow> string" where
  "routeKey trCode trKey = trim_space trCode @ '':'' @ trim_space trKey"

definition new_table :: "'m route_table" where
  "new_table = \<lparr>rt_routes = Map.empty, rt_heap = Map.empty, rt_alloc = 0\<rparr>"

definition incr64 :: "nat \<Rightarrow> nat" where
  "incr64 n = (n + 1) mod 18446744073709551616"

definition close_chan :: "nat \<Rightarrow> 'm route_table \<Rightarrow> 'm route_table option" where
  "close_chan a t =
     (case rt_heap t a of
        Some c \<Rightarrow> if sc_closed c then None else Some (t\<lparr>rt_heap := (rt_heap t)(a \<mapsto> c\<lparr>sc_closed := True\<rparr>)\<rparr>)
      | None \<Rightarrow> None)"

definition acquireRoute ::
    "(string \<Rightarrow> 'w \<Rightarrow> ('w \<times> 'e option) option) \<Rightarrow> string \<Rightarrow> string \<Rightarrow> nat \<Rightarrow> 'm route_table \<Rightarrow> 'w \<Rightarrow>
     (nat \<times> 'm route_table \<times> 'w \<times> ('e client_error + nat \<times> nat)) option" where
  "acquireRoute onFirst trCode trKey n t w =
     (let key = routeKey trCode trKey;
          route = (case rt_routes t key of
                     Some r \<Rightarrow> r
                   | None \<Rightarrow> \<lparr>ro_trCode = trCode, ro_trKey = trKey, ro_subscribers = []\<rparr>);
          n' = incr64 n;
          a = rt_alloc t;
          route' = route\<lparr>ro_subscribers := AList.update n' a (ro_subscribers route)\<rparr>;
          t' = \<lparr>rt_routes = (rt_routes t)(key \<mapsto> route'),
                rt_heap = (rt_heap t)(a \<mapsto> \<lparr>sc_chan = chan_make 64, sc_closed = False\<rparr>), rt_alloc = Suc a\<rparr>
      in if length (ro_subscribers route') = 1 then
           (case onFirst trKey w of
              None \<Rightarrow> None
            | Some (w', Some e) \<Rightarrow>
                map_option (\<lambda>t''. (n', t'', w', Inl (CallFailed e)))
                  (close_chan a (t'\<lparr>rt_routes := (rt_routes t')(key := None)\<rparr>))
            | Some (w', None) \<Rightarrow> Some (n', t', w', Inr (n', a)))
         else Some (n', t', w, Inr (n', a)))"

definition releaseRoute ::
    "(string \<Rightarrow> 'w \<Rightarrow> ('w \<times> 'e option) option) \<Rightarrow> string \<Rightarrow> string \<Rightarrow> string \<Rightarrow> nat \<Rightarrow> 'm route_table \<Rightarrow> 'w \<Rightarrow>
     ('m route_table \<times> 'w \<times> 'e client_error option) option" where
  "releaseRoute onLast kind trCode trKey sid t w =
     (let key = routeKey trCode trKey
      in case rt_routes t key of
           None \<Rightarrow> Some (t, w, Some (SubscriptionNotFound kind trCode trKey))
         | Some route \<Rightarrow>
             (case map_of (ro_subscribers route) sid of
                None \<Rightarrow> Some (t, w, Some (SubscriptionNotFound kind trCode trKey))
              | Some a \<Rightarrow>
                  (case (if length (ro_subscribers route) = 1 then onLast trKey w else Some (w, None)) of
                     None \<Rightarrow> None
                   | Some (w', Some e) \<Rightarrow> Some (t, w', Some (CallFailed e))
                   | Some (w', None) \<Rightarrow>
                       (let subs = AList.delete sid (ro_subscribers route);
                            routes = (if subs = [] then (rt_routes t)(key := None)
                                      else (rt_routes t)(key \<mapsto> route\<lparr>ro_subscribers := subs\<rparr>))
                        in map_option (\<lambda>t'. (t', w', None)) (close_chan a (t\<lparr>rt_routes := routes\<rparr>))))))"

fun close_chans :: "nat list \<Rightarrow> 'm route_table \<Rightarrow> 'm route_table option" where
  "close_chans [] t = Some t"
| "close_chans (a # as) t = (case close_chan a t of None \<Rightarrow> None | Some t' \<Rightarrow> close_chans as t')"

definition closeRoute ::
    "(string \<Rightarrow> 'w \<Rightarrow> ('w \<times> 'e option) option) \<Rightarrow> string \<Rightarrow> string \<Rightarrow> string \<Rightarrow> 'm route_table \<Rightarrow> 'w \<Rightarrow>
     ('m route_table \<times> 'w \<times> 'e client_error option) option" where
  "closeRoute onClose kind trCode trKey t w =
     (let key = routeKey trCode trKey
      in case rt_routes t key of
           None \<Rightarrow> Some (t, w, Some (SubscriptionNotFound kind trCode trKey))
         | Some route \<Rightarrow>
             (case onClose trKey w of
                None \<Rightarrow> None
              | Some (w', Some e) \<Rightarrow> Some (t, w', Some (CallFailed e))
              | Some (w', None) \<Rightarrow>
                  map_option (\<lambda>t'. (t', w', None))
                    (close_chans (map snd (ro_subscribers route)) (t\<lparr>rt_routes := (rt_routes t)(key := None)\<rparr>))))"

definition subscriber_full_event :: "string \<Rightarrow> sub_route \<Rightarrow> 'm native_message \<Rightarrow> 'e ls_event" where
  "subscriber_full_event stream route msg =
     (event0 EventSubscriberChannelFull (nm_ConnID msg))\<lparr>le_Layer := ''client'', le_Stream := stream,
       le_TRCode := ro_trCode route, le_TRKey := ro_trKey route, le_ReceivedAt := Some (nm_ReceivedAt msg)\<rparr>"

definition client_emitEvent :: "go_time \<Rightarrow> 'e ls_event \<Rightarrow> 'e ls_event chan \<Rightarrow> 'e ls_event chan" where
  "client_emitEvent now e ch = fst (chan_try_send ch (stamp_event ''client'' now e))"

fun publish_loop ::
    "go_time \<Rightarrow> string \<Rightarrow> sub_route \<Rightarrow> 'b native_message \<Rightarrow> nat list \<Rightarrow> 'b native_message route_table \<Rightarrow>
     'e ls_event chan \<Rightarrow> ('b native_message route_table \<times> 'e ls_event chan) option" where
  "publish_loop now stream route msg [] t ev = Some (t, ev)"
| "publish_loop now stream route msg (a # as) t ev =
     (case rt_heap t a of
        None \<Rightarrow> None
      | Some c \<Rightarrow>
          if sc_closed c then None
          else case chan_send (sc_chan c) msg of
                 Some ch \<Rightarrow> publish_loop now stream route msg as (t\<lparr>rt_heap := (rt_heap t)(a \<mapsto> c\<lparr>sc_chan := ch\<rparr>)\<rparr>) ev
               | None \<Rightarrow> publish_loop now stream route msg as t
                   (client_emitEvent now (subscriber_full_event stream route msg) ev))"

definition publishRoute ::
    "go_time \<Rightarrow> string \<Rightarrow> 'b native_message \<Rightarrow> 'b native_message route_table \<Rightarrow> 'e ls_event chan \<Rightarrow>
     ('b native_message route_table \<times> 'e ls_event chan \<times> bool) option" where
  "publishRoute now stream msg t ev =
     (case rt_routes t (routeKey (rh_TRCode (nm_Header msg)) (rh_TRKey (nm_Header msg))) of
        None \<Rightarrow> Some (t, ev, False)
      | Some route \<Rightarrow>
          map_option (\<lambda>(t', ev'). (t', ev', True))
            (publish_loop now stream route msg (map snd (ro_subscribers route)) t ev))"

section \<open>The client\<close>

record ('w, 'e) ls_client =
  lc_next :: nat
  lc_trade :: "trade_message route_table"
  lc_quote :: "quote_message route_table"
  lc_execution :: "execution_message route_table"
  lc_eventCh :: "'e ls_event chan"
  lc_api :: 'w

definition client_New :: "'w \<Rightarrow> ('w, 'e) ls_client" where
  "client_New w = \<lparr>lc_next = 0, lc_trade = new_table, lc_quote = new_table, lc_execution = new_table,
     lc_eventCh = chan_make 256, lc_api = w\<rparr>"

text \<open>The client normalizes issue codes itself (\<open>helpers.go\<close>) before it calls the service.\<close>

definition normalizeIssueCode :: "string \<Rightarrow> string option" where
  "normalizeIssueCode code =
     (let t = trim_space code
      in if t = [] then None
         else let c = cut_prefix_A t in if length c \<noteq> 6 \<or> \<not> isDecimalDigits c then None else Some c)"

fun client_normalize :: "ls_kind \<Rightarrow> string \<Rightarrow> unit ls_call_error + string" where
  "client_normalize KExecution htsID =
     (let key = trim_space htsID in if key = [] then Inl (MissingValueError ''hts_id'') else Inr key)"
| "client_normalize kd code =
     (case normalizeIssueCode code of
        None \<Rightarrow> Inl (InvalidIssueCodeError (kind_code kd) code)
      | Some k \<Rightarrow> Inr k)"

declare client_normalize.simps [simp del]

record sub_handle =
  sh_kind :: ls_kind
  sh_trKey :: string
  sh_id :: nat
  sh_ch :: nat
  sh_closed :: bool

datatype 'e subscribe_result = BadKey "unit ls_call_error" | Refused "'e client_error" | Subscribed sub_handle

definition handle_of :: "ls_kind \<Rightarrow> string \<Rightarrow> 'e client_error + nat \<times> nat \<Rightarrow> 'e subscribe_result" where
  "handle_of kd trKey res =
     (case res of
        Inl e \<Rightarrow> Refused e
      | Inr (sid, a) \<Rightarrow> Subscribed \<lparr>sh_kind = kd, sh_trKey = trKey, sh_id = sid, sh_ch = a, sh_closed = False\<rparr>)"

text \<open>\<open>SubscribeTrade\<close>, \<open>SubscribeQuote\<close> and \<open>SubscribeExecution\<close>.\<close>

definition client_Subscribe ::
    "(ls_kind \<Rightarrow> string \<Rightarrow> 'w \<Rightarrow> ('w \<times> 'e option) option) \<Rightarrow> ls_kind \<Rightarrow> string \<Rightarrow> ('w, 'x) ls_client \<Rightarrow>
     (('w, 'x) ls_client \<times> 'e subscribe_result) option" where
  "client_Subscribe sub kd code c =
     (case client_normalize kd code of
        Inl e \<Rightarrow> Some (c, BadKey e)
      | Inr k \<Rightarrow>
          (case kd of
             KTrade \<Rightarrow> map_option (\<lambda>(n, t, w, res). (c\<lparr>lc_next := n, lc_trade := t, lc_api := w\<rparr>, handle_of kd k res))
               (acquireRoute (sub KTrade) (kind_code KTrade) k (lc_next c) (lc_trade c) (lc_api c))
           | KQuote \<Rightarrow> map_option (\<lambda>(n, t, w, res). (c\<lparr>lc_next := n, lc_quote := t, lc_api := w\<rparr>, handle_of kd k res))
               (acquireRoute (sub KQuote) (kind_code KQuote) k (lc_next c) (lc_quote c) (lc_api c))
           | KExecution \<Rightarrow> map_option (\<lambda>(n, t, w, res). (c\<lparr>lc_next := n, lc_execution := t, lc_api := w\<rparr>, handle_of kd k res))
               (acquireRoute (sub KExecution) (kind_code KExecution) k (lc_next c) (lc_execution c) (lc_api c))))"

fun stream_name :: "ls_kind \<Rightarrow> string" where
  "stream_name KTrade = ''trade''"
| "stream_name KQuote = ''quote''"
| "stream_name KExecution = ''execution''"

text \<open>\<open>UnsubscribeTrade\<close>, \<open>UnsubscribeQuote\<close> and \<open>UnsubscribeExecution\<close>.\<close>

definition client_Unsubscribe ::
    "(ls_kind \<Rightarrow> string \<Rightarrow> 'w \<Rightarrow> ('w \<times> 'e option) option) \<Rightarrow> ls_kind \<Rightarrow> string \<Rightarrow> ('w, 'x) ls_client \<Rightarrow>
     (('w, 'x) ls_client \<times> (unit ls_call_error + 'e client_error option)) option" where
  "client_Unsubscribe unsub kd code c =
     (case client_normalize kd code of
        Inl e \<Rightarrow> Some (c, Inl e)
      | Inr k \<Rightarrow>
          (case kd of
             KTrade \<Rightarrow> map_option (\<lambda>(t, w, e). (c\<lparr>lc_trade := t, lc_api := w\<rparr>, Inr e))
               (closeRoute (unsub KTrade) (stream_name KTrade) (kind_code KTrade) k (lc_trade c) (lc_api c))
           | KQuote \<Rightarrow> map_option (\<lambda>(t, w, e). (c\<lparr>lc_quote := t, lc_api := w\<rparr>, Inr e))
               (closeRoute (unsub KQuote) (stream_name KQuote) (kind_code KQuote) k (lc_quote c) (lc_api c))
           | KExecution \<Rightarrow> map_option (\<lambda>(t, w, e). (c\<lparr>lc_execution := t, lc_api := w\<rparr>, Inr e))
               (closeRoute (unsub KExecution) (stream_name KExecution) (kind_code KExecution) k (lc_execution c) (lc_api c))))"

definition close_subscription ::
    "(ls_kind \<Rightarrow> string \<Rightarrow> 'w \<Rightarrow> ('w \<times> 'e option) option) \<Rightarrow> ls_kind \<Rightarrow> string \<Rightarrow> nat \<Rightarrow> ('w, 'x) ls_client \<Rightarrow>
     (('w, 'x) ls_client \<times> 'e client_error option) option" where
  "close_subscription unsub kd k sid c =
     (case kd of
        KTrade \<Rightarrow> map_option (\<lambda>(t, w, e). (c\<lparr>lc_trade := t, lc_api := w\<rparr>, e))
          (releaseRoute (unsub KTrade) (stream_name KTrade) (kind_code KTrade) k sid (lc_trade c) (lc_api c))
      | KQuote \<Rightarrow> map_option (\<lambda>(t, w, e). (c\<lparr>lc_quote := t, lc_api := w\<rparr>, e))
          (releaseRoute (unsub KQuote) (stream_name KQuote) (kind_code KQuote) k sid (lc_quote c) (lc_api c))
      | KExecution \<Rightarrow> map_option (\<lambda>(t, w, e). (c\<lparr>lc_execution := t, lc_api := w\<rparr>, e))
          (releaseRoute (unsub KExecution) (stream_name KExecution) (kind_code KExecution) k sid (lc_execution c) (lc_api c)))"

text \<open>\<open>Close\<close> of a subscription handle.\<close>

definition handle_Close ::
    "(ls_kind \<Rightarrow> string \<Rightarrow> 'w \<Rightarrow> ('w \<times> 'e option) option) \<Rightarrow> sub_handle \<Rightarrow> ('w, 'x) ls_client \<Rightarrow>
     (sub_handle \<times> ('w, 'x) ls_client \<times> 'e client_error option) option" where
  "handle_Close unsub h c =
     (if sh_closed h then Some (h, c, None)
      else case close_subscription unsub (sh_kind h) (sh_trKey h) (sh_id h) c of
             None \<Rightarrow> None
           | Some (c', None) \<Rightarrow> Some (h\<lparr>sh_closed := True\<rparr>, c', None)
           | Some (c', Some (SubscriptionNotFound _ _ _)) \<Rightarrow> Some (h\<lparr>sh_closed := True\<rparr>, c', None)
           | Some (c', Some (CallFailed e)) \<Rightarrow> Some (h, c', Some (CallFailed e)))"

definition publishTrade :: "go_time \<Rightarrow> trade_message \<Rightarrow> ('w, 'x) ls_client \<Rightarrow> (('w, 'x) ls_client \<times> bool) option" where
  "publishTrade now msg c = map_option (\<lambda>(t, ev, b). (c\<lparr>lc_trade := t, lc_eventCh := ev\<rparr>, b))
     (publishRoute now ''trade'' msg (lc_trade c) (lc_eventCh c))"

definition publishQuote :: "go_time \<Rightarrow> quote_message \<Rightarrow> ('w, 'x) ls_client \<Rightarrow> (('w, 'x) ls_client \<times> bool) option" where
  "publishQuote now msg c = map_option (\<lambda>(t, ev, b). (c\<lparr>lc_quote := t, lc_eventCh := ev\<rparr>, b))
     (publishRoute now ''quote'' msg (lc_quote c) (lc_eventCh c))"

definition publishExecution :: "go_time \<Rightarrow> execution_message \<Rightarrow> ('w, 'x) ls_client \<Rightarrow> (('w, 'x) ls_client \<times> bool) option" where
  "publishExecution now msg c = map_option (\<lambda>(t, ev, b). (c\<lparr>lc_execution := t, lc_eventCh := ev\<rparr>, b))
     (publishRoute now ''execution'' msg (lc_execution c) (lc_eventCh c))"

text \<open>One turn of each dispatch loop: take one item from the stream of the service, if there is
  one, and hand it on. \<open>eventFromWS\<close> copies every field of an event.\<close>

definition tradeDispatch :: "go_time \<Rightarrow> 'x realtime \<Rightarrow> ('w, 'x) ls_client \<Rightarrow> ('x realtime \<times> ('w, 'x) ls_client) option" where
  "tradeDispatch now svc c =
     (case chan_recv (rl_tradeCh svc) of
        None \<Rightarrow> Some (svc, c)
      | Some (msg, ch) \<Rightarrow> map_option (\<lambda>(c', _). (svc\<lparr>rl_tradeCh := ch\<rparr>, c')) (publishTrade now msg c))"

definition quoteDispatch :: "go_time \<Rightarrow> 'x realtime \<Rightarrow> ('w, 'x) ls_client \<Rightarrow> ('x realtime \<times> ('w, 'x) ls_client) option" where
  "quoteDispatch now svc c =
     (case chan_recv (rl_quoteCh svc) of
        None \<Rightarrow> Some (svc, c)
      | Some (msg, ch) \<Rightarrow> map_option (\<lambda>(c', _). (svc\<lparr>rl_quoteCh := ch\<rparr>, c')) (publishQuote now msg c))"

definition executionDispatch :: "go_time \<Rightarrow> 'x realtime \<Rightarrow> ('w, 'x) ls_client \<Rightarrow> ('x realtime \<times> ('w, 'x) ls_client) option" where
  "executionDispatch now svc c =
     (case chan_recv (rl_executionCh svc) of
        None \<Rightarrow> Some (svc, c)
      | Some (msg, ch) \<Rightarrow> map_option (\<lambda>(c', _). (svc\<lparr>rl_executionCh := ch\<rparr>, c')) (publishExecution now msg c))"

definition forwardEvent :: "go_time \<Rightarrow> 'x ls_event \<Rightarrow> ('w, 'x) ls_client \<Rightarrow> ('w, 'x) ls_client" where
  "forwardEvent now e c = c\<lparr>lc_eventCh := client_emitEvent now e (lc_eventCh c)\<rparr>"

definition eventDispatch :: "go_time \<Rightarrow> 'x realtime \<Rightarrow> ('w, 'x) ls_client \<Rightarrow> 'x realtime \<times> ('w, 'x) ls_client" where
  "eventDispatch now svc c =
     (case chan_recv (rl_eventCh svc) of
        None \<Rightarrow> (svc, c)
      | Some (e, ch) \<Rightarrow> (svc\<lparr>rl_eventCh := ch\<rparr>, forwardEvent now e c))"

text \<open>The consumer of a subscription takes a message from its channel.\<close>

definition take_message :: "nat \<Rightarrow> 'm route_table \<Rightarrow> ('m \<times> 'm route_table) option" where
  "take_message a t =
     (case rt_heap t a of
        None \<Rightarrow> None
      | Some c \<Rightarrow> map_option (\<lambda>(x, ch). (x, t\<lparr>rt_heap := (rt_heap t)(a \<mapsto> c\<lparr>sc_chan := ch\<rparr>)\<rparr>)) (chan_recv (sc_chan c)))"

section \<open>The invariant of a table\<close>

definition is_open :: "(nat \<rightharpoonup> 'm sub_chan) \<Rightarrow> nat \<Rightarrow> bool" where
  "is_open heap a \<longleftrightarrow> (\<exists>c. heap a = Some c \<and> \<not> sc_closed c)"

definition route_ok :: "ls_kind \<Rightarrow> nat \<Rightarrow> (nat \<rightharpoonup> 'm sub_chan) \<Rightarrow> string \<Rightarrow> sub_route \<Rightarrow> bool" where
  "route_ok kd n heap key ro \<longleftrightarrow> ro_trCode ro = kind_code kd \<and> key = routeKey (kind_code kd) (ro_trKey ro) \<and>
     normal_key kd (ro_trKey ro) \<and> ro_subscribers ro \<noteq> [] \<and> distinct (map fst (ro_subscribers ro)) \<and>
     distinct (map snd (ro_subscribers ro)) \<and>
     (\<forall>p\<in>set (ro_subscribers ro). fst p \<le> n \<and> is_open heap (snd p))"

definition route_chans :: "sub_route \<Rightarrow> nat set" where
  "route_chans ro = snd ` set (ro_subscribers ro)"

definition table_ok :: "ls_kind \<Rightarrow> nat \<Rightarrow> 'm route_table \<Rightarrow> bool" where
  "table_ok kd n t \<longleftrightarrow> (\<forall>key ro. rt_routes t key = Some ro \<longrightarrow> route_ok kd n (rt_heap t) key ro) \<and>
     (\<forall>key key' ro ro'. rt_routes t key = Some ro \<longrightarrow> rt_routes t key' = Some ro' \<longrightarrow> key \<noteq> key' \<longrightarrow>
        route_chans ro \<inter> route_chans ro' = {}) \<and>
     (\<forall>a c. rt_heap t a = Some c \<longrightarrow> a < rt_alloc t \<and> chan_ok (sc_chan c) \<and> chan_cap (sc_chan c) = 64)"

lemma table_okD:
  assumes "table_ok kd n t"
  shows "rt_routes t key = Some ro \<Longrightarrow> route_ok kd n (rt_heap t) key ro"
    and "rt_routes t key = Some ro \<Longrightarrow> rt_routes t key' = Some ro' \<Longrightarrow> key \<noteq> key' \<Longrightarrow>
      route_chans ro \<inter> route_chans ro' = {}"
    and "rt_heap t a = Some c \<Longrightarrow> a < rt_alloc t \<and> chan_ok (sc_chan c) \<and> chan_cap (sc_chan c) = 64"
  using assms unfolding table_ok_def by blast+

lemma table_ok_new [simp]: "table_ok kd n new_table"
  by (simp add: table_ok_def new_table_def)

lemma normal_key_trim: "normal_key kd k \<Longrightarrow> trim_space k = k"
proof (cases kd)
  case KExecution
  then show "normal_key kd k \<Longrightarrow> trim_space k = k"
    by (simp add: normal_key_def normalizeExecutionKey_def Let_def split: if_splits)
qed (auto simp: normal_key_def normalizeRealtimeCode_def dest: normalizeWSIssueCode_result split: option.splits)

lemma routeKey_inject:
  assumes "normal_key kd k" and "normal_key kd k'" and "routeKey c k = routeKey c k'"
  shows "k = k'"
  using assms by (simp add: routeKey_def normal_key_trim)

lemma route_ok_mono: "route_ok kd n heap key ro \<Longrightarrow> n \<le> m \<Longrightarrow> route_ok kd m heap key ro"
  by (auto simp: route_ok_def)

lemma route_ok_heap:
  "route_ok kd n heap key ro \<Longrightarrow> (\<And>a. a \<in> route_chans ro \<Longrightarrow> is_open heap a \<Longrightarrow> is_open heap' a) \<Longrightarrow>
    route_ok kd n heap' key ro"
  by (fastforce simp: route_ok_def route_chans_def)

lemma route_chans_old: "table_ok kd n t \<Longrightarrow> rt_routes t key = Some ro \<Longrightarrow> a \<in> route_chans ro \<Longrightarrow> a < rt_alloc t"
  by (fastforce simp: table_ok_def route_ok_def route_chans_def is_open_def)

text \<open>Replacing one route and its channels.\<close>

lemma table_ok_put:
  assumes t: "table_ok kd n t" and m: "n \<le> m"
    and new: "route_ok kd m heap key ro"
    and disj: "\<And>key' ro'. rt_routes t key' = Some ro' \<Longrightarrow> key' \<noteq> key \<Longrightarrow> route_chans ro \<inter> route_chans ro' = {}"
    and keep: "\<And>key' ro' a. rt_routes t key' = Some ro' \<Longrightarrow> key' \<noteq> key \<Longrightarrow> a \<in> route_chans ro' \<Longrightarrow> heap a = rt_heap t a"
    and chans: "\<And>a c. heap a = Some c \<Longrightarrow> a < al \<and> chan_ok (sc_chan c) \<and> chan_cap (sc_chan c) = 64"
  shows "table_ok kd m \<lparr>rt_routes = (rt_routes t)(key \<mapsto> ro), rt_heap = heap, rt_alloc = al\<rparr>"
proof -
  have "route_ok kd m heap key' ro'" if "rt_routes t key' = Some ro'" "key' \<noteq> key" for key' ro'
    by (rule route_ok_heap [OF route_ok_mono [OF table_okD(1) [OF t that(1)] m]])
       (simp add: keep [OF that] is_open_def)
  with new chans table_okD(2) [OF t] disj show ?thesis
    by (auto simp: table_ok_def split: if_splits) (metis IntI empty_iff)+
qed

lemma table_ok_drop:
  assumes t: "table_ok kd n t"
    and keep: "\<And>key' ro' a. rt_routes t key' = Some ro' \<Longrightarrow> key' \<noteq> key \<Longrightarrow> a \<in> route_chans ro' \<Longrightarrow> heap a = rt_heap t a"
    and chans: "\<And>a c. heap a = Some c \<Longrightarrow> a < al \<and> chan_ok (sc_chan c) \<and> chan_cap (sc_chan c) = 64"
  shows "table_ok kd n \<lparr>rt_routes = (rt_routes t)(key := None), rt_heap = heap, rt_alloc = al\<rparr>"
proof -
  have "route_ok kd n heap key' ro'" if "rt_routes t key' = Some ro'" "key' \<noteq> key" for key' ro'
    by (rule route_ok_heap [OF table_okD(1) [OF t that(1)]]) (simp add: keep [OF that] is_open_def)
  with chans table_okD(2) [OF t] show ?thesis by (auto simp: table_ok_def split: if_splits)
qed

lemma update_fresh: "k \<notin> fst ` set al \<Longrightarrow> AList.update k v al = al @ [(k, v)]"
  by (induction al) auto

lemma delete_last_iff:
  assumes "distinct (map fst al)" and "(k, v) \<in> set al"
  shows "AList.delete k al = [] \<longleftrightarrow> length al = 1"
proof -
  obtain xs ys where al: "al = xs @ (k, v) # ys" using split_list [OF assms(2)] by blast
  with assms(1) have "k \<notin> fst ` set xs" "k \<notin> fst ` set ys" by auto
  moreover have "AList.delete k al = AList.delete k xs @ AList.delete k ys" by (simp add: al AList.delete_eq)
  ultimately have "AList.delete k al = xs @ ys" by simp
  then show ?thesis by (auto simp: al)
qed

text \<open>A new subscriber on an existing route, and on a new one.\<close>

lemma table_ok_join:
  assumes t: "table_ok kd n t" and ro: "rt_routes t key = Some ro"
  shows "table_ok kd (Suc n) \<lparr>rt_routes = (rt_routes t)(key \<mapsto> ro\<lparr>ro_subscribers := ro_subscribers ro @ [(Suc n, rt_alloc t)]\<rparr>),
    rt_heap = (rt_heap t)(rt_alloc t \<mapsto> \<lparr>sc_chan = chan_make 64, sc_closed = False\<rparr>), rt_alloc = Suc (rt_alloc t)\<rparr>"
proof (rule table_ok_put [OF t])
  let ?heap = "(rt_heap t)(rt_alloc t \<mapsto> \<lparr>sc_chan = chan_make 64, sc_closed = False\<rparr>)"
  note r = table_okD(1) [OF t ro]
  have old: "a < rt_alloc t" if "rt_routes t key' = Some ro'" "a \<in> route_chans ro'" for key' ro' a
    using route_chans_old [OF t] that by blast
  have snd: "rt_alloc t \<notin> snd ` set (ro_subscribers ro)" using old [OF ro] by (auto simp: route_chans_def)
  have fst: "Suc n \<notin> fst ` set (ro_subscribers ro)" using r by (fastforce simp: route_ok_def)
  show "route_ok kd (Suc n) ?heap key (ro\<lparr>ro_subscribers := ro_subscribers ro @ [(Suc n, rt_alloc t)]\<rparr>)"
    using r fst snd by (auto simp: route_ok_def is_open_def)
  show "route_chans (ro\<lparr>ro_subscribers := ro_subscribers ro @ [(Suc n, rt_alloc t)]\<rparr>) \<inter> route_chans ro' = {}"
    if "rt_routes t key' = Some ro'" "key' \<noteq> key" for key' ro'
  proof -
    have "rt_alloc t \<notin> route_chans ro'" using old [OF that(1)] by auto
    then show ?thesis using table_okD(2) [OF t ro that(1)] that(2) by (auto simp: route_chans_def)
  qed
  show "?heap a = rt_heap t a" if "rt_routes t key' = Some ro'" "key' \<noteq> key" "a \<in> route_chans ro'" for key' ro' a
    using old [OF that(1,3)] by simp
  show "a < Suc (rt_alloc t) \<and> chan_ok (sc_chan c) \<and> chan_cap (sc_chan c) = 64" if "?heap a = Some c" for a c
    using that table_okD(3) [OF t, of a c] by (auto simp: chan_defs split: if_splits)
qed simp

lemma table_ok_open:
  assumes t: "table_ok kd n t" and none: "rt_routes t (routeKey (kind_code kd) k) = None" and k: "normal_key kd k"
  shows "table_ok kd (Suc n) \<lparr>rt_routes = (rt_routes t)(routeKey (kind_code kd) k \<mapsto>
      \<lparr>ro_trCode = kind_code kd, ro_trKey = k, ro_subscribers = [(Suc n, rt_alloc t)]\<rparr>),
    rt_heap = (rt_heap t)(rt_alloc t \<mapsto> \<lparr>sc_chan = chan_make 64, sc_closed = False\<rparr>), rt_alloc = Suc (rt_alloc t)\<rparr>"
proof (rule table_ok_put [OF t])
  let ?heap = "(rt_heap t)(rt_alloc t \<mapsto> \<lparr>sc_chan = chan_make 64, sc_closed = False\<rparr>)"
  have old: "a < rt_alloc t" if "rt_routes t key' = Some ro'" "a \<in> route_chans ro'" for key' ro' a
    using route_chans_old [OF t] that by blast
  show "route_chans \<lparr>ro_trCode = kind_code kd, ro_trKey = k, ro_subscribers = [(Suc n, rt_alloc t)]\<rparr> \<inter> route_chans ro' = {}"
    if "rt_routes t key' = Some ro'" for key' ro'
  proof -
    have "rt_alloc t \<notin> route_chans ro'" using old [OF that] by auto
    then show ?thesis by (simp add: route_chans_def)
  qed
  show "?heap a = rt_heap t a" if "rt_routes t key' = Some ro'" "a \<in> route_chans ro'" for key' ro' a
    using old [OF that] by simp
  show "a < Suc (rt_alloc t) \<and> chan_ok (sc_chan c) \<and> chan_cap (sc_chan c) = 64" if "?heap a = Some c" for a c
    using that table_okD(3) [OF t, of a c] by (auto simp: chan_defs split: if_splits)
qed (use k in \<open>simp_all add: route_ok_def is_open_def\<close>)

lemma table_ok_failed:
  assumes t: "table_ok kd n t" and "rt_routes t key = None"
  shows "table_ok kd (Suc n) \<lparr>rt_routes = (rt_routes t)(key := None),
    rt_heap = (rt_heap t)(rt_alloc t \<mapsto> \<lparr>sc_chan = chan_make 64, sc_closed = True\<rparr>), rt_alloc = Suc (rt_alloc t)\<rparr>"
proof -
  have "a < rt_alloc t" if "rt_routes t key' = Some ro'" "a \<in> route_chans ro'" for key' ro' a
    using route_chans_old [OF t] that by blast
  then have "table_ok kd n \<lparr>rt_routes = (rt_routes t)(key := None),
    rt_heap = (rt_heap t)(rt_alloc t \<mapsto> \<lparr>sc_chan = chan_make 64, sc_closed = True\<rparr>), rt_alloc = Suc (rt_alloc t)\<rparr>"
    using t by (intro table_ok_drop) (fastforce simp: chan_defs dest: table_okD(3) split: if_splits)+
  then show ?thesis unfolding table_ok_def by (meson route_ok_mono le_SucI order_refl)
qed

lemma table_ok_upd:
  "table_ok kd n (t\<lparr>rt_routes := R, rt_heap := H\<rparr>) = table_ok kd n \<lparr>rt_routes = R, rt_heap = H, rt_alloc = rt_alloc t\<rparr>"
  by (simp add: table_ok_def)

definition closed_chans :: "nat set \<Rightarrow> (nat \<rightharpoonup> 'm sub_chan) \<Rightarrow> (nat \<rightharpoonup> 'm sub_chan)" where
  "closed_chans A heap = (\<lambda>b. if b \<in> A then map_option (\<lambda>c. c\<lparr>sc_closed := True\<rparr>) (heap b) else heap b)"

lemma close_chan_eq: "is_open (rt_heap t) a \<Longrightarrow> close_chan a t = Some (t\<lparr>rt_heap := closed_chans {a} (rt_heap t)\<rparr>)"
  by (auto simp: close_chan_def is_open_def closed_chans_def fun_eq_iff intro!: arg_cong [where f = "\<lambda>h. t\<lparr>rt_heap := h\<rparr>"])

lemma close_chans_eq:
  assumes "distinct as" and "\<And>a. a \<in> set as \<Longrightarrow> is_open (rt_heap t) a"
  shows "close_chans as t = Some (t\<lparr>rt_heap := closed_chans (set as) (rt_heap t)\<rparr>)"
  using assms
proof (induction as arbitrary: t)
  case Nil
  then show ?case by (simp add: closed_chans_def)
next
  case (Cons a as)
  let ?t = "t\<lparr>rt_heap := closed_chans {a} (rt_heap t)\<rparr>"
  have "is_open (rt_heap ?t) b" if "b \<in> set as" for b
    using Cons.prems(1) Cons.prems(2) [of b] that by (auto simp: is_open_def closed_chans_def)
  from Cons.IH [OF _ this] Cons.prems(1) have
    "close_chans as ?t = Some (t\<lparr>rt_heap := closed_chans (set as) (closed_chans {a} (rt_heap t))\<rparr>)" by simp
  moreover have "closed_chans (set as) (closed_chans {a} (rt_heap t)) = closed_chans (set (a # as)) (rt_heap t)"
    using Cons.prems(1) by (auto simp: closed_chans_def)
  ultimately show ?case using Cons.prems(2) [of a] by (simp add: close_chan_eq)
qed

lemma closed_chans_ok:
  assumes "table_ok kd n t" and "closed_chans A (rt_heap t) a = Some c"
  shows "a < rt_alloc t \<and> chan_ok (sc_chan c) \<and> chan_cap (sc_chan c) = 64"
  using assms(2) table_okD(3) [OF assms(1)] by (auto simp: closed_chans_def split: if_splits)

text \<open>A subscriber leaves a route that keeps others; a whole route is closed.\<close>

lemma table_ok_leave:
  assumes t: "table_ok kd n t" and ro: "rt_routes t key = Some ro" and a: "map_of (ro_subscribers ro) sid = Some a"
    and rest: "AList.delete sid (ro_subscribers ro) \<noteq> []"
  shows "table_ok kd n \<lparr>rt_routes = (rt_routes t)(key \<mapsto> ro\<lparr>ro_subscribers := AList.delete sid (ro_subscribers ro)\<rparr>),
    rt_heap = closed_chans {a} (rt_heap t), rt_alloc = rt_alloc t\<rparr>"
proof (rule table_ok_put [OF t order_refl])
  let ?s = "AList.delete sid (ro_subscribers ro)" and ?h = "closed_chans {a} (rt_heap t)"
  note r = table_okD(1) [OF t ro]
  have sub: "set ?s \<subseteq> set (ro_subscribers ro)" and gone: "p \<in> set ?s \<Longrightarrow> fst p \<noteq> sid" for p
    by (auto simp: AList.delete_eq)
  have in_ro: "(sid, a) \<in> set (ro_subscribers ro)" using a by (rule map_of_SomeD)
  have inj: "inj_on snd (set (ro_subscribers ro))" using r by (simp add: route_ok_def distinct_map)
  have other: "snd p \<noteq> a" if "p \<in> set ?s" for p
    using inj_onD [OF inj, of p "(sid, a)"] in_ro sub gone [OF that] that by (metis fst_conv snd_conv subsetD)
  have d: "distinct (map fst ?s)" "distinct (map snd ?s)"
    using r by (auto simp: route_ok_def AList.delete_eq distinct_map_filter)
  show "route_ok kd n ?h key (ro\<lparr>ro_subscribers := ?s\<rparr>)"
    using r sub rest d other by (fastforce simp: route_ok_def is_open_def closed_chans_def)
  show "route_chans (ro\<lparr>ro_subscribers := ?s\<rparr>) \<inter> route_chans ro' = {}"
    if "rt_routes t key' = Some ro'" "key' \<noteq> key" for key' ro'
  proof -
    have "route_chans (ro\<lparr>ro_subscribers := ?s\<rparr>) \<subseteq> route_chans ro" using sub by (auto simp: route_chans_def)
    then show ?thesis using table_okD(2) [OF t ro that(1)] that(2) by blast
  qed
  show "?h b = rt_heap t b" if "rt_routes t key' = Some ro'" "key' \<noteq> key" "b \<in> route_chans ro'" for key' ro' b
  proof -
    have "a \<in> route_chans ro" using in_ro by (force simp: route_chans_def)
    then have "b \<noteq> a" using table_okD(2) [OF t ro that(1)] that by auto
    then show ?thesis by (simp add: closed_chans_def)
  qed
qed (use closed_chans_ok [OF t] in blast)

lemma table_ok_close:
  assumes t: "table_ok kd n t" and ro: "rt_routes t key = Some ro" and A: "A \<subseteq> route_chans ro"
  shows "table_ok kd n \<lparr>rt_routes = (rt_routes t)(key := None), rt_heap = closed_chans A (rt_heap t), rt_alloc = rt_alloc t\<rparr>"
proof (rule table_ok_drop [OF t])
  show "closed_chans A (rt_heap t) b = rt_heap t b"
    if "rt_routes t key' = Some ro'" "key' \<noteq> key" "b \<in> route_chans ro'" for key' ro' b
    using table_okD(2) [OF t ro that(1)] that(2,3) A by (auto simp: closed_chans_def)
qed (use closed_chans_ok [OF t] in blast)

lemma table_ok_mono: "table_ok kd n t \<Longrightarrow> n \<le> m \<Longrightarrow> table_ok kd m t"
  unfolding table_ok_def by (meson route_ok_mono)

text \<open>What the loop of \<open>publish\<close> does to the channels and to the event channel.\<close>

definition deliver :: "'m \<Rightarrow> 'm sub_chan \<Rightarrow> 'm sub_chan" where
  "deliver msg c = c\<lparr>sc_chan := fst (chan_try_send (sc_chan c) msg)\<rparr>"

definition delivered :: "'m \<Rightarrow> nat set \<Rightarrow> (nat \<rightharpoonup> 'm sub_chan) \<Rightarrow> (nat \<rightharpoonup> 'm sub_chan)" where
  "delivered msg A heap = (\<lambda>b. if b \<in> A then map_option (deliver msg) (heap b) else heap b)"

definition is_full :: "(nat \<rightharpoonup> 'm sub_chan) \<Rightarrow> nat \<Rightarrow> bool" where
  "is_full heap a \<longleftrightarrow> (case heap a of Some c \<Rightarrow> chan_full (sc_chan c) | None \<Rightarrow> False)"

lemma publish_loop_eq:
  assumes "distinct as" and "\<And>a. a \<in> set as \<Longrightarrow> is_open (rt_heap t) a"
  shows "publish_loop now stream route msg as t ev =
    Some (t\<lparr>rt_heap := delivered msg (set as) (rt_heap t)\<rparr>,
      (client_emitEvent now (subscriber_full_event stream route msg) ^^ length (filter (is_full (rt_heap t)) as)) ev)"
  using assms
proof (induction as arbitrary: t ev)
  case Nil
  then show ?case by (simp add: delivered_def)
next
  case (Cons a as)
  from Cons.prems(2) [of a] obtain c where c: "rt_heap t a = Some c" "\<not> sc_closed c" by (auto simp: is_open_def)
  let ?t = "t\<lparr>rt_heap := delivered msg {a} (rt_heap t)\<rparr>"
  have na: "a \<notin> set as" using Cons.prems(1) by simp
  have op: "is_open (rt_heap ?t) b" if "b \<in> set as" for b
    using na Cons.prems(2) [of b] that by (auto simp: is_open_def delivered_def deliver_def)
  have fl: "filter (is_full (rt_heap ?t)) as = filter (is_full (rt_heap t)) as"
    using na by (intro filter_cong) (auto simp: is_full_def delivered_def)
  have dl: "delivered msg (set as) (delivered msg {a} (rt_heap t)) = delivered msg (set (a # as)) (rt_heap t)"
    using na by (auto simp: delivered_def)
  have step: "publish_loop now stream route msg (a # as) t ev = publish_loop now stream route msg as ?t
      (if is_full (rt_heap t) a then client_emitEvent now (subscriber_full_event stream route msg) ev else ev)"
  proof (cases "chan_send (sc_chan c) msg")
    case None
    then have "delivered msg {a} (rt_heap t) = rt_heap t"
      using c by (auto simp: delivered_def deliver_def chan_try_send_def)
    with None c show ?thesis by (simp add: is_full_def chan_send_def split: if_splits)
  next
    case (Some ch)
    then have "delivered msg {a} (rt_heap t) = (rt_heap t)(a \<mapsto> c\<lparr>sc_chan := ch\<rparr>)"
      using c by (auto simp: delivered_def deliver_def chan_try_send_def)
    with Some c show ?thesis by (simp add: is_full_def chan_send_def split: if_splits)
  qed
  show ?case unfolding step using Cons.IH [of ?t, OF _ op] Cons.prems(1) fl dl by (simp add: funpow_swap1)
qed

lemma table_ok_heap:
  assumes t: "table_ok kd n t"
    and heap: "\<And>a c'. heap a = Some c' \<Longrightarrow> \<exists>c. rt_heap t a = Some c \<and> sc_closed c' = sc_closed c \<and>
      chan_ok (sc_chan c') \<and> chan_cap (sc_chan c') = 64"
    and dom: "dom heap = dom (rt_heap t)"
  shows "table_ok kd n (t\<lparr>rt_heap := heap\<rparr>)"
proof -
  have "is_open heap a" if "is_open (rt_heap t) a" for a
  proof -
    from that have "a \<in> dom heap" by (auto simp: is_open_def dom)
    then obtain c' where "heap a = Some c'" by blast
    with heap [OF this] that show ?thesis by (auto simp: is_open_def)
  qed
  then have "route_ok kd n heap key ro" if "rt_routes t key = Some ro" for key ro
    using route_ok_heap [OF table_okD(1) [OF t that]] by blast
  with t heap show ?thesis unfolding table_ok_def by fastforce
qed

lemma deliver_simps [simp]:
  "sc_closed (deliver msg c) = sc_closed c"
  "chan_cap (sc_chan (deliver msg c)) = chan_cap (sc_chan c)"
  "chan_ok (sc_chan c) \<Longrightarrow> chan_ok (sc_chan (deliver msg c))"
  by (auto simp: deliver_def chan_defs split: option.splits)

lemma emit_ok: "chan_ok ev \<Longrightarrow> chan_ok ((client_emitEvent now e ^^ m) ev)"
  by (induction m) (auto simp: client_emitEvent_def chan_defs split: option.splits)

lemma publish_ok:
  assumes t: "table_ok kd n t"
  shows "\<exists>t' ev' b. publishRoute now stream msg t ev = Some (t', ev', b) \<and> table_ok kd n t' \<and>
    rt_routes t' = rt_routes t \<and> (chan_ok ev \<longrightarrow> chan_ok ev')"
proof (cases "rt_routes t (routeKey (rh_TRCode (nm_Header msg)) (rh_TRKey (nm_Header msg)))")
  case None
  with t show ?thesis by (auto simp: publishRoute_def)
next
  case (Some ro)
  have "publish_loop now stream ro msg (map snd (ro_subscribers ro)) t ev =
    Some (t\<lparr>rt_heap := delivered msg (set (map snd (ro_subscribers ro))) (rt_heap t)\<rparr>,
      (client_emitEvent now (subscriber_full_event stream ro msg) ^^
        length (filter (is_full (rt_heap t)) (map snd (ro_subscribers ro)))) ev)"
    using table_okD(1) [OF t Some] by (intro publish_loop_eq) (auto simp: route_ok_def)
  moreover have "table_ok kd n (t\<lparr>rt_heap := delivered msg A (rt_heap t)\<rparr>)" for A
    using table_okD(3) [OF t]
    by (intro table_ok_heap [OF t]) (auto simp: delivered_def split: if_splits)
  ultimately show ?thesis using Some by (auto simp: publishRoute_def emit_ok)
qed

lemma take_ok:
  assumes t: "table_ok kd n t" and x: "take_message a t = Some (x, t')"
  shows "table_ok kd n t' \<and> rt_routes t' = rt_routes t"
proof -
  from x obtain c ch where c: "rt_heap t a = Some c" "chan_recv (sc_chan c) = Some (x, ch)"
    and t': "t' = t\<lparr>rt_heap := (rt_heap t)(a \<mapsto> c\<lparr>sc_chan := ch\<rparr>)\<rparr>"
    by (auto simp: take_message_def split: option.splits)
  have "table_ok kd n t'"
    unfolding t' using table_okD(3) [OF t] table_okD(3) [OF t c(1)] c go_chan.recv_ok [OF _ c(2)] go_chan.recv_bound [OF c(2)]
    by (intro table_ok_heap [OF t]) (auto split: if_splits)
  then show ?thesis by (simp add: t')
qed

section \<open>Steps of the client\<close>

text \<open>Any goroutine may subscribe, unsubscribe or close a handle, a dispatcher may publish a
  packet or forward an event, a consumer may take a message, and the service may move on its
  own. \<open>client_reach n c\<close>: the client is in state \<open>c\<close> after \<open>n\<close> such steps.\<close>

inductive client_step for sub unsub env where
  cs_subscribe: "client_Subscribe (sub a) kd code c = Some (c', r) \<Longrightarrow> client_step sub unsub env c c'"
| cs_unsubscribe: "client_Unsubscribe (unsub a) kd code c = Some (c', e) \<Longrightarrow> client_step sub unsub env c c'"
| cs_close: "normal_key (sh_kind h) (sh_trKey h) \<Longrightarrow> handle_Close (unsub a) h c = Some (h', c', ce) \<Longrightarrow>
    client_step sub unsub env c c'"
| cs_trade: "publishTrade now tm c = Some (c', b) \<Longrightarrow> client_step sub unsub env c c'"
| cs_quote: "publishQuote now qm c = Some (c', b) \<Longrightarrow> client_step sub unsub env c c'"
| cs_execution: "publishExecution now xm c = Some (c', b) \<Longrightarrow> client_step sub unsub env c c'"
| cs_event: "client_step sub unsub env c (forwardEvent now ev c)"
| cs_take_trade: "take_message ch (lc_trade c) = Some (tm, t) \<Longrightarrow> client_step sub unsub env c (c\<lparr>lc_trade := t\<rparr>)"
| cs_take_quote: "take_message ch (lc_quote c) = Some (qm, q) \<Longrightarrow> client_step sub unsub env c (c\<lparr>lc_quote := q\<rparr>)"
| cs_take_execution: "take_message ch (lc_execution c) = Some (xm, x) \<Longrightarrow>
    client_step sub unsub env c (c\<lparr>lc_execution := x\<rparr>)"
| cs_env: "env (lc_api c) w \<Longrightarrow> client_step sub unsub env c (c\<lparr>lc_api := w\<rparr>)"

inductive client_reach for sub unsub env w0 where
  cr_init: "client_reach sub unsub env w0 0 (client_New w0)"
| cr_step: "client_reach sub unsub env w0 n c \<Longrightarrow> client_step sub unsub env c c' \<Longrightarrow>
    client_reach sub unsub env w0 (Suc n) c'"

lemma client_normalize_normal: "client_normalize kd code = Inr k \<Longrightarrow> normal_key kd k"
proof -
  assume "client_normalize kd code = Inr k"
  then have "kind_normalize kd code = (Inr k :: unit ls_call_error + string)"
    by (cases kd) (auto simp: client_normalize.simps normalizeIssueCode_def normalizeRealtimeCode_def normalizeWSIssueCode_def
        normalizeExecutionKey_def isDecimalDigits_def Let_def split: option.splits if_splits)
  then show "normal_key kd k" unfolding normal_key_def by (rule kind_normalize_idem)
qed

section \<open>The table and the service\<close>

context realtime_feed
begin

definition tracks :: "ls_kind \<Rightarrow> 'm route_table \<Rightarrow> 'w \<Rightarrow> bool" where
  "tracks kd t w \<longleftrightarrow> (up w \<longrightarrow>
     (\<forall>k. (kd, k) \<in> live w \<longleftrightarrow> normal_key kd k \<and> rt_routes t (routeKey (kind_code kd) k) \<noteq> None))"

definition others_kept :: "ls_kind \<Rightarrow> 'w \<Rightarrow> 'w \<Rightarrow> bool" where
  "others_kept kd w w' \<longleftrightarrow> ok w' \<and> up w' = up w \<and> (\<forall>kd' k. kd' \<noteq> kd \<longrightarrow> (kd', k) \<in> live w' \<longleftrightarrow> (kd', k) \<in> live w)"

lemma tracks_other: "tracks kd' t w \<Longrightarrow> others_kept kd w w' \<Longrightarrow> kd' \<noteq> kd \<Longrightarrow> tracks kd' t w'"
  by (auto simp: tracks_def others_kept_def)

lemma tracks_env: "tracks kd t w \<Longrightarrow> ok w \<Longrightarrow> env w w' \<Longrightarrow> tracks kd t w'"
  using env_live by (fastforce simp: tracks_def)

lemma acquire_ok:
  assumes t: "table_ok kd n t" and tr: "tracks kd t w" and w: "ok w" and n: "Suc n < 18446744073709551616"
    and k: "normal_key kd k"
  shows "\<exists>t' w' res. acquireRoute (sub a kd) (kind_code kd) k n t w = Some (Suc n, t', w', res) \<and>
    table_ok kd (Suc n) t' \<and> tracks kd t' w' \<and> others_kept kd w w'"
proof -
  let ?key = "routeKey (kind_code kd) k"
  have id: "incr64 n = Suc n" using n by (simp add: incr64_def)
  show ?thesis
  proof (cases "rt_routes t ?key")
    case (Some ro)
    note r = table_okD(1) [OF t Some]
    have "AList.update (Suc n) (rt_alloc t) (ro_subscribers ro) = ro_subscribers ro @ [(Suc n, rt_alloc t)]"
      using r by (intro update_fresh) (fastforce simp: route_ok_def)
    moreover have "ro_subscribers ro \<noteq> []" using r by (simp add: route_ok_def)
    ultimately show ?thesis
      using table_ok_join [OF t Some] tr w Some
      by (auto simp: acquireRoute_def id tracks_def others_kept_def Let_def)
  next
    case None
    obtain w' e where s: "sub a kd k w = Some (w', e)" and ok: "ok w'" "up w' = up w"
      using sub_returns [OF w] by blast
    have live: "live w' = (if e = None then insert (kd, k) (live w) else live w)" by (rule sub_live [OF w k s])
    then have o: "others_kept kd w w'" using ok by (auto simp: others_kept_def)
    show ?thesis
    proof (cases e)
      case None
      then show ?thesis
        using \<open>rt_routes t ?key = None\<close> table_ok_open [OF t \<open>rt_routes t ?key = None\<close> k] s o live tr ok k
        by (auto simp: acquireRoute_def id tracks_def Let_def dest: routeKey_inject)
    next
      case (Some e')
      then show ?thesis
        using \<open>rt_routes t ?key = None\<close> table_ok_failed [OF t \<open>rt_routes t ?key = None\<close>] s o live tr ok
        by (auto simp: acquireRoute_def id tracks_def Let_def close_chan_def)
    qed
  qed
qed

lemma release_ok:
  assumes t: "table_ok kd n t" and tr: "tracks kd t w" and w: "ok w" and k: "normal_key kd k"
  shows "\<exists>t' w' e. releaseRoute (unsub a kd) kind (kind_code kd) k sid t w = Some (t', w', e) \<and>
    table_ok kd n t' \<and> tracks kd t' w' \<and> others_kept kd w w'"
proof -
  let ?key = "routeKey (kind_code kd) k"
  have refl: "others_kept kd w w" using w by (simp add: others_kept_def)
  show ?thesis
  proof (cases "rt_routes t ?key")
    case None
    with t tr refl show ?thesis by (simp add: releaseRoute_def Let_def)
  next
    case (Some ro)
    note r = table_okD(1) [OF t Some]
    show ?thesis
    proof (cases "map_of (ro_subscribers ro) sid")
      case None
      with Some t tr refl show ?thesis by (simp add: releaseRoute_def Let_def)
    next
      case a: (Some ch)
      let ?rest = "AList.delete sid (ro_subscribers ro)"
      have in_ro: "(sid, ch) \<in> set (ro_subscribers ro)" using a by (rule map_of_SomeD)
      then have op: "is_open (rt_heap t) ch" and cr: "ch \<in> route_chans ro"
        using r by (force simp: route_ok_def route_chans_def)+
      have last: "?rest = [] \<longleftrightarrow> length (ro_subscribers ro) = 1"
        by (rule delete_last_iff) (use r in_ro in \<open>auto simp: route_ok_def\<close>)
      show ?thesis
      proof (cases "length (ro_subscribers ro) = 1")
        case False
        with last have ne: "?rest \<noteq> []" by simp
        show ?thesis
          using Some a False ne op table_ok_leave [OF t Some a ne] tr refl
          by (simp add: releaseRoute_def Let_def close_chan_eq table_ok_upd tracks_def)
      next
        case True
        obtain w' e where u: "unsub a kd k w = Some (w', e)" and ok: "ok w'" "up w' = up w"
          using unsub_returns [OF w] by blast
        have live: "live w' = (if e = None then live w - {(kd, k)} else live w)" by (rule unsub_live [OF w k u])
        then have o: "others_kept kd w w'" using ok by (auto simp: others_kept_def)
        show ?thesis
        proof (cases e)
          case None
          have "tracks kd (t\<lparr>rt_routes := (rt_routes t)(?key := None), rt_heap := h\<rparr>) w'" for h
            using tr live None ok k by (auto simp: tracks_def dest: routeKey_inject)
          then show ?thesis
            using Some a True last u None op table_ok_close [OF t Some, of "{ch}"] cr o
            by (simp add: releaseRoute_def Let_def close_chan_eq table_ok_upd)
        next
          case (Some e')
          then show ?thesis
            using \<open>rt_routes t ?key = Some ro\<close> a True u t o tr live ok
            by (simp add: releaseRoute_def Let_def tracks_def)
        qed
      qed
    qed
  qed
qed

lemma close_ok:
  assumes t: "table_ok kd n t" and tr: "tracks kd t w" and w: "ok w" and k: "normal_key kd k"
  shows "\<exists>t' w' e. closeRoute (unsub a kd) kind (kind_code kd) k t w = Some (t', w', e) \<and>
    table_ok kd n t' \<and> tracks kd t' w' \<and> others_kept kd w w'"
proof -
  let ?key = "routeKey (kind_code kd) k"
  have refl: "others_kept kd w w" using w by (simp add: others_kept_def)
  show ?thesis
  proof (cases "rt_routes t ?key")
    case None
    with t tr refl show ?thesis by (simp add: closeRoute_def Let_def)
  next
    case (Some ro)
    note r = table_okD(1) [OF t Some]
    obtain w' e where u: "unsub a kd k w = Some (w', e)" and ok: "ok w'" "up w' = up w"
      using unsub_returns [OF w] by blast
    have live: "live w' = (if e = None then live w - {(kd, k)} else live w)" by (rule unsub_live [OF w k u])
    then have o: "others_kept kd w w'" using ok by (auto simp: others_kept_def)
    show ?thesis
    proof (cases e)
      case None
      let ?t = "t\<lparr>rt_routes := (rt_routes t)(?key := None)\<rparr>"
      have c: "close_chans (map snd (ro_subscribers ro)) ?t = Some (?t\<lparr>rt_heap := closed_chans (route_chans ro) (rt_heap t)\<rparr>)"
        using r close_chans_eq [of "map snd (ro_subscribers ro)" ?t] by (auto simp: route_ok_def route_chans_def)
      have "tracks kd (t\<lparr>rt_routes := (rt_routes t)(?key := None), rt_heap := h\<rparr>) w'" for h
        using tr live None ok k by (auto simp: tracks_def dest: routeKey_inject)
      then show ?thesis
        using Some u None c table_ok_close [OF t Some order_refl] o
        by (simp add: closeRoute_def Let_def table_ok_upd)
    next
      case (Some e')
      then show ?thesis
        using \<open>rt_routes t ?key = Some ro\<close> u t o tr live ok by (simp add: closeRoute_def Let_def tracks_def)
    qed
  qed
qed

definition part_ok :: "ls_kind \<Rightarrow> nat \<Rightarrow> 'm route_table \<Rightarrow> 'w \<Rightarrow> bool" where
  "part_ok kd n t w \<longleftrightarrow> table_ok kd n t \<and> tracks kd t w"

definition client_ok :: "('w, 'x) ls_client \<Rightarrow> bool" where
  "client_ok c \<longleftrightarrow> ok (lc_api c) \<and> chan_ok (lc_eventCh c) \<and> part_ok KTrade (lc_next c) (lc_trade c) (lc_api c) \<and>
     part_ok KQuote (lc_next c) (lc_quote c) (lc_api c) \<and> part_ok KExecution (lc_next c) (lc_execution c) (lc_api c)"

lemma part_other:
  "part_ok kd' n t w \<Longrightarrow> others_kept kd w w' \<Longrightarrow> kd' \<noteq> kd \<Longrightarrow> n \<le> m \<Longrightarrow> part_ok kd' m t w'"
  using tracks_other table_ok_mono by (auto simp: part_ok_def)

lemma part_env: "part_ok kd n t w \<Longrightarrow> ok w \<Longrightarrow> env w w' \<Longrightarrow> part_ok kd n t w'"
  using tracks_env by (auto simp: part_ok_def)

lemma part_same_routes:
  "part_ok kd n t w \<Longrightarrow> table_ok kd n t' \<Longrightarrow> rt_routes t' = rt_routes t \<Longrightarrow> part_ok kd n t' w"
  by (simp add: part_ok_def tracks_def)

lemma client_ok_new: "ok w \<Longrightarrow> live w = {} \<Longrightarrow> client_ok (client_New w)"
  by (simp add: client_ok_def client_New_def part_ok_def tracks_def) (simp add: new_table_def chan_defs)

lemma client_okD:
  assumes "client_ok c"
  shows "ok (lc_api c)" "part_ok KTrade (lc_next c) (lc_trade c) (lc_api c)"
    "part_ok KQuote (lc_next c) (lc_quote c) (lc_api c)"
    "part_ok KExecution (lc_next c) (lc_execution c) (lc_api c)" "chan_ok (lc_eventCh c)"
  using assms by (simp_all add: client_ok_def)

lemma acquire_part:
  assumes "part_ok kd n t w" and "ok w" and "Suc n < 18446744073709551616" and "normal_key kd k"
  obtains t' w' res where "acquireRoute (sub a kd) (kind_code kd) k n t w = Some (Suc n, t', w', res)"
    "part_ok kd (Suc n) t' w'" "others_kept kd w w'"
  using acquire_ok [of kd n t w k a] assms unfolding part_ok_def by blast

lemma release_part:
  assumes "part_ok kd n t w" and "ok w" and "normal_key kd k"
  obtains t' w' e where "releaseRoute (unsub a kd) kind (kind_code kd) k sid t w = Some (t', w', e)"
    "part_ok kd n t' w'" "others_kept kd w w'"
  using release_ok [of kd n t w k a kind sid] assms unfolding part_ok_def by blast

lemma close_part:
  assumes "part_ok kd n t w" and "ok w" and "normal_key kd k"
  obtains t' w' e where "closeRoute (unsub a kd) kind (kind_code kd) k t w = Some (t', w', e)"
    "part_ok kd n t' w'" "others_kept kd w w'"
  using close_ok [of kd n t w k a kind] assms unfolding part_ok_def by blast

lemma client_part:
  assumes "client_ok c" and "lc_next c \<le> n"
  shows "part_ok KTrade n t w' \<Longrightarrow> others_kept KTrade (lc_api c) w' \<Longrightarrow> client_ok (c\<lparr>lc_next := n, lc_trade := t, lc_api := w'\<rparr>)"
    and "part_ok KQuote n q w' \<Longrightarrow> others_kept KQuote (lc_api c) w' \<Longrightarrow> client_ok (c\<lparr>lc_next := n, lc_quote := q, lc_api := w'\<rparr>)"
    and "part_ok KExecution n x w' \<Longrightarrow> others_kept KExecution (lc_api c) w' \<Longrightarrow>
      client_ok (c\<lparr>lc_next := n, lc_execution := x, lc_api := w'\<rparr>)"
  using client_okD [OF assms(1)] assms(2)
  by (auto simp: client_ok_def others_kept_def intro: part_other [unfolded others_kept_def])

lemma client_part_same:
  assumes "client_ok c"
  shows "part_ok KTrade (lc_next c) t w' \<Longrightarrow> others_kept KTrade (lc_api c) w' \<Longrightarrow>
      client_ok (c\<lparr>lc_trade := t, lc_api := w'\<rparr>)"
    and "part_ok KQuote (lc_next c) q w' \<Longrightarrow> others_kept KQuote (lc_api c) w' \<Longrightarrow>
      client_ok (c\<lparr>lc_quote := q, lc_api := w'\<rparr>)"
    and "part_ok KExecution (lc_next c) x w' \<Longrightarrow> others_kept KExecution (lc_api c) w' \<Longrightarrow>
      client_ok (c\<lparr>lc_execution := x, lc_api := w'\<rparr>)"
  using client_part [OF assms order_refl] by (simp_all add: client_ok_def)

lemma client_subscribe_ok:
  assumes c: "client_ok c" and n: "Suc (lc_next c) < 18446744073709551616"
  shows "\<exists>c' r. client_Subscribe (sub a) kd code c = Some (c', r) \<and> client_ok c' \<and> lc_next c' \<le> Suc (lc_next c)"
proof (cases "client_normalize kd code")
  case (Inl e)
  with c show ?thesis by (auto simp: client_Subscribe_def)
next
  case (Inr k)
  note k = client_normalize_normal [OF Inr] and part = client_part [OF c le_SucI [OF order_refl]]
  show ?thesis
  proof (cases kd)
    case KTrade
    show ?thesis
      by (rule acquire_part [OF client_okD(2,1) [OF c] n k [unfolded KTrade], of a])
         (auto simp: client_Subscribe_def Inr [unfolded KTrade] KTrade part(1))
  next
    case KQuote
    show ?thesis
      by (rule acquire_part [OF client_okD(3,1) [OF c] n k [unfolded KQuote], of a])
         (auto simp: client_Subscribe_def Inr [unfolded KQuote] KQuote part(2))
  next
    case KExecution
    show ?thesis
      by (rule acquire_part [OF client_okD(4,1) [OF c] n k [unfolded KExecution], of a])
         (auto simp: client_Subscribe_def Inr [unfolded KExecution] KExecution part(3))
  qed
qed

lemma client_unsubscribe_ok:
  assumes c: "client_ok c"
  shows "\<exists>c' e. client_Unsubscribe (unsub a) kd code c = Some (c', e) \<and> client_ok c' \<and> lc_next c' = lc_next c"
proof (cases "client_normalize kd code")
  case (Inl e)
  with c show ?thesis by (auto simp: client_Unsubscribe_def)
next
  case (Inr k)
  note k = client_normalize_normal [OF Inr] and part = client_part_same [OF c]
  show ?thesis
  proof (cases kd)
    case KTrade
    show ?thesis
      by (rule close_part [OF client_okD(2,1) [OF c] k [unfolded KTrade], of a "stream_name KTrade"])
         (auto simp: client_Unsubscribe_def Inr [unfolded KTrade] KTrade part(1))
  next
    case KQuote
    show ?thesis
      by (rule close_part [OF client_okD(3,1) [OF c] k [unfolded KQuote], of a "stream_name KQuote"])
         (auto simp: client_Unsubscribe_def Inr [unfolded KQuote] KQuote part(2))
  next
    case KExecution
    show ?thesis
      by (rule close_part [OF client_okD(4,1) [OF c] k [unfolded KExecution], of a "stream_name KExecution"])
         (auto simp: client_Unsubscribe_def Inr [unfolded KExecution] KExecution part(3))
  qed
qed

lemma close_subscription_ok:
  assumes c: "client_ok c" and k: "normal_key kd k"
  shows "\<exists>c' e. close_subscription (unsub a) kd k sid c = Some (c', e) \<and> client_ok c' \<and> lc_next c' = lc_next c"
proof (cases kd)
  case KTrade
  show ?thesis
    by (rule release_part [OF client_okD(2,1) [OF c] k [unfolded KTrade], of a "stream_name KTrade" sid])
       (auto simp: close_subscription_def KTrade client_part_same(1) [OF c])
next
  case KQuote
  show ?thesis
    by (rule release_part [OF client_okD(3,1) [OF c] k [unfolded KQuote], of a "stream_name KQuote" sid])
       (auto simp: close_subscription_def KQuote client_part_same(2) [OF c])
next
  case KExecution
  show ?thesis
    by (rule release_part [OF client_okD(4,1) [OF c] k [unfolded KExecution], of a "stream_name KExecution" sid])
       (auto simp: close_subscription_def KExecution client_part_same(3) [OF c])
qed

lemma client_close_ok:
  assumes "client_ok c" and "normal_key (sh_kind h) (sh_trKey h)"
  shows "\<exists>h' c' e. handle_Close (unsub a) h c = Some (h', c', e) \<and> client_ok c' \<and> lc_next c' = lc_next c"
proof -
  obtain c' e where s: "close_subscription (unsub a) (sh_kind h) (sh_trKey h) (sh_id h) c = Some (c', e)"
      "client_ok c'" "lc_next c' = lc_next c"
    using close_subscription_ok [OF assms, of a "sh_id h"] by blast
  with assms(1) show ?thesis by (cases e rule: option.exhaust; cases "the e") (auto simp: handle_Close_def)
qed

lemma client_publish_ok:
  assumes c: "client_ok c"
  shows "\<exists>c' b. publishTrade now tm c = Some (c', b) \<and> client_ok c' \<and> lc_next c' = lc_next c"
    and "\<exists>c' b. publishQuote now qm c = Some (c', b) \<and> client_ok c' \<and> lc_next c' = lc_next c"
    and "\<exists>c' b. publishExecution now xm c = Some (c', b) \<and> client_ok c' \<and> lc_next c' = lc_next c"
proof -
  note d = client_okD [OF c] and t = client_okD(2-4) [OF c, unfolded part_ok_def, THEN conjunct1]
  show "\<exists>c' b. publishTrade now tm c = Some (c', b) \<and> client_ok c' \<and> lc_next c' = lc_next c"
    using publish_ok [OF t(1), of now "''trade''" tm "lc_eventCh c"] d
    by (auto simp: publishTrade_def client_ok_def intro: part_same_routes [OF d(2)])
  show "\<exists>c' b. publishQuote now qm c = Some (c', b) \<and> client_ok c' \<and> lc_next c' = lc_next c"
    using publish_ok [OF t(2), of now "''quote''" qm "lc_eventCh c"] d
    by (auto simp: publishQuote_def client_ok_def intro: part_same_routes [OF d(3)])
  show "\<exists>c' b. publishExecution now xm c = Some (c', b) \<and> client_ok c' \<and> lc_next c' = lc_next c"
    using publish_ok [OF t(3), of now "''execution''" xm "lc_eventCh c"] d
    by (auto simp: publishExecution_def client_ok_def intro: part_same_routes [OF d(4)])
qed

lemma client_step_ok:
  assumes step: "client_step sub unsub env c c'" and c: "client_ok c" and n: "Suc (lc_next c) < 18446744073709551616"
  shows "client_ok c' \<and> lc_next c' \<le> Suc (lc_next c)"
  using step
proof cases
  case (cs_subscribe a kd code r)
  with client_subscribe_ok [OF c n, of a kd code] show ?thesis by auto
next
  case (cs_unsubscribe a kd code e)
  with client_unsubscribe_ok [OF c, of a kd code] show ?thesis by auto
next
  case (cs_close h a h' ce)
  with client_close_ok [OF c, of h a] show ?thesis by auto
next
  case (cs_trade now tm b)
  with client_publish_ok(1) [OF c, of now tm] show ?thesis by auto
next
  case (cs_quote now qm b)
  with client_publish_ok(2) [OF c, of now qm] show ?thesis by auto
next
  case (cs_execution now xm b)
  with client_publish_ok(3) [OF c, of now xm] show ?thesis by auto
next
  case (cs_event now ev)
  with c emit_ok [of "lc_eventCh c" 1 now ev] show ?thesis by (simp add: forwardEvent_def client_ok_def)
next
  case (cs_take_trade ch tm t)
  with client_okD [OF c] take_ok [of KTrade "lc_next c" "lc_trade c" ch tm t] show ?thesis
    by (auto simp: client_ok_def part_ok_def tracks_def)
next
  case (cs_take_quote ch qm q)
  with client_okD [OF c] take_ok [of KQuote "lc_next c" "lc_quote c" ch qm q] show ?thesis
    by (auto simp: client_ok_def part_ok_def tracks_def)
next
  case (cs_take_execution ch xm x)
  with client_okD [OF c] take_ok [of KExecution "lc_next c" "lc_execution c" ch xm x] show ?thesis
    by (auto simp: client_ok_def part_ok_def tracks_def)
next
  case (cs_env w)
  with client_okD [OF c] show ?thesis by (auto simp: client_ok_def intro: part_env env_ok)
qed

lemma client_reach_ok:
  assumes "client_reach sub unsub env w0 n c" and "ok w0" and "live w0 = {}" and "n < 18446744073709551616"
  shows "client_ok c \<and> lc_next c \<le> n"
  using assms
proof (induction rule: client_reach.induct)
  case cr_init
  then show ?case using client_ok_new by (simp add: client_New_def)
next
  case (cr_step n c c')
  then have "client_ok c" "lc_next c \<le> n" by simp_all
  with client_step_ok [OF cr_step.hyps(2)] cr_step.prems show ?case by fastforce
qed

end

section \<open>The client on the realtime service\<close>

abbreviation new_registry :: "ls_dependencies \<Rightarrow> conn_registry" where
  "new_registry d \<equiv> newConnRegistry (normalizeDependencies d)"

lemma live_routes_new: "live_routes (new_registry d) = {}"
  by (simp add: live_routes_def newConnRegistry_def)

fun client_route :: "ls_kind \<Rightarrow> string \<Rightarrow> ('w, 'x) ls_client \<Rightarrow> sub_route option" where
  "client_route KTrade k c = rt_routes (lc_trade c) (routeKey (kind_code KTrade) k)"
| "client_route KQuote k c = rt_routes (lc_quote c) (routeKey (kind_code KQuote) k)"
| "client_route KExecution k c = rt_routes (lc_execution c) (routeKey (kind_code KExecution) k)"

lemma ls_client_reach_ok:
  assumes "client_reach (ws_Subscribe :: 'e conn_answer \<Rightarrow> _) (ws_Unsubscribe :: 'e conn_answer \<Rightarrow> _) rg_env
      (new_registry d) n c"
    and "n < 18446744073709551616"
  shows "ls_feed.client_ok c \<and> lc_next c \<le> n"
  by (rule ls_feed.client_reach_ok [OF assms(1) reg_ok_new live_routes_new assms(2)])

text \<open>C16. The routes of the client and the owner table of its connection registry agree. After any
  interleaving of fewer than \<open>2^64\<close> calls, packets, events and steps of the connection layer, every
  further call returns without a panic; as long as the service has not been shut down, the
  registry has a connection slot for the route of a key exactly when the client has a route for
  it, and such a route always has a subscriber. This is the bookkeeping of the process: that LS
  itself still streams the route is not claimed, since the answer to a subscribe command is not
  awaited and a reconnect replays no command (\<open>mux_reconnect_replays_nothing\<close>).\<close>

theorem ls_client_route_live:
  fixes ans :: "'e conn_answer"
  assumes "client_reach (ws_Subscribe :: 'e conn_answer \<Rightarrow> _) (ws_Unsubscribe :: 'e conn_answer \<Rightarrow> _) rg_env
      (new_registry d) n c"
    and "n < 18446744073709551615"
  shows "client_Subscribe (ws_Subscribe ans) kd code c \<noteq> None \<and>
    client_Unsubscribe (ws_Unsubscribe ans) kd code c \<noteq> None \<and>
    (normal_key (sh_kind h) (sh_trKey h) \<longrightarrow> handle_Close (ws_Unsubscribe ans) h c \<noteq> None) \<and>
    (\<not> rg_closed (lc_api c) \<longrightarrow> normal_key kd k \<longrightarrow>
      (rg_owners (lc_api c) (route_of kd k) \<noteq> None) = (client_route kd k c \<noteq> None)) \<and>
    (client_route kd k c = Some ro \<longrightarrow> ro_subscribers ro \<noteq> [])"
proof -
  have "n < 18446744073709551616" using assms(2) by simp
  from ls_client_reach_ok [OF assms(1) this]
  have ok: "ls_feed.client_ok c" and le: "lc_next c \<le> n" by simp_all
  then have n: "Suc (lc_next c) < 18446744073709551616" using assms(2) by simp
  have parts: "ls_feed.part_ok KTrade (lc_next c) (lc_trade c) (lc_api c)"
    "ls_feed.part_ok KQuote (lc_next c) (lc_quote c) (lc_api c)"
    "ls_feed.part_ok KExecution (lc_next c) (lc_execution c) (lc_api c)"
    using ls_feed.client_okD(2-4) [OF ok] .
  have "client_Subscribe (ws_Subscribe ans) kd code c \<noteq> None"
    using ls_feed.client_subscribe_ok [OF ok n, of ans kd code] by auto
  moreover have "client_Unsubscribe (ws_Unsubscribe ans) kd code c \<noteq> None"
    using ls_feed.client_unsubscribe_ok [OF ok, of ans kd code] by auto
  moreover have "handle_Close (ws_Unsubscribe ans) h c \<noteq> None" if "normal_key (sh_kind h) (sh_trKey h)"
    using ls_feed.client_close_ok [OF ok that, of ans] by auto
  moreover have "(rg_owners (lc_api c) (route_of kd k) \<noteq> None) = (client_route kd k c \<noteq> None)"
    if "\<not> rg_closed (lc_api c)" "normal_key kd k"
    using parts that by (cases kd) (auto simp: ls_feed.part_ok_def ls_feed.tracks_def live_routes_def)
  moreover have "ro_subscribers ro \<noteq> []" if "client_route kd k c = Some ro"
    using parts that by (cases kd) (auto simp: ls_feed.part_ok_def route_ok_def dest!: table_okD(1))
  ultimately show ?thesis by blast
qed

section \<open>Fan-out\<close>

lemma emit_many:
  "chan_ok ev \<Longrightarrow> (client_emitEvent now e ^^ m) ev =
    Chan (chan_cap ev) (chan_buf ev @ replicate (min m (chan_cap ev - length (chan_buf ev))) (stamp_event ''client'' now e))"
proof (induction m)
  case 0
  then show ?case by simp
next
  case (Suc m)
  let ?k = "chan_cap ev - length (chan_buf ev)"
  show ?case
    using Suc
    by (cases "m < ?k") (auto simp: client_emitEvent_def chan_defs min_def replicate_append_same not_less
        simp flip: replicate_Suc)
qed

text \<open>The result of a publication that reaches everybody: each subscriber of the route has an open
  channel, which gets the message if it is not full; every full channel is reported by one event
  while the event channel has room; nothing else changes.\<close>

definition fanned_out ::
    "go_time \<Rightarrow> string \<Rightarrow> 'b native_message \<Rightarrow> sub_route \<Rightarrow> 'b native_message route_table \<Rightarrow> 'e ls_event chan \<Rightarrow>
     'b native_message route_table \<Rightarrow> 'e ls_event chan \<Rightarrow> bool" where
  "fanned_out now stream msg ro t ev t' ev' \<longleftrightarrow>
     rt_routes t' = rt_routes t \<and>
     (\<forall>a\<in>route_chans ro. \<exists>c c'. rt_heap t a = Some c \<and> \<not> sc_closed c \<and> rt_heap t' a = Some c' \<and>
        chan_buf (sc_chan c') = (if length (chan_buf (sc_chan c)) < 64 then chan_buf (sc_chan c) @ [msg]
                                 else chan_buf (sc_chan c))) \<and>
     (\<forall>a. a \<notin> route_chans ro \<longrightarrow> rt_heap t' a = rt_heap t a) \<and>
     chan_buf ev' = chan_buf ev @ replicate
       (min (card {a \<in> route_chans ro. is_full (rt_heap t) a}) (chan_cap ev - length (chan_buf ev)))
       (stamp_event ''client'' now (subscriber_full_event stream ro msg))"

lemma publish_fanned_out:
  assumes t: "table_ok kd n t" and ev: "chan_ok ev"
    and ro: "rt_routes t (routeKey (rh_TRCode (nm_Header msg)) (rh_TRKey (nm_Header msg))) = Some ro"
  shows "\<exists>t' ev'. publishRoute now stream msg t ev = Some (t', ev', True) \<and> fanned_out now stream msg ro t ev t' ev'"
proof -
  note r = table_okD(1) [OF t ro]
  let ?as = "map snd (ro_subscribers ro)" and ?heap = "delivered msg (route_chans ro) (rt_heap t)"
  let ?ev = "(client_emitEvent now (subscriber_full_event stream ro msg) ^^ length (filter (is_full (rt_heap t)) ?as)) ev"
  have d: "distinct ?as" and set: "set ?as = route_chans ro" using r by (simp_all add: route_ok_def route_chans_def)
  have open': "is_open (rt_heap t) a" if "a \<in> route_chans ro" for a
    using r that by (auto simp: route_ok_def route_chans_def)
  have pub: "publishRoute now stream msg t ev = Some (t\<lparr>rt_heap := ?heap\<rparr>, ?ev, True)"
    using publish_loop_eq [OF d, of t now stream ro msg ev] open' set by (simp add: publishRoute_def ro)
  have n: "length (filter (is_full (rt_heap t)) ?as) = card {a \<in> route_chans ro. is_full (rt_heap t) a}"
    using distinct_length_filter [OF d, of "is_full (rt_heap t)"] set by (simp add: Int_def conj_commute)
  have "\<exists>c c'. rt_heap t a = Some c \<and> \<not> sc_closed c \<and> ?heap a = Some c' \<and>
      chan_buf (sc_chan c') = (if length (chan_buf (sc_chan c)) < 64 then chan_buf (sc_chan c) @ [msg]
        else chan_buf (sc_chan c))" if "a \<in> route_chans ro" for a
  proof -
    obtain c where c: "rt_heap t a = Some c" "\<not> sc_closed c" using open' [OF \<open>a \<in> route_chans ro\<close>] by (auto simp: is_open_def)
    with table_okD(3) [OF t c(1)] that show ?thesis
      by (intro exI [of _ c] exI [of _ "deliver msg c"]) (auto simp: delivered_def deliver_def chan_defs)
  qed
  then have "fanned_out now stream msg ro t ev (t\<lparr>rt_heap := ?heap\<rparr>) ?ev"
    unfolding fanned_out_def n emit_many [OF ev] by (simp add: delivered_def)
  with pub show ?thesis by blast
qed

text \<open>C17. Every subscriber of a route gets every packet of the route that its channel can hold, and
  nobody else does. In any reachable state of the client, publishing a trade, quote or
  execution packet returns: it says that there is no route, and changes nothing, or fans the
  packet out, which includes that no channel of a subscriber has been closed.\<close>

theorem ls_client_fanout:
  assumes "client_reach (ws_Subscribe :: 'e conn_answer \<Rightarrow> _) (ws_Unsubscribe :: 'e conn_answer \<Rightarrow> _) rg_env
      (new_registry d) n c"
    and "n < 18446744073709551616"
  shows "(case rt_routes (lc_trade c) (routeKey (rh_TRCode (nm_Header tm)) (rh_TRKey (nm_Header tm))) of
        None \<Rightarrow> publishTrade now tm c = Some (c, False)
      | Some ro \<Rightarrow> \<exists>t ev. publishTrade now tm c = Some (c\<lparr>lc_trade := t, lc_eventCh := ev\<rparr>, True) \<and>
          fanned_out now ''trade'' tm ro (lc_trade c) (lc_eventCh c) t ev) \<and>
    (case rt_routes (lc_quote c) (routeKey (rh_TRCode (nm_Header qm)) (rh_TRKey (nm_Header qm))) of
        None \<Rightarrow> publishQuote now qm c = Some (c, False)
      | Some ro \<Rightarrow> \<exists>t ev. publishQuote now qm c = Some (c\<lparr>lc_quote := t, lc_eventCh := ev\<rparr>, True) \<and>
          fanned_out now ''quote'' qm ro (lc_quote c) (lc_eventCh c) t ev) \<and>
    (case rt_routes (lc_execution c) (routeKey (rh_TRCode (nm_Header xm)) (rh_TRKey (nm_Header xm))) of
        None \<Rightarrow> publishExecution now xm c = Some (c, False)
      | Some ro \<Rightarrow> \<exists>t ev. publishExecution now xm c = Some (c\<lparr>lc_execution := t, lc_eventCh := ev\<rparr>, True) \<and>
          fanned_out now ''execution'' xm ro (lc_execution c) (lc_eventCh c) t ev)"
proof -
  from ls_client_reach_ok [OF assms] have "ls_feed.client_ok c" by blast
  note d = ls_feed.client_okD [OF this]
  note t = d(2-4) [unfolded ls_feed.part_ok_def, THEN conjunct1]
  note f = publish_fanned_out [OF t(1) d(5), of tm _ now "''trade''"]
    publish_fanned_out [OF t(2) d(5), of qm _ now "''quote''"]
    publish_fanned_out [OF t(3) d(5), of xm _ now "''execution''"]
  show ?thesis
    using f(1) f(2) f(3)
    by (fastforce simp: publishTrade_def publishQuote_def publishExecution_def publishRoute_def split: option.splits)
qed

text \<open>From the wire to the subscriber: a trade packet that the service accepts, dispatched by the
  client, is the last message in the channel of every subscriber with room.\<close>

lemma trade_packet_dispatched:
  fixes c :: "(conn_registry, 'x) ls_client"
  assumes c: "client_reach (ws_Subscribe :: 'e conn_answer \<Rightarrow> _) (ws_Unsubscribe :: 'e conn_answer \<Rightarrow> _) rg_env
      (new_registry d) n c" "n < 18446744073709551616"
    and packet: "data \<noteq> []" "hd data = CHR ''{''" "dec_envelope dec data = Inr m" "\<not> isWSControlMessage m"
      "we_TRCode m = RealtimeTRTrade" "we_Body m \<noteq> []" "dec_trade dec (we_Body m) = Inr t"
    and idle: "chan_buf (rl_tradeCh svc) = []" "0 < chan_cap (rl_tradeCh svc)"
    and sub: "client_route KTrade (we_TRKey m) c = Some ro" "a \<in> route_chans ro"
      "rt_heap (lc_trade c) a = Some ch" "length (chan_buf (sc_chan ch)) < 64"
  shows "\<exists>c' ch'. tradeDispatch now' (handleTransportMessage dec now connID data svc) c = Some (svc, c') \<and>
    rt_heap (lc_trade c') a = Some ch' \<and> chan_buf (sc_chan ch') = chan_buf (sc_chan ch) @ [native now connID m t]"
proof -
  let ?msg = "native now connID m t"
  have h: "rh_TRCode (nm_Header ?msg) = RealtimeTRTrade" "rh_TRKey (nm_Header ?msg) = we_TRKey m"
    using packet(5) by (simp_all add: native_def header_of_def)
  have "handleTransportMessage dec now connID data svc = svc\<lparr>rl_tradeCh := Chan (chan_cap (rl_tradeCh svc)) [?msg]\<rparr>"
    using packet idle
    by (auto simp: native_def handleTransportMessage_def ls_handleJSONMessage_def handleRealtimeJSONMessage_def
        publishRealtime_def publish_body_def header_of_def chan_defs Let_def split: list.splits)
  moreover have "svc\<lparr>rl_tradeCh := Chan (chan_cap (rl_tradeCh svc)) []\<rparr> = svc"
    using idle by (cases "rl_tradeCh svc") (auto intro: realtime.equality)
  moreover obtain t' ev' where "publishTrade now' ?msg c = Some (c\<lparr>lc_trade := t', lc_eventCh := ev'\<rparr>, True)"
    and f: "fanned_out now' ''trade'' ?msg ro (lc_trade c) (lc_eventCh c) t' ev'"
  proof -
    from ls_client_reach_ok [OF c] have "ls_feed.client_ok c" by blast
    note d = ls_feed.client_okD [OF this]
    note t = d(2) [unfolded ls_feed.part_ok_def, THEN conjunct1]
    have "rt_routes (lc_trade c) (routeKey (rh_TRCode (nm_Header ?msg)) (rh_TRKey (nm_Header ?msg))) = Some ro"
      using sub(1) by (simp add: h)
    from publish_fanned_out [OF t d(5) this, of now' "''trade''"] obtain t' ev' where
      "publishRoute now' ''trade'' ?msg (lc_trade c) (lc_eventCh c) = Some (t', ev', True)"
      "fanned_out now' ''trade'' ?msg ro (lc_trade c) (lc_eventCh c) t' ev'" by blast
    with that [of ev' t'] show thesis by (simp add: publishTrade_def)
  qed
  moreover obtain ch' where "rt_heap t' a = Some ch'" "chan_buf (sc_chan ch') = chan_buf (sc_chan ch) @ [?msg]"
    using f sub(2-4) by (fastforce simp: fanned_out_def)
  ultimately show ?thesis by (auto simp: tradeDispatch_def chan_recv_def)
qed

section \<open>An example\<close>

definition demo_answer :: "unit conn_answer" where
  "demo_answer = ((\<lambda>_. True), (\<lambda>_ _. None))"

definition demo_table :: "trade_message route_table" where
  "demo_table = \<lparr>rt_routes = [''US3:005930'' \<mapsto> \<lparr>ro_trCode = ''US3'', ro_trKey = ''005930'', ro_subscribers = [(1, 0)]\<rparr>],
     rt_heap = [0 \<mapsto> \<lparr>sc_chan = chan_make 64, sc_closed = False\<rparr>], rt_alloc = 1\<rparr>"

definition demo_api :: conn_registry where
  "demo_api = fst (the (subscribeTransport (fst demo_answer) (snd demo_answer) ''rt:US3:005930'' (new_registry demo_deps)))"

definition demo_client :: "(conn_registry, unit) ls_client" where
  "demo_client = (client_New demo_api)\<lparr>lc_next := 1, lc_trade := demo_table\<rparr>"

lemma demo_digits [simp]: "digit_val (CHR ''0'') = Some 0" "digit_val (CHR ''5'') = Some 5"
  "digit_val (CHR ''9'') = Some 9" "digit_val (CHR ''3'') = Some 3"
  by (simp_all add: digit_val_def)

lemma demo_normalize [simp]:
  "client_normalize KTrade ''005930'' = Inr ''005930''"
  "normalizeRealtimeCode ''US3'' ''005930'' = (Inr ''005930'' :: unit ls_call_error + string)"
  "routeKey ''US3'' ''005930'' = ''US3:005930''" "route_of KTrade ''005930'' = ''rt:US3:005930''"
  by (simp_all add: client_normalize.simps normalizeIssueCode_def normalizeRealtimeCode_def normalizeWSIssueCode_def
      isDecimalDigits_def cut_prefix_A_def trim_space_def is_space_def routeKey_def route_of_def buildTransportKey_def)

lemma demo_transport:
  "\<exists>r. subscribeTransport (fst demo_answer) (snd demo_answer) ''rt:US3:005930'' (new_registry demo_deps) = Some (r, None) \<and>
    \<not> rg_closed r"
  by (simp add: subscribeTransport_def registry_acquire_def selectSlotLocked_def select_loop.simps demo_answer_def
      demo_deps_def newConnRegistry_def normalizeDependencies_def createSlotLocked_def upd_slot_def Let_def)

lemma demo_subscribe:
  "\<exists>h. client_Subscribe (ws_Subscribe demo_answer) KTrade ''005930'' (client_New (new_registry demo_deps)) =
    Some (demo_client, Subscribed h)"
proof -
  obtain r where "subscribeTransport (fst demo_answer) (snd demo_answer) ''rt:US3:005930'' (new_registry demo_deps) = Some (r, None)"
    using demo_transport by blast
  then have "ws_Subscribe demo_answer KTrade ''005930'' (new_registry demo_deps) = Some (demo_api, None)"
    by (simp add: ws_Subscribe_def demo_api_def)
  then show ?thesis
    by (simp add: client_Subscribe_def acquireRoute_def client_New_def new_table_def demo_client_def demo_table_def
        incr64_def handle_of_def Let_def)
qed

lemma demo_client_reach:
  "client_reach (ws_Subscribe :: unit conn_answer \<Rightarrow> _) (ws_Unsubscribe :: unit conn_answer \<Rightarrow> _) rg_env
    (new_registry demo_deps) 1 demo_client"
proof -
  obtain h where "client_Subscribe (ws_Subscribe demo_answer) KTrade ''005930'' (client_New (new_registry demo_deps)) =
      Some (demo_client, Subscribed h)"
    using demo_subscribe by blast
  from cs_subscribe [where sub = ws_Subscribe and a = demo_answer, OF this]
  have "client_step (ws_Subscribe :: unit conn_answer \<Rightarrow> _) (ws_Unsubscribe :: unit conn_answer \<Rightarrow> _) rg_env
      (client_New (new_registry demo_deps)) demo_client" .
  from cr_step [OF cr_init this] show ?thesis by simp
qed

theorem ls_client_route_live_witness:
  "rg_owners (lc_api demo_client) ''rt:US3:005930'' \<noteq> None"
proof -
  have "normal_key KTrade ''005930''" by (simp add: normal_key_def)
  moreover have "client_route KTrade ''005930'' demo_client \<noteq> None" by (simp add: demo_client_def demo_table_def)
  moreover have "\<not> rg_closed (lc_api demo_client)"
    using demo_transport by (auto simp: demo_client_def client_New_def demo_api_def)
  ultimately show ?thesis
    using ls_client_route_live [where ?'e = unit, OF demo_client_reach, where kd = KTrade and k = "''005930''"]
    by auto
qed

theorem ls_client_fanout_witness:
  "\<exists>c'. publishTrade 7 (native 5 ''primary'' demo_envelope demo_trade) demo_client = Some (c', True) \<and>
    map_option (chan_buf \<circ> sc_chan) (rt_heap (lc_trade c') 0) = Some [native 5 ''primary'' demo_envelope demo_trade]"
proof -
  let ?m = "native 5 ''primary'' demo_envelope demo_trade"
  have "routeKey (rh_TRCode (nm_Header ?m)) (rh_TRKey (nm_Header ?m)) = ''US3:005930''"
    by (simp add: native_def header_of_def demo_envelope_def)
  moreover have "rt_routes (lc_trade demo_client) ''US3:005930'' =
      Some \<lparr>ro_trCode = ''US3'', ro_trKey = ''005930'', ro_subscribers = [(1, 0)]\<rparr>"
    by (simp add: demo_client_def demo_table_def)
  ultimately obtain t ev where "publishTrade 7 ?m demo_client = Some (demo_client\<lparr>lc_trade := t, lc_eventCh := ev\<rparr>, True)"
    "fanned_out 7 ''trade'' ?m \<lparr>ro_trCode = ''US3'', ro_trKey = ''005930'', ro_subscribers = [(1, 0)]\<rparr>
      (lc_trade demo_client) (lc_eventCh demo_client) t ev"
    using conjunct1 [OF ls_client_fanout [where ?'e = unit, OF demo_client_reach, where tm = ?m and now = 7]] by auto
  then show ?thesis
    by (auto simp: fanned_out_def route_chans_def demo_client_def demo_table_def chan_defs)
qed

end
