(* ===== verification/WS_Mux_System.thy ===== *)
theory WS_Mux_System
  imports WS_Mux "HOL-Library.Multiset"
begin

text \<open>
  The multiplexer at work: the io workers (\<open>ioworker.go\<close>) and the client (\<open>client.go\<close>) of
  \<open>internal/core/pkg/wsrefact_v6\<close>, and the system of the mux loop, one goroutine per worker,
  their read loops and heartbeats, the fatal watcher and the callers as a step relation.
  One step is one receive, one send or one critical section. A heartbeat whose context is
  cancelled may still send one tick, so ticks of every epoch up to the current one may come.
\<close>

section \<open>The io worker\<close>

text \<open>A connection is a number. \<open>iw_reading\<close> is the connection whose read loop runs with a live
  context, \<open>iw_failing\<close> the errors that read loops have still to publish, \<open>iw_frames\<close> the log of
  the frames written. What the world answers to a command is a record.\<close>

datatype 'e worker_todo = TodoPublish "'e io_event" | TodoNotify nat

record 'e io_worker =
  iw_conn :: "nat option"
  iw_reading :: "nat option"
  iw_todo :: "'e worker_todo list"
  iw_failing :: "'e list"
  iw_frames :: "(nat \<times> write_intent) list"

record 'e worker_answer =
  wa_dial :: "'e + nat"
  wa_attempts :: "(bool \<times> ('e + nat) \<times> bool) list"
  wa_cancelled :: bool
  wa_encode :: "write_intent \<Rightarrow> 'e + int"
  wa_deadline :: "'e option"
  wa_write :: "'e option"

definition new_io_worker :: "'e io_worker" where
  "new_io_worker = \<lparr>iw_conn = None, iw_reading = None, iw_todo = [], iw_failing = [], iw_frames = []\<rparr>"

definition dropConn :: "'e io_worker \<Rightarrow> 'e io_worker" where
  "dropConn w = w\<lparr>iw_conn := None, iw_reading := None\<rparr>"

definition publish :: "'e io_event \<Rightarrow> 'e io_worker \<Rightarrow> 'e io_worker" where
  "publish e w = w\<lparr>iw_todo := iw_todo w @ [TodoPublish e]\<rparr>"

definition notifyConnected :: "nat \<Rightarrow> 'e io_worker \<Rightarrow> 'e io_worker" where
  "notifyConnected c w = w\<lparr>iw_todo := iw_todo w @ [TodoNotify c]\<rparr>"

definition factory_Dial :: "'e + nat \<Rightarrow> 'e ws_error + nat" where
  "factory_Dial dial = (case dial of Inl e \<Rightarrow> Inl (OperationError ''dial'' e) | Inr c \<Rightarrow> Inr c)"

definition handleConnect :: "nat \<Rightarrow> 'e worker_answer \<Rightarrow> 'e io_worker \<Rightarrow> 'e io_worker" where
  "handleConnect i a w =
     (let w1 = dropConn w
      in case factory_Dial (wa_dial a) of
           Inl err \<Rightarrow> publish (WkConnectFailed i err) w1
         | Inr c \<Rightarrow> notifyConnected c (publish (WkConnected i) (w1\<lparr>iw_conn := Some c\<rparr>)))"

text \<open>The retry loop over the attempts: whether the delay ended before the context did, the
  result of the dial, and whether the context has ended by then. \<open>None\<close> is a loop that is
  still trying.\<close>

fun runReconnect :: "(bool \<times> ('e + nat) \<times> bool) list \<Rightarrow> nat option option" where
  "runReconnect [] = None"
| "runReconnect ((shouldDial, dial, ended) # as) =
     (if \<not> shouldDial then Some None
      else case factory_Dial dial of
             Inr c \<Rightarrow> Some (Some c)
           | Inl _ \<Rightarrow> if ended then Some None else runReconnect as)"

definition handleReconnect :: "nat \<Rightarrow> 'e worker_answer \<Rightarrow> 'e io_worker \<Rightarrow> 'e io_worker option" where
  "handleReconnect i a w =
     (let w1 = dropConn w
      in case runReconnect (wa_attempts a) of
           None \<Rightarrow> None
         | Some conn \<Rightarrow>
             (case conn of
                None \<Rightarrow> Some w1
              | Some c \<Rightarrow>
                  if wa_cancelled a then Some w1
                  else Some (notifyConnected c (publish (WkReconnected i) (w1\<lparr>iw_conn := Some c\<rparr>)))))"

text \<open>Encoding and writing one frame on a live connection. An encoder that gives message type 0
  makes the worker panic (\<open>None\<close>); a failed write closes the connection, and the read loop will
  see that. The result of the write is returned.\<close>

definition encodeWrite :: "'e worker_answer \<Rightarrow> write_intent \<Rightarrow> ('e ws_error + unit) option" where
  "encodeWrite a intent =
     (case wa_encode a intent of
        Inl e \<Rightarrow> Some (Inl (EncodeWriteError e))
      | Inr messageType \<Rightarrow> if messageType = 0 then None else Some (Inr ()))"

definition writeOne :: "'e worker_answer \<Rightarrow> nat \<Rightarrow> write_intent \<Rightarrow> 'e io_worker \<Rightarrow> 'e io_worker \<times> 'e ws_error option" where
  "writeOne a c intent w =
     (case wa_deadline a of
        Some e \<Rightarrow> (w, Some (OperationError ''set write deadline'' e))
      | None \<Rightarrow>
          (case wa_write a of
             Some e \<Rightarrow> (w, Some (OperationError ''write message'' e))
           | None \<Rightarrow> (w\<lparr>iw_frames := iw_frames w @ [(c, intent)]\<rparr>, None)))"

definition handleWrite ::
    "nat \<Rightarrow> 'e worker_answer \<Rightarrow> write_intent \<Rightarrow> 'e io_worker \<Rightarrow> ('e io_worker \<times> 'e ws_error option) option" where
  "handleWrite i a intent w =
     (case iw_conn w of
        None \<Rightarrow> Some (publish (WkWriteFailed i intent ErrNotConnected) w, Some ErrNotConnected)
      | Some c \<Rightarrow>
          (case encodeWrite a intent of
             None \<Rightarrow> None
           | Some (Inl e) \<Rightarrow> Some (publish (WkWriteFailed i intent e) w, Some e)
           | Some (Inr _) \<Rightarrow> Some (writeOne a c intent w)))"

definition handleReplayWrite :: "nat \<Rightarrow> 'e worker_answer \<Rightarrow> write_intent \<Rightarrow> 'e io_worker \<Rightarrow> 'e io_worker option" where
  "handleReplayWrite i a intent w =
     (case iw_conn w of
        None \<Rightarrow> Some (publish (WkWriteFailed i intent ErrNotConnected) w)
      | Some c \<Rightarrow>
          (case encodeWrite a intent of
             None \<Rightarrow> None
           | Some (Inl e) \<Rightarrow> Some (publish (WkWriteFailed i intent e) w)
           | Some (Inr _) \<Rightarrow> Some (fst (writeOne a c intent w))))"

definition handlePing :: "nat \<Rightarrow> 'e worker_answer \<Rightarrow> write_intent \<Rightarrow> 'e io_worker \<Rightarrow> 'e io_worker option" where
  "handlePing i a intent w =
     (case iw_conn w of
        None \<Rightarrow> Some w
      | Some c \<Rightarrow>
          (case encodeWrite a intent of
             None \<Rightarrow> None
           | Some (Inl e) \<Rightarrow> Some (publish (WkWriteFailed i intent e) w)
           | Some (Inr _) \<Rightarrow> Some (fst (writeOne a c intent w))))"

text \<open>One turn of the worker loop, with the handles that it resolves.\<close>

fun worker_turn ::
    "nat \<Rightarrow> 'e worker_answer \<Rightarrow> io_command \<Rightarrow> 'e io_worker \<Rightarrow> ('e io_worker \<times> (nat \<times> 'e ws_error option) list) option" where
  "worker_turn i a (IoConnect d) w = Some (handleConnect i a w, [])"
| "worker_turn i a (IoReconnect d) w = map_option (\<lambda>w'. (w', [])) (handleReconnect i a w)"
| "worker_turn i a (IoWrite intent s) w = map_option (\<lambda>(w', r). (w', [(s, r)])) (handleWrite i a intent w)"
| "worker_turn i a (IoReplayWrite intent) w = map_option (\<lambda>w'. (w', [])) (handleReplayWrite i a intent w)"
| "worker_turn i a (IoPing intent) w = map_option (\<lambda>w'. (w', [])) (handlePing i a intent w)"

section \<open>The client\<close>

record 'e ws_system =
  sy_mux :: "'e mux"
  sy_workers :: "'e io_worker list"
  sy_stopped :: bool
  sy_fatalErr :: "'e ws_error option"
  sy_nextSub :: nat

definition submitCommand :: "user_kind \<Rightarrow> string \<Rightarrow> 'e ws_system \<Rightarrow> 'e ws_system \<times> ('e ws_error + nat)" where
  "submitCommand kind key y =
     (case chan_send (mx_commands (sy_mux y)) \<lparr>uc_Kind = kind, uc_Key = key, uc_Sub = sy_nextSub y\<rparr> of
        Some ch \<Rightarrow> (y\<lparr>sy_mux := (sy_mux y)\<lparr>mx_commands := ch\<rparr>, sy_nextSub := Suc (sy_nextSub y)\<rparr>, Inr (sy_nextSub y))
      | None \<Rightarrow> (y, Inl ErrQueueFull))"

definition submitLocked :: "user_kind \<Rightarrow> string \<Rightarrow> 'e ws_system \<Rightarrow> 'e ws_system \<times> ('e ws_error + nat)" where
  "submitLocked kind key y = (if sy_stopped y then (y, Inl ErrMuxStopped) else submitCommand kind key y)"

definition mux_stop :: "'e mux \<Rightarrow> 'e mux" where
  "mux_stop m = m\<lparr>mx_closed := True\<rparr>"

definition client_Stop :: "'e ws_system \<Rightarrow> 'e ws_system" where
  "client_Stop y = (if sy_stopped y then y else y\<lparr>sy_stopped := True, sy_mux := mux_stop (sy_mux y)\<rparr>)"

definition markFatalAndStop :: "'e ws_error \<Rightarrow> 'e ws_system \<Rightarrow> 'e ws_system" where
  "markFatalAndStop err y =
     (let y1 = (if sy_fatalErr y = None then y\<lparr>sy_fatalErr := Some err\<rparr> else y)
      in if sy_stopped y1 then y1 else y1\<lparr>sy_stopped := True, sy_mux := mux_stop (sy_mux y1)\<rparr>)"

definition FatalErr :: "'e ws_system \<Rightarrow> 'e ws_error option" where
  "FatalErr y = sy_fatalErr y"

definition NewClient :: "'e mux_config \<Rightarrow> 'e ws_error + 'e ws_system \<times> 'e placement_policy" where
  "NewClient cfg =
     (case NewMux cfg of
        Inl e \<Rightarrow> Inl e
      | Inr (m, policy) \<Rightarrow> Inr (\<lparr>sy_mux = m, sy_workers = map (\<lambda>_. new_io_worker) (mx_workers m), sy_stopped = False,
          sy_fatalErr = None, sy_nextSub = 0\<rparr>, policy))"

section \<open>Steps\<close>

definition running :: "'e mux \<Rightarrow> bool" where
  "running m \<longleftrightarrow> mx_state m = MuxRunning \<or> mx_state m = MuxStopping"

inductive mux_step :: "'e placement_policy \<Rightarrow> 'e ws_system \<Rightarrow> 'e ws_system \<Rightarrow> bool" for policy where
  ms_submit: "mux_step policy y (fst (submitLocked kind key y))"
| ms_stop: "mux_step policy y (client_Stop y)"
| ms_watch: "err \<in> set (mx_fatal (sy_mux y)) \<Longrightarrow> mux_step policy y (markFatalAndStop err y)"
| ms_run: "mux_step policy y (y\<lparr>sy_mux := mux_run (sy_mux y)\<rparr>)"
| ms_command: "running (sy_mux y) \<Longrightarrow> mx_sending (sy_mux y) = [] \<Longrightarrow>
    chan_recv (mx_commands (sy_mux y)) = Some (c, ch) \<Longrightarrow>
    mux_step policy y (y\<lparr>sy_mux := mux_command_turn policy c ((sy_mux y)\<lparr>mx_commands := ch\<rparr>)\<rparr>)"
| ms_event: "running (sy_mux y) \<Longrightarrow> mx_sending (sy_mux y) = [] \<Longrightarrow>
    chan_recv (mx_events (sy_mux y)) = Some (e, ch) \<Longrightarrow>
    mux_step policy y (y\<lparr>sy_mux := mux_event_turn e ((sy_mux y)\<lparr>mx_events := ch\<rparr>)\<rparr>)"
| ms_shutdown: "running (sy_mux y) \<Longrightarrow> mx_sending (sy_mux y) = [] \<Longrightarrow> mx_closed (sy_mux y) \<Longrightarrow>
    chan_buf (mx_commands (sy_mux y)) = [] \<Longrightarrow>
    mux_step policy y (y\<lparr>sy_mux := handleShutdown (sy_mux y)\<rparr>)"
| ms_drain: "mx_state (sy_mux y) = MuxStopped \<Longrightarrow> chan_recv (mx_events (sy_mux y)) = Some (e, ch) \<Longrightarrow>
    mux_step policy y (y\<lparr>sy_mux := (sy_mux y)\<lparr>mx_events := ch\<rparr>\<rparr>)"
| ms_send: "mx_sending (sy_mux y) = (i, c) # rest \<Longrightarrow>
    chan_send (mw_CommandCh (mx_workers (sy_mux y) ! i)) c = Some ch \<Longrightarrow>
    mux_step policy y (y\<lparr>sy_mux := (upd_worker i (\<lambda>w. w\<lparr>mw_CommandCh := ch\<rparr>) (sy_mux y))\<lparr>mx_sending := rest\<rparr>\<rparr>)"
| ms_worker: "i < length (mx_workers (sy_mux y)) \<Longrightarrow> iw_todo (sy_workers y ! i) = [] \<Longrightarrow>
    chan_recv (mw_CommandCh (mx_workers (sy_mux y) ! i)) = Some (c, ch) \<Longrightarrow>
    worker_turn i a c (sy_workers y ! i) = Some (w, rs) \<Longrightarrow>
    mux_step policy y (y\<lparr>sy_workers := (sy_workers y)[i := w],
      sy_mux := fold (\<lambda>(s, r). resolve s r) rs (upd_worker i (\<lambda>w. w\<lparr>mw_CommandCh := ch\<rparr>) (sy_mux y))\<rparr>)"
| ms_publish: "i < length (sy_workers y) \<Longrightarrow> iw_todo (sy_workers y ! i) = TodoPublish e # rest \<Longrightarrow>
    chan_send (mx_events (sy_mux y)) e = Some ch \<Longrightarrow>
    mux_step policy y (y\<lparr>sy_workers := (sy_workers y)[i := (sy_workers y ! i)\<lparr>iw_todo := rest\<rparr>],
      sy_mux := (sy_mux y)\<lparr>mx_events := ch\<rparr>\<rparr>)"
| ms_notify: "i < length (sy_workers y) \<Longrightarrow> iw_todo (sy_workers y ! i) = TodoNotify conn # rest \<Longrightarrow>
    mux_step policy y (y\<lparr>sy_workers := (sy_workers y)[i := (sy_workers y ! i)\<lparr>iw_todo := rest, iw_reading := Some conn\<rparr>]\<rparr>)"
| ms_read_fails: "i < length (sy_workers y) \<Longrightarrow> iw_reading (sy_workers y ! i) = Some conn \<Longrightarrow>
    mux_step policy y (y\<lparr>sy_workers := (sy_workers y)[i := (sy_workers y ! i)
      \<lparr>iw_reading := None, iw_failing := iw_failing (sy_workers y ! i) @ [err]\<rparr>]\<rparr>)"
| ms_read_publish: "i < length (sy_workers y) \<Longrightarrow> iw_failing (sy_workers y ! i) = err # rest \<Longrightarrow>
    chan_send (mx_events (sy_mux y)) (WkDisconnected i err) = Some ch \<Longrightarrow>
    mux_step policy y (y\<lparr>sy_workers := (sy_workers y)[i := (sy_workers y ! i)\<lparr>iw_failing := rest\<rparr>],
      sy_mux := (sy_mux y)\<lparr>mx_events := ch\<rparr>\<rparr>)"
| ms_exit: "i < length (sy_workers y) \<Longrightarrow> iw_todo (sy_workers y ! i) = [] \<Longrightarrow>
    \<not> mw_Open (mx_workers (sy_mux y) ! i) \<Longrightarrow> chan_buf (mw_CommandCh (mx_workers (sy_mux y) ! i)) = [] \<Longrightarrow>
    mux_step policy y (y\<lparr>sy_workers := (sy_workers y)[i := dropConn (sy_workers y ! i)]\<rparr>)"
| ms_tick: "i < length (mx_workers (sy_mux y)) \<Longrightarrow> 0 < epoch \<Longrightarrow> epoch \<le> mw_HeartbeatEpoch (mx_workers (sy_mux y) ! i) \<Longrightarrow>
    chan_send (mx_events (sy_mux y)) (WkPingTick i epoch) = Some ch \<Longrightarrow>
    mux_step policy y (y\<lparr>sy_mux := (sy_mux y)\<lparr>mx_events := ch\<rparr>\<rparr>)"

end
