(* ===== verification/Multiset_Sums.thy ===== *)
theory Multiset_Sums
  imports "HOL-Library.Multiset"
begin

text \<open>
  Accounts of completion handles: a sum of multisets over a list when one element of the list
  changes. Both multiplexing clients count their handles this way.
\<close>

lemma sum_list_update_mset:
  assumes "i < length xs"
  shows "(\<Sum>x\<leftarrow>xs[i := y]. (f x :: 'b multiset)) + f (xs ! i) = (\<Sum>x\<leftarrow>xs. f x) + f y"
  using assms by (induction xs arbitrary: i) (auto simp: nth_Cons ac_simps split: nat.splits)

end
