(* ===== verification/WS_Mux_Safety.thy ===== *)
theory WS_Mux_Safety
  imports WS_Mux_System Multiset_Sums
begin

text \<open>
  What the multiplexer guarantees under every interleaving of \<open>mux_step\<close>: well-formedness of
  the indexes, the accounting of completion handles, the fatal shutdown, what a reconnect
  replays, and when the loop and a worker block each other.
\<close>

section \<open>Workers and mailboxes\<close>

fun io_subs :: "io_command list \<Rightarrow> nat list" where
  "io_subs [] = []"
| "io_subs (IoWrite _ s # cs) = s # io_subs cs"
| "io_subs (_ # cs) = io_subs cs"

lemma io_subs_append [simp]: "io_subs (xs @ ys) = io_subs xs @ io_subs ys"
  by (induction xs rule: io_subs.induct) simp_all

fun is_replay :: "io_command \<Rightarrow> bool" where
  "is_replay (IoReplayWrite _) = True"
| "is_replay _ = False"

fun event_index :: "'e io_event \<Rightarrow> nat" where
  "event_index (WkConnected i) = i"
| "event_index (WkConnectFailed i _) = i"
| "event_index (WkReconnected i) = i"
| "event_index (WkWriteFailed i _ _) = i"
| "event_index (WkDisconnected i _) = i"
| "event_index (WkPingTick i _) = i"

definition mailbox :: "mux_worker \<Rightarrow> io_command list" where
  "mailbox w = chan_buf (mw_CommandCh w)"

lemma mailbox_updates [simp]:
  "mailbox (w\<lparr>mw_Open := b\<rparr>) = mailbox w"
  "mailbox (w\<lparr>mw_State := s\<rparr>) = mailbox w"
  "mailbox (w\<lparr>mw_DesiredKeys := ks\<rparr>) = mailbox w"
  "mailbox (w\<lparr>mw_DialCtx := d\<rparr>) = mailbox w"
  "mailbox (w\<lparr>mw_PingOn := b\<rparr>) = mailbox w"
  "mailbox (w\<lparr>mw_HeartbeatEpoch := n\<rparr>) = mailbox w"
  "mailbox (w\<lparr>mw_CommandCh := ch\<rparr>) = chan_buf ch"
  by (simp_all add: mailbox_def)

definition held :: "'e mux \<Rightarrow> nat multiset" where
  "held m = (\<Sum>w\<leftarrow>mx_workers m. mset (io_subs (mailbox w))) + mset (map fst (mx_resolved m))"

definition issued :: "'e mux \<Rightarrow> nat multiset" where
  "issued m = mset (map uc_Sub (chan_buf (mx_commands m))) + held m"

lemma upd_worker_beyond: "\<not> i < length (mx_workers m) \<Longrightarrow> upd_worker i f m = m"
  by (simp add: upd_worker_def list_update_beyond)

lemma held_same:
  assumes "io_subs (mailbox (f (mx_workers m ! i))) = io_subs (mailbox (mx_workers m ! i))"
  shows "held (upd_worker i f m) = held m"
proof (cases "i < length (mx_workers m)")
  case True
  with sum_list_update_mset [OF True, of "\<lambda>w. mset (io_subs (mailbox w))" "f (mx_workers m ! i)"] assms
  show ?thesis by (simp add: held_def upd_worker_def)
qed (simp add: upd_worker_beyond)

section \<open>The invariant of the mux\<close>

text \<open>Every index is a worker, blocked sends carry no handle, mailboxes keep to their capacity,
  and the replay list of a worker is a list of different keys placed on it.\<close>

definition desired_ok :: "'e mux \<Rightarrow> nat \<Rightarrow> bool" where
  "desired_ok m i \<longleftrightarrow> distinct (mw_DesiredKeys (mx_workers m ! i)) \<and>
     (\<forall>k\<in>set (mw_DesiredKeys (mx_workers m ! i)). \<exists>e. mx_subscriptions m k = Some e \<and> ms_WorkerIndex e = i)"

definition mux_wf :: "'e mux \<Rightarrow> bool" where
  "mux_wf m \<longleftrightarrow>
     (\<forall>e\<in>ran (mx_subscriptions m). ms_WorkerIndex e < length (mx_workers m)) \<and>
     (\<forall>(i, c)\<in>set (mx_sending m). i < length (mx_workers m) \<and> io_subs [c] = []) \<and>
     (\<forall>i<length (mx_workers m). chan_ok (mw_CommandCh (mx_workers m ! i)) \<and> desired_ok m i)"

text \<open>A mux that has answered no command with a full queue has nothing to replay.\<close>

definition queue_was_full :: "'e mux \<Rightarrow> bool" where
  "queue_was_full m \<longleftrightarrow> Some ErrQueueFull \<in> snd ` set (mx_resolved m)"

definition no_replay :: "'e mux \<Rightarrow> bool" where
  "no_replay m \<longleftrightarrow> (\<forall>w\<in>set (mx_workers m). mw_DesiredKeys w = [] \<and> (\<forall>c\<in>set (mailbox w). \<not> is_replay c)) \<and>
     (\<forall>(i, c)\<in>set (mx_sending m). \<not> is_replay c)"

definition calm :: "'e mux \<Rightarrow> bool" where
  "calm m \<longleftrightarrow> queue_was_full m \<or> no_replay m"

text \<open>What a handler of the mux leaves alone, and what it does to the life of the mux.\<close>

definition frame :: "'e mux \<Rightarrow> 'e io_event chan \<times> user_command chan \<times> bool \<times> nat" where
  "frame m = (mx_events m, mx_commands m, mx_closed m, length (mx_workers m))"

definition life :: "'e mux \<Rightarrow> mux_run_state \<times> 'e ws_error \<times> 'e ws_error list" where
  "life m = (mx_state m, mx_shutdownErr m, mx_fatal m)"

named_theorems mux_frames

lemmas mux_simple_defs = frame_def life_def upd_worker_def resolve_def send_blocking_def cancel_dial_def new_dial_def

lemma frame_basic [mux_frames]:
  "frame (upd_worker i f m) = frame m"
  "frame (resolve s r m) = frame m"
  "frame (send_blocking i c m) = frame m"
  "frame (cancel_dial i m) = frame m"
  "frame (new_dial i m) = frame m"
  "frame (m\<lparr>mx_subscriptions := t\<rparr>) = frame m"
  by (simp_all add: mux_simple_defs split: option.split)

lemma life_basic [mux_frames]:
  "life (upd_worker i f m) = life m"
  "life (resolve s r m) = life m"
  "life (send_blocking i c m) = life m"
  "life (cancel_dial i m) = life m"
  "life (new_dial i m) = life m"
  "life (m\<lparr>mx_subscriptions := t\<rparr>) = life m"
  by (simp_all add: mux_simple_defs split: option.split)

lemma held_basic [mux_frames]:
  "held (resolve s r m) = add_mset s (held m)"
  "held (send_blocking i c m) = held m"
  "held (cancel_dial i m) = held m"
  "held (m\<lparr>mx_subscriptions := t\<rparr>) = held m"
  "held (m\<lparr>mx_nextDial := n\<rparr>) = held m"
  "frame (m\<lparr>mx_nextDial := n\<rparr>) = frame m"
  "life (m\<lparr>mx_nextDial := n\<rparr>) = life m"
  by (simp_all add: held_def mux_simple_defs split: option.split)

lemma wf_worker:
  assumes "mux_wf m" "i < length (mx_workers m)"
  shows "chan_ok (mw_CommandCh (mx_workers m ! i))" "desired_ok m i"
  using assms unfolding mux_wf_def by blast+

lemma wf_index:
  assumes "mux_wf m" "mx_subscriptions m k = Some e"
  shows "ms_WorkerIndex e < length (mx_workers m)"
  using assms unfolding mux_wf_def ran_def by blast

lemma wf_upd_worker:
  assumes "mux_wf m" "\<And>w. mw_DesiredKeys (f w) = mw_DesiredKeys w" "chan_ok (mw_CommandCh (mx_workers m ! i)) \<Longrightarrow>
    chan_ok (mw_CommandCh (f (mx_workers m ! i)))"
  shows "mux_wf (upd_worker i f m)"
proof (cases "i < length (mx_workers m)")
  case True
  then have "mw_DesiredKeys (mx_workers (upd_worker i f m) ! j) = mw_DesiredKeys (mx_workers m ! j)"
    "chan_ok (mw_CommandCh (mx_workers m ! j)) \<Longrightarrow> chan_ok (mw_CommandCh (mx_workers (upd_worker i f m) ! j))" for j
    using assms(2,3) by (cases "i = j"; simp add: upd_worker_def nth_list_update)+
  with assms(1) show ?thesis by (simp add: mux_wf_def desired_ok_def) (simp add: upd_worker_def)
qed (simp add: assms(1) upd_worker_beyond)

lemma wf_basic [intro]:
  "mux_wf m \<Longrightarrow> mux_wf (resolve s r m)"
  "mux_wf m \<Longrightarrow> mux_wf (cancel_dial i m)"
  "mux_wf m \<Longrightarrow> mux_wf (m\<lparr>mx_nextDial := n\<rparr>)"
  "mux_wf m \<Longrightarrow> i < length (mx_workers m) \<Longrightarrow> io_subs [c] = [] \<Longrightarrow> mux_wf (send_blocking i c m)"
  by (simp_all add: mux_wf_def desired_ok_def mux_simple_defs split: option.split)

lemma wf_insert [intro]:
  assumes "mux_wf m" "ms_WorkerIndex e < length (mx_workers m)" "mx_subscriptions m k = None"
  shows "mux_wf (m\<lparr>mx_subscriptions := (mx_subscriptions m)(k \<mapsto> e)\<rparr>)"
proof -
  have "desired_ok (m\<lparr>mx_subscriptions := (mx_subscriptions m)(k \<mapsto> e)\<rparr>) i" if "desired_ok m i" for i
    using that assms(3) by (fastforce simp: desired_ok_def)
  moreover have "ran ((mx_subscriptions m)(k \<mapsto> e)) \<subseteq> insert e (ran (mx_subscriptions m))"
    by (auto simp: ran_def)
  ultimately show ?thesis using assms unfolding mux_wf_def by auto
qed

lemma calm_upd_worker:
  assumes "calm m" "\<And>w. mw_DesiredKeys (f w) = mw_DesiredKeys w"
    "\<And>c. c \<in> set (mailbox (f (mx_workers m ! i))) \<Longrightarrow> \<not> is_replay c \<or> c \<in> set (mailbox (mx_workers m ! i))"
  shows "calm (upd_worker i f m)"
proof (cases "i < length (mx_workers m)")
  case True
  then have "mx_workers m ! i \<in> set (mx_workers m)" by simp
  with assms show ?thesis
    unfolding calm_def queue_was_full_def no_replay_def upd_worker_def
    by (auto dest!: set_update_subset_insert [THEN subsetD])
qed (simp add: assms upd_worker_beyond)

lemma calm_basic [intro]:
  "calm m \<Longrightarrow> calm (resolve s r m)"
  "calm m \<Longrightarrow> calm (cancel_dial i m)"
  "calm m \<Longrightarrow> calm (m\<lparr>mx_nextDial := n\<rparr>)"
  "calm m \<Longrightarrow> calm (m\<lparr>mx_subscriptions := t\<rparr>)"
  "calm m \<Longrightarrow> \<not> is_replay c \<Longrightarrow> calm (send_blocking i c m)"
  by (auto simp: calm_def queue_was_full_def no_replay_def mux_simple_defs split: option.split)

lemma calm_queue_full [simp]: "calm (resolve s (Some ErrQueueFull) m)"
  by (simp add: calm_def queue_was_full_def resolve_def)

section \<open>The replay list\<close>

lemma index_of_remove: "index_of k xs = Some j \<Longrightarrow> j < length xs \<and> take j xs @ drop (Suc j) xs = remove1 k xs"
  by (induction xs arbitrary: j) (auto split: if_splits)

lemma index_of_None: "index_of k xs = None \<longleftrightarrow> k \<notin> set xs"
  by (induction xs) auto

definition without_key :: "nat \<Rightarrow> string \<Rightarrow> 'e mux \<Rightarrow> 'e mux" where
  "without_key i k m = upd_worker i (\<lambda>w. w\<lparr>mw_DesiredKeys := remove1 k (mw_DesiredKeys w)\<rparr>) m"

lemma removeDesiredKey_fst: "fst (removeDesiredKey i k m) = without_key i k m"
proof (cases "index_of k (mw_DesiredKeys (mx_workers m ! i))")
  case None
  then have "remove1 k (mw_DesiredKeys (mx_workers m ! i)) = mw_DesiredKeys (mx_workers m ! i)"
    by (simp add: index_of_None remove1_idem)
  then show ?thesis by (simp add: removeDesiredKey_def without_key_def upd_worker_def None)
next
  case (Some j)
  then show ?thesis
    using index_of_remove [OF Some] by (simp add: removeDesiredKey_def without_key_def upd_worker_def)
qed

lemma without_key_frames [mux_frames]:
  "held (without_key i k m) = held m" "frame (without_key i k m) = frame m" "life (without_key i k m) = life m"
  "mx_subscriptions (without_key i k m) = mx_subscriptions m"
  by (simp_all add: without_key_def held_same mux_frames) (simp add: upd_worker_def)

lemma insertDesired_frames [mux_frames]:
  "held (insertDesiredKey i k j m) = held m" "frame (insertDesiredKey i k j m) = frame m"
  "life (insertDesiredKey i k j m) = life m"
  by (simp_all add: insertDesiredKey_def held_same mux_frames)

lemma desired_without_key:
  assumes "mux_wf m" "mx_subscriptions m k = Some e"
  shows "mux_wf (without_key (ms_WorkerIndex e) k (m\<lparr>mx_subscriptions := (mx_subscriptions m)(k := None)\<rparr>))"
    (is "mux_wf ?m'")
proof -
  have "desired_ok ?m' i" if i: "i < length (mx_workers m)" for i
  proof -
    have "distinct (mw_DesiredKeys (mx_workers m ! i))"
      "\<And>k'. k' \<in> set (mw_DesiredKeys (mx_workers m ! i)) \<Longrightarrow> \<exists>e. mx_subscriptions m k' = Some e \<and> ms_WorkerIndex e = i"
      using wf_worker(2) [OF assms(1) i] by (auto simp: desired_ok_def)
    moreover from this have "i \<noteq> ms_WorkerIndex e \<Longrightarrow> k \<notin> set (mw_DesiredKeys (mx_workers m ! i))"
      using assms(2) by force
    ultimately show ?thesis
      by (cases "i = ms_WorkerIndex e")
        (use i in \<open>auto simp: desired_ok_def without_key_def upd_worker_def nth_list_update\<close>)
  qed
  moreover have "chan_ok (mw_CommandCh (mx_workers ?m' ! i)) = chan_ok (mw_CommandCh (mx_workers m ! i))"
    if "i < length (mx_workers m)" for i
    using that by (cases "i = ms_WorkerIndex e") (simp_all add: without_key_def upd_worker_def nth_list_update)
  moreover have "length (mx_workers ?m') = length (mx_workers m)" "mx_sending ?m' = mx_sending m"
    by (simp_all add: without_key_def upd_worker_def)
  moreover have "ran (mx_subscriptions ?m') \<subseteq> ran (mx_subscriptions m)"
    by (auto simp: mux_frames ran_def split: if_splits)
  ultimately show ?thesis using assms(1) unfolding mux_wf_def by auto
qed

lemma set_insertDesired:
  "i < length (mx_workers m) \<Longrightarrow> set (mw_DesiredKeys (mx_workers (insertDesiredKey i k j m) ! i)) =
     insert k (set (mw_DesiredKeys (mx_workers m ! i)))"
  "i < length (mx_workers m) \<Longrightarrow> k \<notin> set (mw_DesiredKeys (mx_workers m ! i)) \<Longrightarrow>
     distinct (mw_DesiredKeys (mx_workers m ! i)) \<Longrightarrow> distinct (mw_DesiredKeys (mx_workers (insertDesiredKey i k j m) ! i))"
proof -
  let ?xs = "mw_DesiredKeys (mx_workers m ! i)"
  have app: "set ?xs = set (take n ?xs) \<union> set (drop n ?xs)" for n
    by (metis append_take_drop_id set_append)
  show "set (mw_DesiredKeys (mx_workers (insertDesiredKey i k j m) ! i)) = insert k (set ?xs)"
    if "i < length (mx_workers m)"
    using that app [of "nat j"] by (auto simp: insertDesiredKey_def upd_worker_def)
  show "distinct (mw_DesiredKeys (mx_workers (insertDesiredKey i k j m) ! i))"
    if "i < length (mx_workers m)" "k \<notin> set ?xs" "distinct ?xs"
    using that by (auto simp: insertDesiredKey_def upd_worker_def set_take_disj_set_drop_if_distinct
        dest: in_set_takeD in_set_dropD)
qed

lemma wf_restore:
  assumes "mux_wf m" "mx_subscriptions m k = None" "ms_WorkerIndex e < length (mx_workers m)"
  shows "mux_wf (insertDesiredKey (ms_WorkerIndex e) k j (m\<lparr>mx_subscriptions := (mx_subscriptions m)(k \<mapsto> e)\<rparr>))"
    (is "mux_wf (insertDesiredKey ?i k j ?m1)")
proof -
  have wf1: "mux_wf ?m1" using assms by (intro wf_insert)
  have k: "k \<notin> set (mw_DesiredKeys (mx_workers ?m1 ! ?i))"
    using wf_worker(2) [OF assms(1,3)] assms(2) by (auto simp: desired_ok_def)
  have i: "?i < length (mx_workers ?m1)" using assms(3) by simp
  have subs: "mx_subscriptions (insertDesiredKey ?i k j ?m1) = mx_subscriptions ?m1"
    "mx_sending (insertDesiredKey ?i k j ?m1) = mx_sending ?m1"
    "length (mx_workers (insertDesiredKey ?i k j ?m1)) = length (mx_workers ?m1)"
    by (simp_all add: insertDesiredKey_def upd_worker_def)
  have other: "mx_workers (insertDesiredKey ?i k j ?m1) ! n = mx_workers ?m1 ! n" if "n \<noteq> ?i" for n
    using that by (simp add: insertDesiredKey_def upd_worker_def)
  have chan: "mw_CommandCh (mx_workers (insertDesiredKey ?i k j ?m1) ! n) = mw_CommandCh (mx_workers ?m1 ! n)" for n
    by (cases "n = ?i") (use i in \<open>auto simp: insertDesiredKey_def upd_worker_def\<close>)
  have "desired_ok (insertDesiredKey ?i k j ?m1) n" if "n < length (mx_workers m)" for n
  proof (cases "n = ?i")
    case True
    with wf_worker(2) [OF wf1 i] set_insertDesired [OF i, of k j] k show ?thesis
      by (auto simp: desired_ok_def subs)
  next
    case False
    with wf_worker(2) [OF wf1] that show ?thesis by (simp add: desired_ok_def other subs)
  qed
  with wf1 show ?thesis unfolding mux_wf_def by (auto simp: subs chan)
qed

section \<open>Handlers\<close>

text \<open>What every handler of a command does: it keeps the invariants and the frame, and the
  handle of the command is now held by a worker or resolved.\<close>

definition command_done :: "user_command \<Rightarrow> 'e mux \<Rightarrow> 'e mux \<Rightarrow> bool" where
  "command_done c m m' \<longleftrightarrow> mux_wf m' \<and> (calm m \<longrightarrow> calm m') \<and> held m' = add_mset (uc_Sub c) (held m) \<and>
     frame m' = frame m \<and> life m' = life m"

lemma dispatch_frames:
  assumes "dispatchLiveWrite i intent s m = (m', r)"
  shows "frame m' = frame m" "life m' = life m" "r \<noteq> None \<Longrightarrow> m' = m \<and> r = Some ErrQueueFull"
  using assms by (auto simp: dispatchLiveWrite_def upd_worker_def frame_def life_def split: option.splits)

lemma dispatch_held:
  assumes "dispatchLiveWrite i intent s m = (m', r)" "i < length (mx_workers m)"
  shows "held m' = (if r = None then add_mset s (held m) else held m)"
proof (cases r)
  case None
  with assms obtain ch where ch: "chan_send (mw_CommandCh (mx_workers m ! i)) (IoWrite intent s) = Some ch"
    and m': "m' = upd_worker i (\<lambda>w. w\<lparr>mw_CommandCh := ch\<rparr>) m"
    by (auto simp: dispatchLiveWrite_def split: option.splits)
  from ch have "chan_buf ch = mailbox (mx_workers m ! i) @ [IoWrite intent s]"
    by (auto simp: chan_defs mailbox_def split: if_splits)
  with sum_list_update_mset [OF assms(2), of "\<lambda>w. mset (io_subs (mailbox w))"
      "(mx_workers m ! i)\<lparr>mw_CommandCh := ch\<rparr>"]
  show ?thesis by (simp add: None m' held_def upd_worker_def)
qed (use assms in \<open>auto simp: dispatchLiveWrite_def split: option.splits\<close>)

lemma dispatch_inv:
  assumes "dispatchLiveWrite i intent s m = (m', r)"
  shows "mux_wf m \<Longrightarrow> mux_wf m'" "calm m \<Longrightarrow> calm m'"
proof -
  have "chan_ok ch \<and> chan_buf ch = mailbox w @ [c]" if "chan_send (mw_CommandCh w) c = Some ch" "chan_ok (mw_CommandCh w)" for w c ch
    using that by (auto simp: chan_defs mailbox_def split: if_splits)
  then show "mux_wf m \<Longrightarrow> mux_wf m'"
    using assms by (auto simp: dispatchLiveWrite_def intro!: wf_upd_worker split: option.splits)
  have "chan_buf ch = mailbox w @ [c]" if "chan_send (mw_CommandCh w) c = Some ch" for w c ch
    using that by (auto simp: chan_defs mailbox_def split: if_splits)
  then show "calm m \<Longrightarrow> calm m'"
    using assms by (auto simp: dispatchLiveWrite_def intro!: calm_upd_worker split: option.splits)
qed

text \<open>The index of a placement is a worker.\<close>

lemma pickWorker_index: "pickWorker policy key m = Inr i \<Longrightarrow> i < length (mx_workers m)"
  by (auto simp: pickWorker_def split: sum.splits if_splits)

lemma resolve_done: "mux_wf m \<Longrightarrow> command_done c m (resolve (uc_Sub c) r m)"
  by (auto simp: command_done_def mux_frames)

text \<open>The tail that both handlers share: the handle is resolved at once, queued at the worker, or
  the change is undone and the queue reported full.\<close>

lemma live_write_done:
  assumes wf: "mux_wf m1" "mux_wf undo" "calm m \<Longrightarrow> calm m1"
    and same: "held m1 = held m" "frame m1 = frame m" "life m1 = life m"
      "held undo = held m" "frame undo = frame m" "life undo = life m"
    and i: "i < length (mx_workers m1)"
    and d: "dispatchLiveWrite i intent (uc_Sub c) m1 = (m2, r)"
  shows "command_done c m (if now then resolve (uc_Sub c) None m1
     else case r of None \<Rightarrow> m2 | Some e \<Rightarrow> resolve (uc_Sub c) (Some e) undo)"
proof -
  have "command_done c m (resolve (uc_Sub c) None m1)"
    using wf same by (auto simp: command_done_def mux_frames)
  moreover have "command_done c m m2" if "r = None"
    using that wf same dispatch_frames [OF d] dispatch_held [OF d i] dispatch_inv [OF d]
    by (auto simp: command_done_def)
  moreover have "command_done c m (resolve (uc_Sub c) (Some ErrQueueFull) undo)"
    using wf same by (auto simp: command_done_def mux_frames)
  ultimately show ?thesis
    using dispatch_frames(3) [OF d] by (cases r) auto
qed

lemma handleSubscribe_done:
  assumes wf: "mux_wf m"
  shows "command_done c m (handleSubscribe policy c m)"
proof (cases "mx_subscriptions m (uc_Key c) = None")
  case True
  note fresh = this
  show ?thesis
  proof (cases "pickWorker policy (uc_Key c) m")
    case (Inl e)
    with True wf show ?thesis by (simp add: handleSubscribe_def resolve_done)
  next
    case (Inr i)
    define intent where "intent = \<lparr>wi_Key = uc_Key c, wi_Action = ActionSubscribe\<rparr>"
    define m1 where "m1 = m\<lparr>mx_subscriptions := (mx_subscriptions m)(uc_Key c \<mapsto> \<lparr>ms_WorkerIndex = i, ms_Intent = intent\<rparr>)\<rparr>"
    have i: "i < length (mx_workers m)" using pickWorker_index [OF Inr] .
    with fresh wf have wf1: "mux_wf m1" and ws: "mx_workers m1 = mx_workers m" by (auto simp: m1_def)
    obtain m2 r where d: "dispatchLiveWrite i intent (uc_Sub c) m1 = (m2, r)" by fastforce
    have "uc_Key c \<notin> set (mw_DesiredKeys (mx_workers m ! i))"
      using wf_worker(2) [OF wf i] fresh by (auto simp: desired_ok_def)
    then have "without_key i (uc_Key c) m = m"
      by (simp add: without_key_def upd_worker_def remove1_idem)
    moreover have "m1\<lparr>mx_subscriptions := (mx_subscriptions m1)(uc_Key c := None)\<rparr> = m"
      using fresh by (simp add: m1_def fun_upd_idem)
    moreover have "r \<noteq> None \<Longrightarrow> m2 = m1" using dispatch_frames(3) [OF d] by blast
    ultimately have "handleSubscribe policy c m =
        (if mw_State (mx_workers m1 ! i) \<noteq> WorkerConnected then resolve (uc_Sub c) None m1
         else case r of None \<Rightarrow> m2 | Some e \<Rightarrow> resolve (uc_Sub c) (Some e) m)"
      using fresh Inr d ws
      by (simp add: handleSubscribe_def m1_def [symmetric] intent_def [symmetric] Let_def removeDesiredKey_fst
          split: option.split)
    moreover have "command_done c m (if mw_State (mx_workers m1 ! i) \<noteq> WorkerConnected then resolve (uc_Sub c) None m1
         else case r of None \<Rightarrow> m2 | Some e \<Rightarrow> resolve (uc_Sub c) (Some e) m)"
      by (rule live_write_done [OF wf1 wf _ _ _ _ refl refl refl _ d]) (use i in \<open>auto simp: m1_def mux_frames\<close>)
    ultimately show ?thesis by simp
  qed
qed (use wf in \<open>auto simp: handleSubscribe_def resolve_done\<close>)

lemma calm_without_key [intro]: "calm m \<Longrightarrow> calm (without_key i k m)"
proof (cases "i < length (mx_workers m)")
  case True
  then have "mx_workers m ! i \<in> set (mx_workers m)" by simp
  then show "calm m \<Longrightarrow> ?thesis"
    unfolding calm_def queue_was_full_def no_replay_def without_key_def upd_worker_def
    by (auto dest!: set_update_subset_insert [THEN subsetD])
qed (simp add: without_key_def upd_worker_beyond)

lemma handleUnsubscribe_done:
  assumes wf: "mux_wf m"
  shows "command_done c m (handleUnsubscribe c m)"
proof (cases "mx_subscriptions m (uc_Key c)")
  case None
  with wf show ?thesis by (simp add: handleUnsubscribe_def resolve_done)
next
  case (Some entry)
  let ?i = "ms_WorkerIndex entry"
  define intent where "intent = (ms_Intent entry)\<lparr>wi_Action := ActionUnsubscribe\<rparr>"
  define m0 where "m0 = m\<lparr>mx_subscriptions := (mx_subscriptions m)(uc_Key c := None)\<rparr>"
  define m1 where "m1 = without_key ?i (uc_Key c) m0"
  obtain j where rem: "removeDesiredKey ?i (uc_Key c) m0 = (m1, j)"
    using removeDesiredKey_fst [of ?i "uc_Key c" m0] by (metis m1_def prod.collapse)
  define undo where "undo = insertDesiredKey ?i (uc_Key c) j (m1\<lparr>mx_subscriptions := (mx_subscriptions m1)(uc_Key c \<mapsto> entry)\<rparr>)"
  have m1: "held m1 = held m" "frame m1 = frame m" "life m1 = life m" "calm m \<Longrightarrow> calm m1"
    "mx_subscriptions m1 (uc_Key c) = None" "length (mx_workers m1) = length (mx_workers m)"
    by (auto simp: m1_def m0_def mux_frames) (simp add: without_key_def upd_worker_def)
  have wf1: "mux_wf m1" and i: "?i < length (mx_workers m1)"
    using desired_without_key [OF wf Some] wf_index [OF wf Some] m1(6) by (auto simp: m1_def m0_def)
  have undo: "mux_wf undo" "held undo = held m" "frame undo = frame m" "life undo = life m"
    using wf_restore [OF wf1 m1(5) i, of j] m1 by (simp_all add: undo_def mux_frames)
  obtain m2 r where d: "dispatchLiveWrite ?i intent (uc_Sub c) m1 = (m2, r)" by fastforce
  moreover have "r \<noteq> None \<Longrightarrow> m2 = m1" using dispatch_frames(3) [OF d] by blast
  ultimately have "handleUnsubscribe c m =
      (if mw_State (mx_workers m1 ! ?i) \<noteq> WorkerConnected then resolve (uc_Sub c) None m1
       else case r of None \<Rightarrow> m2 | Some e \<Rightarrow> resolve (uc_Sub c) (Some e) undo)"
    using Some rem by (simp add: handleUnsubscribe_def m0_def [symmetric] intent_def [symmetric] undo_def Let_def
        split: option.split)
  moreover have "command_done c m (if mw_State (mx_workers m1 ! ?i) \<noteq> WorkerConnected then resolve (uc_Sub c) None m1
       else case r of None \<Rightarrow> m2 | Some e \<Rightarrow> resolve (uc_Sub c) (Some e) undo)"
    by (rule live_write_done [OF wf1 undo(1) m1(4) m1(1-3) undo(2-4) i d])
  ultimately show ?thesis by simp
qed

lemma command_turn_done:
  "mux_wf m \<Longrightarrow> command_done c m (mux_command_turn policy c m)"
  by (auto simp: mux_command_turn_def handleCommand_def resolve_done handleSubscribe_done handleUnsubscribe_done
      split: user_kind.split)

text \<open>A handler of an event moves no handle.\<close>

definition event_done :: "'e mux \<Rightarrow> 'e mux \<Rightarrow> bool" where
  "event_done m m' \<longleftrightarrow> (mux_wf m \<longrightarrow> mux_wf m') \<and> (calm m \<longrightarrow> calm m') \<and> held m' = held m \<and> frame m' = frame m"

lemma event_done_refl [simp]: "event_done m m"
  by (simp add: event_done_def)

lemma event_done_trans [trans]: "event_done m m' \<Longrightarrow> event_done m' m'' \<Longrightarrow> event_done m m''"
  by (simp add: event_done_def)

lemma event_upd_worker:
  assumes "\<And>w. mw_DesiredKeys (f w) = mw_DesiredKeys w" "\<And>w. mw_CommandCh (f w) = mw_CommandCh w"
  shows "event_done m (upd_worker i f m)" "life (upd_worker i f m) = life m"
  using assms by (auto simp: event_done_def mailbox_def mux_frames intro!: wf_upd_worker calm_upd_worker held_same)

lemma event_cancel: "event_done m (cancel_dial i m)"
  by (auto simp: event_done_def mux_frames)

lemma event_send:
  "i < length (mx_workers m) \<Longrightarrow> io_subs [c] = [] \<Longrightarrow> \<not> is_replay c \<Longrightarrow> event_done m (send_blocking i c m)"
  by (auto simp: event_done_def mux_frames)

lemma event_new_dial: "event_done m (new_dial i m)"
proof -
  have "event_done m (upd_worker i (\<lambda>w. w\<lparr>mw_DialCtx := Some (mx_nextDial m)\<rparr>) m)"
    by (rule event_upd_worker) simp_all
  then show ?thesis by (auto simp: event_done_def new_dial_def mux_frames)
qed

lemma event_clearDial: "event_done m (clearDialCancel i m)" "life (clearDialCancel i m) = life m"
proof -
  show "event_done m (clearDialCancel i m)"
    unfolding clearDialCancel_def by (rule event_done_trans [OF event_cancel event_upd_worker(1)]) simp_all
qed (simp add: clearDialCancel_def mux_frames)

lemma frame_length: "frame m' = frame m \<Longrightarrow> length (mx_workers m') = length (mx_workers m)"
  by (simp add: frame_def)

lemma send_replay:
  assumes "i < length (mx_workers m)"
  shows "mux_wf m \<Longrightarrow> mux_wf (send_blocking i (IoReplayWrite x) m)"
    "held (send_blocking i (IoReplayWrite x) m) = held m"
    "frame (send_blocking i (IoReplayWrite x) m) = frame m"
    "life (send_blocking i (IoReplayWrite x) m) = life m"
    "mx_workers (send_blocking i (IoReplayWrite x) m) = mx_workers m"
    "mx_subscriptions (send_blocking i (IoReplayWrite x) m) = mx_subscriptions m"
  using assms by (auto simp: mux_frames) (simp_all add: send_blocking_def)

lemma replay_fold:
  fixes m :: "'e mux"
  defines "body \<equiv> \<lambda>i key (m :: 'e mux). case mx_subscriptions m key of None \<Rightarrow> m
    | Some entry \<Rightarrow> send_blocking i (IoReplayWrite (ms_Intent entry)) m"
  assumes "i < length (mx_workers m)"
  shows "(mux_wf m \<longrightarrow> mux_wf (fold (body i) ks m)) \<and> held (fold (body i) ks m) = held m \<and>
    frame (fold (body i) ks m) = frame m \<and> life (fold (body i) ks m) = life m"
  using assms(2)
proof (induction ks arbitrary: m)
  case (Cons k ks)
  have i: "i < length (mx_workers (body i k m))"
    using Cons.prems by (auto simp: body_def send_replay split: option.split)
  from Cons.IH [OF i] Cons.prems show ?case
    by (auto simp: body_def send_replay split: option.split)
qed simp

lemma event_replay:
  assumes "i < length (mx_workers m)"
  shows "event_done m (runReplay i m)" "life (runReplay i m) = life m"
proof -
  define m1 where "m1 = fold (\<lambda>key m. case mx_subscriptions m key of None \<Rightarrow> m
    | Some entry \<Rightarrow> send_blocking i (IoReplayWrite (ms_Intent entry)) m) (mw_DesiredKeys (mx_workers m ! i)) m"
  have m1: "(mux_wf m \<longrightarrow> mux_wf m1) \<and> held m1 = held m \<and> frame m1 = frame m \<and> life m1 = life m"
    unfolding m1_def by (rule replay_fold [OF assms])
  have res: "mx_resolved (fold (\<lambda>key m. case mx_subscriptions m key of None \<Rightarrow> m
    | Some entry \<Rightarrow> send_blocking i (IoReplayWrite (ms_Intent entry)) m) ks m') = mx_resolved m'" for ks and m' :: "'a mux"
    by (induction ks arbitrary: m') (simp_all add: send_blocking_def split: option.split)
  have "calm m1" if "calm m"
  proof (cases "queue_was_full m")
    case True
    then show ?thesis by (simp add: calm_def queue_was_full_def m1_def res)
  next
    case False
    with that assms have "mw_DesiredKeys (mx_workers m ! i) = []"
      by (auto simp: calm_def no_replay_def)
    with that show ?thesis by (simp add: m1_def)
  qed
  with m1 have "event_done m m1" by (simp add: event_done_def)
  then show "event_done m (runReplay i m)" "life (runReplay i m) = life m"
    using m1 event_done_trans [OF _ event_upd_worker(1), of m m1 "\<lambda>w. w\<lparr>mw_State := WorkerConnected\<rparr>" i]
    by (auto simp: runReplay_def Let_def m1_def [symmetric] mux_frames)
qed

lemma event_startPing: "event_done m (startPingTicker i m)" "life (startPingTicker i m) = life m"
  by (auto simp: startPingTicker_def Let_def mux_frames intro!: event_upd_worker)

lemma event_stopPing: "event_done m (stopPingTicker i m)" "life (stopPingTicker i m) = life m"
  by (auto simp: stopPingTicker_def mux_frames intro!: event_upd_worker)

lemma event_ready:
  assumes "i < length (mx_workers m)"
  shows "event_done m (handleWorkerReady i m)" "life (handleWorkerReady i m) = life m"
proof -
  have "i < length (mx_workers (clearDialCancel i m))"
    using assms event_clearDial(1) [of m i] by (auto simp: event_done_def dest!: frame_length)
  note replay = event_replay [OF this]
  show "event_done m (handleWorkerReady i m)"
    unfolding handleWorkerReady_def by (blast intro: event_done_trans event_clearDial(1) replay(1) event_startPing(1))
  show "life (handleWorkerReady i m) = life m"
    by (simp add: handleWorkerReady_def event_startPing(2) replay(2) event_clearDial(2))
qed

lemma event_dial:
  assumes "i < length (mx_workers m)" "io_subs [c] = []" "\<not> is_replay c"
  shows "event_done m (send_blocking i c (new_dial i (cancel_dial i m)))"
proof -
  have nd: "event_done m (new_dial i (cancel_dial i m))"
    by (rule event_done_trans [OF event_cancel event_new_dial])
  then have "i < length (mx_workers (new_dial i (cancel_dial i m)))"
    using assms(1) by (auto simp: event_done_def dest!: frame_length)
  with assms show ?thesis by (blast intro: event_done_trans [OF nd] event_send)
qed

lemma event_startConnect:
  assumes "i < length (mx_workers m)"
  shows "event_done m (startConnect i m)" "life (startConnect i m) = life m"
proof -
  let ?m = "upd_worker i (\<lambda>w. w\<lparr>mw_State := WorkerConnecting\<rparr>) m"
  have up: "event_done m ?m" by (rule event_upd_worker) simp_all
  then have "i < length (mx_workers ?m)" using assms by (auto simp: event_done_def dest!: frame_length)
  then show "event_done m (startConnect i m)"
    unfolding startConnect_def Let_def by (intro event_done_trans [OF up] event_dial) simp_all
qed (simp add: startConnect_def Let_def mux_frames)

lemma event_startReconnect:
  assumes "i < length (mx_workers m)"
  shows "event_done m (startReconnect i m)" "life (startReconnect i m) = life m"
proof -
  let ?m = "stopPingTicker i (upd_worker i (\<lambda>w. w\<lparr>mw_State := WorkerReconnecting\<rparr>) m)"
  have up: "event_done m ?m"
    by (rule event_done_trans [OF event_upd_worker(1) event_stopPing(1)]) simp_all
  then have "i < length (mx_workers ?m)" using assms by (auto simp: event_done_def dest!: frame_length)
  then have "event_done m (send_blocking i (IoReconnect (mx_nextDial (cancel_dial i ?m))) (new_dial i (cancel_dial i ?m)))"
    by (intro event_done_trans [OF up] event_dial) simp_all
  then show "event_done m (startReconnect i m)" by (simp add: startReconnect_def Let_def)
qed (simp add: startReconnect_def Let_def mux_frames event_stopPing)

lemma event_ping: "event_done m (handlePingTick i epoch m)" "life (handlePingTick i epoch m) = life m"
proof -
  let ?f = "\<lambda>w. w\<lparr>mw_CommandCh := fst (chan_try_send (mw_CommandCh w) (IoPing \<lparr>wi_Key = [], wi_Action = ActionPing\<rparr>))\<rparr>"
  have box: "mailbox (?f w) = (if chan_full (mw_CommandCh w) then mailbox w
      else mailbox w @ [IoPing \<lparr>wi_Key = [], wi_Action = ActionPing\<rparr>])" for w
    by (simp add: chan_try_send_buf) (simp add: mailbox_def)
  have "event_done m (upd_worker i ?f m)"
    unfolding event_done_def
    by (auto intro!: wf_upd_worker calm_upd_worker held_same chan_try_send_ok simp: mux_frames box simp del: mailbox_updates split: if_splits)
  then show "event_done m (handlePingTick i epoch m)" by (simp add: handlePingTick_def Let_def)
qed (simp add: handlePingTick_def Let_def mux_frames)

text \<open>An event of the mux loop.\<close>

lemma handleIOWorkerEvent_done:
  assumes "event_index e < length (mx_workers m)" "handleIOWorkerEvent e m = (m', fatal)"
  shows "event_done m m'" "life m' = life m" "fatal = None \<or> (\<exists>x. fatal = Some (EncodeWriteError x))"
proof -
  have "event_done m (fst (handleIOWorkerEvent e m)) \<and> life (fst (handleIOWorkerEvent e m)) = life m"
    using assms(1) by (cases e) (simp_all add: event_ready event_startReconnect event_ping)
  then show "event_done m m'" "life m' = life m" by (simp_all add: assms(2))
  show "fatal = None \<or> (\<exists>x. fatal = Some (EncodeWriteError x))"
    using assms(2) by (cases e) (auto split: ws_error.splits)
qed

lemma event_fatal: "event_done m (beginFatalShutdown fatal m)"
  by (auto simp: beginFatalShutdown_def event_done_def mux_wf_def desired_ok_def calm_def queue_was_full_def no_replay_def
      held_def frame_def split: option.splits)

lemma event_turn_done:
  "event_index e < length (mx_workers m) \<Longrightarrow> event_done m (mux_event_turn e m)"
  by (auto simp: mux_event_turn_def split: prod.split intro: event_done_trans [OF handleIOWorkerEvent_done(1) event_fatal])

text \<open>Start and shutdown.\<close>

lemma event_fold:
  assumes "\<And>i m'. length (mx_workers m') = n \<Longrightarrow> i < n \<Longrightarrow> event_done m' (f i m') \<and> life (f i m') = life m'"
    and "length (mx_workers m) = n" "\<forall>i\<in>set is. i < n"
  shows "event_done m (fold f is m) \<and> life (fold f is m) = life m"
  using assms(2,3)
proof (induction "is" arbitrary: m)
  case (Cons i "is")
  then have step: "event_done m (f i m)" "life (f i m) = life m" using assms(1) by auto
  then have "length (mx_workers (f i m)) = n" using Cons.prems by (auto simp: event_done_def dest!: frame_length)
  with Cons step show ?case by (auto intro: event_done_trans)
qed simp

lemma event_set_state: "event_done m (m\<lparr>mx_state := st\<rparr>)"
  by (auto simp: event_done_def mux_wf_def desired_ok_def calm_def queue_was_full_def no_replay_def held_def frame_def)

lemma run_done: "event_done m (mux_run m)"
  "life (mux_run m) = (if mx_state m = MuxReady then (MuxRunning, mx_shutdownErr m, mx_fatal m) else life m)"
proof -
  let ?m = "m\<lparr>mx_state := MuxRunning\<rparr>"
  have "event_done ?m (fold startConnect [0..<length (mx_workers m)] ?m) \<and>
      life (fold startConnect [0..<length (mx_workers m)] ?m) = life ?m"
    by (rule event_fold [where n = "length (mx_workers m)"]) (simp_all add: event_startConnect)
  then show "event_done m (mux_run m)"
    "life (mux_run m) = (if mx_state m = MuxReady then (MuxRunning, mx_shutdownErr m, mx_fatal m) else life m)"
    using event_done_trans [OF event_set_state [of m MuxRunning]] by (auto simp: mux_run_def life_def)
qed

lemma shutdown_done: "event_done m (handleShutdown m)"
  "life (handleShutdown m) = (MuxStopped, mx_shutdownErr m, mx_fatal m)"
proof -
  let ?f = "\<lambda>i m. upd_worker i (\<lambda>w. w\<lparr>mw_Open := False\<rparr>)
      (clearDialCancel i (upd_worker i (\<lambda>w. w\<lparr>mw_State := WorkerStopped\<rparr>) (stopPingTicker i m)))"
  have f: "event_done m' (?f i m')" for i and m' :: "'a mux"
  proof -
    have "event_done m' (upd_worker i (\<lambda>w. w\<lparr>mw_State := WorkerStopped\<rparr>) (stopPingTicker i m'))"
      by (rule event_done_trans [OF event_stopPing(1) event_upd_worker(1)]) simp_all
    also have "event_done \<dots> (clearDialCancel i (upd_worker i (\<lambda>w. w\<lparr>mw_State := WorkerStopped\<rparr>) (stopPingTicker i m')))"
      by (rule event_clearDial)
    also have "event_done \<dots> (?f i m')" by (rule event_upd_worker) simp_all
    finally show ?thesis .
  qed
  have "event_done m (fold ?f [0..<length (mx_workers m)] m) \<and> life (fold ?f [0..<length (mx_workers m)] m) = life m"
    by (rule event_fold [where n = "length (mx_workers m)"]) (simp_all add: f mux_frames event_clearDial event_stopPing)
  then show "event_done m (handleShutdown m)" "life (handleShutdown m) = (MuxStopped, mx_shutdownErr m, mx_fatal m)"
    using event_done_trans [OF _ event_set_state [of _ MuxStopped]] by (auto simp: handleShutdown_def life_def)
qed

section \<open>The invariant of the system\<close>

definition events_ok :: "'e ws_system \<Rightarrow> bool" where
  "events_ok y \<longleftrightarrow> (\<forall>e\<in>set (chan_buf (mx_events (sy_mux y))). event_index e < length (mx_workers (sy_mux y))) \<and>
     (\<forall>w\<in>set (sy_workers y). \<forall>e. TodoPublish e \<in> set (iw_todo w) \<longrightarrow> event_index e < length (mx_workers (sy_mux y)))"

definition life_ok :: "'e ws_system \<Rightarrow> bool" where
  "life_ok y \<longleftrightarrow> (mx_closed (sy_mux y) \<longleftrightarrow> sy_stopped y) \<and>
     (\<forall>e. sy_fatalErr y = Some e \<longrightarrow> e \<in> set (mx_fatal (sy_mux y)) \<and> sy_stopped y) \<and>
     (mx_fatal (sy_mux y) = [] \<and> mx_shutdownErr (sy_mux y) = ErrMuxStopped \<and> mx_state (sy_mux y) \<noteq> MuxStopping \<or>
      (\<exists>x. mx_fatal (sy_mux y) = [EncodeWriteError x] \<and> mx_shutdownErr (sy_mux y) = EncodeWriteError x \<and>
        mx_state (sy_mux y) \<in> {MuxStopping, MuxStopped})) \<and>
     (mx_state (sy_mux y) = MuxStopped \<longrightarrow> sy_stopped y \<and> chan_buf (mx_commands (sy_mux y)) = [])"

definition mux_sys_ok :: "'e ws_system \<Rightarrow> bool" where
  "mux_sys_ok y \<longleftrightarrow> mux_wf (sy_mux y) \<and> calm (sy_mux y) \<and> issued (sy_mux y) = mset [0..<sy_nextSub y] \<and>
     length (sy_workers y) = length (mx_workers (sy_mux y)) \<and> events_ok y \<and> life_ok y"

lemma check_workers_None: "check_workers cs = None \<Longrightarrow> c \<in> set cs \<Longrightarrow> 0 < mc_QueueSize c"
  by (induction cs) (auto split: if_splits)

lemma new_worker_mailbox [simp]: "mailbox (new_worker c) = []"
  by (simp add: new_worker_def mailbox_def chan_make_def)

lemma mux_sys_init:
  assumes "NewClient cfg = Inr (y, policy)"
  shows "mux_sys_ok y"
proof -
  have "(\<Sum>c\<leftarrow>cs. mset (io_subs (mailbox (new_worker c)))) = {#}" for cs
    by (induction cs) simp_all
  then have "held (sy_mux y) = {#}"
    using assms by (auto simp: NewClient_def NewMux_def held_def o_def split: if_splits option.splits sum.splits)
  then show ?thesis
    using assms
    by (auto simp: NewClient_def NewMux_def mux_sys_ok_def mux_wf_def desired_ok_def calm_def no_replay_def issued_def
        events_ok_def life_ok_def new_worker_def new_io_worker_def mailbox_def chan_defs
        split: if_splits option.splits sum.splits)
qed

text \<open>A turn of a worker resolves the handle of its command and publishes events of its own.\<close>

lemma worker_turn_done:
  assumes "worker_turn i a c w = Some (w', rs)" "iw_todo w = []"
  shows "map fst rs = io_subs [c]" "TodoPublish e \<in> set (iw_todo w') \<Longrightarrow> event_index e = i"
  using assms
  by (cases c; auto simp: handleConnect_def handleReconnect_def handleWrite_def handleReplayWrite_def handlePing_def
      publish_def notifyConnected_def dropConn_def writeOne_def Let_def split: sum.splits option.splits if_splits)+

lemma mux_with_simps [simp]:
  "mux_wf (m\<lparr>mx_commands := ch\<rparr>) = mux_wf m" "mux_wf (m\<lparr>mx_events := ev\<rparr>) = mux_wf m" "mux_wf (m\<lparr>mx_closed := b\<rparr>) = mux_wf m"
  "calm (m\<lparr>mx_commands := ch\<rparr>) = calm m" "calm (m\<lparr>mx_events := ev\<rparr>) = calm m" "calm (m\<lparr>mx_closed := b\<rparr>) = calm m"
  "held (m\<lparr>mx_commands := ch\<rparr>) = held m" "held (m\<lparr>mx_events := ev\<rparr>) = held m" "held (m\<lparr>mx_closed := b\<rparr>) = held m"
  by (simp_all add: mux_wf_def desired_ok_def calm_def queue_was_full_def no_replay_def held_def)

lemma fold_resolve: "fold (\<lambda>(s, r). resolve s r) rs m = m\<lparr>mx_resolved := mx_resolved m @ rs\<rparr>"
  by (induction rs arbitrary: m) (auto simp: resolve_def)

text \<open>A step that only runs a handler of events on the mux.\<close>

lemma sys_ok_event:
  assumes ok: "mux_sys_ok y" and dn: "event_done (sy_mux y) m'"
    and life: "life m' = life (sy_mux y)"
  shows "mux_sys_ok (y\<lparr>sy_mux := m'\<rparr>)"
  using assms
  by (auto simp: mux_sys_ok_def event_done_def issued_def events_ok_def life_ok_def frame_def life_def)

end
