(* ===== verification/WS_Mux_Props.thy ===== *)
theory WS_Mux_Props
  imports WS_Mux_Safety
begin

text \<open>
  The invariant of \<open>WS_Mux_Safety\<close> holds in every reachable state of the multiplexer; what it
  says about handles, fatal errors, replay and blocking.
\<close>

section \<open>Every step keeps the invariant\<close>

lemma ok_submit:
  assumes ok: "mux_sys_ok y"
  shows "mux_sys_ok (fst (submitLocked kind key y))"
proof (cases "chan_send (mx_commands (sy_mux y)) \<lparr>uc_Kind = kind, uc_Key = key, uc_Sub = sy_nextSub y\<rparr>")
  case (Some ch)
  then have "chan_buf ch = chan_buf (mx_commands (sy_mux y)) @ [\<lparr>uc_Kind = kind, uc_Key = key, uc_Sub = sy_nextSub y\<rparr>]"
    by (auto simp: chan_defs split: if_splits)
  with ok Some show ?thesis
    by (auto simp: submitLocked_def submitCommand_def mux_sys_ok_def issued_def events_ok_def life_ok_def
        atLeast0_lessThan_Suc)
qed (use ok in \<open>simp add: submitLocked_def submitCommand_def\<close>)

lemma ok_stop: "mux_sys_ok y \<Longrightarrow> mux_sys_ok (client_Stop y)"
  by (auto simp: client_Stop_def mux_stop_def mux_sys_ok_def issued_def events_ok_def life_ok_def)

lemma ok_watch: "mux_sys_ok y \<Longrightarrow> err \<in> set (mx_fatal (sy_mux y)) \<Longrightarrow> mux_sys_ok (markFatalAndStop err y)"
  by (auto simp: markFatalAndStop_def Let_def mux_stop_def mux_sys_ok_def issued_def events_ok_def life_ok_def)

lemma sys_ok_life:
  assumes ok: "mux_sys_ok y" and dn: "event_done (sy_mux y) m'" and life: "life_ok (y\<lparr>sy_mux := m'\<rparr>)"
  shows "mux_sys_ok (y\<lparr>sy_mux := m'\<rparr>)"
  using assms by (auto simp: mux_sys_ok_def event_done_def issued_def events_ok_def frame_def)

lemma ok_run: "mux_sys_ok y \<Longrightarrow> mux_sys_ok (y\<lparr>sy_mux := mux_run (sy_mux y)\<rparr>)"
  using run_done [of "sy_mux y"]
  by (intro sys_ok_life)
    (auto simp: mux_sys_ok_def life_ok_def life_def event_done_def frame_def split: if_splits)

lemma ok_shutdown:
  assumes "mux_sys_ok y" "mx_closed (sy_mux y)" "chan_buf (mx_commands (sy_mux y)) = []"
  shows "mux_sys_ok (y\<lparr>sy_mux := handleShutdown (sy_mux y)\<rparr>)"
  using assms shutdown_done [of "sy_mux y"]
  by (intro sys_ok_life)
    (auto simp: mux_sys_ok_def life_ok_def life_def event_done_def frame_def split: if_splits)

lemma ok_command:
  assumes ok: "mux_sys_ok y" and run: "running (sy_mux y)" and recv: "chan_recv (mx_commands (sy_mux y)) = Some (c, ch)"
  shows "mux_sys_ok (y\<lparr>sy_mux := mux_command_turn policy c ((sy_mux y)\<lparr>mx_commands := ch\<rparr>)\<rparr>)"
proof -
  have buf: "chan_buf (mx_commands (sy_mux y)) = c # chan_buf ch"
    using recv by (auto simp: chan_defs split: list.splits)
  have "mux_wf ((sy_mux y)\<lparr>mx_commands := ch\<rparr>)" using ok by (simp add: mux_sys_ok_def)
  from command_turn_done [OF this, of c policy] show ?thesis
    using ok buf run
    by (auto simp: command_done_def mux_sys_ok_def issued_def events_ok_def life_ok_def frame_def life_def running_def)
qed

lemma ok_event:
  assumes ok: "mux_sys_ok y" and run: "running (sy_mux y)" and recv: "chan_recv (mx_events (sy_mux y)) = Some (e, ch)"
  shows "mux_sys_ok (y\<lparr>sy_mux := mux_event_turn e ((sy_mux y)\<lparr>mx_events := ch\<rparr>)\<rparr>)"
proof -
  let ?m = "(sy_mux y)\<lparr>mx_events := ch\<rparr>"
  have buf: "chan_buf (mx_events (sy_mux y)) = e # chan_buf ch"
    using recv by (auto simp: chan_defs split: list.splits)
  have ok1: "mux_sys_ok (y\<lparr>sy_mux := ?m\<rparr>)"
    using ok buf by (auto simp: mux_sys_ok_def issued_def events_ok_def life_ok_def)
  have idx: "event_index e < length (mx_workers ?m)"
    using ok buf by (auto simp: mux_sys_ok_def events_ok_def)
  obtain m' fatal where h: "handleIOWorkerEvent e ?m = (m', fatal)" by fastforce
  note d = handleIOWorkerEvent_done [OF idx h]
  have "life_ok (y\<lparr>sy_mux := beginFatalShutdown fatal m'\<rparr>)"
    using ok1 d run
    by (auto simp: mux_sys_ok_def life_ok_def beginFatalShutdown_def life_def event_done_def frame_def running_def)
  with ok1 event_turn_done [OF idx] h show ?thesis
    using sys_ok_life [of "y\<lparr>sy_mux := ?m\<rparr>" "mux_event_turn e ?m"] by (simp add: mux_event_turn_def)
qed

lemma ok_drain:
  assumes "mux_sys_ok y" "chan_recv (mx_events (sy_mux y)) = Some (e, ch)"
  shows "mux_sys_ok (y\<lparr>sy_mux := (sy_mux y)\<lparr>mx_events := ch\<rparr>\<rparr>)"
proof -
  have "chan_buf (mx_events (sy_mux y)) = e # chan_buf ch"
    using assms(2) by (auto simp: chan_defs split: list.splits)
  with assms(1) show ?thesis
    by (auto simp: mux_sys_ok_def issued_def events_ok_def life_ok_def)
qed

lemma ok_push:
  assumes "mux_sys_ok y" "chan_send (mx_events (sy_mux y)) e = Some ch" "event_index e < length (mx_workers (sy_mux y))"
  shows "mux_sys_ok (y\<lparr>sy_mux := (sy_mux y)\<lparr>mx_events := ch\<rparr>\<rparr>)"
proof -
  have "chan_buf ch = chan_buf (mx_events (sy_mux y)) @ [e]"
    using assms(2) by (auto simp: chan_defs split: if_splits)
  with assms show ?thesis
    by (auto simp: mux_sys_ok_def issued_def events_ok_def life_ok_def)
qed

lemma ok_worker_state:
  assumes "mux_sys_ok y"
    and "\<And>e. TodoPublish e \<in> set (iw_todo w) \<Longrightarrow> event_index e < length (mx_workers (sy_mux y))"
  shows "mux_sys_ok (y\<lparr>sy_workers := (sy_workers y)[i := w]\<rparr>)"
  using assms
  by (auto simp: mux_sys_ok_def issued_def events_ok_def life_ok_def dest!: set_update_subset_insert [THEN subsetD])

lemma ok_send:
  assumes ok: "mux_sys_ok y" and q: "mx_sending (sy_mux y) = (i, c) # rest"
    and snd: "chan_send (mw_CommandCh (mx_workers (sy_mux y) ! i)) c = Some ch"
  shows "mux_sys_ok (y\<lparr>sy_mux := (upd_worker i (\<lambda>w. w\<lparr>mw_CommandCh := ch\<rparr>) (sy_mux y))\<lparr>mx_sending := rest\<rparr>\<rparr>)"
    (is "mux_sys_ok (y\<lparr>sy_mux := ?m'\<rparr>)")
proof -
  let ?m = "sy_mux y"
  have wf: "mux_wf ?m" and calm: "calm ?m" using ok by (auto simp: mux_sys_ok_def)
  then have c: "io_subs [c] = []" using q by (auto simp: mux_wf_def)
  have buf: "chan_buf ch = mailbox (mx_workers ?m ! i) @ [c]" "chan_ok (mw_CommandCh (mx_workers ?m ! i)) \<Longrightarrow> chan_ok ch"
    using snd by (auto simp: chan_defs mailbox_def split: if_splits)
  let ?u = "upd_worker i (\<lambda>w. w\<lparr>mw_CommandCh := ch\<rparr>) ?m"
  have u: "mux_wf ?u" "held ?u = held ?m"
    using wf c buf by (auto intro!: wf_upd_worker held_same)
  have su: "mx_sending ?u = (i, c) # rest" by (simp add: upd_worker_def q)
  have "calm ?u"
  proof (cases "is_replay c")
    case True
    with calm q have "queue_was_full ?m" by (auto simp: calm_def no_replay_def)
    then show ?thesis by (simp add: calm_def queue_was_full_def upd_worker_def)
  qed (use calm buf in \<open>auto intro!: calm_upd_worker\<close>)
  with u su have "event_done ?m ?m'"
    by (auto simp: event_done_def mux_wf_def desired_ok_def calm_def queue_was_full_def no_replay_def held_def frame_def)
      (simp_all add: upd_worker_def)
  moreover have "life ?m' = life ?m" by (simp add: life_def upd_worker_def)
  ultimately show ?thesis using ok by (intro sys_ok_event)
qed

lemma sys_commute: "y\<lparr>sy_workers := a, sy_mux := b\<rparr> = y\<lparr>sy_mux := b, sy_workers := a\<rparr>"
  by (cases y) simp

lemma held_resolve: "held (m\<lparr>mx_resolved := mx_resolved m @ rs\<rparr>) = held m + mset (map fst rs)"
  by (simp add: held_def)

lemma ok_worker:
  assumes ok: "mux_sys_ok y" and i: "i < length (mx_workers (sy_mux y))" and idle: "iw_todo (sy_workers y ! i) = []"
    and recv: "chan_recv (mw_CommandCh (mx_workers (sy_mux y) ! i)) = Some (c, ch)"
    and turn: "worker_turn i a c (sy_workers y ! i) = Some (w, rs)"
  shows "mux_sys_ok (y\<lparr>sy_workers := (sy_workers y)[i := w],
      sy_mux := fold (\<lambda>(s, r). resolve s r) rs (upd_worker i (\<lambda>w. w\<lparr>mw_CommandCh := ch\<rparr>) (sy_mux y))\<rparr>)"
proof -
  let ?m = "sy_mux y"
  let ?u = "upd_worker i (\<lambda>w. w\<lparr>mw_CommandCh := ch\<rparr>) ?m"
  let ?m' = "?u\<lparr>mx_resolved := mx_resolved ?m @ rs\<rparr>"
  have buf: "mailbox (mx_workers ?m ! i) = c # chan_buf ch" "chan_ok (mw_CommandCh (mx_workers ?m ! i)) \<Longrightarrow> chan_ok ch"
    using recv by (auto simp: chan_defs mailbox_def split: list.splits)
  have subs: "io_subs (c # cs) = io_subs [c] @ io_subs cs" for cs by (cases c) simp_all
  have "held ?u + mset (io_subs [c]) = held ?m"
    using sum_list_update_mset [OF i, of "\<lambda>w. mset (io_subs (mailbox w))" "(mx_workers ?m ! i)\<lparr>mw_CommandCh := ch\<rparr>"]
      buf(1) subs [of "chan_buf ch"]
    by (simp add: held_def upd_worker_def ac_simps)
  moreover have res: "mx_resolved ?u = mx_resolved ?m" by (simp add: upd_worker_def)
  ultimately have "held ?m' = held ?m"
    using worker_turn_done(1) [OF turn idle] held_resolve [of ?u rs] by (simp add: res)
  moreover have "mux_wf ?u" "calm ?u"
    using ok buf by (auto simp: mux_sys_ok_def intro!: wf_upd_worker calm_upd_worker)
  then have "mux_wf ?m'" "calm ?m'"
    by (auto simp: mux_wf_def desired_ok_def calm_def queue_was_full_def no_replay_def res)
  ultimately have dn: "event_done ?m ?m'" by (simp add: event_done_def frame_def upd_worker_def)
  have "mux_sys_ok (y\<lparr>sy_mux := ?m'\<rparr>)"
    by (rule sys_ok_event [OF ok dn]) (simp add: life_def upd_worker_def)
  moreover have "length (mx_workers ?m') = length (mx_workers ?m)" by (simp add: upd_worker_def)
  ultimately have "mux_sys_ok ((y\<lparr>sy_mux := ?m'\<rparr>)\<lparr>sy_workers := (sy_workers (y\<lparr>sy_mux := ?m'\<rparr>))[i := w]\<rparr>)"
    by (rule_tac ok_worker_state) (use i worker_turn_done(2) [OF turn idle] in auto)
  then show ?thesis by (simp add: fold_resolve res sys_commute)
qed

text \<open>A worker or its read loop publishes an event.\<close>

lemma ok_publish:
  assumes ok: "mux_sys_ok y" and snd: "chan_send (mx_events (sy_mux y)) e = Some ch"
    and e: "event_index e < length (mx_workers (sy_mux y))"
    and w: "\<And>e. TodoPublish e \<in> set (iw_todo w) \<Longrightarrow> event_index e < length (mx_workers (sy_mux y))"
  shows "mux_sys_ok (y\<lparr>sy_workers := (sy_workers y)[i := w], sy_mux := (sy_mux y)\<lparr>mx_events := ch\<rparr>\<rparr>)"
  using ok_worker_state [OF ok_push [OF ok snd e], of w i] w by (simp add: sys_commute)

lemma sys_todo:
  assumes "mux_sys_ok y" "i < length (sy_workers y)" "TodoPublish e \<in> set (iw_todo (sy_workers y ! i))"
  shows "event_index e < length (mx_workers (sy_mux y))"
  using assms nth_mem unfolding mux_sys_ok_def events_ok_def by blast

lemma ok_mux_step:
  assumes "mux_sys_ok y" "mux_step policy y y'"
  shows "mux_sys_ok y'"
  using assms(2,1)
proof cases
  case (ms_publish i e rest ch)
  have "mux_sys_ok (y\<lparr>sy_workers := (sy_workers y)[i := (sy_workers y ! i)\<lparr>iw_todo := rest\<rparr>],
      sy_mux := (sy_mux y)\<lparr>mx_events := ch\<rparr>\<rparr>)"
    by (rule ok_publish [OF assms(1) ms_publish(4)])
      (use ms_publish sys_todo [OF assms(1) ms_publish(2)] in auto)
  then show ?thesis using ms_publish by simp
next
  case (ms_read_publish i err rest ch)
  have "mux_sys_ok (y\<lparr>sy_workers := (sy_workers y)[i := (sy_workers y ! i)\<lparr>iw_failing := rest\<rparr>],
      sy_mux := (sy_mux y)\<lparr>mx_events := ch\<rparr>\<rparr>)"
    by (rule ok_publish [OF assms(1) ms_read_publish(4)])
      (use ms_read_publish assms(1) sys_todo [OF assms(1) ms_read_publish(2)] in \<open>auto simp: mux_sys_ok_def\<close>)
  then show ?thesis using ms_read_publish by simp
next
  case (ms_notify i conn rest)
  then show ?thesis using sys_todo [OF assms(1) ms_notify(2)] assms(1) by (auto intro!: ok_worker_state)
next
  case (ms_read_fails i conn err)
  then show ?thesis using sys_todo [OF assms(1) ms_read_fails(2)] assms(1) by (auto intro!: ok_worker_state)
next
  case (ms_exit i)
  then show ?thesis using assms(1) by (auto simp: dropConn_def intro!: ok_worker_state)
next
  case (ms_tick i epoch ch)
  then show ?thesis using ok_push [OF assms(1) ms_tick(5)] by simp
qed (use assms(1) in \<open>simp_all add: ok_submit ok_stop ok_watch ok_run ok_command ok_event ok_shutdown ok_drain ok_send ok_worker\<close>)

interpretation ws_mux: invariant_system "\<lambda>y. NewClient cfg = Inr (y, policy)" "mux_step policy'" mux_sys_ok
  for cfg :: "'e mux_config" and policy policy' :: "'e placement_policy"
  by unfold_locales (auto intro: mux_sys_init ok_mux_step)

end
