(* ===== verification/WS_Mux_Run.thy ===== *)
theory WS_Mux_Run
  imports WS_Mux_Props
begin

text \<open>
  Concrete runs of the multiplexer: a schedule is a list of choices, \<open>mux_exec\<close> carries them out
  with the handlers, and every schedule that runs through is a run of \<open>mux_step\<close>. Then the state
  in which the loop and a worker wait for each other.
\<close>

section \<open>Schedules\<close>

datatype 'e mux_choice =
    DoSubmit user_kind string | DoStop | DoWatch | DoRun | DoCommand | DoEvent | DoShutdown | DoSend
  | DoWorker nat "'e worker_answer" | DoPublish nat | DoNotify nat | DoReadFails nat 'e | DoReadPublish nat
  | DoTick nat nat

definition loop_free :: "'e ws_system \<Rightarrow> bool" where
  "loop_free y \<longleftrightarrow> running (sy_mux y) \<and> mx_sending (sy_mux y) = []"

fun mux_exec :: "'e placement_policy \<Rightarrow> 'e mux_choice \<Rightarrow> 'e ws_system \<Rightarrow> 'e ws_system option" where
  "mux_exec p (DoSubmit kind key) y = Some (fst (submitLocked kind key y))"
| "mux_exec p DoStop y = Some (client_Stop y)"
| "mux_exec p DoWatch y = (case mx_fatal (sy_mux y) of [] \<Rightarrow> None | err # _ \<Rightarrow> Some (markFatalAndStop err y))"
| "mux_exec p DoRun y = Some (y\<lparr>sy_mux := mux_run (sy_mux y)\<rparr>)"
| "mux_exec p DoCommand y = (if \<not> loop_free y then None else
     case chan_recv (mx_commands (sy_mux y)) of None \<Rightarrow> None
     | Some (c, ch) \<Rightarrow> Some (y\<lparr>sy_mux := mux_command_turn p c ((sy_mux y)\<lparr>mx_commands := ch\<rparr>)\<rparr>))"
| "mux_exec p DoEvent y = (if \<not> loop_free y then None else
     case chan_recv (mx_events (sy_mux y)) of None \<Rightarrow> None
     | Some (e, ch) \<Rightarrow> Some (y\<lparr>sy_mux := mux_event_turn e ((sy_mux y)\<lparr>mx_events := ch\<rparr>)\<rparr>))"
| "mux_exec p DoShutdown y = (if \<not> loop_free y \<or> \<not> mx_closed (sy_mux y) \<or> chan_buf (mx_commands (sy_mux y)) \<noteq> [] then None
     else Some (y\<lparr>sy_mux := handleShutdown (sy_mux y)\<rparr>))"
| "mux_exec p DoSend y = (case mx_sending (sy_mux y) of [] \<Rightarrow> None
     | (i, c) # rest \<Rightarrow> (case chan_send (mw_CommandCh (mx_workers (sy_mux y) ! i)) c of None \<Rightarrow> None
         | Some ch \<Rightarrow> Some (y\<lparr>sy_mux := (upd_worker i (\<lambda>w. w\<lparr>mw_CommandCh := ch\<rparr>) (sy_mux y))\<lparr>mx_sending := rest\<rparr>\<rparr>)))"
| "mux_exec p (DoWorker i a) y = (if \<not> i < length (mx_workers (sy_mux y)) \<or> iw_todo (sy_workers y ! i) \<noteq> [] then None else
     case chan_recv (mw_CommandCh (mx_workers (sy_mux y) ! i)) of None \<Rightarrow> None
     | Some (c, ch) \<Rightarrow> (case worker_turn i a c (sy_workers y ! i) of None \<Rightarrow> None
         | Some (w, rs) \<Rightarrow> Some (y\<lparr>sy_workers := (sy_workers y)[i := w],
             sy_mux := fold (\<lambda>(s, r). resolve s r) rs (upd_worker i (\<lambda>w. w\<lparr>mw_CommandCh := ch\<rparr>) (sy_mux y))\<rparr>)))"
| "mux_exec p (DoPublish i) y = (if \<not> i < length (sy_workers y) then None else
     case iw_todo (sy_workers y ! i) of TodoPublish e # rest \<Rightarrow>
       (case chan_send (mx_events (sy_mux y)) e of None \<Rightarrow> None
        | Some ch \<Rightarrow> Some (y\<lparr>sy_workers := (sy_workers y)[i := (sy_workers y ! i)\<lparr>iw_todo := rest\<rparr>],
            sy_mux := (sy_mux y)\<lparr>mx_events := ch\<rparr>\<rparr>))
     | _ \<Rightarrow> None)"
| "mux_exec p (DoNotify i) y = (if \<not> i < length (sy_workers y) then None else
     case iw_todo (sy_workers y ! i) of TodoNotify conn # rest \<Rightarrow>
       Some (y\<lparr>sy_workers := (sy_workers y)[i := (sy_workers y ! i)\<lparr>iw_todo := rest, iw_reading := Some conn\<rparr>]\<rparr>)
     | _ \<Rightarrow> None)"
| "mux_exec p (DoReadFails i err) y = (if \<not> i < length (sy_workers y) \<or> iw_reading (sy_workers y ! i) = None then None else
     Some (y\<lparr>sy_workers := (sy_workers y)[i := (sy_workers y ! i)
       \<lparr>iw_reading := None, iw_failing := iw_failing (sy_workers y ! i) @ [err]\<rparr>]\<rparr>))"
| "mux_exec p (DoReadPublish i) y = (if \<not> i < length (sy_workers y) then None else
     case iw_failing (sy_workers y ! i) of [] \<Rightarrow> None
     | err # rest \<Rightarrow> (case chan_send (mx_events (sy_mux y)) (WkDisconnected i err) of None \<Rightarrow> None
         | Some ch \<Rightarrow> Some (y\<lparr>sy_workers := (sy_workers y)[i := (sy_workers y ! i)\<lparr>iw_failing := rest\<rparr>],
             sy_mux := (sy_mux y)\<lparr>mx_events := ch\<rparr>\<rparr>)))"
| "mux_exec p (DoTick i epoch) y = (if \<not> i < length (mx_workers (sy_mux y)) \<or> epoch = 0 \<or>
       mw_HeartbeatEpoch (mx_workers (sy_mux y) ! i) < epoch then None else
     case chan_send (mx_events (sy_mux y)) (WkPingTick i epoch) of None \<Rightarrow> None
     | Some ch \<Rightarrow> Some (y\<lparr>sy_mux := (sy_mux y)\<lparr>mx_events := ch\<rparr>\<rparr>))"

lemma mux_exec_step: "mux_exec p ch y = Some y' \<Longrightarrow> mux_step p y y'"
  by (cases "(p, ch, y)" rule: mux_exec.cases)
    (auto simp: loop_free_def intro: mux_step.intros split: if_splits option.splits list.splits worker_todo.splits)

fun mux_execs :: "'e placement_policy \<Rightarrow> 'e mux_choice list \<Rightarrow> 'e ws_system \<Rightarrow> 'e ws_system option" where
  "mux_execs p [] y = Some y"
| "mux_execs p (c # cs) y = (case mux_exec p c y of None \<Rightarrow> None | Some y' \<Rightarrow> mux_execs p cs y')"

lemma mux_execs_steps: "mux_execs p cs y = Some y' \<Longrightarrow> (mux_step p)\<^sup>*\<^sup>* y y'"
  by (induction cs arbitrary: y)
    (auto split: option.splits intro: converse_rtranclp_into_rtranclp mux_exec_step)

section \<open>A loop and a worker that wait for each other\<close>

definition mux_blocked :: "'e ws_system \<Rightarrow> bool" where
  "mux_blocked y \<longleftrightarrow> running (sy_mux y) \<and> chan_full (mx_events (sy_mux y)) \<and>
     (case mx_sending (sy_mux y) of [] \<Rightarrow> False
      | (i, _) # _ \<Rightarrow> i < length (sy_workers y) \<and> chan_full (mw_CommandCh (mx_workers (sy_mux y) ! i)) \<and>
          (case iw_todo (sy_workers y ! i) of TodoPublish _ # _ \<Rightarrow> True | _ \<Rightarrow> False))"

lemma mux_blocked_step:
  assumes "mux_step p y y'" "mux_blocked y"
  shows "mux_blocked y' \<and> mx_sending (sy_mux y') = mx_sending (sy_mux y) \<and>
    mx_subscriptions (sy_mux y') = mx_subscriptions (sy_mux y) \<and> mx_fatal (sy_mux y') = mx_fatal (sy_mux y)"
  using assms
proof cases
  case (ms_worker i c ch a w rs)
  then show ?thesis using assms(2)
    by (cases "i = fst (hd (mx_sending (sy_mux y)))")
      (auto simp: mux_blocked_def running_def fold_resolve upd_worker_def split: list.splits)
qed (auto simp: mux_blocked_def running_def submitLocked_def submitCommand_def client_Stop_def markFatalAndStop_def
      mux_stop_def mux_run_def Let_def chan_send_def nth_list_update dropConn_def split: option.splits list.splits)

definition tiny_worker :: mux_worker_config where
  "tiny_worker = \<lparr>mc_QueueSize = 1, mc_WriteTimeout = 1, mc_HasEncoder = True, mc_HasDialer = True, mc_URL = ''ws'', mc_PingInterval = 1\<rparr>"

definition tiny_config :: "unit mux_config" where
  "tiny_config = \<lparr>mc_Workers = [tiny_worker], mc_MuxQueueSize = 1, mc_Policy = None\<rparr>"

definition tiny_client :: "unit ws_system" where
  "tiny_client = (case NewClient tiny_config of Inr (y, _) \<Rightarrow> y)"

definition dials :: "nat \<Rightarrow> unit worker_answer" where
  "dials c = \<lparr>wa_dial = Inr c, wa_attempts = [(True, Inr c, False)], wa_cancelled = False, wa_encode = (\<lambda>_. Inr 1), wa_deadline = None,
     wa_write = None\<rparr>"

definition encoder_fails :: "unit worker_answer" where
  "encoder_fails = (dials 0)\<lparr>wa_encode := \<lambda>_. Inl ()\<rparr>"

definition connecting :: "unit mux_choice list" where
  "connecting = [DoRun, DoSend, DoWorker 0 (dials 7), DoPublish 0, DoNotify 0, DoEvent]"

definition blocking :: "unit mux_choice list" where
  "blocking = connecting @ [DoSubmit UserSubscribe ''a'', DoCommand, DoWorker 0 encoder_fails,
     DoSubmit UserSubscribe ''b'', DoCommand, DoReadFails 0 (), DoReadPublish 0, DoEvent, DoTick 0 1]"

definition holds_after :: "unit mux_choice list \<Rightarrow> (unit ws_system \<Rightarrow> bool) \<Rightarrow> bool" where
  "holds_after cs P = (case mux_execs defaultPlacementPolicy cs tiny_client of None \<Rightarrow> False | Some y \<Rightarrow> P y)"

lemmas run_defs = tiny_worker_def tiny_config_def tiny_client_def dials_def encoder_fails_def connecting_def blocking_def holds_after_def
 NewClient_def NewMux_def new_worker_def new_io_worker_def chan_defs mux_run_def startConnect_def startReconnect_def
 upd_worker_def cancel_dial_def new_dial_def send_blocking_def Let_def loop_free_def running_def
 factory_Dial_def handleConnect_def dropConn_def publish_def notifyConnected_def mux_event_turn_def handleWorkerReady_def
 clearDialCancel_def runReplay_def startPingTicker_def stopPingTicker_def beginFatalShutdown_def
 submitLocked_def submitCommand_def mux_command_turn_def handleCommand_def handleSubscribe_def pickWorker_def
 snapshots_def defaultPlacementPolicy_def dispatchLiveWrite_def handleWrite_def encodeWrite_def resolve_def
 mux_blocked_def

lemma holds_after_reachable:
  assumes "holds_after cs P"
  obtains y where "(mux_step defaultPlacementPolicy)\<^sup>*\<^sup>* tiny_client y" "P y"
  using assms by (auto simp: holds_after_def split: option.splits dest: mux_execs_steps)

lemma tiny_client_new: "NewClient tiny_config = Inr (tiny_client, defaultPlacementPolicy)"
  by (simp add: run_defs)

lemma blocking_blocks: "holds_after blocking mux_blocked"
  by (simp add: run_defs)

section \<open>Properties of every reachable state\<close>

text \<open>C23. No completion handle is lost or resolved twice: in every reachable state of client, mux
  loop, workers and callers, the handles given out are exactly those of the queued commands, of
  the writes in the worker mailboxes, and of the resolved ones, each once. After the shutdown,
  when the workers have emptied their mailboxes, every handle has been resolved.\<close>

theorem mux_handles_resolved_once:
  assumes "NewClient cfg = Inr (y0, policy0)" and "(mux_step policy)\<^sup>*\<^sup>* y0 y"
  shows "mset (map uc_Sub (chan_buf (mx_commands (sy_mux y)))) +
      (\<Sum>w\<leftarrow>mx_workers (sy_mux y). mset (io_subs (chan_buf (mw_CommandCh w)))) +
      mset (map fst (mx_resolved (sy_mux y))) = mset [0..<sy_nextSub y] \<and>
    distinct (map fst (mx_resolved (sy_mux y))) \<and>
    (mx_state (sy_mux y) = MuxStopped \<and> (\<forall>w\<in>set (mx_workers (sy_mux y)). chan_buf (mw_CommandCh w) = []) \<longrightarrow>
      mset (map fst (mx_resolved (sy_mux y))) = mset [0..<sy_nextSub y])"
proof -
  let ?res = "mset (map fst (mx_resolved (sy_mux y)))"
  let ?held = "\<Sum>w\<leftarrow>mx_workers (sy_mux y). mset (io_subs (chan_buf (mw_CommandCh w)))"
  have ok: "mux_sys_ok y" using ws_mux.ok_reachable assms .
  then have all: "mset (map uc_Sub (chan_buf (mx_commands (sy_mux y)))) + ?held + ?res = mset [0..<sy_nextSub y]"
    by (simp add: mux_sys_ok_def issued_def held_def mailbox_def ac_simps)
  moreover have "distinct (map fst (mx_resolved (sy_mux y)))"
  proof -
    obtain zs where "mset zs = mset (map uc_Sub (chan_buf (mx_commands (sy_mux y)))) + ?held" using ex_mset by blast
    then have "mset (zs @ map fst (mx_resolved (sy_mux y))) = mset [0..<sy_nextSub y]" using all by simp
    then show ?thesis using mset_eq_imp_distinct_iff distinct_append distinct_upt by metis
  qed
  moreover have "?res = mset [0..<sy_nextSub y]"
    if "mx_state (sy_mux y) = MuxStopped" "\<forall>w\<in>set (mx_workers (sy_mux y)). chan_buf (mw_CommandCh w) = []"
  proof -
    have "chan_buf (mx_commands (sy_mux y)) = []" using ok that(1) by (auto simp: mux_sys_ok_def life_ok_def)
    moreover have empty: "(\<Sum>w\<leftarrow>ws. mset (io_subs (chan_buf (mw_CommandCh w)))) = {#}"
      if "\<forall>w\<in>set ws. chan_buf (mw_CommandCh w) = []" for ws
      using that by (induction ws) simp_all
    ultimately show ?thesis using all empty [OF that(2)] by simp
  qed
  ultimately show ?thesis by blast
qed

text \<open>C26. The state of the mux stays well formed: subscriptions, waiting sends and events name
  existing workers (no handler indexes out of range), mailboxes keep to their capacity, and the
  replay list of a worker has no duplicates and only keys subscribed on that worker.\<close>

theorem mux_well_formed:
  assumes "NewClient cfg = Inr (y0, policy0)" and "(mux_step policy)\<^sup>*\<^sup>* y0 y"
  shows "(\<forall>k e. mx_subscriptions (sy_mux y) k = Some e \<longrightarrow> ms_WorkerIndex e < length (mx_workers (sy_mux y))) \<and>
    (\<forall>e\<in>set (chan_buf (mx_events (sy_mux y))). event_index e < length (mx_workers (sy_mux y))) \<and>
    (\<forall>(i, c)\<in>set (mx_sending (sy_mux y)). i < length (mx_workers (sy_mux y))) \<and>
    (\<forall>i<length (mx_workers (sy_mux y)). let w = mx_workers (sy_mux y) ! i in
      length (chan_buf (mw_CommandCh w)) \<le> chan_cap (mw_CommandCh w) \<and> distinct (mw_DesiredKeys w) \<and>
      (\<forall>k\<in>set (mw_DesiredKeys w). \<exists>e. mx_subscriptions (sy_mux y) k = Some e \<and> ms_WorkerIndex e = i))"
proof -
  have ok: "mux_sys_ok y" using ws_mux.ok_reachable assms .
  then have wf: "mux_wf (sy_mux y)" and ev: "events_ok y" by (auto simp: mux_sys_ok_def)
  have "\<forall>i<length (mx_workers (sy_mux y)). let w = mx_workers (sy_mux y) ! i in
      length (chan_buf (mw_CommandCh w)) \<le> chan_cap (mw_CommandCh w) \<and> distinct (mw_DesiredKeys w) \<and>
      (\<forall>k\<in>set (mw_DesiredKeys w). \<exists>e. mx_subscriptions (sy_mux y) k = Some e \<and> ms_WorkerIndex e = i)"
    using wf_worker [OF wf] by (simp add: Let_def chan_ok_def desired_ok_def)
  moreover have "\<forall>k e. mx_subscriptions (sy_mux y) k = Some e \<longrightarrow> ms_WorkerIndex e < length (mx_workers (sy_mux y))"
    using wf_index [OF wf] by blast
  moreover have "\<forall>(i, c)\<in>set (mx_sending (sy_mux y)). i < length (mx_workers (sy_mux y))"
    using wf by (auto simp: mux_wf_def)
  ultimately show ?thesis using ev unfolding events_ok_def by blast
qed

text \<open>The fatal error. At most one fatal event is ever published, it is an encode failure, and it
  comes together with the stopping state, in which every further command is answered with it;
  the client knows no other fatal error, has then closed the command channel exactly as \<open>Stop\<close>
  does, and accepts no command from then on. The loop ends only after the client has stopped
  and every waiting command was answered.\<close>

theorem mux_fatal_once:
  assumes "NewClient cfg = Inr (y0, policy0)" and "(mux_step policy)\<^sup>*\<^sup>* y0 y"
  shows "length (mx_fatal (sy_mux y)) \<le> 1 \<and>
    (mx_state (sy_mux y) = MuxStopping \<longrightarrow> (\<exists>x. mx_fatal (sy_mux y) = [EncodeWriteError x] \<and>
      mux_command_turn policy c (sy_mux y) = resolve (uc_Sub c) (Some (EncodeWriteError x)) (sy_mux y))) \<and>
    (\<forall>e. FatalErr y = Some e \<longrightarrow> mx_fatal (sy_mux y) = [e] \<and> sy_stopped y) \<and>
    (sy_stopped y \<longleftrightarrow> mx_closed (sy_mux y)) \<and>
    (sy_stopped y \<longrightarrow> submitLocked kind key y = (y, Inl ErrMuxStopped)) \<and>
    (mx_state (sy_mux y) = MuxStopped \<longrightarrow> sy_stopped y \<and> chan_buf (mx_commands (sy_mux y)) = [])"
proof -
  have "mux_sys_ok y" using ws_mux.ok_reachable assms .
  then have "life_ok y" by (simp add: mux_sys_ok_def)
  then show ?thesis
    by (auto simp: life_ok_def FatalErr_def submitLocked_def mux_command_turn_def)
qed

text \<open>C24. A reconnect replays nothing. As long as no command was answered with a full queue, no
  worker has a key to replay, no replay write is ever queued, and a worker that becomes ready
  is sent nothing, whatever subscriptions are recorded for it: \<open>handleSubscribe\<close> never stores
  the extended key list. A subscription taken while its worker is connecting is acknowledged
  with success and never written.\<close>

theorem mux_reconnect_replays_nothing:
  assumes "NewClient cfg = Inr (y0, policy0)" and "(mux_step policy)\<^sup>*\<^sup>* y0 y"
    and "\<forall>(s, r)\<in>set (mx_resolved (sy_mux y)). r \<noteq> Some ErrQueueFull"
    and "i < length (mx_workers (sy_mux y))"
  shows "(\<forall>w\<in>set (mx_workers (sy_mux y)). mw_DesiredKeys w = [] \<and>
      (\<forall>intent. IoReplayWrite intent \<notin> set (chan_buf (mw_CommandCh w)))) \<and>
    mx_sending (handleWorkerReady i (sy_mux y)) = mx_sending (sy_mux y) \<and>
    map mw_CommandCh (mx_workers (handleWorkerReady i (sy_mux y))) = map mw_CommandCh (mx_workers (sy_mux y))"
proof -
  have "mux_sys_ok y" using ws_mux.ok_reachable assms(1,2) .
  then have "calm (sy_mux y)" by (simp add: mux_sys_ok_def)
  moreover have "\<not> queue_was_full (sy_mux y)" using assms(3) by (force simp: queue_was_full_def)
  ultimately have quiet: "no_replay (sy_mux y)" by (simp add: calm_def)
  then have "mw_DesiredKeys (mx_workers (sy_mux y) ! i) = []" using assms(4) by (simp add: no_replay_def)
  then have "mx_sending (handleWorkerReady i (sy_mux y)) = mx_sending (sy_mux y)"
    "map mw_CommandCh (mx_workers (handleWorkerReady i (sy_mux y))) = map mw_CommandCh (mx_workers (sy_mux y))"
    using assms(4) by (auto simp: handleWorkerReady_def startPingTicker_def runReplay_def clearDialCancel_def cancel_dial_def
        upd_worker_def Let_def nth_list_update intro!: nth_equalityI split: option.split)
  moreover have "\<forall>w\<in>set (mx_workers (sy_mux y)). mw_DesiredKeys w = [] \<and>
      (\<forall>intent. IoReplayWrite intent \<notin> set (chan_buf (mw_CommandCh w)))"
    using quiet unfolding no_replay_def mailbox_def by (metis is_replay.simps(1))
  ultimately show ?thesis by blast
qed

text \<open>C25. The loop and a worker can block each other for good. A worker that waits to publish into
  the full event channel does not read its mailbox; a mux that waits to put a reconnect into
  that full mailbox does not read the event channel. From such a state no step of any goroutine
  leads out: the mux stays in the same send, handles no event and no command and cannot shut
  down.\<close>

theorem mux_deadlock:
  assumes "mux_blocked y" and "(mux_step policy)\<^sup>*\<^sup>* y y'"
  shows "mux_blocked y' \<and> mx_sending (sy_mux y') = mx_sending (sy_mux y) \<and>
    mx_subscriptions (sy_mux y') = mx_subscriptions (sy_mux y) \<and>
    mx_fatal (sy_mux y') = mx_fatal (sy_mux y) \<and> mx_state (sy_mux y') \<noteq> MuxStopped"
  using assms(2)
proof induction
  case base
  with assms(1) show ?case by (auto simp: mux_blocked_def running_def)
next
  case (step y' y'')
  then show ?case using mux_blocked_step [of policy y' y''] by (auto simp: mux_blocked_def running_def)
qed

section \<open>Witnesses\<close>

theorem mux_deadlock_witness:
  "\<exists>y. (mux_step defaultPlacementPolicy)\<^sup>*\<^sup>* tiny_client y \<and> mux_blocked y \<and>
     (\<forall>y'. (mux_step defaultPlacementPolicy)\<^sup>*\<^sup>* y y' \<longrightarrow> mx_sending (sy_mux y') = mx_sending (sy_mux y))"
proof -
  obtain y where "(mux_step defaultPlacementPolicy)\<^sup>*\<^sup>* tiny_client y" "mux_blocked y"
    using holds_after_reachable [OF blocking_blocks] .
  then show ?thesis using mux_deadlock [of y] by blast
qed

definition silent :: "unit mux_choice list" where
  "silent = [DoRun, DoSubmit UserSubscribe ''a'', DoSend, DoCommand, DoWorker 0 (dials 7), DoPublish 0, DoNotify 0, DoEvent]"

definition silent_end :: "unit ws_system \<Rightarrow> bool" where
  "silent_end y \<longleftrightarrow> mx_resolved (sy_mux y) = [(0, None)] \<and> mx_subscriptions (sy_mux y) ''a'' \<noteq> None \<and>
     length (mx_workers (sy_mux y)) = 1 \<and> map iw_frames (sy_workers y) = [[]] \<and>
     map mw_State (mx_workers (sy_mux y)) = [WorkerConnected] \<and> map mw_CommandCh (mx_workers (sy_mux y)) = [Chan 1 []]"

lemma silent_ends: "holds_after silent silent_end"
  by (simp add: run_defs silent_def silent_end_def)

theorem mux_reconnect_replays_nothing_witness:
  "\<exists>y. (mux_step defaultPlacementPolicy)\<^sup>*\<^sup>* tiny_client y \<and> silent_end y \<and>
     mx_sending (handleWorkerReady 0 (sy_mux y)) = mx_sending (sy_mux y)"
proof -
  obtain y where y: "(mux_step defaultPlacementPolicy)\<^sup>*\<^sup>* tiny_client y" "silent_end y"
    using holds_after_reachable [OF silent_ends] .
  then show ?thesis
    using mux_reconnect_replays_nothing [OF tiny_client_new y(1), of 0] by (auto simp: silent_end_def)
qed

definition stopping :: "unit mux_choice list" where
  "stopping = connecting @ [DoSubmit UserSubscribe ''a'', DoCommand, DoWorker 0 encoder_fails, DoPublish 0, DoEvent,
     DoSubmit UserSubscribe ''b'', DoCommand, DoWatch, DoShutdown]"

definition stopping_end :: "unit ws_system \<Rightarrow> bool" where
  "stopping_end y \<longleftrightarrow> mx_resolved (sy_mux y) = [(0, Some (EncodeWriteError ())), (1, Some (EncodeWriteError ()))] \<and>
     mx_state (sy_mux y) = MuxStopped \<and> sy_nextSub y = 2 \<and> FatalErr y = Some (EncodeWriteError ()) \<and>
     map mw_CommandCh (mx_workers (sy_mux y)) = [Chan 1 []]"

lemma stopping_ends: "holds_after stopping stopping_end"
  by (simp add: run_defs stopping_def stopping_end_def markFatalAndStop_def mux_stop_def handleShutdown_def FatalErr_def)

theorem mux_handles_resolved_once_witness:
  "\<exists>y. stopping_end y \<and> mset (map fst (mx_resolved (sy_mux y))) = mset [0..<sy_nextSub y]"
proof -
  obtain y where y: "(mux_step defaultPlacementPolicy)\<^sup>*\<^sup>* tiny_client y" "stopping_end y"
    using holds_after_reachable [OF stopping_ends] .
  moreover have "\<forall>w\<in>set (mx_workers (sy_mux y)). chan_buf (mw_CommandCh w) = []" "mx_state (sy_mux y) = MuxStopped"
    using y(2) by (auto simp: stopping_end_def)
  ultimately show ?thesis
    using mux_handles_resolved_once [OF tiny_client_new y(1)] by blast
qed

theorem mux_fatal_once_witness:
  "\<exists>y. stopping_end y \<and> mx_fatal (sy_mux y) = [EncodeWriteError ()] \<and>
     submitLocked UserSubscribe ''c'' y = (y, Inl ErrMuxStopped)"
proof -
  obtain y where y: "(mux_step defaultPlacementPolicy)\<^sup>*\<^sup>* tiny_client y" "stopping_end y"
    using holds_after_reachable [OF stopping_ends] .
  then show ?thesis
    using mux_fatal_once [OF tiny_client_new y(1), where kind = UserSubscribe and key = "''c''"]
    by (auto simp: stopping_end_def)
qed

theorem mux_well_formed_witness:
  "\<exists>y. silent_end y \<and> (\<forall>k e. mx_subscriptions (sy_mux y) k = Some e \<longrightarrow> ms_WorkerIndex e < 1)"
proof -
  obtain y where y: "(mux_step defaultPlacementPolicy)\<^sup>*\<^sup>* tiny_client y" "silent_end y"
    using holds_after_reachable [OF silent_ends] .
  then show ?thesis
    using mux_well_formed [OF tiny_client_new y(1)] by (auto simp: silent_end_def)
qed

end
