(* ===== verification/WS_Replay.thy ===== *)
theory WS_Replay
  imports WS_Common
begin

text \<open>
  The replaying transport: \<open>internal/core/pkg/websocket/replay\<close>, \<open>store.go\<close> (the log of write
  intents and the desired set) and \<open>replay.go\<close> (recording, draining into the live session,
  reset on every new session). \<open>'g\<close> is the type of payload generators; a missing generator is
  \<open>None\<close>. What a generator and a write answer is an argument.

  \<open>WS_Replay_Sync\<close> runs callers, the write loop and the supervisor concurrently.
\<close>

section \<open>The store\<close>

record 'g replay_intent =
  ri_Gen :: "'g option"
  ri_WriteTimeout :: int
  ri_MessageType :: int

datatype intent_kind = intentSubscribe | intentUnsubscribe

record 'g intent_op =
  po_kind :: intent_kind
  po_key :: string
  po_intent :: "'g replay_intent"

record 'g intent_store =
  is_pending :: "'g intent_op list"
  is_desired :: "string \<rightharpoonup> 'g replay_intent"
  is_desiredOrder :: "string list"

definition newIntentStore :: "'g intent_store" where
  "newIntentStore = \<lparr>is_pending = [], is_desired = Map.empty, is_desiredOrder = []\<rparr>"

definition isLogicallySubscribed :: "string \<Rightarrow> 'g intent_store \<Rightarrow> bool" where
  "isLogicallySubscribed key st =
     (case find (\<lambda>p. po_key p = key) (rev (is_pending st)) of
        Some p \<Rightarrow> po_kind p = intentSubscribe
      | None \<Rightarrow> is_desired st key \<noteq> None)"

definition popFront :: "'g intent_store \<Rightarrow> 'g intent_store" where
  "popFront st = st\<lparr>is_pending := tl (is_pending st)\<rparr>"

definition upsertDesired :: "string \<Rightarrow> 'g replay_intent \<Rightarrow> 'g intent_store \<Rightarrow> 'g intent_store" where
  "upsertDesired key intent st =
     st\<lparr>is_desired := (is_desired st)(key \<mapsto> intent),
        is_desiredOrder := (if is_desired st key = None then is_desiredOrder st @ [key] else is_desiredOrder st)\<rparr>"

definition removeDesired :: "string \<Rightarrow> 'g intent_store \<Rightarrow> 'g intent_store" where
  "removeDesired key st =
     (if is_desired st key = None then st
      else st\<lparr>is_desired := (is_desired st)(key := None), is_desiredOrder := remove1 key (is_desiredOrder st)\<rparr>)"

definition recordSubscribe :: "string \<Rightarrow> 'g replay_intent \<Rightarrow> 'g intent_store \<Rightarrow> 'g intent_store \<times> bool" where
  "recordSubscribe key intent st =
     (if isLogicallySubscribed key st then (st, False)
      else (st\<lparr>is_pending := is_pending st @ [\<lparr>po_kind = intentSubscribe, po_key = key, po_intent = intent\<rparr>]\<rparr>, True))"

definition recordUnsubscribe :: "string \<Rightarrow> 'g replay_intent \<Rightarrow> 'g intent_store \<Rightarrow> 'g intent_store \<times> bool" where
  "recordUnsubscribe key intent st =
     (if \<not> isLogicallySubscribed key st then (st, False)
      else (st\<lparr>is_pending := is_pending st @ [\<lparr>po_kind = intentUnsubscribe, po_key = key, po_intent = intent\<rparr>]\<rparr>, True))"

definition peekFront :: "'g intent_store \<Rightarrow> 'g intent_op option" where
  "peekFront st = (case is_pending st of [] \<Rightarrow> None | p # _ \<Rightarrow> Some p)"

definition confirmSubscribe :: "string \<Rightarrow> 'g replay_intent \<Rightarrow> 'g intent_store \<Rightarrow> 'g intent_store" where
  "confirmSubscribe key intent st = popFront (upsertDesired key intent st)"

definition confirmUnsubscribe :: "string \<Rightarrow> 'g intent_store \<Rightarrow> 'g intent_store" where
  "confirmUnsubscribe key st = popFront (removeDesired key st)"

definition discardFront :: "'g intent_store \<Rightarrow> 'g intent_store" where
  "discardFront st = popFront st"

definition settle :: "'g intent_op \<Rightarrow> 'g intent_store \<Rightarrow> 'g intent_store" where
  "settle p st =
     (case po_kind p of
        intentSubscribe \<Rightarrow> upsertDesired (po_key p) (po_intent p) st
      | intentUnsubscribe \<Rightarrow> removeDesired (po_key p) st)"

fun replay_ops :: "string list \<Rightarrow> (string \<rightharpoonup> 'g replay_intent) \<Rightarrow> 'g intent_op list" where
  "replay_ops [] d = []"
| "replay_ops (key # keys) d =
     (case d key of
        None \<Rightarrow> replay_ops keys d
      | Some intent \<Rightarrow> \<lparr>po_kind = intentSubscribe, po_key = key, po_intent = intent\<rparr> # replay_ops keys d)"

definition resetForReconnect :: "'g intent_store \<Rightarrow> 'g intent_store" where
  "resetForReconnect st =
     (let st' = fold settle (is_pending st) st
      in st'\<lparr>is_pending := replay_ops (is_desiredOrder st') (is_desired st')\<rparr>)"

text \<open>The keys after all pending operations; the order of the Go slice is that of a map.\<close>

definition apply_op :: "'g intent_op \<Rightarrow> string set \<Rightarrow> string set" where
  "apply_op p ks = (case po_kind p of intentSubscribe \<Rightarrow> insert (po_key p) ks | intentUnsubscribe \<Rightarrow> ks - {po_key p})"

definition logicalKeys :: "'g intent_store \<Rightarrow> string set" where
  "logicalKeys st = fold apply_op (is_pending st) (dom (is_desired st))"

section \<open>Draining\<close>

definition resolveMessageType :: "int \<Rightarrow> int" where
  "resolveMessageType messageType = (if 0 < messageType then messageType else 1)"

record sub_options =
  so_WriteTimeout :: int
  so_MessageType :: int

definition buildSubOptions :: "(sub_options \<Rightarrow> sub_options) list \<Rightarrow> sub_options" where
  "buildSubOptions opts = fold (\<lambda>opt so. opt so) opts \<lparr>so_WriteTimeout = 0, so_MessageType = 0\<rparr>"

definition WithWriteTimeout :: "int \<Rightarrow> sub_options \<Rightarrow> sub_options" where
  "WithWriteTimeout t so = so\<lparr>so_WriteTimeout := t\<rparr>"

definition WithMessageType :: "int \<Rightarrow> sub_options \<Rightarrow> sub_options" where
  "WithMessageType t so = so\<lparr>so_MessageType := t\<rparr>"

definition buildWriteIntent :: "'g option \<Rightarrow> sub_options \<Rightarrow> 'g replay_intent" where
  "buildWriteIntent gen so = \<lparr>ri_Gen = gen, ri_WriteTimeout = so_WriteTimeout so, ri_MessageType = so_MessageType so\<rparr>"

text \<open>\<open>gen\<close> runs a generator, \<open>write\<close> is \<open>handle.WritePayload\<close>. The result is the store, whether
  the frame was written, and the error that ends the drain. \<open>None\<close> is the panic of a subscribe
  intent without a generator.\<close>

definition processSubscribe ::
    "('g \<Rightarrow> 'e + 'p) \<Rightarrow> ('p \<Rightarrow> int \<Rightarrow> int \<Rightarrow> 'e option) \<Rightarrow> 'g intent_op \<Rightarrow> 'g intent_store \<Rightarrow>
     ('g intent_store \<times> bool \<times> 'e option) option" where
  "processSubscribe gen write p st =
     (case ri_Gen (po_intent p) of
        None \<Rightarrow> None
      | Some g \<Rightarrow>
          (case gen g of
             Inl _ \<Rightarrow> Some (discardFront st, False, None)
           | Inr payload \<Rightarrow>
               (case write payload (resolveMessageType (ri_MessageType (po_intent p))) (ri_WriteTimeout (po_intent p)) of
                  Some err \<Rightarrow> Some (st, False, Some err)
                | None \<Rightarrow> Some (confirmSubscribe (po_key p) (po_intent p) st, True, None))))"

definition processUnsubscribe ::
    "('g \<Rightarrow> 'e + 'p) \<Rightarrow> ('p \<Rightarrow> int \<Rightarrow> int \<Rightarrow> 'e option) \<Rightarrow> 'g intent_op \<Rightarrow> 'g intent_store \<Rightarrow>
     'g intent_store \<times> bool \<times> 'e option" where
  "processUnsubscribe gen write p st =
     (case ri_Gen (po_intent p) of
        None \<Rightarrow> (confirmUnsubscribe (po_key p) st, False, None)
      | Some g \<Rightarrow>
          (case gen g of
             Inl _ \<Rightarrow> (confirmUnsubscribe (po_key p) st, False, None)
           | Inr payload \<Rightarrow>
               (case write payload (resolveMessageType (ri_MessageType (po_intent p))) (ri_WriteTimeout (po_intent p)) of
                  Some err \<Rightarrow> (confirmUnsubscribe (po_key p) st, False, Some err)
                | None \<Rightarrow> (confirmUnsubscribe (po_key p) st, True, None))))"

definition process_op ::
    "('g \<Rightarrow> 'e + 'p) \<Rightarrow> ('p \<Rightarrow> int \<Rightarrow> int \<Rightarrow> 'e option) \<Rightarrow> 'g intent_op \<Rightarrow> 'g intent_store \<Rightarrow>
     ('g intent_store \<times> bool \<times> 'e option) option" where
  "process_op gen write p st =
     (case po_kind p of
        intentSubscribe \<Rightarrow> processSubscribe gen write p st
      | intentUnsubscribe \<Rightarrow> Some (processUnsubscribe gen write p st))"

section \<open>The abstract set of keys\<close>

text \<open>The state of one key after the pending operations.\<close>

lemma apply_op_last:
  "k \<in> fold apply_op ps ks \<longleftrightarrow>
     (case find (\<lambda>p. po_key p = k) (rev ps) of Some p \<Rightarrow> po_kind p = intentSubscribe | None \<Rightarrow> k \<in> ks)"
proof (induction ps rule: rev_induct)
  case (snoc p ps)
  then show ?case by (cases "po_key p = k"; cases "po_kind p") (simp_all add: apply_op_def)
qed simp

lemma isLogicallySubscribed_iff: "isLogicallySubscribed k st \<longleftrightarrow> k \<in> logicalKeys st"
  by (simp add: isLogicallySubscribed_def logicalKeys_def apply_op_last domIff split: option.split)

lemma apply_op_outside: "k \<notin> po_key ` set ps \<Longrightarrow> k \<in> fold apply_op ps ks \<longleftrightarrow> k \<in> ks"
  by (induction ps arbitrary: ks) (auto simp: apply_op_def split: intent_kind.splits)

lemma apply_op_inside: "k \<in> po_key ` set ps \<Longrightarrow> k \<in> fold apply_op ps ks \<longleftrightarrow> k \<in> fold apply_op ps ks'"
  by (induction ps arbitrary: ks ks' rule: rev_induct) (auto simp: apply_op_def split: intent_kind.splits)

definition store_ok :: "'g intent_store \<Rightarrow> bool" where
  "store_ok st \<longleftrightarrow> distinct (is_desiredOrder st) \<and> set (is_desiredOrder st) = dom (is_desired st)"

lemma store_ok_new [simp]: "store_ok newIntentStore"
  by (simp add: store_ok_def newIntentStore_def)

lemma store_ok_upsert [simp]: "store_ok st \<Longrightarrow> store_ok (upsertDesired k i st)"
  by (auto simp: store_ok_def upsertDesired_def)

lemma store_ok_remove [simp]: "store_ok st \<Longrightarrow> store_ok (removeDesired k st)"
  by (auto simp: store_ok_def removeDesired_def)

lemma store_ok_pop [simp]: "store_ok (popFront st) = store_ok st"
  by (simp add: store_ok_def popFront_def)

lemma settle_facts:
  "store_ok st \<Longrightarrow> store_ok (settle p st)" "is_pending (settle p st) = is_pending st"
  "dom (is_desired (settle p st)) = apply_op p (dom (is_desired st))"
  by (auto simp: settle_def apply_op_def upsertDesired_def removeDesired_def store_ok_def split: intent_kind.split)

lemma settle_fold:
  "store_ok st \<Longrightarrow> store_ok (fold settle ps st) \<and> dom (is_desired (fold settle ps st)) = fold apply_op ps (dom (is_desired st))"
  by (induction ps arbitrary: st) (simp_all add: settle_facts)

lemma replay_ops_facts:
  "set keys \<subseteq> dom d \<Longrightarrow> map po_key (replay_ops keys d) = keys"
  "p \<in> set (replay_ops keys d) \<Longrightarrow> po_kind p = intentSubscribe"
  by (induction keys) (auto split: option.splits)

lemma fold_subscribes:
  "\<forall>p\<in>set ps. po_kind p = intentSubscribe \<Longrightarrow> fold apply_op ps ks = ks \<union> po_key ` set ps"
  by (induction ps arbitrary: ks) (auto simp: apply_op_def)

lemma reset_facts:
  assumes "store_ok st"
  shows "store_ok (resetForReconnect st)" "dom (is_desired (resetForReconnect st)) = logicalKeys st"
    "map po_key (is_pending (resetForReconnect st)) = is_desiredOrder (resetForReconnect st)"
    "\<forall>p\<in>set (is_pending (resetForReconnect st)). po_kind p = intentSubscribe"
proof -
  let ?s = "fold settle (is_pending st) st"
  have ok: "store_ok ?s" and d: "dom (is_desired ?s) = logicalKeys st"
    using settle_fold [OF assms, of "is_pending st"] by (simp_all add: logicalKeys_def)
  then show "store_ok (resetForReconnect st)" "dom (is_desired (resetForReconnect st)) = logicalKeys st"
    by (simp_all add: resetForReconnect_def Let_def store_ok_def)
  have "set (is_desiredOrder ?s) \<subseteq> dom (is_desired ?s)" using ok by (simp add: store_ok_def)
  then show "map po_key (is_pending (resetForReconnect st)) = is_desiredOrder (resetForReconnect st)"
    by (simp add: resetForReconnect_def Let_def replay_ops_facts(1))
  show "\<forall>p\<in>set (is_pending (resetForReconnect st)). po_kind p = intentSubscribe"
    by (auto simp: resetForReconnect_def Let_def dest: replay_ops_facts(2))
qed

lemma logical_reset:
  assumes "store_ok st"
  shows "logicalKeys (resetForReconnect st) = logicalKeys st"
proof -
  let ?r = "resetForReconnect st"
  have "po_key ` set (is_pending ?r) = logicalKeys st"
    using reset_facts [OF assms] by (metis list.set_map store_ok_def)
  then show ?thesis
    using reset_facts [OF assms] by (simp add: logicalKeys_def [of ?r] fold_subscribes)
qed

end
