(* ===== verification/WS_Replay_Sync.thy ===== *)
theory WS_Replay_Sync
  imports WS_Replay
begin

text \<open>
  The replaying transport at work: callers that record intents and wake the session, the write
  loop of the live session that drains the log, and the supervisor that attaches and detaches
  sessions (\<open>replay.go\<close>, \<open>store.go\<close>, and of \<open>session.go\<close> and \<open>supervisor.go\<close> the wake-up
  channel and the attach and detach sequences). A step is one critical section of the store,
  one channel operation or one write. The store lock is released between looking at the front
  of the log and confirming it, so callers record in between.

  Sessions are numbered. \<open>sn_written\<close> logs the operations written in the current session, and
  \<open>sn_skipped\<close> the keys of operations that were dropped because their generator failed or is
  missing; both are observations of the model. Payloads and errors are strings here.
\<close>

section \<open>The system\<close>

record 'g replay_sys =
  sn_store :: "'g intent_store"
  sn_active :: "nat option"
  sn_next :: nat
  sn_live :: bool
  sn_signal :: bool
  sn_draining :: bool
  sn_inflight :: "'g intent_op option"
  sn_failed :: bool
  sn_unloaded :: nat
  sn_loaded :: "nat list"
  sn_written :: "'g intent_op list"
  sn_skipped :: "string set"

definition new_replay :: "'g replay_sys" where
  "new_replay = \<lparr>sn_store = newIntentStore, sn_active = None, sn_next = 0, sn_live = False, sn_signal = False,
     sn_draining = False, sn_inflight = None, sn_failed = False, sn_unloaded = 0, sn_loaded = [], sn_written = [],
     sn_skipped = {}\<rparr>"

definition replay_record :: "'g intent_store \<times> bool \<Rightarrow> 'g replay_sys \<Rightarrow> 'g replay_sys" where
  "replay_record r y = y\<lparr>sn_store := fst r, sn_unloaded := (if snd r then Suc (sn_unloaded y) else sn_unloaded y)\<rparr>"

definition replay_Subscribe :: "string \<Rightarrow> 'g option \<Rightarrow> (sub_options \<Rightarrow> sub_options) list \<Rightarrow> 'g replay_sys \<Rightarrow> 'g replay_sys" where
  "replay_Subscribe key gen opts y =
     replay_record (recordSubscribe key (buildWriteIntent gen (buildSubOptions opts)) (sn_store y)) y"

definition replay_Unsubscribe :: "string \<Rightarrow> 'g option \<Rightarrow> (sub_options \<Rightarrow> sub_options) list \<Rightarrow> 'g replay_sys \<Rightarrow> 'g replay_sys" where
  "replay_Unsubscribe key gen opts y =
     replay_record (recordUnsubscribe key (buildWriteIntent gen (buildSubOptions opts)) (sn_store y)) y"

definition onReady :: "'g replay_sys \<Rightarrow> 'g replay_sys" where
  "onReady y = y\<lparr>sn_store := resetForReconnect (sn_store y), sn_live := True, sn_signal := True, sn_draining := False,
     sn_inflight := None, sn_failed := False, sn_written := [], sn_skipped := {}\<rparr>"

definition finish_op :: "'g intent_op \<Rightarrow> 'g intent_store \<times> bool \<times> 'e option \<Rightarrow> 'g replay_sys \<Rightarrow> 'g replay_sys" where
  "finish_op p r y =
     (case r of (st, written, err) \<Rightarrow>
        y\<lparr>sn_store := st, sn_inflight := None,
          sn_written := (if written then sn_written y @ [p] else sn_written y),
          sn_skipped := (if \<not> written \<and> err = None then insert (po_key p) (sn_skipped y) else sn_skipped y),
          sn_failed := (sn_failed y \<or> err \<noteq> None), sn_draining := (err = None)\<rparr>)"

inductive replay_step :: "'g replay_sys \<Rightarrow> 'g replay_sys \<Rightarrow> bool" where
  rs_subscribe: "replay_step y (replay_Subscribe key gen opts y)"
| rs_unsubscribe: "replay_step y (replay_Unsubscribe key gen opts y)"
| rs_load: "sn_unloaded y = Suc n \<Longrightarrow>
    replay_step y (y\<lparr>sn_unloaded := n,
      sn_loaded := (case sn_active y of None \<Rightarrow> sn_loaded y | Some s \<Rightarrow> s # sn_loaded y)\<rparr>)"
| rs_wake: "s \<in> set (sn_loaded y) \<Longrightarrow>
    replay_step y (y\<lparr>sn_loaded := remove1 s (sn_loaded y),
      sn_signal := (sn_signal y \<or> sn_active y = Some s)\<rparr>)"
| rs_attach: "sn_active y = None \<Longrightarrow> \<not> sn_live y \<Longrightarrow>
    replay_step y (y\<lparr>sn_active := Some (sn_next y), sn_next := Suc (sn_next y)\<rparr>)"
| rs_ready: "sn_active y \<noteq> None \<Longrightarrow> \<not> sn_live y \<Longrightarrow> replay_step y (onReady y)"
| rs_drain: "sn_live y \<Longrightarrow> sn_signal y \<Longrightarrow> \<not> sn_draining y \<Longrightarrow>
    replay_step y (y\<lparr>sn_signal := False, sn_draining := True\<rparr>)"
| rs_peek: "sn_draining y \<Longrightarrow> sn_inflight y = None \<Longrightarrow> peekFront (sn_store y) = Some p \<Longrightarrow>
    replay_step y (y\<lparr>sn_inflight := Some p\<rparr>)"
| rs_drained: "sn_draining y \<Longrightarrow> sn_inflight y = None \<Longrightarrow> peekFront (sn_store y) = None \<or> sn_failed y \<Longrightarrow>
    replay_step y (y\<lparr>sn_draining := False\<rparr>)"
| rs_process: "sn_inflight y = Some p \<Longrightarrow> process_op (gen :: 'g \<Rightarrow> string + string) wr p (sn_store y) = Some r \<Longrightarrow>
    replay_step y (finish_op p r y)"
| rs_close: "sn_live y \<Longrightarrow> replay_step y (y\<lparr>sn_failed := True, sn_active := None\<rparr>)"
| rs_detached: "sn_live y \<Longrightarrow> sn_active y = None \<Longrightarrow> sn_inflight y = None \<Longrightarrow>
    replay_step y (y\<lparr>sn_live := False, sn_draining := False, sn_signal := False\<rparr>)"

section \<open>The invariant\<close>

definition served :: "'g intent_op list \<Rightarrow> string set" where
  "served ps = fold apply_op ps {}"

definition replay_ok :: "'g replay_sys \<Rightarrow> bool" where
  "replay_ok y \<longleftrightarrow>
     store_ok (sn_store y) \<and>
     (\<forall>p. sn_inflight y = Some p \<longrightarrow> sn_live y \<and> sn_draining y \<and> peekFront (sn_store y) = Some p) \<and>
     (sn_draining y \<longrightarrow> sn_live y) \<and>
     (sn_live y \<and> \<not> sn_failed y \<longrightarrow> sn_active y \<noteq> None) \<and>
     (sn_live y \<and> \<not> sn_failed y \<and> is_pending (sn_store y) \<noteq> [] \<longrightarrow>
        sn_signal y \<or> sn_draining y \<or> 0 < sn_unloaded y \<or> the (sn_active y) \<in> set (sn_loaded y)) \<and>
     (sn_live y \<and> \<not> sn_failed y \<longrightarrow>
        (\<forall>k. k \<notin> sn_skipped y \<longrightarrow> k \<notin> po_key ` set (is_pending (sn_store y)) \<longrightarrow>
          (k \<in> served (sn_written y) \<longleftrightarrow> k \<in> dom (is_desired (sn_store y)))))"

text \<open>The effects of the operations on the parts that the invariant sees.\<close>

lemma record_facts:
  assumes "r = recordSubscribe k i st \<or> r = recordUnsubscribe k i st"
  shows "is_desired (fst r) = is_desired st" "store_ok st \<Longrightarrow> store_ok (fst r)"
    "po_key ` set (is_pending st) \<subseteq> po_key ` set (is_pending (fst r))"
    "peekFront st = Some p \<Longrightarrow> peekFront (fst r) = Some p"
    "snd r \<or> fst r = st"
  using assms
  by (auto simp: recordSubscribe_def recordUnsubscribe_def store_ok_def peekFront_def split: if_splits list.splits)

lemma replay_ok_record:
  assumes "replay_ok y" "r = recordSubscribe k i (sn_store y) \<or> r = recordUnsubscribe k i (sn_store y)"
  shows "replay_ok (replay_record r y)"
  using assms(1) record_facts [OF assms(2)]
  unfolding replay_ok_def replay_record_def by (cases "snd r") (auto 4 3)

lemma process_facts:
  assumes "process_op gen wr p st = Some (st', written, err)" "peekFront st = Some p"
  shows "store_ok st \<Longrightarrow> store_ok st'" "is_pending st = p # is_pending st' \<or> is_pending st = is_pending st'"
    "err = None \<Longrightarrow> is_pending st = p # is_pending st'"
    "written \<Longrightarrow> dom (is_desired st') = apply_op p (dom (is_desired st))"
    "k \<noteq> po_key p \<Longrightarrow> k \<in> dom (is_desired st') \<longleftrightarrow> k \<in> dom (is_desired st)"
    "written \<Longrightarrow> err = None"
  using assms
  by (auto simp: process_op_def processSubscribe_def processUnsubscribe_def discardFront_def confirmSubscribe_def
      confirmUnsubscribe_def popFront_def upsertDesired_def removeDesired_def apply_op_def peekFront_def store_ok_def
      split: intent_kind.splits option.splits sum.splits list.splits if_splits)

lemma process_result:
  assumes "process_op gen wr p st = Some (st', written, err)"
  shows "st' = popFront (settle p st) \<and> (written \<or> po_kind p = intentUnsubscribe) \<or> st' = st \<and> err \<noteq> None \<or>
    st' = popFront st \<and> \<not> written \<and> err = None \<and> po_kind p = intentSubscribe"
  using assms
  by (auto simp: process_op_def processSubscribe_def processUnsubscribe_def discardFront_def confirmSubscribe_def
      confirmUnsubscribe_def settle_def split: intent_kind.splits option.splits sum.splits)

lemma replay_ok_process:
  assumes ok: "replay_ok y" and p: "sn_inflight y = Some p"
    and r: "process_op gen wr p (sn_store y) = Some (st', written, err)"
  shows "replay_ok (finish_op p (st', written, err) y)"
proof -
  have front: "peekFront (sn_store y) = Some p" and live: "sn_live y" and st: "store_ok (sn_store y)"
    using ok p by (auto simp: replay_ok_def)
  note f = process_facts [OF r front]
  have "k \<in> served (if written then sn_written y @ [p] else sn_written y) \<longleftrightarrow> k \<in> dom (is_desired st')"
    if fine: "\<not> sn_failed y" "err = None" "k \<notin> (if \<not> written then insert (po_key p) (sn_skipped y) else sn_skipped y)"
      "k \<notin> po_key ` set (is_pending st')" for k
  proof (cases "k = po_key p")
    case True
    with fine have "written" by (auto split: if_splits)
    with f(4) True show ?thesis by (auto simp: served_def apply_op_def split: intent_kind.splits)
  next
    case False
    have "k \<notin> po_key ` set (is_pending (sn_store y))" using f(3) fine False by auto
    with ok live fine have "k \<in> served (sn_written y) \<longleftrightarrow> k \<in> dom (is_desired (sn_store y))"
      by (auto simp: replay_ok_def split: if_splits)
    moreover have "k \<in> served (sn_written y @ [p]) \<longleftrightarrow> k \<in> served (sn_written y)"
      using False by (auto simp: served_def apply_op_def split: intent_kind.splits)
    ultimately show ?thesis using f(5) [OF False] by simp
  qed
  then show ?thesis
    using ok live f(1) [OF st] unfolding replay_ok_def finish_op_def by auto
qed

lemma replay_ok_ready:
  assumes ok: "replay_ok y" and "sn_active y \<noteq> None"
  shows "replay_ok (onReady y)"
proof -
  have st: "store_ok (sn_store y)" using ok by (simp add: replay_ok_def)
  note r = reset_facts [OF st]
  have "po_key ` set (is_pending (resetForReconnect (sn_store y))) = dom (is_desired (resetForReconnect (sn_store y)))"
    using r by (metis list.set_map store_ok_def)
  then show ?thesis
    using assms r(1) by (auto simp: replay_ok_def onReady_def served_def)
qed

lemma replay_ok_step:
  assumes "replay_step y y'" "replay_ok y"
  shows "replay_ok y'"
  using assms
proof cases
  case (rs_subscribe key gen opts)
  then show ?thesis using assms(2) by (auto simp: replay_Subscribe_def intro: replay_ok_record)
next
  case (rs_unsubscribe key gen opts)
  then show ?thesis using assms(2) by (auto simp: replay_Unsubscribe_def intro: replay_ok_record)
next
  case (rs_load n)
  then show ?thesis using assms(2) by (auto simp: replay_ok_def split: option.splits)
next
  case (rs_wake s)
  then show ?thesis using assms(2)
    by (cases "sn_active y = Some s") (auto simp: replay_ok_def in_set_remove1)
next
  case (rs_process p gen wr r)
  then show ?thesis using assms(2) replay_ok_process by (cases r) auto
next
  case rs_ready
  then show ?thesis using assms(2) replay_ok_ready by auto
next
  case rs_drained
  then show ?thesis using assms(2) by (auto simp: replay_ok_def peekFront_def split: list.splits)
qed (use assms(2) in \<open>auto simp: replay_ok_def\<close>)

lemma replay_ok_new: "replay_ok new_replay"
  by (simp add: replay_ok_def new_replay_def)

interpretation ws_replay: invariant_system "\<lambda>y. y = new_replay" replay_step replay_ok
  by unfold_locales (auto intro: replay_ok_new replay_ok_step)

section \<open>Properties\<close>

text \<open>C32. The intent log refines the set of keys that the callers want (\<open>logicalKeys\<close>): a subscribe is
  recorded exactly for a key that is not in the set, and adds it; an unsubscribe exactly for a
  key in the set, and removes it; processing the front of the log and resetting it for a new
  session leave the set alone, except that a subscribe whose generator fails may lose its key.\<close>

theorem replay_store_refines:
  assumes "store_ok st"
  shows "snd (recordSubscribe k i st) = (k \<notin> logicalKeys st) \<and>
      logicalKeys (fst (recordSubscribe k i st)) = insert k (logicalKeys st) \<and>
    snd (recordUnsubscribe k i st) = (k \<in> logicalKeys st) \<and>
      logicalKeys (fst (recordUnsubscribe k i st)) = logicalKeys st - {k} \<and>
    logicalKeys (resetForReconnect st) = logicalKeys st \<and>
    (\<forall>p st' written err. peekFront st = Some p \<and> process_op gen wr p st = Some (st', written, err) \<longrightarrow>
      (if written \<or> err \<noteq> None \<or> po_kind p = intentUnsubscribe then logicalKeys st' = logicalKeys st
       else logicalKeys st - {po_key p} \<subseteq> logicalKeys st' \<and> logicalKeys st' \<subseteq> logicalKeys st))"
proof -
  have rec: "logicalKeys (fst (recordSubscribe k i st)) = insert k (logicalKeys st)"
    "logicalKeys (fst (recordUnsubscribe k i st)) = logicalKeys st - {k}"
    by (auto simp: recordSubscribe_def recordUnsubscribe_def isLogicallySubscribed_iff)
      (auto simp: logicalKeys_def apply_op_def)
  have step: "if written \<or> err \<noteq> None \<or> po_kind p = intentUnsubscribe then logicalKeys st' = logicalKeys st
       else logicalKeys st - {po_key p} \<subseteq> logicalKeys st' \<and> logicalKeys st' \<subseteq> logicalKeys st"
    if p: "peekFront st = Some p" and r: "process_op gen wr p st = Some (st', written, err)" for p st' written err
  proof -
    obtain ps where ps: "is_pending st = p # ps" using p by (auto simp: peekFront_def split: list.splits)
    have conf: "logicalKeys (popFront (settle p st)) = logicalKeys st"
      using settle_facts(3) [of p st] settle_facts(2) [of p st] ps by (simp add: logicalKeys_def popFront_def)
    have drop: "logicalKeys st - {po_key p} \<subseteq> logicalKeys (popFront st)"
      "po_kind p = intentSubscribe \<Longrightarrow> logicalKeys (popFront st) \<subseteq> logicalKeys st"
      by (auto simp: logicalKeys_def popFront_def ps apply_op_last apply_op_def split: option.splits intent_kind.splits)
    from process_result [OF r] conf drop show ?thesis by (elim disjE conjE; simp)
  qed
  have "snd (recordSubscribe k i st) = (k \<notin> logicalKeys st)" "snd (recordUnsubscribe k i st) = (k \<in> logicalKeys st)"
    by (simp_all add: recordSubscribe_def recordUnsubscribe_def isLogicallySubscribed_iff)
  with rec logical_reset [OF assms] step show ?thesis by blast
qed

text \<open>C33. The broker is in step with the callers. In every interleaving of callers, write loop and
  reconnects: once the transport is quiet (a live session without write error, no pending
  wake-up, no caller between recording and waking), the log is empty, and the subscriptions
  written in this session, replayed ones included, are exactly the keys that the callers want,
  apart from keys whose generator failed. No wake-up is lost.\<close>

theorem replay_session_in_sync:
  assumes "replay_step\<^sup>*\<^sup>* new_replay y"
    and "sn_live y" "\<not> sn_failed y"
    and "\<not> sn_signal y" "\<not> sn_draining y" "sn_unloaded y = 0" "sn_loaded y = []"
  shows "is_pending (sn_store y) = [] \<and>
    (\<forall>k. k \<notin> sn_skipped y \<longrightarrow> (k \<in> served (sn_written y) \<longleftrightarrow> k \<in> logicalKeys (sn_store y)))"
proof -
  have ok: "replay_ok y" using ws_replay.ok_reachable assms(1) by blast
  then have empty: "is_pending (sn_store y) = []" using assms(2-7) by (auto simp: replay_ok_def)
  moreover have "logicalKeys (sn_store y) = dom (is_desired (sn_store y))" by (simp add: logicalKeys_def empty)
  ultimately show ?thesis using ok assms(2,3) by (auto simp: replay_ok_def)
qed

text \<open>A run: a subscription recorded before the first connection, written in the first session,
  and written again in the second.\<close>

datatype replay_choice = RSubscribe string | RLoad | RAttach | RReady | RDrain | RWrite | RDrained | RClose | RDetached

fun replay_exec :: "replay_choice \<Rightarrow> unit replay_sys \<Rightarrow> unit replay_sys option" where
  "replay_exec (RSubscribe k) y = Some (replay_Subscribe k (Some ()) [] y)"
| "replay_exec RLoad y = (case sn_unloaded y of 0 \<Rightarrow> None
     | Suc n \<Rightarrow> Some (y\<lparr>sn_unloaded := n,
         sn_loaded := (case sn_active y of None \<Rightarrow> sn_loaded y | Some s \<Rightarrow> s # sn_loaded y)\<rparr>))"
| "replay_exec RAttach y = (if sn_active y \<noteq> None \<or> sn_live y then None
     else Some (y\<lparr>sn_active := Some (sn_next y), sn_next := Suc (sn_next y)\<rparr>))"
| "replay_exec RReady y = (if sn_active y = None \<or> sn_live y then None else Some (onReady y))"
| "replay_exec RDrain y = (if sn_live y \<and> sn_signal y \<and> \<not> sn_draining y
     then Some (y\<lparr>sn_signal := False, sn_draining := True\<rparr>) else None)"
| "replay_exec RWrite y = (if \<not> sn_draining y \<or> sn_inflight y \<noteq> None then None
     else case peekFront (sn_store y) of None \<Rightarrow> None
       | Some p \<Rightarrow> map_option (\<lambda>r. finish_op p r (y\<lparr>sn_inflight := Some p\<rparr>))
           (process_op (\<lambda>_. Inr ''frame'') (\<lambda>_ _ _. None :: string option) p (sn_store y)))"
| "replay_exec RDrained y = (if sn_draining y \<and> sn_inflight y = None \<and> peekFront (sn_store y) = None
     then Some (y\<lparr>sn_draining := False\<rparr>) else None)"
| "replay_exec RClose y = (if sn_live y then Some (y\<lparr>sn_failed := True, sn_active := None\<rparr>) else None)"
| "replay_exec RDetached y = (if sn_live y \<and> sn_active y = None \<and> sn_inflight y = None
     then Some (y\<lparr>sn_live := False, sn_draining := False, sn_signal := False\<rparr>) else None)"

lemma replay_exec_steps: "replay_exec c y = Some y' \<Longrightarrow> replay_step\<^sup>*\<^sup>* y y'"
proof (cases c)
  case RWrite
  assume "replay_exec c y = Some y'"
  with RWrite obtain p r where p: "sn_draining y" "sn_inflight y = None" "peekFront (sn_store y) = Some p"
    and r: "process_op (\<lambda>_. Inr ''frame'') (\<lambda>_ _ _. None :: string option) p (sn_store y) = Some r"
    and y': "y' = finish_op p r (y\<lparr>sn_inflight := Some p\<rparr>)"
    by (auto split: if_splits option.splits)
  have "replay_step y (y\<lparr>sn_inflight := Some p\<rparr>)" by (rule rs_peek) (fact p)+
  moreover have "replay_step (y\<lparr>sn_inflight := Some p\<rparr>) y'" unfolding y' by (rule rs_process, simp) (simp, rule r)
  ultimately show ?thesis by (meson r_into_rtranclp rtranclp.rtrancl_into_rtrancl)
qed (auto intro!: r_into_rtranclp intro: replay_step.intros split: if_splits nat.splits)

definition replay_run :: "replay_choice list \<Rightarrow> unit replay_sys option" where
  "replay_run cs = foldl (\<lambda>r c. case r of None \<Rightarrow> None | Some y \<Rightarrow> replay_exec c y) (Some new_replay) cs"

lemma replay_run_steps: "replay_run cs = Some y \<Longrightarrow> replay_step\<^sup>*\<^sup>* new_replay y"
proof (induction cs arbitrary: y rule: rev_induct)
  case (snoc c cs)
  then show ?case
    by (auto simp: replay_run_def split: option.splits intro: rtranclp_trans dest: replay_exec_steps)
qed (simp add: replay_run_def)

definition two_sessions :: "replay_choice list" where
  "two_sessions = [RSubscribe ''a'', RLoad, RAttach, RReady, RDrain, RWrite, RDrained, RClose, RDetached,
     RAttach, RReady, RDrain, RWrite, RDrained]"

lemmas replay_run_defs = replay_run_def two_sessions_def new_replay_def newIntentStore_def replay_Subscribe_def
  replay_record_def recordSubscribe_def isLogicallySubscribed_def onReady_def resetForReconnect_def settle_def
  upsertDesired_def peekFront_def process_op_def processSubscribe_def confirmSubscribe_def popFront_def
  finish_op_def buildWriteIntent_def buildSubOptions_def Let_def

theorem replay_session_in_sync_witness:
  "\<exists>y. replay_run two_sessions = Some y \<and> sn_next y = 2 \<and> served (sn_written y) = logicalKeys (sn_store y) \<and>
     ''a'' \<in> logicalKeys (sn_store y)"
proof -
  obtain y where y: "replay_run two_sessions = Some y"
    and q: "sn_live y" "\<not> sn_failed y" "\<not> sn_signal y" "\<not> sn_draining y" "sn_unloaded y = 0" "sn_loaded y = []"
      "sn_skipped y = {}" "sn_next y = 2" "is_desired (sn_store y) ''a'' \<noteq> None"
    by (simp add: replay_run_defs)
  from replay_session_in_sync [OF replay_run_steps [OF y] q(1-6)] q(7-9) y show ?thesis
    by (auto simp: logicalKeys_def)
qed

definition sample_intent :: "unit replay_intent" where
  "sample_intent = buildWriteIntent (Some ()) (buildSubOptions [WithWriteTimeout 5])"

theorem replay_store_refines_witness:
  "snd (recordSubscribe ''a'' sample_intent newIntentStore) \<and> \<not> snd (recordUnsubscribe ''a'' sample_intent newIntentStore)"
  using replay_store_refines [OF store_ok_new, of "''a''" sample_intent, where gen = "\<lambda>_. Inl ()" and wr = "\<lambda>_ :: unit. \<lambda>_ _. None"]
  by (simp add: logicalKeys_def newIntentStore_def)

end
