(* ===== verification/Backoff.thy ===== *)
theory Backoff
  imports Go_Float "HOL-Library.Signed_Division"
begin

text \<open>
  The reconnect delays: \<open>calcReconnectDelay\<close> of \<open>internal/core/pkg/wsrefact_v6/ioworker.go\<close> and
  \<open>calcBackoff\<close> of \<open>internal/core/pkg/websocket/supervisor\<close>, in \<open>float64\<close> arithmetic. A duration
  is its number of nanoseconds; \<open>r\<close> is the answer of \<open>rand.Float64\<close>, in [0, 1). A power of two
  beyond the range of \<open>float64\<close> is infinite in Go and exact here; both are above every maximum.
\<close>

definition calcReconnectDelay :: "(rat \<Rightarrow> int) \<Rightarrow> int \<Rightarrow> int \<Rightarrow> rat \<Rightarrow> int \<Rightarrow> int" where
  "calcReconnectDelay impl reconnectMin reconnectMax r attempt =
     (if attempt \<le> 0 \<or> reconnectMin \<le> 0 then 0
      else let unclamped = fl_mult (fl64 (of_int reconnectMin)) (two_powi (attempt - 1));
               baseDelay = (if 0 < reconnectMax \<and> fl64 (of_int reconnectMax) < unclamped
                            then fl64 (of_int reconnectMax) else unclamped);
               jitter = fl_mult (fl_mult baseDelay (1 / 4)) r
           in float_to_int64 impl (fl64 (baseDelay + jitter)))"

definition duration_seconds :: "int \<Rightarrow> rat" where
  "duration_seconds d =
     fl64 (fl64 (of_int (d sdiv 1000000000)) + fl64 (fl64 (of_int (d smod 1000000000)) / 1000000000))"

definition calcBackoff :: "(rat \<Rightarrow> int) \<Rightarrow> int \<Rightarrow> int \<Rightarrow> rat \<Rightarrow> int \<Rightarrow> int" where
  "calcBackoff impl reconnectMin reconnectMax r attempt =
     (let minSeconds = duration_seconds reconnectMin;
          maxSeconds = duration_seconds reconnectMax;
          unclamped = fl_mult minSeconds (two_powi (attempt - 1));
          backoffSeconds = (if maxSeconds < unclamped then maxSeconds else unclamped);
          jitter = fl_mult (fl_mult backoffSeconds (1 / 4)) r
      in float_to_int64 impl (fl_mult (fl64 (backoffSeconds + jitter)) 1000000000))"

section \<open>Rounding between representable numbers\<close>

lemma ulp_exp_le:
  assumes "0 < x" "x < two_powi k" "- 1074 \<le> k - 53"
  shows "ulp_exp x \<le> k - 53"
proof -
  have "ilog2 x < k" using two_powi_mono_iff ilog2_lower [OF assms(1)] assms(2) by (meson le_less_trans)
  then show ?thesis using assms by (simp add: ulp_exp_def)
qed

lemma two_powi_quotient: "e \<le> f \<Longrightarrow> \<exists>n. two_powi f / two_powi e = of_int n"
proof -
  assume "e \<le> f"
  then have "two_powi f / two_powi e = two_powi (f - e)"
    by (metis add_diff_cancel_left' diff_add_cancel nonzero_mult_div_cancel_left two_powi_add two_powi_nonzero add.commute)
  also have "\<dots> = of_int (2 ^ nat (f - e))" using \<open>e \<le> f\<close> by (simp add: two_powi_def)
  finally show ?thesis by blast
qed

lemma round_even_bounds:
  "of_int m \<le> y \<Longrightarrow> m \<le> round_even y" "y \<le> of_int m \<Longrightarrow> round_even y \<le> m"
  by (auto simp: round_even_def Let_def floor_le_iff le_floor_iff) linarith+

lemma fl64_between:
  assumes x: "0 < x" "x < two_powi k" "- 1074 \<le> k - 53"
  shows "of_int m * two_powi (k - 53) \<le> x \<Longrightarrow> of_int m * two_powi (k - 53) \<le> fl64 x"
    and "x \<le> of_int m * two_powi (k - 53) \<Longrightarrow> fl64 x \<le> of_int m * two_powi (k - 53)"
proof -
  define u where "u = two_powi (ulp_exp x)"
  obtain n where n: "two_powi (k - 53) / u = of_int n"
    using two_powi_quotient [OF ulp_exp_le [OF assms]] by (auto simp: u_def)
  have u: "0 < u" by (simp add: u_def)
  have q: "of_int m * two_powi (k - 53) = of_int (m * n) * u"
    using n u by (simp add: field_simps)
  have fl: "fl64 x = of_int (round_even (x / u)) * u" using x by (simp add: fl64_def u_def)
  have scale: "of_int a * u \<le> of_int b * u" if "a \<le> b" for a b using that u by simp
  show "of_int m * two_powi (k - 53) \<le> fl64 x" if "of_int m * two_powi (k - 53) \<le> x"
  proof -
    have "of_int (m * n) \<le> x / u" using that u unfolding q by (simp add: pos_le_divide_eq)
    from scale [OF round_even_bounds(1) [OF this]] show ?thesis unfolding q fl .
  qed
  show "fl64 x \<le> of_int m * two_powi (k - 53)" if "x \<le> of_int m * two_powi (k - 53)"
  proof -
    have "x / u \<le> of_int (m * n)" using that u unfolding q by (simp add: pos_divide_le_eq)
    from scale [OF round_even_bounds(2) [OF this]] show ?thesis unfolding q fl .
  qed
qed

section \<open>Bounds\<close>

text \<open>C31. The delay before a reconnect attempt of the multiplexer: it starts at \<open>reconnectMin\<close>, doubles
  with every attempt up to \<open>reconnectMax\<close>, and the jitter adds at most a quarter; float
  rounding never takes it below the nominal delay. (The maximum is below 13 days.)\<close>

theorem reconnect_delay_bounds:
  assumes "1 \<le> attempt" and "0 < reconnectMin" "reconnectMin \<le> reconnectMax" "reconnectMax < 2 ^ 50"
    and "0 \<le> r" "r < 1"
  shows "let nominal = min (reconnectMin * 2 ^ nat (attempt - 1)) reconnectMax;
             delay = calcReconnectDelay impl reconnectMin reconnectMax r attempt
         in nominal \<le> delay \<and> delay \<le> nominal + nominal div 4"
proof -
  define N where "N = min (reconnectMin * 2 ^ nat (attempt - 1)) reconnectMax"
  have N: "1 \<le> N" "N < 2 ^ 50" using assms by (auto simp: N_def min_def int_one_le_iff_zero_less)
  have exact: "fl64 (of_int reconnectMin) = of_int reconnectMin" "fl64 (of_int reconnectMax) = of_int reconnectMax"
    using assms by (simp_all add: fl64_int)
  have "fl_mult (of_int reconnectMin) (two_powi (attempt - 1)) = of_int (reconnectMin * 2 ^ nat (attempt - 1))"
    using fl64_exact [of reconnectMin "attempt - 1"] assms by (simp add: fl_mult_def two_powi_def)
  then have base: "(if 0 < reconnectMax \<and> of_int reconnectMax < fl_mult (of_int reconnectMin) (two_powi (attempt - 1))
      then of_int reconnectMax else fl_mult (of_int reconnectMin) (two_powi (attempt - 1))) = (of_int N :: rat)"
    using assms by (simp only: of_int_less_iff) (auto simp: N_def min_def)
  have quarter: "two_powi (51 - 53) = 1 / 4" "two_powi (- 2) = 1 / 4" by (simp_all add: two_powi_def)
  have q: "fl_mult (of_int N) (1 / 4) = of_int N * (1 / 4)"
    using fl64_exact [of N "- 2"] N by (simp add: fl_mult_def quarter)
  define j where "j = fl_mult (of_int N * (1 / 4)) r"
  have j: "0 \<le> j \<and> j \<le> of_int N * (1 / 4)"
  proof (cases "r = 0")
    case False
    then have r: "0 < of_int N * (1 / 4) * r" using assms N by simp
    have le: "of_int N * (1 / 4) * r \<le> of_int N * (1 / 4)" using assms N by (simp add: mult_left_le)
    moreover have "(of_int N :: rat) < of_int (2 ^ 50)" using N by (simp only: of_int_less_iff)
    ultimately have "of_int N * (1 / 4) * r < two_powi 51" by (simp add: two_powi_def)
    from fl64_between [OF r this, of 0] fl64_between [OF r this, of N] r le assms show ?thesis
      unfolding j_def fl_mult_def quarter by simp
  qed (simp add: j_def fl_mult_def N order.trans [OF _ N(1)])
  define s where "s = fl64 (of_int N + j)"
  have s: "of_int N \<le> s" "s \<le> of_int (5 * N) / 4"
  proof -
    have N0: "(0 :: rat) < of_int N" "(of_int N :: rat) < of_int (2 ^ 50)" using N by (simp_all only: of_int_less_iff of_int_0_less_iff)
    then have x: "0 < of_int N + j" "of_int N + j < two_powi 51" using j by (simp_all add: two_powi_def)
    show "of_int N \<le> s" "s \<le> of_int (5 * N) / 4"
      using fl64_between(1) [OF x, of "4 * N"] fl64_between(2) [OF x, of "5 * N"] j unfolding s_def quarter by simp_all
  qed
  have "(attempt \<le> 0 \<or> reconnectMin \<le> 0) = False" using assms by simp
  then have delay: "calcReconnectDelay impl reconnectMin reconnectMax r attempt = float_to_int64 impl s"
    unfolding calcReconnectDelay_def Let_def exact base q j_def s_def by simp
  have "\<lfloor>s\<rfloor> \<le> \<lfloor>of_int (5 * N) / of_int 4 :: rat\<rfloor>" by (rule floor_mono) (use s in simp)
  then have "N \<le> \<lfloor>s\<rfloor>" "\<lfloor>s\<rfloor> \<le> 5 * N div 4"
    using s by (simp_all only: le_floor_iff floor_divide_of_int_eq)
  moreover have "trunc_rat s = \<lfloor>s\<rfloor>" using s N by (simp add: trunc_rat_def order.trans [OF _ s(1)])
  moreover have "5 * N div 4 = N + N div 4" by simp
  moreover have "N < 1125899906842624" using N by simp
  with calculation N(1) have "in64 (trunc_rat s)" unfolding in64_def by (intro conjI; linarith)
  ultimately show ?thesis
    unfolding delay float_to_int64_def N_def [symmetric] Let_def by simp
qed

theorem reconnect_delay_bounds_witness:
  "let delay = calcReconnectDelay (\<lambda>_. 0) 1000000000 60000000000 (1 / 2) 3
   in 4000000000 \<le> delay \<and> delay \<le> 5000000000"
  using reconnect_delay_bounds [of 3 1000000000 60000000000 "1 / 2" "\<lambda>_. 0"] by (simp add: Let_def)

end
