(* ===== verification/WS_Supervisor.thy ===== *)
theory WS_Supervisor
  imports WS_Common Backoff
begin

text \<open>
  The reconnecting transport below the replay log: \<open>internal/core/pkg/websocket\<close>, the defaults of
  \<open>connection.go\<close>, \<open>supervisor/supervisor.go\<close> (dial, session, backoff, events) and
  \<open>session/session.go\<close> (direct sends, payload writes, reading). Dialer, connection, contexts and
  clock are arguments: what they answer in one round of the reconnect loop is a \<open>sup_round\<close>.
  \<open>is_done\<close> tells whether an error is \<open>context.Canceled\<close> or \<open>context.DeadlineExceeded\<close> for
  \<open>errors.Is\<close>. The delay itself is \<open>calcBackoff\<close> of theory \<open>Backoff\<close>.
\<close>

section \<open>Configuration\<close>

record session_config =
  wc_MaxSendQueue :: int
  wc_PingInterval :: int
  wc_PongTimeout :: int
  wc_WriteTimeout :: int
  wc_ResponseTimeout :: int

definition second :: int where
  "second = 1000000000"

definition session_ApplyDefaults :: "session_config \<Rightarrow> session_config" where
  "session_ApplyDefaults c =
     (let ping = (if wc_PingInterval c < 0 then 0 else wc_PingInterval c)
      in \<lparr>wc_MaxSendQueue = (if wc_MaxSendQueue c \<le> 0 then 256 else wc_MaxSendQueue c),
          wc_PingInterval = ping,
          wc_PongTimeout = (if 0 < ping \<and> wc_PongTimeout c \<le> 0 then 10 * second else wc_PongTimeout c),
          wc_WriteTimeout = (if wc_WriteTimeout c \<le> 0 then 10 * second else wc_WriteTimeout c),
          wc_ResponseTimeout = (if wc_ResponseTimeout c \<le> 0 then 10 * second else wc_ResponseTimeout c)\<rparr>)"

record supervisor_config =
  sv_URL :: string
  sv_ReconnectMin :: int
  sv_ReconnectMax :: int
  sv_MaxMessageSize :: int
  sv_Session :: session_config

definition supervisor_applyDefaults :: "supervisor_config \<Rightarrow> 'e transport_error + supervisor_config" where
  "supervisor_applyDefaults c =
     (if sv_URL c = [] then Inl TransportURLRequired
      else Inr (c\<lparr>sv_MaxMessageSize := (if sv_MaxMessageSize c \<le> 0 then 65536 else sv_MaxMessageSize c),
        sv_ReconnectMin := (if sv_ReconnectMin c \<le> 0 then second else sv_ReconnectMin c),
        sv_ReconnectMax := (if sv_ReconnectMax c \<le> 0 then 60 * second else sv_ReconnectMax c),
        sv_Session := session_ApplyDefaults (sv_Session c)\<rparr>))"

text \<open>The facade fills in the same defaults before it builds the layers.\<close>

definition ws_applyDefaults :: "supervisor_config \<Rightarrow> supervisor_config" where
  "ws_applyDefaults c =
     c\<lparr>sv_MaxMessageSize := (if sv_MaxMessageSize c \<le> 0 then 65536 else sv_MaxMessageSize c),
       sv_ReconnectMin := (if sv_ReconnectMin c \<le> 0 then second else sv_ReconnectMin c),
       sv_ReconnectMax := (if sv_ReconnectMax c \<le> 0 then 60 * second else sv_ReconnectMax c),
       sv_Session := session_ApplyDefaults (sv_Session c)\<rparr>"

definition ws_New :: "supervisor_config \<Rightarrow> 'e transport_error + supervisor_config" where
  "ws_New c = supervisor_applyDefaults (ws_applyDefaults c)"

section \<open>The session\<close>

record send_request =
  sq_payload :: string
  sq_messageType :: int
  sq_writeTimeout :: int

datatype 'e wait_answer = GotResult "'e transport_error option" | WaitDeadline | WaitCancelled 'e | SessionDone

definition waitResponse :: "'e wait_answer \<Rightarrow> 'e transport_error option" where
  "waitResponse a =
     (case a of
        GotResult r \<Rightarrow> r
      | WaitDeadline \<Rightarrow> Some TransportResponseTimeout
      | WaitCancelled err \<Rightarrow> Some (TransportCause err)
      | SessionDone \<Rightarrow> Some TransportNotConnected)"

definition session_Send ::
    "session_config \<Rightarrow> send_request chan \<Rightarrow> string \<Rightarrow> int \<Rightarrow> 'e wait_answer \<Rightarrow>
     send_request chan \<times> 'e transport_error option" where
  "session_Send c ch payload messageType a =
     (case chan_send ch \<lparr>sq_payload = payload, sq_messageType = messageType, sq_writeTimeout = wc_WriteTimeout c\<rparr> of
        None \<Rightarrow> (ch, Some TransportQueueFull)
      | Some ch' \<Rightarrow> (ch', waitResponse a))"

definition supervisor_Send ::
    "session_config \<Rightarrow> send_request chan option \<Rightarrow> string \<Rightarrow> int \<Rightarrow> 'e wait_answer \<Rightarrow>
     send_request chan option \<times> 'e transport_error option" where
  "supervisor_Send c live payload messageType a =
     (case live of
        None \<Rightarrow> (None, Some TransportNotConnected)
      | Some ch \<Rightarrow> (case session_Send c ch payload messageType a of (ch', r) \<Rightarrow> (Some ch', r)))"

text \<open>A write is a frame with its type, its payload and the timeout of its deadline; \<open>answer\<close> is
  what the connection answers.\<close>

definition WritePayload ::
    "session_config \<Rightarrow> 'e option \<Rightarrow> string \<Rightarrow> int \<Rightarrow> int \<Rightarrow> (int \<times> string \<times> int) list \<Rightarrow>
     (int \<times> string \<times> int) list \<times> 'e option" where
  "WritePayload c answer payload messageType writeTimeout frames =
     (let timeout = (if writeTimeout \<le> 0 then wc_WriteTimeout c else writeTimeout)
      in case answer of
           None \<Rightarrow> (frames @ [(messageType, payload, timeout)], None)
         | Some err \<Rightarrow> (frames, Some err))"

definition handleSendRequest ::
    "session_config \<Rightarrow> 'e option \<Rightarrow> send_request \<Rightarrow> (int \<times> string \<times> int) list \<Rightarrow>
     (int \<times> string \<times> int) list \<times> 'e transport_error option" where
  "handleSendRequest c answer q frames =
     (case WritePayload c answer (sq_payload q) (sq_messageType q) (sq_writeTimeout q) frames of
        (frames', None) \<Rightarrow> (frames', None)
      | (frames', Some err) \<Rightarrow> (frames', Some (TransportOp ''write message'' err)))"

definition session_handlePing :: "session_config \<Rightarrow> 'e option \<Rightarrow> (int \<times> string \<times> int) list \<Rightarrow> (int \<times> string \<times> int) list" where
  "session_handlePing c answer frames = fst (WritePayload c answer [] 9 (wc_WriteTimeout c) frames)"

definition readMessage :: "'e option \<Rightarrow> 'e + string \<Rightarrow> 'e transport_error + string" where
  "readMessage ctx answer =
     (case answer of
        Inr payload \<Rightarrow> Inr payload
      | Inl err \<Rightarrow> Inl (case ctx of Some c \<Rightarrow> TransportCause c | None \<Rightarrow> TransportOp ''read message'' err))"

text \<open>\<open>Serve\<close>: the payloads that the handler receives, and the error that ends it.\<close>

fun session_Serve :: "('e option \<times> ('e + string)) list \<Rightarrow> string list \<times> 'e transport_error option" where
  "session_Serve [] = ([], None)"
| "session_Serve ((ctx, answer) # rest) =
     (case readMessage ctx answer of
        Inl err \<Rightarrow> ([], Some err)
      | Inr payload \<Rightarrow> (case session_Serve rest of (ps, r) \<Rightarrow> (payload # ps, r)))"

section \<open>The supervisor\<close>

record 'e sup_round =
  sr_waited :: bool
  sr_dial :: "'e option"
  sr_ctx_dial :: "'e option"
  sr_ctx_session :: "'e option"
  sr_ctx_failed :: "'e option"
  sr_read :: "'e transport_error"
  sr_ctx_read :: "'e option"
  sr_at_wait :: go_time
  sr_at_up :: go_time
  sr_at_down :: go_time

datatype 'e sup_output = SupState conn_state | SupEvent "'e transport_error conn_event" | SupReady int

datatype 'e connect_result = ConnectFailed "'e transport_error" | ConnectNothing | ConnectOk

datatype run_end = RunReturned | RunPanicked | RunGoesOn

fun err_done :: "('e \<Rightarrow> bool) \<Rightarrow> 'e transport_error \<Rightarrow> bool" where
  "err_done is_done (TransportOp _ err) = is_done err"
| "err_done is_done (TransportCause err) = is_done err"
| "err_done is_done _ = False"

definition isRunContextDone :: "('e \<Rightarrow> bool) \<Rightarrow> 'e option \<Rightarrow> 'e transport_error \<Rightarrow> bool" where
  "isRunContextDone is_done ctx err \<longleftrightarrow> ctx \<noteq> None \<or> err_done is_done err"

text \<open>\<open>connectSession\<close>: a dial error that counts as a finished context is answered with
  \<open>ctx.Err()\<close>, which is nil when the context is alive: then there is neither a session nor an
  error (\<open>ConnectNothing\<close>).\<close>

definition connectSession :: "('e \<Rightarrow> bool) \<Rightarrow> 'e sup_round \<Rightarrow> 'e connect_result" where
  "connectSession is_done r =
     (case sr_dial r of
        Some err \<Rightarrow>
          if isRunContextDone is_done (sr_ctx_dial r) (TransportCause err)
          then (case sr_ctx_dial r of Some c \<Rightarrow> ConnectFailed (TransportCause c) | None \<Rightarrow> ConnectNothing)
          else ConnectFailed (TransportOp ''dial connection'' err)
      | None \<Rightarrow> (case sr_ctx_session r of Some c \<Rightarrow> ConnectFailed (TransportCause c) | None \<Rightarrow> ConnectOk))"

definition emitConnected :: "go_time \<Rightarrow> int \<Rightarrow> 'e sup_output" where
  "emitConnected now attempt =
     SupEvent \<lparr>ce_Type = (if 0 < attempt then Reconnected else Connected), ce_Err = None, ce_Attempt = attempt, ce_At = now\<rparr>"

definition emitDisconnected :: "go_time \<Rightarrow> 'e transport_error \<Rightarrow> 'e sup_output" where
  "emitDisconnected now err = SupEvent \<lparr>ce_Type = Disconnected, ce_Err = Some err, ce_Attempt = 0, ce_At = now\<rparr>"

definition emitReconnecting :: "go_time \<Rightarrow> int \<Rightarrow> 'e sup_output" where
  "emitReconnecting now attempt =
     SupEvent \<lparr>ce_Type = Reconnecting, ce_Err = None, ce_Attempt = attempt, ce_At = now\<rparr>"

definition attachSession :: "go_time \<Rightarrow> int \<Rightarrow> 'e sup_output list" where
  "attachSession now attempt = [SupState ConnStateConnected, emitConnected now attempt, SupReady attempt]"

text \<open>The loop of \<open>Run\<close>. Without a session, \<open>attachSession\<close> announces the connection and its
  \<open>OnReady\<close> (or \<open>Serve\<close>, when there is no hook) dereferences the missing session.\<close>

fun supervisor_loop :: "('e \<Rightarrow> bool) \<Rightarrow> 'e sup_round list \<Rightarrow> int \<Rightarrow> 'e sup_output list \<times> run_end" where
  "supervisor_loop is_done [] attempt = ([], RunGoesOn)"
| "supervisor_loop is_done (r # rs) attempt =
     (let wait = (if attempt = 0 then [] else [emitReconnecting (sr_at_wait r) attempt])
      in if attempt \<noteq> 0 \<and> \<not> sr_waited r then (wait, RunReturned)
         else case connectSession is_done r of
           ConnectFailed err \<Rightarrow>
             if isRunContextDone is_done (sr_ctx_failed r) err then (wait, RunReturned)
             else (case supervisor_loop is_done rs (attempt + 1) of (out, e) \<Rightarrow> (wait @ out, e))
         | ConnectNothing \<Rightarrow> (wait @ [SupState ConnStateConnected, emitConnected (sr_at_up r) attempt], RunPanicked)
         | ConnectOk \<Rightarrow>
             (let session = attachSession (sr_at_up r) attempt @ [emitDisconnected (sr_at_down r) (sr_read r)]
              in if isRunContextDone is_done (sr_ctx_read r) (sr_read r) then (wait @ session, RunReturned)
                 else case supervisor_loop is_done rs 1 of
                        (out, e) \<Rightarrow> (wait @ session @ SupState ConnStateReconnecting # out, e)))"

definition supervisor_Run :: "('e \<Rightarrow> bool) \<Rightarrow> bool \<Rightarrow> 'e sup_round list \<Rightarrow> 'e transport_error + 'e sup_output list \<times> run_end" where
  "supervisor_Run is_done started rs =
     (if started then Inl TransportAlreadyRunning
      else case supervisor_loop is_done rs 0 of
             (out, e) \<Rightarrow> Inr (SupState ConnStateReconnecting # out @ (if e = RunGoesOn then [] else [SupState ConnStateStopped]), e))"

section \<open>When the loop panics\<close>

definition timed_out :: "('e \<Rightarrow> bool) \<Rightarrow> 'e sup_round \<Rightarrow> bool" where
  "timed_out is_done r \<longleftrightarrow> sr_ctx_dial r = None \<and> (case sr_dial r of None \<Rightarrow> False | Some err \<Rightarrow> is_done err)"

lemma connectSession_nothing: "connectSession is_done r = ConnectNothing \<longleftrightarrow> timed_out is_done r"
  by (auto simp: connectSession_def timed_out_def isRunContextDone_def split: option.splits)

lemma loop_append:
  assumes "snd (supervisor_loop is_done pre a) = RunGoesOn"
  shows "\<exists>b. snd (supervisor_loop is_done (pre @ rs) a) = snd (supervisor_loop is_done rs b)"
  using assms
proof (induction is_done pre a rule: supervisor_loop.induct)
  case (2 is_done r pre a)
  show ?case
  proof (cases "connectSession is_done r")
    case (ConnectFailed err)
    with 2 show ?thesis
      by (auto simp: Let_def split: if_splits prod.splits)
  next
    case ConnectOk
    with 2 show ?thesis
      by (auto simp: Let_def split: if_splits prod.splits)
  qed (use 2 in \<open>auto simp: Let_def split: if_splits\<close>)
qed auto

text \<open>C34. A dial that times out brings the process down. As long as the loop goes on, a further round
  panics exactly when its dial fails with an error that counts as a finished context (a
  handshake timeout is \<open>context.DeadlineExceeded\<close>) although the context is alive:
  \<open>connectSession\<close> then returns neither a session nor an error. In every other round the loop
  goes on, or \<open>Run\<close> returns.\<close>

theorem supervisor_dial_timeout_panics:
  assumes "snd (supervisor_loop is_done pre 0) = RunGoesOn" and "sr_waited r"
  shows "(\<exists>out. supervisor_Run is_done False (pre @ [r]) = Inr (out, RunPanicked)) \<longleftrightarrow> timed_out is_done r"
proof -
  obtain b where b: "snd (supervisor_loop is_done (pre @ [r]) 0) = snd (supervisor_loop is_done [r] b)"
    using loop_append [OF assms(1)] by blast
  have "snd (supervisor_loop is_done [r] b) = RunPanicked \<longleftrightarrow> connectSession is_done r = ConnectNothing"
    using assms(2) by (auto simp: Let_def split: connect_result.split)
  with b show ?thesis
    by (auto simp: supervisor_Run_def connectSession_nothing split: prod.splits)
qed

section \<open>Lifecycle events\<close>

fun event_types :: "'e sup_output list \<Rightarrow> conn_event_type list" where
  "event_types [] = []"
| "event_types (SupEvent ev # out) = ce_Type ev # event_types out"
| "event_types (_ # out) = event_types out"

lemma event_types_append [simp]: "event_types (xs @ ys) = event_types xs @ event_types ys"
  by (induction xs rule: event_types.induct) simp_all

fun lifecycle_ok :: "bool \<Rightarrow> conn_event_type list \<Rightarrow> bool" where
  "lifecycle_ok up [] = True"
| "lifecycle_ok up (Connected # ts) = (\<not> up \<and> lifecycle_ok True ts)"
| "lifecycle_ok up (Reconnected # ts) = (\<not> up \<and> lifecycle_ok True ts)"
| "lifecycle_ok up (Disconnected # ts) = (up \<and> lifecycle_ok False ts)"
| "lifecycle_ok up (Reconnecting # ts) = (\<not> up \<and> lifecycle_ok False ts)"
| "lifecycle_ok up (_ # ts) = False"

lemmas sup_outputs = emitConnected_def emitDisconnected_def emitReconnecting_def attachSession_def

lemma loop_events:
  assumes "0 \<le> attempt"
  shows "lifecycle_ok False (event_types (fst (supervisor_loop is_done rs attempt))) \<and>
    (0 < attempt \<longrightarrow> Connected \<notin> set (event_types (fst (supervisor_loop is_done rs attempt))))"
  using assms
proof (induction is_done rs attempt rule: supervisor_loop.induct)
  case (2 is_done r rs attempt)
  show ?case
  proof (cases "connectSession is_done r")
    case (ConnectFailed err)
    with 2 show ?thesis
      by (cases "supervisor_loop is_done rs (attempt + 1)") (auto simp: Let_def sup_outputs)
  next
    case ConnectOk
    with 2 show ?thesis
      by (cases "supervisor_loop is_done rs 1") (auto simp: Let_def sup_outputs)
  qed (use 2 in \<open>auto simp: Let_def sup_outputs\<close>)
qed simp

text \<open>The lifecycle events of the transport alternate: a session is announced (\<open>connected\<close> or
  \<open>reconnected\<close>) only after the last one was reported disconnected, retries are reported only in
  between, and nothing else is sent. \<open>connected\<close> comes at most once, as the very first event:
  when the first dial fails, the first live session is announced as \<open>reconnected\<close>.\<close>

theorem supervisor_events_alternate:
  assumes "supervisor_Run is_done False (r # rs) = Inr (out, e)"
  shows "lifecycle_ok False (event_types out) \<and>
    (Connected \<in> set (event_types out) \<longrightarrow> hd (event_types out) = Connected \<and> Connected \<notin> set (tl (event_types out))) \<and>
    (sr_dial r \<noteq> None \<and> \<not> timed_out is_done r \<longrightarrow> Connected \<notin> set (event_types out))"
proof -
  let ?l = "fst (supervisor_loop is_done (r # rs) 0)"
  have out: "event_types out = event_types ?l"
    using assms by (auto simp: supervisor_Run_def split: prod.splits if_splits)
  have "lifecycle_ok False (event_types ?l)" using loop_events by blast
  moreover have "Connected \<in> set (event_types ?l) \<longrightarrow> hd (event_types ?l) = Connected \<and> Connected \<notin> set (tl (event_types ?l))"
    and "sr_dial r \<noteq> None \<and> \<not> timed_out is_done r \<longrightarrow> Connected \<notin> set (event_types ?l)"
  proof -
    have later: "Connected \<notin> set (event_types (fst (supervisor_loop is_done rs 1)))"
      using loop_events [of 1 is_done rs] by simp
    have dialled: "connectSession is_done r = ConnectOk \<Longrightarrow> sr_dial r = None"
      by (auto simp: connectSession_def split: option.splits if_splits)
    show "Connected \<in> set (event_types ?l) \<longrightarrow> hd (event_types ?l) = Connected \<and> Connected \<notin> set (tl (event_types ?l))"
      using later by (cases "connectSession is_done r"; cases "supervisor_loop is_done rs 1") (auto simp: Let_def sup_outputs)
    show "sr_dial r \<noteq> None \<and> \<not> timed_out is_done r \<longrightarrow> Connected \<notin> set (event_types ?l)"
      using later dialled connectSession_nothing [of is_done r]
      by (cases "connectSession is_done r"; cases "supervisor_loop is_done rs 1") (auto simp: Let_def sup_outputs)
  qed
  ultimately show ?thesis unfolding out by blast
qed

definition refused :: "bool \<Rightarrow> bool sup_round" where
  "refused err = \<lparr>sr_waited = True, sr_dial = Some err, sr_ctx_dial = None, sr_ctx_session = None, sr_ctx_failed = None,
     sr_read = TransportOp ''read message'' False, sr_ctx_read = None, sr_at_wait = 1, sr_at_up = 2, sr_at_down = 3\<rparr>"

definition served_round :: "bool sup_round" where
  "served_round = (refused False)\<lparr>sr_dial := None\<rparr>"

theorem supervisor_dial_timeout_panics_witness:
  "\<exists>out. supervisor_Run (\<lambda>err. err) False [served_round, refused True] = Inr (out, RunPanicked)"
  using supervisor_dial_timeout_panics [of "\<lambda>err. err" "[served_round]" "refused True"]
  by (simp add: served_round_def refused_def timed_out_def connectSession_def isRunContextDone_def Let_def)

theorem supervisor_events_alternate_witness:
  "\<exists>out e. supervisor_Run (\<lambda>err. err) False [refused False, served_round] = Inr (out, e) \<and>
     event_types out = [Reconnecting, Reconnected, Disconnected] \<and> Connected \<notin> set (event_types out)"
proof -
  obtain out e where o: "supervisor_Run (\<lambda>err. err) False [refused False, served_round] = Inr (out, e)"
    and ts: "event_types out = [Reconnecting, Reconnected, Disconnected]"
    by (simp add: served_round_def refused_def supervisor_Run_def connectSession_def isRunContextDone_def Let_def sup_outputs)
  from supervisor_events_alternate [OF o] o ts show ?thesis
    by (auto simp: refused_def timed_out_def)
qed

end
