(* ===== verification/LS_Decimal.thy ===== *)
theory LS_Decimal
  imports LS_Realtime Backoff
begin

text \<open>
  Decimal text of the LS REST responses: \<open>DecimalValue\<close> of
  \<open>internal/adapter/broker/ls/api/rest/types.go\<close>. \<open>Scaled\<close> turns the text into a fixed-point
  \<open>int64\<close> without a \<open>float64\<close> in between; \<open>ls_scaled_exact\<close> says what it computes, the wrap-around
  included. A \<open>DecimalValue\<close> is its text; \<open>scaled_error\<close> has the errors of its methods.
\<close>

section \<open>Decimal text\<close>

type_synonym decimal_value = string

datatype scaled_error = ErrInvalidDecimalScale | ErrMissingDecimal | ErrDecimal num_error

definition isASCIISpace :: "char \<Rightarrow> bool" where
  "isASCIISpace b \<longleftrightarrow> b = CHR '' '' \<or> b = CHR 0x0A \<or> b = CHR 0x0D \<or> b = CHR 0x09"

definition trimASCIISpaceString :: "string \<Rightarrow> string" where
  "trimASCIISpaceString v = rev (dropWhile isASCIISpace (rev (dropWhile isASCIISpace v)))"

definition decimal_Empty :: "decimal_value \<Rightarrow> bool" where
  "decimal_Empty d \<longleftrightarrow> trimASCIISpaceString d = []"

definition decimal_Float64 :: "decimal_value \<Rightarrow> scaled_error + rat" where
  "decimal_Float64 d =
     (let v = trimASCIISpaceString d
      in if v = [] then Inl ErrMissingDecimal
         else case parse_float v of Inl e \<Rightarrow> Inl (ErrDecimal e) | Inr x \<Rightarrow> Inr x)"

function scale_loop :: "int \<Rightarrow> nat \<Rightarrow> nat option" where
  "scale_loop scale digits =
     (if scale \<le> 1 then Some digits
      else if scale mod 10 \<noteq> 0 then None
      else scale_loop (scale div 10) (Suc digits))"
  by auto
termination by (relation "measure (\<lambda>(scale, _). nat scale)") auto

declare scale_loop.simps [simp del]

definition decimalScaleDigits :: "int \<Rightarrow> nat option" where
  "decimalScaleDigits scale = (if scale \<le> 0 then None else if scale = 1 then Some 0 else scale_loop scale 0)"

text \<open>The digits of the fraction that the scale keeps, padded with zeros; the result is below
  the scale, so \<open>int64\<close> holds it.\<close>

fun frac_loop :: "nat \<Rightarrow> string \<Rightarrow> int \<Rightarrow> int" where
  "frac_loop 0 cs acc = acc"
| "frac_loop (Suc n) [] acc = frac_loop n [] (acc * 10)"
| "frac_loop (Suc n) (c # cs) acc = frac_loop n cs (acc * 10 + int (the (digit_val c)))"

definition strip_decimal_sign :: "string \<Rightarrow> int \<times> string" where
  "strip_decimal_sign v =
     (case v of
        [] \<Rightarrow> (1, [])
      | c # cs \<Rightarrow> if c = CHR ''-'' then (- 1, cs) else if c = CHR ''+'' then (1, cs) else (1, v))"

definition Scaled :: "int \<Rightarrow> decimal_value \<Rightarrow> scaled_error + int" where
  "Scaled scale d =
     (case decimalScaleDigits scale of
        None \<Rightarrow> Inl ErrInvalidDecimalScale
      | Some digits \<Rightarrow>
          (let v = trimASCIISpaceString d
           in if v = [] then Inl ErrMissingDecimal
              else case strip_decimal_sign v of
                (sgn1, value) \<Rightarrow>
                  if value = [] then Inl (ErrDecimal ErrSyntax)
                  else case (case cut_at (CHR ''.'') value of None \<Rightarrow> (value, []) | Some p \<Rightarrow> p) of
                    (wholePart0, fracPart) \<Rightarrow>
                      if CHR ''.'' \<in> set fracPart then Inl (ErrDecimal ErrSyntax)
                      else let wholePart = (if wholePart0 = [] then ''0'' else wholePart0)
                           in if \<not> isDecimalDigits wholePart then Inl (ErrDecimal ErrSyntax)
                              else if fracPart \<noteq> [] \<and> \<not> isDecimalDigits fracPart then Inl (ErrDecimal ErrSyntax)
                              else case parse_int wholePart of
                                Inl e \<Rightarrow> Inl (ErrDecimal e)
                              | Inr whole \<Rightarrow>
                                  Inr (wrap64 (sgn1 * wrap64 (wrap64 (whole * scale) + frac_loop digits fracPart 0)))))"

section \<open>What the digits denote\<close>

lemma digits_val_start:
  "digits_val k s = map_option (\<lambda>n. k * 10 ^ length s + n) (digits_val 0 s)"
proof (induction s arbitrary: k)
  case (Cons c s)
  show ?case
  proof (cases "digit_val c")
    case (Some d)
    have "digits_val (k * 10 + d) s = map_option (\<lambda>n. (k * 10 + d) * 10 ^ length s + n) (digits_val 0 s)"
      by (rule Cons.IH)
    moreover have "digits_val d s = map_option (\<lambda>n. d * 10 ^ length s + n) (digits_val 0 s)"
      by (rule Cons.IH)
    ultimately show ?thesis using Some by (cases "digits_val 0 s") (simp_all add: algebra_simps)
  qed simp
qed simp

lemma digits_val_digits: "digits_val k s \<noteq> None \<longleftrightarrow> list_all (\<lambda>c. digit_val c \<noteq> None) s"
  by (induction k s rule: digits_val.induct) (auto split: option.splits)

lemma digits_val_ConsE:
  assumes "digits_val 0 (c # s) = Some n"
  obtains d m where "digit_val c = Some d" "digits_val 0 s = Some m" "n = d * 10 ^ length s + m"
proof -
  obtain d where d: "digit_val c = Some d" "digits_val d s = Some n"
    using assms by (auto split: option.splits)
  with digits_val_start [of d s] obtain m where "digits_val 0 s = Some m" "n = d * 10 ^ length s + m"
    by (cases "digits_val 0 s") auto
  with d that show thesis by blast
qed

lemma digits_val_less: "digits_val 0 s = Some n \<Longrightarrow> n < 10 ^ length s"
proof (induction s arbitrary: n)
  case (Cons c s)
  obtain d m where d: "digit_val c = Some d" and m: "digits_val 0 s = Some m"
    and n: "n = d * 10 ^ length s + m"
    by (rule digits_val_ConsE [OF Cons.prems])
  have "m < 10 ^ length s" by (rule Cons.IH) (fact m)
  moreover have "d * 10 ^ length s + 10 ^ length s \<le> 10 * 10 ^ length s"
    using digit_val_less [OF d] mult_right_mono [of "d + 1" 10 "10 ^ length s"] by simp
  ultimately show ?case unfolding n list.size add_Suc_right add_0_right power_Suc by linarith
qed simp

lemma digits_val_append:
  "digits_val 0 (a @ b) = Some n \<longleftrightarrow>
    (\<exists>x y. digits_val 0 a = Some x \<and> digits_val 0 b = Some y \<and> n = x * 10 ^ length b + y)"
proof -
  have "digits_val k (a @ b) = (case digits_val k a of None \<Rightarrow> None | Some x \<Rightarrow> digits_val x b)" for k
    by (induction a arbitrary: k) (auto split: option.splits)
  moreover have "digits_val x b = Some n \<longleftrightarrow> (\<exists>y. digits_val 0 b = Some y \<and> n = x * 10 ^ length b + y)" for x
    using digits_val_start [of x b] by (cases "digits_val 0 b") auto
  ultimately show ?thesis by (simp split: option.splits)
qed

lemma parse_uint_loop_digits:
  "digits_val k s = Some n \<Longrightarrow> k < 18446744073709551616 \<Longrightarrow>
    parse_uint_loop k s = (if n < 18446744073709551616 then Inr n else Inl ErrRange)"
proof (induction s arbitrary: k)
  case (Cons c s)
  then obtain d where d: "digit_val c = Some d" and n: "digits_val (k * 10 + d) s = Some n"
    by (auto split: option.splits)
  have "k * 10 + d \<le> n"
    using n digits_val_start [of "k * 10 + d" s] by (cases "digits_val 0 s") (auto intro!: order.trans [OF _ le_add1])
  with Cons.IH [OF n] d show ?case by simp
qed simp

lemma parse_int_digits:
  assumes "digits_val 0 s = Some n" and "s \<noteq> []"
  shows "parse_int s = (if n < 9223372036854775808 then Inr (int n) else Inl ErrRange)"
proof (cases s)
  case (Cons c cs)
  have "digit_val c \<noteq> None" using assms(1) Cons by (auto split: option.splits)
  then have "c \<noteq> CHR ''-''" "c \<noteq> CHR ''+''" by (auto simp: digit_val_def)
  then show ?thesis
    using Cons parse_uint_loop_digits [OF assms(1)] by (simp add: parse_int_def parse_uint_def Let_def)
qed (use assms in simp)

lemma scale_loop_power: "scale_loop (10 ^ d) k = Some (k + d)"
proof (induction d arbitrary: k)
  case (Suc d)
  have "\<not> (10 * 10 ^ d \<le> (1 :: int))" using one_le_power [of "10 :: int" d] by linarith
  with Suc show ?case by (subst scale_loop.simps) simp
qed (subst scale_loop.simps, simp)

lemma decimalScaleDigits_power: "decimalScaleDigits (10 ^ d) = Some d"
proof (cases d)
  case (Suc k)
  have "\<not> 10 * 10 ^ k \<le> (1 :: int)" using one_le_power [of "10 :: int" k] by linarith
  with Suc scale_loop_power [of d 0] show ?thesis by (simp add: decimalScaleDigits_def)
qed (simp add: decimalScaleDigits_def)

text \<open>The fraction digits that the scale keeps.\<close>

lemma frac_loop_zeros: "frac_loop d [] acc = acc * 10 ^ d"
  by (induction d arbitrary: acc) simp_all

lemma frac_loop_digits:
  "digits_val 0 b = Some n \<Longrightarrow> frac_loop d b acc = acc * 10 ^ d + int n * 10 ^ d div 10 ^ length b"
proof (induction d b acc arbitrary: n rule: frac_loop.induct)
  case (1 b acc)
  then have "int n < 10 ^ length b" using digits_val_less [of b n] by (simp flip: of_nat_power add: of_nat_less_iff)
  then show ?case by simp
next
  case (2 k acc)
  then show ?case by (simp add: frac_loop_zeros)
next
  case (3 k c b acc)
  obtain x m where x: "digit_val c = Some x" and m: "digits_val 0 b = Some m"
    and n: "n = x * 10 ^ length b + m"
    by (rule digits_val_ConsE [OF "3.prems"])
  have "int n * 10 ^ Suc k div 10 ^ length (c # b) = int n * 10 ^ k div 10 ^ length b"
    using div_mult_mult1 [of 10 "int n * 10 ^ k" "10 ^ length b"] by (simp add: algebra_simps)
  also have "\<dots> = int x * 10 ^ k + int m * 10 ^ k div 10 ^ length b"
    using div_mult_self3 [of "10 ^ length b" "int x * 10 ^ k" "int m * 10 ^ k"] by (simp add: n algebra_simps)
  finally show ?case using "3.IH" [OF m] x by (simp add: algebra_simps)
qed
section \<open>The fixed-point value\<close>

lemma isASCIISpace_is_space: "isASCIISpace c \<Longrightarrow> is_space c"
  by (auto simp: isASCIISpace_def is_space_def)

lemma trim_noop:
  assumes "list_all (\<lambda>c. \<not> is_space c) v"
  shows "trimASCIISpaceString v = v"
proof -
  have d: "dropWhile isASCIISpace w = w" if "list_all (\<lambda>c. \<not> is_space c) w" for w
    using that isASCIISpace_is_space by (cases w) auto
  from assms show ?thesis by (simp add: trimASCIISpaceString_def d list_all_rev)
qed

lemma digits_not_blank: "digits_val k s = Some n \<Longrightarrow> list_all (\<lambda>c. \<not> is_space c) s"
  by (induction k s rule: digits_val.induct) (auto simp: is_space_def digit_val_def split: option.splits)

lemma decimal_chars:
  assumes "decimal_val v = Some x" and "CHR ''e'' \<notin> set v" "CHR ''E'' \<notin> set v"
  shows "mantissa_val (snd (strip_sign v)) = Some (if fst (strip_sign v) then - x else x)"
    and "list_all (\<lambda>c. \<not> is_space c) v" and "v \<noteq> []"
proof -
  obtain neg body where b: "strip_sign v = (neg, body)" by (cases "strip_sign v")
  then have sub: "set body \<subseteq> set v" by (auto simp: strip_sign_def split: list.splits if_splits)
  then have "CHR ''e'' \<notin> set body" "CHR ''E'' \<notin> set body" using assms(2,3) by auto
  then have "cut_exp body = None" by (simp add: cut_exp_def cut_at_None [THEN iffD2])
  with assms(1) b obtain y where y: "mantissa_val body = Some y" "x = (if neg then - y else y)"
    by (auto simp: decimal_val_def)
  then show "mantissa_val (snd (strip_sign v)) = Some (if fst (strip_sign v) then - x else x)" using b by simp
  have "list_all (\<lambda>c. \<not> is_space c) body"
  proof (cases "cut_at (CHR ''.'') body")
    case None
    with y show ?thesis by (auto simp: mantissa_val_def digits_not_blank split: if_splits)
  next
    case (Some p)
    obtain a c where p: "p = (a, c)" by (cases p)
    with Some y obtain n where "digits_val 0 (a @ c) = Some n" by (auto simp: mantissa_val_def split: if_splits)
    then have "list_all (\<lambda>c. \<not> is_space c) (a @ c)" by (rule digits_not_blank)
    with cut_at_Some [of "CHR ''.''" body a c] Some p show ?thesis by (simp add: is_space_def)
  qed
  moreover have "v = body \<or> (\<exists>c. v = c # body \<and> (c = CHR ''-'' \<or> c = CHR ''+''))"
    using b by (auto simp: strip_sign_def split: list.splits if_splits)
  moreover have "body \<noteq> []" using y by (auto simp: mantissa_val_def)
  ultimately show "list_all (\<lambda>c. \<not> is_space c) v" "v \<noteq> []" by (auto simp: is_space_def)
qed
lemma mantissa_split:
  assumes "mantissa_val body = Some y"
  obtains a b w f where "cut_at (CHR ''.'') body = None \<and> a = body \<and> b = [] \<or> cut_at (CHR ''.'') body = Some (a, b)"
    and "digits_val 0 a = Some w" "digits_val 0 b = Some f"
    and "y = of_nat w + of_nat f / 10 ^ length b" and "body \<noteq> []"
proof (cases "cut_at (CHR ''.'') body")
  case None
  with assms obtain n where "digits_val 0 body = Some n" "y = of_nat n" "body \<noteq> []"
    by (auto simp: mantissa_val_def split: if_splits)
  with None that [of body "[]" n 0] show thesis by simp
next
  case (Some p)
  obtain a b where p: "p = (a, b)" by (cases p)
  with Some assms obtain n where n: "digits_val 0 (a @ b) = Some n" "y = of_nat n / 10 ^ length b"
    by (auto simp: mantissa_val_def split: if_splits)
  then obtain w f where wf: "digits_val 0 a = Some w" "digits_val 0 b = Some f" "n = w * 10 ^ length b + f"
    by (auto simp: digits_val_append)
  then have "y = of_nat w + of_nat f / 10 ^ length b" using n(2) by (simp add: field_simps)
  with that [of a b w f] wf Some p cut_at_Some [of "CHR ''.''" body a b] show thesis by auto
qed

lemma scaled_floor:
  assumes "digits_val 0 b = Some f" and "y = of_nat w + of_nat f / 10 ^ length b"
  shows "\<lfloor>y\<rfloor> = int w" and "\<lfloor>y * 10 ^ d\<rfloor> = int w * 10 ^ d + int f * 10 ^ d div 10 ^ length b"
proof -
  have "(of_nat f :: rat) < 10 ^ length b"
    using digits_val_less [OF assms(1)] by (metis of_nat_less_iff of_nat_numeral of_nat_power)
  then show "\<lfloor>y\<rfloor> = int w" by (simp add: assms(2) floor_eq_iff divide_less_eq)
  have "y * 10 ^ d = of_int (int w * 10 ^ d) + of_int (int f * 10 ^ d) / of_int (10 ^ length b)"
    by (simp add: assms(2) algebra_simps)
  then show "\<lfloor>y * 10 ^ d\<rfloor> = int w * 10 ^ d + int f * 10 ^ d div 10 ^ length b"
    by (simp only: floor_add_int [symmetric] floor_divide_of_int_eq add.commute [of "of_int _"]) 
qed
lemma wrap64_unit: "c = 1 \<or> c = - 1 \<Longrightarrow> wrap64 (c * wrap64 z) = wrap64 (c * z)"
  using wrap64_diff_right [of 0 z] by auto

lemma strip_decimal_sign_strip: "strip_decimal_sign v = (if fst (strip_sign v) then - 1 else 1, snd (strip_sign v))"
  by (simp add: strip_decimal_sign_def strip_sign_def split: list.splits)

lemma Scaled_value:
  assumes "trimASCIISpaceString v = v" "v \<noteq> []" and m: "mantissa_val (snd (strip_sign v)) = Some y"
  shows "Scaled (10 ^ d) v = (if \<lfloor>y\<rfloor> < 9223372036854775808
      then Inr (wrap64 ((if fst (strip_sign v) then - 1 else 1) * \<lfloor>y * 10 ^ d\<rfloor>))
      else Inl (ErrDecimal ErrRange))"
proof -
  define body where "body = snd (strip_sign v)"
  obtain a b w f where ab: "cut_at (CHR ''.'') body = None \<and> a = body \<and> b = [] \<or> cut_at (CHR ''.'') body = Some (a, b)"
    and w: "digits_val 0 a = Some w" and f: "digits_val 0 b = Some f"
    and y: "y = of_nat w + of_nat f / 10 ^ length b" and ne: "body \<noteq> []"
    using mantissa_split [OF m] unfolding body_def by metis
  have cut: "(case cut_at (CHR ''.'') body of None \<Rightarrow> (body, []) | Some p \<Rightarrow> p) = (a, b)" using ab by auto
  let ?w = "if a = [] then ''0'' else a"
  have zero: "digits_val 0 ''0'' = Some 0" by (simp add: digit_val_def)
  then have wd: "digits_val 0 ?w = Some w" "?w \<noteq> []" using w by auto
  have all: "list_all (\<lambda>c. digit_val c \<noteq> None) s" if "digits_val 0 s = Some n" for s n
    using that digits_val_digits [of 0 s] by simp
  have dig: "isDecimalDigits ?w" "b = [] \<or> isDecimalDigits b"
    using all [OF wd(1)] all [OF f] wd(2) unfolding isDecimalDigits_def by blast+
  have nodot: "CHR ''.'' \<notin> set b"
    using all [OF f] by (auto simp: list_all_iff digit_val_def)
  note fl = scaled_floor [OF f y]
  have p: "parse_int ?w = (if \<lfloor>y\<rfloor> < 9223372036854775808 then Inr (int w) else Inl ErrRange)"
    using parse_int_digits [OF wd] by (simp add: fl(1))
  show ?thesis
    unfolding Scaled_def decimalScaleDigits_power option.case assms(1) Let_def strip_decimal_sign_strip
      prod.case body_def [symmetric] cut p
    using assms(2) ne nodot dig fl(2) frac_loop_digits [OF f, of d 0] by (auto simp: wrap64_unit)
qed

lemma Scaled_plain:
  assumes "decimal_val v = Some x" and "CHR ''e'' \<notin> set v" "CHR ''E'' \<notin> set v"
  shows "Scaled (10 ^ d) v =
    (if \<lfloor>\<bar>x\<bar>\<rfloor> < 9223372036854775808 then Inr (wrap64 (trunc_rat (x * 10 ^ d)))
     else Inl (ErrDecimal ErrRange))"
proof -
  note c = decimal_chars [OF assms(1-3)]
  define y where "y = (if fst (strip_sign v) then - x else x)"
  obtain w f b where "digits_val 0 b = Some f" and y: "y = of_nat w + of_nat f / 10 ^ length b"
    using mantissa_split [OF c(1)] unfolding y_def by metis
  then have y0: "0 \<le> y" by simp
  have x: "x = (if fst (strip_sign v) then - y else y)" "\<bar>x\<bar> = y" using y0 by (auto simp: y_def)
  have "trunc_rat (x * 10 ^ d) = (if fst (strip_sign v) then - 1 else 1) * \<lfloor>y * 10 ^ d\<rfloor>"
  proof (cases "y = 0")
    case False
    with y0 have "0 < y * 10 ^ d" by simp
    then show ?thesis unfolding x(1) trunc_rat_def by auto
  qed (simp add: x(1) trunc_rat_def)
  with Scaled_value [OF trim_noop [OF c(2)] c(3) c(1)] show ?thesis by (simp add: x(2) y_def)
qed

text \<open>C21. The decimal text of LS responses becomes fixed point without a \<open>float64\<close>: for every
  number written without exponent, \<open>Scaled\<close> at \<open>10 ^ d\<close> is the number times the scale, rounded
  towards zero, if that fits \<open>int64\<close>. When it does not, the whole part out of range is a range
  error, but a product out of range wraps around silently.\<close>

theorem ls_scaled_exact:
  assumes "decimal_val v = Some x" and "CHR ''e'' \<notin> set v" "CHR ''E'' \<notin> set v" and "d \<le> 18"
  shows "Scaled (10 ^ d) v =
    (if \<lfloor>\<bar>x\<bar>\<rfloor> < 9223372036854775808 then Inr (wrap64 (trunc_rat (x * 10 ^ d)))
     else Inl (ErrDecimal ErrRange))"
  using assms(1-3) by (rule Scaled_plain)

theorem ls_scaled_exact_witness:
  "Scaled 10000 ''-0.57'' = Inr (- 5700) \<and>
   Scaled 10000 ''922337203685478.5'' = Inr (- 9223372036854766616)"
proof
  have "decimal_val ''-0.57'' = Some (- 57 / 100)" by code_simp
  then show "Scaled 10000 ''-0.57'' = Inr (- 5700)"
    using ls_scaled_exact [of "''-0.57''" "- 57 / 100" 4] by (simp add: trunc_rat_def wrap64_def)
  have "decimal_val ''922337203685478.5'' = Some (9223372036854785 / 10)"
    by (simp add: decimal_val_def strip_sign_def cut_exp_def mantissa_val_def digit_val_def)
  then show "Scaled 10000 ''922337203685478.5'' = Inr (- 9223372036854766616)"
    using ls_scaled_exact [of "''922337203685478.5''" "9223372036854785 / 10" 4] by (simp add: trunc_rat_def wrap64_def)
qed

text \<open>A lone point is a number for \<open>Scaled\<close>, and so is a lone point with a sign.\<close>

lemma Scaled_point: "Scaled 10000 ''.'' = Inr 0" "Scaled 10000 ''-.'' = Inr 0"
  using decimalScaleDigits_power [of 4]
  by (simp_all add: Scaled_def trimASCIISpaceString_def isASCIISpace_def strip_decimal_sign_def
      isDecimalDigits_def digit_val_def parse_int_def parse_uint_def frac_loop_zeros Let_def)

end
