(* ===== verification/LS_Rest.thy ===== *)
theory LS_Rest
  imports LS_Decimal
begin

text \<open>
  The LS REST client, \<open>internal/adapter/broker/ls/api/rest\<close> (the request and response structs of
  \<open>types.go\<close>, \<open>transport.go\<close>, \<open>rest.go\<close>, \<open>limit.go\<close>, \<open>errors.go\<close>), and the token service
  \<open>internal/adapter/broker/ls/api/auth/auth.go\<close>. The requester, the rate limiters and the key
  store are packages outside the repository: what they answer is an argument. \<open>send\<close> is
  \<open>Requester.Send\<close> together with the decoding of the answer: it gets what the callback returns,
  an item or an error, and answers with an error or the decoded response. \<open>wait\<close> is
  \<open>Limiter.Wait\<close>, \<open>token\<close> what the key store returns. A response is a struct on the stack of its
  \<open>fetch\<close> function, so never nil.
\<close>

section \<open>Requests and responses\<close>

record t1101_in =
  qa_Shcode :: string

record t1101_request =
  qar_In :: t1101_in

record t1102_in =
  qb_Shcode :: string

record t1102_request =
  qbr_In :: t1102_in

record t8407_in =
  qc_Nrec :: int
  qc_Shcode :: string

record t8407_request =
  qcr_In :: t8407_in

record t1102_out =
  ob_Hname :: string
  ob_Price :: int
  ob_Sign :: string
  ob_Change :: int
  ob_Diff :: decimal_value
  ob_Volume :: int
  ob_RecPrice :: int
  ob_Avg :: int
  ob_JnilClose :: int
  ob_OfferHo :: int
  ob_BidHo :: int
  ob_OfferRem :: int
  ob_BidRem :: int
  ob_PreOfferCha :: int
  ob_PreBidCha :: int
  ob_Open :: int
  ob_High :: int
  ob_Low :: int
  ob_HoStatus :: string
  ob_Hotime :: string
  ob_YePrice :: int
  ob_YeVolume :: int
  ob_YeSign :: string
  ob_YeChange :: int
  ob_YeDiff :: decimal_value
  ob_TmOffer :: int
  ob_TmBid :: int
  ob_Shcode :: string
  ob_UplmtPrice :: int
  ob_DnlmtPrice :: int
  ob_Value :: int
  ob_MarketCap :: int

record t1102_response =
  rb_RspCd :: string
  rb_RspMsg :: string
  rb_OutBlock :: t1102_out

record t1101_out =
  oa_Hname :: string
  oa_Price :: int
  oa_Sign :: string
  oa_Change :: int
  oa_Diff :: decimal_value
  oa_Volume :: int
  oa_JnilClose :: int
  oa_OfferHo1 :: int
  oa_BidHo1 :: int
  oa_OfferRem1 :: int
  oa_BidRem1 :: int
  oa_PreOffer1 :: int
  oa_PreBid1 :: int
  oa_OfferHo2 :: int
  oa_BidHo2 :: int
  oa_OfferRem2 :: int
  oa_BidRem2 :: int
  oa_PreOffer2 :: int
  oa_PreBid2 :: int
  oa_OfferHo3 :: int
  oa_BidHo3 :: int
  oa_OfferRem3 :: int
  oa_BidRem3 :: int
  oa_PreOffer3 :: int
  oa_PreBid3 :: int
  oa_OfferHo4 :: int
  oa_BidHo4 :: int
  oa_OfferRem4 :: int
  oa_BidRem4 :: int
  oa_PreOffer4 :: int
  oa_PreBid4 :: int
  oa_OfferHo5 :: int
  oa_BidHo5 :: int
  oa_OfferRem5 :: int
  oa_BidRem5 :: int
  oa_PreOffer5 :: int
  oa_PreBid5 :: int
  oa_OfferHo6 :: int
  oa_BidHo6 :: int
  oa_OfferRem6 :: int
  oa_BidRem6 :: int
  oa_PreOffer6 :: int
  oa_PreBid6 :: int
  oa_OfferHo7 :: int
  oa_BidHo7 :: int
  oa_OfferRem7 :: int
  oa_BidRem7 :: int
  oa_PreOffer7 :: int
  oa_PreBid7 :: int
  oa_OfferHo8 :: int
  oa_BidHo8 :: int
  oa_OfferRem8 :: int
  oa_BidRem8 :: int
  oa_PreOffer8 :: int
  oa_PreBid8 :: int
  oa_OfferHo9 :: int
  oa_BidHo9 :: int
  oa_OfferRem9 :: int
  oa_BidRem9 :: int
  oa_PreOffer9 :: int
  oa_PreBid9 :: int
  oa_OfferHo10 :: int
  oa_BidHo10 :: int
  oa_OfferRem10 :: int
  oa_BidRem10 :: int
  oa_PreOffer10 :: int
  oa_PreBid10 :: int
  oa_Offer :: int
  oa_Bid :: int
  oa_PreOffer :: int
  oa_PreBid :: int
  oa_Hotime :: string
  oa_YePrice :: int
  oa_YeVolume :: int
  oa_YeSign :: string
  oa_YeChange :: int
  oa_YeDiff :: decimal_value
  oa_TmOffer :: int
  oa_TmBid :: int
  oa_HoStatus :: string
  oa_Shcode :: string
  oa_UplmtPrice :: int
  oa_DnlmtPrice :: int
  oa_Open :: int
  oa_High :: int
  oa_Low :: int

record t1101_response =
  ra_RspCd :: string
  ra_RspMsg :: string
  ra_OutBlock :: t1101_out

record t8407_out =
  oc_Shcode :: string
  oc_Hname :: string
  oc_Price :: int
  oc_Sign :: string
  oc_Change :: int
  oc_Diff :: decimal_value
  oc_Volume :: int
  oc_OfferHo :: int
  oc_BidHo :: int
  oc_Cvolume :: int
  oc_Chdegree :: decimal_value
  oc_Open :: int
  oc_High :: int
  oc_Low :: int
  oc_Value :: int
  oc_OfferRem :: int
  oc_BidRem :: int
  oc_TotOfferRem :: int
  oc_TotBidRem :: int
  oc_JnilClose :: int
  oc_UplmtPrice :: int
  oc_DnlmtPrice :: int

record t8407_response =
  rc_RspCd :: string
  rc_RspMsg :: string
  rc_OutBlock1 :: "t8407_out list"

record t0424_in =
  qd_Prcgb :: string
  qd_Chegb :: string
  qd_Dangb :: string
  qd_Charge :: string
  qd_CtsExpcode :: string

record t0424_request =
  qdr_In :: t0424_in

record t0424_out =
  od_Dtsunik :: int
  od_CtsExpcode :: string
  od_Mamt :: int
  od_Sunamt1 :: int
  od_Tappamt :: int
  od_Sunamt :: int
  od_Tdtsunik :: int

record t0424_holding =
  oh_Sininter :: int
  oh_Fee :: int
  oh_Mamt :: int
  oh_Sinamt :: int
  oh_Mpmd :: int
  oh_Mdposqt :: int
  oh_Jsat :: int
  oh_Janqty :: int
  oh_Loandt :: string
  oh_Sysprocseq :: int
  oh_Price :: int
  oh_Janrt :: decimal_value
  oh_Jdat :: int
  oh_Jpms :: int
  oh_Hname :: string
  oh_Appamt :: int
  oh_Sunikrt :: decimal_value
  oh_Jonggb :: string
  oh_Msat :: int
  oh_Tax :: int
  oh_Pamt :: int
  oh_Jpmd :: int
  oh_Marketgb :: string
  oh_Jangb :: string
  oh_Dtsunik :: int
  oh_Expcode :: string
  oh_Mdat :: int
  oh_Mpms :: int
  oh_Lastdt :: string

record t0424_response =
  rd_RspCd :: string
  rd_RspMsg :: string
  rd_OutBlock :: t0424_out
  rd_OutBlock1 :: "t0424_holding list"

record cspaq12300_in =
  qe_RecCnt :: int
  qe_BalCreTp :: string
  qe_CmsnAppTpCode :: string
  qe_D2BalBaseQryTp :: string
  qe_UprcTpCode :: string

record cspaq12300_request =
  qer_In :: cspaq12300_in

record cspaq12300_out1 =
  oe_RspCd :: string
  oe_RspMsg :: string

record cspaq12300_out2 =
  of_Dps :: int
  of_DpsastTotamt :: int
  of_BalEvalAmt :: int

record cspaq12300_out3 =
  og_IsuNo :: string
  og_IsuNm :: string
  og_BalQty :: int
  og_AvrUprc :: int
  og_NowPrc :: int
  og_EvalPnl :: int
  og_PnlRat :: decimal_value

record cspaq12300_response =
  re_OutBlock1 :: cspaq12300_out1
  re_OutBlock2 :: cspaq12300_out2
  re_OutBlock3 :: "cspaq12300_out3 list"

section \<open>Errors\<close>

text \<open>\<open>LSError\<close> is \<open>apierr.LSError\<close>, \<open>External\<close> an error of a package outside the repository;
  \<open>ErrMethodRequired\<close> and \<open>ErrPageTimeout\<close> are errors of \<open>ls_v2/api\<close>, which copies the others.\<close>

datatype 'e ls_rest_error =
    OperationError string "'e ls_rest_error"
  | LSError string string
  | MissingValue string
  | InvalidCode string string
  | CodeLimitError string int int
  | ErrT8407CodesRequired
  | ErrNilRequester
  | ErrNilAuth
  | FieldParseError string string string scaled_error
  | ErrMethodRequired
  | ErrPageTimeout
  | External 'e

text \<open>\<open>errors.Is\<close> against the sentinels: it follows \<open>Unwrap\<close>.\<close>

fun is_ErrTooManyCodes :: "'e ls_rest_error \<Rightarrow> bool" where
  "is_ErrTooManyCodes (OperationError _ e) = is_ErrTooManyCodes e"
| "is_ErrTooManyCodes (CodeLimitError _ _ _) = True"
| "is_ErrTooManyCodes _ = False"

fun is_ErrMissingValue :: "'e ls_rest_error \<Rightarrow> bool" where
  "is_ErrMissingValue (OperationError _ e) = is_ErrMissingValue e"
| "is_ErrMissingValue (MissingValue _) = True"
| "is_ErrMissingValue (FieldParseError _ _ _ e) = (e = ErrMissingDecimal)"
| "is_ErrMissingValue _ = False"

fun is_ErrInvalidIssueCode :: "'e ls_rest_error \<Rightarrow> bool" where
  "is_ErrInvalidIssueCode (OperationError _ e) = is_ErrInvalidIssueCode e"
| "is_ErrInvalidIssueCode (InvalidCode _ _) = True"
| "is_ErrInvalidIssueCode _ = False"

definition CodeLimitError_Error :: "string \<Rightarrow> int \<Rightarrow> int \<Rightarrow> string" where
  "CodeLimitError_Error trCode limit count =
     (if trCode \<noteq> [] then ''ls '' @ trCode @ '' allows up to '' @ format_int limit @ '' codes''
      else if 0 < limit then ''allows up to '' @ format_int limit @ '' codes''
      else ''too many codes'') @
     (if 0 < count then '': got '' @ format_int count else [])"

definition LSError_Error :: "string \<Rightarrow> string \<Rightarrow> string" where
  "LSError_Error rspCd rspMsg =
     ''ls api error'' @ (if rspCd \<noteq> [] then '' ['' @ rspCd @ '']'' else []) @
     (if rspMsg \<noteq> [] then '': '' @ rspMsg else [])"

definition t1102_CheckError :: "t1102_response \<Rightarrow> 'e ls_rest_error option" where
  "t1102_CheckError r =
     (if rb_RspCd r = [] \<or> rb_RspCd r = ''00000'' then None else Some (LSError (rb_RspCd r) (rb_RspMsg r)))"

definition t1101_CheckError :: "t1101_response \<Rightarrow> 'e ls_rest_error option" where
  "t1101_CheckError r =
     (if ra_RspCd r = [] \<or> ra_RspCd r = ''00000'' then None else Some (LSError (ra_RspCd r) (ra_RspMsg r)))"

definition t8407_CheckError :: "t8407_response \<Rightarrow> 'e ls_rest_error option" where
  "t8407_CheckError r =
     (if rc_RspCd r = [] \<or> rc_RspCd r = ''00000'' then None else Some (LSError (rc_RspCd r) (rc_RspMsg r)))"

definition t0424_CheckError :: "t0424_response \<Rightarrow> 'e ls_rest_error option" where
  "t0424_CheckError r =
     (if rd_RspCd r = [] \<or> rd_RspCd r = ''00000'' then None else Some (LSError (rd_RspCd r) (rd_RspMsg r)))"

definition cspaq12300_CheckError :: "cspaq12300_response \<Rightarrow> 'e ls_rest_error option" where
  "cspaq12300_CheckError r =
     (if oe_RspCd (re_OutBlock1 r) = [] \<or> oe_RspCd (re_OutBlock1 r) = ''00000'' then None
      else Some (LSError (oe_RspCd (re_OutBlock1 r)) (oe_RspMsg (re_OutBlock1 r))))"

section \<open>The token service\<close>

record ls_token_response =
  tk_AccessToken :: string
  tk_ExpiresIn :: int
  tk_Scope :: string
  tk_TokenType :: string

record cached_token =
  ct_Response :: ls_token_response
  ct_ExpiresAt :: go_time

record ls_auth =
  au_restURL :: string
  au_appKey :: string
  au_appSecret :: string

abbreviation ls_tokenExpiryMargin :: int where "ls_tokenExpiryMargin \<equiv> 600000000000"
abbreviation BaseURLDefault :: string where "BaseURLDefault \<equiv> ''https://openapi.ls-sec.co.kr:8080''"
abbreviation ls_PathTokenIssue :: string where "ls_PathTokenIssue \<equiv> ''/oauth2/token''"

text \<open>\<open>auth.New\<close>: \<open>hasReq\<close> says that the requester is not nil, \<open>store\<close> what \<open>NewKeyStore\<close> fails with.\<close>

definition auth_New ::
    "bool \<Rightarrow> 'e option \<Rightarrow> string \<Rightarrow> string \<Rightarrow> string \<Rightarrow> 'e ls_rest_error + ls_auth" where
  "auth_New hasReq store restURL appKey appSecret =
     (if \<not> hasReq then Inl ErrNilRequester
      else if appKey = [] then Inl (MissingValue ''appKey'')
      else if appSecret = [] then Inl (MissingValue ''appSecret'')
      else case store of
          Some e \<Rightarrow> Inl (OperationError ''ls create token store'' (External e))
        | None \<Rightarrow> Inr \<lparr>au_restURL = restURL, au_appKey = appKey, au_appSecret = appSecret\<rparr>)"

definition token_isSuccess :: "ls_token_response \<Rightarrow> bool" where
  "token_isSuccess r \<longleftrightarrow> tk_AccessToken r \<noteq> []"

definition auth_isValid :: "go_time \<Rightarrow> cached_token \<Rightarrow> bool" where
  "auth_isValid now t \<longleftrightarrow> token_isSuccess (ct_Response t) \<and> ls_tokenExpiryMargin < ct_ExpiresAt t - now"

text \<open>The form of the token request; \<open>url.Values.Encode\<close> sorts it by key and escapes it.\<close>

record token_item =
  ti_Method :: string
  ti_Path :: string
  ti_Headers :: "(string \<times> string) list"
  ti_Form :: "(string \<times> string) list"

definition token_callback :: "'e option \<Rightarrow> ls_auth \<Rightarrow> 'e ls_rest_error + token_item" where
  "token_callback limited a =
     (case limited of
        Some e \<Rightarrow> Inl (OperationError ''ls issue token rate limit'' (External e))
      | None \<Rightarrow> Inr \<lparr>ti_Method = ''POST'', ti_Path = au_restURL a @ ls_PathTokenIssue,
          ti_Headers = [(''Content-Type'', ''application/x-www-form-urlencoded'')],
          ti_Form = [(''grant_type'', ''client_credentials''), (''appkey'', au_appKey a),
                     (''appsecretkey'', au_appSecret a)]\<rparr>)"

definition auth_issueToken ::
    "go_time \<Rightarrow> ('e ls_rest_error + token_item \<Rightarrow> 'e ls_rest_error + ls_token_response) \<Rightarrow> 'e option \<Rightarrow>
      ls_auth \<Rightarrow> 'e ls_rest_error + cached_token" where
  "auth_issueToken now send limited a =
     (case send (token_callback limited a) of
        Inl e \<Rightarrow> Inl (OperationError ''ls issue token'' e)
      | Inr resp \<Rightarrow>
          if \<not> token_isSuccess resp then Inl (MissingValue ''access_token'')
          else Inr \<lparr>ct_Response = resp, ct_ExpiresAt = now + wrap64 (tk_ExpiresIn resp * 1000000000)\<rparr>)"

definition auth_GetToken :: "'e ls_rest_error + cached_token \<Rightarrow> 'e ls_rest_error + string" where
  "auth_GetToken stored =
     (case stored of
        Inl e \<Rightarrow> Inl (OperationError ''ls get token'' e)
      | Inr t \<Rightarrow> Inr (tk_AccessToken (ct_Response t)))"

text \<open>The token that \<open>SetToken\<close> stores; a duration far out of range of \<open>int\<close> does not exist.\<close>

definition auth_SetToken :: "(rat \<Rightarrow> int) \<Rightarrow> go_time \<Rightarrow> string \<Rightarrow> int \<Rightarrow> cached_token" where
  "auth_SetToken impl now tok expiresIn =
     \<lparr>ct_Response = \<lparr>tk_AccessToken = tok, tk_ExpiresIn = float_to_int64 impl (duration_seconds expiresIn),
        tk_Scope = [], tk_TokenType = []\<rparr>,
      ct_ExpiresAt = now + expiresIn\<rparr>"

text \<open>An issued token is valid until ten minutes before its end; the product with the nanoseconds of
  a second wraps around, so that a lifetime of more than 292 years counts as one that is over.\<close>

lemma issued_token_valid:
  assumes "auth_issueToken now send limited a = Inr t" and "tk_ExpiresIn (ct_Response t) = n"
  shows "0 \<le> n \<Longrightarrow> n \<le> 9223372036 \<Longrightarrow> auth_isValid later t \<longleftrightarrow> later < now + (n - 600) * 1000000000"
    and "9223372036 < n \<Longrightarrow> n < 18446744074 \<Longrightarrow> now \<le> later \<Longrightarrow> \<not> auth_isValid later t"
proof -
  have t: "token_isSuccess (ct_Response t)" "ct_ExpiresAt t = now + wrap64 (n * 1000000000)"
    using assms by (auto simp: auth_issueToken_def split: sum.splits if_splits)
  show "auth_isValid later t \<longleftrightarrow> later < now + (n - 600) * 1000000000" if "0 \<le> n" "n \<le> 9223372036"
  proof -
    have "in64 (n * 1000000000)" using that by (simp add: in64_def)
    then show ?thesis by (auto simp: auth_isValid_def t)
  qed
  show "\<not> auth_isValid later t" if "9223372036 < n" "n < 18446744074" "now \<le> later"
  proof -
    have "wrap64 (n * 1000000000) = wrap64 (n * 1000000000 - 18446744073709551616)"
      by (rule wrap64_cong) simp
    also have "\<dots> = n * 1000000000 - 18446744073709551616"
      using that by (intro wrap64_id) (simp add: in64_def)
    finally have "wrap64 (n * 1000000000) < 600000000000" using that by simp
    then show ?thesis using that(3) by (simp add: auth_isValid_def t)
  qed
qed

section \<open>The service\<close>

record 'lim ls_rest =
  lr_restURL :: string
  lr_accountNo :: string
  lr_limiter :: "'lim option"
  lr_trLimiters :: "string \<rightharpoonup> 'lim option"

abbreviation ls_TrIDPrice :: string where "ls_TrIDPrice \<equiv> ''t1102''"
abbreviation ls_TrIDOrderbook :: string where "ls_TrIDOrderbook \<equiv> ''t1101''"
abbreviation TrIDMultiPrice :: string where "TrIDMultiPrice \<equiv> ''t8407''"
abbreviation TrIDBalanceT0424 :: string where "TrIDBalanceT0424 \<equiv> ''t0424''"
abbreviation TrIDBalanceCSPAQ :: string where "TrIDBalanceCSPAQ \<equiv> ''CSPAQ12300''"
abbreviation PathStockMarket :: string where "PathStockMarket \<equiv> ''/stock/market-data''"
abbreviation PathStockAccount :: string where "PathStockAccount \<equiv> ''/stock/accno''"
abbreviation t8407MaxCodes :: nat where "t8407MaxCodes \<equiv> 50"
abbreviation ls_RateScale :: int where "ls_RateScale \<equiv> 10000"

text \<open>\<open>mk rps burst\<close> is \<open>rate.NewRateLimit\<close>; a limiter is an interface value, nil as \<open>None\<close>.\<close>

definition setLimiters :: "(int \<Rightarrow> int \<Rightarrow> 'lim) \<Rightarrow> 'lim ls_rest \<Rightarrow> 'lim ls_rest" where
  "setLimiters mk svc =
     (let defaultLimiter = Some (mk 2 2)
      in svc\<lparr>lr_limiter := defaultLimiter,
             lr_trLimiters := [ls_TrIDPrice \<mapsto> defaultLimiter, ls_TrIDOrderbook \<mapsto> defaultLimiter,
               TrIDMultiPrice \<mapsto> defaultLimiter, TrIDBalanceT0424 \<mapsto> defaultLimiter,
               TrIDBalanceCSPAQ \<mapsto> defaultLimiter]\<rparr>)"

definition limiterForTR :: "'lim ls_rest \<Rightarrow> string \<Rightarrow> 'lim option" where
  "limiterForTR svc trID =
     (case lr_trLimiters svc trID of Some (Some l) \<Rightarrow> Some l | _ \<Rightarrow> lr_limiter svc)"

definition rest_New ::
    "(int \<Rightarrow> int \<Rightarrow> 'lim) \<Rightarrow> bool \<Rightarrow> bool \<Rightarrow> string \<Rightarrow> string \<Rightarrow> 'e ls_rest_error + 'lim ls_rest" where
  "rest_New mk hasReq hasAuth restURL accountNo =
     (if \<not> hasReq then Inl ErrNilRequester
      else if \<not> hasAuth then Inl ErrNilAuth
      else Inr (setLimiters mk
        \<lparr>lr_restURL = (if restURL = [] then BaseURLDefault else restURL), lr_accountNo = accountNo,
         lr_limiter = None, lr_trLimiters = (\<lambda>_. None)\<rparr>))"

datatype ls_body =
    Body1101 t1101_request | Body1102 t1102_request | Body8407 t8407_request | Body0424 t0424_request
  | BodyCSPAQ cspaq12300_request

record rest_meta =
  rm_method :: string
  rm_path :: string
  rm_trID :: string

record ls_rest_request =
  lq_meta :: rest_meta
  lq_trCont :: string
  lq_trContKey :: string
  lq_bodyReq :: "ls_body option"

record ls_rest_item =
  li_Method :: string
  li_Path :: string
  li_Headers :: "(string \<times> string) list"
  li_Body :: "ls_body option"

definition meta_request :: "rest_meta \<Rightarrow> ls_body \<Rightarrow> ls_rest_request" where
  "meta_request m body = \<lparr>lq_meta = m, lq_trCont = [], lq_trContKey = [], lq_bodyReq = Some body\<rparr>"

definition restMetaT1102 :: rest_meta where
  "restMetaT1102 = \<lparr>rm_method = ''POST'', rm_path = PathStockMarket, rm_trID = ls_TrIDPrice\<rparr>"

definition restMetaT1101 :: rest_meta where
  "restMetaT1101 = \<lparr>rm_method = ''POST'', rm_path = PathStockMarket, rm_trID = ls_TrIDOrderbook\<rparr>"

definition restMetaT8407 :: rest_meta where
  "restMetaT8407 = \<lparr>rm_method = ''POST'', rm_path = PathStockMarket, rm_trID = TrIDMultiPrice\<rparr>"

definition restMetaT0424 :: rest_meta where
  "restMetaT0424 = \<lparr>rm_method = ''POST'', rm_path = PathStockAccount, rm_trID = TrIDBalanceT0424\<rparr>"

definition restMetaCSPAQ12300 :: rest_meta where
  "restMetaCSPAQ12300 = \<lparr>rm_method = ''POST'', rm_path = PathStockAccount, rm_trID = TrIDBalanceCSPAQ\<rparr>"

definition orDefault :: "string \<Rightarrow> string \<Rightarrow> string" where
  "orDefault v fallback = (if trim_space v = [] then fallback else v)"

definition buildRESTHeaders :: "string \<Rightarrow> ls_rest_request \<Rightarrow> (string \<times> string) list" where
  "buildRESTHeaders tok req =
     [(''Content-Type'', ''application/json; charset=utf-8''), (''authorization'', ''Bearer '' @ tok),
      (''tr_cd'', rm_trID (lq_meta req)), (''tr_cont'', orDefault (lq_trCont req) ''N''),
      (''tr_cont_key'', lq_trContKey req)]"

definition send_callback ::
    "('lim \<Rightarrow> 'e option) \<Rightarrow> 'e ls_rest_error + string \<Rightarrow> 'lim ls_rest \<Rightarrow> ls_rest_request \<Rightarrow> 'e ls_rest_error + ls_rest_item" where
  "send_callback wait token svc req =
     (case Option.bind (limiterForTR svc (rm_trID (lq_meta req))) wait of
        Some e \<Rightarrow> Inl (OperationError ''ls send REST rate limit'' (External e))
      | None \<Rightarrow>
          (case token of
             Inl e \<Rightarrow> Inl (OperationError ''ls send REST token'' e)
           | Inr tok \<Rightarrow>
               Inr \<lparr>li_Method = (if rm_method (lq_meta req) = [] then ''POST'' else rm_method (lq_meta req)),
                    li_Path = lr_restURL svc @ rm_path (lq_meta req),
                    li_Headers = buildRESTHeaders tok req, li_Body = lq_bodyReq req\<rparr>))"

definition ls_sendREST ::
    "('e ls_rest_error + ls_rest_item \<Rightarrow> 'e ls_rest_error + 'r) \<Rightarrow> ('r \<Rightarrow> 'e ls_rest_error option) \<Rightarrow>
     ('lim \<Rightarrow> 'e option) \<Rightarrow> 'e ls_rest_error + string \<Rightarrow> 'lim ls_rest \<Rightarrow> ls_rest_request \<Rightarrow> 'e ls_rest_error + 'r" where
  "ls_sendREST send check wait token svc req =
     (case send (send_callback wait token svc req) of
        Inl e \<Rightarrow> Inl e
      | Inr resp \<Rightarrow> (case check resp of Some apiErr \<Rightarrow> Inl apiErr | None \<Rightarrow> Inr resp))"

definition wrap_op :: "string \<Rightarrow> 'e ls_rest_error + 'r \<Rightarrow> 'e ls_rest_error + 'r" where
  "wrap_op op r = (case r of Inl e \<Rightarrow> Inl (OperationError op e) | Inr x \<Rightarrow> Inr x)"
section \<open>The calls\<close>

text \<open>\<open>normalizeIssueCode\<close> of \<open>transport.go\<close>; the second result is whether the first counts.\<close>

definition rest_normalizeIssueCode :: "string \<Rightarrow> string \<times> bool" where
  "rest_normalizeIssueCode code =
     (let t = trim_space code
      in if t = [] then ([], False)
         else let c = cut_prefix_A t in if length c \<noteq> 6 then ([], False) else (c, isDecimalDigits c))"

definition fetchT1102 ::
    "('e ls_rest_error + ls_rest_item \<Rightarrow> 'e ls_rest_error + t1102_response) \<Rightarrow> ('lim \<Rightarrow> 'e option) \<Rightarrow>
     'e ls_rest_error + string \<Rightarrow> 'lim ls_rest \<Rightarrow> string \<Rightarrow> 'e ls_rest_error + t1102_response" where
  "fetchT1102 send wait token svc code =
     ls_sendREST send t1102_CheckError wait token svc
       (meta_request restMetaT1102 (Body1102 \<lparr>qbr_In = \<lparr>qb_Shcode = code\<rparr>\<rparr>))"

definition fetchT1101 ::
    "('e ls_rest_error + ls_rest_item \<Rightarrow> 'e ls_rest_error + t1101_response) \<Rightarrow> ('lim \<Rightarrow> 'e option) \<Rightarrow>
     'e ls_rest_error + string \<Rightarrow> 'lim ls_rest \<Rightarrow> string \<Rightarrow> 'e ls_rest_error + t1101_response" where
  "fetchT1101 send wait token svc code =
     ls_sendREST send t1101_CheckError wait token svc
       (meta_request restMetaT1101 (Body1101 \<lparr>qar_In = \<lparr>qa_Shcode = code\<rparr>\<rparr>))"

text \<open>The loop of \<open>fetchT8407\<close> over the codes.\<close>

fun join_codes :: "string list \<Rightarrow> string \<Rightarrow> 'e ls_rest_error + string" where
  "join_codes [] joined = Inr joined"
| "join_codes (code # codes) joined =
     (case rest_normalizeIssueCode code of
        (normalized, ok) \<Rightarrow>
          if \<not> ok then Inl (InvalidCode TrIDMultiPrice code) else join_codes codes (joined @ normalized))"

definition fetchT8407 ::
    "('e ls_rest_error + ls_rest_item \<Rightarrow> 'e ls_rest_error + t8407_response) \<Rightarrow> ('lim \<Rightarrow> 'e option) \<Rightarrow>
     'e ls_rest_error + string \<Rightarrow> 'lim ls_rest \<Rightarrow> string list \<Rightarrow> 'e ls_rest_error + t8407_response" where
  "fetchT8407 send wait token svc codes =
     (if codes = [] then Inl ErrT8407CodesRequired
      else if t8407MaxCodes < length codes
        then Inl (CodeLimitError TrIDMultiPrice (int t8407MaxCodes) (int (length codes)))
      else bindE (join_codes codes []) (\<lambda>joined.
        ls_sendREST send t8407_CheckError wait token svc
          (meta_request restMetaT8407 (Body8407 \<lparr>qcr_In = \<lparr>qc_Nrec = int (length codes), qc_Shcode = joined\<rparr>\<rparr>))))"

definition fetchT0424 ::
    "('e ls_rest_error + ls_rest_item \<Rightarrow> 'e ls_rest_error + t0424_response) \<Rightarrow> ('lim \<Rightarrow> 'e option) \<Rightarrow>
     'e ls_rest_error + string \<Rightarrow> 'lim ls_rest \<Rightarrow> 'e ls_rest_error + t0424_response" where
  "fetchT0424 send wait token svc =
     ls_sendREST send t0424_CheckError wait token svc
       (meta_request restMetaT0424 (Body0424 \<lparr>qdr_In =
          \<lparr>qd_Prcgb = ''1'', qd_Chegb = ''0'', qd_Dangb = ''0'', qd_Charge = ''1'', qd_CtsExpcode = []\<rparr>\<rparr>))"

definition rest_GetPrice ::
    "('e ls_rest_error + ls_rest_item \<Rightarrow> 'e ls_rest_error + t1102_response) \<Rightarrow> ('lim \<Rightarrow> 'e option) \<Rightarrow>
     'e ls_rest_error + string \<Rightarrow> 'lim ls_rest \<Rightarrow> string \<Rightarrow> 'e ls_rest_error + t1102_response" where
  "rest_GetPrice send wait token svc code = wrap_op ''ls get price'' (fetchT1102 send wait token svc code)"

definition rest_GetOrderbook ::
    "('e ls_rest_error + ls_rest_item \<Rightarrow> 'e ls_rest_error + t1101_response) \<Rightarrow> ('lim \<Rightarrow> 'e option) \<Rightarrow>
     'e ls_rest_error + string \<Rightarrow> 'lim ls_rest \<Rightarrow> string \<Rightarrow> 'e ls_rest_error + t1101_response" where
  "rest_GetOrderbook send wait token svc code =
     wrap_op ''ls get orderbook'' (fetchT1101 send wait token svc code)"

definition rest_GetMultiPrices ::
    "('e ls_rest_error + ls_rest_item \<Rightarrow> 'e ls_rest_error + t8407_response) \<Rightarrow> ('lim \<Rightarrow> 'e option) \<Rightarrow>
     'e ls_rest_error + string \<Rightarrow> 'lim ls_rest \<Rightarrow> string list \<Rightarrow> 'e ls_rest_error + t8407_response" where
  "rest_GetMultiPrices send wait token svc codes =
     wrap_op ''ls get multi prices'' (fetchT8407 send wait token svc codes)"

definition rest_GetBalance ::
    "('e ls_rest_error + ls_rest_item \<Rightarrow> 'e ls_rest_error + t0424_response) \<Rightarrow> ('lim \<Rightarrow> 'e option) \<Rightarrow>
     'e ls_rest_error + string \<Rightarrow> 'lim ls_rest \<Rightarrow> 'e ls_rest_error + t0424_response" where
  "rest_GetBalance send wait token svc = wrap_op ''ls get balance'' (fetchT0424 send wait token svc)"

section \<open>The combined API\<close>

text \<open>\<open>ls/config.go\<close> and \<open>New\<close> of \<open>ls/api/client.go\<close>. The arguments are the failures of
  \<open>requester.New\<close>, of the key store and of the realtime service; the result holds the token
  service, the websocket URL that the realtime service gets, and the REST service.\<close>

record ls_config =
  lf_AccountID :: string
  lf_AppKey :: string
  lf_AppSecret :: string
  lf_AccountNo :: string
  lf_IsPaper :: bool

abbreviation ls_BrokerName :: string where "ls_BrokerName \<equiv> ''ls''"
abbreviation WSURLReal :: string where "WSURLReal \<equiv> ''wss://openapi.ls-sec.co.kr:9443/websocket''"
abbreviation WSURLPaper :: string where "WSURLPaper \<equiv> ''wss://openapi.ls-sec.co.kr:29443/websocket''"

definition ResolveWSURL :: "bool \<Rightarrow> string" where
  "ResolveWSURL isPaper = (if isPaper then WSURLPaper else WSURLReal)"

definition RequesterName :: "string \<Rightarrow> string" where
  "RequesterName accountID = (if accountID = [] then ls_BrokerName else ls_BrokerName @ ''-'' @ accountID)"

definition api_New ::
    "(int \<Rightarrow> int \<Rightarrow> 'lim) \<Rightarrow> 'e option \<Rightarrow> 'e option \<Rightarrow> 'e ls_rest_error option \<Rightarrow> ls_config \<Rightarrow>
      'e ls_rest_error + ls_auth \<times> string \<times> 'lim ls_rest" where
  "api_New mk requesterErr store realtimeErr cfg =
     (case requesterErr of
        Some e \<Rightarrow> Inl (External e)
      | None \<Rightarrow>
          bindE (auth_New True store BaseURLDefault (lf_AppKey cfg) (lf_AppSecret cfg)) (\<lambda>authService.
          case realtimeErr of
            Some e \<Rightarrow> Inl e
          | None \<Rightarrow>
              bindE (rest_New mk True True BaseURLDefault (lf_AccountNo cfg)) (\<lambda>restService.
              Inr (authService, ResolveWSURL (lf_IsPaper cfg), restService))))"

text \<open>A service that \<open>New\<close> built limits every call with the one shared limiter.\<close>

lemma api_New_limited:
  assumes "api_New mk None None None cfg = Inr (a, url, svc)"
  shows "limiterForTR svc trID = Some (mk 2 2)" and "au_appKey a \<noteq> []" and "lr_restURL svc = au_restURL a"
  using assms
  by (auto simp: api_New_def auth_New_def rest_New_def setLimiters_def limiterForTR_def bindE_def Let_def split: if_splits)

section \<open>The multi-price request\<close>

fun chunks6 :: "string \<Rightarrow> string list" where
  "chunks6 (a # b # c # d # e # f # s) = [a, b, c, d, e, f] # chunks6 s"
| "chunks6 _ = []"

lemma chunks6_append: "length c = 6 \<Longrightarrow> chunks6 (c @ s) = c # chunks6 s"
  by (auto simp: numeral_eq_Suc length_Suc_conv)

lemma chunks6_concat: "list_all (\<lambda>c. length c = 6) cs \<Longrightarrow> chunks6 (concat cs) = cs"
  by (induction cs) (simp_all add: chunks6_append)

definition issue_code_ok :: "string \<Rightarrow> bool" where
  "issue_code_ok code \<longleftrightarrow> snd (rest_normalizeIssueCode code)"

lemma normalized_length: "issue_code_ok code \<Longrightarrow> length (fst (rest_normalizeIssueCode code)) = 6"
  by (auto simp: issue_code_ok_def rest_normalizeIssueCode_def Let_def split: if_splits)

lemma join_codes_find:
  "join_codes codes joined = (case find (\<lambda>c. \<not> issue_code_ok c) codes of
     Some bad \<Rightarrow> Inl (InvalidCode TrIDMultiPrice bad)
   | None \<Rightarrow> Inr (joined @ concat (map (fst \<circ> rest_normalizeIssueCode) codes)))"
  by (induction codes arbitrary: joined) (simp_all add: issue_code_ok_def case_prod_unfold split: option.splits)

text \<open>What one call hands to the requester, when the limiter lets it pass and there is a token.\<close>

lemma send_callback_item:
  assumes "\<And>l. wait l = None" and "token = Inr tok"
  shows "send_callback wait token svc (meta_request m body) =
    Inr \<lparr>li_Method = (if rm_method m = [] then ''POST'' else rm_method m), li_Path = lr_restURL svc @ rm_path m,
      li_Headers = buildRESTHeaders tok (meta_request m body), li_Body = Some body\<rparr>"
  using assms by (auto simp: send_callback_def meta_request_def split: bind_splits)

definition multi_item :: "string \<Rightarrow> 'lim ls_rest \<Rightarrow> nat \<Rightarrow> string \<Rightarrow> ls_rest_item" where
  "multi_item tok svc n joined =
     \<lparr>li_Method = ''POST'', li_Path = lr_restURL svc @ PathStockMarket,
      li_Headers = [(''Content-Type'', ''application/json; charset=utf-8''), (''authorization'', ''Bearer '' @ tok),
        (''tr_cd'', TrIDMultiPrice), (''tr_cont'', ''N''), (''tr_cont_key'', [])],
      li_Body = Some (Body8407 \<lparr>qcr_In = \<lparr>qc_Nrec = int n, qc_Shcode = joined\<rparr>\<rparr>)\<rparr>"

text \<open>The multi-price call sends what it was asked for. Between one and fifty codes, all valid,
  make one request whose record count is the number of codes and whose single text, cut every
  six characters, is the list of the normalized codes in order; the answer is the broker's unless
  that carries a business error. No code, more than fifty, or the first invalid one is refused
  before anything is sent.\<close>

theorem ls_multi_price_request:
  assumes "\<And>l. wait l = None" and "token = Inr tok"
  shows "if codes = [] then rest_GetMultiPrices send wait token svc codes =
        Inl (OperationError ''ls get multi prices'' ErrT8407CodesRequired)
    else if 50 < length codes then \<exists>e. rest_GetMultiPrices send wait token svc codes = Inl e \<and> is_ErrTooManyCodes e
    else case find (\<lambda>c. \<not> issue_code_ok c) codes of
        Some bad \<Rightarrow> rest_GetMultiPrices send wait token svc codes =
          Inl (OperationError ''ls get multi prices'' (InvalidCode TrIDMultiPrice bad))
      | None \<Rightarrow> \<exists>joined. chunks6 joined = map (fst \<circ> rest_normalizeIssueCode) codes \<and> length joined = 6 * length codes \<and>
          rest_GetMultiPrices send wait token svc codes =
            wrap_op ''ls get multi prices'' (bindE (send (Inr (multi_item tok svc (length codes) joined)))
              (\<lambda>resp. case t8407_CheckError resp of Some e \<Rightarrow> Inl e | None \<Rightarrow> Inr resp))"
proof -
  note defs = rest_GetMultiPrices_def fetchT8407_def wrap_op_def
  consider "codes = []" | "50 < length codes" | bad where "codes \<noteq> []" "length codes \<le> 50" "find (\<lambda>c. \<not> issue_code_ok c) codes = Some bad"
    | "codes \<noteq> []" "length codes \<le> 50" "find (\<lambda>c. \<not> issue_code_ok c) codes = None"
    by (metis not_le option.exhaust)
  then show ?thesis
  proof cases
    case (3 bad)
    then show ?thesis by (simp add: defs join_codes_find)
  next
    case 4
    then have ok: "list_all issue_code_ok codes" by (auto simp: find_None_iff list_all_iff)
    define joined where "joined = concat (map (fst \<circ> rest_normalizeIssueCode) codes)"
    have six: "list_all (\<lambda>c. length c = 6) (map (fst \<circ> rest_normalizeIssueCode) codes)"
      using ok normalized_length by (auto simp: list_all_iff)
    then have len: "length joined = 6 * length codes"
      unfolding joined_def by (induction codes) simp_all
    have send: "send_callback wait token svc (meta_request restMetaT8407
          (Body8407 \<lparr>qcr_In = \<lparr>qc_Nrec = int (length codes), qc_Shcode = joined\<rparr>\<rparr>)) =
        Inr (multi_item tok svc (length codes) joined)"
      unfolding send_callback_item [OF assms]
      by (simp add: multi_item_def buildRESTHeaders_def meta_request_def restMetaT8407_def orDefault_def trim_space_def)
    have "rest_GetMultiPrices send wait token svc codes =
        wrap_op ''ls get multi prices'' (bindE (send (Inr (multi_item tok svc (length codes) joined)))
          (\<lambda>resp. case t8407_CheckError resp of Some e \<Rightarrow> Inl e | None \<Rightarrow> Inr resp))"
      using 4
      by (simp add: join_codes_find rest_GetMultiPrices_def fetchT8407_def ls_sendREST_def send joined_def [symmetric] bindE_def)
    with 4 len chunks6_concat [OF six] show ?thesis unfolding joined_def [symmetric] by auto
  qed (auto simp: defs)
qed

definition demo_service :: "unit ls_rest" where
  "demo_service = \<lparr>lr_restURL = BaseURLDefault, lr_accountNo = [], lr_limiter = None, lr_trLimiters = (\<lambda>_. None)\<rparr>"

theorem ls_multi_price_request_witness:
  "\<exists>joined. chunks6 joined = [''005930'', ''000660''] \<and>
    rest_GetMultiPrices (\<lambda>_. Inl (External ())) (\<lambda>_. None) (Inr ''T'') demo_service [''005930'', '' A000660 ''] =
      Inl (OperationError ''ls get multi prices'' (External ()))"
proof -
  have n: "rest_normalizeIssueCode ''005930'' = (''005930'', True)" "rest_normalizeIssueCode '' A000660 '' = (''000660'', True)"
    by code_simp+
  show ?thesis
    using ls_multi_price_request [of "\<lambda>_. None" "Inr ''T''" "''T''" "[''005930'', '' A000660 '']" "\<lambda>_. Inl (External ())" demo_service]
    by (auto simp: n issue_code_ok_def wrap_op_def)
qed

end
