(* ===== verification/LS_Exchange.thy ===== *)
theory LS_Exchange
  imports LS_Rest KIS_Parser Balance_Manager IO_Worker
begin

text \<open>
  The adapter that makes the LS client an exchange: \<open>internal/adapter/exchange/ls/exchange.go\<close>. What
  \<open>Client.GetPrice\<close>, \<open>GetOrderbook\<close> and \<open>GetBalance\<close> answer is an argument (they pass the calls of
  \<open>LS_Rest\<close> on); a nil response next to a nil error is \<open>Inr None\<close>.
\<close>

section \<open>Conversions\<close>

record orderbook_item =
  oi_Price :: rat
  oi_Volume :: rat

record exch_orderbook =
  xo_Code :: string
  xo_Bids :: "orderbook_item list"
  xo_Asks :: "orderbook_item list"

definition adapter_normalizeIssueCode :: "string \<Rightarrow> string option" where
  "adapter_normalizeIssueCode code =
     (let t = trim_space code
      in if t = [] then None
         else let c = cut_prefix_A t
              in if length c \<noteq> 6 then None
                 else if list_all (\<lambda>ch. digit_val ch \<noteq> None) c then Some c else None)"

fun adapter_firstNonEmpty :: "string list \<Rightarrow> string" where
  "adapter_firstNonEmpty [] = []"
| "adapter_firstNonEmpty (v # vs) = (if v \<noteq> [] then v else adapter_firstNonEmpty vs)"

definition buildExchangePriceFromT1102 ::
    "t1102_response option \<Rightarrow> string \<Rightarrow> go_time \<Rightarrow> 'e ls_rest_error + exch_price option" where
  "buildExchangePriceFromT1102 resp fallbackCode ts =
     (case resp of
        None \<Rightarrow> Inr None
      | Some r \<Rightarrow>
          (let out = rb_OutBlock r
           in case Scaled ls_RateScale (ob_Diff out) of
                Inl err \<Rightarrow> Inl (FieldParseError ''t1102OutBlock.diff'' ''scaled-int64'' (ob_Diff out) err)
              | Inr changePct \<Rightarrow>
                  Inr (Some \<lparr>xp_Code = adapter_firstNonEmpty [trim_space (ob_Shcode out), trim_space fallbackCode],
                    xp_Current = ob_Price out, xp_Open = ob_Open out, xp_High = ob_High out, xp_Low = ob_Low out,
                    xp_PrevClose = ob_JnilClose out, xp_Volume = ob_Volume out, xp_Change = ob_Change out,
                    xp_ChangePct = changePct, xp_Timestamp = ts\<rparr>)))"

abbreviation book_item :: "int \<Rightarrow> int \<Rightarrow> orderbook_item" where
  "book_item p q \<equiv> \<lparr>oi_Price = fl64 (of_int p), oi_Volume = fl64 (of_int q)\<rparr>"

definition buildExchangeOrderbookFromT1101 :: "t1101_response option \<Rightarrow> string \<Rightarrow> exch_orderbook option" where
  "buildExchangeOrderbookFromT1101 resp fallbackCode =
     (case resp of
        None \<Rightarrow> None
      | Some r \<Rightarrow>
          (let out = ra_OutBlock r
           in Some \<lparr>xo_Code = adapter_firstNonEmpty [trim_space (oa_Shcode out), trim_space fallbackCode],
                xo_Bids =
                  [book_item (oa_BidHo1 out) (oa_BidRem1 out),
                   book_item (oa_BidHo2 out) (oa_BidRem2 out),
                   book_item (oa_BidHo3 out) (oa_BidRem3 out),
                   book_item (oa_BidHo4 out) (oa_BidRem4 out),
                   book_item (oa_BidHo5 out) (oa_BidRem5 out),
                   book_item (oa_BidHo6 out) (oa_BidRem6 out),
                   book_item (oa_BidHo7 out) (oa_BidRem7 out),
                   book_item (oa_BidHo8 out) (oa_BidRem8 out),
                   book_item (oa_BidHo9 out) (oa_BidRem9 out),
                   book_item (oa_BidHo10 out) (oa_BidRem10 out)],
                xo_Asks =
                  [book_item (oa_OfferHo1 out) (oa_OfferRem1 out),
                   book_item (oa_OfferHo2 out) (oa_OfferRem2 out),
                   book_item (oa_OfferHo3 out) (oa_OfferRem3 out),
                   book_item (oa_OfferHo4 out) (oa_OfferRem4 out),
                   book_item (oa_OfferHo5 out) (oa_OfferRem5 out),
                   book_item (oa_OfferHo6 out) (oa_OfferRem6 out),
                   book_item (oa_OfferHo7 out) (oa_OfferRem7 out),
                   book_item (oa_OfferHo8 out) (oa_OfferRem8 out),
                   book_item (oa_OfferHo9 out) (oa_OfferRem9 out),
                   book_item (oa_OfferHo10 out) (oa_OfferRem10 out)]\<rparr>))"

fun adapter_holdings :: "t0424_holding list \<Rightarrow> holding list \<Rightarrow> 'e ls_rest_error + holding list" where
  "adapter_holdings [] out = Inr out"
| "adapter_holdings (h # hs) out =
     (case adapter_normalizeIssueCode (oh_Expcode h) of
        None \<Rightarrow> adapter_holdings hs out
      | Some code \<Rightarrow>
          (case Scaled ls_RateScale (oh_Sunikrt h) of
             Inl err \<Rightarrow> Inl (FieldParseError ''t0424OutBlock1.sunikrt'' ''scaled-int64'' (oh_Sunikrt h) err)
           | Inr pnlPct \<Rightarrow>
               adapter_holdings hs (out @ [\<lparr>ho_Code = code, ho_Name = trim_space (oh_Hname h),
                 ho_Quantity = oh_Janqty h, ho_AvgCost = oh_Pamt h, ho_CurrentPrice = oh_Price h,
                 ho_PnL = oh_Dtsunik h, ho_PnLPct = pnlPct\<rparr>])))"

definition buildExchangeBalanceFromT0424 :: "t0424_response option \<Rightarrow> 'e ls_rest_error + balance option" where
  "buildExchangeBalanceFromT0424 resp =
     (case resp of
        None \<Rightarrow> Inr None
      | Some r \<Rightarrow>
          (let totalAsset0 = od_Tappamt (rd_OutBlock r);
               totalAsset = (if totalAsset0 = 0 then od_Sunamt (rd_OutBlock r) else totalAsset0)
           in bindE (adapter_holdings (rd_OutBlock1 r) []) (\<lambda>hs.
                Inr (Some \<lparr>ba_TotalAsset = totalAsset, ba_CashBalance = 0, ba_Holdings = hs\<rparr>))))"

definition adapter_GetPrice ::
    "go_time \<Rightarrow> (string \<Rightarrow> 'e ls_rest_error + t1102_response) \<Rightarrow> string \<Rightarrow> 'e ls_rest_error + exch_price option" where
  "adapter_GetPrice now getPrice code =
     bindE (getPrice code) (\<lambda>resp. buildExchangePriceFromT1102 (Some resp) code now)"

definition adapter_GetOrderbook ::
    "(string \<Rightarrow> 'e ls_rest_error + t1101_response) \<Rightarrow> string \<Rightarrow> 'e ls_rest_error + exch_orderbook option" where
  "adapter_GetOrderbook getOrderbook code =
     bindE (getOrderbook code) (\<lambda>resp. Inr (buildExchangeOrderbookFromT1101 (Some resp) code))"

definition adapter_GetBalance :: "'e ls_rest_error + t0424_response \<Rightarrow> 'e ls_rest_error + balance option" where
  "adapter_GetBalance getBalance = bindE getBalance (\<lambda>resp. buildExchangeBalanceFromT0424 (Some resp))"
section \<open>Rates as fixed point\<close>

text \<open>A rate in plain decimal text: it denotes \<open>n\<close> ten-thousandths, written without exponent.\<close>

definition plain_rate :: "string \<Rightarrow> int \<Rightarrow> bool" where
  "plain_rate v n \<longleftrightarrow> decimal_val v = Some (of_int n / 10000) \<and> CHR ''e'' \<notin> set v \<and> CHR ''E'' \<notin> set v \<and>
     \<bar>n\<bar> \<le> 1000000000000000"

text \<open>The text with four decimals.\<close>

definition pad4 :: "nat \<Rightarrow> string" where
  "pad4 k = map digit_char [k div 1000 mod 10, k div 100 mod 10, k div 10 mod 10, k mod 10]"

definition write_rate :: "int \<Rightarrow> string" where
  "write_rate n = (if n < 0 then [CHR ''-''] else []) @
     show_nat (nat \<bar>n\<bar> div 10000) @ CHR ''.'' # pad4 (nat \<bar>n\<bar> mod 10000)"

lemma digits_val_show_nat: "digits_val 0 (show_nat n) = Some n"
proof (induction n rule: show_nat.induct)
  case (1 n)
  show ?case
  proof (cases "n < 10")
    case True
    then show ?thesis by (subst show_nat.simps) simp
  next
    case False
    with 1 have "digits_val 0 (show_nat (n div 10) @ [digit_char (n mod 10)]) = Some n"
      by (subst digits_val_append) simp
    then show ?thesis using False by (subst show_nat.simps) simp
  qed
qed

lemma length_pad4 [simp]: "length (pad4 k) = 4"
  by (simp add: pad4_def)

lemma digits_val_four:
  "a < 10 \<Longrightarrow> b < 10 \<Longrightarrow> c < 10 \<Longrightarrow> d < 10 \<Longrightarrow>
    digits_val 0 (map digit_char [a, b, c, d]) = Some (((a * 10 + b) * 10 + c) * 10 + d)"
  by simp

lemma digits_val_pad4: "k < 10000 \<Longrightarrow> digits_val 0 (pad4 k) = Some k"
proof -
  assume "k < 10000"
  then have "k div 1000 mod 10 = k div 1000" by simp
  moreover have "k div 1000 * 10 + k div 100 mod 10 = k div 100" "k div 100 * 10 + k div 10 mod 10 = k div 10"
    using div_mult_mod_eq [of "k div 100" 10] div_mult_mod_eq [of "k div 10" 10] by (simp_all flip: div_mult2_eq)
  moreover have "k div 10 * 10 + k mod 10 = k" by (rule div_mult_mod_eq)
  ultimately have "((k div 1000 mod 10 * 10 + k div 100 mod 10) * 10 + k div 10 mod 10) * 10 + k mod 10 = k"
    by (simp only:)
  then show ?thesis unfolding pad4_def by (subst digits_val_four) (simp_all only: mod_less_divisor zero_less_numeral)
qed

lemma plain_rate_write:
  assumes "\<bar>n\<bar> \<le> 1000000000000000"
  shows "plain_rate (write_rate n) n"
proof -
  define w where "w = nat \<bar>n\<bar> div 10000"
  define k where "k = nat \<bar>n\<bar> mod 10000"
  define body where "body = show_nat w @ CHR ''.'' # pad4 k"
  have v: "write_rate n = (if n < 0 then [CHR ''-''] else []) @ body"
    by (simp add: write_rate_def w_def k_def body_def)
  have no: "c \<notin> set body" if "c \<noteq> CHR ''.''" "digit_val c = None" for c
  proof -
    have d: "digit_char d \<noteq> c" if "d < 10" for d using that \<open>digit_val c = None\<close> by auto
    then show ?thesis using that(1) show_nat_free [of c w] d [symmetric] by (auto simp: body_def pad4_def)
  qed
  have e: "CHR ''e'' \<notin> set body" "CHR ''E'' \<notin> set body" "CHR ''-'' \<notin> set body" "CHR ''+'' \<notin> set body"
    by (intro no; simp add: digit_val_def)+
  have ne: "body \<noteq> []" by (simp add: body_def)
  have "CHR ''.'' \<notin> set (show_nat w)" using show_nat_free digit_char_neq(3) by metis
  then have "mantissa_val body = Some (of_nat (w * 10000 + k) / 10000)"
    unfolding mantissa_val_def body_def
    by (simp add: cut_at_append digits_val_append [THEN iffD2] digits_val_show_nat digits_val_pad4 k_def)
  moreover have "w * 10000 + k = nat \<bar>n\<bar>" by (simp add: w_def k_def)
  ultimately have m: "mantissa_val body = Some (of_int \<bar>n\<bar> / 10000)" by simp
  have "strip_sign (write_rate n) = (n < 0, body)"
    using e ne by (cases body) (auto simp: v strip_sign_def)
  moreover have "cut_exp body = None" using e by (simp add: cut_exp_def cut_at_None [THEN iffD2])
  ultimately have "decimal_val (write_rate n) = Some (of_int n / 10000)"
    using m by (auto simp: decimal_val_def abs_if)
  with assms e show ?thesis by (auto simp: plain_rate_def v)
qed

section \<open>Readers of rates\<close>

text \<open>Two parts of the program read rates from text: the decimal text of the LS responses and the
  fields of the KIS messages. What both promise is the contract of this locale.\<close>

locale rate_reader =
  fixes rate :: "string \<Rightarrow> 'e + int"
  assumes reads: "plain_rate v n \<Longrightarrow> rate v = Inr n"
begin

lemma reads_written: "\<bar>n\<bar> \<le> 1000000000000000 \<Longrightarrow> rate (write_rate n) = Inr n"
  by (intro reads plain_rate_write)

lemma reads_same: "plain_rate v n \<Longrightarrow> plain_rate w n \<Longrightarrow> rate v = rate w"
  by (simp add: reads)

end

lemma plain_rate_trim: "plain_rate v n \<Longrightarrow> trim_space v = v"
proof -
  assume v: "plain_rate v n"
  then have "list_all (\<lambda>c. \<not> is_space c) v" "v \<noteq> []" using decimal_chars(2,3) by (auto simp: plain_rate_def)
  then show ?thesis by (intro trim_space_noop) (auto simp: list_all_iff)
qed

lemma parseRate_plain: "plain_rate v n \<Longrightarrow> parseRate impl v = Inr n"
  using plain_rate_trim by (intro parseRate_decimal) (auto simp: plain_rate_def)

interpretation ls_rate: rate_reader "Scaled ls_RateScale"
proof
  fix v n
  assume v: "plain_rate v n"
  then have b: "\<bar>n\<bar> \<le> 1000000000000000" by (simp add: plain_rate_def)
  have t: "trunc_rat (of_int n / 10000 * 10 ^ 4) = n" by (simp add: trunc_rat_def)
  have "\<bar>rat_of_int n / 10000\<bar> \<le> 100000000000" using decimal_bounds(2) [OF b] by simp
  then have "\<lfloor>\<bar>rat_of_int n / 10000\<bar>\<rfloor> < 9223372036854775808" by linarith
  moreover have "in64 n" using b by (simp add: in64_def abs_le_iff)
  ultimately show "Scaled ls_RateScale v = Inr n"
    using v Scaled_plain [of v "of_int n / 10000" 4] t by (simp add: plain_rate_def)
qed

interpretation kis_rate: rate_reader "parseRate impl"
  by unfold_locales (rule parseRate_plain)
text \<open>The two brokers' rates mean the same: a rate in plain decimal text, with at most four
  decimals, becomes the same fixed-point number when it arrives in an LS response, which never
  leaves the integers, and in a KIS message, which goes through a \<open>float64\<close> product.\<close>

theorem ls_kis_rates_agree:
  assumes "plain_rate v n"
  shows "Scaled ls_RateScale v = Inr n \<and> parseRate impl v = Inr n \<and>
    Scaled ls_RateScale (write_rate n) = Inr n \<and> parseRate impl (write_rate n) = Inr n"
  using ls_rate.reads [OF assms] kis_rate.reads [OF assms] assms
  by (simp add: plain_rate_def ls_rate.reads_written kis_rate.reads_written)

theorem ls_kis_rates_agree_witness:
  "Scaled 10000 ''-0.57'' = Inr (- 5700) \<and> parseRate (\<lambda>_. 0) ''-0.57'' = Inr (- 5700)"
proof -
  have "decimal_val ''-0.57'' = Some (- 57 / 100)" by code_simp
  then have "plain_rate ''-0.57'' (- 5700)" by (simp add: plain_rate_def)
  from ls_kis_rates_agree [OF this] show ?thesis by simp
qed

section \<open>The baseline of an LS account\<close>

text \<open>The Go pair of results.\<close>

definition go_result :: "'e + 'a option \<Rightarrow> 'a option \<times> 'e option" where
  "go_result r = (case r of Inl e \<Rightarrow> (None, Some e) | Inr x \<Rightarrow> (x, None))"

definition stock_code :: "t0424_holding \<Rightarrow> string option" where
  "stock_code h = adapter_normalizeIssueCode (oh_Expcode h)"

definition holding_unreadable :: "t0424_holding \<Rightarrow> bool" where
  "holding_unreadable h \<longleftrightarrow> stock_code h \<noteq> None \<and> isl (Scaled ls_RateScale (oh_Sunikrt h))"

definition adapter_holding :: "t0424_holding \<Rightarrow> holding option" where
  "adapter_holding h = map_option (\<lambda>code. \<lparr>ho_Code = code, ho_Name = trim_space (oh_Hname h),
     ho_Quantity = oh_Janqty h, ho_AvgCost = oh_Pamt h, ho_CurrentPrice = oh_Price h,
     ho_PnL = oh_Dtsunik h, ho_PnLPct = projr (Scaled ls_RateScale (oh_Sunikrt h))\<rparr>) (stock_code h)"

lemma adapter_holdings_find:
  "adapter_holdings hs out = (case find holding_unreadable hs of
     Some h \<Rightarrow> Inl (FieldParseError ''t0424OutBlock1.sunikrt'' ''scaled-int64'' (oh_Sunikrt h)
                 (projl (Scaled ls_RateScale (oh_Sunikrt h))))
   | None \<Rightarrow> Inr (out @ List.map_filter adapter_holding hs))"
  by (induction hs out rule: adapter_holdings.induct)
     (auto simp: holding_unreadable_def adapter_holding_def stock_code_def map_filter_simps split: option.splits sum.splits)

lemma dom_baseline_holdings: "dom (baseline_holdings hs) = set (map ho_Code hs)"
proof -
  have "dom (fold (\<lambda>h m. m(ho_Code h \<mapsto> f h)) hs m) = dom m \<union> set (map ho_Code hs)" for f and m :: "string \<rightharpoonup> holding_state"
    by (induction hs arbitrary: m) auto
  then show ?thesis by (simp add: baseline_holdings_def)
qed

lemma adapter_holding_codes: "map ho_Code (List.map_filter adapter_holding hs) = List.map_filter stock_code hs"
  by (induction hs) (auto simp: map_filter_simps adapter_holding_def split: option.splits)

text \<open>C20. What the engine knows of an LS account after a refresh through the adapter. One holding
  of a stock whose profit rate is not a decimal number makes the whole balance an error, and the
  account keeps its old state. Otherwise the account has a baseline whose holdings are those
  with a six-digit stock code, and whose cash is zero, whatever the broker reports: the adapter
  never fills in the cash balance.\<close>

theorem ls_adapter_baseline:
  "let result = fst (handleRefresh req (go_result (adapter_GetBalance (Inr resp))) orders);
       a = rr_AccountID req; m' = bm_SetBaseline now m a (br_Balance result)
   in case find holding_unreadable (rd_OutBlock1 resp) of
        Some h \<Rightarrow> br_Err result = Some (FieldParseError ''t0424OutBlock1.sunikrt'' ''scaled-int64'' (oh_Sunikrt h)
                     (projl (Scaled ls_RateScale (oh_Sunikrt h)))) \<and> m' = m
      | None \<Rightarrow> br_Err result = None \<and> bm_GetCash m' a = 0 \<and>
          (case bm_GetBalance m' a of None \<Rightarrow> False
           | Some acct \<Rightarrow> dom (ab_Holdings acct) = set (List.map_filter stock_code (rd_OutBlock1 resp)))"
proof (cases "find holding_unreadable (rd_OutBlock1 resp)")
  case None
  then have b: "adapter_GetBalance (Inr resp) = Inr (Some \<lparr>ba_TotalAsset = (if od_Tappamt (rd_OutBlock resp) = 0
      then od_Sunamt (rd_OutBlock resp) else od_Tappamt (rd_OutBlock resp)), ba_CashBalance = 0,
      ba_Holdings = List.map_filter adapter_holding (rd_OutBlock1 resp)\<rparr>)"
    by (simp add: adapter_GetBalance_def buildExchangeBalanceFromT0424_def adapter_holdings_find Let_def)
  show ?thesis
    by (simp add: b None go_result_def handleRefresh_def bm_SetBaseline_def bm_GetCash_def bm_GetBalance_def
        dom_baseline_holdings adapter_holding_codes [symmetric] Let_def)
next
  case (Some h)
  then show ?thesis
    by (simp add: adapter_GetBalance_def buildExchangeBalanceFromT0424_def adapter_holdings_find go_result_def
        handleRefresh_def bm_SetBaseline_def Let_def)
qed

end
