(* ===== verification/LS2_Types.thy ===== *)
theory LS2_Types
  imports LS_Rest
begin

text \<open>
  The request and response structs of the newer LS REST client,
  \<open>internal/adapter/broker/ls_v2/api\<close> (\<open>rest_types*.go\<close>), as far as they differ from those of
  \<open>LS_Rest\<close>: investment warnings (t1405), prices by minute (t1302), and the minute and tick charts
  (t8412, t8452, t8453). The structs of the other calls are the same in both packages.
\<close>

section \<open>Warnings and minute prices\<close>

record t1405_in =
  q5_Gubun :: string
  q5_Jongchk :: string
  q5_Cts_shcode :: string

record t1405_request =
  w5_In :: t1405_in

record t1405_out =
  a5_Cts_shcode :: string

record t1405_row =
  r5_Hname :: string
  r5_Price :: int
  r5_Sign :: string
  r5_Change :: int
  r5_Diff :: decimal_value
  r5_Volume :: int
  r5_Date :: string
  r5_Edate :: string
  r5_Shcode :: string

record t1405_response =
  s5_RspCd :: string
  s5_RspMsg :: string
  s5_OutBlock :: t1405_out
  s5_OutBlock1 :: "t1405_row list"

record t1302_in =
  q4_Shcode :: string
  q4_Gubun :: string
  q4_Time :: string
  q4_Cnt :: int
  q4_Exchgubun :: string

record t1302_request =
  w4_In :: t1302_in

record t1302_out =
  a4_Cts_Time :: string

record t1302_row =
  r4_Chetime :: string
  r4_Close :: int
  r4_Sign :: string
  r4_Change :: int
  r4_Diff :: decimal_value
  r4_Chdegree :: decimal_value
  r4_Mdvolume :: int
  r4_Msvolume :: int
  r4_Revolume :: int
  r4_Mdchecnt :: int
  r4_Mschecnt :: int
  r4_Rechecnt :: int
  r4_Volume :: int
  r4_Open :: int
  r4_High :: int
  r4_Low :: int
  r4_Cvolume :: int
  r4_Mdchecnttm :: int
  r4_Mschecnttm :: int
  r4_Totofferrem :: int
  r4_Totbidrem :: int
  r4_Mdvolumetm :: int
  r4_Msvolumetm :: int

record t1302_response =
  s4_RspCd :: string
  s4_RspMsg :: string
  s4_OutBlock :: t1302_out
  s4_OutBlock1 :: "t1302_row list"

section \<open>Charts\<close>

record chart_minute_request =
  cm_Shcode :: string
  cm_Minute :: int
  cm_Qrycnt :: int
  cm_Nday :: string
  cm_Sdate :: string
  cm_Stime :: string
  cm_Edate :: string
  cm_Etime :: string
  cm_Comp_yn :: string
  cm_Cont :: bool
  cm_PageTimeout :: int
  cm_Exchgubun :: string

record chart_tick_request =
  ck_Shcode :: string
  ck_Ncnt :: int
  ck_Qrycnt :: int
  ck_Nday :: string
  ck_Sdate :: string
  ck_Stime :: string
  ck_Edate :: string
  ck_Etime :: string
  ck_Comp_yn :: string
  ck_Cont :: bool
  ck_PageTimeout :: int
  ck_Exchgubun :: string

record t8412_in =
  q1_Shcode :: string
  q1_Ncnt :: int
  q1_Qrycnt :: int
  q1_Nday :: string
  q1_Sdate :: string
  q1_Stime :: string
  q1_Edate :: string
  q1_Etime :: string
  q1_Cts_Date :: string
  q1_Cts_Time :: string
  q1_Comp_yn :: string

record t8412_request =
  w1_In :: t8412_in

record t8412_out =
  a1_Shcode :: string
  a1_Jisiga :: int
  a1_Jihigh :: int
  a1_Jilow :: int
  a1_Jiclose :: int
  a1_Jivolume :: int
  a1_Disiga :: int
  a1_Dihigh :: int
  a1_Dilow :: int
  a1_Diclose :: int
  a1_Highend :: int
  a1_Lowend :: int
  a1_Cts_Date :: string
  a1_Cts_Time :: string
  a1_STime :: string
  a1_ETime :: string
  a1_Dshmin :: string
  a1_RecCount :: int

record t8412_row =
  r1_Date :: string
  r1_Time :: string
  r1_Open :: int
  r1_High :: int
  r1_Low :: int
  r1_Close :: int
  r1_JdiffVol :: int
  r1_Value :: int
  r1_Jongchk :: int
  r1_Rate :: decimal_value
  r1_Sign :: string

record t8412_response =
  s1_RspCd :: string
  s1_RspMsg :: string
  s1_OutBlock :: t8412_out
  s1_OutBlock1 :: "t8412_row list"

record t8452_in =
  q2_Shcode :: string
  q2_Ncnt :: int
  q2_Qrycnt :: int
  q2_Nday :: string
  q2_Sdate :: string
  q2_Stime :: string
  q2_Edate :: string
  q2_Etime :: string
  q2_Cts_Date :: string
  q2_Cts_Time :: string
  q2_Comp_yn :: string
  q2_Exchgubun :: string

record t8452_request =
  w2_In :: t8452_in

record t8452_out =
  a2_Shcode :: string
  a2_Jisiga :: int
  a2_Jihigh :: int
  a2_Jilow :: int
  a2_Jiclose :: int
  a2_Jivolume :: int
  a2_Disiga :: int
  a2_Dihigh :: int
  a2_Dilow :: int
  a2_Diclose :: int
  a2_Highend :: int
  a2_Lowend :: int
  a2_Cts_Date :: string
  a2_Cts_Time :: string
  a2_S_Time :: string
  a2_E_Time :: string
  a2_Dshmin :: string
  a2_RecCount :: int
  a2_Nxt_fm_s_time :: string
  a2_Nxt_fm_e_time :: string
  a2_Nxt_fm_dshmin :: string
  a2_Nxt_am_s_time :: string
  a2_Nxt_am_e_time :: string
  a2_Nxt_am_dshmin :: string

record t8452_row =
  r2_Date :: string
  r2_Time :: string
  r2_Open :: int
  r2_High :: int
  r2_Low :: int
  r2_Close :: int
  r2_JdiffVol :: int
  r2_Value :: int
  r2_Jongchk :: int
  r2_Rate :: decimal_value
  r2_Sign :: string

record t8452_response =
  s2_RspCd :: string
  s2_RspMsg :: string
  s2_OutBlock :: t8452_out
  s2_OutBlock1 :: "t8452_row list"

record t8453_in =
  q3_Shcode :: string
  q3_Ncnt :: int
  q3_Qrycnt :: int
  q3_Nday :: string
  q3_Sdate :: string
  q3_Stime :: string
  q3_Edate :: string
  q3_Etime :: string
  q3_Cts_Date :: string
  q3_Cts_Time :: string
  q3_Comp_yn :: string
  q3_Exchgubun :: string

record t8453_request =
  w3_In :: t8453_in

record t8453_out =
  a3_Shcode :: string
  a3_Jisiga :: int
  a3_Jihigh :: int
  a3_Jilow :: int
  a3_Jiclose :: int
  a3_Jivolume :: int
  a3_Disiga :: int
  a3_Dihigh :: int
  a3_Dilow :: int
  a3_Diclose :: int
  a3_Highend :: int
  a3_Lowend :: int
  a3_Cts_Date :: string
  a3_Cts_Time :: string
  a3_S_Time :: string
  a3_E_Time :: string
  a3_Dshmin :: string
  a3_RecCount :: int
  a3_Nxt_fm_s_time :: string
  a3_Nxt_fm_e_time :: string
  a3_Nxt_fm_dshmin :: string
  a3_Nxt_am_s_time :: string
  a3_Nxt_am_e_time :: string
  a3_Nxt_am_dshmin :: string

record t8453_row =
  r3_Date :: string
  r3_Time :: string
  r3_Open :: int
  r3_High :: int
  r3_Low :: int
  r3_Close :: int
  r3_JdiffVol :: int
  r3_Jongchk :: int
  r3_Rate :: decimal_value
  r3_Pricechk :: int

record t8453_response =
  s3_RspCd :: string
  s3_RspMsg :: string
  s3_OutBlock :: t8453_out
  s3_OutBlock1 :: "t8453_row list"

section \<open>Requests\<close>

datatype ls2_body =
    CommonBody ls_body
  | Body1405 t1405_request
  | Body1302 t1302_request
  | Body8412 t8412_request
  | Body8452 t8452_request
  | Body8453 t8453_request

record rest_header_spec =
  hs_trCont :: string
  hs_trContKey :: string
  hs_macAddr :: string

record ls2_request =
  l2_method :: string
  l2_path :: string
  l2_trID :: string
  l2_header :: rest_header_spec
  l2_bodyReq :: "ls2_body option"

text \<open>The headers of a response are what \<open>Header.Get\<close> answers, the empty text for one that is absent.\<close>

type_synonym resp_header = "string \<Rightarrow> string"

record ls2_item =
  i2_Method :: string
  i2_Path :: string
  i2_Headers :: "(string \<times> string) list"
  i2_Body :: "ls2_body option"

definition no_header :: rest_header_spec where
  "no_header = \<lparr>hs_trCont = [], hs_trContKey = [], hs_macAddr = []\<rparr>"

text \<open>\<open>CheckError\<close> of t1405. The responses of the charts and of t1302 have none.\<close>

definition t1405_CheckError :: "t1405_response \<Rightarrow> 'e ls_rest_error option" where
  "t1405_CheckError r =
     (if s5_RspCd r = [] \<or> s5_RspCd r = ''00000'' then None else Some (LSError (s5_RspCd r) (s5_RspMsg r)))"

end
