(* ===== verification/LS2_Rest.thy ===== *)
theory LS2_Rest
  imports LS2_Types
begin

text \<open>
  The newer LS REST client, \<open>internal/adapter/broker/ls_v2/api\<close>: \<open>rest.go\<close>, \<open>rest_types.go\<close>,
  \<open>limit.go\<close>, \<open>auth.go\<close> and \<open>client.go\<close>. It follows \<open>LS_Rest\<close>, with the same arguments for the code
  outside the repository; its errors are copies of those of \<open>ls/api\<close>. The two differ in what they
  check: \<open>v2_Scaled\<close> and \<open>v2_normalizeIssueCode\<close> accept more.
\<close>

section \<open>Decimals and codes\<close>

definition v2_frac_digit :: "char \<Rightarrow> int" where
  "v2_frac_digit c = (int (of_char c) - 48) mod 256"

fun v2_frac_loop :: "nat \<Rightarrow> string \<Rightarrow> int \<Rightarrow> int" where
  "v2_frac_loop 0 cs acc = acc"
| "v2_frac_loop (Suc n) [] acc = v2_frac_loop n [] (wrap64 (acc * 10))"
| "v2_frac_loop (Suc n) (c # cs) acc = v2_frac_loop n cs (wrap64 (wrap64 (acc * 10) + v2_frac_digit c))"

text \<open>\<open>fracPart[i] - '0'\<close> is a byte: it wraps around for a character before the digits.\<close>

definition v2_Scaled :: "int \<Rightarrow> decimal_value \<Rightarrow> scaled_error + int" where
  "v2_Scaled scale d =
     (case decimalScaleDigits scale of
        None \<Rightarrow> Inl ErrInvalidDecimalScale
      | Some digits \<Rightarrow>
          (let v = trimASCIISpaceString d
           in if v = [] then Inl ErrMissingDecimal
              else case strip_decimal_sign v of
                (sgn1, value) \<Rightarrow>
                  if value = [] then Inl (ErrDecimal ErrSyntax)
                  else case (case cut_at (CHR ''.'') value of None \<Rightarrow> (value, []) | Some p \<Rightarrow> p) of
                    (wholePart0, fracPart) \<Rightarrow>
                      if CHR ''.'' \<in> set fracPart then Inl (ErrDecimal ErrSyntax)
                      else let wholePart = (if wholePart0 = [] then ''0'' else wholePart0)
                           in case parse_int wholePart of
                                Inl e \<Rightarrow> Inl (ErrDecimal e)
                              | Inr whole \<Rightarrow>
                                  Inr (wrap64 (sgn1 * wrap64 (wrap64 (whole * scale) + v2_frac_loop digits fracPart 0)))))"

definition v2_normalizeIssueCode :: "string \<Rightarrow> string \<times> bool" where
  "v2_normalizeIssueCode code =
     (let t = trim_space code
      in if t = [] then ([], False)
         else let c = cut_prefix_A t in if c = [] then ([], False) else (c, True))"

section \<open>Tokens\<close>

definition v2_NewAuth ::
    "bool \<Rightarrow> 'e option \<Rightarrow> string \<Rightarrow> string \<Rightarrow> string \<Rightarrow> 'e ls_rest_error + ls_auth" where
  "v2_NewAuth hasReq store restURL appKey appSecret =
     (if \<not> hasReq then Inl ErrNilRequester
      else if appKey = [] then Inl (MissingValue ''appKey'')
      else if appSecret = [] then Inl (MissingValue ''appSecret1'')
      else case store of
          Some e \<Rightarrow> Inl (OperationError ''ls create token store'' (External e))
        | None \<Rightarrow> Inr \<lparr>au_restURL = (if restURL = [] then BaseURLDefault else restURL),
            au_appKey = appKey, au_appSecret = appSecret\<rparr>)"

definition v2_IsValid :: "go_time \<Rightarrow> cached_token \<Rightarrow> bool" where
  "v2_IsValid now t \<longleftrightarrow> token_isSuccess (ct_Response t) \<and> now < ct_ExpiresAt t"

definition v2_token_callback :: "'e option \<Rightarrow> ls_auth \<Rightarrow> 'e ls_rest_error + token_item" where
  "v2_token_callback limited a =
     (case limited of
        Some e \<Rightarrow> Inl (OperationError ''ls issue token rate limit'' (External e))
      | None \<Rightarrow> Inr \<lparr>ti_Method = ''POST'', ti_Path = au_restURL a @ ls_PathTokenIssue,
          ti_Headers = [(''Content-Type'', ''application/x-www-form-urlencoded'')],
          ti_Form = [(''grant_type'', ''client_credentials''), (''appkey'', au_appKey a),
                     (''appsecretkey'', au_appSecret a), (''scope'', ''oob'')]\<rparr>)"

definition v2_issueToken ::
    "go_time \<Rightarrow> ('e ls_rest_error + token_item \<Rightarrow> 'e ls_rest_error + ls_token_response) \<Rightarrow> 'e option \<Rightarrow>
      ls_auth \<Rightarrow> 'e ls_rest_error + cached_token" where
  "v2_issueToken now send limited a =
     (case send (v2_token_callback limited a) of
        Inl e \<Rightarrow> Inl (OperationError ''ls issue token'' e)
      | Inr resp \<Rightarrow>
          if \<not> token_isSuccess resp then Inl (MissingValue ''access_token'')
          else Inr \<lparr>ct_Response = resp, ct_ExpiresAt = now + wrap64 (tk_ExpiresIn resp * 1000000000)\<rparr>)"

section \<open>The service\<close>

record 'lim limits =
  lm_trPrice :: 'lim
  lm_trOrderbook :: 'lim
  lm_trMultiPrice :: 'lim
  lm_trChartMinute :: 'lim
  lm_trBalanceT0424 :: 'lim
  lm_trBalanceCSPAQ :: 'lim
  lm_Stock_Price_By_Minute :: 'lim
  lm_chart_Integration_Stock_Minute :: 'lim
  lm_chart_Integration_Stock_Tick :: 'lim

record 'lim ls2_rest =
  l2r_restURL :: string
  l2r_accountNo :: string
  l2r_trLimiters :: "'lim limits"

abbreviation PathStockChart :: string where "PathStockChart \<equiv> ''/stock/chart''"
abbreviation TrIDChartMinute :: string where "TrIDChartMinute \<equiv> ''t8412''"
abbreviation TrIDInvestmentWarning :: string where "TrIDInvestmentWarning \<equiv> ''t1405''"
abbreviation TrIDChart_Integration_Stock_Minute :: string where "TrIDChart_Integration_Stock_Minute \<equiv> ''t8452''"
abbreviation TrIDChart_Integration_Stock_Tick :: string where "TrIDChart_Integration_Stock_Tick \<equiv> ''t8453''"
abbreviation TrIDStockPriceByMinute :: string where "TrIDStockPriceByMinute \<equiv> ''t1302''"

text \<open>\<open>mk\<close> is \<open>rate.New\<close>.\<close>

definition v2_setLimiters :: "(int \<Rightarrow> int \<Rightarrow> 'lim) \<Rightarrow> 'lim limits" where
  "v2_setLimiters mk =
     \<lparr>lm_trPrice = mk 2 2, lm_trOrderbook = mk 2 2, lm_trMultiPrice = mk 5 5, lm_trChartMinute = mk 1 1,
      lm_trBalanceT0424 = mk 2 2, lm_trBalanceCSPAQ = mk 2 2, lm_Stock_Price_By_Minute = mk 1 1,
      lm_chart_Integration_Stock_Minute = mk 1 1, lm_chart_Integration_Stock_Tick = mk 1 1\<rparr>"

definition v2_limiterForTR :: "'lim limits \<Rightarrow> string \<Rightarrow> 'lim option" where
  "v2_limiterForTR l trID =
     (if trID = ls_TrIDPrice then Some (lm_trPrice l)
      else if trID = ls_TrIDOrderbook then Some (lm_trOrderbook l)
      else if trID = TrIDMultiPrice then Some (lm_trMultiPrice l)
      else if trID = TrIDBalanceT0424 then Some (lm_trBalanceT0424 l)
      else if trID = TrIDBalanceCSPAQ then Some (lm_trBalanceCSPAQ l)
      else if trID = TrIDChartMinute then Some (lm_trChartMinute l)
      else if trID = TrIDStockPriceByMinute then Some (lm_Stock_Price_By_Minute l)
      else if trID = TrIDChart_Integration_Stock_Minute then Some (lm_chart_Integration_Stock_Minute l)
      else if trID = TrIDChart_Integration_Stock_Tick then Some (lm_chart_Integration_Stock_Tick l)
      else None)"

definition v2_NewREST ::
    "(int \<Rightarrow> int \<Rightarrow> 'lim) \<Rightarrow> bool \<Rightarrow> bool \<Rightarrow> string \<Rightarrow> 'e ls_rest_error + 'lim ls2_rest" where
  "v2_NewREST mk hasReq hasAuth accountNo =
     (if \<not> hasReq then Inl ErrNilRequester
      else if \<not> hasAuth then Inl ErrNilAuth
      else Inr \<lparr>l2r_restURL = BaseURLDefault, l2r_accountNo = accountNo, l2r_trLimiters = v2_setLimiters mk\<rparr>)"

definition v2_New ::
    "(int \<Rightarrow> int \<Rightarrow> 'lim) \<Rightarrow> 'e option \<Rightarrow> 'e option \<Rightarrow> ls_config \<Rightarrow> 'e ls_rest_error + ls_auth \<times> 'lim ls2_rest" where
  "v2_New mk requesterErr store cfg =
     (case requesterErr of
        Some e \<Rightarrow> Inl (External e)
      | None \<Rightarrow>
          bindE (v2_NewAuth True store BaseURLDefault (lf_AppKey cfg) (lf_AppSecret cfg)) (\<lambda>authService.
          bindE (v2_NewREST mk True True (lf_AccountNo cfg)) (\<lambda>restService. Inr (authService, restService))))"

definition header_build :: "rest_header_spec \<Rightarrow> string \<Rightarrow> string \<Rightarrow> (string \<times> string) list" where
  "header_build spec tok trID =
     [(''Content-Type'', ''application/json; charset=utf-8''), (''authorization'', ''Bearer '' @ tok),
      (''tr_cd'', trID), (''tr_cont'', orDefault (hs_trCont spec) ''N''),
      (''tr_cont_key'', hs_trContKey spec), (''mac_address'', hs_macAddr spec)]"

definition v2_callback ::
    "('lim \<Rightarrow> 'e option) \<Rightarrow> 'e ls_rest_error + string \<Rightarrow> 'lim ls2_rest \<Rightarrow> ls2_request \<Rightarrow> 'e ls_rest_error + ls2_item" where
  "v2_callback wait token svc req =
     (case Option.bind (v2_limiterForTR (l2r_trLimiters svc) (l2_trID req)) wait of
        Some e \<Rightarrow> Inl (OperationError ''ls send REST rate limit'' (External e))
      | None \<Rightarrow>
          (case token of
             Inl e \<Rightarrow> Inl (OperationError ''ls send REST token'' e)
           | Inr tok \<Rightarrow>
               Inr \<lparr>i2_Method = l2_method req, i2_Path = l2r_restURL svc @ l2_path req,
                    i2_Headers = header_build (l2_header req) tok (l2_trID req), i2_Body = l2_bodyReq req\<rparr>))"

text \<open>\<open>check\<close> is \<open>CheckError\<close> of the response, \<open>\<lambda>_. None\<close> for one that has no such method.\<close>

definition v2_sendREST ::
    "('e ls_rest_error + ls2_item \<Rightarrow> 'e ls_rest_error + 'r \<times> resp_header) \<Rightarrow> ('r \<Rightarrow> 'e ls_rest_error option) \<Rightarrow>
     ('lim \<Rightarrow> 'e option) \<Rightarrow> 'e ls_rest_error + string \<Rightarrow> 'lim ls2_rest \<Rightarrow> ls2_request \<Rightarrow>
     'e ls_rest_error + 'r \<times> resp_header" where
  "v2_sendREST send check wait token svc req =
     (if l2_method req = [] then Inl ErrMethodRequired
      else case send (v2_callback wait token svc req) of
          Inl e \<Rightarrow> Inl e
        | Inr (resp, header) \<Rightarrow> (case check resp of Some apiErr \<Rightarrow> Inl apiErr | None \<Rightarrow> Inr (resp, header)))"

definition market_request :: "string \<Rightarrow> string \<Rightarrow> ls2_body \<Rightarrow> ls2_request" where
  "market_request path trID body = \<lparr>l2_method = ''POST'', l2_path = path, l2_trID = trID, l2_header = no_header,
     l2_bodyReq = Some body\<rparr>"

text \<open>The calls take \<open>call\<close>, the service's \<open>sendREST\<close> at the response type of the call.\<close>

definition v2_GetPrice :: "(ls2_request \<Rightarrow> 'e ls_rest_error + t1102_response \<times> resp_header) \<Rightarrow> string \<Rightarrow>
    'e ls_rest_error + t1102_response" where
  "v2_GetPrice call code = wrap_op ''ls get price''
     (map_sum id fst (call (market_request PathStockMarket ls_TrIDPrice
        (CommonBody (Body1102 \<lparr>qbr_In = \<lparr>qb_Shcode = code\<rparr>\<rparr>)))))"

definition v2_RawGetPrice :: "(ls2_request \<Rightarrow> 'e ls_rest_error + string \<times> resp_header) \<Rightarrow> string \<Rightarrow>
    'e ls_rest_error + resp_header \<times> string" where
  "v2_RawGetPrice call code = wrap_op ''ls get price''
     (map_sum id prod.swap (call (market_request PathStockMarket ls_TrIDPrice
        (CommonBody (Body1102 \<lparr>qbr_In = \<lparr>qb_Shcode = code\<rparr>\<rparr>)))))"

definition v2_GetOrderbook :: "(ls2_request \<Rightarrow> 'e ls_rest_error + t1101_response \<times> resp_header) \<Rightarrow> string \<Rightarrow>
    'e ls_rest_error + t1101_response" where
  "v2_GetOrderbook call code = wrap_op ''ls get orderbook''
     (map_sum id fst (call (market_request PathStockMarket ls_TrIDOrderbook
        (CommonBody (Body1101 \<lparr>qar_In = \<lparr>qa_Shcode = code\<rparr>\<rparr>)))))"

fun v2_join_codes :: "string list \<Rightarrow> string \<Rightarrow> 'e ls_rest_error + string" where
  "v2_join_codes [] joined = Inr joined"
| "v2_join_codes (code # codes) joined =
     (case v2_normalizeIssueCode code of
        (normalized, ok) \<Rightarrow>
          if \<not> ok then Inl (InvalidCode TrIDMultiPrice code) else v2_join_codes codes (joined @ normalized))"

definition v2_GetMultiPrices :: "(ls2_request \<Rightarrow> 'e ls_rest_error + t8407_response \<times> resp_header) \<Rightarrow> string list \<Rightarrow>
    'e ls_rest_error + resp_header \<times> t8407_response" where
  "v2_GetMultiPrices call codes = wrap_op ''ls get multi prices''
     (if codes = [] then Inl ErrT8407CodesRequired
      else if t8407MaxCodes < length codes
        then Inl (CodeLimitError TrIDMultiPrice (int t8407MaxCodes) (int (length codes)))
      else bindE (v2_join_codes codes []) (\<lambda>joined.
        map_sum id prod.swap (call (market_request PathStockMarket TrIDMultiPrice
          (CommonBody (Body8407 \<lparr>qcr_In = \<lparr>qc_Nrec = int (length codes), qc_Shcode = joined\<rparr>\<rparr>))))))"

definition v2_GetBalance :: "(ls2_request \<Rightarrow> 'e ls_rest_error + t0424_response \<times> resp_header) \<Rightarrow>
    'e ls_rest_error + t0424_response" where
  "v2_GetBalance call = wrap_op ''ls get balance''
     (map_sum id fst (call (market_request PathStockAccount TrIDBalanceT0424
        (CommonBody (Body0424 \<lparr>qdr_In =
          \<lparr>qd_Prcgb = ''1'', qd_Chegb = ''0'', qd_Dangb = ''0'', qd_Charge = ''1'', qd_CtsExpcode = []\<rparr>\<rparr>)))))"

section \<open>The two versions compared\<close>

lemma v2_frac_loop_digits:
  assumes "list_all (\<lambda>c. digit_val c \<noteq> None) b" and "0 \<le> acc" and "(acc + 1) * 10 ^ n \<le> 10 ^ 18"
  shows "v2_frac_loop n b acc = frac_loop n b acc"
  using assms
proof (induction n b acc rule: frac_loop.induct)
  case (2 n acc)
  have "(acc + 1) * 10 * 1 \<le> (acc + 1) * 10 * 10 ^ n" using "2.prems"(2) by (intro mult_left_mono) auto
  moreover have b: "(acc + 1) * 10 * 10 ^ n \<le> 10 ^ 18" using "2.prems"(3) by (simp only: power_Suc mult.assoc)
  ultimately have "(acc + 1) * 10 \<le> 10 ^ 18" by linarith
  moreover have "(acc * 10 + 1) * 10 ^ n \<le> (acc + 1) * 10 * 10 ^ n" by (intro mult_right_mono) auto
  ultimately have "(acc + 1) * 10 \<le> 10 ^ 18" "(acc * 10 + 1) * 10 ^ n \<le> 10 ^ 18" using b by linarith+
  with "2.prems"(2) have "in64 (acc * 10)" by (simp add: in64_def)
  with 2 \<open>(acc * 10 + 1) * 10 ^ n \<le> 10 ^ 18\<close> show ?case by simp
next
  case (3 n c cs acc)
  obtain x where x: "digit_val c = Some x" using "3.prems"(1) by auto
  then have d: "v2_frac_digit c = int x" "x < 10"
    by (auto simp: v2_frac_digit_def digit_val_def Let_def split: if_splits)
  have "(acc + 1) * 10 * 1 \<le> (acc + 1) * 10 * 10 ^ n" using "3.prems"(2) by (intro mult_left_mono) auto
  moreover have b: "(acc + 1) * 10 * 10 ^ n \<le> 10 ^ 18" using "3.prems"(3) by (simp only: power_Suc mult.assoc)
  ultimately have "(acc + 1) * 10 \<le> 10 ^ 18" by linarith
  then have "in64 (acc * 10)" "in64 (acc * 10 + int x)" using "3.prems"(2) d(2) by (simp_all add: in64_def)
  moreover have "(acc * 10 + int x + 1) * 10 ^ n \<le> (acc + 1) * 10 * 10 ^ n"
    using d(2) by (intro mult_right_mono) auto
  then have "(acc * 10 + int x + 1) * 10 ^ n \<le> 10 ^ 18" using b by linarith
  ultimately show ?case using 3 x d by simp
qed simp

lemma decimalScaleDigits_le: "decimalScaleDigits scale = Some n \<Longrightarrow> scale = 10 ^ n"
proof -
  have loop: "scale_loop s k = Some n \<Longrightarrow> 0 < s \<Longrightarrow> k \<le> n \<and> s = 10 ^ (n - k)" for s k
  proof (induction s k rule: scale_loop.induct)
    case (1 s k)
    show ?case
    proof (cases "s \<le> 1")
      case False
      then have s: "s mod 10 = 0" "scale_loop (s div 10) (Suc k) = Some n"
        using "1.prems"(1) by (auto simp: scale_loop.simps [of s] split: if_splits)
      with "1.IH" False have "Suc k \<le> n \<and> s div 10 = 10 ^ (n - Suc k)" by auto
      moreover have "s = 10 * (s div 10)" using s(1) by auto
      ultimately show ?thesis by (metis Suc_diff_Suc Suc_le_eq less_imp_le power_Suc)
    qed (use "1.prems" in \<open>auto simp: scale_loop.simps [of s]\<close>)
  qed
  show "decimalScaleDigits scale = Some n \<Longrightarrow> scale = 10 ^ n"
    using loop [of scale 0] by (auto simp: decimalScaleDigits_def split: if_splits)
qed

text \<open>The newer parser reads everything that the older one reads, with the same value.\<close>

lemma v2_Scaled_extends:
  assumes "Scaled scale d = Inr x" and "in64 scale"
  shows "v2_Scaled scale d = Inr x"
proof -
  obtain n where n: "decimalScaleDigits scale = Some n" using assms(1) by (auto simp: Scaled_def split: option.splits)
  from decimalScaleDigits_le [OF this] assms(2) have "(10 :: int) ^ n < 10 ^ 19" by (auto simp: in64_def)
  then have n18: "n \<le> 18" using power_less_imp_less_exp [of "10 :: int" n 19] by simp
  then have small: "(10 :: int) ^ n \<le> 10 ^ 18" by (intro power_increasing) auto
  have frac: "v2_frac_loop n b 0 = frac_loop n b 0" if "b = [] \<or> isDecimalDigits b" for b
    using that small by (intro v2_frac_loop_digits) (auto simp: isDecimalDigits_def)
  obtain s v where sv: "strip_decimal_sign (trimASCIISpaceString d) = (s, v)" by fastforce
  obtain a b where ab: "(case cut_at (CHR ''.'') v of None \<Rightarrow> (v, []) | Some p \<Rightarrow> p) = (a, b)" by fastforce
  note e = assms(1) [unfolded Scaled_def n option.case Let_def sv prod.case ab]
  show ?thesis
    unfolding v2_Scaled_def n option.case Let_def sv prod.case ab
    using e frac [of b] by (simp split: if_splits sum.splits)
qed

text \<open>It also reads a second sign and letters among the decimals.\<close>

lemma v2_Scaled_accepts:
  "v2_Scaled 100 ''--5'' = Inr 500" "v2_Scaled 100 ''1.ab'' = Inr 640"
  "Scaled 100 ''--5'' = Inl (ErrDecimal ErrSyntax)" "Scaled 100 ''1.ab'' = Inl (ErrDecimal ErrSyntax)"
  using decimalScaleDigits_power [of 2]
  by (simp_all add: v2_Scaled_def Scaled_def trimASCIISpaceString_def isASCIISpace_def strip_decimal_sign_def
      isDecimalDigits_def digit_val_def parse_int_def parse_uint_def v2_frac_digit_def wrap64_def numeral_2_eq_2 Let_def)

text \<open>A code that is not six characters long moves every code after it in the one text that the
  server cuts every six characters.\<close>

lemma v2_codes_misaligned:
  "v2_join_codes [''12345'', ''005930'', ''000660''] [] = (Inr ''12345005930000660'' :: 'e ls_rest_error + string)"
  "chunks6 ''12345005930000660'' = [''123450'', ''059300'']"
proof -
  have n: "v2_normalizeIssueCode ''12345'' = (''12345'', True)" "v2_normalizeIssueCode ''005930'' = (''005930'', True)"
    "v2_normalizeIssueCode ''000660'' = (''000660'', True)"
    by code_simp+
  show "v2_join_codes [''12345'', ''005930'', ''000660''] [] = (Inr ''12345005930000660'' :: 'e ls_rest_error + string)"
    by (simp add: n)
qed simp

end
