(* ===== verification/LS2_Chart.thy ===== *)
theory LS2_Chart
  imports LS2_Rest "HOL-Library.Multiset"
begin

text \<open>
  The calls of \<open>internal/adapter/broker/ls_v2/api\<close> that follow continuation pages: \<open>rest_chart.go\<close>
  (minute and tick charts), \<open>rest_market.go\<close> (prices by minute) and \<open>InvestmentWarning\<close> of
  \<open>rest.go\<close>. Each is a \<open>for\<close> loop without a bound: \<open>iterate_turns\<close> runs the body until it returns,
  and is \<open>None\<close> when it never does. A body returns a result, or the state of the next turn; a
  result is \<open>None\<close> for a panic, an error, or the last header with the merged response. \<open>call k\<close> is
  \<open>sendREST\<close> of the service at turn \<open>k\<close> (\<open>v2_sendREST\<close> with what requester, limiter and token
  store answer then, under the timeout of the page).

  The theorems say which rows the loops collect from a server that pages backwards in time, and
  when they panic.
\<close>

section \<open>The loop\<close>

partial_function (option) iterate_turns :: "(nat \<Rightarrow> 's \<Rightarrow> 'r + 's) \<Rightarrow> nat \<Rightarrow> 's \<Rightarrow> 'r option" where
  "iterate_turns turn k s = (case turn k s of Inl r \<Rightarrow> Some r | Inr s' \<Rightarrow> iterate_turns turn (Suc k) s')"

type_synonym ('e, 'r) paged_result = "('e ls_rest_error + resp_header \<times> 'r) option"

record 'r page_state =
  pg_merged :: "'r option"
  pg_trCont :: string
  pg_trContKey :: string
  pg_ctsDate :: string
  pg_ctsTime :: string

definition first_page :: "string \<Rightarrow> string \<Rightarrow> 'r page_state" where
  "first_page d t = \<lparr>pg_merged = None, pg_trCont = ''N'', pg_trContKey = [], pg_ctsDate = d, pg_ctsTime = t\<rparr>"

definition equal_fold_Y :: "string \<Rightarrow> bool" where
  "equal_fold_Y s \<longleftrightarrow> s = ''Y'' \<or> s = ''y''"

section \<open>The bodies\<close>

text \<open>The loops that append each page: \<open>nrm\<close> is \<open>strings.TrimSpace\<close> or nothing, \<open>date\<close> and \<open>time\<close>
  read the continuation keys of the response.\<close>

definition appended_turn ::
    "(string \<Rightarrow> string) \<Rightarrow> ('r \<Rightarrow> 'r \<Rightarrow> 'r) \<Rightarrow> ('r \<Rightarrow> string) \<Rightarrow> ('r \<Rightarrow> string) \<Rightarrow> bool \<Rightarrow> string \<Rightarrow>
     ('r page_state \<Rightarrow> ls2_request) \<Rightarrow> (nat \<Rightarrow> ls2_request \<Rightarrow> 'e ls_rest_error + 'r \<times> resp_header) \<Rightarrow>
     nat \<Rightarrow> 'r page_state \<Rightarrow> ('e, 'r) paged_result + 'r page_state" where
  "appended_turn nrm merge date time cont op mkreq call k st =
     (case call k (mkreq st) of
        Inl e \<Rightarrow> Inl (Some (Inl (OperationError op e)))
      | Inr (resp, header) \<Rightarrow>
          (let merged = (case pg_merged st of None \<Rightarrow> resp | Some m \<Rightarrow> merge m resp);
               nextTrCont = nrm (header ''tr_cont'')
           in if \<not> cont \<or> \<not> equal_fold_Y nextTrCont \<or> nrm (time resp) = []
              then Inl (Some (Inr (header, merged)))
              else Inr \<lparr>pg_merged = Some merged, pg_trCont = nextTrCont, pg_trContKey = nrm (header ''tr_cont_key''),
                        pg_ctsDate = nrm (date resp), pg_ctsTime = nrm (time resp)\<rparr>))"

text \<open>The loops of the integrated charts put each page in front, and continue from the first row of
  the page; a page without rows is out of range.\<close>

definition prepended_turn ::
    "('r \<Rightarrow> 'r \<Rightarrow> 'r) \<Rightarrow> ('r \<Rightarrow> string) \<Rightarrow> ('r \<Rightarrow> 'row list) \<Rightarrow> ('row \<Rightarrow> string) \<Rightarrow> bool \<Rightarrow>
     ('r page_state \<Rightarrow> ls2_request) \<Rightarrow> (nat \<Rightarrow> ls2_request \<Rightarrow> 'e ls_rest_error + 'r \<times> resp_header) \<Rightarrow>
     nat \<Rightarrow> 'r page_state \<Rightarrow> ('e, 'r) paged_result + 'r page_state" where
  "prepended_turn merge date rows time cont mkreq call k st =
     (case call k (mkreq st) of
        Inl e \<Rightarrow> Inl (Some (Inl e))
      | Inr (resp, header) \<Rightarrow>
          (let merged = (case pg_merged st of None \<Rightarrow> resp | Some m \<Rightarrow> merge m resp)
           in if \<not> cont \<or> header ''tr_cont'' \<noteq> ''Y'' then Inl (Some (Inr (header, merged)))
              else case rows resp of
                  [] \<Rightarrow> Inl None
                | row # _ \<Rightarrow>
                    Inr \<lparr>pg_merged = Some merged, pg_trCont = header ''tr_cont'', pg_trContKey = header ''tr_cont_key'',
                         pg_ctsDate = date resp, pg_ctsTime = time row\<rparr>))"

definition paged_request :: "string \<Rightarrow> string \<Rightarrow> 'r page_state \<Rightarrow> ls2_body \<Rightarrow> ls2_request" where
  "paged_request path trID st body = \<lparr>l2_method = ''POST'', l2_path = path, l2_trID = trID,
     l2_header = \<lparr>hs_trCont = pg_trCont st, hs_trContKey = pg_trContKey st, hs_macAddr = []\<rparr>,
     l2_bodyReq = Some body\<rparr>"

section \<open>The calls\<close>

definition chart_minute_page :: "chart_minute_request \<Rightarrow> t8412_response page_state \<Rightarrow> ls2_request" where
  "chart_minute_page req st = paged_request PathStockChart TrIDChartMinute st (Body8412 \<lparr>w1_In =
     \<lparr>q1_Shcode = cm_Shcode req, q1_Ncnt = cm_Minute req, q1_Qrycnt = cm_Qrycnt req, q1_Nday = cm_Nday req,
      q1_Sdate = cm_Sdate req, q1_Stime = [], q1_Edate = cm_Edate req, q1_Etime = [],
      q1_Cts_Date = pg_ctsDate st, q1_Cts_Time = pg_ctsTime st, q1_Comp_yn = cm_Comp_yn req\<rparr>\<rparr>)"

definition merge8412 :: "t8412_response \<Rightarrow> t8412_response \<Rightarrow> t8412_response" where
  "merge8412 m resp = m\<lparr>s1_OutBlock := s1_OutBlock resp, s1_OutBlock1 := s1_OutBlock1 m @ s1_OutBlock1 resp\<rparr>"

definition ChartMinute ::
    "(nat \<Rightarrow> ls2_request \<Rightarrow> 'e ls_rest_error + t8412_response \<times> resp_header) \<Rightarrow> chart_minute_request \<Rightarrow>
     ('e, t8412_response) paged_result option" where
  "ChartMinute call req =
     (if cm_PageTimeout req \<le> 0 then Some (Some (Inl ErrPageTimeout))
      else iterate_turns
        (appended_turn trim_space merge8412 (a1_Cts_Date \<circ> s1_OutBlock) (a1_Cts_Time \<circ> s1_OutBlock)
           (cm_Cont req) ''ls get chart minute'' (chart_minute_page req) call)
        0 (first_page '' '' '' ''))"

definition integrated_minute_page :: "chart_minute_request \<Rightarrow> t8452_response page_state \<Rightarrow> ls2_request" where
  "integrated_minute_page req st = paged_request PathStockChart TrIDChart_Integration_Stock_Minute st (Body8452 \<lparr>w2_In =
     \<lparr>q2_Shcode = cm_Shcode req, q2_Ncnt = cm_Minute req, q2_Qrycnt = cm_Qrycnt req, q2_Nday = cm_Nday req,
      q2_Sdate = cm_Sdate req, q2_Stime = [], q2_Edate = cm_Edate req, q2_Etime = [],
      q2_Cts_Date = pg_ctsDate st, q2_Cts_Time = pg_ctsTime st, q2_Comp_yn = cm_Comp_yn req,
      q2_Exchgubun = cm_Exchgubun req\<rparr>\<rparr>)"

definition merge8452 :: "t8452_response \<Rightarrow> t8452_response \<Rightarrow> t8452_response" where
  "merge8452 m resp = m\<lparr>s2_OutBlock := s2_OutBlock resp, s2_OutBlock1 := s2_OutBlock1 resp @ s2_OutBlock1 m\<rparr>"

definition Chart_Integrated_Minute ::
    "(nat \<Rightarrow> ls2_request \<Rightarrow> 'e ls_rest_error + t8452_response \<times> resp_header) \<Rightarrow> chart_minute_request \<Rightarrow>
     ('e, t8452_response) paged_result option" where
  "Chart_Integrated_Minute call req =
     (if cm_PageTimeout req \<le> 0 then Some (Some (Inl ErrPageTimeout))
      else iterate_turns
        (prepended_turn merge8452 (a2_Cts_Date \<circ> s2_OutBlock) s2_OutBlock1 r2_Time (cm_Cont req)
           (integrated_minute_page req) call)
        0 (first_page '' '' '' ''))"

definition integrated_tick_page :: "chart_tick_request \<Rightarrow> t8453_response page_state \<Rightarrow> ls2_request" where
  "integrated_tick_page req st = paged_request PathStockChart TrIDChart_Integration_Stock_Tick st (Body8453 \<lparr>w3_In =
     \<lparr>q3_Shcode = ck_Shcode req, q3_Ncnt = ck_Ncnt req, q3_Qrycnt = ck_Qrycnt req, q3_Nday = ck_Nday req,
      q3_Sdate = ck_Sdate req, q3_Stime = [], q3_Edate = ck_Edate req, q3_Etime = [],
      q3_Cts_Date = pg_ctsDate st, q3_Cts_Time = pg_ctsTime st, q3_Comp_yn = ck_Comp_yn req,
      q3_Exchgubun = ck_Exchgubun req\<rparr>\<rparr>)"

definition merge8453 :: "t8453_response \<Rightarrow> t8453_response \<Rightarrow> t8453_response" where
  "merge8453 m resp = m\<lparr>s3_OutBlock := s3_OutBlock resp, s3_OutBlock1 := s3_OutBlock1 resp @ s3_OutBlock1 m\<rparr>"

definition Chart_Integrated_Tick ::
    "(nat \<Rightarrow> ls2_request \<Rightarrow> 'e ls_rest_error + t8453_response \<times> resp_header) \<Rightarrow> chart_tick_request \<Rightarrow>
     ('e, t8453_response) paged_result option" where
  "Chart_Integrated_Tick call req =
     (if ck_PageTimeout req \<le> 0 then Some (Some (Inl ErrPageTimeout))
      else iterate_turns
        (prepended_turn merge8453 (a3_Cts_Date \<circ> s3_OutBlock) s3_OutBlock1 r3_Time (ck_Cont req)
           (integrated_tick_page req) call)
        0 (first_page '' '' '' ''))"

definition minute_price_page :: "string \<Rightarrow> t1302_response page_state \<Rightarrow> ls2_request" where
  "minute_price_page code st = paged_request PathStockMarket TrIDStockPriceByMinute st (Body1302 \<lparr>w4_In =
     \<lparr>q4_Shcode = code, q4_Gubun = ''1'', q4_Time = pg_ctsTime st, q4_Cnt = 900, q4_Exchgubun = ''U''\<rparr>\<rparr>)"

definition merge1302 :: "t1302_response \<Rightarrow> t1302_response \<Rightarrow> t1302_response" where
  "merge1302 m resp = m\<lparr>s4_OutBlock := s4_OutBlock resp, s4_OutBlock1 := s4_OutBlock1 m @ s4_OutBlock1 resp\<rparr>"

definition Stock_Minute_Prices ::
    "(nat \<Rightarrow> ls2_request \<Rightarrow> 'e ls_rest_error + t1302_response \<times> resp_header) \<Rightarrow> string \<Rightarrow> bool \<Rightarrow>
     ('e, t1302_response) paged_result option" where
  "Stock_Minute_Prices call code cont =
     iterate_turns
       (appended_turn (\<lambda>s. s) merge1302 (\<lambda>_. []) (a4_Cts_Time \<circ> s4_OutBlock)
          cont ''ls get stock price by minute'' (minute_price_page code) call)
       0 (first_page [] [])"

definition warning_page :: "string \<Rightarrow> string \<Rightarrow> t1405_response page_state \<Rightarrow> ls2_request" where
  "warning_page gubun jongchk st = paged_request PathStockMarket TrIDInvestmentWarning st (Body1405 \<lparr>w5_In =
     \<lparr>q5_Gubun = gubun, q5_Jongchk = jongchk, q5_Cts_shcode = pg_ctsTime st\<rparr>\<rparr>)"

definition merge1405 :: "t1405_response \<Rightarrow> t1405_response \<Rightarrow> t1405_response" where
  "merge1405 m resp = m\<lparr>s5_OutBlock := s5_OutBlock resp, s5_OutBlock1 := s5_OutBlock1 m @ s5_OutBlock1 resp\<rparr>"

text \<open>The continuation key of t1405 is an issue code; it takes the place of the time.\<close>

definition InvestmentWarning ::
    "(nat \<Rightarrow> ls2_request \<Rightarrow> 'e ls_rest_error + t1405_response \<times> resp_header) \<Rightarrow> bool \<Rightarrow> string \<Rightarrow> string \<Rightarrow>
     ('e, t1405_response) paged_result option" where
  "InvestmentWarning call cont gubun jongchk =
     iterate_turns
       (appended_turn trim_space merge1405 (\<lambda>_. []) (a5_Cts_shcode \<circ> s5_OutBlock)
          cont ''ls get investment warning'' (warning_page gubun jongchk) call)
       0 (first_page [] [])"

section \<open>Loops that end\<close>

text \<open>A loop whose turns lower a measure under an invariant returns, with what the last turn
  promises.\<close>

lemma iterate_turns_measure:
  assumes next_turn: "\<And>k s s'. I k s \<Longrightarrow> turn k s = Inr s' \<Longrightarrow> I (Suc k) s' \<and> f s' < (f s :: nat)"
    and last_turn: "\<And>k s r. I k s \<Longrightarrow> turn k s = Inl r \<Longrightarrow> Q r"
    and "I k s"
  shows "\<exists>r. iterate_turns turn k s = Some r \<and> Q r"
  using assms(3)
proof (induction "f s" arbitrary: k s rule: less_induct)
  case less
  show ?case
  proof (cases "turn k s")
    case (Inl r)
    then show ?thesis using last_turn [OF less.prems] by (simp add: iterate_turns.simps)
  next
    case (Inr s')
    from next_turn [OF less.prems Inr] less.hyps have "\<exists>r. iterate_turns turn (Suc k) s' = Some r \<and> Q r" by blast
    then show ?thesis using Inr by (simp add: iterate_turns.simps)
  qed
qed

section \<open>A server that pages backwards\<close>

text \<open>A server with the rows \<open>hist\<close>, oldest first, which answers a request for the time \<open>t\<close> with the
  last \<open>n\<close> rows before the row of that time (with the last \<open>n\<close> of all, if there is none), and says
  in the header whether older ones remain. The times are distinct, so that these are the rows of
  one day; the date of the continuation, constant within it, is not looked at.\<close>

definition rows_before :: "('row \<Rightarrow> string) \<Rightarrow> 'row list \<Rightarrow> string \<Rightarrow> nat" where
  "rows_before time hist t = length (takeWhile (\<lambda>row. time row \<noteq> t) hist)"

definition page_before :: "nat \<Rightarrow> nat \<Rightarrow> 'row list \<Rightarrow> 'row list" where
  "page_before n i hist = drop (i - n) (take i hist)"

definition more_before :: "nat \<Rightarrow> nat \<Rightarrow> string" where
  "more_before n i = (if n < i then ''Y'' else ''N'')"

definition pages_backwards ::
    "('r \<Rightarrow> 'row list) \<Rightarrow> ('row \<Rightarrow> string) \<Rightarrow> (ls2_request \<Rightarrow> string) \<Rightarrow> nat \<Rightarrow> 'row list \<Rightarrow>
     (nat \<Rightarrow> ls2_request \<Rightarrow> 'e ls_rest_error + 'r \<times> resp_header) \<Rightarrow> bool" where
  "pages_backwards rows time cursor n hist call \<longleftrightarrow>
     0 < n \<and> distinct (map time hist) \<and>
     (\<forall>k q. case call k q of
        Inl _ \<Rightarrow> False
      | Inr (resp, header) \<Rightarrow>
          rows resp = page_before n (rows_before time hist (cursor q)) hist \<and>
          header ''tr_cont'' = more_before n (rows_before time hist (cursor q)))"

lemma rows_before_nth:
  assumes "distinct (map time hist)" and "i < length hist"
  shows "rows_before time hist (time (hist ! i)) = i"
proof -
  have "takeWhile (\<lambda>row. time row \<noteq> time (hist ! i)) hist = take i hist"
    using assms by (intro takeWhile_eq_take_P_nth) (auto simp: distinct_conv_nth)
  then show ?thesis using assms(2) by (simp add: rows_before_def)
qed

lemma rows_before_le: "rows_before time hist t \<le> length hist"
  unfolding rows_before_def by (rule length_takeWhile_le)

lemma rows_before_absent: "t \<notin> time ` set hist \<Longrightarrow> rows_before time hist t = length hist"
  unfolding rows_before_def by (subst takeWhile_eq_all_conv [THEN iffD2]) auto

lemma page_before_Cons:
  assumes "n < i" and "0 < n" and "i \<le> length hist"
  shows "page_before n i hist = hist ! (i - n) # drop (Suc (i - n)) (take i hist)"
  using assms by (simp add: page_before_def Cons_nth_drop_Suc [symmetric])

lemma page_before_join: "i \<le> length hist \<Longrightarrow> page_before n i hist @ drop i hist = drop (i - n) hist"
  unfolding page_before_def by (metis append_take_drop_id diff_le_self drop_append drop_take length_take min.absorb2 take_drop append.assoc diff_is_0_eq drop0)

definition cts_time :: "ls2_request \<Rightarrow> string" where
  "cts_time q = (case l2_bodyReq q of
     Some (Body8412 b) \<Rightarrow> q1_Cts_Time (w1_In b)
   | Some (Body8452 b) \<Rightarrow> q2_Cts_Time (w2_In b)
   | Some (Body8453 b) \<Rightarrow> q3_Cts_Time (w3_In b)
   | Some (Body1302 b) \<Rightarrow> q4_Time (w4_In b)
   | Some (Body1405 b) \<Rightarrow> q5_Cts_shcode (w5_In b)
   | _ \<Rightarrow> [])"

text \<open>The continuation key of a response is the time of its first row.\<close>

definition continues_at :: "('r \<Rightarrow> 'row list) \<Rightarrow> ('row \<Rightarrow> string) \<Rightarrow> ('r \<Rightarrow> string) \<Rightarrow>
    (nat \<Rightarrow> ls2_request \<Rightarrow> 'e ls_rest_error + 'r \<times> resp_header) \<Rightarrow> bool" where
  "continues_at rows time key call \<longleftrightarrow>
     (\<forall>k q. case call k q of Inl _ \<Rightarrow> False | Inr (resp, _) \<Rightarrow> (case rows resp of [] \<Rightarrow> True | row # _ \<Rightarrow> key resp = time row))"

text \<open>The pages in the order in which they come.\<close>

function back_pages :: "nat \<Rightarrow> nat \<Rightarrow> 'row list \<Rightarrow> 'row list list" where
  "back_pages n i hist =
     (if 0 < n \<and> n < i then page_before n i hist # back_pages n (i - n) hist else [page_before n i hist])"
  by auto
termination by (relation "measure (\<lambda>(_, i, _). i)") auto

declare back_pages.simps [simp del]

lemma concat_back_pages:
  "0 < n \<Longrightarrow> i \<le> length hist \<Longrightarrow> mset (concat (back_pages n i hist)) = mset (take i hist)"
proof (induction n i hist rule: back_pages.induct)
  case (1 n i hist)
  have split: "take i hist = take (i - n) hist @ page_before n i hist"
    by (simp add: page_before_def) (metis append_take_drop_id min.absorb1 take_take diff_le_self)
  show ?case
  proof (cases "n < i")
    case True
    with 1 have "mset (concat (back_pages n (i - n) hist)) = mset (take (i - n) hist)" by simp
    with True 1(2) show ?thesis by (subst back_pages.simps, subst split) simp
  next
    case False
    then show ?thesis by (subst back_pages.simps) (simp add: page_before_def)
  qed
qed

lemma back_pages_chronological:
  assumes "0 < n" and "distinct hist"
  shows "concat (back_pages n (length hist) hist) = hist \<longleftrightarrow> length hist \<le> n"
proof (cases "n < length hist")
  case True
  then have "hd (concat (back_pages n (length hist) hist)) = hist ! (length hist - n)"
    using assms(1) page_before_Cons [of n "length hist" hist] by (subst back_pages.simps) simp
  moreover have "hist ! (length hist - n) \<noteq> hist ! 0"
    using True assms by (subst nth_eq_iff_index_eq) auto
  ultimately have "concat (back_pages n (length hist) hist) \<noteq> hist" using True by (metis hd_conv_nth list.size(3) not_less_zero)
  with True show ?thesis by simp
next
  case False
  then show ?thesis by (subst back_pages.simps) (simp add: page_before_def)
qed

section \<open>The contract of the loops\<close>

locale paged_chart =
  fixes rows :: "'r \<Rightarrow> 'row list" and time :: "'row \<Rightarrow> string"
    and mkreq :: "'r page_state \<Rightarrow> ls2_request"
  assumes req_cursor: "cts_time (mkreq st) = pg_ctsTime st"
begin

definition collected :: "'r page_state \<Rightarrow> 'row list" where
  "collected st = (case pg_merged st of None \<Rightarrow> [] | Some m \<Rightarrow> rows m)"

lemma answer:
  assumes "pages_backwards rows time cts_time n hist call"
  obtains resp header where "call k (mkreq st) = Inr (resp, header)"
    and "rows resp = page_before n (rows_before time hist (pg_ctsTime st)) hist"
    and "header ''tr_cont'' = more_before n (rows_before time hist (pg_ctsTime st))"
proof -
  have "case call k (mkreq st) of Inl _ \<Rightarrow> False
      | Inr (resp, header) \<Rightarrow>
          rows resp = page_before n (rows_before time hist (cts_time (mkreq st))) hist \<and>
          header ''tr_cont'' = more_before n (rows_before time hist (cts_time (mkreq st)))"
    using assms unfolding pages_backwards_def by blast
  with that show thesis by (auto simp: req_cursor split: sum.splits)
qed

end

locale prepended_chart = paged_chart rows time mkreq
  for rows :: "'r \<Rightarrow> 'row list" and time :: "'row \<Rightarrow> string" and mkreq :: "'r page_state \<Rightarrow> ls2_request" +
  fixes merge :: "'r \<Rightarrow> 'r \<Rightarrow> 'r" and date :: "'r \<Rightarrow> string"
  assumes rows_merge: "rows (merge m r) = rows r @ rows m"
begin

lemma collects_all:
  fixes call :: "nat \<Rightarrow> ls2_request \<Rightarrow> 'e ls_rest_error + 'r \<times> resp_header"
  assumes server: "pages_backwards rows time cts_time n hist call" and start: "t \<notin> time ` set hist"
  shows "\<exists>header resp. iterate_turns (prepended_turn merge date rows time True mkreq call) 0 (first_page d t) =
      Some (Some (Inr (header, resp))) \<and> rows resp = hist"
proof -
  have n: "0 < n" and dist: "distinct (map time hist)" using server by (auto simp: pages_backwards_def)
  let ?pos = "\<lambda>st. rows_before time hist (pg_ctsTime st)"
  let ?turn = "prepended_turn merge date rows time True mkreq call"
  define I where "I = (\<lambda>(k :: nat) st. collected st = drop (?pos st) hist)"
  define Q where "Q = (\<lambda>r :: ('e, 'r) paged_result. \<exists>header resp. r = Some (Inr (header, resp)) \<and> rows resp = hist)"
  have turn: "(if n < ?pos st then \<exists>st'. ?turn k st = Inr st' \<and> I (Suc k) st' \<and> ?pos st' < ?pos st
      else \<exists>r. ?turn k st = Inl r \<and> Q r)" if "I k st" for k st
  proof -
    let ?i = "?pos st"
    obtain resp header where c: "call k (mkreq st) = Inr (resp, header)" "rows resp = page_before n ?i hist"
      "header ''tr_cont'' = more_before n ?i" by (rule answer [OF server])
    define merged where "merged = (case pg_merged st of None \<Rightarrow> resp | Some m \<Rightarrow> merge m resp)"
    have "rows merged = rows resp @ collected st"
      by (simp add: merged_def collected_def rows_merge split: option.splits)
    with that c(2) page_before_join [OF rows_before_le] have m: "rows merged = drop (?i - n) hist"
      by (simp add: I_def)
    have le: "?i \<le> length hist" by (rule rows_before_le)
    show ?thesis
    proof (cases "n < ?i")
      case True
      then have "rows_before time hist (time (hist ! (?i - n))) = ?i - n" using le n by (intro rows_before_nth [OF dist]) simp
      with True c m n page_before_Cons [OF True n le] show ?thesis
        by (simp add: prepended_turn_def Let_def more_before_def I_def collected_def flip: merged_def)
    qed (use c m in \<open>simp add: prepended_turn_def Let_def more_before_def Q_def flip: merged_def\<close>)
  qed
  have "\<exists>r. iterate_turns ?turn 0 (first_page d t) = Some r \<and> Q r"
  proof (rule iterate_turns_measure [where I = I and f = ?pos])
    show "I 0 (first_page d t)" using start by (simp add: I_def first_page_def collected_def rows_before_absent)
    show "I (Suc k) s' \<and> ?pos s' < ?pos s" if "I k s" "?turn k s = Inr s'" for k s s'
      using turn [OF that(1)] that(2) by (auto split: if_splits)
    show "Q r" if "I k s" "?turn k s = Inl r" for k s r using turn [OF that(1)] that(2) by (auto split: if_splits)
  qed
  then show ?thesis by (auto simp: Q_def)
qed

end

locale appended_chart = paged_chart rows time mkreq
  for rows :: "'r \<Rightarrow> 'row list" and time :: "'row \<Rightarrow> string" and mkreq :: "'r page_state \<Rightarrow> ls2_request" +
  fixes merge :: "'r \<Rightarrow> 'r \<Rightarrow> 'r" and date :: "'r \<Rightarrow> string" and key :: "'r \<Rightarrow> string"
    and nrm :: "string \<Rightarrow> string"
  assumes rows_merge: "rows (merge m r) = rows m @ rows r"
    and nrm_plain: "nrm ''Y'' = ''Y''" "nrm ''N'' = ''N''"
begin

lemma collects_pages:
  fixes call :: "nat \<Rightarrow> ls2_request \<Rightarrow> 'e ls_rest_error + 'r \<times> resp_header"
  assumes server: "pages_backwards rows time cts_time n hist call" and keys: "continues_at rows time key call"
    and times: "list_all (\<lambda>row. nrm (time row) = time row \<and> time row \<noteq> []) hist" and start: "t \<notin> time ` set hist"
  shows "\<exists>header resp. iterate_turns (appended_turn nrm merge date key True op mkreq call) 0 (first_page d t) =
      Some (Some (Inr (header, resp))) \<and> rows resp = concat (back_pages n (length hist) hist)"
proof -
  have n: "0 < n" and dist: "distinct (map time hist)" using server by (auto simp: pages_backwards_def)
  let ?pos = "\<lambda>st. rows_before time hist (pg_ctsTime st)"
  let ?turn = "appended_turn nrm merge date key True op mkreq call"
  let ?all = "concat (back_pages n (length hist) hist)"
  define I where "I = (\<lambda>(k :: nat) st. collected st @ concat (back_pages n (?pos st) hist) = ?all)"
  define Q where "Q = (\<lambda>r :: ('e, 'r) paged_result. \<exists>header resp. r = Some (Inr (header, resp)) \<and> rows resp = ?all)"
  have turn: "(if n < ?pos st then \<exists>st'. ?turn k st = Inr st' \<and> I (Suc k) st' \<and> ?pos st' < ?pos st
      else \<exists>r. ?turn k st = Inl r \<and> Q r)" if "I k st" for k st
  proof -
    let ?i = "?pos st"
    obtain resp header where c: "call k (mkreq st) = Inr (resp, header)" "rows resp = page_before n ?i hist"
      "header ''tr_cont'' = more_before n ?i" by (rule answer [OF server])
    define merged where "merged = (case pg_merged st of None \<Rightarrow> resp | Some m \<Rightarrow> merge m resp)"
    have m: "rows merged = collected st @ page_before n ?i hist"
      by (simp add: merged_def collected_def rows_merge c(2) split: option.splits)
    have le: "?i \<le> length hist" by (rule rows_before_le)
    show ?thesis
    proof (cases "n < ?i")
      case True
      let ?row = "hist ! (?i - n)"
      have in_hist: "?i - n < length hist" using True le n by simp
      have page: "page_before n ?i hist = ?row # drop (Suc (?i - n)) (take ?i hist)" by (rule page_before_Cons [OF True n le])
      have "case call k (mkreq st) of Inl _ \<Rightarrow> False
          | Inr (resp, _) \<Rightarrow> (case rows resp of [] \<Rightarrow> True | row # _ \<Rightarrow> key resp = time row)"
        using keys unfolding continues_at_def by blast
      then have "key resp = time ?row" by (simp add: c page)
      moreover have "nrm (time ?row) = time ?row" "time ?row \<noteq> []" using times in_hist by (auto simp: list_all_length)
      moreover have "rows_before time hist (time ?row) = ?i - n" by (rule rows_before_nth [OF dist in_hist])
      moreover have "concat (back_pages n ?i hist) = page_before n ?i hist @ concat (back_pages n (?i - n) hist)"
        using True n by (subst back_pages.simps) simp
      ultimately show ?thesis using that True c m n
        by (simp add: appended_turn_def Let_def more_before_def I_def collected_def nrm_plain equal_fold_Y_def flip: merged_def)
    next
      case False
      then have "concat (back_pages n ?i hist) = page_before n ?i hist" by (subst back_pages.simps) simp
      with that m have "rows merged = ?all" by (simp add: I_def)
      with False c show ?thesis
        by (simp add: appended_turn_def Let_def more_before_def Q_def nrm_plain equal_fold_Y_def flip: merged_def)
    qed
  qed
  have "\<exists>r. iterate_turns ?turn 0 (first_page d t) = Some r \<and> Q r"
  proof (rule iterate_turns_measure [where I = I and f = ?pos])
    show "I 0 (first_page d t)" using start by (simp add: I_def first_page_def collected_def rows_before_absent)
    show "I (Suc k) s' \<and> ?pos s' < ?pos s" if "I k s" "?turn k s = Inr s'" for k s s'
      using turn [OF that(1)] that(2) by (auto split: if_splits)
    show "Q r" if "I k s" "?turn k s = Inl r" for k s r using turn [OF that(1)] that(2) by (auto split: if_splits)
  qed
  then show ?thesis by (auto simp: Q_def)
qed

end

section \<open>The five loops\<close>

lemmas page_request_defs = cts_time_def paged_request_def chart_minute_page_def integrated_minute_page_def
  integrated_tick_page_def minute_price_page_def warning_page_def

interpretation t8452: prepended_chart s2_OutBlock1 r2_Time "integrated_minute_page req" merge8452 "a2_Cts_Date \<circ> s2_OutBlock"
  by unfold_locales (simp_all add: page_request_defs merge8452_def)

interpretation t8453: prepended_chart s3_OutBlock1 r3_Time "integrated_tick_page req" merge8453 "a3_Cts_Date \<circ> s3_OutBlock"
  by unfold_locales (simp_all add: page_request_defs merge8453_def)

interpretation t8412: appended_chart s1_OutBlock1 r1_Time "chart_minute_page req" merge8412 "a1_Cts_Date \<circ> s1_OutBlock"
    "a1_Cts_Time \<circ> s1_OutBlock" trim_space
  by unfold_locales (simp_all add: page_request_defs merge8412_def trim_space_def is_space_def)

interpretation t1302: appended_chart s4_OutBlock1 r4_Chetime "minute_price_page code" merge1302 "\<lambda>_. []"
    "a4_Cts_Time \<circ> s4_OutBlock" "\<lambda>s. s"
  by unfold_locales (simp_all add: page_request_defs merge1302_def)

interpretation t1405: appended_chart s5_OutBlock1 r5_Shcode "warning_page gubun jongchk" merge1405 "\<lambda>_. []"
    "a5_Cts_shcode \<circ> s5_OutBlock" trim_space
  by unfold_locales (simp_all add: page_request_defs merge1405_def trim_space_def is_space_def)

text \<open>C22. The integrated minute chart is complete and in order. From a server that pages backwards,
  \<open>n\<close> rows at a time, the loop ends, does not panic, and returns every row exactly once, oldest
  first.\<close>

theorem ls2_integrated_chart_complete:
  assumes "pages_backwards s2_OutBlock1 r2_Time cts_time n hist call" and "'' '' \<notin> r2_Time ` set hist"
    and "0 < cm_PageTimeout req" and "cm_Cont req"
  shows "\<exists>header resp. Chart_Integrated_Minute call req = Some (Some (Inr (header, resp))) \<and> s2_OutBlock1 resp = hist"
  using t8452.collects_all [OF assms(1,2)] assms(3,4) by (simp add: Chart_Integrated_Minute_def)

text \<open>The minute chart of t8412 and a server that pages backwards: the loop ends and returns every
  row exactly once, but the pages stand in the order in which they came, so that the rows are in
  the order of time only when one page holds them all. The comments of \<open>rest_chart.go\<close> describe
  such a server for the integrated charts only; for t8412 it is an assumption.\<close>

theorem ls2_minute_chart_order:
  assumes "pages_backwards s1_OutBlock1 r1_Time cts_time n hist call"
    and "continues_at s1_OutBlock1 r1_Time (a1_Cts_Time \<circ> s1_OutBlock) call"
    and "list_all (\<lambda>row. trim_space (r1_Time row) = r1_Time row \<and> r1_Time row \<noteq> []) hist"
    and "'' '' \<notin> r1_Time ` set hist" and "0 < cm_PageTimeout req" and "cm_Cont req"
  shows "\<exists>header resp. ChartMinute call req = Some (Some (Inr (header, resp))) \<and>
    mset (s1_OutBlock1 resp) = mset hist \<and> (s1_OutBlock1 resp = hist \<longleftrightarrow> length hist \<le> n)"
proof -
  have n: "0 < n" and dist: "distinct hist"
    using assms(1) by (auto simp: pages_backwards_def distinct_map)
  from t8412.collects_pages [OF assms(1-4), of "''ls get chart minute''" req "'' ''"] assms(5,6)
  obtain header resp where "ChartMinute call req = Some (Some (Inr (header, resp)))"
    and "s1_OutBlock1 resp = concat (back_pages n (length hist) hist)"
    unfolding ChartMinute_def by (auto simp del: first_page_def)
  with concat_back_pages [OF n order.refl, of hist] back_pages_chronological [OF n dist] show ?thesis by simp
qed

text \<open>The first page of the integrated minute chart holds no rows: if the header promises more,
  the loop panics, and otherwise the page is the result. The response type of the call has no
  \<open>CheckError\<close>, so that no response code is looked at.\<close>

theorem ls2_chart_empty_page:
  assumes "\<And>x. send 0 x = Inr (resp, header)" and "s2_OutBlock1 resp = []" and "0 < cm_PageTimeout req"
  shows "Chart_Integrated_Minute (\<lambda>k. v2_sendREST (send k) (\<lambda>_. None) wait token svc) req =
    (if cm_Cont req \<and> header ''tr_cont'' = ''Y'' then Some None
     else Some (Some (Inr (header, resp))))"
proof -
  let ?st = "first_page '' '' '' '' :: t8452_response page_state"
  have "v2_sendREST (send 0) (\<lambda>_. None) wait token svc (integrated_minute_page req ?st) = Inr (resp, header)"
    using assms(1) by (simp add: v2_sendREST_def integrated_minute_page_def paged_request_def)
  then show ?thesis
    using assms(2,3) by (simp add: Chart_Integrated_Minute_def iterate_turns.simps [of _ 0] prepended_turn_def)
      (simp add: first_page_def)
qed

section \<open>A concrete server\<close>

definition demo_out2 :: t8452_out where
  "demo_out2 = \<lparr>a2_Shcode = [], a2_Jisiga = 0, a2_Jihigh = 0, a2_Jilow = 0, a2_Jiclose = 0, a2_Jivolume = 0,
     a2_Disiga = 0, a2_Dihigh = 0, a2_Dilow = 0, a2_Diclose = 0, a2_Highend = 0, a2_Lowend = 0, a2_Cts_Date = [],
     a2_Cts_Time = [], a2_S_Time = [], a2_E_Time = [], a2_Dshmin = [], a2_RecCount = 0, a2_Nxt_fm_s_time = [],
     a2_Nxt_fm_e_time = [], a2_Nxt_fm_dshmin = [], a2_Nxt_am_s_time = [], a2_Nxt_am_e_time = [], a2_Nxt_am_dshmin = []\<rparr>"

definition demo_row2 :: "string \<Rightarrow> t8452_row" where
  "demo_row2 t = \<lparr>r2_Date = [], r2_Time = t, r2_Open = 0, r2_High = 0, r2_Low = 0, r2_Close = 0, r2_JdiffVol = 0,
     r2_Value = 0, r2_Jongchk = 0, r2_Rate = [], r2_Sign = []\<rparr>"

definition demo_hist2 :: "t8452_row list" where
  "demo_hist2 = map demo_row2 [''090000'', ''090100'', ''090200'']"

definition demo_server2 :: "nat \<Rightarrow> ls2_request \<Rightarrow> unit ls_rest_error + t8452_response \<times> resp_header" where
  "demo_server2 k q = (let i = rows_before r2_Time demo_hist2 (cts_time q) in
     Inr (\<lparr>s2_RspCd = [], s2_RspMsg = [], s2_OutBlock = demo_out2, s2_OutBlock1 = page_before 2 i demo_hist2\<rparr>,
          \<lambda>h. if h = ''tr_cont'' then more_before 2 i else []))"

definition demo_minutes :: chart_minute_request where
  "demo_minutes = \<lparr>cm_Shcode = ''005930'', cm_Minute = 1, cm_Qrycnt = 2, cm_Nday = ''0'', cm_Sdate = '' '', cm_Stime = [],
     cm_Edate = ''99999999'', cm_Etime = [], cm_Comp_yn = ''N'', cm_Cont = True, cm_PageTimeout = 1000000000,
     cm_Exchgubun = ''U''\<rparr>"

theorem ls2_integrated_chart_complete_witness:
  "\<exists>header resp. Chart_Integrated_Minute demo_server2 demo_minutes = Some (Some (Inr (header, resp))) \<and>
    map r2_Time (s2_OutBlock1 resp) = [''090000'', ''090100'', ''090200'']"
proof -
  have "pages_backwards s2_OutBlock1 r2_Time cts_time 2 demo_hist2 demo_server2"
    by (simp add: pages_backwards_def demo_server2_def Let_def) (simp add: demo_hist2_def demo_row2_def)
  moreover have "'' '' \<notin> r2_Time ` set demo_hist2" by (simp add: demo_hist2_def demo_row2_def)
  ultimately obtain header resp where
    "Chart_Integrated_Minute demo_server2 demo_minutes = Some (Some (Inr (header, resp)))" "s2_OutBlock1 resp = demo_hist2"
    using ls2_integrated_chart_complete [of 2 demo_hist2 demo_server2 demo_minutes] by (auto simp: demo_minutes_def)
  then show ?thesis by (simp add: demo_hist2_def demo_row2_def)
qed

definition demo_error2 :: t8452_response where
  "demo_error2 = \<lparr>s2_RspCd = ''IGW00121'', s2_RspMsg = [], s2_OutBlock = demo_out2, s2_OutBlock1 = []\<rparr>"

definition demo_rest2 :: "unit ls2_rest" where
  "demo_rest2 = \<lparr>l2r_restURL = [], l2r_accountNo = [], l2r_trLimiters = v2_setLimiters (\<lambda>_ _. ())\<rparr>"

theorem ls2_chart_empty_page_witness:
  "Chart_Integrated_Minute (\<lambda>k. v2_sendREST (\<lambda>_. Inr (demo_error2, \<lambda>_. ''Y'')) (\<lambda>_. None) (\<lambda>_. None :: unit option)
      (Inr ''T'') demo_rest2) demo_minutes = Some None"
proof -
  have "s2_OutBlock1 demo_error2 = []" "0 < cm_PageTimeout demo_minutes" "cm_Cont demo_minutes"
    by (simp_all add: demo_error2_def demo_minutes_def)
  then show ?thesis
    using ls2_chart_empty_page [of "\<lambda>_ _. Inr (demo_error2, \<lambda>_. ''Y'')" demo_error2 "\<lambda>_. ''Y''" demo_minutes] by simp
qed

definition demo_out1 :: "string \<Rightarrow> t8412_out" where
  "demo_out1 t = \<lparr>a1_Shcode = [], a1_Jisiga = 0, a1_Jihigh = 0, a1_Jilow = 0, a1_Jiclose = 0, a1_Jivolume = 0,
     a1_Disiga = 0, a1_Dihigh = 0, a1_Dilow = 0, a1_Diclose = 0, a1_Highend = 0, a1_Lowend = 0, a1_Cts_Date = [],
     a1_Cts_Time = t, a1_STime = [], a1_ETime = [], a1_Dshmin = [], a1_RecCount = 0\<rparr>"

definition demo_row1 :: "string \<Rightarrow> t8412_row" where
  "demo_row1 t = \<lparr>r1_Date = [], r1_Time = t, r1_Open = 0, r1_High = 0, r1_Low = 0, r1_Close = 0, r1_JdiffVol = 0,
     r1_Value = 0, r1_Jongchk = 0, r1_Rate = [], r1_Sign = []\<rparr>"

definition demo_hist1 :: "t8412_row list" where
  "demo_hist1 = map demo_row1 [''090000'', ''090100'', ''090200'']"

definition demo_server1 :: "nat \<Rightarrow> ls2_request \<Rightarrow> unit ls_rest_error + t8412_response \<times> resp_header" where
  "demo_server1 k q = (let i = rows_before r1_Time demo_hist1 (cts_time q); page = page_before 2 i demo_hist1 in
     Inr (\<lparr>s1_RspCd = [], s1_RspMsg = [], s1_OutBlock = demo_out1 (case page of [] \<Rightarrow> [] | row # _ \<Rightarrow> r1_Time row),
           s1_OutBlock1 = page\<rparr>,
          \<lambda>h. if h = ''tr_cont'' then more_before 2 i else []))"

theorem ls2_minute_chart_order_witness:
  "\<exists>header resp. ChartMinute demo_server1 demo_minutes = Some (Some (Inr (header, resp))) \<and>
    mset (s1_OutBlock1 resp) = mset demo_hist1 \<and> s1_OutBlock1 resp \<noteq> demo_hist1"
proof -
  have "pages_backwards s1_OutBlock1 r1_Time cts_time 2 demo_hist1 demo_server1"
    by (simp add: pages_backwards_def demo_server1_def Let_def) (simp add: demo_hist1_def demo_row1_def)
  moreover have "continues_at s1_OutBlock1 r1_Time (a1_Cts_Time \<circ> s1_OutBlock) demo_server1"
    by (simp add: continues_at_def demo_server1_def demo_out1_def Let_def split: list.splits)
  moreover have "list_all (\<lambda>row. trim_space (r1_Time row) = r1_Time row \<and> r1_Time row \<noteq> []) demo_hist1"
    by (simp add: demo_hist1_def demo_row1_def trim_space_def is_space_def)
  moreover have "'' '' \<notin> r1_Time ` set demo_hist1" "length demo_hist1 = 3" by (simp_all add: demo_hist1_def demo_row1_def)
  ultimately show ?thesis
    using ls2_minute_chart_order [of 2 demo_hist1 demo_server1 demo_minutes] by (simp add: demo_minutes_def)
qed

end
