(* ===== verification/V5_Types.thy ===== *)
theory V5_Types
  imports HTS_Prelude
begin

text \<open>
  \<open>internal/core/pkg/wsrefact_v5\<close>, the single-loop reconnecting websocket client: its vocabulary
  (\<open>types.go\<close>, \<open>errors.go\<close>), the store of subscription intents (\<open>store.go\<close>) and the integer
  reconnect delay of \<open>client.go\<close>. An error that comes from outside the package is \<open>V5Foreign\<close>, and
  \<open>wraps\<close> tells which sentinels it wraps for \<open>errors.Is\<close>. A payload generator is a value of type
  \<open>'g\<close>; what a call of it returns is an argument of the handler that calls it. A duration is its
  number of nanoseconds.
\<close>

section \<open>Errors\<close>

datatype 'e v5_error =
    V5URLRequired | V5AlreadyStarted | V5AlreadyRunning | V5NotConnected | V5Backoff
  | V5AlreadySubscribed | V5NotSubscribed | V5ClientStopped | V5QueueFull
  | V5HandlerContinue | V5HandlerBackoff | V5HandlerStop | V5InvalidOptions
  | V5Operation string "'e v5_error option" | V5Foreign 'e

fun v5_Error :: "('e \<Rightarrow> string) \<Rightarrow> 'e v5_error \<Rightarrow> string" where
  "v5_Error msg V5URLRequired = ''ws: URL is required''"
| "v5_Error msg V5AlreadyStarted = ''ws: already started''"
| "v5_Error msg V5AlreadyRunning = ''ws: already running''"
| "v5_Error msg V5NotConnected = ''ws: connection not running''"
| "v5_Error msg V5Backoff = ''ws: transport in backoff''"
| "v5_Error msg V5AlreadySubscribed = ''ws: already subscribed''"
| "v5_Error msg V5NotSubscribed = ''ws: not subscribed''"
| "v5_Error msg V5ClientStopped = ''ws: client stopped''"
| "v5_Error msg V5QueueFull = ''ws: queue full''"
| "v5_Error msg V5HandlerContinue = ''ws: handler continue''"
| "v5_Error msg V5HandlerBackoff = ''ws: handler backoff''"
| "v5_Error msg V5HandlerStop = ''ws: handler stop''"
| "v5_Error msg V5InvalidOptions = ''ws: SubGen and UnsubGen are required''"
| "v5_Error msg (V5Operation operation err) =
     ''ws'' @ (if operation = [] then [] else '': '' @ operation) @
     (case err of None \<Rightarrow> [] | Some e \<Rightarrow> '': '' @ v5_Error msg e)"
| "v5_Error msg (V5Foreign e) = msg e"

fun v5_Unwrap :: "'e v5_error \<Rightarrow> 'e v5_error option" where
  "v5_Unwrap (V5Operation _ err) = err"
| "v5_Unwrap _ = None"

text \<open>\<open>errors.Is\<close> of the standard library on these errors.\<close>

fun v5_Is :: "('e \<Rightarrow> 'e v5_error \<Rightarrow> bool) \<Rightarrow> 'e v5_error \<Rightarrow> 'e v5_error \<Rightarrow> bool" where
  "v5_Is wraps (V5Operation operation (Some e)) target \<longleftrightarrow>
     V5Operation operation (Some e) = target \<or> v5_Is wraps e target"
| "v5_Is wraps (V5Foreign e) target \<longleftrightarrow> V5Foreign e = target \<or> wraps e target"
| "v5_Is wraps err target \<longleftrightarrow> err = target"

section \<open>States and events\<close>

datatype v5_state = V5Stopped | V5Reconnecting | V5Connected

fun v5_state_String :: "v5_state \<Rightarrow> string" where
  "v5_state_String V5Stopped = ''Stopped''"
| "v5_state_String V5Reconnecting = ''Reconnecting''"
| "v5_state_String V5Connected = ''Connected''"

datatype v5_event_type =
    EvConnected | EvReconnected | EvDisconnected | EvReconnecting | EvSendDuringBackoff
  | EvTransportWriteFailed | EvHandlerError | EvStopped

text \<open>A lifecycle event; the clock value that \<open>emit\<close> adds is left out.\<close>

record 'e v5_conn_event =
  ve_Type :: v5_event_type
  ve_Err :: "'e v5_error option"
  ve_Attempt :: int
  ve_Key :: string

definition v5_event :: "v5_event_type \<Rightarrow> 'e v5_conn_event" where
  "v5_event t = \<lparr>ve_Type = t, ve_Err = None, ve_Attempt = 0, ve_Key = []\<rparr>"

record 'g v5_options =
  so_SubGen :: "'g option"
  so_UnsubGen :: "'g option"
  so_MessageType :: int
  so_WriteTimeout :: int

record v5_send_options =
  wo_messageType :: int
  wo_writeTimeout :: int

definition v5_WithMessageType :: "int \<Rightarrow> v5_send_options \<Rightarrow> v5_send_options" where
  "v5_WithMessageType messageType options = options\<lparr>wo_messageType := messageType\<rparr>"

definition v5_WithWriteTimeout :: "int \<Rightarrow> v5_send_options \<Rightarrow> v5_send_options" where
  "v5_WithWriteTimeout timeout options = options\<lparr>wo_writeTimeout := timeout\<rparr>"

text \<open>The options of one call of \<open>Send\<close>, applied in order to the default.\<close>

definition v5_writeOptions :: "(v5_send_options \<Rightarrow> v5_send_options) list \<Rightarrow> v5_send_options" where
  "v5_writeOptions options = fold (\<lambda>option. option) options \<lparr>wo_messageType = 1, wo_writeTimeout = 0\<rparr>"

section \<open>Configuration\<close>

text \<open>The dialer and the message callback are references; \<open>vc_OnReady\<close> tells whether the hook is
  set.\<close>

record v5_config =
  vc_Dialer :: "nat option"
  vc_URL :: string
  vc_Header :: "(string \<rightharpoonup> string list) option"
  vc_ReadLimit :: int
  vc_PongTimeout :: int
  vc_PingInterval :: int
  vc_WriteTimeout :: int
  vc_DialTimeout :: int
  vc_ReconnectMin :: int
  vc_ReconnectMax :: int
  vc_EventQueueSize :: int
  vc_WriteQueueSize :: int
  vc_OnMessage :: "nat option"
  vc_OnReady :: bool

definition v5_second :: int where
  "v5_second = 1000000000"

text \<open>The result of a validation that assigns the fields one after the other: \<open>vc_ReconnectMax\<close> is
  compared with the new minimum. \<open>OnEvent\<close> is normalized too; the model logs its calls.\<close>

definition v5_applyDefaults :: "nat \<Rightarrow> nat \<Rightarrow> v5_config \<Rightarrow> 'e v5_error + v5_config" where
  "v5_applyDefaults defaultDialer noop c =
     (if vc_URL c = [] then Inl V5URLRequired
      else let ping = (if vc_PingInterval c < 0 then 0 else vc_PingInterval c);
               low = (if vc_ReconnectMin c \<le> 0 then v5_second else vc_ReconnectMin c);
               high = (if vc_ReconnectMax c \<le> 0 then 60 * v5_second else vc_ReconnectMax c)
           in Inr (c\<lparr>vc_Dialer := Some (case vc_Dialer c of None \<Rightarrow> defaultDialer | Some d \<Rightarrow> d),
             vc_PingInterval := ping,
             vc_PongTimeout := (if 0 < ping \<and> vc_PongTimeout c \<le> 0 then 10 * v5_second else vc_PongTimeout c),
             vc_WriteTimeout := (if vc_WriteTimeout c \<le> 0 then 10 * v5_second else vc_WriteTimeout c),
             vc_DialTimeout := (if vc_DialTimeout c \<le> 0 then 10 * v5_second else vc_DialTimeout c),
             vc_ReconnectMin := low,
             vc_ReconnectMax := (if high < low then low else high),
             vc_EventQueueSize := (if vc_EventQueueSize c \<le> 0 then 256 else vc_EventQueueSize c),
             vc_WriteQueueSize := (if vc_WriteQueueSize c \<le> 0 then 256 else vc_WriteQueueSize c),
             vc_OnMessage := Some (case vc_OnMessage c of None \<Rightarrow> noop | Some h \<Rightarrow> h)\<rparr>))"

definition v5_config_ok :: "v5_config \<Rightarrow> bool" where
  "v5_config_ok c \<longleftrightarrow> vc_URL c \<noteq> [] \<and> vc_Dialer c \<noteq> None \<and> vc_OnMessage c \<noteq> None \<and> 0 \<le> vc_PingInterval c \<and>
     (0 < vc_PingInterval c \<longrightarrow> 0 < vc_PongTimeout c) \<and> 0 < vc_WriteTimeout c \<and> 0 < vc_DialTimeout c \<and>
     0 < vc_ReconnectMin c \<and> vc_ReconnectMin c \<le> vc_ReconnectMax c \<and> 0 < vc_EventQueueSize c \<and> 0 < vc_WriteQueueSize c"

lemma v5_applyDefaults_ok: "v5_applyDefaults d h c = Inr c' \<Longrightarrow> v5_config_ok c'"
  by (cases "vc_URL c = []")
    (simp_all add: v5_applyDefaults_def v5_config_ok_def v5_second_def Let_def, auto simp: v5_second_def)

lemma v5_applyDefaults_fix: "v5_config_ok c \<Longrightarrow> v5_applyDefaults d h c = Inr c"
  by (cases c) (auto simp: v5_applyDefaults_def v5_config_ok_def Let_def)

definition v5_resolveMessageType :: "int \<Rightarrow> int" where
  "v5_resolveMessageType messageType = (if 0 < messageType then messageType else 1)"

definition v5_cloneHeader :: "(string \<rightharpoonup> string list) option \<Rightarrow> (string \<rightharpoonup> string list) option" where
  "v5_cloneHeader header = map_option (\<lambda>h key. map_option (\<lambda>values. [] @ values) (h key)) header"

section \<open>The reconnect delay\<close>

text \<open>The doubling loop of \<open>calcBackoff\<close> with the turns that are left; durations wrap at 64 bits.\<close>

fun v5_backoff_loop :: "int \<Rightarrow> nat \<Rightarrow> int \<Rightarrow> int" where
  "v5_backoff_loop maximum 0 backoff = backoff"
| "v5_backoff_loop maximum (Suc n) backoff =
     (if maximum \<le> backoff then maximum
      else let doubled = wrap64 (backoff * 2)
           in if maximum < doubled then maximum else v5_backoff_loop maximum n doubled)"

definition v5_calcBackoff :: "int \<Rightarrow> int \<Rightarrow> int \<Rightarrow> int" where
  "v5_calcBackoff minimum maximum attempt =
     (if attempt \<le> 1 then minimum else v5_backoff_loop maximum (nat (attempt - 1)) minimum)"

definition nextReconnectAttempt :: "int \<Rightarrow> int" where
  "nextReconnectAttempt attempt = (if attempt \<le> 0 then 1 else wrap64 (attempt + 1))"

text \<open>No doubling below the maximum overflows when the maximum is at most half the range.\<close>

lemma v5_backoff_loop_exact:
  assumes "0 < b" "b \<le> maximum" "maximum \<le> 2 ^ 62"
  shows "v5_backoff_loop maximum n b = min maximum (b * 2 ^ n)"
  using assms
proof (induction n arbitrary: b)
  case (Suc n)
  have grow: "b * 2 \<le> b * 2 ^ Suc n" using Suc.prems(1) by simp
  have "wrap64 (b * 2) = b * 2" if "b < maximum"
    using that Suc.prems by (intro wrap64_id) (simp add: in64_def)
  moreover have "v5_backoff_loop maximum n (b * 2) = min maximum (b * 2 ^ Suc n)" if "b * 2 \<le> maximum"
    using Suc.IH [of "b * 2"] that Suc.prems by (simp add: mult.assoc)
  moreover have "maximum < b * 2 \<Longrightarrow> maximum = min maximum (b * 2 ^ Suc n)"
      "maximum = b \<Longrightarrow> maximum = min maximum (b * 2 ^ Suc n)" using grow Suc.prems(1) by linarith+
  ultimately show ?case using Suc.prems by (auto simp: Let_def simp del: power_Suc)
qed simp

lemma v5_calcBackoff_exact:
  assumes "v5_config_ok c" "vc_ReconnectMax c \<le> 2 ^ 62" "1 \<le> attempt"
  shows "v5_calcBackoff (vc_ReconnectMin c) (vc_ReconnectMax c) attempt =
    min (vc_ReconnectMax c) (vc_ReconnectMin c * 2 ^ nat (attempt - 1))"
  using assms by (cases "attempt = 1") (simp_all add: v5_calcBackoff_def v5_backoff_loop_exact v5_config_ok_def)

section \<open>The intent store\<close>

record 'g v5_intent =
  vi_key :: string
  vi_options :: "'g v5_options"

record 'g v5_store =
  vt_order :: "string list"
  vt_entries :: "string \<rightharpoonup> 'g v5_intent"

definition v5_newIntentStore :: "'g v5_store" where
  "v5_newIntentStore = \<lparr>vt_order = [], vt_entries = Map.empty\<rparr>"

definition intent_put :: "string \<Rightarrow> 'g v5_options \<Rightarrow> 'g v5_store \<Rightarrow> 'e v5_error + 'g v5_store" where
  "intent_put key opts s =
     (case vt_entries s key of
        Some _ \<Rightarrow> Inl V5AlreadySubscribed
      | None \<Rightarrow> Inr (s\<lparr>vt_order := vt_order s @ [key],
          vt_entries := (vt_entries s)(key \<mapsto> \<lparr>vi_key = key, vi_options = opts\<rparr>)\<rparr>))"

definition intent_remove :: "string \<Rightarrow> 'g v5_store \<Rightarrow> 'e v5_error + 'g v5_intent \<times> 'g v5_store" where
  "intent_remove key s =
     (case vt_entries s key of
        None \<Rightarrow> Inl V5NotSubscribed
      | Some intent \<Rightarrow> Inr (intent, s\<lparr>vt_entries := (vt_entries s)(key := None),
          vt_order := (case remove_first (\<lambda>k. k = key) (vt_order s) of None \<Rightarrow> vt_order s | Some ks \<Rightarrow> ks)\<rparr>))"

definition intent_snapshot :: "'g v5_store \<Rightarrow> 'g v5_intent list" where
  "intent_snapshot s = List.map_filter (vt_entries s) (vt_order s)"

definition intent_keys :: "'g v5_store \<Rightarrow> string list" where
  "intent_keys s = vt_order s"

text \<open>What the loop relies on: an ordered log of distinct keys. The abstraction of the store is its
  list of intents.\<close>

locale intent_log =
  fixes put :: "string \<Rightarrow> 'o \<Rightarrow> 's \<Rightarrow> 'r + 's"
    and remove :: "string \<Rightarrow> 's \<Rightarrow> 'r + 'i \<times> 's"
    and contents :: "'s \<Rightarrow> (string \<times> 'i) list"
    and mk :: "string \<Rightarrow> 'o \<Rightarrow> 'i"
    and ok :: "'s \<Rightarrow> bool"
  assumes distinct: "ok s \<Longrightarrow> distinct (map fst (contents s))"
    and put_refused: "ok s \<Longrightarrow> key \<in> fst ` set (contents s) \<Longrightarrow> \<exists>e. put key opts s = Inl e"
    and put_added: "ok s \<Longrightarrow> key \<notin> fst ` set (contents s) \<Longrightarrow>
      \<exists>s'. put key opts s = Inr s' \<and> ok s' \<and> contents s' = contents s @ [(key, mk key opts)]"
    and remove_refused: "ok s \<Longrightarrow> key \<notin> fst ` set (contents s) \<Longrightarrow> \<exists>e. remove key s = Inl e"
    and remove_found: "ok s \<Longrightarrow> (key, i) \<in> set (contents s) \<Longrightarrow>
      \<exists>s'. remove key s = Inr (i, s') \<and> ok s' \<and> contents s' = filter (\<lambda>x. fst x \<noteq> key) (contents s)"
begin

definition log_op :: "string \<times> 'o option \<Rightarrow> 's \<Rightarrow> 's" where
  "log_op a s = (case a of
     (key, Some opts) \<Rightarrow> (case put key opts s of Inl _ \<Rightarrow> s | Inr s' \<Rightarrow> s')
   | (key, None) \<Rightarrow> (case remove key s of Inl _ \<Rightarrow> s | Inr (_, s') \<Rightarrow> s'))"

text \<open>The specification: a subscription keeps its first place until it is removed.\<close>

fun spec_op :: "string \<times> 'o option \<Rightarrow> (string \<times> 'i) list \<Rightarrow> (string \<times> 'i) list" where
  "spec_op (key, Some opts) xs = (if key \<in> fst ` set xs then xs else xs @ [(key, mk key opts)])"
| "spec_op (key, None) xs = filter (\<lambda>x. fst x \<noteq> key) xs"

lemma log_op_refines: "ok s \<Longrightarrow> ok (log_op a s) \<and> contents (log_op a s) = spec_op a (contents s)"
proof (cases "a")
  case (Pair key opts)
  assume ok: "ok s"
  show ?thesis
  proof (cases opts)
    case (Some x)
    then show ?thesis using ok Pair put_refused [OF ok, of key x] put_added [OF ok, of key x]
      by (cases "key \<in> fst ` set (contents s)") (auto simp: log_op_def)
  next
    case None
    show ?thesis
    proof (cases "key \<in> fst ` set (contents s)")
      case True
      then obtain i where "(key, i) \<in> set (contents s)" by auto
      from remove_found [OF ok this] show ?thesis using Pair None by (auto simp: log_op_def)
    next
      case False
      then have "filter (\<lambda>x. fst x \<noteq> key) (contents s) = contents s" by (auto simp: filter_id_conv)
      then show ?thesis using ok Pair None remove_refused [OF ok False] by (auto simp: log_op_def)
    qed
  qed
qed

lemma fold_refines: "ok s \<Longrightarrow> ok (fold log_op xs s) \<and> contents (fold log_op xs s) = fold spec_op xs (contents s)"
  by (induction xs arbitrary: s) (simp_all add: log_op_refines)

end

definition v5_store_ok :: "'g v5_store \<Rightarrow> bool" where
  "v5_store_ok s \<longleftrightarrow> distinct (vt_order s) \<and> set (vt_order s) = dom (vt_entries s) \<and>
     (\<forall>k i. vt_entries s k = Some i \<longrightarrow> vi_key i = k)"

lemma v5_newIntentStore_ok [simp, inv_intros]: "v5_store_ok v5_newIntentStore"
  by (simp add: v5_store_ok_def v5_newIntentStore_def)

lemma snapshot_total: "v5_store_ok s \<Longrightarrow> intent_snapshot s = map (the \<circ> vt_entries s) (vt_order s)"
proof -
  have "List.map_filter f xs = map (the \<circ> f) xs" if "set xs \<subseteq> dom f" for f :: "string \<rightharpoonup> 'g v5_intent" and xs
    using that by (induction xs) (auto simp: List.map_filter_def)
  then have "set (vt_order s) \<subseteq> dom (vt_entries s) \<Longrightarrow> ?thesis" by (simp add: intent_snapshot_def)
  then show "v5_store_ok s \<Longrightarrow> ?thesis" by (simp add: v5_store_ok_def)
qed

lemma snapshot_keys: "v5_store_ok s \<Longrightarrow> map vi_key (intent_snapshot s) = intent_keys s"
  by (auto simp: snapshot_total intent_keys_def v5_store_ok_def intro!: map_idI)

lemma remove_first_filter: "distinct ks \<Longrightarrow> remove_first (\<lambda>k. k = key) ks = Some ks' \<Longrightarrow> ks' = filter (\<lambda>k. k \<noteq> key) ks"
  proof (induction ks arbitrary: ks')
  case (Cons k ks)
  then have "k = key \<Longrightarrow> filter (\<lambda>k. k \<noteq> key) ks = ks" by (auto simp: filter_id_conv)
  then show ?case using Cons by (auto split: if_splits)
qed simp

lemma intent_put_ok [inv_intros]: "v5_store_ok s \<Longrightarrow> intent_put key opts s = Inr s' \<Longrightarrow> v5_store_ok s'"
  by (auto simp: v5_store_ok_def intent_put_def split: option.splits if_splits)

lemma intent_remove_spec:
  assumes "v5_store_ok s" "vt_entries s key = Some i"
  shows "intent_remove key s = Inr (i, s\<lparr>vt_entries := (vt_entries s)(key := None), vt_order := filter (\<lambda>k. k \<noteq> key) (vt_order s)\<rparr>)"
proof -
  have "key \<in> set (vt_order s)" "distinct (vt_order s)" using assms by (auto simp: v5_store_ok_def)
  then obtain ks where "remove_first (\<lambda>k. k = key) (vt_order s) = Some ks"
    by (cases "remove_first (\<lambda>k. k = key) (vt_order s)") auto
  with remove_first_filter [OF \<open>distinct (vt_order s)\<close> this] show ?thesis
    using assms(2) by (simp add: intent_remove_def)
qed

lemma intent_remove_ok [inv_intros]: "v5_store_ok s \<Longrightarrow> intent_remove key s = Inr (i, s') \<Longrightarrow> v5_store_ok s'"
proof -
  assume ok: "v5_store_ok s" and r: "intent_remove key s = Inr (i, s')"
  from r obtain j where j: "vt_entries s key = Some j" by (auto simp: intent_remove_def split: option.splits)
  with r ok show "v5_store_ok s'"
    by (auto simp: intent_remove_spec [OF ok j] v5_store_ok_def split: if_splits)
qed

interpretation v5_log: intent_log intent_put intent_remove
    "\<lambda>s. map (\<lambda>i. (vi_key i, i)) (intent_snapshot s)" "\<lambda>key opts. \<lparr>vi_key = key, vi_options = opts\<rparr>" v5_store_ok
proof (unfold_locales, goal_cases)
  case (1 s)
  then show ?case by (simp add: comp_def snapshot_keys) (simp add: intent_keys_def v5_store_ok_def)
next
  case (2 s key opts)
  then have "key \<in> set (intent_keys s)" by (simp add: image_comp comp_def flip: snapshot_keys)
  with 2(1) show ?case by (auto simp: intent_keys_def v5_store_ok_def intent_put_def)
next
  case (3 s key opts)
  then have "key \<notin> set (intent_keys s)" by (simp add: image_comp comp_def flip: snapshot_keys)
  with 3(1) have k: "vt_entries s key = None" "key \<notin> set (vt_order s)" by (auto simp: intent_keys_def v5_store_ok_def)
  then have p: "intent_put key opts s = Inr (s\<lparr>vt_order := vt_order s @ [key],
      vt_entries := (vt_entries s)(key \<mapsto> \<lparr>vi_key = key, vi_options = opts\<rparr>)\<rparr>)" by (simp add: intent_put_def)
  note ok = intent_put_ok [OF 3(1) p]
  then show ?case using k by (simp add: p snapshot_total [OF 3(1)] snapshot_total)
next
  case (4 s key)
  then have "key \<notin> set (intent_keys s)" by (simp add: image_comp comp_def flip: snapshot_keys)
  with 4(1) have "vt_entries s key = None" by (auto simp: intent_keys_def v5_store_ok_def)
  then show ?case by (simp add: intent_remove_def)
next
  case (5 s key i)
  then have "i \<in> set (intent_snapshot s)" "vi_key i = key" by auto
  then have i: "vt_entries s key = Some i" using 5(1) by (auto simp: snapshot_total v5_store_ok_def)
  note r = intent_remove_spec [OF 5(1) i]
  note ok = intent_remove_ok [OF 5(1) r]
  have "map (the \<circ> (vt_entries s)(key := None)) (filter (\<lambda>k. k \<noteq> key) ks) =
      filter (\<lambda>i. vi_key i \<noteq> key) (map (the \<circ> vt_entries s) ks)" if "set ks \<subseteq> dom (vt_entries s)" for ks
    using that 5(1) by (induction ks) (auto simp: v5_store_ok_def)
  then have "intent_snapshot (s\<lparr>vt_entries := (vt_entries s)(key := None), vt_order := filter (\<lambda>k. k \<noteq> key) (vt_order s)\<rparr>) =
      filter (\<lambda>i. vi_key i \<noteq> key) (intent_snapshot s)"
    using 5(1) by (simp add: snapshot_total [OF 5(1)] snapshot_total [OF ok]) (simp add: v5_store_ok_def)
  then have "map (\<lambda>i. (vi_key i, i)) (intent_snapshot (s\<lparr>vt_entries := (vt_entries s)(key := None),
        vt_order := filter (\<lambda>k. k \<noteq> key) (vt_order s)\<rparr>)) =
      filter (\<lambda>x. fst x \<noteq> key) (map (\<lambda>i. (vi_key i, i)) (intent_snapshot s))"
    by (simp only: filter_map comp_def fst_conv)
  with r ok show ?case by blast
qed

end
