(* ===== verification/V5_Client.thy ===== *)
theory V5_Client
  imports V5_Types
begin

text \<open>
  \<open>internal/core/pkg/wsrefact_v5\<close>: the session with its read loop (\<open>session.go\<close>), the writer of a
  connection (\<open>ioworker.go\<close>), both together (\<open>transport.go\<close>) and the single-thread loop behind the
  public client (\<open>client.go\<close>), one definition per function. \<open>V5_System\<close> runs them concurrently.

  A transport is its index in \<open>lp_transports\<close>, a completion handle is the number of its creation,
  and \<open>cl_resolved\<close> logs all calls of \<open>resolve\<close>. Where the loop waits (for the writer in
  \<open>SendSync\<close>, for room in \<open>Dispose\<close>, for the goroutines at the end, for the user in \<open>OnReady\<close>) its
  state is a constructor of \<open>v5_phase\<close>. \<open>gens n g\<close> is what the payload generator \<open>g\<close> returns when
  it is the \<open>n\<close>th generator call. What connections answer is an argument.
\<close>

section \<open>Session\<close>

text \<open>\<open>ReadPublish\<close> waits to hand its read error and handler error to the loop; the flag tells
  whether reading goes on.\<close>

datatype 'e v5_read =
    ReadIdle | ReadLoop | ReadPublish "'e v5_error option" "'e v5_error option" bool | ReadDone

text \<open>A written frame: its type, its payload (a ping has none) and the timeout of its deadline.\<close>

type_synonym v5_frame = "int \<times> string option \<times> int"

record 'e v5_session =
  vn_writeTimeout :: int
  vn_stopped :: bool
  vn_read :: "'e v5_read"
  vn_frames :: "v5_frame list"

definition newSession :: "int \<Rightarrow> 'e v5_session" where
  "newSession writeTimeout = \<lparr>vn_writeTimeout = writeTimeout, vn_stopped = False, vn_read = ReadIdle, vn_frames = []\<rparr>"

definition session_Start :: "'e v5_session \<Rightarrow> 'e v5_error + 'e v5_session" where
  "session_Start s = (if vn_read s \<noteq> ReadIdle then Inl V5AlreadyStarted else Inr (s\<lparr>vn_read := ReadLoop\<rparr>))"

definition session_Stop :: "'e v5_session \<Rightarrow> 'e v5_session" where
  "session_Stop s = s\<lparr>vn_stopped := True\<rparr>"

definition session_writeOne ::
    "'e option \<Rightarrow> string option \<Rightarrow> int \<Rightarrow> int \<Rightarrow> 'e v5_session \<Rightarrow> 'e v5_session \<times> 'e v5_error option" where
  "session_writeOne answer payload messageType writeTimeout s =
     (let timeout = (if writeTimeout \<le> 0 then vn_writeTimeout s else writeTimeout);
          mt = (if messageType \<le> 0 then 1 else messageType)
      in case answer of
           Some e \<Rightarrow> (s, Some (V5Operation ''write message'' (Some (V5Foreign e))))
         | None \<Rightarrow> (s\<lparr>vn_frames := vn_frames s @ [(mt, payload, timeout)]\<rparr>, None))"

text \<open>One turn of \<open>runReadLoop\<close>: a read error, or what the message handler returned.\<close>

definition runReadLoop_turn ::
    "('e \<Rightarrow> 'e v5_error \<Rightarrow> bool) \<Rightarrow> 'e + 'e v5_error option \<Rightarrow> 'e v5_session \<Rightarrow> 'e v5_session" where
  "runReadLoop_turn wraps answer s =
     (case answer of
        Inl e \<Rightarrow> s\<lparr>vn_read := ReadPublish (Some (V5Operation ''read message'' (Some (V5Foreign e)))) None False\<rparr>
      | Inr None \<Rightarrow> s
      | Inr (Some handlerErr) \<Rightarrow>
          s\<lparr>vn_read := ReadPublish None (Some handlerErr) (v5_Is wraps handlerErr V5HandlerContinue)\<rparr>)"

definition read_published :: "bool \<Rightarrow> 'e v5_session \<Rightarrow> 'e v5_session" where
  "read_published continues s = s\<lparr>vn_read := (if continues then ReadLoop else ReadDone)\<rparr>"

section \<open>Writer\<close>

record v5_request =
  vq_payload :: string
  vq_messageType :: int
  vq_writeTimeout :: int
  vq_subscription :: "nat option"
  vq_sync :: bool

datatype v5_worker_event = WorkerWrite v5_request | WorkerDispose

text \<open>\<open>vw_failing\<close> is the failure that \<open>publishFailure\<close> waits to hand to the loop.\<close>

record 'e v5_worker =
  vw_pingInterval :: int
  vw_eventCh :: "v5_worker_event chan"
  vw_started :: bool
  vw_disposed :: bool
  vw_failing :: "'e v5_error option"
  vw_done :: bool

definition newIOWorker :: "int \<Rightarrow> int \<Rightarrow> 'e v5_worker" where
  "newIOWorker pingInterval queueSize =
     \<lparr>vw_pingInterval = pingInterval, vw_eventCh = chan_make (nat (if queueSize \<le> 0 then 64 else queueSize)),
      vw_started = False, vw_disposed = False, vw_failing = None, vw_done = False\<rparr>"

definition worker_Start :: "'e v5_worker \<Rightarrow> 'e v5_error + 'e v5_worker" where
  "worker_Start w = (if vw_started w then Inl V5AlreadyStarted else Inr (w\<lparr>vw_started := True\<rparr>))"

text \<open>\<open>None\<close>: the send of the dispose event blocks.\<close>

definition worker_Dispose :: "'e v5_worker \<Rightarrow> 'e v5_worker option" where
  "worker_Dispose w =
     (if \<not> vw_started w \<or> vw_disposed w then Some w
      else map_option (\<lambda>ch. w\<lparr>vw_eventCh := ch, vw_disposed := True\<rparr>) (chan_send (vw_eventCh w) WorkerDispose))"

definition TryEnqueue :: "string \<Rightarrow> int \<Rightarrow> int \<Rightarrow> nat \<Rightarrow> 'e v5_worker \<Rightarrow> 'e v5_worker \<times> bool" where
  "TryEnqueue payload messageType writeTimeout sub w =
     (case chan_try_send (vw_eventCh w) (WorkerWrite \<lparr>vq_payload = payload, vq_messageType = messageType,
          vq_writeTimeout = writeTimeout, vq_subscription = Some sub, vq_sync = False\<rparr>) of
        (ch, enqueued) \<Rightarrow> (w\<lparr>vw_eventCh := ch\<rparr>, enqueued))"

text \<open>The blocking send of \<open>SendSync\<close>; its result comes through \<open>lp_sync\<close> below.\<close>

definition SendSync_enqueue :: "string \<Rightarrow> int \<Rightarrow> int \<Rightarrow> 'e v5_worker \<Rightarrow> 'e v5_worker option" where
  "SendSync_enqueue payload messageType writeTimeout w =
     map_option (\<lambda>ch. w\<lparr>vw_eventCh := ch\<rparr>) (chan_send (vw_eventCh w) (WorkerWrite \<lparr>vq_payload = payload,
       vq_messageType = messageType, vq_writeTimeout = writeTimeout, vq_subscription = None, vq_sync = True\<rparr>))"

section \<open>Transport\<close>

record 'e v5_transport =
  tp_session :: "'e v5_session"
  tp_worker :: "'e v5_worker"

definition newTransport :: "int \<Rightarrow> int \<Rightarrow> int \<Rightarrow> 'e v5_error + 'e v5_transport" where
  "newTransport writeTimeout pingInterval writeQueueSize =
     bindE (session_Start (newSession writeTimeout)) (\<lambda>s.
     bindE (worker_Start (newIOWorker pingInterval writeQueueSize)) (\<lambda>w.
     Inr \<lparr>tp_session = s, tp_worker = w\<rparr>))"

definition worker_handleRequest ::
    "'e option \<Rightarrow> v5_request \<Rightarrow> 'e v5_transport \<Rightarrow> 'e v5_transport \<times> 'e v5_error option" where
  "worker_handleRequest answer q t =
     (case session_writeOne answer (Some (vq_payload q)) (vq_messageType q) (vq_writeTimeout q) (tp_session t) of
        (s, writeErr) \<Rightarrow> (t\<lparr>tp_session := s, tp_worker := (tp_worker t)\<lparr>vw_failing := writeErr\<rparr>\<rparr>, writeErr))"

definition worker_handlePing :: "'e option \<Rightarrow> 'e v5_transport \<Rightarrow> 'e v5_transport" where
  "worker_handlePing answer t =
     (case session_writeOne answer None 9 0 (tp_session t) of
        (s, writeErr) \<Rightarrow> t\<lparr>tp_session := s, tp_worker := (tp_worker t)\<lparr>vw_failing := writeErr\<rparr>\<rparr>)"

section \<open>Client and loop\<close>

datatype ('g, 'e) v5_mux_event =
    SendEvent string v5_send_options nat
  | SubscribeEvent string "'g v5_options" nat
  | UnsubscribeEvent string nat
  | SnapshotEvent nat
  | DialResultEvent int "'e v5_error option"
  | ReconnectTickEvent int
  | SessionReadEvent nat "'e v5_error option" "'e v5_error option"
  | WorkerFailureEvent nat "'e v5_error"

datatype ('g, 'e) v5_phase =
    LoopNotRunning | LoopSelect
  | LoopReplay int "'g v5_intent list" | LoopReplayWait int "'g v5_intent list"
  | LoopReady int | LoopReadyWait int
  | LoopDispose nat int
  | LoopStop nat "'e v5_error option" | LoopJoin "nat list" "'e v5_error option" | LoopDone "'e v5_error option"

record ('g, 'e) v5_client =
  cl_config :: v5_config
  cl_eventCh :: "('g, 'e) v5_mux_event chan"
  cl_cancelled :: bool
  cl_done :: bool
  cl_state :: v5_state
  cl_started :: bool
  cl_events :: "'e v5_conn_event list"
  cl_resolved :: "(nat \<times> 'e v5_error option) list"
  cl_replies :: "(nat \<times> string list) list"
  cl_next :: nat

text \<open>\<open>lp_dials\<close> and \<open>lp_timers\<close> hold the attempts of the dial and timer goroutines that have not
  published yet.\<close>

record ('g, 'e) v5_loop = "('g, 'e) v5_client" +
  lp_store :: "'g v5_store"
  lp_live :: "nat option"
  lp_retired :: "nat list"
  lp_routingOpen :: bool
  lp_dialing :: bool
  lp_waiting :: bool
  lp_readyCount :: int
  lp_phase :: "('g, 'e) v5_phase"
  lp_transports :: "'e v5_transport list"
  lp_dials :: "int list"
  lp_timers :: "int list"
  lp_sync :: "'e v5_error option option"
  lp_calls :: nat

type_synonym ('g, 'e) v5_gens = "nat \<Rightarrow> 'g \<Rightarrow> 'e v5_error + string"

definition v5_New :: "nat \<Rightarrow> nat \<Rightarrow> v5_config \<Rightarrow> 'e v5_error + ('g, 'e) v5_loop" where
  "v5_New defaultDialer noop config =
     bindE (v5_applyDefaults defaultDialer noop config) (\<lambda>c.
       Inr \<lparr>cl_config = c, cl_eventCh = chan_make (nat (vc_EventQueueSize c)), cl_cancelled = False, cl_done = False,
         cl_state = V5Stopped, cl_started = False, cl_events = [], cl_resolved = [], cl_replies = [], cl_next = 0,
         lp_store = v5_newIntentStore, lp_live = None, lp_retired = [], lp_routingOpen = False, lp_dialing = False,
         lp_waiting = False, lp_readyCount = 0, lp_phase = LoopNotRunning, lp_transports = [], lp_dials = [],
         lp_timers = [], lp_sync = None, lp_calls = 0\<rparr>)"

definition v5_emit :: "'e v5_conn_event \<Rightarrow> ('g, 'e) v5_loop \<Rightarrow> ('g, 'e) v5_loop" where
  "v5_emit e y = y\<lparr>cl_events := cl_events y @ [e]\<rparr>"

definition v5_resolve :: "nat \<Rightarrow> 'e v5_error option \<Rightarrow> ('g, 'e) v5_loop \<Rightarrow> ('g, 'e) v5_loop" where
  "v5_resolve sub r y = y\<lparr>cl_resolved := cl_resolved y @ [(sub, r)]\<rparr>"

definition v5_setState :: "v5_state \<Rightarrow> ('g, 'e) v5_loop \<Rightarrow> ('g, 'e) v5_loop" where
  "v5_setState st y = y\<lparr>cl_state := st\<rparr>"

definition upd_transport :: "nat \<Rightarrow> ('e v5_transport \<Rightarrow> 'e v5_transport) \<Rightarrow> ('g, 'e) v5_loop \<Rightarrow> ('g, 'e) v5_loop" where
  "upd_transport i f y = y\<lparr>lp_transports := (lp_transports y)[i := f (lp_transports y ! i)]\<rparr>"

definition set_worker :: "nat \<Rightarrow> 'e v5_worker \<Rightarrow> ('g, 'e) v5_loop \<Rightarrow> ('g, 'e) v5_loop" where
  "set_worker i w = upd_transport i (\<lambda>t. t\<lparr>tp_worker := w\<rparr>)"

definition v5_phase_to :: "('g, 'e) v5_phase \<Rightarrow> ('g, 'e) v5_loop \<Rightarrow> ('g, 'e) v5_loop" where
  "v5_phase_to p y = y\<lparr>lp_phase := p\<rparr>"

subsection \<open>The public client\<close>

definition v5_State :: "('g, 'e) v5_loop option \<Rightarrow> v5_state" where
  "v5_State c = (case c of None \<Rightarrow> V5Stopped | Some y \<Rightarrow> cl_state y)"

definition v5_IsConnected :: "('g, 'e) v5_loop option \<Rightarrow> bool" where
  "v5_IsConnected c \<longleftrightarrow> v5_State c = V5Connected"

definition v5_Stop :: "('g, 'e) v5_loop \<Rightarrow> ('g, 'e) v5_loop" where
  "v5_Stop y = y\<lparr>cl_cancelled := True\<rparr>"

definition publishPublic :: "('g, 'e) v5_mux_event \<Rightarrow> ('g, 'e) v5_loop \<Rightarrow> ('g, 'e) v5_loop \<times> 'e v5_error option" where
  "publishPublic event y =
     (if \<not> cl_started y then (y, Some V5ClientStopped)
      else if cl_cancelled y then (y, Some V5ClientStopped)
      else case chan_try_send (cl_eventCh y) event of
             (ch, True) \<Rightarrow> (y\<lparr>cl_eventCh := ch\<rparr>, None)
           | (_, False) \<Rightarrow> (y, Some V5QueueFull))"

text \<open>A public request gets the next handle, which is resolved at once when the request cannot be
  queued.\<close>

definition submit :: "(nat \<Rightarrow> ('g, 'e) v5_mux_event) \<Rightarrow> ('g, 'e) v5_loop \<Rightarrow> ('g, 'e) v5_loop" where
  "submit event y =
     (let sub = cl_next y
      in case publishPublic (event sub) (y\<lparr>cl_next := Suc sub\<rparr>) of
           (y', None) \<Rightarrow> y'
         | (y', Some err) \<Rightarrow> v5_resolve sub (Some err) y')"

definition v5_Send :: "string \<Rightarrow> (v5_send_options \<Rightarrow> v5_send_options) list \<Rightarrow> ('g, 'e) v5_loop \<Rightarrow> ('g, 'e) v5_loop" where
  "v5_Send payload options =
     submit (SendEvent ([] @ payload) (v5_writeOptions options))"

definition v5_Subscribe :: "string \<Rightarrow> 'g v5_options \<Rightarrow> ('g, 'e) v5_loop \<Rightarrow> ('g, 'e) v5_loop" where
  "v5_Subscribe key options = submit (SubscribeEvent key options)"

definition v5_Unsubscribe :: "string \<Rightarrow> ('g, 'e) v5_loop \<Rightarrow> ('g, 'e) v5_loop" where
  "v5_Unsubscribe key = submit (UnsubscribeEvent key)"

text \<open>The request part of \<open>Subscriptions\<close> with response channel \<open>r\<close>; the answer comes in
  \<open>cl_replies\<close>.\<close>

definition v5_Subscriptions :: "nat \<Rightarrow> ('g, 'e) v5_loop \<Rightarrow> ('g, 'e) v5_loop" where
  "v5_Subscriptions r y =
     (if \<not> cl_started y \<or> cl_cancelled y then y else fst (publishPublic (SnapshotEvent r) y))"

text \<open>The result of \<open>dial\<close>: \<open>ctx\<close> is the error of the dial context when it is cancelled or
  past its deadline.\<close>

definition v5_dial :: "'e option \<Rightarrow> 'e option \<Rightarrow> 'e v5_error option" where
  "v5_dial ctx err =
     (case err of
        None \<Rightarrow> None
      | Some e \<Rightarrow> Some (case ctx of
            Some c \<Rightarrow> V5Foreign c
          | None \<Rightarrow> V5Operation ''dial connection'' (Some (V5Foreign e))))"

subsection \<open>Handlers of the loop\<close>

definition canRouteWrites :: "('g, 'e) v5_loop \<Rightarrow> bool" where
  "canRouteWrites y \<longleftrightarrow> cl_state y = V5Connected \<and> lp_routingOpen y \<and> lp_live y \<noteq> None"

definition startDial :: "int \<Rightarrow> ('g, 'e) v5_loop \<Rightarrow> ('g, 'e) v5_loop" where
  "startDial attempt y =
     (if lp_dialing y \<or> cl_cancelled y then y
      else y\<lparr>lp_dialing := True, lp_dials := lp_dials y @ [attempt]\<rparr>)"

definition scheduleReconnect :: "int \<Rightarrow> ('g, 'e) v5_loop \<Rightarrow> ('g, 'e) v5_loop" where
  "scheduleReconnect attempt y =
     (if lp_waiting y \<or> cl_cancelled y then y
      else v5_emit ((v5_event EvReconnecting)\<lparr>ve_Attempt := attempt\<rparr>)
             (y\<lparr>lp_waiting := True, lp_timers := lp_timers y @ [attempt]\<rparr>))"

definition v5_Run :: "('g, 'e) v5_loop \<Rightarrow> ('g, 'e) v5_loop \<times> 'e v5_error option" where
  "v5_Run y =
     (if cl_started y then (y, Some V5AlreadyRunning)
      else (startDial 0 (v5_phase_to LoopSelect (v5_setState V5Reconnecting (y\<lparr>cl_started := True\<rparr>))), None))"

text \<open>Handing a write to the live writer, or resolving its handle with \<open>ErrQueueFull\<close>.\<close>

definition enqueue_live :: "string \<Rightarrow> int \<Rightarrow> int \<Rightarrow> nat \<Rightarrow> ('g, 'e) v5_loop \<Rightarrow> ('g, 'e) v5_loop" where
  "enqueue_live payload messageType writeTimeout sub y =
     (let i = the (lp_live y)
      in case TryEnqueue payload (v5_resolveMessageType messageType) writeTimeout sub (tp_worker (lp_transports y ! i)) of
           (w, True) \<Rightarrow> set_worker i w y
         | (w, False) \<Rightarrow> v5_resolve sub (Some V5QueueFull) (set_worker i w y))"

definition v5_handleSend :: "string \<Rightarrow> v5_send_options \<Rightarrow> nat \<Rightarrow> ('g, 'e) v5_loop \<Rightarrow> ('g, 'e) v5_loop" where
  "v5_handleSend payload opts sub y =
     (if \<not> canRouteWrites y then v5_resolve sub (Some V5Backoff) (v5_emit (v5_event EvSendDuringBackoff) y)
      else enqueue_live payload (wo_messageType opts) (wo_writeTimeout opts) sub y)"

text \<open>A generated frame for the live session, or the error of the generator.\<close>

definition generate_live ::
    "('g, 'e) v5_gens \<Rightarrow> 'g option \<Rightarrow> 'g v5_options \<Rightarrow> nat \<Rightarrow> ('g, 'e) v5_loop \<Rightarrow> ('g, 'e) v5_loop" where
  "generate_live gens gen opts sub y =
     (let y' = y\<lparr>lp_calls := Suc (lp_calls y)\<rparr>
      in case gens (lp_calls y) (the gen) of
           Inl err \<Rightarrow> v5_resolve sub (Some err) y'
         | Inr payload \<Rightarrow> enqueue_live payload (so_MessageType opts) (so_WriteTimeout opts) sub y')"

definition v5_handleSubscribe ::
    "('g, 'e) v5_gens \<Rightarrow> string \<Rightarrow> 'g v5_options \<Rightarrow> nat \<Rightarrow> ('g, 'e) v5_loop \<Rightarrow> ('g, 'e) v5_loop" where
  "v5_handleSubscribe gens key opts sub y =
     (if so_SubGen opts = None \<or> so_UnsubGen opts = None then v5_resolve sub (Some V5InvalidOptions) y
      else case intent_put key opts (lp_store y) of
             Inl err \<Rightarrow> v5_resolve sub (Some err) y
           | Inr store \<Rightarrow>
               (let y1 = y\<lparr>lp_store := store\<rparr>
                in if \<not> canRouteWrites y1
                   then v5_resolve sub (Some V5Backoff) (v5_emit ((v5_event EvSendDuringBackoff)\<lparr>ve_Key := key\<rparr>) y1)
                   else generate_live gens (so_SubGen opts) opts sub y1))"

definition v5_handleUnsubscribe ::
    "('g, 'e) v5_gens \<Rightarrow> string \<Rightarrow> nat \<Rightarrow> ('g, 'e) v5_loop \<Rightarrow> ('g, 'e) v5_loop" where
  "v5_handleUnsubscribe gens key sub y =
     (case intent_remove key (lp_store y) of
        Inl err \<Rightarrow> v5_resolve sub (Some err) y
      | Inr (intent, store) \<Rightarrow>
          (let y1 = y\<lparr>lp_store := store\<rparr>
           in if \<not> canRouteWrites y1
              then v5_resolve sub (Some V5Backoff) (v5_emit ((v5_event EvSendDuringBackoff)\<lparr>ve_Key := key\<rparr>) y1)
              else generate_live gens (so_UnsubGen (vi_options intent)) (vi_options intent) sub y1))"

text \<open>The end of \<open>enterBackoff\<close> and of a failed activation.\<close>

definition reconnect_later :: "int \<Rightarrow> ('g, 'e) v5_loop \<Rightarrow> ('g, 'e) v5_loop" where
  "reconnect_later attempt y = scheduleReconnect attempt (v5_setState V5Reconnecting (v5_phase_to LoopSelect y))"

definition releaseLiveTransport :: "int \<Rightarrow> ('g, 'e) v5_loop \<Rightarrow> ('g, 'e) v5_loop" where
  "releaseLiveTransport attempt y =
     (let y1 = y\<lparr>lp_routingOpen := False, lp_live := None\<rparr>
      in case lp_live y of
           None \<Rightarrow> reconnect_later attempt y1
         | Some i \<Rightarrow> v5_phase_to (LoopDispose i attempt) (upd_transport i (\<lambda>t. t\<lparr>tp_session := session_Stop (tp_session t)\<rparr>) y1))"

definition dispose_done :: "nat \<Rightarrow> int \<Rightarrow> ('g, 'e) v5_loop \<Rightarrow> ('g, 'e) v5_loop option" where
  "dispose_done i attempt y =
     map_option (\<lambda>w. reconnect_later attempt ((set_worker i w y)\<lparr>lp_retired := lp_retired y @ [i]\<rparr>))
       (worker_Dispose (tp_worker (lp_transports y ! i)))"

definition enterBackoff :: "'e v5_error \<Rightarrow> int \<Rightarrow> ('g, 'e) v5_loop \<Rightarrow> ('g, 'e) v5_loop" where
  "enterBackoff err attempt y =
     releaseLiveTransport attempt (v5_emit ((v5_event EvDisconnected)\<lparr>ve_Err := Some err\<rparr>) y)"

definition activation_failed :: "int \<Rightarrow> 'e v5_error \<Rightarrow> ('g, 'e) v5_loop \<Rightarrow> ('g, 'e) v5_loop" where
  "activation_failed attempt err y = enterBackoff err (nextReconnectAttempt attempt) y"

definition activation_done :: "('g, 'e) v5_loop \<Rightarrow> ('g, 'e) v5_loop" where
  "activation_done y =
     (let y1 = v5_phase_to LoopSelect (v5_setState V5Connected (y\<lparr>lp_routingOpen := True\<rparr>));
          y2 = v5_emit (v5_event (if lp_readyCount y1 = 0 then EvConnected else EvReconnected)) y1
      in y2\<lparr>lp_readyCount := lp_readyCount y2 + 1\<rparr>)"

definition v5_handleDialResult :: "int \<Rightarrow> 'e v5_error option \<Rightarrow> ('g, 'e) v5_loop \<Rightarrow> ('g, 'e) v5_loop" where
  "v5_handleDialResult attempt err y =
     (let y1 = y\<lparr>lp_dialing := False\<rparr>
      in if cl_cancelled y1 then y1
         else if err \<noteq> None then scheduleReconnect (nextReconnectAttempt attempt) y1
         else case newTransport (vc_WriteTimeout (cl_config y)) (vc_PingInterval (cl_config y)) (vc_WriteQueueSize (cl_config y)) of
                Inl _ \<Rightarrow> scheduleReconnect (nextReconnectAttempt attempt) y1
              | Inr t \<Rightarrow> v5_phase_to (LoopReplay attempt (intent_snapshot (lp_store y1)))
                  (y1\<lparr>lp_transports := lp_transports y1 @ [t], lp_live := Some (length (lp_transports y1)), lp_routingOpen := False\<rparr>))"

text \<open>\<open>activate\<close>: the next intent is replayed through \<open>SendSync\<close>; after the last one \<open>OnReady\<close>
  runs, when it is set. \<open>None\<close> is a send that waits.\<close>

definition send_sync :: "string \<Rightarrow> int \<Rightarrow> int \<Rightarrow> ('g, 'e) v5_loop \<Rightarrow> ('g, 'e) v5_loop option" where
  "send_sync payload messageType writeTimeout y =
     (let i = the (lp_live y)
      in map_option (\<lambda>w. set_worker i w y)
           (SendSync_enqueue payload (v5_resolveMessageType messageType) writeTimeout (tp_worker (lp_transports y ! i))))"

text \<open>\<open>Send\<close> of the replayer; the live transport is there while it is used.\<close>

definition replayer_Send ::
    "string \<Rightarrow> (v5_send_options \<Rightarrow> v5_send_options) list \<Rightarrow> ('g, 'e) v5_loop \<Rightarrow> ('g, 'e) v5_loop option" where
  "replayer_Send payload options y =
     send_sync payload (wo_messageType (v5_writeOptions options)) (wo_writeTimeout (v5_writeOptions options)) y"

lemma replayer_Send_two [simp]:
  "replayer_Send payload [v5_WithMessageType messageType, v5_WithWriteTimeout timeout] y = send_sync payload messageType timeout y"
  by (simp add: replayer_Send_def v5_writeOptions_def v5_WithMessageType_def v5_WithWriteTimeout_def)

definition activate_next ::
    "('g, 'e) v5_gens \<Rightarrow> int \<Rightarrow> 'g v5_intent list \<Rightarrow> ('g, 'e) v5_loop \<Rightarrow> ('g, 'e) v5_loop option" where
  "activate_next gens attempt intents y =
     (case intents of
        [] \<Rightarrow> Some (if vc_OnReady (cl_config y) then v5_phase_to (LoopReady attempt) y else activation_done y)
      | i # rest \<Rightarrow>
          (let opts = vi_options i; y1 = y\<lparr>lp_calls := Suc (lp_calls y)\<rparr>
           in case gens (lp_calls y) (the (so_SubGen opts)) of
                Inl err \<Rightarrow> Some (activation_failed attempt err y1)
              | Inr payload \<Rightarrow> map_option (v5_phase_to (LoopReplayWait attempt rest))
                  (replayer_Send payload [v5_WithMessageType (v5_resolveMessageType (so_MessageType opts)),
                     v5_WithWriteTimeout (so_WriteTimeout opts)] y1)))"

definition ready_send ::
    "int \<Rightarrow> string \<Rightarrow> (v5_send_options \<Rightarrow> v5_send_options) list \<Rightarrow> ('g, 'e) v5_loop \<Rightarrow> ('g, 'e) v5_loop option" where
  "ready_send attempt payload options y =
     map_option (v5_phase_to (LoopReadyWait attempt)) (replayer_Send payload options y)"

definition ready_return :: "int \<Rightarrow> 'e v5_error option \<Rightarrow> ('g, 'e) v5_loop \<Rightarrow> ('g, 'e) v5_loop" where
  "ready_return attempt err y = (case err of Some e \<Rightarrow> activation_failed attempt e y | None \<Rightarrow> activation_done y)"

text \<open>The result of \<open>SendSync\<close> reaches the loop.\<close>

definition sync_returns :: "('g, 'e) v5_loop \<Rightarrow> ('g, 'e) v5_loop option" where
  "sync_returns y =
     (case (lp_sync y, lp_phase y) of
        (Some (Some err), LoopReplayWait attempt _) \<Rightarrow> Some (activation_failed attempt err (y\<lparr>lp_sync := None\<rparr>))
      | (Some None, LoopReplayWait attempt rest) \<Rightarrow> Some (v5_phase_to (LoopReplay attempt rest) (y\<lparr>lp_sync := None\<rparr>))
      | (Some _, LoopReadyWait attempt) \<Rightarrow> Some (v5_phase_to (LoopReady attempt) (y\<lparr>lp_sync := None\<rparr>))
      | _ \<Rightarrow> None)"

text \<open>The second component is the error that ends the loop.\<close>

definition v5_handleSessionRead ::
    "('e \<Rightarrow> 'e v5_error \<Rightarrow> bool) \<Rightarrow> nat \<Rightarrow> 'e v5_error option \<Rightarrow> 'e v5_error option \<Rightarrow> ('g, 'e) v5_loop \<Rightarrow>
     ('g, 'e) v5_loop \<times> 'e v5_error option" where
  "v5_handleSessionRead wraps i readErr handlerErr y =
     (if lp_live y \<noteq> Some i then (y, None)
      else case handlerErr of
             Some e \<Rightarrow>
               (let y1 = v5_emit ((v5_event EvHandlerError)\<lparr>ve_Err := Some e\<rparr>) y
                in if v5_Is wraps e V5HandlerContinue then (y1, None)
                   else if v5_Is wraps e V5HandlerBackoff then (enterBackoff e 1 y1, None)
                   else (y1, Some e))
           | None \<Rightarrow> (case readErr of Some e \<Rightarrow> (enterBackoff e 1 y, None) | None \<Rightarrow> (y, None)))"

definition v5_handleWorkerFailure :: "nat \<Rightarrow> 'e v5_error \<Rightarrow> ('g, 'e) v5_loop \<Rightarrow> ('g, 'e) v5_loop" where
  "v5_handleWorkerFailure i err y =
     (if lp_live y \<noteq> Some i then y
      else if \<not> lp_routingOpen y then y
      else v5_emit ((v5_event EvTransportWriteFailed)\<lparr>ve_Err := Some err\<rparr>) (y\<lparr>lp_routingOpen := False\<rparr>))"

fun v5_handleEvent ::
    "('e \<Rightarrow> 'e v5_error \<Rightarrow> bool) \<Rightarrow> ('g, 'e) v5_gens \<Rightarrow> ('g, 'e) v5_mux_event \<Rightarrow> ('g, 'e) v5_loop \<Rightarrow>
     ('g, 'e) v5_loop \<times> 'e v5_error option" where
  "v5_handleEvent wraps gens (SendEvent payload opts sub) y = (v5_handleSend payload opts sub y, None)"
| "v5_handleEvent wraps gens (SubscribeEvent key opts sub) y = (v5_handleSubscribe gens key opts sub y, None)"
| "v5_handleEvent wraps gens (UnsubscribeEvent key sub) y = (v5_handleUnsubscribe gens key sub y, None)"
| "v5_handleEvent wraps gens (SnapshotEvent r) y = (y\<lparr>cl_replies := cl_replies y @ [(r, intent_keys (lp_store y))]\<rparr>, None)"
| "v5_handleEvent wraps gens (DialResultEvent attempt err) y = (v5_handleDialResult attempt err y, None)"
| "v5_handleEvent wraps gens (ReconnectTickEvent attempt) y = (startDial attempt (y\<lparr>lp_waiting := False\<rparr>), None)"
| "v5_handleEvent wraps gens (SessionReadEvent i readErr handlerErr) y = v5_handleSessionRead wraps i readErr handlerErr y"
| "v5_handleEvent wraps gens (WorkerFailureEvent i err) y = (v5_handleWorkerFailure i err y, None)"

text \<open>\<open>shutdown\<close> up to its first wait, after the live transport is disposed, and after the joins.\<close>

definition v5_shutdown :: "'e v5_error option \<Rightarrow> ('g, 'e) v5_loop \<Rightarrow> ('g, 'e) v5_loop" where
  "v5_shutdown runErr y =
     (let y1 = y\<lparr>cl_cancelled := True, lp_routingOpen := False, lp_live := None\<rparr>
      in case lp_live y of
           None \<Rightarrow> v5_phase_to (LoopJoin (lp_retired y1) runErr) y1
         | Some i \<Rightarrow> v5_phase_to (LoopStop i runErr) (upd_transport i (\<lambda>t. t\<lparr>tp_session := session_Stop (tp_session t)\<rparr>) y1))"

definition shutdown_disposed :: "nat \<Rightarrow> 'e v5_error option \<Rightarrow> ('g, 'e) v5_loop \<Rightarrow> ('g, 'e) v5_loop option" where
  "shutdown_disposed i runErr y =
     map_option (\<lambda>w. v5_phase_to (LoopJoin (lp_retired y @ [i]) runErr) (set_worker i w y))
       (worker_Dispose (tp_worker (lp_transports y ! i)))"

definition transport_exited :: "'e v5_transport \<Rightarrow> bool" where
  "transport_exited t \<longleftrightarrow> vw_done (tp_worker t) \<and> vn_read (tp_session t) = ReadDone"

definition shutdown_joined :: "nat list \<Rightarrow> 'e v5_error option \<Rightarrow> ('g, 'e) v5_loop \<Rightarrow> ('g, 'e) v5_loop option" where
  "shutdown_joined ids runErr y =
     (if list_all (\<lambda>i. transport_exited (lp_transports y ! i)) ids
      then Some ((v5_phase_to (LoopDone runErr) (v5_emit ((v5_event EvStopped)\<lparr>ve_Err := runErr\<rparr>)
             (v5_setState V5Stopped y)))\<lparr>cl_done := True\<rparr>)
      else None)"

text \<open>One event of \<open>Run\<close>'s select.\<close>

definition v5_event_turn ::
    "('e \<Rightarrow> 'e v5_error \<Rightarrow> bool) \<Rightarrow> ('g, 'e) v5_gens \<Rightarrow> ('g, 'e) v5_mux_event \<Rightarrow> ('g, 'e) v5_loop \<Rightarrow> ('g, 'e) v5_loop" where
  "v5_event_turn wraps gens event y =
     (case v5_handleEvent wraps gens event y of
        (y', None) \<Rightarrow> y'
      | (y', Some stepErr) \<Rightarrow> v5_shutdown (Some stepErr) y')"

end
