(* ===== verification/V5_System.thy ===== *)
theory V5_System
  imports V5_Client
begin

text \<open>
  The client of \<open>internal/core/pkg/wsrefact_v5\<close> at work: callers, the loop, one dial and one timer
  goroutine at a time, and for every transport its writer and its read loop. A choice names who
  moves next and what the outside answers; \<open>v5_step\<close> carries it out when that goroutine can move.
\<close>

section \<open>Steps\<close>

datatype ('g, 'e) v5_choice =
    CallSend string "(v5_send_options \<Rightarrow> v5_send_options) list"
  | CallSubscribe string "'g v5_options" | CallUnsubscribe string | CallSubscriptions nat
  | CallStop | CallRun
  | LoopEvent | LoopCancelled | LoopNext | LoopSync | LoopDisposed | LoopStopped | LoopJoined
  | ReadySend string "(v5_send_options \<Rightarrow> v5_send_options) list" | ReadyReturn "'e v5_error option"
  | DialDone int "'e option" "'e option" | DialDropped int | TimerDone int | TimerDropped int
  | WriterTurn nat "'e option" | WriterPing nat "'e option" | WriterPublish nat | WriterDrop nat
  | ReaderTurn nat "'e + 'e v5_error option" | ReaderPublish nat | ReaderDrop nat

text \<open>\<open>publishInternal\<close>, \<open>publishFailure\<close> and \<open>publishReadEvent\<close> wait for room; after the
  cancellation they may give up instead.\<close>

definition publishInternal :: "('g, 'e) v5_mux_event \<Rightarrow> ('g, 'e) v5_loop \<Rightarrow> ('g, 'e) v5_loop option" where
  "publishInternal event y = map_option (\<lambda>ch. y\<lparr>cl_eventCh := ch\<rparr>) (chan_send (cl_eventCh y) event)"

definition worker_idle :: "'e v5_transport \<Rightarrow> bool" where
  "worker_idle t \<longleftrightarrow> vw_started (tp_worker t) \<and> \<not> vw_done (tp_worker t) \<and> vw_failing (tp_worker t) = None"

definition set_failing :: "nat \<Rightarrow> 'e v5_error option \<Rightarrow> ('g, 'e) v5_loop \<Rightarrow> ('g, 'e) v5_loop" where
  "set_failing i f = upd_transport i (\<lambda>t. t\<lparr>tp_worker := (tp_worker t)\<lparr>vw_failing := f\<rparr>\<rparr>)"

text \<open>One event of the writer loop: the results go to the handle and to the waiting \<open>SendSync\<close>.\<close>

definition worker_turn5 :: "nat \<Rightarrow> 'e option \<Rightarrow> ('g, 'e) v5_loop \<Rightarrow> ('g, 'e) v5_loop option" where
  "worker_turn5 i answer y =
     (let t = lp_transports y ! i
      in if \<not> worker_idle t then None
         else case chan_recv (vw_eventCh (tp_worker t)) of
                None \<Rightarrow> None
              | Some (event, ch) \<Rightarrow>
                  (let t1 = t\<lparr>tp_worker := (tp_worker t)\<lparr>vw_eventCh := ch\<rparr>\<rparr>
                   in case event of
                        WorkerDispose \<Rightarrow> Some (upd_transport i (\<lambda>_. t1\<lparr>tp_worker := (tp_worker t1)\<lparr>vw_done := True\<rparr>\<rparr>) y)
                      | WorkerWrite q \<Rightarrow>
                          (case worker_handleRequest answer q t1 of
                             (t2, r) \<Rightarrow>
                               (let y1 = upd_transport i (\<lambda>_. t2) y;
                                    y2 = (case vq_subscription q of None \<Rightarrow> y1 | Some sub \<Rightarrow> v5_resolve sub r y1)
                                in Some (if vq_sync q then y2\<lparr>lp_sync := Some r\<rparr> else y2)))))"

fun v5_step ::
    "('e \<Rightarrow> 'e v5_error \<Rightarrow> bool) \<Rightarrow> ('g, 'e) v5_gens \<Rightarrow> ('g, 'e) v5_choice \<Rightarrow> ('g, 'e) v5_loop \<Rightarrow> ('g, 'e) v5_loop option" where
  "v5_step wraps gens (CallSend payload opts) y = Some (v5_Send payload opts y)"
| "v5_step wraps gens (CallSubscribe key opts) y = Some (v5_Subscribe key opts y)"
| "v5_step wraps gens (CallUnsubscribe key) y = Some (v5_Unsubscribe key y)"
| "v5_step wraps gens (CallSubscriptions r) y = Some (v5_Subscriptions r y)"
| "v5_step wraps gens CallStop y = Some (v5_Stop y)"
| "v5_step wraps gens CallRun y = Some (fst (v5_Run y))"
| "v5_step wraps gens LoopEvent y =
     (case lp_phase y of
        LoopSelect \<Rightarrow> (case chan_recv (cl_eventCh y) of
            None \<Rightarrow> None
          | Some (event, ch) \<Rightarrow> Some (v5_event_turn wraps gens event (y\<lparr>cl_eventCh := ch\<rparr>)))
      | _ \<Rightarrow> None)"
| "v5_step wraps gens LoopCancelled y =
     (case lp_phase y of LoopSelect \<Rightarrow> if cl_cancelled y then Some (v5_shutdown None y) else None | _ \<Rightarrow> None)"
| "v5_step wraps gens LoopNext y =
     (case lp_phase y of LoopReplay attempt intents \<Rightarrow> activate_next gens attempt intents y | _ \<Rightarrow> None)"
| "v5_step wraps gens LoopSync y = sync_returns y"
| "v5_step wraps gens LoopDisposed y =
     (case lp_phase y of LoopDispose i attempt \<Rightarrow> dispose_done i attempt y | _ \<Rightarrow> None)"
| "v5_step wraps gens LoopStopped y =
     (case lp_phase y of LoopStop i runErr \<Rightarrow> shutdown_disposed i runErr y | _ \<Rightarrow> None)"
| "v5_step wraps gens LoopJoined y =
     (case lp_phase y of LoopJoin ids runErr \<Rightarrow> shutdown_joined ids runErr y | _ \<Rightarrow> None)"
| "v5_step wraps gens (ReadySend payload opts) y =
     (case lp_phase y of LoopReady attempt \<Rightarrow> ready_send attempt payload opts y | _ \<Rightarrow> None)"
| "v5_step wraps gens (ReadyReturn err) y =
     (case lp_phase y of LoopReady attempt \<Rightarrow> Some (ready_return attempt err y) | _ \<Rightarrow> None)"
| "v5_step wraps gens (DialDone attempt ctx err) y =
     (if attempt \<in> set (lp_dials y)
      then publishInternal (DialResultEvent attempt (v5_dial ctx err)) (y\<lparr>lp_dials := remove1 attempt (lp_dials y)\<rparr>)
      else None)"
| "v5_step wraps gens (DialDropped attempt) y =
     (if attempt \<in> set (lp_dials y) \<and> cl_cancelled y then Some (y\<lparr>lp_dials := remove1 attempt (lp_dials y)\<rparr>) else None)"
| "v5_step wraps gens (TimerDone attempt) y =
     (if attempt \<in> set (lp_timers y)
      then publishInternal (ReconnectTickEvent attempt) (y\<lparr>lp_timers := remove1 attempt (lp_timers y)\<rparr>)
      else None)"
| "v5_step wraps gens (TimerDropped attempt) y =
     (if attempt \<in> set (lp_timers y) \<and> cl_cancelled y then Some (y\<lparr>lp_timers := remove1 attempt (lp_timers y)\<rparr>) else None)"
| "v5_step wraps gens (WriterTurn i answer) y =
     (if i < length (lp_transports y) then worker_turn5 i answer y else None)"
| "v5_step wraps gens (WriterPing i answer) y =
     (if i < length (lp_transports y) \<and> worker_idle (lp_transports y ! i) \<and> 0 < vw_pingInterval (tp_worker (lp_transports y ! i))
      then Some (upd_transport i (worker_handlePing answer) y) else None)"
| "v5_step wraps gens (WriterPublish i) y =
     (if \<not> i < length (lp_transports y) then None
      else case vw_failing (tp_worker (lp_transports y ! i)) of
             None \<Rightarrow> None
           | Some err \<Rightarrow> publishInternal (WorkerFailureEvent i err) (set_failing i None y))"
| "v5_step wraps gens (WriterDrop i) y =
     (if i < length (lp_transports y) \<and> cl_cancelled y then Some (set_failing i None y) else None)"
| "v5_step wraps gens (ReaderTurn i answer) y =
     (if i < length (lp_transports y) \<and> vn_read (tp_session (lp_transports y ! i)) = ReadLoop
      then Some (upd_transport i (\<lambda>t. t\<lparr>tp_session := runReadLoop_turn wraps answer (tp_session t)\<rparr>) y) else None)"
| "v5_step wraps gens (ReaderPublish i) y =
     (if \<not> i < length (lp_transports y) then None
      else case vn_read (tp_session (lp_transports y ! i)) of
             ReadPublish readErr handlerErr continues \<Rightarrow>
               publishInternal (SessionReadEvent i readErr handlerErr)
                 (upd_transport i (\<lambda>t. t\<lparr>tp_session := read_published continues (tp_session t)\<rparr>) y)
           | _ \<Rightarrow> None)"
| "v5_step wraps gens (ReaderDrop i) y =
     (if \<not> i < length (lp_transports y) \<or> \<not> cl_cancelled y then None
      else case vn_read (tp_session (lp_transports y ! i)) of
             ReadPublish readErr handlerErr continues \<Rightarrow>
               Some (upd_transport i (\<lambda>t. t\<lparr>tp_session := read_published continues (tp_session t)\<rparr>) y)
           | _ \<Rightarrow> None)"

inductive v5_moves ::
    "('e \<Rightarrow> 'e v5_error \<Rightarrow> bool) \<Rightarrow> ('g, 'e) v5_gens \<Rightarrow> ('g, 'e) v5_loop \<Rightarrow> ('g, 'e) v5_loop \<Rightarrow> bool" for wraps gens where
  v5_moves: "v5_step wraps gens c y = Some y' \<Longrightarrow> v5_moves wraps gens y y'"

inductive_cases v5_movesE: "v5_moves wraps gens y y'"

section \<open>One connection at a time\<close>

definition dial_events :: "('g, 'e) v5_loop \<Rightarrow> nat" where
  "dial_events y = length (filter (\<lambda>e. case e of DialResultEvent _ _ \<Rightarrow> True | _ \<Rightarrow> False) (chan_buf (cl_eventCh y)))"

definition tick_events :: "('g, 'e) v5_loop \<Rightarrow> nat" where
  "tick_events y = length (filter (\<lambda>e. case e of ReconnectTickEvent _ \<Rightarrow> True | _ \<Rightarrow> False) (chan_buf (cl_eventCh y)))"

text \<open>At most one of a live connection, a dial and a reconnect timer; \<open>some_conn\<close>: one of them.\<close>

definition one_conn :: "('g, 'e) v5_loop \<Rightarrow> bool" where
  "one_conn y \<longleftrightarrow> (lp_live y \<noteq> None \<longrightarrow> \<not> lp_dialing y \<and> \<not> lp_waiting y) \<and> \<not> (lp_dialing y \<and> lp_waiting y)"

definition some_conn :: "('g, 'e) v5_loop \<Rightarrow> bool" where
  "some_conn y \<longleftrightarrow> lp_live y \<noteq> None \<or> lp_dialing y \<or> lp_waiting y"

fun phase_ok :: "('g, 'e) v5_phase \<Rightarrow> ('g, 'e) v5_loop \<Rightarrow> bool" where
  "phase_ok LoopNotRunning y \<longleftrightarrow> \<not> cl_started y \<and> \<not> some_conn y \<and> cl_state y = V5Stopped"
| "phase_ok LoopSelect y \<longleftrightarrow> cl_started y \<and> (\<not> cl_cancelled y \<longrightarrow> some_conn y) \<and>
     cl_state y = (if lp_live y = None then V5Reconnecting else V5Connected)"
| "phase_ok (LoopDispose i _) y \<longleftrightarrow> cl_started y \<and> \<not> some_conn y \<and> i < length (lp_transports y) \<and> cl_state y \<noteq> V5Stopped"
| "phase_ok (LoopStop i _) y \<longleftrightarrow> cl_started y \<and> cl_cancelled y \<and> lp_live y = None \<and> i < length (lp_transports y)"
| "phase_ok (LoopJoin _ _) y \<longleftrightarrow> cl_started y \<and> cl_cancelled y \<and> lp_live y = None"
| "phase_ok (LoopDone _) y \<longleftrightarrow> cl_started y \<and> cl_cancelled y \<and> lp_live y = None \<and> cl_state y = V5Stopped"
| "phase_ok _ y \<longleftrightarrow> cl_started y \<and> lp_live y \<noteq> None \<and> cl_state y = V5Reconnecting"

text \<open>A flag, the goroutines it stands for, and their events on the way.\<close>

definition in_flight :: "bool \<Rightarrow> int list \<Rightarrow> nat \<Rightarrow> bool \<Rightarrow> bool" where
  "in_flight flag gos events cancelled \<longleftrightarrow>
     (if flag then length gos + events \<le> 1 \<and> (\<not> cancelled \<longrightarrow> length gos + events = 1) else gos = [] \<and> events = 0)"

definition v5_conn_ok :: "('g, 'e) v5_loop \<Rightarrow> bool" where
  "v5_conn_ok y \<longleftrightarrow> phase_ok (lp_phase y) y \<and> one_conn y \<and>
     in_flight (lp_dialing y) (lp_dials y) (dial_events y) (cl_cancelled y) \<and>
     in_flight (lp_waiting y) (lp_timers y) (tick_events y) (cl_cancelled y) \<and>
     (\<forall>i. lp_live y = Some i \<longrightarrow> i < length (lp_transports y)) \<and>
     (lp_routingOpen y \<longrightarrow> lp_phase y = LoopSelect \<and> lp_live y \<noteq> None)"

lemma events_upd [simp]:
  "dial_events (y\<lparr>cl_cancelled := b\<rparr>) = dial_events y" "tick_events (y\<lparr>cl_cancelled := b\<rparr>) = tick_events y"
  "dial_events (y\<lparr>cl_state := st\<rparr>) = dial_events y" "tick_events (y\<lparr>cl_state := st\<rparr>) = tick_events y"
  "dial_events (y\<lparr>cl_started := b\<rparr>) = dial_events y" "tick_events (y\<lparr>cl_started := b\<rparr>) = tick_events y"
  "dial_events (y\<lparr>cl_done := b\<rparr>) = dial_events y" "tick_events (y\<lparr>cl_done := b\<rparr>) = tick_events y"
  "dial_events (y\<lparr>cl_events := es\<rparr>) = dial_events y" "tick_events (y\<lparr>cl_events := es\<rparr>) = tick_events y"
  "dial_events (y\<lparr>lp_live := l\<rparr>) = dial_events y" "tick_events (y\<lparr>lp_live := l\<rparr>) = tick_events y"
  "dial_events (y\<lparr>lp_routingOpen := b\<rparr>) = dial_events y" "tick_events (y\<lparr>lp_routingOpen := b\<rparr>) = tick_events y"
  "dial_events (y\<lparr>lp_dialing := b\<rparr>) = dial_events y" "tick_events (y\<lparr>lp_dialing := b\<rparr>) = tick_events y"
  "dial_events (y\<lparr>lp_waiting := b\<rparr>) = dial_events y" "tick_events (y\<lparr>lp_waiting := b\<rparr>) = tick_events y"
  "dial_events (y\<lparr>lp_dials := as\<rparr>) = dial_events y" "tick_events (y\<lparr>lp_dials := as\<rparr>) = tick_events y"
  "dial_events (y\<lparr>lp_timers := as\<rparr>) = dial_events y" "tick_events (y\<lparr>lp_timers := as\<rparr>) = tick_events y"
  "dial_events (y\<lparr>lp_phase := p\<rparr>) = dial_events y" "tick_events (y\<lparr>lp_phase := p\<rparr>) = tick_events y"
  "dial_events (y\<lparr>lp_transports := ts\<rparr>) = dial_events y" "tick_events (y\<lparr>lp_transports := ts\<rparr>) = tick_events y"
  "dial_events (y\<lparr>lp_readyCount := n\<rparr>) = dial_events y" "tick_events (y\<lparr>lp_readyCount := n\<rparr>) = tick_events y"
  "dial_events (y\<lparr>lp_retired := ids\<rparr>) = dial_events y" "tick_events (y\<lparr>lp_retired := ids\<rparr>) = tick_events y"
  by (simp_all add: dial_events_def tick_events_def)

lemma events_recv:
  "chan_recv (cl_eventCh y) = Some (DialResultEvent a err, ch) \<Longrightarrow>
     dial_events y = Suc (dial_events (y\<lparr>cl_eventCh := ch\<rparr>)) \<and> tick_events (y\<lparr>cl_eventCh := ch\<rparr>) = tick_events y"
  "chan_recv (cl_eventCh y) = Some (ReconnectTickEvent a, ch) \<Longrightarrow>
     tick_events y = Suc (tick_events (y\<lparr>cl_eventCh := ch\<rparr>)) \<and> dial_events (y\<lparr>cl_eventCh := ch\<rparr>) = dial_events y"
  by (auto simp: dial_events_def tick_events_def chan_recv_def split: list.splits)

lemma events_send:
  "chan_send (cl_eventCh y) (DialResultEvent a err) = Some ch \<Longrightarrow>
     dial_events (y\<lparr>cl_eventCh := ch\<rparr>) = Suc (dial_events y) \<and> tick_events (y\<lparr>cl_eventCh := ch\<rparr>) = tick_events y"
  "chan_send (cl_eventCh y) (ReconnectTickEvent a) = Some ch \<Longrightarrow>
     tick_events (y\<lparr>cl_eventCh := ch\<rparr>) = Suc (tick_events y) \<and> dial_events (y\<lparr>cl_eventCh := ch\<rparr>) = dial_events y"
  by (auto simp: dial_events_def tick_events_def chan_send_def split: if_splits)

lemmas conn_defs = v5_conn_ok_def one_conn_def some_conn_def in_flight_def
lemmas base_defs = v5_emit_def v5_resolve_def v5_setState_def upd_transport_def set_worker_def v5_phase_to_def Let_def
lemmas reconnect_defs = startDial_def scheduleReconnect_def reconnect_later_def

text \<open>The invariant depends on these parts of the state only; most operations leave them alone.\<close>

definition v5_ctl where
  "v5_ctl y = ((lp_live y, lp_dialing y, lp_waiting y, lp_dials y, lp_timers y, lp_phase y),
     (cl_cancelled y, cl_started y, cl_state y, lp_routingOpen y, dial_events y, tick_events y, length (lp_transports y)))"

lemma conn_ok_ctl: "v5_ctl y' = v5_ctl y \<Longrightarrow> v5_conn_ok y' = v5_conn_ok y"
  by (cases "lp_phase y") (simp_all add: v5_ctl_def conn_defs)

lemma ctl_base [simp]:
  "v5_ctl (v5_emit e y) = v5_ctl y" "v5_ctl (v5_resolve sub r y) = v5_ctl y"
  "v5_ctl (upd_transport i f y) = v5_ctl y" "v5_ctl (set_worker i w y) = v5_ctl y" "v5_ctl (set_failing i fl y) = v5_ctl y"
  "v5_ctl (y\<lparr>cl_next := n\<rparr>) = v5_ctl y" "v5_ctl (y\<lparr>lp_store := s\<rparr>) = v5_ctl y" "v5_ctl (y\<lparr>lp_calls := m\<rparr>) = v5_ctl y"
  "v5_ctl (y\<lparr>cl_replies := rs\<rparr>) = v5_ctl y" "v5_ctl (y\<lparr>lp_sync := sy\<rparr>) = v5_ctl y" "v5_ctl (y\<lparr>lp_readyCount := rc\<rparr>) = v5_ctl y"
  "v5_ctl (y\<lparr>lp_retired := ids\<rparr>) = v5_ctl y"
  by (simp_all add: v5_ctl_def dial_events_def tick_events_def v5_emit_def v5_resolve_def set_worker_def set_failing_def upd_transport_def)

lemma ctl_write [simp]:
  "v5_ctl (enqueue_live payload mt wt sub y) = v5_ctl y"
  "v5_ctl (generate_live gens gen opts sub y) = v5_ctl y"
  "v5_ctl (v5_handleSend payload sopts sub y) = v5_ctl y"
  "v5_ctl (v5_handleSubscribe gens key opts sub y) = v5_ctl y"
  "v5_ctl (v5_handleUnsubscribe gens key sub y) = v5_ctl y"
  by (simp_all add: enqueue_live_def generate_live_def v5_handleSend_def v5_handleSubscribe_def v5_handleUnsubscribe_def
      Let_def split: prod.split bool.split sum.split)

definition plain_event :: "('g, 'e) v5_mux_event \<Rightarrow> bool" where
  "plain_event e \<longleftrightarrow> (case e of DialResultEvent _ _ \<Rightarrow> False | ReconnectTickEvent _ \<Rightarrow> False | _ \<Rightarrow> True)"

lemma plain_event_simps [simp]:
  "plain_event (SendEvent p so sub)" "plain_event (SubscribeEvent k opts sub)" "plain_event (UnsubscribeEvent k sub)"
  "plain_event (SnapshotEvent r)" "plain_event (SessionReadEvent i re he)" "plain_event (WorkerFailureEvent i err)"
  "\<not> plain_event (DialResultEvent a de)" "\<not> plain_event (ReconnectTickEvent a)"
  by (simp_all add: plain_event_def)

lemma ctl_send: "plain_event e \<Longrightarrow> chan_send (cl_eventCh y) e = Some ch \<Longrightarrow> v5_ctl (y\<lparr>cl_eventCh := ch\<rparr>) = v5_ctl y"
  by (cases e) (auto simp: v5_ctl_def dial_events_def tick_events_def chan_send_def split: if_splits)

lemma ctl_recv: "plain_event e \<Longrightarrow> chan_recv (cl_eventCh y) = Some (e, ch) \<Longrightarrow> v5_ctl (y\<lparr>cl_eventCh := ch\<rparr>) = v5_ctl y"
  by (cases e) (auto simp: v5_ctl_def dial_events_def tick_events_def chan_recv_def split: list.splits)

lemma ctl_publishPublic: "plain_event e \<Longrightarrow> v5_ctl (fst (publishPublic e y)) = v5_ctl y"
  by (auto simp: publishPublic_def chan_try_send_def ctl_send split: option.split)

lemma ctl_submit: "(\<And>sub. plain_event (ev sub)) \<Longrightarrow> v5_ctl (submit ev y) = v5_ctl y"
  using ctl_publishPublic [of "ev (cl_next y)" "y\<lparr>cl_next := Suc (cl_next y)\<rparr>"]
  by (auto simp: submit_def Let_def split: prod.split option.split)

lemma ctl_calls [simp]:
  "v5_ctl (v5_Send payload opts y) = v5_ctl y" "v5_ctl (v5_Subscribe key sopts y) = v5_ctl y"
  "v5_ctl (v5_Unsubscribe key y) = v5_ctl y" "v5_ctl (v5_Subscriptions r y) = v5_ctl y"
  by (simp_all add: v5_Send_def v5_Subscribe_def v5_Unsubscribe_def v5_Subscriptions_def ctl_submit ctl_publishPublic)

lemma ctl_publishInternal: "plain_event e \<Longrightarrow> publishInternal e y = Some y' \<Longrightarrow> v5_ctl y' = v5_ctl y"
  by (auto simp: publishInternal_def ctl_send)

lemma ctl_worker_turn: "worker_turn5 i answer y = Some y' \<Longrightarrow> v5_ctl y' = v5_ctl y"
  by (auto simp: worker_turn5_def Let_def split: if_splits option.splits v5_worker_event.splits prod.splits)

lemma ctl_send_sync: "send_sync payload mt wt y = Some y' \<Longrightarrow> v5_ctl y' = v5_ctl y"
  by (auto simp: send_sync_def Let_def)

text \<open>The choices that only matter to callers, writers and readers.\<close>

definition outer_choice :: "('g, 'e) v5_choice \<Rightarrow> bool" where
  "outer_choice c \<longleftrightarrow> (case c of
     CallSend _ _ \<Rightarrow> True | CallSubscribe _ _ \<Rightarrow> True | CallUnsubscribe _ \<Rightarrow> True | CallSubscriptions _ \<Rightarrow> True
   | WriterTurn _ _ \<Rightarrow> True | WriterPing _ _ \<Rightarrow> True | WriterPublish _ \<Rightarrow> True | WriterDrop _ \<Rightarrow> True
   | ReaderTurn _ _ \<Rightarrow> True | ReaderPublish _ \<Rightarrow> True | ReaderDrop _ \<Rightarrow> True | _ \<Rightarrow> False)"

lemma ctl_outer: "outer_choice c \<Longrightarrow> v5_step wraps gens c y = Some y' \<Longrightarrow> v5_ctl y' = v5_ctl y"
  by (cases c) (auto simp: outer_choice_def dest: ctl_worker_turn ctl_publishInternal [rotated]
      split: if_splits option.splits v5_read.splits)


subsection \<open>The loop keeps it\<close>

lemma conn_ok_live: "v5_conn_ok y \<Longrightarrow> lp_live y = Some i \<Longrightarrow>
    \<not> lp_dialing y \<and> \<not> lp_waiting y \<and> lp_dials y = [] \<and> lp_timers y = [] \<and> dial_events y = 0 \<and> tick_events y = 0"
  by (auto simp: conn_defs)

lemma emit_fields [simp]:
  "lp_live (v5_emit e y) = lp_live y" "lp_phase (v5_emit e y) = lp_phase y"
  by (simp_all add: v5_emit_def)

lemma conn_ok_base [simp]:
  "v5_conn_ok (v5_emit e y) = v5_conn_ok y" "v5_conn_ok (v5_resolve sub r y) = v5_conn_ok y"
  "v5_conn_ok (upd_transport i f y) = v5_conn_ok y" "v5_conn_ok (set_worker i w y) = v5_conn_ok y"
  "v5_conn_ok (y\<lparr>lp_calls := m\<rparr>) = v5_conn_ok y" "v5_conn_ok (y\<lparr>lp_sync := sy\<rparr>) = v5_conn_ok y"
  "v5_conn_ok (y\<lparr>cl_replies := rs\<rparr>) = v5_conn_ok y"
  by (rule conn_ok_ctl, simp)+

text \<open>Leaving a live connection, from the select or from the activation.\<close>

lemma conn_ok_release:
  assumes "v5_conn_ok y" "lp_live y = Some i"
  shows "v5_conn_ok (releaseLiveTransport attempt y)"
  using assms conn_ok_live [OF assms]
  by (cases "lp_phase y") (auto simp: releaseLiveTransport_def conn_defs base_defs)

lemma conn_ok_backoff: "v5_conn_ok y \<Longrightarrow> lp_live y = Some i \<Longrightarrow> v5_conn_ok (enterBackoff err attempt y)"
  unfolding enterBackoff_def by (rule conn_ok_release) simp_all

definition activating :: "('g, 'e) v5_loop \<Rightarrow> bool" where
  "activating y \<longleftrightarrow> (case lp_phase y of LoopReplay _ _ \<Rightarrow> True | LoopReplayWait _ _ \<Rightarrow> True | LoopReady _ \<Rightarrow> True
     | LoopReadyWait _ \<Rightarrow> True | _ \<Rightarrow> False)"

lemma activating_live: "v5_conn_ok y \<Longrightarrow> activating y \<Longrightarrow> lp_live y \<noteq> None"
  by (cases "lp_phase y") (auto simp: activating_def v5_conn_ok_def)

lemma conn_ok_failed: "v5_conn_ok y \<Longrightarrow> activating y \<Longrightarrow> v5_conn_ok (activation_failed attempt err y)"
  using activating_live by (fastforce simp: activation_failed_def intro: conn_ok_backoff)

lemma conn_ok_phase: "v5_conn_ok y \<Longrightarrow> activating y \<Longrightarrow> activating (v5_phase_to p y) \<Longrightarrow> v5_conn_ok (v5_phase_to p y)"
  by (cases "lp_phase y"; cases p) (auto simp: activating_def conn_defs base_defs)

lemma conn_ok_done: "v5_conn_ok y \<Longrightarrow> activating y \<Longrightarrow> v5_conn_ok (activation_done y)"
  by (cases "lp_phase y") (simp_all add: activating_def activation_done_def conn_defs base_defs)

lemma activating_simps [simp]:
  "activating (y\<lparr>lp_calls := n\<rparr>) = activating y" "activating (y\<lparr>lp_sync := sy\<rparr>) = activating y"
  "activating (set_worker i w y) = activating y" "activating (v5_phase_to (LoopReplay a rest) y)"
  "activating (v5_phase_to (LoopReplayWait a rest) y)" "activating (v5_phase_to (LoopReady a) y)"
  "activating (v5_phase_to (LoopReadyWait a) y)"
  by (simp_all add: activating_def base_defs)

lemma conn_ok_send_sync:
  "v5_conn_ok y \<Longrightarrow> activating y \<Longrightarrow> send_sync payload mt wt y = Some y' \<Longrightarrow> v5_conn_ok y' \<and> activating y'"
  by (auto simp: send_sync_def Let_def)

lemma conn_ok_activate_next:
  assumes "v5_conn_ok y" "activating y" "activate_next gens attempt intents y = Some y'"
  shows "v5_conn_ok y'"
  using assms
  by (auto simp: activate_next_def Let_def split: list.splits sum.splits if_splits
      intro!: conn_ok_phase conn_ok_done conn_ok_failed dest!: conn_ok_send_sync [rotated 2])

lemma conn_ok_ready_send:
  "v5_conn_ok y \<Longrightarrow> activating y \<Longrightarrow> ready_send attempt payload opts y = Some y' \<Longrightarrow> v5_conn_ok y'"
  by (auto simp: ready_send_def replayer_Send_def Let_def intro!: conn_ok_phase dest!: conn_ok_send_sync [rotated 2])

lemma conn_ok_ready_return: "v5_conn_ok y \<Longrightarrow> activating y \<Longrightarrow> v5_conn_ok (ready_return attempt err y)"
  by (auto simp: ready_return_def intro: conn_ok_failed conn_ok_done split: option.split)

lemma conn_ok_sync_returns: "v5_conn_ok y \<Longrightarrow> sync_returns y = Some y' \<Longrightarrow> v5_conn_ok y'"
proof -
  assume ok: "v5_conn_ok y" and r: "sync_returns y = Some y'"
  from r have "activating y" by (auto simp: sync_returns_def activating_def split: option.splits v5_phase.splits)
  with ok r show "v5_conn_ok y'"
    by (auto simp: sync_returns_def split: option.splits v5_phase.splits intro!: conn_ok_failed conn_ok_phase)
qed

lemma conn_ok_dispose_done:
  "v5_conn_ok y \<Longrightarrow> lp_phase y = LoopDispose i attempt \<Longrightarrow> dispose_done i attempt y = Some y' \<Longrightarrow> v5_conn_ok y'"
  by (auto simp: dispose_done_def reconnect_defs conn_defs base_defs split: if_splits)

lemma conn_ok_shutdown: "v5_conn_ok y \<Longrightarrow> lp_phase y = LoopSelect \<Longrightarrow> v5_conn_ok (v5_shutdown err y)"
  by (cases "lp_live y") (auto simp: v5_shutdown_def conn_defs base_defs)

lemma conn_ok_shutdown_disposed:
  "v5_conn_ok y \<Longrightarrow> lp_phase y = LoopStop i err \<Longrightarrow> shutdown_disposed i err y = Some y' \<Longrightarrow> v5_conn_ok y'"
  by (auto simp: shutdown_disposed_def conn_defs base_defs)

lemma conn_ok_shutdown_joined:
  "v5_conn_ok y \<Longrightarrow> lp_phase y = LoopJoin ids err \<Longrightarrow> shutdown_joined ids err y = Some y' \<Longrightarrow> v5_conn_ok y'"
  by (auto simp: shutdown_joined_def conn_defs base_defs split: if_splits)

definition fresh_transport :: "int \<Rightarrow> int \<Rightarrow> int \<Rightarrow> 'e v5_transport" where
  "fresh_transport wt ping qs = \<lparr>tp_session = (newSession wt)\<lparr>vn_read := ReadLoop\<rparr>,
     tp_worker = (newIOWorker ping qs)\<lparr>vw_started := True\<rparr>\<rparr>"

lemma newTransport_fresh [simp]: "newTransport wt ping qs = Inr (fresh_transport wt ping qs)"
  by (simp add: fresh_transport_def newTransport_def session_Start_def newSession_def worker_Start_def newIOWorker_def)

lemma conn_ok_dial_result:
  assumes "v5_conn_ok y" "lp_phase y = LoopSelect" "chan_recv (cl_eventCh y) = Some (DialResultEvent attempt err, ch)"
  shows "v5_conn_ok (v5_handleDialResult attempt err (y\<lparr>cl_eventCh := ch\<rparr>))"
  using assms(1,2) events_recv(1) [OF assms(3)]
  by (simp add: v5_handleDialResult_def scheduleReconnect_def conn_defs base_defs split: if_splits)

lemma conn_ok_tick:
  assumes "v5_conn_ok y" "lp_phase y = LoopSelect" "chan_recv (cl_eventCh y) = Some (ReconnectTickEvent attempt, ch)"
  shows "v5_conn_ok (startDial attempt (y\<lparr>cl_eventCh := ch, lp_waiting := False\<rparr>))"
  using assms(1,2) events_recv(2) [OF assms(3)] by (auto simp: startDial_def conn_defs split: if_splits)


lemma conn_ok_session_read:
  assumes "v5_conn_ok y" "lp_phase y = LoopSelect"
  shows "v5_conn_ok (v5_event_turn wraps gens (SessionReadEvent i re he) y)"
  using assms
  by (auto simp: v5_event_turn_def v5_handleSessionRead_def Let_def split: option.split
      intro!: conn_ok_backoff conn_ok_shutdown)

lemma conn_ok_worker_failure: "v5_conn_ok y \<Longrightarrow> v5_conn_ok (v5_handleWorkerFailure i err y)"
  by (simp add: v5_handleWorkerFailure_def) (cases "lp_phase y"; simp add: conn_defs)

lemma conn_ok_event:
  assumes ok: "v5_conn_ok y" "lp_phase y = LoopSelect" and r: "chan_recv (cl_eventCh y) = Some (e, ch)"
  shows "v5_conn_ok (v5_event_turn wraps gens e (y\<lparr>cl_eventCh := ch\<rparr>))"
proof -
  have plain: "v5_conn_ok (y\<lparr>cl_eventCh := ch\<rparr>)" if "plain_event e"
    using ok(1) conn_ok_ctl [OF ctl_recv [OF that r]] by simp
  have same: "v5_conn_ok y'" if "v5_ctl y' = v5_ctl (y\<lparr>cl_eventCh := ch\<rparr>)" "plain_event e" for y'
    using conn_ok_ctl [OF that(1)] plain that(2) by simp
  show ?thesis
  proof (cases e)
    case (SendEvent p so sub)
    then show ?thesis by (intro same) (simp_all add: v5_event_turn_def)
  next
    case (SubscribeEvent k opts sub)
    then show ?thesis by (intro same) (simp_all add: v5_event_turn_def)
  next
    case (UnsubscribeEvent k sub)
    then show ?thesis by (intro same) (simp_all add: v5_event_turn_def)
  next
    case (SnapshotEvent r)
    then show ?thesis by (intro same) (simp_all add: v5_event_turn_def)
  next
    case (DialResultEvent a err)
    then show ?thesis using conn_ok_dial_result ok r by (simp add: v5_event_turn_def)
  next
    case (ReconnectTickEvent a)
    then show ?thesis using conn_ok_tick ok r by (simp add: v5_event_turn_def)
  next
    case (SessionReadEvent i re he)
    then show ?thesis using plain ok by (auto intro: conn_ok_session_read)
  next
    case (WorkerFailureEvent i err)
    then show ?thesis using plain by (simp add: v5_event_turn_def conn_ok_worker_failure)
  qed
qed

lemma in_flight_remove:
  "a \<in> set gos \<Longrightarrow> in_flight flag gos n c \<Longrightarrow> in_flight flag (remove1 a gos) (Suc n) c"
  "a \<in> set gos \<Longrightarrow> in_flight flag gos n c \<Longrightarrow> c \<Longrightarrow> in_flight flag (remove1 a gos) n c"
  by (cases gos; auto simp: in_flight_def length_remove1 split: if_splits)+

text \<open>A dial or a timer that ends.\<close>

lemma conn_ok_gone:
  assumes "v5_conn_ok y" "phase_ok (lp_phase y) y \<Longrightarrow> phase_ok (lp_phase y') y'"
    "(lp_live y', lp_dialing y', lp_waiting y', lp_phase y', cl_cancelled y', lp_routingOpen y', length (lp_transports y')) =
     (lp_live y, lp_dialing y, lp_waiting y, lp_phase y, cl_cancelled y, lp_routingOpen y, length (lp_transports y))"
    "in_flight (lp_dialing y) (lp_dials y') (dial_events y') (cl_cancelled y)"
    "in_flight (lp_waiting y) (lp_timers y') (tick_events y') (cl_cancelled y)"
  shows "v5_conn_ok y'"
  using assms by (simp add: v5_conn_ok_def one_conn_def)

lemma conn_ok_goroutine:
  assumes ok: "v5_conn_ok y" and step: "v5_step wraps gens c y = Some y'"
    and c: "c = DialDone a ctx err \<or> c = DialDropped a \<or> c = TimerDone a \<or> c = TimerDropped a"
  shows "v5_conn_ok y'"
proof (rule conn_ok_gone [OF ok])
  have f: "in_flight (lp_dialing y) (lp_dials y) (dial_events y) (cl_cancelled y)"
      "in_flight (lp_waiting y) (lp_timers y) (tick_events y) (cl_cancelled y)" using ok by (simp_all add: v5_conn_ok_def)
  have upd: "dial_events (y\<lparr>lp_dials := ds\<rparr>) = dial_events y" for ds by (simp add: dial_events_def)
  show "in_flight (lp_dialing y) (lp_dials y') (dial_events y') (cl_cancelled y)"
    using step c f(1) in_flight_remove [of a "lp_dials y" "lp_dialing y" "dial_events y" "cl_cancelled y"]
      events_send(1) [of "y\<lparr>lp_dials := remove1 a (lp_dials y)\<rparr>"] events_send(2) [of "y\<lparr>lp_timers := remove1 a (lp_timers y)\<rparr>"]
    by (auto simp: publishInternal_def split: if_splits)
  show "in_flight (lp_waiting y) (lp_timers y') (tick_events y') (cl_cancelled y)"
    using step c f(2) in_flight_remove [of a "lp_timers y" "lp_waiting y" "tick_events y" "cl_cancelled y"]
      events_send(1) [of "y\<lparr>lp_dials := remove1 a (lp_dials y)\<rparr>"] events_send(2) [of "y\<lparr>lp_timers := remove1 a (lp_timers y)\<rparr>"]
    by (auto simp: publishInternal_def split: if_splits)
  show "phase_ok (lp_phase y) y \<Longrightarrow> phase_ok (lp_phase y') y'"
    using step c by (cases "lp_phase y") (auto simp: publishInternal_def some_conn_def split: if_splits)
qed (use step c in \<open>auto simp: publishInternal_def split: if_splits\<close>)

lemma conn_ok_run: "v5_conn_ok y \<Longrightarrow> v5_conn_ok (fst (v5_Run y))"
  by (cases "lp_phase y") (auto simp: v5_Run_def startDial_def conn_defs base_defs split: if_splits)

lemma conn_ok_stop: "v5_conn_ok y \<Longrightarrow> v5_conn_ok (v5_Stop y)"
  by (cases "lp_phase y") (auto simp: v5_Stop_def conn_defs split: if_splits)

lemma conn_ok_step:
  assumes ok: "v5_conn_ok y" and step: "v5_step wraps gens c y = Some y'"
  shows "v5_conn_ok y'"
proof (cases "outer_choice c")
  case True
  then show ?thesis using conn_ok_ctl [OF ctl_outer [OF True step]] ok by simp
next
  case inner: False
  show ?thesis
  proof (cases "\<exists>a ctx err. c = DialDone a ctx err \<or> c = DialDropped a \<or> c = TimerDone a \<or> c = TimerDropped a")
    case True
    then show ?thesis using conn_ok_goroutine [OF ok step] by blast
  next
    case False
    then show ?thesis using inner ok step
      by (cases c) (auto simp: outer_choice_def activating_def conn_ok_run conn_ok_stop
        intro: conn_ok_event conn_ok_shutdown conn_ok_activate_next conn_ok_sync_returns conn_ok_dispose_done conn_ok_shutdown_disposed
          conn_ok_shutdown_joined conn_ok_ready_send conn_ok_ready_return
        split: v5_phase.splits option.splits if_splits)
  qed
qed

lemma conn_ok_New: "v5_New dialer noop config = Inr y \<Longrightarrow> v5_conn_ok y"
  by (auto simp: v5_New_def bindE_Inr conn_defs dial_events_def tick_events_def chan_make_def)

end
