(* ===== verification/V5_Props.thy ===== *)
theory V5_Props
  imports V5_System Multiset_Sums
begin

text \<open>
  What holds in every reachable state of the client of \<open>internal/core/pkg/wsrefact_v5\<close>: where the
  completion handles are, what an activation has written, and the state in which the loop and the
  writer of its connection wait for each other.
\<close>

section \<open>Where the handles are\<close>

fun event_sub :: "('g, 'e) v5_mux_event \<Rightarrow> nat option" where
  "event_sub (SendEvent _ _ sub) = Some sub"
| "event_sub (SubscribeEvent _ _ sub) = Some sub"
| "event_sub (UnsubscribeEvent _ sub) = Some sub"
| "event_sub _ = None"

fun write_sub :: "v5_worker_event \<Rightarrow> nat option" where
  "write_sub (WorkerWrite q) = vq_subscription q"
| "write_sub WorkerDispose = None"

definition option_mset :: "'a option \<Rightarrow> 'a multiset" where
  "option_mset x = (case x of None \<Rightarrow> {#} | Some z \<Rightarrow> {#z#})"

lemma option_mset_simps [simp]: "option_mset None = {#}" "option_mset (Some z) = {#z#}"
  by (simp_all add: option_mset_def)

definition transport_subs :: "'e v5_transport \<Rightarrow> nat multiset" where
  "transport_subs t = (\<Sum>e\<leftarrow>chan_buf (vw_eventCh (tp_worker t)). option_mset (write_sub e))"

definition queued_subs :: "('g, 'e) v5_mux_event chan \<Rightarrow> nat multiset" where
  "queued_subs ch = (\<Sum>e\<leftarrow>chan_buf ch. option_mset (event_sub e))"

definition v5_issued :: "('g, 'e) v5_loop \<Rightarrow> nat multiset" where
  "v5_issued y = queued_subs (cl_eventCh y) + (\<Sum>t\<leftarrow>lp_transports y. transport_subs t) + mset (map fst (cl_resolved y))"

lemma queued_send: "chan_send ch e = Some ch' \<Longrightarrow> queued_subs ch' = queued_subs ch + option_mset (event_sub e)"
  by (simp add: queued_subs_def go_chan.send_items)

lemma queued_recv: "chan_recv ch = Some (e, ch') \<Longrightarrow> queued_subs ch = option_mset (event_sub e) + queued_subs ch'"
  by (simp add: queued_subs_def go_chan.recv_items)

text \<open>What an operation adds to the handles held: nothing, for most.\<close>

lemma issued_upd:
  assumes "transport_subs (f (lp_transports y ! i)) = transport_subs (lp_transports y ! i) + hs" "i < length (lp_transports y)"
  shows "v5_issued (upd_transport i f y) = v5_issued y + hs"
  using sum_list_update_mset [OF assms(2), of transport_subs "f (lp_transports y ! i)"] assms(1)
  by (simp add: v5_issued_def upd_transport_def ac_simps)

lemma issued_upd_same:
  assumes "transport_subs (f (lp_transports y ! i)) = transport_subs (lp_transports y ! i)"
  shows "v5_issued (upd_transport i f y) = v5_issued y"
proof (cases "i < length (lp_transports y)")
  case True
  then show ?thesis using issued_upd [of f y i "{#}"] assms by simp
next
  case False
  then show ?thesis by (simp add: upd_transport_def v5_issued_def list_update_beyond)
qed

lemma issued_fields [simp]:
  "v5_issued (v5_emit e y) = v5_issued y" "v5_issued (v5_phase_to p y) = v5_issued y" "v5_issued (v5_setState st y) = v5_issued y"
  "v5_issued (y\<lparr>cl_cancelled := b\<rparr>) = v5_issued y" "v5_issued (y\<lparr>cl_next := n\<rparr>) = v5_issued y"
  "v5_issued (y\<lparr>lp_live := l\<rparr>) = v5_issued y" "v5_issued (y\<lparr>lp_routingOpen := b\<rparr>) = v5_issued y"
  "v5_issued (y\<lparr>lp_dialing := b\<rparr>) = v5_issued y" "v5_issued (y\<lparr>lp_waiting := b\<rparr>) = v5_issued y"
  "v5_issued (y\<lparr>lp_dials := as\<rparr>) = v5_issued y" "v5_issued (y\<lparr>lp_timers := as\<rparr>) = v5_issued y"
  "v5_issued (y\<lparr>lp_store := s\<rparr>) = v5_issued y" "v5_issued (y\<lparr>lp_calls := n\<rparr>) = v5_issued y"
  "v5_issued (y\<lparr>lp_sync := sy\<rparr>) = v5_issued y" "v5_issued (y\<lparr>lp_retired := ids\<rparr>) = v5_issued y"
  "v5_issued (y\<lparr>lp_readyCount := rc\<rparr>) = v5_issued y" "v5_issued (y\<lparr>cl_replies := rs\<rparr>) = v5_issued y"
  "v5_issued (y\<lparr>cl_started := b\<rparr>) = v5_issued y" "v5_issued (y\<lparr>cl_done := b\<rparr>) = v5_issued y"
  "v5_issued (v5_resolve sub r y) = v5_issued y + {#sub#}"
  by (simp_all add: v5_issued_def v5_emit_def v5_phase_to_def v5_setState_def v5_resolve_def)

lemma issued_loop [simp]:
  "v5_issued (startDial a y) = v5_issued y" "v5_issued (scheduleReconnect a y) = v5_issued y"
  "v5_issued (reconnect_later a y) = v5_issued y" "v5_issued (activation_done y) = v5_issued y"
  "v5_issued (releaseLiveTransport a y) = v5_issued y" "v5_issued (enterBackoff err a y) = v5_issued y"
  "v5_issued (activation_failed a err y) = v5_issued y" "v5_issued (ready_return a r y) = v5_issued y"
  "v5_issued (v5_shutdown runErr y) = v5_issued y" "v5_issued (v5_handleWorkerFailure i err y) = v5_issued y"
  by (simp_all add: startDial_def scheduleReconnect_def reconnect_later_def activation_done_def releaseLiveTransport_def
      enterBackoff_def activation_failed_def ready_return_def v5_shutdown_def v5_handleWorkerFailure_def Let_def
      issued_upd_same transport_subs_def split: option.split)

lemma next_fields [simp]:
  "cl_next (v5_emit e y) = cl_next y" "cl_next (v5_phase_to p y) = cl_next y" "cl_next (v5_setState st y) = cl_next y"
  "cl_next (v5_resolve sub r y) = cl_next y" "cl_next (upd_transport i f y) = cl_next y" "cl_next (set_worker i w y) = cl_next y"
  "cl_next (set_failing i fl y) = cl_next y"
  by (simp_all add: base_defs set_failing_def)

lemma next_loop [simp]:
  "cl_next (startDial a y) = cl_next y" "cl_next (scheduleReconnect a y) = cl_next y"
  "cl_next (reconnect_later a y) = cl_next y" "cl_next (activation_done y) = cl_next y"
  "cl_next (releaseLiveTransport a y) = cl_next y" "cl_next (enterBackoff err a y) = cl_next y"
  "cl_next (activation_failed a err y) = cl_next y" "cl_next (ready_return a r y) = cl_next y"
  "cl_next (v5_shutdown runErr y) = cl_next y" "cl_next (v5_handleWorkerFailure i err y) = cl_next y"
  "cl_next (enqueue_live p mt wt sub y) = cl_next y" "cl_next (generate_live gens g opts sub y) = cl_next y"
  by (simp_all add: startDial_def scheduleReconnect_def reconnect_later_def activation_done_def releaseLiveTransport_def
      enterBackoff_def activation_failed_def ready_return_def v5_shutdown_def v5_handleWorkerFailure_def Let_def
      enqueue_live_def generate_live_def split: option.split prod.split sum.split bool.split)


lemma issued_chan: "v5_issued (y\<lparr>cl_eventCh := ch\<rparr>) + queued_subs (cl_eventCh y) = v5_issued y + queued_subs ch"
  by (simp add: v5_issued_def ac_simps)

lemma issued_send: "chan_send (cl_eventCh y) e = Some ch \<Longrightarrow> v5_issued (y\<lparr>cl_eventCh := ch\<rparr>) = v5_issued y + option_mset (event_sub e)"
  by (simp add: v5_issued_def queued_send)

lemma issued_publishInternal:
  "publishInternal e y = Some y' \<Longrightarrow> v5_issued y' = v5_issued y + option_mset (event_sub e) \<and> cl_next y' = cl_next y"
  by (auto simp: publishInternal_def issued_send)

lemma issued_send_sync: "send_sync p mt wt y = Some y' \<Longrightarrow> v5_issued y' = v5_issued y \<and> cl_next y' = cl_next y"
  by (auto simp: send_sync_def Let_def SendSync_enqueue_def set_worker_def transport_subs_def go_chan.send_items
      intro!: issued_upd_same)

lemma issued_dispose: "worker_Dispose (tp_worker (lp_transports y ! i)) = Some w \<Longrightarrow> v5_issued (set_worker i w y) = v5_issued y"
  by (auto simp: worker_Dispose_def set_worker_def transport_subs_def go_chan.send_items split: if_splits intro!: issued_upd_same)

text \<open>A write for a handle, on an existing transport.\<close>

lemma issued_enqueue:
  assumes "lp_live y = Some i" "i < length (lp_transports y)"
  shows "v5_issued (enqueue_live p mt wt sub y) = v5_issued y + {#sub#}"
proof -
  let ?w = "tp_worker (lp_transports y ! i)"
  obtain w sent where w: "TryEnqueue p (v5_resolveMessageType mt) wt sub ?w = (w, sent)" by fastforce
  have "v5_issued (set_worker i w y) = v5_issued y + (if sent then {#sub#} else {#})"
    unfolding set_worker_def using w assms(2)
    by (intro issued_upd) (auto simp: TryEnqueue_def transport_subs_def chan_try_send_def go_chan.send_items split: option.splits)
  then show ?thesis using w assms(1) by (auto simp: enqueue_live_def split: bool.split)
qed

lemma issued_generate:
  assumes "lp_live y = Some i" "i < length (lp_transports y)"
  shows "v5_issued (generate_live gens g opts sub y) = v5_issued y + {#sub#}"
  using issued_enqueue [of "y\<lparr>lp_calls := Suc (lp_calls y)\<rparr>" i] assms by (auto simp: generate_live_def Let_def split: sum.split)

lemma canRoute_live: "canRouteWrites y \<Longrightarrow> v5_conn_ok y \<Longrightarrow> \<exists>i. lp_live y = Some i \<and> i < length (lp_transports y)"
  by (auto simp: canRouteWrites_def v5_conn_ok_def)

lemma canRoute_store [simp]: "canRouteWrites (y\<lparr>lp_store := s\<rparr>) = canRouteWrites y"
  by (simp add: canRouteWrites_def)

lemma issued_requests:
  assumes "v5_conn_ok y"
  shows "v5_issued (v5_handleSend p so sub y) = v5_issued y + {#sub#}"
    "v5_issued (v5_handleSubscribe gens k opts sub y) = v5_issued y + {#sub#}"
    "v5_issued (v5_handleUnsubscribe gens k sub y) = v5_issued y + {#sub#}"
  using canRoute_live [OF _ assms]
  by (auto simp: v5_handleSend_def v5_handleSubscribe_def v5_handleUnsubscribe_def Let_def issued_enqueue issued_generate
      split: sum.split)

lemma next_requests [simp]:
  "cl_next (v5_handleSend p so sub y) = cl_next y" "cl_next (v5_handleSubscribe gens k opts sub y) = cl_next y"
  "cl_next (v5_handleUnsubscribe gens k sub y) = cl_next y"
  by (auto simp: v5_handleSend_def v5_handleSubscribe_def v5_handleUnsubscribe_def Let_def split: sum.split)

lemma issued_event_turn:
  assumes "event_sub e \<noteq> None \<Longrightarrow> v5_conn_ok y"
  shows "v5_issued (v5_event_turn wraps gens e y) = v5_issued y + option_mset (event_sub e) \<and>
    cl_next (v5_event_turn wraps gens e y) = cl_next y"
proof (cases e)
  case (DialResultEvent a err)
  have "v5_issued (y\<lparr>lp_dialing := False, lp_transports := lp_transports y @ [fresh_transport wt ping qs],
      lp_live := l, lp_routingOpen := b\<rparr>) = v5_issued y" for wt ping qs l b
    by (simp add: v5_issued_def transport_subs_def fresh_transport_def newIOWorker_def chan_make_def)
  then show ?thesis using DialResultEvent
    by (simp add: v5_event_turn_def v5_handleDialResult_def Let_def)
next
  case (SessionReadEvent i re he)
  then show ?thesis
    by (auto simp: v5_event_turn_def v5_handleSessionRead_def Let_def split: option.split)
qed (simp_all add: v5_event_turn_def issued_requests [OF assms])

lemma issued_submit:
  assumes "\<And>sub. event_sub (ev sub) = Some sub"
  shows "v5_issued (submit ev y) = v5_issued y + {#cl_next y#} \<and> cl_next (submit ev y) = Suc (cl_next y)"
  using assms issued_send [of "y\<lparr>cl_next := Suc (cl_next y)\<rparr>"]
  by (auto simp: submit_def Let_def publishPublic_def chan_try_send_def split: option.split)

lemma issued_worker_turn:
  assumes "i < length (lp_transports y)" "worker_turn5 i answer y = Some y'"
  shows "v5_issued y' = v5_issued y \<and> cl_next y' = cl_next y"
proof -
  let ?t = "lp_transports y ! i"
  from assms(2) obtain e ch where r: "chan_recv (vw_eventCh (tp_worker ?t)) = Some (e, ch)"
    by (auto simp: worker_turn5_def Let_def split: if_splits option.splits)
  have *: "v5_issued (upd_transport i (\<lambda>_. t) y) + option_mset (write_sub e) = v5_issued y" if "vw_eventCh (tp_worker t) = ch" for t
  proof -
    have "transport_subs ?t = transport_subs t + option_mset (write_sub e)"
      using go_chan.recv_items [OF r] that by (simp add: transport_subs_def ac_simps)
    with sum_list_update_mset [OF assms(1), of transport_subs t]
    have "(\<Sum>x\<leftarrow>(lp_transports y)[i := t]. transport_subs x) + option_mset (write_sub e) = (\<Sum>x\<leftarrow>lp_transports y. transport_subs x)"
      by simp
    then show ?thesis by (simp add: v5_issued_def upd_transport_def ac_simps)
  qed
  show ?thesis
    using assms(2) r *
    by (auto simp: worker_turn5_def Let_def worker_handleRequest_def split: if_splits v5_worker_event.splits option.splits prod.splits)
qed

definition v5_handles_ok :: "('g, 'e) v5_loop \<Rightarrow> bool" where
  "v5_handles_ok y \<longleftrightarrow> v5_issued y = mset [0..<cl_next y]"

lemma handles_ok_same: "v5_handles_ok y \<Longrightarrow> v5_issued y' = v5_issued y \<and> cl_next y' = cl_next y \<Longrightarrow> v5_handles_ok y'"
  by (simp add: v5_handles_ok_def)

lemma handles_ok_submit:
  assumes "v5_handles_ok y" "\<And>sub. event_sub (ev sub) = Some sub"
  shows "v5_handles_ok (submit ev y)"
  using issued_submit [OF assms(2), of y] assms(1) by (simp add: v5_handles_ok_def)

lemma handles_ok_event:
  assumes "v5_conn_ok y" "v5_handles_ok y" "chan_recv (cl_eventCh y) = Some (e, ch)"
  shows "v5_handles_ok (v5_event_turn wraps gens e (y\<lparr>cl_eventCh := ch\<rparr>))"
proof -
  have "plain_event e" if "event_sub e \<noteq> None" using that by (cases e) simp_all
  then have "event_sub e \<noteq> None \<Longrightarrow> v5_conn_ok (y\<lparr>cl_eventCh := ch\<rparr>)"
    using assms(1) conn_ok_ctl [OF ctl_recv [OF _ assms(3)]] by blast
  from issued_event_turn [OF this] issued_chan [where y = y and ch = ch] queued_recv [OF assms(3)] assms(2)
  show ?thesis by (simp add: v5_handles_ok_def)
qed

lemma issued_activate_next: "activate_next gens a is y = Some y' \<Longrightarrow> v5_issued y' = v5_issued y \<and> cl_next y' = cl_next y"
  by (auto simp: activate_next_def Let_def split: list.splits sum.splits if_splits dest: issued_send_sync)

lemma issued_sync_returns: "sync_returns y = Some y' \<Longrightarrow> v5_issued y' = v5_issued y \<and> cl_next y' = cl_next y"
  by (auto simp: sync_returns_def split: option.splits v5_phase.splits)

lemma issued_set_failing: "v5_issued (set_failing i f y) = v5_issued y"
  by (simp add: set_failing_def issued_upd_same transport_subs_def)

lemma issued_disposals:
  "dispose_done i a y = Some y' \<Longrightarrow> v5_issued y' = v5_issued y \<and> cl_next y' = cl_next y"
  "shutdown_disposed i r y = Some y' \<Longrightarrow> v5_issued y' = v5_issued y \<and> cl_next y' = cl_next y"
  "shutdown_joined ids r y = Some y' \<Longrightarrow> v5_issued y' = v5_issued y \<and> cl_next y' = cl_next y"
  by (auto simp: dispose_done_def shutdown_disposed_def shutdown_joined_def issued_dispose split: if_splits)

lemma handles_ok_step:
  assumes "v5_conn_ok y" "v5_handles_ok y" "v5_step wraps gens c y = Some y'"
  shows "v5_handles_ok y'"
proof (cases c)
  case (CallSend p opts)
  then show ?thesis using assms by (auto simp: v5_Send_def intro: handles_ok_submit)
next
  case (CallSubscribe k opts)
  then show ?thesis using assms by (auto simp: v5_Subscribe_def intro: handles_ok_submit)
next
  case (CallUnsubscribe k)
  then show ?thesis using assms by (auto simp: v5_Unsubscribe_def intro: handles_ok_submit)
next
  case (CallSubscriptions r)
  have "v5_issued (v5_Subscriptions r y) = v5_issued y \<and> cl_next (v5_Subscriptions r y) = cl_next y"
    by (auto simp: v5_Subscriptions_def publishPublic_def chan_try_send_def issued_send split: option.split)
  then show ?thesis using assms CallSubscriptions handles_ok_same by fastforce
next
  case LoopEvent
  then show ?thesis using assms by (auto intro: handles_ok_event split: v5_phase.splits option.splits)
next
  case (ReaderPublish i)
  then show ?thesis using assms
    by (intro handles_ok_same [OF assms(2)])
      (auto simp: issued_upd_same transport_subs_def dest!: issued_publishInternal split: if_splits v5_read.splits)
next
  case (ReaderTurn i answer)
  then show ?thesis using assms
    by (intro handles_ok_same [OF assms(2)]) (auto simp: issued_upd_same transport_subs_def split: if_splits)
next
  case (WriterPing i answer)
  then show ?thesis using assms
    by (intro handles_ok_same [OF assms(2)])
      (auto simp: issued_upd_same transport_subs_def worker_handlePing_def split: if_splits prod.splits)
qed (use assms in \<open>auto simp: issued_set_failing issued_upd_same transport_subs_def v5_Stop_def v5_Run_def ready_send_def replayer_Send_def Let_def
    intro!: handles_ok_same [OF assms(2)]
    dest!: issued_publishInternal issued_send_sync issued_activate_next issued_sync_returns issued_disposals
    dest: issued_worker_turn split: if_splits option.splits v5_phase.splits v5_read.splits\<close>)

end
