(* ===== verification/V5_Replay.thy ===== *)
theory V5_Replay
  imports V5_Props
begin

text \<open>
  What the activation of a new connection (\<open>activate\<close> in \<open>client.go\<close> of
  \<open>internal/core/pkg/wsrefact_v5\<close>) has written when the client becomes connected: the subscribe
  frame of every stored subscription, once and in order. Then the properties of every reachable
  state.
\<close>

section \<open>What an activation has written\<close>

text \<open>Of a transport the queue of its writer, its frames other than pings, and its default timeout
  matter.\<close>

definition data_frames :: "v5_frame list \<Rightarrow> v5_frame list" where
  "data_frames fs = filter (\<lambda>(_, payload, _). payload \<noteq> None) fs"

definition t_view :: "'e v5_transport \<Rightarrow> v5_worker_event list \<times> v5_frame list \<times> int" where
  "t_view t = (chan_buf (vw_eventCh (tp_worker t)), data_frames (vn_frames (tp_session t)), vn_writeTimeout (tp_session t))"

definition t_views :: "('g, 'e) v5_loop \<Rightarrow> (v5_worker_event list \<times> v5_frame list \<times> int) list" where
  "t_views y = map t_view (lp_transports y)"

fun is_sync :: "v5_worker_event \<Rightarrow> bool" where
  "is_sync (WorkerWrite q) = vq_sync q"
| "is_sync WorkerDispose = False"

definition no_sync :: "v5_worker_event list \<Rightarrow> bool" where
  "no_sync q \<longleftrightarrow> list_all (\<lambda>e. \<not> is_sync e) q"

lemma no_sync_simps [simp]: "no_sync []" "no_sync (e # q) \<longleftrightarrow> \<not> is_sync e \<and> no_sync q" "no_sync (q @ q') \<longleftrightarrow> no_sync q \<and> no_sync q'"
  by (simp_all add: no_sync_def)

text \<open>The frame of a replayed subscription, and the request for it.\<close>

definition sent_for :: "('g, 'e) v5_gens \<Rightarrow> int \<Rightarrow> 'g v5_intent \<Rightarrow> v5_frame \<Rightarrow> bool" where
  "sent_for gens timeout i f \<longleftrightarrow>
     (\<exists>n payload. gens n (the (so_SubGen (vi_options i))) = Inr payload \<and>
       f = (v5_resolveMessageType (so_MessageType (vi_options i)), Some payload,
            if so_WriteTimeout (vi_options i) \<le> 0 then timeout else so_WriteTimeout (vi_options i)))"

definition request_for :: "('g, 'e) v5_gens \<Rightarrow> 'g v5_intent \<Rightarrow> v5_request \<Rightarrow> bool" where
  "request_for gens i q \<longleftrightarrow>
     (\<exists>n. gens n (the (so_SubGen (vi_options i))) = Inr (vq_payload q)) \<and>
     vq_messageType q = v5_resolveMessageType (so_MessageType (vi_options i)) \<and>
     vq_writeTimeout q = so_WriteTimeout (vi_options i) \<and> vq_sync q"

fun replayed_all :: "('g, 'e) v5_gens \<Rightarrow> 'g v5_intent list \<Rightarrow> v5_worker_event list \<times> v5_frame list \<times> int \<Rightarrow> bool" where
  "replayed_all gens xs (q, fs, w) \<longleftrightarrow> list_all2 (sent_for gens w) xs fs"

fun replayed_first :: "('g, 'e) v5_gens \<Rightarrow> 'g v5_intent list \<Rightarrow> v5_worker_event list \<times> v5_frame list \<times> int \<Rightarrow> bool" where
  "replayed_first gens xs (q, fs, w) \<longleftrightarrow> (\<exists>as bs. fs = as @ bs \<and> list_all2 (sent_for gens w) xs as)"

lemma replayed_all_first: "replayed_all gens xs v \<Longrightarrow> replayed_first gens xs v"
  by (cases v) auto

lemma replayed_first_app: "replayed_first gens xs (q, fs, w) \<Longrightarrow> replayed_first gens xs (q', fs @ gs, w)"
  by (metis append.assoc replayed_first.simps)

text \<open>The state of the activation against the view \<open>v\<close> of the live transport.\<close>

fun sync_phase_ok ::
    "('g, 'e) v5_gens \<Rightarrow> 'g v5_intent list \<Rightarrow> ('g, 'e) v5_phase \<Rightarrow> 'e v5_error option option \<Rightarrow>
     v5_worker_event list \<times> v5_frame list \<times> int \<Rightarrow> bool" where
  "sync_phase_ok gens snap (LoopReplay _ rest) sy v \<longleftrightarrow>
     sy = None \<and> fst v = [] \<and> (\<exists>before. snap = before @ rest \<and> replayed_all gens before v)"
| "sync_phase_ok gens snap (LoopReplayWait _ rest) sy v \<longleftrightarrow>
     (\<exists>before i. snap = before @ i # rest \<and>
       (case sy of
          None \<Rightarrow> (\<exists>q. fst v = [WorkerWrite q] \<and> request_for gens i q) \<and> replayed_all gens before v
        | Some None \<Rightarrow> fst v = [] \<and> replayed_all gens (before @ [i]) v
        | Some (Some _) \<Rightarrow> fst v = []))"
| "sync_phase_ok gens snap (LoopReady _) sy v \<longleftrightarrow> sy = None \<and> fst v = [] \<and> replayed_first gens snap v"
| "sync_phase_ok gens snap (LoopReadyWait _) sy v \<longleftrightarrow>
     (if sy = None then \<exists>q. fst v = [WorkerWrite q] \<and> vq_sync q else fst v = []) \<and> replayed_first gens snap v"
| "sync_phase_ok gens snap _ sy v \<longleftrightarrow> sy = None \<and> no_sync (fst v)"

definition v5_replay_ok :: "('g, 'e) v5_gens \<Rightarrow> ('g, 'e) v5_loop \<Rightarrow> bool" where
  "v5_replay_ok gens y \<longleftrightarrow>
     (\<forall>j<length (t_views y). lp_live y \<noteq> Some j \<longrightarrow> no_sync (fst (t_views y ! j))) \<and>
     sync_phase_ok gens (intent_snapshot (lp_store y)) (lp_phase y) (lp_sync y)
       (case lp_live y of None \<Rightarrow> ([], [], 0) | Some i \<Rightarrow> t_views y ! i)"

definition v5_rview where
  "v5_rview y = (lp_live y, lp_phase y, lp_sync y, lp_store y, t_views y)"

lemma replay_ok_view: "v5_rview y' = v5_rview y \<Longrightarrow> v5_replay_ok gens y' = v5_replay_ok gens y"
  by (cases "lp_live y") (simp_all add: v5_rview_def v5_replay_ok_def)

lemma views_upd: "t_views (upd_transport i f y) = (t_views y)[i := t_view (f (lp_transports y ! i))]"
  by (simp add: t_views_def upd_transport_def map_update)

lemma rview_upd: "t_view (f (lp_transports y ! i)) = t_view (lp_transports y ! i) \<Longrightarrow> v5_rview (upd_transport i f y) = v5_rview y"
proof -
  assume "t_view (f (lp_transports y ! i)) = t_view (lp_transports y ! i)"
  then have "(t_views y)[i := t_view (f (lp_transports y ! i))] = t_views y"
    by (cases "i < length (lp_transports y)") (simp_all add: t_views_def list_update_same_conv list_update_beyond)
  then show ?thesis by (simp add: v5_rview_def views_upd) (simp add: upd_transport_def)
qed

lemma rview_base [simp]:
  "v5_rview (v5_emit e y) = v5_rview y" "v5_rview (v5_resolve sub r y) = v5_rview y" "v5_rview (v5_setState st y) = v5_rview y"
  "v5_rview (y\<lparr>cl_next := n\<rparr>) = v5_rview y" "v5_rview (y\<lparr>lp_calls := n\<rparr>) = v5_rview y" "v5_rview (y\<lparr>cl_replies := rs\<rparr>) = v5_rview y"
  "v5_rview (y\<lparr>cl_eventCh := ch\<rparr>) = v5_rview y" "v5_rview (y\<lparr>lp_dialing := b\<rparr>) = v5_rview y" "v5_rview (y\<lparr>lp_waiting := b\<rparr>) = v5_rview y"
  "v5_rview (y\<lparr>lp_dials := as\<rparr>) = v5_rview y" "v5_rview (y\<lparr>lp_timers := as\<rparr>) = v5_rview y"
  "v5_rview (y\<lparr>lp_routingOpen := b\<rparr>) = v5_rview y" "v5_rview (y\<lparr>lp_readyCount := rc\<rparr>) = v5_rview y"
  "v5_rview (y\<lparr>cl_cancelled := b\<rparr>) = v5_rview y" "v5_rview (y\<lparr>cl_started := b\<rparr>) = v5_rview y"
  "v5_rview (y\<lparr>cl_done := b\<rparr>) = v5_rview y" "v5_rview (y\<lparr>lp_retired := ids\<rparr>) = v5_rview y"
  "v5_rview (startDial a y) = v5_rview y" "v5_rview (scheduleReconnect a y) = v5_rview y"
  "v5_rview (set_failing i f y) = v5_rview y" "v5_rview (v5_Subscriptions resp y) = v5_rview y"
proof -
  show "v5_rview (set_failing i f y) = v5_rview y" by (simp add: set_failing_def rview_upd t_view_def)
qed (simp_all add: v5_rview_def t_views_def base_defs startDial_def scheduleReconnect_def v5_Subscriptions_def publishPublic_def
      split: prod.split bool.split)

lemma rview_submit [simp]: "v5_rview (submit ev y) = v5_rview y"
  by (simp add: submit_def Let_def publishPublic_def split: prod.split bool.split option.split)

lemma rview_publishInternal: "publishInternal e y = Some y' \<Longrightarrow> v5_rview y' = v5_rview y"
  by (auto simp: publishInternal_def)

lemma data_frames_simps [simp]:
  "data_frames [] = []" "data_frames (fs @ [(mt, None, w)]) = data_frames fs" "data_frames (fs @ [(mt, Some p, w)]) = data_frames fs @ [(mt, Some p, w)]"
  by (simp_all add: data_frames_def)

lemma rview_outer:
  assumes "outer_choice c" "\<And>i answer. c \<noteq> WriterTurn i answer" "v5_step wraps gens c y = Some y'"
  shows "v5_rview y' = v5_rview y"
proof (cases c)
  case (WriterPing i answer)
  have "t_view (worker_handlePing answer t) = t_view t" for t
    by (simp add: t_view_def worker_handlePing_def session_writeOne_def Let_def split: option.split)
  then show ?thesis using assms(3) WriterPing by (auto simp: rview_upd split: if_splits)
next
  case (ReaderTurn i answer)
  have "t_view (t\<lparr>tp_session := runReadLoop_turn wraps answer (tp_session t)\<rparr>) = t_view t" for t
    by (simp add: t_view_def runReadLoop_turn_def split: sum.split option.split)
  then show ?thesis using assms(3) ReaderTurn by (auto simp: rview_upd split: if_splits)
next
  case (ReaderPublish i)
  then show ?thesis using assms(3)
    by (auto dest!: rview_publishInternal simp: rview_upd t_view_def read_published_def split: if_splits v5_read.splits)
next
  case (ReaderDrop i)
  then show ?thesis using assms(3)
    by (auto simp: rview_upd t_view_def read_published_def split: if_splits v5_read.splits)
qed (use assms in \<open>auto simp: outer_choice_def v5_Send_def v5_Subscribe_def v5_Unsubscribe_def
    dest!: rview_publishInternal split: if_splits option.splits\<close>)


subsection \<open>Outside the activation nothing waits for a write\<close>

definition all_quiet :: "('g, 'e) v5_loop \<Rightarrow> bool" where
  "all_quiet y \<longleftrightarrow> lp_sync y = None \<and> (\<forall>j<length (t_views y). no_sync (fst (t_views y ! j)))"

lemma quiet_view: "v5_rview y' = v5_rview y \<Longrightarrow> all_quiet y' = all_quiet y"
  by (simp add: v5_rview_def all_quiet_def)

lemma views_length [simp]: "length (t_views y) = length (lp_transports y)"
  by (simp add: t_views_def)

lemma live_index: "v5_conn_ok y \<Longrightarrow> lp_live y = Some i \<Longrightarrow> i < length (lp_transports y)"
  by (simp add: v5_conn_ok_def)

lemma replay_ok_quiet: "v5_conn_ok y \<Longrightarrow> \<not> activating y \<Longrightarrow> v5_replay_ok gens y \<longleftrightarrow> all_quiet y"
  by (cases "lp_phase y"; cases "lp_live y")
    (auto simp: activating_def v5_replay_ok_def all_quiet_def dest!: live_index)

lemma replay_ok_live_empty:
  assumes "v5_conn_ok y" "v5_replay_ok gens y" "activating y" "lp_live y = Some i" "fst (t_views y ! i) = []" "lp_sync y = None"
  shows "all_quiet y"
  unfolding all_quiet_def
proof (intro conjI allI impI)
  show "no_sync (fst (t_views y ! j))" if "j < length (t_views y)" for j
    using that assms(2,4,5) by (cases "j = i") (auto simp: v5_replay_ok_def)
qed (rule assms(6))

lemma quiet_upd:
  assumes "all_quiet y" "no_sync (fst (t_view (f (lp_transports y ! i))))"
  shows "all_quiet (upd_transport i f y)"
  using assms by (cases "i < length (lp_transports y)")
    (auto simp: all_quiet_def views_upd nth_list_update list_update_beyond, simp_all add: upd_transport_def list_update_beyond)

lemma quiet_fields [simp]:
  "all_quiet (v5_emit e y) = all_quiet y" "all_quiet (v5_resolve sub r y) = all_quiet y" "all_quiet (v5_setState st y) = all_quiet y"
  "all_quiet (v5_phase_to p y) = all_quiet y" "all_quiet (y\<lparr>lp_store := s\<rparr>) = all_quiet y" "all_quiet (y\<lparr>lp_live := l\<rparr>) = all_quiet y"
  "all_quiet (y\<lparr>lp_calls := n\<rparr>) = all_quiet y" "all_quiet (y\<lparr>cl_replies := rs\<rparr>) = all_quiet y"
  "all_quiet (y\<lparr>cl_eventCh := ch\<rparr>) = all_quiet y" "all_quiet (y\<lparr>lp_dialing := b\<rparr>) = all_quiet y"
  "all_quiet (y\<lparr>lp_waiting := b\<rparr>) = all_quiet y" "all_quiet (y\<lparr>lp_routingOpen := b\<rparr>) = all_quiet y"
  "all_quiet (y\<lparr>lp_readyCount := rc\<rparr>) = all_quiet y" "all_quiet (y\<lparr>cl_cancelled := b\<rparr>) = all_quiet y"
  "all_quiet (y\<lparr>lp_retired := ids\<rparr>) = all_quiet y" "all_quiet (y\<lparr>cl_done := b\<rparr>) = all_quiet y"
  "all_quiet (y\<lparr>cl_started := b\<rparr>) = all_quiet y"
  by (simp_all add: all_quiet_def t_views_def base_defs)

lemma quiet_nth: "all_quiet y \<Longrightarrow> i < length (lp_transports y) \<Longrightarrow> no_sync (chan_buf (vw_eventCh (tp_worker (lp_transports y ! i))))"
  by (auto simp: all_quiet_def t_views_def t_view_def)

lemma quiet_upd_queue:
  assumes "all_quiet y" "vw_eventCh (tp_worker (f (lp_transports y ! i))) = vw_eventCh (tp_worker (lp_transports y ! i))"
  shows "all_quiet (upd_transport i f y)"
proof (cases "i < length (lp_transports y)")
  case True
  show ?thesis using quiet_nth [OF assms(1) True] assms(2) by (intro quiet_upd [OF assms(1)]) (simp add: t_view_def)
next
  case False
  then show ?thesis using assms(1) by (simp add: upd_transport_def list_update_beyond)
qed

lemma quiet_timers: "all_quiet (y\<lparr>lp_dialing := b, lp_dials := as\<rparr>) = all_quiet y" "all_quiet (y\<lparr>lp_waiting := b, lp_timers := as\<rparr>) = all_quiet y"
  by (simp_all add: all_quiet_def t_views_def)

lemma quiet_loop [simp]:
  "all_quiet (startDial a y) = all_quiet y" "all_quiet (scheduleReconnect a y) = all_quiet y"
  "all_quiet (reconnect_later a y) = all_quiet y" "all_quiet (activation_done y) = all_quiet y"
  by (simp_all add: startDial_def scheduleReconnect_def reconnect_later_def activation_done_def Let_def quiet_timers)

lemma quiet_release:
  "all_quiet y \<Longrightarrow> all_quiet (releaseLiveTransport a y)" "all_quiet y \<Longrightarrow> all_quiet (enterBackoff err a y)"
  "all_quiet y \<Longrightarrow> all_quiet (activation_failed a err y)" "all_quiet y \<Longrightarrow> all_quiet (v5_shutdown r y)"
  "all_quiet y \<Longrightarrow> all_quiet (v5_handleWorkerFailure i err y)"
  by (auto simp: releaseLiveTransport_def enterBackoff_def activation_failed_def v5_shutdown_def v5_handleWorkerFailure_def
      Let_def intro!: quiet_upd_queue split: option.split)

lemma quiet_enqueue: "all_quiet y \<Longrightarrow> v5_conn_ok y \<Longrightarrow> lp_live y = Some i \<Longrightarrow> all_quiet (enqueue_live p mt wt sub y)"
  using quiet_nth [of y i] live_index [of y i]
  by (auto simp: enqueue_live_def TryEnqueue_def chan_try_send_def set_worker_def t_view_def go_chan.send_items
      intro!: quiet_upd split: option.split)

lemma conn_ok_calls: "v5_conn_ok (y\<lparr>lp_calls := n\<rparr>) = v5_conn_ok y"
  by simp

lemma conn_ok_store [simp]: "v5_conn_ok (y\<lparr>lp_store := s\<rparr>) = v5_conn_ok y"
  by (rule conn_ok_ctl) simp

lemma quiet_requests:
  assumes "all_quiet y" "v5_conn_ok y"
  shows "all_quiet (v5_handleSend p so sub y)" "all_quiet (v5_handleSubscribe gens k opts sub y)"
    "all_quiet (v5_handleUnsubscribe gens k sub y)"
proof -
  have gen: "all_quiet (generate_live gens g opts sub y')" if "all_quiet y'" "v5_conn_ok y'" "canRouteWrites y'" for g opts y'
    using that canRoute_live [OF that(3,2)] by (auto simp: generate_live_def Let_def intro: quiet_enqueue split: sum.split)
  show "all_quiet (v5_handleSend p so sub y)"
    using assms canRoute_live [OF _ assms(2)] by (auto simp: v5_handleSend_def intro: quiet_enqueue)
  show "all_quiet (v5_handleSubscribe gens k opts sub y)" "all_quiet (v5_handleUnsubscribe gens k sub y)"
    using assms by (auto simp: v5_handleSubscribe_def v5_handleUnsubscribe_def Let_def intro!: gen split: sum.split)
qed

lemma quiet_disposals:
  assumes "all_quiet y" "i < length (lp_transports y)"
  shows "dispose_done i a y = Some y' \<Longrightarrow> all_quiet y'" "shutdown_disposed i r y = Some y' \<Longrightarrow> all_quiet y'"
  using quiet_nth [OF assms] assms(1)
  by (auto simp: dispose_done_def shutdown_disposed_def worker_Dispose_def set_worker_def t_view_def go_chan.send_items
      intro!: quiet_upd split: if_splits)


subsection \<open>The activation keeps its account\<close>

lemma replay_ok_from_quiet: "all_quiet y \<Longrightarrow> v5_conn_ok y \<Longrightarrow> \<not> activating y \<Longrightarrow> v5_replay_ok gens y"
  by (simp add: replay_ok_quiet)

lemma not_activating [simp]:
  "lp_phase y = LoopSelect \<Longrightarrow> \<not> activating y" "lp_phase y = LoopNotRunning \<Longrightarrow> \<not> activating y"
  "lp_phase y = LoopDispose i a \<Longrightarrow> \<not> activating y"
  "lp_phase y = LoopStop i r \<Longrightarrow> \<not> activating y" "lp_phase y = LoopJoin ids r \<Longrightarrow> \<not> activating y" "lp_phase y = LoopDone r \<Longrightarrow> \<not> activating y"
  by (simp_all add: activating_def)

lemma phase_after:
  "lp_live y = Some i \<Longrightarrow> lp_phase (releaseLiveTransport a y) = LoopDispose i a"
  "lp_live y = Some i \<Longrightarrow> lp_phase (enterBackoff err a y) = LoopDispose i a"
  "lp_live y = Some i \<Longrightarrow> lp_phase (activation_failed a err y) = LoopDispose i (nextReconnectAttempt a)"
  "lp_phase (activation_done y) = LoopSelect"
  by (simp_all add: releaseLiveTransport_def enterBackoff_def activation_failed_def activation_done_def Let_def)
    (simp_all add: base_defs)

lemma phase_reconnect: "lp_phase (reconnect_later a y) = LoopSelect" "lp_phase (scheduleReconnect a y) = lp_phase y" "lp_phase (startDial a y) = lp_phase y"
  by (simp_all add: reconnect_later_def scheduleReconnect_def startDial_def base_defs)

lemma replay_ok_failed:
  assumes "v5_conn_ok y" "activating y" "all_quiet y"
  shows "v5_replay_ok gens (activation_failed a err y)"
proof -
  obtain i where "lp_live y = Some i" using activating_live [OF assms(1,2)] by auto
  from phase_after(3) [OF this] show ?thesis
    by (intro replay_ok_from_quiet conn_ok_failed quiet_release assms) simp
qed

lemma replay_ok_done:
  assumes "v5_conn_ok y" "activating y" "all_quiet y"
  shows "v5_replay_ok gens (activation_done y)"
  using assms by (intro replay_ok_from_quiet conn_ok_done) (simp_all add: phase_after)

text \<open>The first two steps of an activation: the snapshot, and the request for the next intent.\<close>

lemma send_sync_view:
  assumes "v5_conn_ok y" "lp_live y = Some i" "t_views y ! i = ([], fs, w)" "send_sync p mt wt y = Some y'"
  shows "lp_live y' = Some i \<and> lp_store y' = lp_store y \<and> lp_sync y' = lp_sync y \<and>
    t_views y' = (t_views y)[i := ([WorkerWrite \<lparr>vq_payload = p, vq_messageType = v5_resolveMessageType mt, vq_writeTimeout = wt,
      vq_subscription = None, vq_sync = True\<rparr>], fs, w)]"
proof -
  have i: "i < length (lp_transports y)" using live_index assms by blast
  have "t_view (lp_transports y ! i) = ([], fs, w)" using assms(3) i by (simp add: t_views_def)
  then show ?thesis using assms(2,4) i
    by (auto simp: send_sync_def SendSync_enqueue_def set_worker_def views_upd t_view_def go_chan.send_items)
      (simp_all add: upd_transport_def)
qed

lemma resolve_twice [simp]: "v5_resolveMessageType (v5_resolveMessageType m) = v5_resolveMessageType m" "0 < v5_resolveMessageType m"
  by (simp_all add: v5_resolveMessageType_def)

lemma phase_fields:
  "t_views (v5_phase_to p y) = t_views y" "lp_live (v5_phase_to p y) = lp_live y" "lp_store (v5_phase_to p y) = lp_store y"
  "lp_sync (v5_phase_to p y) = lp_sync y" "lp_phase (v5_phase_to p y) = p"
  by (simp_all add: v5_phase_to_def t_views_def)

lemma replay_ok_activate_next:
  assumes ok: "v5_conn_ok y" "v5_replay_ok gens y" and ph: "lp_phase y = LoopReplay a rest"
    and step: "activate_next gens a rest y = Some y'"
  shows "v5_replay_ok gens y'"
proof -
  have act: "activating y" using ph by (simp add: activating_def)
  then obtain i where live: "lp_live y = Some i" using activating_live [OF ok(1)] by auto
  obtain fs w before where v: "t_views y ! i = ([], fs, w)" "lp_sync y = None"
      and b: "intent_snapshot (lp_store y) = before @ rest" "list_all2 (sent_for gens w) before fs"
    using ok(2) ph live by (cases "t_views y ! i") (auto simp: v5_replay_ok_def)
  have others: "\<forall>j<length (t_views y). i \<noteq> j \<longrightarrow> no_sync (fst (t_views y ! j))" using ok(2) live by (simp add: v5_replay_ok_def)
  have quiet: "all_quiet y" using replay_ok_live_empty [OF ok act live] v by simp
  show ?thesis
  proof (cases rest)
    case Nil
    show ?thesis
    proof (cases "vc_OnReady (cl_config y)")
      case True
      then have "y' = v5_phase_to (LoopReady a) y" using step Nil by (simp add: activate_next_def)
      have "replayed_first gens (intent_snapshot (lp_store y)) (t_views y ! i)"
        using v b Nil by (intro replayed_all_first) simp
      with \<open>y' = _\<close> live others v show ?thesis
        by (simp add: v5_replay_ok_def phase_fields del: replayed_first.simps)
    next
      case False
      then show ?thesis using step Nil replay_ok_done [OF ok(1) act quiet] by (simp add: activate_next_def)
    qed
  next
    case (Cons x xs)
    let ?opts = "vi_options x" and ?y1 = "y\<lparr>lp_calls := Suc (lp_calls y)\<rparr>"
    show ?thesis
    proof (cases "gens (lp_calls y) (the (so_SubGen ?opts))")
      case (Inl err)
      then show ?thesis using step Cons ok act quiet by (auto simp: activate_next_def Let_def intro!: replay_ok_failed)
    next
      case (Inr payload)
      then obtain y2 where s: "send_sync payload (v5_resolveMessageType (so_MessageType ?opts)) (so_WriteTimeout ?opts) ?y1 = Some y2"
        and y': "y' = v5_phase_to (LoopReplayWait a xs) y2" using step Cons by (auto simp: activate_next_def Let_def)
      have v1: "t_views ?y1 ! i = ([], fs, w)" "v5_conn_ok ?y1" "lp_live ?y1 = Some i" using v ok live by (simp_all add: t_views_def)
      note sv = send_sync_view [OF v1(2,3,1) s]
      have i: "i < length (t_views y)" using live_index [OF ok(1) live] by simp
      have "t_views ?y1 = t_views y" by (simp add: t_views_def)
      with sv y' i others v b Cons Inr show ?thesis
        by (auto simp: v5_replay_ok_def phase_fields nth_list_update request_for_def)
    qed
  qed
qed


lemma live_default: "lp_live y = Some i \<Longrightarrow>
    v5_replay_ok gens y \<longleftrightarrow> (\<forall>j<length (t_views y). i \<noteq> j \<longrightarrow> no_sync (fst (t_views y ! j))) \<and>
      sync_phase_ok gens (intent_snapshot (lp_store y)) (lp_phase y) (lp_sync y) (t_views y ! i)"
  by (simp add: v5_replay_ok_def)

lemma replay_ok_sync_returns:
  assumes ok: "v5_conn_ok y" "v5_replay_ok gens y" and step: "sync_returns y = Some y'"
  shows "v5_replay_ok gens y'"
proof -
  from step have act: "activating y" by (auto simp: sync_returns_def activating_def split: option.splits v5_phase.splits)
  then obtain i where live: "lp_live y = Some i" using activating_live [OF ok(1)] by auto
  obtain q fs w where v: "t_views y ! i = (q, fs, w)" by (cases "t_views y ! i") auto
  let ?y0 = "y\<lparr>lp_sync := None\<rparr>"
  have y0: "t_views ?y0 = t_views y" by (simp add: t_views_def)
  have q: "q = []" using ok(2) step live v by (auto simp: live_default sync_returns_def split: option.splits v5_phase.splits if_splits)
  then have "all_quiet ?y0" using ok(2) live v y0 by (fastforce simp: all_quiet_def live_default)
  then have "v5_replay_ok gens (activation_failed a err ?y0)" for a err using ok(1) act by (intro replay_ok_failed) simp_all
  then show ?thesis using step ok(2) live v q y0
    by (auto simp: sync_returns_def live_default phase_fields simp del: replayed_first.simps split: option.splits v5_phase.splits)
qed

lemma replay_ok_ready_send:
  assumes ok: "v5_conn_ok y" "v5_replay_ok gens y" and ph: "lp_phase y = LoopReady a"
    and step: "ready_send a payload opts y = Some y'"
  shows "v5_replay_ok gens y'"
proof -
  have "activating y" using ph by (simp add: activating_def)
  then obtain i where live: "lp_live y = Some i" using activating_live [OF ok(1)] by auto
  obtain q fs w where v: "t_views y ! i = (q, fs, w)" by (cases "t_views y ! i") auto
  with ok(2) ph live have q: "t_views y ! i = ([], fs, w)" by (simp add: live_default)
  from step obtain p mt wt y2 where s: "send_sync p mt wt y = Some y2" and y': "y' = v5_phase_to (LoopReadyWait a) y2"
    by (auto simp: ready_send_def replayer_Send_def Let_def)
  have "i < length (t_views y)" using live_index [OF ok(1) live] by simp
  with send_sync_view [OF ok(1) live q s] y' ok(2) ph live q show ?thesis
    by (auto simp: live_default phase_fields nth_list_update)
qed

lemma replay_ok_ready_return:
  assumes ok: "v5_conn_ok y" "v5_replay_ok gens y" and ph: "lp_phase y = LoopReady a"
  shows "v5_replay_ok gens (ready_return a r y)"
proof -
  have act: "activating y" using ph by (simp add: activating_def)
  then obtain i where live: "lp_live y = Some i" using activating_live [OF ok(1)] by auto
  have "all_quiet y" using ok(2) ph live by (intro replay_ok_live_empty [OF ok act live]) (simp_all add: live_default)
  then show ?thesis using ok act by (auto simp: ready_return_def intro: replay_ok_failed replay_ok_done split: option.split)
qed

lemma ctl_state: "v5_ctl y' = v5_ctl y \<Longrightarrow> cl_state y' = cl_state y"
  by (simp add: v5_ctl_def)

lemma activating_ctl: "v5_ctl y' = v5_ctl y \<Longrightarrow> activating y' = activating y"
  by (simp add: v5_ctl_def activating_def)

lemma activating_requests [simp]:
  "activating (v5_handleSend p so sub y) = activating y" "activating (v5_handleSubscribe gens k opts sub y) = activating y"
  "activating (v5_handleUnsubscribe gens k sub y) = activating y"
  by (rule activating_ctl, simp)+

text \<open>One event of the loop, from the select.\<close>

lemma replay_ok_event:
  assumes ok: "v5_conn_ok y" "v5_replay_ok gens y" and ph: "lp_phase y = LoopSelect"
    and r: "chan_recv (cl_eventCh y) = Some (e, ch)"
  shows "v5_replay_ok gens (v5_event_turn wraps gens e (y\<lparr>cl_eventCh := ch\<rparr>))"
proof -
  let ?y = "y\<lparr>cl_eventCh := ch\<rparr>" and ?y' = "v5_event_turn wraps gens e (y\<lparr>cl_eventCh := ch\<rparr>)"
  have quiet: "all_quiet ?y" using ok ph by (simp add: replay_ok_quiet)
  have ok': "v5_conn_ok ?y'" by (rule conn_ok_event [OF ok(1) ph r])
  have plain: "v5_conn_ok ?y" if "plain_event e" using ok(1) conn_ok_ctl [OF ctl_recv [OF that r]] by simp
  show ?thesis
  proof (cases e)
    case (DialResultEvent a err)
    show ?thesis
    proof (cases "cl_cancelled y \<or> err \<noteq> None")
      case True
      then have "all_quiet ?y'" "lp_phase ?y' = LoopSelect" using DialResultEvent quiet ph
        by (auto simp: v5_event_turn_def v5_handleDialResult_def Let_def phase_reconnect)
      then show ?thesis using ok' by (simp add: replay_ok_from_quiet)
    next
      case False
      let ?c = "cl_config y"
      let ?t = "fresh_transport (vc_WriteTimeout ?c) (vc_PingInterval ?c) (vc_WriteQueueSize ?c) :: 'b v5_transport"
      have "t_view ?t = ([], [], vc_WriteTimeout ?c)"
        by (simp add: t_view_def fresh_transport_def newIOWorker_def newSession_def chan_make_def)
      moreover have "lp_live ?y' = Some (length (lp_transports y))" "lp_store ?y' = lp_store y" "lp_sync ?y' = lp_sync y"
          "lp_phase ?y' = LoopReplay a (intent_snapshot (lp_store y))" "t_views ?y' = t_views y @ [t_view ?t]"
        using False DialResultEvent by (simp_all add: v5_event_turn_def v5_handleDialResult_def v5_phase_to_def t_views_def)
      ultimately show ?thesis using quiet by (auto simp: live_default all_quiet_def nth_append t_views_def)
    qed
  next
    case (SessionReadEvent i re he)
    then have p: "v5_conn_ok ?y" using plain by simp
    have backoff: "v5_replay_ok gens (enterBackoff err a y1)" if "lp_live y1 = Some i" "all_quiet y1" "v5_conn_ok y1" for err a y1
      using that by (intro replay_ok_from_quiet conn_ok_backoff quiet_release) (simp_all add: phase_after)
    have stop: "v5_replay_ok gens (v5_shutdown err y1)" if "lp_phase y1 = LoopSelect" "all_quiet y1" "v5_conn_ok y1" for err y1
    proof -
      have "\<not> activating (v5_shutdown err y1)" by (cases "lp_live y1") (simp_all add: v5_shutdown_def activating_def base_defs)
      then show ?thesis using that by (intro replay_ok_from_quiet conn_ok_shutdown quiet_release)
    qed
    have same: "v5_replay_ok gens y1" if "v5_rview y1 = v5_rview ?y" for y1
      using replay_ok_view [OF that] ok(2) replay_ok_view [of ?y y] by simp
    show ?thesis using SessionReadEvent p quiet ph
      by (auto simp: v5_event_turn_def v5_handleSessionRead_def Let_def split: option.split intro!: backoff stop intro: same)
  next
    case (WorkerFailureEvent i err)
    then show ?thesis using quiet ph ok'
      by (intro replay_ok_from_quiet) (auto simp: v5_event_turn_def v5_handleWorkerFailure_def activating_def intro: quiet_release)
  next
    case (ReconnectTickEvent a)
    then show ?thesis using quiet ph ok'
      by (intro replay_ok_from_quiet) (auto simp: v5_event_turn_def activating_def phase_reconnect)
  next
    case (SnapshotEvent resp)
    then show ?thesis using quiet ph ok'
      by (intro replay_ok_from_quiet) (auto simp: v5_event_turn_def activating_def)
  qed (use quiet plain ph ok' in \<open>auto intro!: replay_ok_from_quiet simp: v5_event_turn_def quiet_requests\<close>)
qed


text \<open>One event of a writer.\<close>

definition sent_frame :: "int \<Rightarrow> v5_request \<Rightarrow> v5_frame" where
  "sent_frame w p = (if vq_messageType p \<le> 0 then 1 else vq_messageType p, Some (vq_payload p),
     if vq_writeTimeout p \<le> 0 then w else vq_writeTimeout p)"

lemma sent_frame_for: "request_for gens i p \<Longrightarrow> sent_for gens w i (sent_frame w p)"
  by (auto simp: request_for_def sent_for_def sent_frame_def v5_resolveMessageType_def)

lemma handleRequest_view:
  assumes "t_view t = (q, fs, w)" "worker_handleRequest answer p t = (t', r)"
  shows "t_view t' = (q, if r = None then fs @ [sent_frame w p] else fs, w)"
  using assms
  by (cases answer) (auto simp: t_view_def worker_handleRequest_def session_writeOne_def sent_frame_def Let_def)

lemma views_resolve: "t_views (v5_resolve s x z) = t_views z" "t_views (z\<lparr>lp_sync := sy\<rparr>) = t_views z"
  by (simp_all add: t_views_def v5_resolve_def)

lemma worker_turn_view:
  assumes i: "i < length (lp_transports y)" and step: "worker_turn5 i answer y = Some y'"
  obtains e q fs w r where "t_views y ! i = (e # q, fs, w)"
    "lp_live y' = lp_live y" "lp_phase y' = lp_phase y" "lp_store y' = lp_store y"
    "lp_sync y' = (if is_sync e then Some r else lp_sync y)"
    "t_views y' = (t_views y)[i := (q, case e of WorkerDispose \<Rightarrow> fs | WorkerWrite p \<Rightarrow> if r = None then fs @ [sent_frame w p] else fs, w)]"
proof -
  let ?t = "lp_transports y ! i"
  from step obtain e ch where r: "chan_recv (vw_eventCh (tp_worker ?t)) = Some (e, ch)" and idle: "worker_idle ?t"
    by (auto simp: worker_turn5_def Let_def split: if_splits option.splits)
  define t1 where "t1 = ?t\<lparr>tp_worker := (tp_worker ?t)\<lparr>vw_eventCh := ch\<rparr>\<rparr>"
  define fs w where "fs = data_frames (vn_frames (tp_session ?t))" and "w = vn_writeTimeout (tp_session ?t)"
  have v: "t_views y ! i = (e # chan_buf ch, fs, w)" using i go_chan.recv_items [OF r] by (simp add: t_views_def t_view_def fs_def w_def)
  have v1: "t_view t1 = (chan_buf ch, fs, w)" by (simp add: t1_def t_view_def fs_def w_def)
  show ?thesis
  proof (cases e)
    case WorkerDispose
    then have y': "y' = upd_transport i (\<lambda>_. t1\<lparr>tp_worker := (tp_worker t1)\<lparr>vw_done := True\<rparr>\<rparr>) y"
      using step r idle by (simp add: worker_turn5_def Let_def t1_def)
    have "t_view (t1\<lparr>tp_worker := (tp_worker t1)\<lparr>vw_done := True\<rparr>\<rparr>) = (chan_buf ch, fs, w)" using v1 by (simp add: t_view_def)
    then have "t_views y' = (t_views y)[i := (chan_buf ch, fs, w)]" by (simp add: y' views_upd)
    then show ?thesis using v WorkerDispose by (intro that [of e "chan_buf ch" fs w]) (simp_all add: y', simp_all add: upd_transport_def)
  next
    case (WorkerWrite p)
    obtain t2 x where q: "worker_handleRequest answer p t1 = (t2, x)" by fastforce
    define y1 where "y1 = upd_transport i (\<lambda>_. t2) y"
    define y2 where "y2 = (case vq_subscription p of None \<Rightarrow> y1 | Some sub \<Rightarrow> v5_resolve sub x y1)"
    have y': "y' = (if vq_sync p then y2\<lparr>lp_sync := Some x\<rparr> else y2)"
      using step r idle WorkerWrite q unfolding y2_def y1_def t1_def by (simp add: worker_turn5_def Let_def)
    have "t_views y1 = (t_views y)[i := (chan_buf ch, if x = None then fs @ [sent_frame w p] else fs, w)]"
      using handleRequest_view [OF v1 q] by (simp add: y1_def views_upd)
    moreover have "t_views y2 = t_views y1" by (simp add: y2_def views_resolve split: option.split)
    moreover have "lp_live y2 = lp_live y" "lp_phase y2 = lp_phase y" "lp_store y2 = lp_store y" "lp_sync y2 = lp_sync y"
      by (simp_all add: y2_def y1_def upd_transport_def v5_resolve_def split: option.split)
    ultimately show ?thesis using v WorkerWrite by (intro that [of e "chan_buf ch" fs w x]) (simp_all add: y' views_resolve)
  qed
qed

lemma replay_ok_worker_turn:
  assumes ok: "v5_conn_ok y" "v5_replay_ok gens y" and i: "i < length (lp_transports y)" and step: "worker_turn5 i answer y = Some y'"
  shows "v5_replay_ok gens y'"
proof -
  from worker_turn_view [OF i step] obtain e q fs w r where v: "t_views y ! i = (e # q, fs, w)"
    and same: "lp_live y' = lp_live y" "lp_phase y' = lp_phase y" "lp_store y' = lp_store y"
    and sy: "lp_sync y' = (if is_sync e then Some r else lp_sync y)"
    and vs: "t_views y' = (t_views y)[i := (q, case e of WorkerDispose \<Rightarrow> fs | WorkerWrite p \<Rightarrow> if r = None then fs @ [sent_frame w p] else fs, w)]"
    by blast
  have i': "i < length (t_views y)" using i by simp
  show ?thesis
  proof (cases "lp_live y = Some i \<and> activating y")
    case False
    have e: "\<not> is_sync e" "no_sync q"
    proof -
      have "no_sync (fst (t_views y ! i))"
      proof (cases "lp_live y = Some i")
        case True
        then have "all_quiet y" using False ok by (simp add: replay_ok_quiet)
        then show ?thesis using i' by (simp add: all_quiet_def)
      next
        case False
        then show ?thesis using ok(2) i' by (simp add: v5_replay_ok_def)
      qed
      with v show "\<not> is_sync e" "no_sync q" by simp_all
    qed
    show ?thesis
    proof (cases "lp_live y = Some i")
      case True
      with False have na: "\<not> activating y" by simp
      then have "all_quiet y" using ok by (simp add: replay_ok_quiet)
      then have "all_quiet y'" using e sy vs i' same by (auto simp: all_quiet_def nth_list_update)
      moreover have "v5_conn_ok y'" using conn_ok_ctl [OF ctl_worker_turn [OF step]] ok(1) by simp
      ultimately show ?thesis using na same by (intro replay_ok_from_quiet) (simp_all add: activating_def)
    next
      case neq: False
      show ?thesis using ok(2) e sy vs i' same neq
        by (cases "lp_live y") (auto simp: v5_replay_ok_def nth_list_update)
    qed
  next
    case True
    then have others: "\<forall>j<length (t_views y). i \<noteq> j \<longrightarrow> no_sync (fst (t_views y ! j))" using ok(2) by (simp add: live_default)
    have ph: "sync_phase_ok gens (intent_snapshot (lp_store y)) (lp_phase y) (lp_sync y) (e # q, fs, w)"
      using ok(2) True v by (simp add: live_default)
    have "sync_phase_ok gens (intent_snapshot (lp_store y)) (lp_phase y) (lp_sync y')
        (q, case e of WorkerDispose \<Rightarrow> fs | WorkerWrite p \<Rightarrow> if r = None then fs @ [sent_frame w p] else fs, w)"
      using True ph sy
    proof (cases "lp_phase y")
      case (LoopReplayWait a rest)
      have "lp_sync y = None"
      proof (cases "lp_sync y")
        case (Some z)
        then show ?thesis using ph LoopReplayWait by (cases z) auto
      qed
      with ph LoopReplayWait obtain before x p where b: "intent_snapshot (lp_store y) = before @ x # rest" "lp_sync y = None"
          "e = WorkerWrite p" "q = []" "request_for gens x p" "list_all2 (sent_for gens w) before fs"
        by auto
      then have "is_sync e" "list_all2 (sent_for gens w) (before @ [x]) (fs @ [sent_frame w p])"
        using sent_frame_for [of gens x p w] by (simp_all add: request_for_def list_all2_appendI)
      then show ?thesis using b sy LoopReplayWait by (cases r) auto
    next
      case (LoopReadyWait a)
      with ph obtain p where p: "lp_sync y = None" "e = WorkerWrite p" "q = []" "vq_sync p" "replayed_first gens (intent_snapshot (lp_store y)) (q, fs, w)"
        by (auto split: if_splits)
      then show ?thesis using sy LoopReadyWait replayed_first_app by (auto simp del: replayed_first.simps)
    qed (auto simp: activating_def)
    then show ?thesis using True others same vs i' by (auto simp: live_default nth_list_update)
  qed
qed


section \<open>Every reachable state\<close>

lemma replay_ok_loop_steps:
  assumes ok: "v5_conn_ok y" "v5_replay_ok gens y" and step: "v5_step wraps gens c y = Some y'"
    and c: "c \<in> {LoopCancelled, LoopDisposed, LoopStopped, LoopJoined, CallRun}" "\<not> cl_started y \<or> c \<noteq> CallRun"
  shows "v5_replay_ok gens y'"
proof -
  have na: "\<not> activating y"
    using step c ok(1) by (cases "lp_phase y") (auto simp: v5_conn_ok_def activating_def)
  with ok have quiet: "all_quiet y" by (simp add: replay_ok_quiet)
  have ok': "v5_conn_ok y'" by (rule conn_ok_step [OF ok(1) step])
  have "all_quiet y'"
    using step c quiet ok(1)
    by (auto simp: v5_conn_ok_def v5_Run_def shutdown_joined_def intro: quiet_release quiet_disposals split: v5_phase.splits if_splits)
  moreover have "\<not> activating y'"
    using step c na
    by (auto simp: v5_Run_def shutdown_joined_def shutdown_disposed_def dispose_done_def v5_shutdown_def activating_def
        phase_reconnect base_defs split: v5_phase.splits if_splits option.splits)
  ultimately show ?thesis using ok' by (intro replay_ok_from_quiet)
qed

lemma replay_ok_same: "v5_rview y' = v5_rview y \<Longrightarrow> v5_replay_ok gens y \<Longrightarrow> v5_replay_ok gens y'"
  using replay_ok_view by blast

lemma rview_goroutines:
  assumes "v5_step wraps gens c y = Some y'" "c = CallStop \<or> c = DialDone a ctx err \<or> c = DialDropped a \<or> c = TimerDone a \<or> c = TimerDropped a"
  shows "v5_rview y' = v5_rview y"
  using assms by (auto simp: v5_Stop_def dest!: rview_publishInternal split: if_splits)

lemma v5_replay_ok_step:
  assumes ok: "v5_conn_ok y" "v5_replay_ok gens y" and step: "v5_step wraps gens c y = Some y'"
  shows "v5_replay_ok gens y'"
proof (cases "outer_choice c")
  case outer: True
  show ?thesis
  proof (cases "\<exists>i answer. c = WriterTurn i answer")
    case True
    then show ?thesis using ok step by (auto intro: replay_ok_worker_turn split: if_splits)
  next
    case False
    then show ?thesis using rview_outer [OF outer _ step] ok(2) by (auto intro: replay_ok_same)
  qed
next
  case inner: False
  consider (flow) a ctx err where "c = CallStop \<or> c = DialDone a ctx err \<or> c = DialDropped a \<or> c = TimerDone a \<or> c = TimerDropped a"
    | (loop) "c \<in> {LoopCancelled, LoopDisposed, LoopStopped, LoopJoined, CallRun}"
    | (turn) "c \<in> {LoopEvent, LoopNext, LoopSync}" | (ready) p opts r where "c = ReadySend p opts \<or> c = ReadyReturn r"
    using inner by (cases c) (auto simp: outer_choice_def)
  then show ?thesis
  proof cases
    case flow
    from replay_ok_same [OF rview_goroutines [OF step flow] ok(2)] show ?thesis .
  next
    case loop
    show ?thesis
    proof (cases "cl_started y \<and> c = CallRun")
      case True
      then show ?thesis using step ok(2) by (auto simp: v5_Run_def)
    next
      case False
      then show ?thesis using replay_ok_loop_steps [OF ok step loop] by blast
    qed
  next
    case turn
    then show ?thesis using step ok
      by (auto intro: replay_ok_event replay_ok_activate_next replay_ok_sync_returns split: v5_phase.splits option.splits)
  next
    case ready
    then show ?thesis using step ok
      by (auto intro: replay_ok_ready_send replay_ok_ready_return split: v5_phase.splits)
  qed
qed

definition v5_ok :: "('g, 'e) v5_gens \<Rightarrow> ('g, 'e) v5_loop \<Rightarrow> bool" where
  "v5_ok gens y \<longleftrightarrow> v5_conn_ok y \<and> v5_handles_ok y \<and> v5_replay_ok gens y"

lemma v5_ok_New: "v5_New dialer noop config = Inr y \<Longrightarrow> v5_ok gens y"
  using conn_ok_New [of dialer noop config y]
  by (auto simp: v5_ok_def v5_New_def bindE_Inr v5_handles_ok_def v5_issued_def queued_subs_def chan_make_def v5_replay_ok_def t_views_def)

lemma v5_ok_step: "v5_ok gens y \<Longrightarrow> v5_moves wraps gens y y' \<Longrightarrow> v5_ok gens y'"
  by (auto simp: v5_ok_def elim!: v5_movesE intro: conn_ok_step handles_ok_step v5_replay_ok_step)

interpretation v5_sys: invariant_system
    "\<lambda>y. \<exists>dialer noop config. v5_New dialer noop config = Inr y" "v5_moves wraps gens" "v5_ok gens" for wraps gens
  by unfold_locales (auto intro: v5_ok_New v5_ok_step)

lemma v5_reachable: "v5_New dialer noop config = Inr y0 \<Longrightarrow> (v5_moves wraps gens)\<^sup>*\<^sup>* y0 y \<Longrightarrow> v5_ok gens y"
  by (rule v5_sys.ok_reachable) blast+


subsection \<open>When the client becomes connected\<close>

lemma state_base [simp]:
  "cl_state (v5_emit e y) = cl_state y" "cl_state (v5_phase_to p y) = cl_state y" "cl_state (v5_resolve sub r y) = cl_state y"
  "cl_state (upd_transport i f y) = cl_state y" "cl_state (set_worker i w y) = cl_state y"
  "cl_state (startDial a y) = cl_state y" "cl_state (scheduleReconnect a y) = cl_state y"
  by (simp_all add: base_defs startDial_def scheduleReconnect_def)

lemma state_eq [simp]: "cl_state (reconnect_later a y) = V5Reconnecting" "cl_state (v5_shutdown r y) = cl_state y"
  by (auto simp: reconnect_later_def v5_shutdown_def v5_setState_def Let_def split: option.splits)

lemma state_loop:
  "cl_state (releaseLiveTransport a y) = V5Connected \<Longrightarrow> cl_state y = V5Connected"
  "cl_state (enterBackoff err a y) = V5Connected \<Longrightarrow> cl_state y = V5Connected"
  "cl_state (activation_failed a err y) = V5Connected \<Longrightarrow> cl_state y = V5Connected"
  by (auto simp: releaseLiveTransport_def enterBackoff_def activation_failed_def
      Let_def split: option.splits)

lemma state_event_turn: "cl_state (v5_event_turn wraps gens e y) = V5Connected \<Longrightarrow> cl_state y = V5Connected"
proof -
  have w: "cl_state (v5_handleSend p so sub y) = cl_state y" "cl_state (v5_handleSubscribe gens k opts sub y) = cl_state y"
      "cl_state (v5_handleUnsubscribe gens k sub y) = cl_state y" for p so sub k opts
    by (rule ctl_state, simp)+
  show "cl_state (v5_event_turn wraps gens e y) = V5Connected \<Longrightarrow> cl_state y = V5Connected"
    by (cases e) (auto simp: v5_event_turn_def w v5_handleDialResult_def v5_handleSessionRead_def v5_handleWorkerFailure_def
        Let_def split: if_splits option.splits dest: state_loop)
qed

lemma becomes_connected:
  assumes "v5_step wraps gens c y = Some y'" "cl_state y \<noteq> V5Connected" "cl_state y' = V5Connected"
  shows "y' = activation_done y \<and> ((\<exists>a. lp_phase y = LoopReady a) \<or> (\<exists>a. lp_phase y = LoopReplay a []) \<and> \<not> vc_OnReady (cl_config y))"
proof (cases "outer_choice c")
  case True
  then show ?thesis using ctl_state [OF ctl_outer [OF True assms(1)]] assms(2,3) by simp
next
  case False
  have s: "send_sync p mt wt z = Some z' \<Longrightarrow> cl_state z' = cl_state z" for p mt wt z z'
    by (auto simp: send_sync_def Let_def)
  show ?thesis using False assms
    by (cases c)
      (auto simp: outer_choice_def v5_Stop_def v5_Run_def sync_returns_def dispose_done_def shutdown_disposed_def shutdown_joined_def
        ready_send_def replayer_Send_def ready_return_def activate_next_def publishInternal_def v5_setState_def Let_def
        split: if_splits option.splits v5_phase.splits list.splits sum.splits dest!: state_event_turn s dest: state_loop)
qed

end
