(* ===== verification/V5_Run.thy ===== *)
theory V5_Run
  imports V5_Replay
begin

text \<open>
  Concrete runs of the client of \<open>internal/core/pkg/wsrefact_v5\<close>, carried out by \<open>v5_step\<close>, the
  state in which its loop and the writer of its connection wait for each other, and the requests
  that a stopped client leaves behind. Then the properties of every reachable state.
\<close>

section \<open>Schedules\<close>

fun v5_runs ::
    "('e \<Rightarrow> 'e v5_error \<Rightarrow> bool) \<Rightarrow> ('g, 'e) v5_gens \<Rightarrow> ('g, 'e) v5_choice list \<Rightarrow> ('g, 'e) v5_loop \<Rightarrow> ('g, 'e) v5_loop option" where
  "v5_runs wraps gens [] y = Some y"
| "v5_runs wraps gens (c # cs) y = (case v5_step wraps gens c y of None \<Rightarrow> None | Some y' \<Rightarrow> v5_runs wraps gens cs y')"

lemma v5_runs_moves: "v5_runs wraps gens cs y = Some y' \<Longrightarrow> (v5_moves wraps gens)\<^sup>*\<^sup>* y y'"
  by (induction cs arbitrary: y)
    (auto split: option.splits intro: converse_rtranclp_into_rtranclp v5_moves)

definition tiny5 :: v5_config where
  "tiny5 = \<lparr>vc_Dialer = None, vc_URL = ''ws'', vc_Header = None, vc_ReadLimit = 0, vc_PongTimeout = 0, vc_PingInterval = 0,
     vc_WriteTimeout = 0, vc_DialTimeout = 0, vc_ReconnectMin = 0, vc_ReconnectMax = 0, vc_EventQueueSize = 1,
     vc_WriteQueueSize = 1, vc_OnMessage = None, vc_OnReady = False\<rparr>"

definition tiny5_client :: "(nat, unit) v5_loop" where
  "tiny5_client = (case v5_New 0 0 tiny5 of Inr y \<Rightarrow> y)"

definition plain_wraps :: "unit \<Rightarrow> unit v5_error \<Rightarrow> bool" where
  "plain_wraps e target = False"

definition echo_gens :: "(nat, unit) v5_gens" where
  "echo_gens n g = Inr ''sub''"

definition tiny5_options :: "nat v5_options" where
  "tiny5_options = \<lparr>so_SubGen = Some 1, so_UnsubGen = Some 2, so_MessageType = 0, so_WriteTimeout = 0\<rparr>"

abbreviation tiny5_runs :: "(nat, unit) v5_choice list \<Rightarrow> (nat, unit) v5_loop option" where
  "tiny5_runs cs \<equiv> v5_runs plain_wraps echo_gens cs tiny5_client"

abbreviation tiny5_moves :: "(nat, unit) v5_loop \<Rightarrow> (nat, unit) v5_loop \<Rightarrow> bool" where
  "tiny5_moves \<equiv> v5_moves plain_wraps echo_gens"

definition after5 :: "(nat, unit) v5_choice list \<Rightarrow> ((nat, unit) v5_loop \<Rightarrow> bool) \<Rightarrow> bool" where
  "after5 cs P = (case tiny5_runs cs of None \<Rightarrow> False | Some y \<Rightarrow> P y)"

lemma tiny5_new: "v5_New 0 0 tiny5 = Inr tiny5_client"
  by (simp add: tiny5_client_def v5_New_def v5_applyDefaults_def tiny5_def Let_def)

lemma after5_reachable:
  assumes "after5 cs P"
  obtains y where "tiny5_moves\<^sup>*\<^sup>* tiny5_client y" "P y"
  using assms by (auto simp: after5_def split: option.splits dest: v5_runs_moves)

lemmas run5_defs = after5_def tiny5_client_def tiny5_def tiny5_options_def echo_gens_def plain_wraps_def
  v5_New_def v5_applyDefaults_def v5_newIntentStore_def chan_defs publishPublic_def submit_def v5_Send_def
  v5_Subscribe_def v5_Stop_def v5_Run_def base_defs reconnect_defs v5_second_def
  publishInternal_def worker_idle_def set_failing_def worker_turn5_def v5_event_turn_def v5_handleDialResult_def fresh_transport_def
  newIOWorker_def newSession_def session_Stop_def activate_next_def activation_done_def intent_snapshot_def v5_handleSend_def v5_handleSubscribe_def
  canRouteWrites_def enqueue_live_def TryEnqueue_def v5_resolveMessageType_def worker_handleRequest_def session_writeOne_def
  runReadLoop_turn_def read_published_def v5_handleSessionRead_def enterBackoff_def releaseLiveTransport_def v5_dial_def
  v5_shutdown_def shutdown_joined_def intent_put_def generate_live_def send_sync_def SendSync_enqueue_def sync_returns_def
  v5_event_def v5_writeOptions_def List.map_filter_simps

section \<open>A loop and a writer that wait for each other\<close>

definition v5_blocked :: "('g, 'e) v5_loop \<Rightarrow> bool" where
  "v5_blocked y \<longleftrightarrow> \<not> cl_cancelled y \<and> cl_started y \<and> chan_full (cl_eventCh y) \<and>
     (case lp_phase y of
        LoopDispose i _ \<Rightarrow> i < length (lp_transports y) \<and>
          (let w = tp_worker (lp_transports y ! i)
           in vw_started w \<and> \<not> vw_disposed w \<and> chan_full (vw_eventCh w) \<and> vw_failing w \<noteq> None)
      | _ \<Rightarrow> False)"

definition connect5 :: "(nat, unit) v5_choice list" where
  "connect5 = [CallRun, DialDone 0 None None, LoopEvent, LoopNext]"

definition block5 :: "(nat, unit) v5_choice list" where
  "block5 = connect5 @ [CallSend ''a'' [], LoopEvent, WriterTurn 0 (Some ()), CallSend ''b'' [], LoopEvent,
     ReaderTurn 0 (Inl ()), ReaderPublish 0, LoopEvent, CallSend ''c'' []]"

lemma block5_blocks: "after5 block5 (\<lambda>y. v5_blocked y \<and> cl_state y = V5Connected)"
  by (simp add: run5_defs block5_def connect5_def v5_blocked_def)


text \<open>A full channel takes nothing more, and a writer with a failure to publish takes no request.\<close>

lemma full_send [simp]: "chan_full ch \<Longrightarrow> chan_send ch e = None" "chan_full ch \<Longrightarrow> chan_try_send ch e = (ch, False)"
  by (simp_all add: chan_send_def chan_try_send_def)

definition frozen5 :: "('g, 'e) v5_loop \<Rightarrow> ('g, 'e) v5_loop \<Rightarrow> bool" where
  "frozen5 y y' \<longleftrightarrow> lp_phase y' = lp_phase y \<and> cl_state y' = cl_state y \<and> cl_eventCh y' = cl_eventCh y \<and> cl_cancelled y' = cl_cancelled y \<and>
     cl_started y' = cl_started y \<and> map tp_worker (lp_transports y') = map tp_worker (lp_transports y)"

lemma blocked_frozen: "frozen5 y y' \<Longrightarrow> v5_blocked y \<Longrightarrow> v5_blocked y'"
proof -
  assume f: "frozen5 y y'" and b: "v5_blocked y"
  from f have m: "map tp_worker (lp_transports y') = map tp_worker (lp_transports y)" by (simp add: frozen5_def)
  then have l: "length (lp_transports y') = length (lp_transports y)" by (rule map_eq_imp_length_eq)
  have "tp_worker (lp_transports y' ! i) = tp_worker (lp_transports y ! i)" if "i < length (lp_transports y)" for i
    using m l that nth_map [of i "lp_transports y" tp_worker] nth_map [of i "lp_transports y'" tp_worker] by simp
  with f b l show ?thesis by (auto simp: v5_blocked_def frozen5_def Let_def split: v5_phase.splits)
qed

lemma frozen_session: "frozen5 y (upd_transport i (\<lambda>t. t\<lparr>tp_session := f t\<rparr>) y)"
  by (simp add: frozen5_def upd_transport_def map_update) (metis (no_types, lifting) list_update_beyond list_update_id map_update
      nth_map not_less length_map)

text \<open>Writers of other connections may still run.\<close>

lemma blocked_other:
  assumes "v5_blocked y" "lp_phase y = LoopDispose i a" "j \<noteq> i" "lp_phase y' = lp_phase y" "cl_state y' = cl_state y"
    "cl_eventCh y' = cl_eventCh y" "cl_cancelled y' = cl_cancelled y" "cl_started y' = cl_started y"
    "lp_transports y' = (lp_transports y)[j := t]"
  shows "v5_blocked y'"
  using assms by (simp add: v5_blocked_def)

lemma blocked_submit: "v5_blocked y \<Longrightarrow> frozen5 y (submit ev y)"
  by (simp add: frozen5_def v5_blocked_def submit_def publishPublic_def Let_def v5_resolve_def)

lemma blocked_step:
  assumes b: "v5_blocked y" and step: "v5_step wraps gens c y = Some y'" and c: "c \<noteq> CallStop"
  shows "v5_blocked y' \<and> lp_phase y' = lp_phase y \<and> cl_state y' = cl_state y"
proof -
  from b obtain i a where p: "lp_phase y = LoopDispose i a" by (auto simp: v5_blocked_def split: v5_phase.splits)
  with b have i: "i < length (lp_transports y)" "vw_failing (tp_worker (lp_transports y ! i)) \<noteq> None"
      "worker_Dispose (tp_worker (lp_transports y ! i)) = None" and full: "chan_full (cl_eventCh y)" "\<not> cl_cancelled y" "cl_started y"
    by (auto simp: v5_blocked_def Let_def worker_Dispose_def)
  have nopub: "publishInternal e z = None" if "cl_eventCh z = cl_eventCh y" for e z using that full(1) by (simp add: publishInternal_def)
  have froz: "?thesis" if "frozen5 y y'" using blocked_frozen [OF that b] that by (simp add: frozen5_def)
  show ?thesis
  proof (cases c)
    case (WriterTurn j answer)
    with step i(2) have "j \<noteq> i" by (auto simp: worker_turn5_def worker_idle_def Let_def split: if_splits)
    from step WriterTurn obtain t where t: "lp_transports y' = (lp_transports y)[j := t]" "lp_phase y' = lp_phase y" "cl_state y' = cl_state y"
        "cl_eventCh y' = cl_eventCh y" "cl_cancelled y' = cl_cancelled y" "cl_started y' = cl_started y"
      by (auto simp: worker_turn5_def Let_def upd_transport_def v5_resolve_def split: if_splits option.splits v5_worker_event.splits prod.splits)
    with blocked_other [OF b p \<open>j \<noteq> i\<close> t(2-6,1)] show ?thesis by simp
  next
    case (WriterPing j answer)
    with step i(2) have "j \<noteq> i" by (auto simp: worker_idle_def split: if_splits)
    from step WriterPing have t: "y' = upd_transport j (worker_handlePing answer) y" by (simp split: if_splits)
    show ?thesis using blocked_other [OF b p \<open>j \<noteq> i\<close>, of y'] t by (simp add: upd_transport_def)
  next
    case (WriterPublish j)
    then show ?thesis using step nopub by (auto simp: set_failing_def upd_transport_def split: if_splits option.splits)
  next
    case (ReaderPublish j)
    then show ?thesis using step nopub by (auto simp: upd_transport_def split: if_splits v5_read.splits)
  next
    case (ReaderTurn j answer)
    then show ?thesis using step frozen_session by (intro froz) (auto split: if_splits)
  next
    case (CallSend q opts)
    then show ?thesis using step blocked_submit [OF b] by (intro froz) (auto simp: v5_Send_def)
  next
    case (CallSubscribe k opts)
    then show ?thesis using step blocked_submit [OF b] by (intro froz) (auto simp: v5_Subscribe_def)
  next
    case (CallUnsubscribe k)
    then show ?thesis using step blocked_submit [OF b] by (intro froz) (auto simp: v5_Unsubscribe_def)
  qed (use step c p i(3) full nopub b in \<open>auto simp: v5_Subscriptions_def publishPublic_def v5_Run_def sync_returns_def dispose_done_def
      split: if_splits option.splits\<close>)
qed

text \<open>All steps but a call of \<open>Stop\<close>.\<close>

definition v5_moves_on :: "('e \<Rightarrow> 'e v5_error \<Rightarrow> bool) \<Rightarrow> ('g, 'e) v5_gens \<Rightarrow> ('g, 'e) v5_loop \<Rightarrow> ('g, 'e) v5_loop \<Rightarrow> bool" where
  "v5_moves_on wraps gens y y' \<longleftrightarrow> (\<exists>c. c \<noteq> CallStop \<and> v5_step wraps gens c y = Some y')"

lemma blocked_forever:
  "(v5_moves_on wraps gens)\<^sup>*\<^sup>* y z \<Longrightarrow> v5_blocked y \<Longrightarrow> v5_blocked z \<and> lp_phase z = lp_phase y \<and> cl_state z = cl_state y"
  by (induction rule: rtranclp_induct) (auto simp: v5_moves_on_def dest: blocked_step)

section \<open>Requests left behind\<close>

text \<open>After the loop has ended nothing takes from the event queue.\<close>

definition left_behind :: "('g, 'e) v5_mux_event \<Rightarrow> ('g, 'e) v5_loop \<Rightarrow> bool" where
  "left_behind e y \<longleftrightarrow> e \<in> set (chan_buf (cl_eventCh y)) \<and> cl_started y \<and> (\<exists>r. lp_phase y = LoopDone r)"

lemma publishInternal_keeps:
  "publishInternal e y = Some y' \<Longrightarrow> set (chan_buf (cl_eventCh y)) \<subseteq> set (chan_buf (cl_eventCh y')) \<and> cl_started y' = cl_started y \<and> lp_phase y' = lp_phase y"
  by (auto simp: publishInternal_def go_chan.send_items)

lemma submit_keeps:
  "set (chan_buf (cl_eventCh y)) \<subseteq> set (chan_buf (cl_eventCh (submit ev y))) \<and> cl_started (submit ev y) = cl_started y \<and>
    lp_phase (submit ev y) = lp_phase y"
  by (auto simp: submit_def publishPublic_def chan_try_send_def go_chan.send_items Let_def v5_resolve_def split: option.splits)


definition queue_keeps :: "('g, 'e) v5_loop \<Rightarrow> ('g, 'e) v5_loop \<Rightarrow> bool" where
  "queue_keeps y y' \<longleftrightarrow> set (chan_buf (cl_eventCh y)) \<subseteq> set (chan_buf (cl_eventCh y')) \<and> cl_started y' = cl_started y \<and> lp_phase y' = lp_phase y"

lemma keeps_left: "queue_keeps y y' \<Longrightarrow> left_behind e y \<Longrightarrow> left_behind e y'"
  by (auto simp: queue_keeps_def left_behind_def)

lemma keeps_calls:
  "queue_keeps y (v5_Send p opts y)" "queue_keeps y (v5_Subscribe k sopts y)" "queue_keeps y (v5_Unsubscribe k y)"
  "queue_keeps y (v5_Stop y)" "queue_keeps y (v5_Subscriptions resp y)"
  using submit_keeps [of y]
  by (auto simp: queue_keeps_def v5_Send_def v5_Subscribe_def v5_Unsubscribe_def v5_Stop_def v5_Subscriptions_def publishPublic_def
      chan_try_send_def go_chan.send_items split: option.splits)

lemma keeps_upd: "queue_keeps y (upd_transport i f y)" "queue_keeps y (set_failing i fl y)"
  by (simp_all add: queue_keeps_def set_failing_def upd_transport_def)

lemma keeps_publish: "publishInternal e z = Some y' \<Longrightarrow> queue_keeps y z \<Longrightarrow> queue_keeps y y'"
  using publishInternal_keeps by (fastforce simp: queue_keeps_def)

lemma keeps_worker_turn: "worker_turn5 i answer y = Some y' \<Longrightarrow> queue_keeps y y'"
  by (auto simp: queue_keeps_def worker_turn5_def Let_def upd_transport_def v5_resolve_def
      split: if_splits option.splits v5_worker_event.splits prod.splits)

lemma left_behind_step:
  assumes l: "left_behind e y" and step: "v5_step wraps gens c y = Some y'"
  shows "left_behind e y'"
proof -
  from l obtain r where r: "cl_started y" "lp_phase y = LoopDone r" by (auto simp: left_behind_def)
  have "queue_keeps y y'"
  proof (cases c)
    case (DialDone a ctx err)
    then obtain ev where "publishInternal ev (y\<lparr>lp_dials := remove1 a (lp_dials y)\<rparr>) = Some y'" using step by (auto split: if_splits)
    then show ?thesis by (rule keeps_publish) (simp add: queue_keeps_def)
  next
    case (TimerDone a)
    then obtain ev where "publishInternal ev (y\<lparr>lp_timers := remove1 a (lp_timers y)\<rparr>) = Some y'" using step by (auto split: if_splits)
    then show ?thesis by (rule keeps_publish) (simp add: queue_keeps_def)
  qed (use step r in \<open>auto simp: keeps_calls keeps_upd v5_Run_def sync_returns_def intro: keeps_worker_turn keeps_publish
      split: if_splits option.splits v5_read.splits, auto simp: queue_keeps_def\<close>)
  then show ?thesis using l by (rule keeps_left)
qed

lemma left_behind_forever: "(v5_moves wraps gens)\<^sup>*\<^sup>* y z \<Longrightarrow> left_behind e y \<Longrightarrow> left_behind e z"
  by (induction rule: rtranclp_induct) (auto elim!: v5_movesE intro: left_behind_step)

definition leave5 :: "(nat, unit) v5_choice list" where
  "leave5 = [CallRun, CallSend ''a'' [], CallStop, LoopCancelled, LoopJoined]"

lemma leave5_leaves: "after5 leave5 (left_behind (SendEvent ''a'' \<lparr>wo_messageType = 1, wo_writeTimeout = 0\<rparr> 0))"
  by (simp add: run5_defs leave5_def left_behind_def)

section \<open>Properties of every reachable state\<close>

lemma queued_member: "e \<in> set (chan_buf ch) \<Longrightarrow> event_sub e = Some sub \<Longrightarrow> sub \<in># queued_subs ch"
  by (auto simp: queued_subs_def intro!: bexI [of _ e])


lemma queued_unresolved:
  assumes "v5_New dialer noop config = Inr y0" and "(v5_moves wraps gens)\<^sup>*\<^sup>* y0 z" and "sub \<in># queued_subs (cl_eventCh z)"
  shows "sub \<notin> fst ` set (cl_resolved z)"
proof
  assume "sub \<in> fst ` set (cl_resolved z)"
  then have r: "sub \<in># mset (map fst (cl_resolved z))" by simp
  have "v5_issued z = mset [0..<cl_next z]"
    using v5_reachable [OF assms(1,2)] by (simp add: v5_ok_def v5_handles_ok_def)
  then have "count (v5_issued z) sub \<le> 1" by (metis count_mset_0_iff distinct_count_atmost_1 distinct_upt le_cases zero_le_one order_refl)
  moreover have "1 \<le> count (queued_subs (cl_eventCh z)) sub" "1 \<le> count (mset (map fst (cl_resolved z))) sub"
    using assms(3) r by (simp_all only: count_greater_eq_one_iff)
  then have "2 \<le> count (v5_issued z) sub" unfolding v5_issued_def count_union by linarith
  ultimately show False by linarith
qed

text \<open>What is still queued when the loop has ended stays there.\<close>

lemma queued_abandoned:
  assumes "v5_New dialer noop config = Inr y0" and "(v5_moves wraps gens)\<^sup>*\<^sup>* y0 y" and "lp_phase y = LoopDone r"
    and "sub \<in># queued_subs (cl_eventCh y)" and "(v5_moves wraps gens)\<^sup>*\<^sup>* y z"
  shows "sub \<in># queued_subs (cl_eventCh z) \<and> sub \<notin> fst ` set (cl_resolved z)"
proof -
  obtain e where e: "e \<in> set (chan_buf (cl_eventCh y))" "event_sub e = Some sub"
    using assms(4) by (auto simp: queued_subs_def option_mset_def split: option.splits if_splits)
  have "cl_started y" using v5_reachable [OF assms(1,2)] assms(3) by (simp add: v5_ok_def v5_conn_ok_def)
  with e(1) assms(3) have "left_behind e y" by (simp add: left_behind_def)
  from left_behind_forever [OF assms(5) this] have "sub \<in># queued_subs (cl_eventCh z)"
    using e(2) by (auto simp: left_behind_def intro: queued_member)
  with queued_unresolved [OF assms(1) rtranclp_trans [OF assms(2,5)]] show ?thesis by blast
qed

text \<open>C27. No completion handle of the v5 client is resolved twice, and every handle is in one
  place: in every state that callers, loop, writers, readers, dials and timers can reach in any
  order, the handles given out are those of the requests in the event queue, of the writes in the
  writer queues and of the resolved ones, each exactly once. That every handle is resolved in the
  end, as the comments of \<open>types.go\<close> say, is not true: the handles that are in the event queue
  when the loop has ended are never resolved, whatever happens afterwards (a run that gets there
  is in \<open>v5_stop_abandons\<close>).\<close>

theorem v5_handles_resolved_once:
  assumes "v5_New dialer noop config = Inr y0" and "(v5_moves wraps gens)\<^sup>*\<^sup>* y0 y"
  shows "queued_subs (cl_eventCh y) + (\<Sum>t\<leftarrow>lp_transports y. transport_subs t) + mset (map fst (cl_resolved y)) =
      mset [0..<cl_next y] \<and> distinct (map fst (cl_resolved y)) \<and>
    (\<forall>r z sub. lp_phase y = LoopDone r \<longrightarrow> (v5_moves wraps gens)\<^sup>*\<^sup>* y z \<longrightarrow> sub \<in># queued_subs (cl_eventCh y) \<longrightarrow>
      sub \<in># queued_subs (cl_eventCh z) \<and> sub \<notin> fst ` set (cl_resolved z))"
proof -
  have all: "v5_issued y = mset [0..<cl_next y]" using v5_reachable [OF assms] by (simp add: v5_ok_def v5_handles_ok_def)
  obtain zs where "mset zs = queued_subs (cl_eventCh y) + (\<Sum>t\<leftarrow>lp_transports y. transport_subs t)" using ex_mset by blast
  with all have "mset (zs @ map fst (cl_resolved y)) = mset [0..<cl_next y]" by (simp add: v5_issued_def)
  then have "distinct (map fst (cl_resolved y))" using mset_eq_imp_distinct_iff distinct_append distinct_upt by metis
  with all queued_abandoned [OF assms] show ?thesis by (simp add: v5_issued_def)
qed

theorem v5_handles_resolved_once_witness:
  "\<exists>y. tiny5_moves\<^sup>*\<^sup>* tiny5_client y \<and> cl_next y = 3 \<and> cl_resolved y = [(0, Some (V5Operation ''write message'' (Some (V5Foreign ()))))] \<and>
     mset [0..<cl_next y] = queued_subs (cl_eventCh y) + (\<Sum>t\<leftarrow>lp_transports y. transport_subs t) + mset (map fst (cl_resolved y))"
proof -
  have "after5 block5 (\<lambda>y. cl_next y = 3 \<and> cl_resolved y = [(0, Some (V5Operation ''write message'' (Some (V5Foreign ()))))])"
    by (simp add: run5_defs block5_def connect5_def)
  from after5_reachable [OF this] obtain y where y: "tiny5_moves\<^sup>*\<^sup>* tiny5_client y" "cl_next y = 3"
    "cl_resolved y = [(0, Some (V5Operation ''write message'' (Some (V5Foreign ()))))]" by blast
  with v5_handles_resolved_once [OF tiny5_new y(1)] show ?thesis by force
qed

text \<open>C28. The v5 client owns at most one of a live connection, a dial and a reconnect timer, with
  its one goroutine or event; the live connection exists, and its public state is Connected
  exactly when the loop selects with a live connection. And it never stalls: a client that waits
  for events and is not stopped has one of the three.\<close>

theorem v5_one_connection:
  assumes "v5_New dialer noop config = Inr y0" and "(v5_moves wraps gens)\<^sup>*\<^sup>* y0 y"
  shows "of_bool (lp_live y \<noteq> None) + of_bool (lp_dialing y) + of_bool (lp_waiting y) \<le> (1 :: nat) \<and>
    length (lp_dials y) + dial_events y \<le> of_bool (lp_dialing y) \<and>
    length (lp_timers y) + tick_events y \<le> of_bool (lp_waiting y) \<and>
    (\<forall>i. lp_live y = Some i \<longrightarrow> i < length (lp_transports y)) \<and>
    (lp_phase y = LoopSelect \<longrightarrow> (cl_state y = V5Connected \<longleftrightarrow> lp_live y \<noteq> None)) \<and>
    (lp_phase y = LoopSelect \<and> \<not> cl_cancelled y \<longrightarrow>
       lp_live y \<noteq> None \<or> length (lp_dials y) + dial_events y = 1 \<or> length (lp_timers y) + tick_events y = 1)"
proof -
  have ok: "v5_conn_ok y" using v5_reachable [OF assms] by (simp add: v5_ok_def)
  then have "one_conn y" and dial: "in_flight (lp_dialing y) (lp_dials y) (dial_events y) (cl_cancelled y)"
    and tick: "in_flight (lp_waiting y) (lp_timers y) (tick_events y) (cl_cancelled y)"
    and live: "\<forall>i. lp_live y = Some i \<longrightarrow> i < length (lp_transports y)" by (simp_all add: v5_conn_ok_def)
  have sel: "cl_state y = (if lp_live y = None then V5Reconnecting else V5Connected)" "\<not> cl_cancelled y \<Longrightarrow> some_conn y"
    if "lp_phase y = LoopSelect" using ok that by (simp_all add: v5_conn_ok_def)
  have "of_bool (lp_live y \<noteq> None) + of_bool (lp_dialing y) + of_bool (lp_waiting y) \<le> (1 :: nat)"
    using \<open>one_conn y\<close> by (auto simp: one_conn_def)
  moreover have "length (lp_dials y) + dial_events y \<le> of_bool (lp_dialing y)" "length (lp_timers y) + tick_events y \<le> of_bool (lp_waiting y)"
    using dial tick by (auto simp: in_flight_def split: if_splits)
  moreover have "lp_live y \<noteq> None \<or> length (lp_dials y) + dial_events y = 1 \<or> length (lp_timers y) + tick_events y = 1"
    if "lp_phase y = LoopSelect" "\<not> cl_cancelled y"
    using sel(2) [OF that] dial tick that(2) by (auto simp: some_conn_def in_flight_def)
  ultimately show ?thesis using live sel(1) by auto
qed

theorem v5_one_connection_witness:
  "\<exists>y. tiny5_moves\<^sup>*\<^sup>* tiny5_client y \<and> lp_phase y = LoopSelect \<and> cl_state y = V5Connected \<and> lp_live y \<noteq> None \<and>
     \<not> lp_dialing y \<and> \<not> lp_waiting y"
proof -
  have "after5 connect5 (\<lambda>y. lp_phase y = LoopSelect \<and> cl_state y = V5Connected)" by (simp add: run5_defs connect5_def)
  from after5_reachable [OF this] obtain y where y: "tiny5_moves\<^sup>*\<^sup>* tiny5_client y" "lp_phase y = LoopSelect" "cl_state y = V5Connected"
    by blast
  with v5_one_connection [OF tiny5_new y(1)] show ?thesis by (auto simp: of_bool_def split: if_splits)
qed

text \<open>C29. Replay: when the v5 client becomes connected, the frames written on the new connection
  (other than pings) begin with the subscribe frame of every stored subscription, generated anew,
  each exactly once and in the order in which the callers subscribed. There
  are others only when the \<open>OnReady\<close> hook has just returned.\<close>

theorem v5_replay_complete:
  assumes "v5_New dialer noop config = Inr y0" and "(v5_moves wraps gens)\<^sup>*\<^sup>* y0 y"
    and "v5_step wraps gens c y = Some y'" and "cl_state y \<noteq> V5Connected" "cl_state y' = V5Connected"
  shows "\<exists>i replay rest. lp_live y' = Some i \<and> i < length (lp_transports y') \<and>
    data_frames (vn_frames (tp_session (lp_transports y' ! i))) = replay @ rest \<and>
    list_all2 (sent_for gens (vn_writeTimeout (tp_session (lp_transports y' ! i)))) (intent_snapshot (lp_store y')) replay \<and>
    ((\<exists>a. lp_phase y = LoopReady a) \<or> rest = [])"
proof -
  have ok: "v5_conn_ok y" "v5_replay_ok gens y" using v5_reachable [OF assms(1,2)] by (simp_all add: v5_ok_def)
  have y': "y' = activation_done y" and ph: "(\<exists>a. lp_phase y = LoopReady a) \<or> (\<exists>a. lp_phase y = LoopReplay a []) \<and> \<not> vc_OnReady (cl_config y)"
    using becomes_connected [OF assms(3-5)] by simp_all
  from ph have "activating y" by (auto simp: activating_def)
  then obtain i where live: "lp_live y = Some i" using activating_live [OF ok(1)] by auto
  then have i: "i < length (lp_transports y)" using live_index ok(1) by blast
  have same: "lp_live y' = lp_live y" "lp_transports y' = lp_transports y" "lp_store y' = lp_store y" "cl_config y' = cl_config y"
    by (simp_all add: y' activation_done_def base_defs)
  obtain q fs w where v: "t_views y ! i = (q, fs, w)" by (cases "t_views y ! i") auto
  then have fs: "fs = data_frames (vn_frames (tp_session (lp_transports y ! i)))" "w = vn_writeTimeout (tp_session (lp_transports y ! i))"
    using i by (auto simp: t_views_def t_view_def)
  have "\<exists>replay rest. fs = replay @ rest \<and> list_all2 (sent_for gens w) (intent_snapshot (lp_store y)) replay \<and>
      ((\<exists>a. lp_phase y = LoopReady a) \<or> rest = [])"
    using ph
  proof
    assume "(\<exists>a. lp_phase y = LoopReplay a []) \<and> \<not> vc_OnReady (cl_config y)"
    then show ?thesis using ok(2) live v by (auto simp: live_default)
  next
    assume "\<exists>a. lp_phase y = LoopReady a"
    then show ?thesis using ok(2) live v by (auto simp: live_default)
  qed
  then show ?thesis using live i fs same by auto
qed


definition replay5 :: "(nat, unit) v5_choice list" where
  "replay5 = [CallRun, CallSubscribe ''k'' tiny5_options, LoopEvent, DialDone 0 None None, LoopEvent, LoopNext,
     WriterTurn 0 None, LoopSync]"

theorem v5_replay_complete_witness:
  "\<exists>y y' i f. tiny5_moves\<^sup>*\<^sup>* tiny5_client y \<and> v5_step plain_wraps echo_gens LoopNext y = Some y' \<and> lp_live y' = Some i \<and>
     map vi_key (intent_snapshot (lp_store y')) = [''k''] \<and>
     data_frames (vn_frames (tp_session (lp_transports y' ! i))) = [f]"
proof -
  have "after5 replay5 (\<lambda>y. lp_phase y = LoopReplay 0 [] \<and> cl_state y = V5Reconnecting \<and>
      (case v5_step plain_wraps echo_gens LoopNext y of None \<Rightarrow> False | Some y' \<Rightarrow>
        cl_state y' = V5Connected \<and> map vi_key (intent_snapshot (lp_store y')) = [''k'']))"
    by (simp add: run5_defs replay5_def)
  from after5_reachable [OF this] obtain y where r: "tiny5_moves\<^sup>*\<^sup>* tiny5_client y" "lp_phase y = LoopReplay 0 []" "cl_state y = V5Reconnecting"
    and s: "case v5_step plain_wraps echo_gens LoopNext y of None \<Rightarrow> False | Some y' \<Rightarrow>
        cl_state y' = V5Connected \<and> map vi_key (intent_snapshot (lp_store y')) = [''k'']" by blast
  from s obtain y' where "v5_step plain_wraps echo_gens LoopNext y = Some y'" "cl_state y' = V5Connected"
    "map vi_key (intent_snapshot (lp_store y')) = [''k'']" by (cases "v5_step plain_wraps echo_gens LoopNext y") auto
  with r have y: "tiny5_moves\<^sup>*\<^sup>* tiny5_client y" "lp_phase y = LoopReplay 0 []"
    "cl_state y \<noteq> V5Connected" "v5_step plain_wraps echo_gens LoopNext y = Some y'" "cl_state y' = V5Connected"
    "map vi_key (intent_snapshot (lp_store y')) = [''k'']" by simp_all
  from v5_replay_complete [OF tiny5_new y(1,4,3,5)] y(2) obtain i replay where r: "lp_live y' = Some i"
    "data_frames (vn_frames (tp_session (lp_transports y' ! i))) = replay"
    "list_all2 (sent_for echo_gens (vn_writeTimeout (tp_session (lp_transports y' ! i)))) (intent_snapshot (lp_store y')) replay" by auto
  from y(6) list_all2_lengthD [OF r(3)] have "length replay = Suc 0" by (metis length_map length_Cons list.size(3))
  then obtain f where f: "replay = [f]" by (auto simp: length_Suc_conv)
  show ?thesis
  proof (intro exI conjI)
    show "data_frames (vn_frames (tp_session (lp_transports y' ! i))) = [f]" using r(2) f by (rule trans)
  qed (rule y r)+
qed

text \<open>C30. The v5 client can hang: it reaches a state, with a failed connection, in which the loop waits
  for room in the queue of the writer, and the writer for room in the event queue that only the
  loop empties. Whatever anyone does but call \<open>Stop\<close>, it stays there and reports Connected.\<close>

theorem v5_dispose_deadlock:
  "\<exists>config y0 y i a. v5_New 0 0 config = Inr y0 \<and> (v5_moves plain_wraps echo_gens)\<^sup>*\<^sup>* y0 y \<and> lp_phase y = LoopDispose i a \<and>
     {z. (v5_moves_on plain_wraps echo_gens)\<^sup>*\<^sup>* y z} \<subseteq>
     {z. lp_phase z = LoopDispose i a \<and> cl_state z = V5Connected \<and> v5_blocked z \<and> v5_step plain_wraps echo_gens LoopDisposed z = None}"
proof -
  from after5_reachable [OF block5_blocks] obtain y where y: "tiny5_moves\<^sup>*\<^sup>* tiny5_client y" "v5_blocked y" "cl_state y = V5Connected"
    by blast
  from y(2) obtain i a where p: "lp_phase y = LoopDispose i a" by (auto simp: v5_blocked_def split: v5_phase.splits)
  have "{z. (v5_moves_on plain_wraps echo_gens)\<^sup>*\<^sup>* y z} \<subseteq>
     {z. lp_phase z = LoopDispose i a \<and> cl_state z = V5Connected \<and> v5_blocked z \<and> v5_step plain_wraps echo_gens LoopDisposed z = None}"
  proof (intro subsetI CollectI)
    fix z assume "z \<in> {z. (v5_moves_on plain_wraps echo_gens)\<^sup>*\<^sup>* y z}"
    with blocked_forever [OF _ y(2)] p y(3) have z: "v5_blocked z" "lp_phase z = LoopDispose i a" "cl_state z = V5Connected" by auto
    then have "worker_Dispose (tp_worker (lp_transports z ! i)) = None" by (auto simp: v5_blocked_def worker_Dispose_def Let_def)
    with z show "lp_phase z = LoopDispose i a \<and> cl_state z = V5Connected \<and> v5_blocked z \<and> v5_step plain_wraps echo_gens LoopDisposed z = None"
      by (simp add: dispose_done_def)
  qed
  with tiny5_new y(1) p show ?thesis by blast
qed

text \<open>A request that is still queued when the loop ends is never resolved.\<close>

theorem v5_stop_abandons:
  "\<exists>y. tiny5_moves\<^sup>*\<^sup>* tiny5_client y \<and> {z. tiny5_moves\<^sup>*\<^sup>* y z} \<subseteq> {z. 0 \<notin> fst ` set (cl_resolved z)} \<and> 0 < cl_next y"
proof -
  let ?e = "SendEvent ''a'' \<lparr>wo_messageType = 1, wo_writeTimeout = 0\<rparr> 0"
  have "after5 leave5 (\<lambda>y. left_behind ?e y \<and> 0 < cl_next y)" by (simp add: run5_defs leave5_def left_behind_def)
  from after5_reachable [OF this] obtain y where y: "tiny5_moves\<^sup>*\<^sup>* tiny5_client y" "left_behind ?e y" "0 < cl_next y" by blast
  have "0 \<notin> fst ` set (cl_resolved z)" if z: "tiny5_moves\<^sup>*\<^sup>* y z" for z
  proof (rule queued_unresolved [OF tiny5_new rtranclp_trans [OF y(1) z]])
    show "0 \<in># queued_subs (cl_eventCh z)"
      using left_behind_forever [OF z y(2)] by (auto simp: left_behind_def intro: queued_member [where e = ?e])
  qed
  with y show ?thesis by blast
qed

end
