(* ===== verification/Spec2Isabelle.thy ===== *)
theory Spec2Isabelle
  imports Engine_System Ring_Buffer Gateway Config_Service KIS_Chart LS_Client WS_Mux_Run WS_Replay_Sync WS_Supervisor
    LS_Exchange LS2_Chart V5_Run
begin

text \<open>
  A verification development for the trading terminal in \<open>src/internal\<close> (Go). This root theory
  holds the properties that span components; every other theory models one part.

  \<^bold>\<open>The program.\<close> Brokers stream ticks, execution notices and connection events into channels.
  The engine is one goroutine that reads these channels, keeps prices, orders and balances, and
  asks a strategy for signals; a worker goroutine carries out the REST calls that the engine asks
  for. The KIS broker reads its own wire format over the reconnecting websocket transport
  \<open>core/pkg/websocket\<close>. The LS broker is a stack of three layers: a client with local subscribers
  over a realtime service, which places routes on connections, each of which is a reconnecting
  multiplexer (\<open>core/pkg/wsrefact_v6\<close>). The gateway manages the life of the brokers and converts
  the messages of LS to domain messages.

  \<^bold>\<open>Theories and sources\<close> (below \<open>src/internal\<close>).
  \<^item> \<open>HTS_Prelude\<close>, \<open>Go_Text\<close>, \<open>Go_Float\<close>, \<open>Base64\<close>: what the sources use of Go. 64-bit integers are
    \<open>int\<close> with \<open>wrap64\<close>, map iteration takes the order of the keys as an argument, a channel is a
    bounded buffer, a \<open>float64\<close> is the rational it denotes, rounded by \<open>fl64\<close>. The locales
    \<open>bounded_fifo\<close> (channels) and \<open>invariant_system\<close> (init, step, invariant) are here.
  \<^item> \<open>Trading_Types\<close>: \<open>core/domain\<close> and the requests and responses of \<open>core/exchange\<close>.
  \<^item> \<open>Price_Store\<close>, \<open>Balance_Manager\<close>, \<open>Order_Tracker\<close>, \<open>Theme_Strategy\<close>: \<open>core/pricestore\<close>,
    \<open>core/balancemgr\<close>, \<open>core/ordertracker\<close>, \<open>core/strategy\<close>, one function per method.
  \<^item> \<open>IO_Worker\<close>, \<open>Engine\<close>, \<open>Engine_System\<close>: \<open>core/ioworker\<close> and \<open>core/engine\<close>; the handlers, and
    engine and worker as two goroutines over the channels (\<open>io_step\<close>).
  \<^item> \<open>Exchange_Base\<close>, \<open>Gateway\<close>, \<open>Subscription_Manager\<close>, \<open>Circuit_Breaker\<close>, \<open>Ring_Buffer\<close>,
    \<open>Config_Service\<close>: \<open>core/exchange\<close>, \<open>core/gateway\<close>, \<open>core/pkg/subscription\<close>,
    \<open>core/pkg/circuitbreaker\<close>, \<open>core/pkg/ringbuffer\<close>, \<open>core/service/config\<close>.
  \<^item> \<open>KIS_Parser\<close>, \<open>KIS_Broker\<close>, \<open>KIS_Rest\<close>, \<open>KIS_Chart\<close>: \<open>adapter/broker/kis\<close>.
  \<^item> \<open>LS_Types\<close>, \<open>LS_Registry\<close>, \<open>LS_Realtime\<close>: \<open>adapter/broker/ls/api/ws\<close>; \<open>LS_Client\<close>:
    \<open>adapter/broker/ls/client\<close>. The locale \<open>realtime_feed\<close> is what the client relies on.
  \<^item> \<open>LS_Decimal\<close>, \<open>LS_Rest\<close>: \<open>adapter/broker/ls/api/rest\<close>, the token service \<open>api/auth\<close> and the
    errors \<open>api/common/error\<close>; \<open>LS_Exchange\<close>: \<open>adapter/exchange/ls\<close>. The locale \<open>rate_reader\<close> is
    what the readers of LS and KIS rates have in common.
  \<^item> \<open>LS2_Types\<close>, \<open>LS2_Rest\<close>, \<open>LS2_Chart\<close>: \<open>adapter/broker/ls_v2/api\<close>; structs that equal those of
    \<open>LS_Rest\<close> are not repeated. The locales \<open>prepended_chart\<close> and \<open>appended_chart\<close> are the contracts
    of the continuation loops.
  \<^item> \<open>WS_Mux\<close>, \<open>WS_Mux_System\<close>, \<open>WS_Mux_Safety\<close>, \<open>WS_Mux_Props\<close>, \<open>WS_Mux_Run\<close>:
    \<open>core/pkg/wsrefact_v6\<close>; handlers, goroutines as steps, invariant, properties, concrete runs.
  \<^item> \<open>V5_Types\<close>, \<open>V5_Client\<close>, \<open>V5_System\<close>, \<open>V5_Props\<close>, \<open>V5_Replay\<close>, \<open>V5_Run\<close>: \<open>core/pkg/wsrefact_v5\<close>, the
    single-loop client; vocabulary and store, handlers, steps, the account of handles, the
    activation, concrete runs. \<open>Multiset_Sums\<close> is shared with the multiplexer.
  \<^item> \<open>WS_Common\<close>, \<open>WS_Replay\<close>, \<open>WS_Replay_Sync\<close>, \<open>WS_Supervisor\<close>, \<open>Backoff\<close>:
    \<open>core/pkg/websocket\<close> (and the reconnect delay of the multiplexer).

  A struct is a record with the fields of the code under a prefix, an enum or an error variable a
  datatype, a method a function from the old state and its arguments to the new state and its
  results. A panic or a call that never returns is \<open>None\<close>.

  \<^bold>\<open>What is shown.\<close> Per component: an invariant that every operation keeps; the functional
  behaviour of the operations (cash ledger, last tick, decisive notice, reconciliation,
  refinement of reference counts, accounts and intent logs to sets and maps); round trips of
  parsers, requests, encryption and configuration files. For the concurrent parts (engine and
  worker, breaker, gateway, ring buffer, LS registry, multiplexer, v5 client, replay log) the properties hold
  in every interleaving of the steps; the ring has any number of producers and consumers, down to
  single atomic operations. A run of the engine starts with registered accounts and is compared
  with an independent account of prices, cash, finished orders and requests. Across components: a packet on the wire becomes one domain
  tick, an order accepted by the exchange ends filled in tracker and balance.

  Locales: \<open>bounded_fifo\<close> is interpreted by the Go channels (\<open>go_chan\<close>), \<open>realtime_feed\<close> by the
  realtime service (\<open>ls_feed\<close>), \<open>rate_reader\<close> by both brokers (\<open>ls_rate\<close>, \<open>kis_rate\<close>),
  the chart locales by the five continuation loops of \<open>LS2_Chart\<close>,
  \<open>intent_log\<close> by the store of the v5 client (\<open>v5_log\<close>),
  \<open>invariant_system\<close> by the LS registry (\<open>ls_reg\<close>), the multiplexer
  (\<open>ws_mux\<close>), the v5 client (\<open>v5_sys\<close>), the replaying transport (\<open>ws_replay\<close>) and the ring buffer
  (\<open>ring\<close>).

  Where the code does not do what its comments say, a theorem states what it does: finished orders
  stay in the tracker (\<open>tracker_reconcile\<close>), a held stock can be bought again
  (\<open>theme_buys_held\<close>), thresholds of an exit count a hundredfold (\<open>theme_exit_sound\<close>), all records
  of a message but the first are lost (\<open>kis_trade_records_lost\<close>), handles queued when the v5 loop
  ends are never resolved (\<open>v5_handles_resolved_once\<close>), the ring overwrites what a consumer that
  has not started to read has not read (\<open>ring_overwrites_unread\<close>).

  \<^bold>\<open>Bounds.\<close> The page loop of the minute chart runs on fuel; 153001 rounds are enough for every
  server whose times are six digits (\<open>kis_chart_terminates\<close>). Engine and worker cannot block
  each other below 129 outstanding requests, the buffers being 64 each. The ring counts fewer than
  \<open>2 ^ 63\<close> calls, so that sequence numbers do not wrap, and needs nothing of its consumers up to
  65536 calls; from then on each must have read something.

  \<^bold>\<open>Arguments of the model.\<close> Code outside the repository: JSON decoders, AES and key derivation,
  HTTP requesters, the dialer, connections, contexts, clocks, random numbers, file and YAML
  input and output, \<open>time.LoadLocation\<close>. Every theorem holds for all their answers unless it says
  otherwise.

  \<^bold>\<open>Deviations.\<close> \<open>parse_float\<close> knows neither hexadecimal floats nor infinities and NaN. Times are
  unbounded integers. Where a handler reads the clock twice, one reading stands for both. A
  subscription of the LS client with the connection below it is one step. A shutdown of the
  multiplexer ends its loop in one step, after which the workers empty their mailboxes; ticks of
  a cancelled heartbeat may still come. The number of a reconnect attempt of the multiplexer does
  not overflow. The loop of the v5 client waits in named phases; its goroutines run between them.
  A configuration that is written and read back as JSON is unchanged, which supposes text in UTF-8.
  The write of a slot of the ring, several fields in Go, is one step: no other goroutine
  touches the slot meanwhile.

  \<^bold>\<open>Not modelled.\<close> Kiwoom (one raw HTTP call and its token service); \<open>wsrefact\<close> to \<open>wsrefact_v4\<close> (superseded
  designs of the same connection handling that nothing imports); \<open>core/pkg/security\<close>, \<open>core/pkg/utils\<close>, the
  logger, and the programs under \<open>cmd\<close>.
\<close>

section \<open>The engine and its stores\<close>

fun ticks_of :: "'err turn list \<Rightarrow> tick_event list" where
  "ticks_of [] = []"
| "ticks_of ((now, it, EvTick t) # evs) = t # ticks_of evs"
| "ticks_of (_ # evs) = ticks_of evs"

fun execs_of :: "'err turn list \<Rightarrow> exec_event list" where
  "execs_of [] = []"
| "execs_of ((now, it, EvExec x) # evs) = x # execs_of evs"
| "execs_of (_ # evs) = execs_of evs"

fun rebases :: "string \<Rightarrow> 'err engine_event \<Rightarrow> bool" where
  "rebases a (EvBaseline b) = (br_AccountID b = a \<and> br_Err b = None \<and> br_Balance b \<noteq> None)"
| "rebases a _ = False"

fun registers :: "string \<Rightarrow> 'err engine_event \<Rightarrow> bool" where
  "registers oid (EvResult r) = (at_Err r = None \<and> map_option ors_OrderID (at_Response r) = Some oid)"
| "registers oid _ = False"

lemma run_prices:
  "eg_prices (fst (engine_run impl e evs)) = fold (\<lambda>t s. ps_Update s t) (ticks_of evs) (eg_prices e)"
  by (induction evs arbitrary: e rule: ticks_of.induct)
     (auto simp: engine_run_Cons handle_prices simp del: engine_run.simps(2) engine_handle.simps)

lemma handle_cash:
  assumes "engine_ok e" and "bm_HasBaseline (eg_balances e) a" and "\<not> rebases a ev"
  shows "bm_GetCash (eg_balances (fst (engine_handle impl now it e ev))) a =
      wrap64 (bm_GetCash (eg_balances e) a + (case ev of EvExec x \<Rightarrow> cash_delta a x | _ \<Rightarrow> 0))"
    and "bm_HasBaseline (eg_balances (fst (engine_handle impl now it e ev))) a"
proof -
  have ok: "bm_ok (eg_balances e)" using assms(1) by (simp add: engine_ok_def)
  have "bm_GetCash (eg_balances (fst (engine_handle impl now it e ev))) a =
      wrap64 (bm_GetCash (eg_balances e) a + (case ev of EvExec x \<Rightarrow> cash_delta a x | _ \<Rightarrow> 0)) \<and>
    bm_HasBaseline (eg_balances (fst (engine_handle impl now it e ev))) a"
  proof (cases ev)
    case (EvExec x)
    with bm_Apply_cash [OF assms(2) ok, of x] assms(2) show ?thesis
      by (simp add: handle_balances del: engine_handle.simps)
  next
    case (EvBaseline b)
    then have "br_Err b = None \<Longrightarrow> bm_SetBaseline now (eg_balances e) (br_AccountID b) (br_Balance b) a
        = eg_balances e a"
      using assms(3) by (intro bm_SetBaseline_other) auto
    with EvBaseline assms(2) bm_GetCash_in64 [OF ok assms(2)] show ?thesis
      by (auto simp: handle_balances bm_GetCash_def bm_HasBaseline_def simp del: engine_handle.simps)
  qed (use assms(2) bm_GetCash_in64 [OF ok assms(2)] in \<open>simp_all add: handle_balances del: engine_handle.simps\<close>)
  then show "bm_GetCash (eg_balances (fst (engine_handle impl now it e ev))) a =
      wrap64 (bm_GetCash (eg_balances e) a + (case ev of EvExec x \<Rightarrow> cash_delta a x | _ \<Rightarrow> 0))"
    and "bm_HasBaseline (eg_balances (fst (engine_handle impl now it e ev))) a" by blast+
qed

lemma execs_of_Cons:
  "execs_of ((now, it, ev) # evs) = (case ev of EvExec x \<Rightarrow> [x] | _ \<Rightarrow> []) @ execs_of evs"
  by (cases ev) simp_all

lemma run_cash:
  assumes "engine_ok e" and "turns_ok impl e evs" and "bm_HasBaseline (eg_balances e) a"
    and "\<forall>(now, it, ev)\<in>set evs. \<not> rebases a ev"
  shows "bm_GetCash (eg_balances (fst (engine_run impl e evs))) a =
    wrap64 (bm_GetCash (eg_balances e) a + (\<Sum>x\<leftarrow>execs_of evs. cash_delta a x))"
  using assms
proof (induction evs arbitrary: e)
  case Nil
  then show ?case by (simp add: bm_GetCash_in64 engine_ok_def)
next
  case (Cons turn evs)
  obtain now it ev where t: "turn = (now, it, ev)" by (cases turn)
  let ?e = "fst (engine_handle impl now it e ev)"
  have "\<not> rebases a ev" using Cons.prems(4) t by auto
  note h = handle_cash [OF Cons.prems(1,3) this, of impl now it]
  have "bm_GetCash (eg_balances (fst (engine_run impl ?e evs))) a =
      wrap64 (bm_GetCash (eg_balances ?e) a + (\<Sum>x\<leftarrow>execs_of evs. cash_delta a x))"
    by (rule Cons.IH [OF engine_ok_handle]) (use Cons.prems h(2) t in auto)
  moreover have "(case ev of EvExec x \<Rightarrow> cash_delta a x | _ \<Rightarrow> 0) =
      (\<Sum>x\<leftarrow>(case ev of EvExec x \<Rightarrow> [x] | _ \<Rightarrow> []). cash_delta a x)" by (cases ev) simp_all
  ultimately show ?case
    by (simp add: t engine_run_Cons h(1) execs_of_Cons add.assoc del: engine_run.simps(2) engine_handle.simps)
qed

lemma handle_terminal:
  assumes "eg_orders e oid = Some ord" and "isTerminal (to_Status ord)" and "\<not> registers oid ev"
    and "iteration_ok impl now it e ev"
  shows "eg_orders (fst (engine_handle impl now it e ev)) oid = Some ord"
proof (cases ev)
  case (EvExec x)
  with assms(1,2) show ?thesis by (simp add: handle_orders ot_Apply_terminal del: engine_handle.simps)
next
  case (EvBaseline b)
  have "ot_Reconcile impl now (it_reconcileKeys it) (eg_orders e) (br_AccountID b) ords oid = Some ord"
    if "br_Orders b = Some ords" for ords
  proof -
    have r: "range_order (it_reconcileKeys it) (reconcile_add impl now (br_AccountID b) ords (eg_orders e))"
      using assms(4) EvBaseline that by (simp add: iteration_ok_def)
    show ?thesis using assms(1,2) by (simp add: ot_Reconcile_lookup [OF r] reconcile_add_lookup)
  qed
  with EvBaseline assms(1) show ?thesis
    by (simp add: handle_orders del: engine_handle.simps split: option.splits)
next
  case (EvResult r)
  with assms(1,3) show ?thesis
    by (auto simp: handle_orders ot_Register_def simp del: engine_handle.simps split: option.splits)
qed (use assms(1) in \<open>simp_all add: handle_orders del: engine_handle.simps\<close>)

text \<open>An independent account of what the stores should hold. \<open>start_accounts\<close> is a start of the
  program: a new engine with its accounts registered. \<open>account_cash\<close> keeps the cash of one
  account over a list of events with exact integers: unknown before its first baseline, the cash
  of a baseline, then plus every sale and minus every purchase. \<open>refresh_due\<close> lists the
  accounts that an event makes the engine refresh.\<close>

definition start_accounts :: "strategy \<Rightarrow> int \<Rightarrow> bool \<Rightarrow> (string \<times> 'b) list \<Rightarrow> 'b engine" where
  "start_accounts strat poll dry accts =
     fold (\<lambda>(accountID, broker) e. RegisterAccount e accountID broker) accts (engine_New strat poll dry)"

fun account_cash :: "string \<Rightarrow> int option \<Rightarrow> 'err turn list \<Rightarrow> int option" where
  "account_cash a known [] = known"
| "account_cash a known ((now, it, ev) # evs) =
     account_cash a
       (case ev of
          EvBaseline b \<Rightarrow> (if rebases a ev then map_option ba_CashBalance (br_Balance b) else known)
        | EvExec x \<Rightarrow> map_option (\<lambda>c. c + cash_delta a x) known
        | _ \<Rightarrow> known) evs"

fun refresh_due :: "(string \<rightharpoonup> 'b) \<Rightarrow> 'err turn \<Rightarrow> string list" where
  "refresh_due accts (now, it, EvStatus s) =
     (if se_Status s = StatusConnected \<and> accts (se_AccountID s) \<noteq> None then [se_AccountID s] else [])"
| "refresh_due accts (now, it, EvPoll) = it_pollKeys it"
| "refresh_due accts (now, it, _) = []"

fun refreshes :: "'b io_request list \<Rightarrow> string list" where
  "refreshes [] = []"
| "refreshes (Refresh r # qs) = rr_AccountID r # refreshes qs"
| "refreshes (Action a # qs) = refreshes qs"

lemma start_fold:
  "fold (\<lambda>(accountID, broker) e. RegisterAccount e accountID broker) accts e =
    e\<lparr>eg_accounts := eg_accounts e ++ map_of (rev accts)\<rparr>"
proof (induction accts arbitrary: e)
  case Nil
  then show ?case by simp
next
  case (Cons ab accts)
  then show ?case by (cases ab) (simp add: RegisterAccount_def map_add_upd_left [symmetric] map_add_def fun_eq_iff split: option.splits)
qed

lemma start_sel [simp]:
  "eg_prices (start_accounts strat poll dry accts) = ps_New"
  "eg_orders (start_accounts strat poll dry accts) = ot_New"
  "eg_balances (start_accounts strat poll dry accts) = bm_New"
  "eg_accounts (start_accounts strat poll dry accts) = map_of (rev accts)"
  "eg_dryRun (start_accounts strat poll dry accts) = dry"
  by (simp_all add: start_accounts_def start_fold engine_New_def)

lemma engine_ok_start: "engine_ok (start_accounts strat poll dry accts)"
  using engine_ok_New [of strat poll dry] by (simp add: engine_ok_def engine_New_def)

lemma refreshes_append [simp]: "refreshes (xs @ ys) = refreshes xs @ refreshes ys"
  by (induction xs rule: refreshes.induct) simp_all

lemma refreshes_dispatch [simp]: "refreshes (dispatch_all it e sigs) = []"
proof -
  have "refreshes qs = []" if "\<forall>q\<in>set qs. \<exists>a. q = Action a" for qs :: "'a io_request list"
    using that by (induction qs rule: refreshes.induct) auto
  moreover have "\<exists>a. q = Action a" if "q \<in> set (dispatch_all it e sigs)" for q
    using that by (auto simp: dispatch_all_def dispatchSignal_def split: option.splits prod.splits if_splits)
  ultimately show ?thesis by blast
qed

lemma handle_refreshes:
  assumes "range_order (it_pollKeys it) (eg_accounts e)"
  shows "refreshes (snd (engine_handle impl now it e ev)) = refresh_due (eg_accounts e) (now, it, ev)"
proof (cases ev)
  case EvPoll
  have "refreshes (concat (map (\<lambda>aid. case eg_accounts e aid of
            None \<Rightarrow> []
          | Some broker \<Rightarrow> [Refresh \<lparr>rr_AccountID = aid, rr_Broker = broker\<rparr>]) ks)) = ks"
    if "set ks \<subseteq> dom (eg_accounts e)" for ks
    using that by (induction ks) auto
  from this [of "it_pollKeys it"] assms EvPoll show ?thesis by (simp add: handlePoll_def range_order_def)
qed (auto simp: handleTick_def handleExec_def handleStatus_def handleError_def handleBaseline_def
    handleResult_def Let_def split: option.splits)

lemma run_refreshes:
  "turns_ok impl e evs \<Longrightarrow>
    refreshes (snd (engine_run impl e evs)) = concat (map (refresh_due (eg_accounts e)) evs)"
proof (induction evs arbitrary: e)
  case (Cons turn evs)
  obtain now it ev where t: "turn = (now, it, ev)" by (cases turn)
  with Cons.prems have "range_order (it_pollKeys it) (eg_accounts e)"
    and ok: "turns_ok impl (fst (engine_handle impl now it e ev)) evs" by (simp_all add: iteration_ok_def)
  with handle_refreshes Cons.IH [OF ok] t show ?case
    by (simp add: engine_run_Cons del: engine_run.simps(2) engine_handle.simps)
qed simp

definition known_cash :: "balance_mgr \<Rightarrow> string \<Rightarrow> int option" where
  "known_cash m a = (if bm_HasBaseline m a then Some (bm_GetCash m a) else None)"

lemma handle_known:
  assumes "engine_ok e" and "event_in64 ev"
  shows "known_cash (eg_balances (fst (engine_handle impl now it e ev))) a =
    (case ev of
       EvBaseline b \<Rightarrow> (if rebases a ev then map_option ba_CashBalance (br_Balance b) else known_cash (eg_balances e) a)
     | EvExec x \<Rightarrow> map_option (\<lambda>c. wrap64 (c + cash_delta a x)) (known_cash (eg_balances e) a)
     | _ \<Rightarrow> known_cash (eg_balances e) a)"
proof (cases ev)
  case (EvExec x)
  have "bm_ok (eg_balances e)" using assms(1) by (simp add: engine_ok_def)
  with EvExec bm_Apply_cash [of "eg_balances e" a x] show ?thesis
    by (simp add: known_cash_def handle_balances del: engine_handle.simps)
next
  case (EvBaseline b)
  then show ?thesis
    by (auto simp: known_cash_def handle_balances bm_SetBaseline_def bm_HasBaseline_def bm_GetCash_def
        simp del: engine_handle.simps split: option.splits)
qed (simp_all add: known_cash_def handle_balances del: engine_handle.simps)

lemma account_cash_wrap:
  "map_option wrap64 (account_cash a (map_option wrap64 k) evs) = map_option wrap64 (account_cash a k evs)"
proof (induction evs arbitrary: k)
  case (Cons turn evs)
  obtain now it ev where t: "turn = (now, it, ev)" by (cases turn)
  have "map_option (\<lambda>c. c + cash_delta a x) (map_option wrap64 k) = Some c \<longleftrightarrow>
      (\<exists>c0. k = Some c0 \<and> c = wrap64 c0 + cash_delta a x)" for x c by auto
  show ?case
  proof (cases ev)
    case (EvExec x)
    have "map_option wrap64 (account_cash a (map_option (\<lambda>c. wrap64 c + cash_delta a x) k) evs) =
        map_option wrap64 (account_cash a (map_option wrap64 (map_option (\<lambda>c. wrap64 c + cash_delta a x) k)) evs)"
      by (rule Cons.IH [symmetric])
    also have "map_option wrap64 (map_option (\<lambda>c. wrap64 c + cash_delta a x) k) =
        map_option wrap64 (map_option (\<lambda>c. c + cash_delta a x) k)"
      by (cases k) simp_all
    finally show ?thesis using Cons.IH [of "map_option (\<lambda>c. c + cash_delta a x) k"] EvExec t
      by (simp add: option.map_comp comp_def)
  qed (use Cons.IH [of k] t in auto)
qed (simp add: option.map_comp comp_def)

lemma run_known:
  assumes "engine_ok e" and "turns_ok impl e evs"
  shows "known_cash (eg_balances (fst (engine_run impl e evs))) a =
    map_option wrap64 (account_cash a (known_cash (eg_balances e) a) evs)"
  using assms
proof (induction evs arbitrary: e)
  case Nil
  then show ?case by (simp add: known_cash_def engine_ok_def bm_GetCash_in64)
next
  case (Cons turn evs)
  obtain now it ev where t: "turn = (now, it, ev)" by (cases turn)
  let ?e = "fst (engine_handle impl now it e ev)"
  have ev: "event_in64 ev" and it: "iteration_ok impl now it e ev" and rest: "turns_ok impl ?e evs"
    using Cons.prems(2) t by simp_all
  have ih: "known_cash (eg_balances (fst (engine_run impl ?e evs))) a =
      map_option wrap64 (account_cash a (known_cash (eg_balances ?e) a) evs)"
    by (rule Cons.IH [OF engine_ok_handle [OF Cons.prems(1) ev it] rest])
  note k = handle_known [OF Cons.prems(1) ev, of impl now it a]
  show ?case
  proof (cases ev)
    case (EvExec x)
    have "known_cash (eg_balances ?e) a = map_option wrap64 (map_option (\<lambda>c. c + cash_delta a x) (known_cash (eg_balances e) a))"
      using k EvExec by (simp add: option.map_comp comp_def)
    with ih account_cash_wrap [of a "map_option (\<lambda>c. c + cash_delta a x) (known_cash (eg_balances e) a)" evs] EvExec t
    show ?thesis by (simp add: engine_run_Cons del: engine_run.simps(2) engine_handle.simps)
  qed (use ih k t in \<open>simp_all add: engine_run_Cons del: engine_run.simps(2) engine_handle.simps\<close>)
qed

lemma engine_run_append:
  "fst (engine_run impl e (evs @ evs')) = fst (engine_run impl (fst (engine_run impl e evs)) evs')"
  by (induction evs arbitrary: e) (auto simp: engine_run_Cons simp del: engine_run.simps(2))

lemma turns_ok_append:
  "turns_ok impl e (evs @ evs') \<longleftrightarrow> turns_ok impl e evs \<and> turns_ok impl (fst (engine_run impl e evs)) evs'"
  by (induction evs arbitrary: e) (auto simp: engine_run_Cons simp del: engine_run.simps(2))

lemma run_terminal:
  assumes "turns_ok impl e evs" and "eg_orders e oid = Some ord"
    and "isTerminal (to_Status ord)" and "\<forall>(now, it, ev)\<in>set evs. \<not> registers oid ev"
  shows "eg_orders (fst (engine_run impl e evs)) oid = Some ord"
  using assms
proof (induction evs arbitrary: e)
  case Nil
  then show ?case by simp
next
  case (Cons turn evs)
  obtain now it ev where t: "turn = (now, it, ev)" by (cases turn)
  have "eg_orders (fst (engine_handle impl now it e ev)) oid = Some ord"
    by (rule handle_terminal) (use Cons.prems t in auto)
  with Cons.IH [of "fst (engine_handle impl now it e ev)"] Cons.prems t show ?case
    by (auto simp: engine_run_Cons simp del: engine_run.simps(2) engine_handle.simps)
qed

lemma run_requests: "q \<in> set (snd (engine_run impl e evs)) \<Longrightarrow> request_registered e q"
proof (induction evs arbitrary: e)
  case Nil
  then show ?case by simp
next
  case (Cons turn evs)
  obtain now it ev where t: "turn = (now, it, ev)" by (cases turn)
  let ?e = "fst (engine_handle impl now it e ev)"
  from Cons.prems t consider "q \<in> set (snd (engine_handle impl now it e ev))" | "q \<in> set (snd (engine_run impl ?e evs))"
    by (auto simp: engine_run_Cons simp del: engine_run.simps(2) engine_handle.simps)
  then show ?case
  proof cases
    case 1
    then show ?thesis by (rule handle_registered)
  next
    case 2
    from Cons.IH [OF this] show ?thesis using request_registered_frame [of ?e e q] by simp
  qed
qed


section \<open>Properties of the engine\<close>

definition sample_live :: "nat engine" where
  "sample_live = sample_engine\<lparr>eg_balances := sample_account\<rparr>"

lemma sample_live_ok: "engine_ok sample_live" "bm_HasBaseline (eg_balances sample_live) ''acct''"
  using sample_account_ok
  by (simp_all add: engine_ok_def sample_live_def ot_ok_New) (simp add: sample_prices_def inv_intros)

lemma sample_iteration_ok:
  "eg_accounts e = [''acct'' \<mapsto> 7] \<Longrightarrow> iteration_ok impl now sample_iteration e (EvExec x)"
  by (simp add: iteration_ok_def range_order_def sample_iteration_def)

text \<open>C1. A whole run of the engine, from a start with any accounts and through any sequence of
  events, with any iteration order of the maps: every snapshot, order, account and holding is
  filed under its own key and every amount is a 64-bit integer; the price of every issue is its
  last tick; the cash of every account is unknown before its first baseline and afterwards the
  cash of the last good baseline plus the sales and minus the purchases since, up to 64-bit
  wrap-around; an order that was finished at some point of the run is unchanged at the end,
  unless a later placement returned its ID; the refreshes sent are exactly those due
  (one for a registered account that connects, one for every account at a poll); every request
  carries the broker registered for its account, and a dry run sends no order.\<close>

theorem engine_invariant:
  assumes "e = start_accounts strat poll dry accts" and "turns_ok impl e evs"
    and "engine_run impl e evs = (e', out)"
  shows "engine_ok e' \<and>
    (\<forall>code. ps_Get (eg_prices e') code = map_option snapshot_of (last_tick code (ticks_of evs))) \<and>
    (\<forall>a. (if bm_HasBaseline (eg_balances e') a then Some (bm_GetCash (eg_balances e') a) else None) =
       map_option wrap64 (account_cash a None evs)) \<and>
    (\<forall>pre post oid ord. evs = pre @ post \<longrightarrow>
       ot_GetOrder (eg_orders (fst (engine_run impl e pre))) oid = Some ord \<longrightarrow> isTerminal (to_Status ord) \<longrightarrow>
       (\<forall>(now, it, ev)\<in>set post. \<not> registers oid ev) \<longrightarrow> ot_GetOrder (eg_orders e') oid = Some ord) \<and>
    refreshes out = concat (map (refresh_due (map_of (rev accts))) evs) \<and>
    (\<forall>q\<in>set out. case q of
       Refresh r \<Rightarrow> map_of (rev accts) (rr_AccountID r) = Some (rr_Broker r)
     | Action r \<Rightarrow> \<not> dry \<and> map_of (rev accts) (ar_AccountID r) = Some (ar_Broker r))"
proof -
  have ok: "engine_ok e" by (simp add: assms(1) engine_ok_start)
  have run: "e' = fst (engine_run impl e evs)" "out = snd (engine_run impl e evs)" by (simp_all add: assms(3))
  have "ps_Get (eg_prices e') code = map_option snapshot_of (last_tick code (ticks_of evs))" for code
    by (simp add: run(1) run_prices ps_fold_updates assms(1)) (simp add: ps_Get_def ps_New_def split: option.splits)
  moreover have "known_cash (eg_balances e') a = map_option wrap64 (account_cash a None evs)" for a
  proof -
    have "known_cash (eg_balances e) a = None"
      by (simp add: assms(1) known_cash_def bm_HasBaseline_def bm_New_def)
    with run_known [OF ok assms(2), of a] show ?thesis by (simp add: run(1))
  qed
  moreover have "ot_GetOrder (eg_orders e') oid = Some ord"
    if "evs = pre @ post" "ot_GetOrder (eg_orders (fst (engine_run impl e pre))) oid = Some ord"
      "isTerminal (to_Status ord)" "\<forall>(now, it, ev)\<in>set post. \<not> registers oid ev" for pre post oid ord
    using run_terminal [of impl "fst (engine_run impl e pre)" post oid ord] that assms(2)
    by (simp add: run(1) ot_GetOrder_def engine_run_append turns_ok_append)
  moreover have "refreshes out = concat (map (refresh_due (map_of (rev accts))) evs)"
    using run_refreshes [OF assms(2)] by (simp add: run(2) assms(1))
  moreover have "case q of
      Refresh r \<Rightarrow> map_of (rev accts) (rr_AccountID r) = Some (rr_Broker r)
    | Action r \<Rightarrow> \<not> dry \<and> map_of (rev accts) (ar_AccountID r) = Some (ar_Broker r)" if "q \<in> set out" for q
    using run_requests [of q impl e evs] that by (cases q) (simp_all add: run(2) assms(1))
  ultimately show ?thesis
    using engine_ok_run [OF ok assms(2)] unfolding known_cash_def run(1) by blast
qed

definition sample_day :: "unit turn list" where
  "sample_day =
     [(0, sample_iteration, EvStatus \<lparr>se_AccountID = ''acct'', se_Broker = ''kis'', se_Status = StatusConnected,
         se_Message = [], se_ReceivedAt = 0\<rparr>),
      (1, sample_iteration, EvBaseline \<lparr>br_AccountID = ''acct'', 
         br_Balance = Some \<lparr>ba_TotalAsset = 1000, ba_CashBalance = 1000, ba_Holdings = []\<rparr>, br_Orders = None,
         br_Err = None\<rparr>),
      (2, sample_iteration, EvExec (sample_fill Buy 100 5)), (3, sample_iteration, EvPoll)]"

theorem engine_invariant_witness:
  "let (e, out) = engine_run (\<lambda>_. 0) (start_accounts NoopStrategy 0 False [(''acct'', 7 :: nat)]) sample_day
   in bm_GetCash (eg_balances e) ''acct'' = 500 \<and> refreshes out = [''acct'', ''acct'']"
proof -
  let ?e = "start_accounts NoopStrategy 0 False [(''acct'', 7 :: nat)]"
  obtain e' out where r: "engine_run (\<lambda>_. 0) ?e sample_day = (e', out)" by (rule prod.exhaust)
  have it: "iteration_ok (\<lambda>_. 0) now sample_iteration e ev"
    if "eg_accounts e = [''acct'' \<mapsto> 7]" "case ev of EvBaseline b \<Rightarrow> br_Orders b = None | _ \<Rightarrow> True"
    for now and e :: "nat engine" and ev :: "unit engine_event"
    using that by (auto simp: iteration_ok_def range_order_def sample_iteration_def split: engine_event.splits)
  have "turns_ok (\<lambda>_. 0) ?e sample_day"
    by (simp add: sample_day_def it balance_in64_def in64_def del: engine_handle.simps)
  note * = engine_invariant [OF refl this r]
  have day: "account_cash ''acct'' None sample_day = Some 500"
    by (simp add: sample_day_def sample_fill_def cash_delta_def isExecFill_def)
  from * have "(if bm_HasBaseline (eg_balances e') ''acct'' then Some (bm_GetCash (eg_balances e') ''acct'') else None) =
      map_option wrap64 (account_cash ''acct'' None sample_day)" by blast
  then have "bm_GetCash (eg_balances e') ''acct'' = 500" by (simp add: day in64_def split: if_splits)
  moreover from * have "refreshes out = concat (map (refresh_due (map_of (rev [(''acct'', 7 :: nat)]))) sample_day)" by blast
  then have "refreshes out = [''acct'', ''acct'']" by (simp add: sample_day_def sample_iteration_def)
  ultimately show ?thesis by (simp add: r)
qed

text \<open>The prices a strategy reads: after any run, the store holds for every code the last
  tick the engine has handled, and nothing but ticks changes it.\<close>

theorem engine_prices_last_tick:
  "ps_Get (eg_prices (fst (engine_run impl (engine_New strat poll dry) evs))) code =
    map_option snapshot_of (last_tick code (ticks_of evs))"
  by (simp add: run_prices ps_fold_updates engine_New_def)
     (simp add: ps_Get_def ps_New_def split: option.splits)

text \<open>C2. The cash of an account between two baselines: through any sequence of events that
  does not rebase the account, its cash changes by exactly the sum of its executions.\<close>

theorem engine_cash_ledger:
  assumes "engine_ok e" and "turns_ok impl e evs" and "bm_HasBaseline (eg_balances e) a"
    and "\<forall>(now, it, ev)\<in>set evs. \<not> rebases a ev"
  shows "bm_GetCash (eg_balances (fst (engine_run impl e evs))) a =
    wrap64 (bm_GetCash (eg_balances e) a + (\<Sum>x\<leftarrow>execs_of evs. cash_delta a x))"
  by (rule run_cash [OF assms])

theorem engine_cash_ledger_witness:
  "bm_GetCash (eg_balances (fst (engine_run (\<lambda>_. 0) sample_live
    [(0, sample_iteration, EvExec (sample_fill Buy 100 5) :: unit engine_event)]))) ''acct'' = 500"
proof -
  have "turns_ok (\<lambda>_. 0) sample_live [(0, sample_iteration, EvExec (sample_fill Buy 100 5) :: unit engine_event)]"
    by (simp add: sample_iteration_ok sample_live_def)
  from engine_cash_ledger [OF sample_live_ok(1) this sample_live_ok(2)] show ?thesis
    by (simp add: sample_live_def sample_account_def sample_fill_def bm_GetCash_def bm_SetBaseline_def
        cash_delta_def isExecFill_def in64_def)
qed

text \<open>Where requests go: every refresh and every order that a run sends to the worker
  names a registered account and carries the broker registered for it; in dry-run mode
  no order is sent at all.\<close>

theorem engine_requests_registered:
  "\<forall>q\<in>set (snd (engine_run impl e evs)). request_registered e q"
  by (blast intro: run_requests)

theorem engine_requests_registered_witness:
  "request_registered sample_engine (Action sample_action)"
  using engine_requests_registered [of "\<lambda>_. 0" sample_engine
      "[(0, sample_iteration, EvTick (sample_tick ''B'' 50000) :: unit engine_event)]"]
  by (simp add: sample_handle)

text \<open>C3. A finished order stays finished: once an order is filled, cancelled or rejected,
  no tick, notice, status change, poll or baseline changes it or drops it; only the
  answer to a placement with the same order ID can. (The comments of \<open>ordertracker\<close> say
  that \<open>Reconcile\<close> removes finished orders missing from the snapshot; its code removes only
  unfinished ones, and this is what is proved.)\<close>

theorem engine_terminal_stable:
  assumes "turns_ok impl e evs" and "ot_GetOrder (eg_orders e) oid = Some ord"
    and "isTerminal (to_Status ord)" and "\<forall>(now, it, ev)\<in>set evs. \<not> registers oid ev"
  shows "ot_GetOrder (eg_orders (fst (engine_run impl e evs))) oid = Some ord"
  using run_terminal [OF assms(1) _ assms(3,4)] assms(2) by (simp add: ot_GetOrder_def)

theorem engine_terminal_stable_witness:
  "map_option to_Status (ot_GetOrder (eg_orders (fst (engine_run (\<lambda>_. 0)
      (sample_engine\<lparr>eg_orders := ot_Apply ot_New (sample_notice ''filled'' 0)\<rparr>)
      [(0, sample_iteration, EvExec (sample_notice ''partial'' 4) :: unit engine_event)]))) ''1'')
    = Some StatusFilled"
proof -
  let ?e = "sample_engine\<lparr>eg_orders := ot_Apply ot_New (sample_notice ''filled'' 0)\<rparr>"
  have t: "turns_ok (\<lambda>_. 0) ?e [(0, sample_iteration, EvExec (sample_notice ''partial'' 4) :: unit engine_event)]"
    by (simp add: sample_iteration_ok)
  obtain ord where o: "ot_GetOrder (eg_orders ?e) ''1'' = Some ord" "to_Status ord = StatusFilled"
    by (simp add: ot_GetOrder_def ot_Apply_def ot_New_def sample_notice_def order_of_exec_def
        exec_transition_def mapExecStatus_def isTerminal_def)
  from engine_terminal_stable [OF t o(1)] o(2) show ?thesis by (simp add: isTerminal_def)
qed

text \<open>A repeated notice is booked twice: when the notice of a complete fill arrives a
  second time, the tracker ignores it and the order stays as it is, but the balance is
  charged again.\<close>

theorem engine_duplicate_fill_charged_twice:
  assumes "engine_ok e" and "bm_HasBaseline (eg_balances e) (xe_AccountID x)"
    and "xe_Status x = ''filled''" and "xe_Side x = Buy"
    and "e1 = fst (handleExec it e x)" and "e2 = fst (handleExec it' e1 x)"
  shows "eg_orders e2 = eg_orders e1 \<and>
    bm_GetCash (eg_balances e2) (xe_AccountID x) =
      wrap64 (bm_GetCash (eg_balances e1) (xe_AccountID x) - xe_Price x * xe_Quantity x)"
proof -
  have o: "eg_orders e1 = ot_Apply (eg_orders e) x" "eg_orders e2 = ot_Apply (eg_orders e1) x"
    and b: "eg_balances e1 = bm_Apply (eg_balances e) x" "eg_balances e2 = bm_Apply (eg_balances e1) x"
    using assms(5,6) by (simp_all add: handleExec_def Let_def)
  have "bm_ok (eg_balances e1)" "bm_HasBaseline (eg_balances e1) (xe_AccountID x)"
    using assms(1,2) b by (simp_all add: engine_ok_def bm_ok_Apply)
  from bm_Apply_cash [OF this(2,1), of x] show ?thesis
    using o b(2) assms(3,4) by (simp add: ot_Apply_idem cash_delta_def isExecFill_def)
qed

theorem engine_duplicate_fill_charged_twice_witness:
  "bm_GetCash (eg_balances (fst (handleExec sample_iteration
    (fst (handleExec sample_iteration sample_live (sample_fill Buy 100 5))) (sample_fill Buy 100 5)))) ''acct'' = 0"
proof -
  have x: "xe_AccountID (sample_fill Buy 100 5) = ''acct''" "xe_Status (sample_fill Buy 100 5) = ''filled''"
    "xe_Side (sample_fill Buy 100 5) = Buy" "xe_Price (sample_fill Buy 100 5) = 100"
    "xe_Quantity (sample_fill Buy 100 5) = 5"
    by (simp_all add: sample_fill_def)
  have "bm_GetCash (eg_balances (fst (handleExec sample_iteration sample_live (sample_fill Buy 100 5)))) ''acct'' = 500"
    using bm_Apply_cash [OF sample_account_ok(2,1), of "sample_fill Buy 100 5"]
    by (simp add: handleExec_def sample_live_def Let_def cash_delta_def x isExecFill_def)
       (simp add: sample_account_def bm_GetCash_def bm_SetBaseline_def in64_def)
  with engine_duplicate_fill_charged_twice [OF sample_live_ok(1) _ x(2,3) refl refl, of sample_iteration sample_iteration]
    sample_live_ok(2)
  show ?thesis by (simp add: x in64_def)
qed

text \<open>A signal can be repeated: a tick changes neither the orders nor the balances, so
  the same tick handled again before the answer to the first order arrives sends the
  same orders again, although the strategy is meant not to buy what is already on
  order.\<close>

theorem engine_repeated_tick_repeats_orders:
  assumes "engine_run impl e [(now, it, EvTick t), (now', it, EvTick t)] = (e2, out)"
  shows "\<exists>out1. snd (handleTick it e t) = out1 \<and> out = out1 @ out1 \<and>
    eg_orders e2 = eg_orders e \<and> eg_balances e2 = eg_balances e"
proof -
  have "ps_Update (ps_Update s t) t = ps_Update s t" for s by (simp add: ps_Update_def)
  with assms show ?thesis by (auto simp: handleTick_def Let_def)
qed

theorem engine_repeated_tick_repeats_orders_witness:
  "snd (engine_run (\<lambda>_. 0) sample_engine
    [(0, sample_iteration, EvTick (sample_tick ''B'' 50000) :: unit engine_event),
     (1, sample_iteration, EvTick (sample_tick ''B'' 50000))]) = [Action sample_action, Action sample_action]"
proof -
  obtain e2 out where r: "engine_run (\<lambda>_. 0) sample_engine
    [(0, sample_iteration, EvTick (sample_tick ''B'' 50000) :: unit engine_event),
     (1, sample_iteration, EvTick (sample_tick ''B'' 50000))] = (e2, out)"
    by (rule prod.exhaust)
  from engine_repeated_tick_repeats_orders [OF r] show ?thesis unfolding r by (simp add: sample_handle)
qed

section \<open>An order at KIS, from placing to the ledger\<close>

definition after_answer :: "go_time \<Rightarrow> 'b engine \<Rightarrow> 'b action_request \<Rightarrow> order_response \<Rightarrow> 'b engine" where
  "after_answer now e a resp = fst (handleResult now e (handleAction a (Some resp, None :: unit option)))"

definition after_exec :: "iteration \<Rightarrow> 'b engine \<Rightarrow> exec_event \<Rightarrow> 'b engine" where
  "after_exec it e x = fst (handleExec it e x)"

lemma after_answer_simps [simp]:
  "eg_balances (after_answer now e a resp) = eg_balances e"
  "eg_orders (after_answer now e a resp) = ot_Register now (eg_orders e) (ar_AccountID a) (Some resp)"
  by (simp_all add: after_answer_def handleResult_def handleAction_def)

lemma after_exec_simps [simp]:
  "eg_balances (after_exec it e x) = bm_Apply (eg_balances e) x"
  "eg_orders (after_exec it e x) = ot_Apply (eg_orders e) x"
  by (simp_all add: after_exec_def handleExec_def Let_def)

text \<open>C12. The life of an order at KIS. When the exchange accepts an order, the answer that the
  worker passes to the engine makes the tracker hold it as open with its code, quantity
  and price; when the broker then turns a message of the feed into the notice of the
  complete fill of that order, the tracker shows it as filled with nothing remaining, and the
  cash of the account has changed by the price times the quantity of the notice, downwards
  for a purchase and upwards for a sale.\<close>

theorem kis_order_life:
  assumes "kis_PlaceOrder t send token b req = Inr resp"
    and "OnMessage impl local cbc unmarshal t' b msg = Some (b', [Emit (BcExec x)])"
    and "xe_OrderID x = ors_OrderID resp" and "xe_Status x = ''filled''"
    and "xe_TotalQty x = orq_Quantity req" and "xe_RemainQty x = 0" and "in64 (orq_Quantity req)"
    and "xe_Side x = Buy \<or> xe_Side x = Sell"
    and "engine_ok e" and "bm_HasBaseline (eg_balances e) (xb_AccountID (kb_base b))"
    and "e1 = after_answer now e a resp" and "e2 = after_exec it e1 x"
  shows "\<exists>o1 o2. ot_GetOrder (eg_orders e1) (ors_OrderID resp) = Some o1 \<and> to_Status o1 = StatusOpen \<and>
      to_Code o1 = orq_Code req \<and> to_RemainQty o1 = orq_Quantity req \<and> to_Price o1 = orq_Price req \<and>
      ot_GetOrder (eg_orders e2) (ors_OrderID resp) = Some o2 \<and> to_Status o2 = StatusFilled \<and>
      to_Code o2 = orq_Code req \<and> to_FilledQty o2 = orq_Quantity req \<and> to_RemainQty o2 = 0 \<and>
      bm_GetCash (eg_balances e2) (xb_AccountID (kb_base b)) =
        wrap64 (bm_GetCash (eg_balances e) (xb_AccountID (kb_base b)) +
          (if xe_Side x = Buy then - (xe_Price x * xe_Quantity x) else xe_Price x * xe_Quantity x))"
proof -
  have acct: "xe_AccountID x = xb_AccountID (kb_base b)"
    using OnMessage_exec_account [OF assms(2), of x] by simp
  have "bm_ok (eg_balances e)" using assms(9) by (simp add: engine_ok_def)
  note cash = bm_Apply_cash [OF assms(10) this, of x]
  show ?thesis
    using kis_PlaceOrder_Inr [OF assms(1)] assms(3-8) cash
    by (auto simp: assms(11,12) ot_GetOrder_def ot_Register_def ot_Apply_def exec_transition_def isTerminal_def
      mapExecStatus_def cash_delta_def acct isExecFill_def)
qed

definition filled_notify :: stock_exec_notify where
  "filled_notify = sample_notify\<lparr>sx_Status := ''filled'', sx_Quantity := 10, sx_TotalQty := 10, sx_RemainQty := 0\<rparr>"

lemma sample_filled_message:
  obtains b' x where "OnMessage (\<lambda>_. 0) (\<lambda>h m s _. int (3600 * h + 60 * m + s)) (\<lambda>_ _ d. d) (\<lambda>_. None) 7 sample_kis
      (wire ''1'' trIDStockExec ''001'' (b64_encode (pkcs7_pad (join_on fieldSeparator
        (notify_fields ''P'' ''02'' ''00'' ''02'' ''093015'' filled_notify @ []))))) = Some (b', [Emit (BcExec x)])"
    and "xe_OrderID x = ''0001234''" and "xe_Status x = ''filled''" and "xe_TotalQty x = 10" and "xe_RemainQty x = 0"
    and "xe_Side x = Buy" and "xe_Price x = 72000" and "xe_Quantity x = 10"
proof -
  have n: "sx_OrderNo filled_notify = ''0001234''" "sx_Status filled_notify = ''filled''" "sx_TotalQty filled_notify = 10"
    "sx_RemainQty filled_notify = 0" "sx_Side filled_notify = Buy" "sx_Price filled_notify = 72000"
    "sx_Quantity filled_notify = 10" "sx_ExecTime filled_notify = 34215"
    by (simp_all add: filled_notify_def sample_notify_def)
  have c: "parse_int ''001'' = Inr 1" "pipe_free ''001''"
    by (simp_all add: parse_int_def parse_uint_def digit_val_def Let_def pipe_free_def)
  have f: "caret_free (notify_fields ''P'' ''02'' ''00'' ''02'' ''093015'' filled_notify @ [])"
    by (simp add: caret_free_def notify_fields_def filled_notify_def sample_notify_def)
  have i: "notify_in64 filled_notify" by (simp add: notify_in64_def n in64_def)
  have t: "parseTime (\<lambda>h m s _. int (3600 * h + 60 * m + s)) ''093015'' = Inr (sx_ExecTime filled_notify)"
    by (simp add: parseTime_def two_digits_def digit_val_def fraction_ns_def n)
  have s: "kis_parseSide ''02'' = Inr (sx_Side filled_notify)" "exec_status ''02'' = sx_Status filled_notify"
    by (simp_all add: kis_parseSide_def exec_status_def n)
  have k: "length (kb_encKey sample_kis) \<in> {16, 24, 32}" "length (kb_encIV sample_kis) = 16"
    by (simp_all add: sample_kis_def)
  show thesis
    by (rule that [OF OnMessage_notice [where enc = "\<lambda>d. d", OF refl refl k c(2,1) refl f i t s]])
       (simp_all add: n)
qed

theorem kis_order_life_witness:
  "\<exists>resp x. kis_PlaceOrder 5 (\<lambda>_. Inr \<lparr>kr_RtCd = ''0'', kr_MsgCd = [], kr_Msg1 = [], kor_OrdNo = ''0001234'',
      kor_OrdTmd = []\<rparr> :: unit + _) (Inr ''tok'') sample_kis sample_limit_order = Inr resp \<and>
    (\<exists>o2. ot_GetOrder (eg_orders (after_exec sample_iteration (after_answer 6 sample_live sample_action resp) x)) ''0001234'' =
      Some o2 \<and> to_Status o2 = StatusFilled \<and> to_FilledQty o2 = 10)"
proof -
  obtain resp where r: "kis_PlaceOrder 5 (\<lambda>_. Inr \<lparr>kr_RtCd = ''0'', kr_MsgCd = [], kr_Msg1 = [], kor_OrdNo = ''0001234'',
      kor_OrdTmd = []\<rparr> :: unit + _) (Inr ''tok'') sample_kis sample_limit_order = Inr resp"
    and o: "ors_OrderID resp = ''0001234''"
    by (simp add: kis_PlaceOrder_def sendREST_def CheckError_def isSuccess_def Let_def)
  obtain b' x where m: "OnMessage (\<lambda>_. 0) (\<lambda>h m s _. int (3600 * h + 60 * m + s)) (\<lambda>_ _ d. d) (\<lambda>_. None) 7 sample_kis
      (wire ''1'' trIDStockExec ''001'' (b64_encode (pkcs7_pad (join_on fieldSeparator
        (notify_fields ''P'' ''02'' ''00'' ''02'' ''093015'' filled_notify @ []))))) = Some (b', [Emit (BcExec x)])"
    and x: "xe_OrderID x = ''0001234''" "xe_Status x = ''filled''" "xe_TotalQty x = 10" "xe_RemainQty x = 0" "xe_Side x = Buy"
    by (rule sample_filled_message)
  have "bm_HasBaseline (eg_balances sample_live) (xb_AccountID (kb_base sample_kis))"
    using sample_live_ok(2) by (simp add: sample_kis_def)
  from kis_order_life [OF r m _ x(2) _ x(4) _ _ sample_live_ok(1) this refl refl, of 6 sample_action sample_iteration]
  show ?thesis using r x o by (auto simp: in64_def)
qed

section \<open>An LS packet on its way to a domain tick\<close>

text \<open>C15. An LS trade packet becomes a domain tick. In any reachable state of the LS client, when a
  trade packet arrives for a route with a subscriber that is waiting, the service queues it, one
  turn of the dispatcher delivers it, the subscriber takes exactly this message from its
  channel, and the gateway converts it to a tick with the issue, prices and volumes of the body,
  the time of the packet and the names of the broker and the account. The change rate is the rate
  of the body times 10000 in floating point, truncated: for a rate of \<open>k\<close> hundredths of a percent
  this is \<open>100 * k\<close> or one less in size, not always the exact value (\<open>ls_tick_rate\<close>).\<close>

theorem ls_packet_to_tick:
  fixes c :: "(conn_registry, 'x) ls_client"
  assumes "client_reach (ws_Subscribe :: 'e conn_answer \<Rightarrow> _) (ws_Unsubscribe :: 'e conn_answer \<Rightarrow> _) rg_env
      (new_registry d) n c" and "n < 18446744073709551616"
    and "data \<noteq> []" and "hd data = CHR ''{''" and "dec_envelope dec data = Inr m" and "\<not> isWSControlMessage m"
    and "we_TRCode m = RealtimeTRTrade" and "we_Body m \<noteq> []" and "dec_trade dec (we_Body m) = Inr t"
    and "chan_buf (rl_tradeCh svc) = []" and "0 < chan_cap (rl_tradeCh svc)"
    and "client_route KTrade (we_TRKey m) c = Some ro" and "a \<in> route_chans ro"
    and "rt_heap (lc_trade c) a = Some ch" and "chan_buf (sc_chan ch) = []"
  shows "\<exists>c' msg t'. tradeDispatch now' (handleTransportMessage dec now connID data svc) c = Some (svc, c') \<and>
    take_message a (lc_trade c') = Some (msg, t') \<and>
    tm_BrokerID (convertLSTick impl b msg) = ld_brokerID b \<and> tm_AccountID (convertLSTick impl b msg) = ld_accountID b \<and>
    tm_Code (convertLSTick impl b msg) = tb_ShCode t \<and> tm_Price (convertLSTick impl b msg) = tb_Price t \<and>
    tm_Volume (convertLSTick impl b msg) = tb_TradeVolume t \<and> tm_AccVolume (convertLSTick impl b msg) = tb_Volume t \<and>
    tm_Change (convertLSTick impl b msg) = tb_Change t \<and> tm_TradeTime (convertLSTick impl b msg) = tb_TradeTime t \<and>
    tm_ReceivedAt (convertLSTick impl b msg) = now \<and>
    tm_ChangeRate (convertLSTick impl b msg) = float_to_int64 impl (fl_mult (tb_ChangeRate t) 10000) \<and>
    (\<forall>k. tb_ChangeRate t = fl64 (of_int k / 100) \<and> \<bar>k\<bar> \<le> 1000000000000 \<longrightarrow>
      tm_ChangeRate (convertLSTick impl b msg) \<in> {100 * k, 100 * k - sgn k})"
proof -
  have "length (chan_buf (sc_chan ch)) < 64" using assms(15) by simp
  from trade_packet_dispatched [OF assms(1-14) this, of now' now connID]
  obtain c' ch' where "tradeDispatch now' (handleTransportMessage dec now connID data svc) c = Some (svc, c')"
    "rt_heap (lc_trade c') a = Some ch'" "chan_buf (sc_chan ch') = [native now connID m t]"
    using assms(15) by auto
  moreover have "tm_ChangeRate (convertLSTick impl b (native now connID m t)) \<in> {100 * k, 100 * k - sgn k}"
    if "tb_ChangeRate t = fl64 (of_int k / 100)" "\<bar>k\<bar> \<le> 1000000000000" for k
    using ls_tick_rate [of "native now connID m t" k impl b] that by (simp add: native_def)
  ultimately show ?thesis
    by (intro exI [of _ c'] exI [of _ "native now connID m t"] exI [of _ "snd (the (take_message a (lc_trade c')))"])
       (simp add: take_message_def chan_recv_def convertLSTick_def native_def Let_def)
qed

theorem ls_packet_to_tick_witness:
  "\<exists>c' msg t'. tradeDispatch 8 (handleTransportMessage demo_decoders 5 ''primary'' ''{}'' realtime_New) demo_client =
      Some (realtime_New, c') \<and> take_message 0 (lc_trade c') = Some (msg, t') \<and>
    tm_Price (convertLSTick (\<lambda>_. 0) sample_ls msg) = 70000 \<and> tm_Code (convertLSTick (\<lambda>_. 0) sample_ls msg) = ''005930''"
proof -
  have m: "dec_envelope demo_decoders ''{}'' = Inr demo_envelope" "\<not> isWSControlMessage demo_envelope"
    "we_TRCode demo_envelope = RealtimeTRTrade" "we_Body demo_envelope \<noteq> []"
    "dec_trade demo_decoders (we_Body demo_envelope) = Inr demo_trade"
    by (simp_all add: demo_decoders_def demo_envelope_def isWSControlMessage_def)
  have s: "chan_buf (rl_tradeCh (realtime_New :: unit realtime)) = []" "0 < chan_cap (rl_tradeCh (realtime_New :: unit realtime))"
    by (simp_all add: realtime_New_def chan_make_def)
  have r: "client_route KTrade (we_TRKey demo_envelope) demo_client =
      Some \<lparr>ro_trCode = ''US3'', ro_trKey = ''005930'', ro_subscribers = [(1, 0)]\<rparr>"
    "0 \<in> route_chans \<lparr>ro_trCode = ''US3'', ro_trKey = ''005930'', ro_subscribers = [(1, 0)]\<rparr>"
    "rt_heap (lc_trade demo_client) 0 = Some \<lparr>sc_chan = chan_make 64, sc_closed = False\<rparr>"
    "chan_buf (sc_chan \<lparr>sc_chan = chan_make 64, sc_closed = False\<rparr>) = []"
    by (simp_all add: demo_envelope_def demo_client_def demo_table_def route_chans_def chan_make_def)
  have n: "(1 :: nat) < 18446744073709551616" by simp
  have t: "tb_Price demo_trade = 70000" "tb_ShCode demo_trade = ''005930''" by (simp_all add: demo_trade_def)
  show ?thesis
    using ls_packet_to_tick [where ?'e = unit and dec = demo_decoders and now = 5 and now' = 8 and connID = "''primary''"
        and impl = "\<lambda>_. 0" and b = sample_ls, OF demo_client_reach n _ _ m s r] t by auto
qed

end
